(* ===== verification/Prelude.thy ===== *)
theory Prelude
  imports Main
begin

text \<open>
  What the components share: the errors of the Go sources as one datatype
  (\<open>src/internal/sandbox/errors.go\<close>, \<open>src/internal/runtimeio/recovery.go\<close>), Go's
  \<open>errors.Is\<close>, the state-and-error combinators in which the stateful operations are
  written, and generic lemmas on lists that several components use.

  An operation that reads and changes a state of type \<open>'s\<close> and returns \<open>(T, error)\<close> is a
  function \<open>'s \<Rightarrow> (err + 'a) \<times> 's\<close>. The state survives an error: a Go function that returns an
  error keeps the effects it has had.
\<close>

named_theorems keeps_rules \<open>operations that keep an invariant of the state\<close>
named_theorems ok_simps \<open>when an operation returns without an error\<close>
named_theorems triple_rules \<open>pre- and postconditions of the combinators and operations\<close>
named_theorems wp_rules \<open>weakest preconditions of the combinators and operations\<close>

section \<open>Errors\<close>

text \<open>
  The sentinels of \<open>sandbox/errors.go\<close>; \<open>context.Canceled\<close>, \<open>context.DeadlineExceeded\<close> and
  \<open>io.EOF\<close> of the standard library; \<open>ExitStatus\<close> an \<open>exec.ExitError\<close>; \<open>Native\<close> is an error of the container engine, with the
  answer of \<open>errdefs.IsNotFound\<close>; \<open>Db\<close> an error of the database; \<open>Msg\<close> an \<open>errors.New\<close> or a
  \<open>fmt.Errorf\<close> without \<open>%w\<close>; \<open>Wrap\<close> a \<open>fmt.Errorf\<close> with \<open>%w\<close>; \<open>Join\<close> an \<open>errors.Join\<close>;
  \<open>Deferred\<close> the marker type \<open>deferredRecovery\<close>.
\<close>

datatype err =
    ErrNotFound | ErrImageNotFound | ErrAlreadyRunning | ErrAlreadyStopped
  | ErrAlreadyPaused | ErrNotPaused | ErrNotRunning | ErrCommandNotFound
  | ErrCommandFinished | ErrLogTruncated | ErrUnsupported | ErrInvalidInput
  | Canceled | DeadlineExceeded | EOF
  | ExitStatus int
  | Native (native_missing: bool) string
  | Db string
  | Msg string
  | Wrap string err
  | Join "err list"
  | Deferred err

text \<open>\<open>errors.Is err target\<close>: the error itself or anything it wraps.\<close>

fun errors_is :: "err \<Rightarrow> err \<Rightarrow> bool" where
  "errors_is (Wrap s e) t = (Wrap s e = t \<or> errors_is e t)"
| "errors_is (Deferred e) t = (Deferred e = t \<or> errors_is e t)"
| "errors_is (Join es) t = (Join es = t \<or> (\<exists>e \<in> set es. errors_is e t))"
| "errors_is e t = (e = t)"

text \<open>\<open>runtimeio.DeferRecovery\<close> on a non-nil error and \<open>IsDeferredRecovery\<close> (\<open>errors.As\<close>).\<close>

definition DeferRecovery :: "err \<Rightarrow> err" where
  "DeferRecovery e = Deferred e"

fun IsDeferredRecovery :: "err \<Rightarrow> bool" where
  "IsDeferredRecovery (Deferred e) = True"
| "IsDeferredRecovery (Wrap s e) = IsDeferredRecovery e"
| "IsDeferredRecovery (Join es) = (\<exists>e \<in> set es. IsDeferredRecovery e)"
| "IsDeferredRecovery e = False"

lemma errors_is_refl [simp]: "errors_is e e"
  by (cases e) auto

lemma errors_is_deferred [simp]: "errors_is e t \<Longrightarrow> errors_is (DeferRecovery e) t"
  by (simp add: DeferRecovery_def)

text \<open>\<open>errors.Join\<close> of two possibly nil errors: nil values are dropped, nil if nothing is left.\<close>

fun join_err :: "err option \<Rightarrow> err option \<Rightarrow> err option" where
  "join_err None None = None"
| "join_err (Some a) None = Some (Join [a])"
| "join_err None (Some b) = Some (Join [b])"
| "join_err (Some a) (Some b) = Some (Join [a, b])"

lemma join_err_None_iff [simp]: "join_err a b = None \<longleftrightarrow> a = None \<and> b = None"
  by (cases "(a, b)" rule: join_err.cases) auto

section \<open>Operations with state and errors\<close>

type_synonym ('s, 'a) prog = "'s \<Rightarrow> (err + 'a) \<times> 's"

definition ret :: "'a \<Rightarrow> ('s, 'a) prog" where
  "ret x = (\<lambda>s. (Inr x, s))"

definition throw :: "err \<Rightarrow> ('s, 'a) prog" where
  "throw e = (\<lambda>s. (Inl e, s))"

text \<open>\<open>x, err := m(); if err != nil { return err }; f(x)\<close>\<close>

definition andThen :: "('s, 'a) prog \<Rightarrow> ('a \<Rightarrow> ('s, 'b) prog) \<Rightarrow> ('s, 'b) prog" where
  "andThen m f = (\<lambda>s. case m s of (Inl e, s') \<Rightarrow> (Inl e, s') | (Inr x, s') \<Rightarrow> f x s')"

text \<open>\<open>x, err := m()\<close> with the pair handed on, and a read or update of the state.\<close>

definition attempt :: "('s, 'a) prog \<Rightarrow> ('s, err + 'a) prog" where
  "attempt m = (\<lambda>s. case m s of (r, s') \<Rightarrow> (Inr r, s'))"

definition reads :: "('s \<Rightarrow> 'a) \<Rightarrow> ('s, 'a) prog" where
  "reads f = (\<lambda>s. (Inr (f s), s))"

definition modify :: "('s \<Rightarrow> 's) \<Rightarrow> ('s, unit) prog" where
  "modify f = (\<lambda>s. (Inr (), f s))"

definition failIf :: "bool \<Rightarrow> err \<Rightarrow> ('s, unit) prog" where
  "failIf b e = (if b then throw e else ret ())"

text \<open>
  \<open>defer d()\<close> around \<open>m\<close>: the deferred function runs on every return, sees the result and may
  replace it (a named result).
\<close>

definition withDefer :: "('s, 'a) prog \<Rightarrow> (err + 'a \<Rightarrow> 's \<Rightarrow> (err + 'a) \<times> 's) \<Rightarrow> ('s, 'a) prog"
  where "withDefer m d = (\<lambda>s. case m s of (r, s') \<Rightarrow> d r s')"

definition after :: "('s, 'a) prog \<Rightarrow> ('s \<Rightarrow> 's) \<Rightarrow> ('s, 'a) prog" where
  "after m f = withDefer m (\<lambda>r s. (r, f s))"

text \<open>\<open>defer p()\<close> for an operation whose own result is dropped, and a rewritten error.\<close>

definition finallyDo :: "('s, 'a) prog \<Rightarrow> ('s, unit) prog \<Rightarrow> ('s, 'a) prog" where
  "finallyDo m p = withDefer m (\<lambda>r s. (r, snd (p s)))"

definition mapErr :: "(err \<Rightarrow> err) \<Rightarrow> ('s, 'a) prog \<Rightarrow> ('s, 'a) prog" where
  "mapErr g m = (\<lambda>s. case m s of (Inl e, s') \<Rightarrow> (Inl (g e), s') | (Inr x, s') \<Rightarrow> (Inr x, s'))"

text \<open>An operation on a part of the state.\<close>

definition zoom :: "('s \<Rightarrow> 't) \<Rightarrow> ('t \<Rightarrow> 's \<Rightarrow> 's) \<Rightarrow> ('t, 'a) prog \<Rightarrow> ('s, 'a) prog" where
  "zoom get put m = (\<lambda>s. case m (get s) of (r, t) \<Rightarrow> (r, put t s))"

lemmas prog_defs = finallyDo_def mapErr_def zoom_def ret_def throw_def andThen_def attempt_def reads_def modify_def failIf_def
  withDefer_def after_def

subsection \<open>Weakest preconditions\<close>

definition wp :: "('s, 'a) prog \<Rightarrow> (err + 'a \<Rightarrow> 's \<Rightarrow> bool) \<Rightarrow> 's \<Rightarrow> bool" where
  "wp m Q s = (case m s of (r, s') \<Rightarrow> Q r s')"

lemma wpD: "wp m Q s \<Longrightarrow> m s = (r, s') \<Longrightarrow> Q r s'"
  by (simp add: wp_def)

lemma wpI: "(\<And>r s'. m s = (r, s') \<Longrightarrow> Q r s') \<Longrightarrow> wp m Q s"
  by (simp add: wp_def split: prod.split)

lemma wp_mono: "wp m P s \<Longrightarrow> (\<And>r s'. P r s' \<Longrightarrow> Q r s') \<Longrightarrow> wp m Q s"
  by (simp add: wp_def split: prod.splits)

lemma wp_conj: "wp m (\<lambda>r s. P r s \<and> Q r s) s = (wp m P s \<and> wp m Q s)"
  by (simp add: wp_def split: prod.splits)

lemma wp_ret [wp_rules]: "wp (ret x) Q s = Q (Inr x) s"
  by (simp add: wp_def ret_def)

lemma wp_throw [wp_rules]: "wp (throw e) Q s = Q (Inl e) s"
  by (simp add: wp_def throw_def)

lemma wp_andThen [wp_rules]:
  "wp (andThen m f) Q s =
     wp m (\<lambda>r s'. case r of Inl e \<Rightarrow> Q (Inl e) s' | Inr x \<Rightarrow> wp (f x) Q s') s"
  by (simp add: wp_def andThen_def split: prod.split sum.split)

lemma wp_attempt [wp_rules]: "wp (attempt m) Q s = wp m (\<lambda>r s'. Q (Inr r) s') s"
  by (simp add: wp_def attempt_def split: prod.split)

lemma wp_reads [wp_rules]: "wp (reads f) Q s = Q (Inr (f s)) s"
  by (simp add: wp_def reads_def)

lemma wp_modify [wp_rules]: "wp (modify f) Q s = Q (Inr ()) (f s)"
  by (simp add: wp_def modify_def)

lemma wp_failIf [wp_rules]: "wp (failIf b e) Q s = (if b then Q (Inl e) s else Q (Inr ()) s)"
  by (simp add: wp_def prog_defs)

lemma wp_after [wp_rules]: "wp (after m f) Q s = wp m (\<lambda>r s'. Q r (f s')) s"
  by (simp add: wp_def prog_defs split: prod.split)

lemma wp_withDefer [wp_rules]:
  "wp (withDefer m d) Q s = wp m (\<lambda>r s'. case d r s' of (r', s'') \<Rightarrow> Q r' s'') s"
  by (simp add: wp_def prog_defs split: prod.split)

lemma wp_if [wp_rules]: "wp (if b then m else n) Q s = (if b then wp m Q s else wp n Q s)"
  by simp

lemma wp_finally [wp_rules]:
  "wp (finallyDo m p) Q s = wp m (\<lambda>r s'. wp p (\<lambda>_ s''. Q r s'') s') s"
  by (simp add: wp_def prog_defs split: prod.split)

lemma wp_mapErr [wp_rules]:
  "wp (mapErr g m) Q s = wp m (\<lambda>r s'. case r of Inl e \<Rightarrow> Q (Inl (g e)) s' | Inr x \<Rightarrow> Q (Inr x) s') s"
  by (simp add: wp_def prog_defs split: prod.split sum.split)

lemma wp_zoom [wp_rules]: "wp (zoom get put m) Q s = wp m (\<lambda>r t. Q r (put t s)) (get s)"
  by (simp add: wp_def prog_defs split: prod.split)

subsection \<open>Success\<close>

lemma ok_ret [ok_simps]: "ret x s = (Inr y, s') \<longleftrightarrow> y = x \<and> s' = s"
  by (auto simp: ret_def)

lemma ok_throw [ok_simps]: "throw e s = (Inr y, s') \<longleftrightarrow> False"
  by (simp add: throw_def)

lemma ok_andThen [ok_simps]:
  "andThen m f s = (Inr y, s') \<longleftrightarrow> (\<exists>x s1. m s = (Inr x, s1) \<and> f x s1 = (Inr y, s'))"
  by (auto simp: andThen_def split: prod.splits sum.splits)

lemma ok_attempt [ok_simps]: "attempt m s = (Inr r, s') \<longleftrightarrow> m s = (r, s')"
  by (auto simp: attempt_def split: prod.splits)

lemma ok_reads [ok_simps]: "reads f s = (Inr y, s') \<longleftrightarrow> y = f s \<and> s' = s"
  by (auto simp: reads_def)

lemma ok_modify [ok_simps]: "modify f s = (Inr y, s') \<longleftrightarrow> s' = f s"
  by (auto simp: modify_def)

lemma ok_failIf [ok_simps]: "failIf b e s = (Inr y, s') \<longleftrightarrow> \<not> b \<and> s' = s"
  by (auto simp: prog_defs)

lemma ok_finally [ok_simps]:
  "finallyDo m p s = (Inr y, s') \<longleftrightarrow> (\<exists>s1. m s = (Inr y, s1) \<and> s' = snd (p s1))"
  by (auto simp: prog_defs split: prod.splits)

lemma ok_mapErr [ok_simps]: "mapErr g m s = (Inr y, s') \<longleftrightarrow> m s = (Inr y, s')"
  by (auto simp: prog_defs split: prod.splits sum.splits)

lemma ok_zoom [ok_simps]:
  "zoom get put m s = (Inr y, s') \<longleftrightarrow> (\<exists>t. m (get s) = (Inr y, t) \<and> s' = put t s)"
  by (auto simp: prog_defs split: prod.splits)

lemma ok_if [ok_simps]:
  "(if b then m else n) s = (Inr y, s') \<longleftrightarrow> (if b then m s = (Inr y, s') else n s = (Inr y, s'))"
  by simp

lemma ok_case_option [ok_simps]:
  "(case r of None \<Rightarrow> m | Some x \<Rightarrow> f x) s = (Inr y, s') \<longleftrightarrow>
     (case r of None \<Rightarrow> m s = (Inr y, s') | Some x \<Rightarrow> f x s = (Inr y, s'))"
  by (cases r) auto

lemma ok_case_sum [ok_simps]:
  "(case r of Inl e \<Rightarrow> f e | Inr x \<Rightarrow> g x) s = (Inr y, s') \<longleftrightarrow>
     (case r of Inl e \<Rightarrow> f e s = (Inr y, s') | Inr x \<Rightarrow> g x s = (Inr y, s'))"
  by (cases r) auto

subsection \<open>Pre- and postconditions\<close>

text \<open>
  \<open>triple P m Q E\<close>: from a state that satisfies \<open>P\<close>, a normal return establishes \<open>Q\<close> of the
  result and an error return establishes \<open>E\<close>.
\<close>

definition triple :: "('s \<Rightarrow> bool) \<Rightarrow> ('s, 'a) prog \<Rightarrow> ('a \<Rightarrow> 's \<Rightarrow> bool) \<Rightarrow> ('s \<Rightarrow> bool) \<Rightarrow> bool"
where
  "triple P m Q E \<longleftrightarrow>
     (\<forall>s. P s \<longrightarrow> (case m s of (Inl e, s') \<Rightarrow> E s' | (Inr x, s') \<Rightarrow> Q x s'))"

lemma tripleI:
  "(\<And>s e s'. P s \<Longrightarrow> m s = (Inl e, s') \<Longrightarrow> E s') \<Longrightarrow>
   (\<And>s x s'. P s \<Longrightarrow> m s = (Inr x, s') \<Longrightarrow> Q x s') \<Longrightarrow> triple P m Q E"
  by (auto simp: triple_def split: prod.split sum.split)

lemma tripleD:
  "triple P m Q E \<Longrightarrow> P s \<Longrightarrow> m s = (r, s') \<Longrightarrow> (case r of Inl e \<Rightarrow> E s' | Inr x \<Rightarrow> Q x s')"
  by (auto simp: triple_def split: prod.splits sum.splits)

lemma triple_ok: "triple P m Q E \<Longrightarrow> P s \<Longrightarrow> m s = (Inr x, s') \<Longrightarrow> Q x s'"
  by (drule (2) tripleD) simp

lemma triple_err: "triple P m Q E \<Longrightarrow> P s \<Longrightarrow> m s = (Inl e, s') \<Longrightarrow> E s'"
  by (drule (2) tripleD) simp

lemma triple_conseq:
  "triple P m Q E \<Longrightarrow> (\<And>s. P' s \<Longrightarrow> P s) \<Longrightarrow> (\<And>x s. Q x s \<Longrightarrow> Q' x s) \<Longrightarrow> (\<And>s. E s \<Longrightarrow> E' s) \<Longrightarrow>
     triple P' m Q' E'"
  by (fastforce simp: triple_def split: prod.splits sum.splits)

lemma triple_ret: "(\<And>s. P s \<Longrightarrow> Q x s) \<Longrightarrow> triple P (ret x) Q E"
  by (simp add: triple_def prog_defs)

lemma triple_throw: "(\<And>s. P s \<Longrightarrow> E s) \<Longrightarrow> triple P (throw e) Q E"
  by (simp add: triple_def prog_defs)

lemma triple_andThen:
  "triple P m R E \<Longrightarrow> (\<And>x. triple (R x) (f x) Q E) \<Longrightarrow> triple P (andThen m f) Q E"
  by (fastforce simp: triple_def prog_defs split: prod.splits sum.splits)

lemma triple_failIf: "(\<And>s. P s \<Longrightarrow> b \<Longrightarrow> E s) \<Longrightarrow> (\<And>s. P s \<Longrightarrow> \<not> b \<Longrightarrow> Q () s) \<Longrightarrow>
    triple P (failIf b e) Q E"
  by (simp add: triple_def prog_defs)

lemma triple_reads: "(\<And>s. P s \<Longrightarrow> Q (f s) s) \<Longrightarrow> triple P (reads f) Q E"
  by (simp add: triple_def prog_defs)

lemma triple_modify: "(\<And>s. P s \<Longrightarrow> Q () (f s)) \<Longrightarrow> triple P (modify f) Q E"
  by (simp add: triple_def prog_defs)

lemma triple_mapErr: "triple P m Q E \<Longrightarrow> triple P (mapErr g m) Q E"
  by (fastforce simp: triple_def prog_defs split: prod.splits sum.splits)

lemma triple_finally:
  assumes m: "triple P m R R'" and ok: "\<And>x. triple (R x) p (\<lambda>_. Q x) (Q x)"
    and err: "triple R' p (\<lambda>_. E) E"
  shows "triple P (finallyDo m p) Q E"
  unfolding triple_def
proof (intro allI impI)
  fix s assume P: "P s"
  obtain r s1 where r: "m s = (r, s1)" by fastforce
  obtain q s2 where q: "p s1 = (q, s2)" by fastforce
  show "case finallyDo m p s of (Inl e, s') \<Rightarrow> E s' | (Inr x, s') \<Rightarrow> Q x s'"
    using tripleD [OF m P r] tripleD [OF err _ q] tripleD [OF ok _ q] r q
    by (cases r; cases q) (auto simp: prog_defs)
qed

lemma triple_if:
  "(b \<Longrightarrow> triple P m Q E) \<Longrightarrow> (\<not> b \<Longrightarrow> triple P n Q E) \<Longrightarrow> triple P (if b then m else n) Q E"
  by simp

lemma triple_case_option:
  "(r = None \<Longrightarrow> triple P m Q E) \<Longrightarrow> (\<And>x. r = Some x \<Longrightarrow> triple P (f x) Q E) \<Longrightarrow>
     triple P (case r of None \<Rightarrow> m | Some x \<Rightarrow> f x) Q E"
  by (cases r) auto

subsection \<open>Invariants\<close>

text \<open>Whatever the result, the operation ends in a state that satisfies the invariant again.\<close>

definition keeps :: "('s \<Rightarrow> bool) \<Rightarrow> ('s, 'a) prog \<Rightarrow> bool" where
  "keeps I m \<longleftrightarrow> (\<forall>s. I s \<longrightarrow> I (snd (m s)))"

lemma keepsD: "keeps I m \<Longrightarrow> I s \<Longrightarrow> m s = (r, s') \<Longrightarrow> I s'"
  by (metis keeps_def snd_conv)

lemma keeps_ret [keeps_rules]: "keeps I (ret x)"
  by (simp add: keeps_def prog_defs)

lemma keeps_throw [keeps_rules]: "keeps I (throw e)"
  by (simp add: keeps_def prog_defs)

lemma keeps_reads [keeps_rules]: "keeps I (reads f)"
  by (simp add: keeps_def prog_defs)

lemma keeps_failIf [keeps_rules]: "keeps I (failIf b e)"
  by (simp add: keeps_def prog_defs)

lemma keeps_modify [keeps_rules]: "(\<And>s. I s \<Longrightarrow> I (f s)) \<Longrightarrow> keeps I (modify f)"
  by (simp add: keeps_def prog_defs)

lemma keeps_andThen [keeps_rules]:
  "keeps I m \<Longrightarrow> (\<And>x. keeps I (f x)) \<Longrightarrow> keeps I (andThen m f)"
  by (fastforce simp: keeps_def prog_defs split: prod.splits sum.splits)

lemma keeps_attempt [keeps_rules]: "keeps I m \<Longrightarrow> keeps I (attempt m)"
  by (fastforce simp: keeps_def prog_defs split: prod.splits)

lemma keeps_after [keeps_rules]:
  "keeps I m \<Longrightarrow> (\<And>s. I s \<Longrightarrow> I (f s)) \<Longrightarrow> keeps I (after m f)"
  by (fastforce simp: keeps_def prog_defs split: prod.splits)

lemma keeps_withDefer [keeps_rules]:
  "keeps I m \<Longrightarrow> (\<And>r. keeps I (d r)) \<Longrightarrow> keeps I (withDefer m d)"
  by (fastforce simp: keeps_def prog_defs split: prod.splits)

lemma keeps_if [keeps_rules]: "keeps I m \<Longrightarrow> keeps I n \<Longrightarrow> keeps I (if b then m else n)"
  by simp

lemma keeps_case_sum [keeps_rules]:
  "(\<And>e. keeps I (f e)) \<Longrightarrow> (\<And>x. keeps I (g x)) \<Longrightarrow>
     keeps I (case r of Inl e \<Rightarrow> f e | Inr x \<Rightarrow> g x)"
  by (cases r) auto

lemma keeps_case_option [keeps_rules]:
  "keeps I m \<Longrightarrow> (\<And>x. keeps I (f x)) \<Longrightarrow>
     keeps I (case r of None \<Rightarrow> m | Some x \<Rightarrow> f x)"
  by (cases r) auto

lemma keeps_mapErr [keeps_rules]: "keeps I m \<Longrightarrow> keeps I (mapErr g m)"
  by (fastforce simp: keeps_def prog_defs split: prod.splits sum.splits)

lemma keeps_finally [keeps_rules]: "keeps I m \<Longrightarrow> keeps I p \<Longrightarrow> keeps I (finallyDo m p)"
  by (fastforce simp: keeps_def prog_defs split: prod.splits)

lemma keeps_zoom:
  assumes "\<And>s. I s \<Longrightarrow> keeps (\<lambda>t. I (put t s)) m" and "\<And>s. put (get s) s = s"
  shows "keeps I (zoom get put m)"
  unfolding keeps_def
proof (intro allI impI)
  fix s assume "I s"
  then have "I (put (snd (m (get s))) s)"
    using assms by (simp add: keeps_def)
  then show "I (snd (zoom get put m s))" by (auto simp: prog_defs split: prod.split)
qed

lemma keeps_triple: "keeps I m \<longleftrightarrow> triple I m (\<lambda>_. I) I"
  by (simp add: keeps_def triple_def split_beta split: sum.split)

section \<open>Go maps\<close>

text \<open>A Go \<open>map\<close> that is iterated over is an association list with distinct keys.\<close>

definition store :: "'k \<Rightarrow> 'v \<Rightarrow> ('k \<times> 'v) list \<Rightarrow> ('k \<times> 'v) list" where
  "store k v m = filter (\<lambda>(k', _). k' \<noteq> k) m @ [(k, v)]"

definition remove_key :: "'k \<Rightarrow> ('k \<times> 'v) list \<Rightarrow> ('k \<times> 'v) list" where
  "remove_key k m = filter (\<lambda>(k', _). k' \<noteq> k) m"

lemma map_of_store [simp]: "map_of (store k v m) = (map_of m)(k \<mapsto> v)"
proof
  fix x
  show "map_of (store k v m) x = ((map_of m)(k \<mapsto> v)) x"
    by (induction m) (auto simp: store_def)
qed

lemma map_of_remove_key [simp]: "map_of (remove_key k m) = (map_of m)(k := None)"
proof
  fix x
  show "map_of (remove_key k m) x = ((map_of m)(k := None)) x"
    by (induction m) (auto simp: remove_key_def)
qed

lemma set_store [simp]: "set (store k v m) = insert (k, v) {x \<in> set m. fst x \<noteq> k}"
  by (auto simp: store_def)

lemma distinct_store [simp]: "distinct (map fst m) \<Longrightarrow> distinct (map fst (store k v m))"
  by (induction m) (force simp: store_def)+

lemma set_remove_key [simp]: "set (remove_key k m) = {x \<in> set m. fst x \<noteq> k}"
  by (auto simp: remove_key_def)

section \<open>Lists\<close>

text \<open>Mapping a fallible conversion over a list stops at the first error.\<close>

fun map_err :: "('a \<Rightarrow> 'e + 'b) \<Rightarrow> 'a list \<Rightarrow> 'e + 'b list" where
  "map_err f [] = Inr []"
| "map_err f (x # xs) =
     (case f x of Inl e \<Rightarrow> Inl e
      | Inr y \<Rightarrow> (case map_err f xs of Inl e \<Rightarrow> Inl e | Inr ys \<Rightarrow> Inr (y # ys)))"

lemma map_err_Inr_iff:
  "map_err f xs = Inr ys \<longleftrightarrow> list_all2 (\<lambda>x y. f x = Inr y) xs ys"
proof (induction xs arbitrary: ys)
  case Nil
  then show ?case by auto
next
  case (Cons x xs)
  show ?case by (cases ys) (auto simp: Cons.IH [symmetric] split: sum.splits)
qed

lemma map_err_length: "map_err f xs = Inr ys \<Longrightarrow> length ys = length xs"
  by (auto simp: map_err_Inr_iff dest: list_all2_lengthD)

lemma take_drop_split:
  "p + l \<le> q \<Longrightarrow>
     take l (drop p xs) @ take (q - (p + l)) (drop (p + l) xs) = take (q - p) (drop p xs)"
  using take_add [of l "q - (p + l)" "drop p xs"] by (simp add: add.commute)

lemma map_err_Inl: "map_err f xs = Inl e \<Longrightarrow> \<exists>x \<in> set xs. f x = Inl e"
  by (induction xs) (auto split: sum.splits)

section \<open>Functions that may fail\<close>

text \<open>The early return of a function without state: the value goes on, an error is the result.\<close>

definition bindE :: "'e + 'a \<Rightarrow> ('a \<Rightarrow> 'e + 'b) \<Rightarrow> 'e + 'b" where
  "bindE m f = (case m of Inl e \<Rightarrow> Inl e | Inr x \<Rightarrow> f x)"

definition guardE :: "bool \<Rightarrow> 'e \<Rightarrow> 'e + unit" where
  "guardE ok e = (if ok then Inr () else Inl e)"

lemma bindE_simps [simp]: "bindE (Inl e) f = Inl e" "bindE (Inr x) f = f x"
  by (simp_all add: bindE_def)

lemma bindE_Inr [simp]: "bindE m f = Inr y \<longleftrightarrow> (\<exists>x. m = Inr x \<and> f x = Inr y)"
  by (simp add: bindE_def split: sum.splits)

lemma guardE_Inr [simp]: "guardE ok e = Inr u \<longleftrightarrow> ok"
  by (simp add: guardE_def)

lemma guardE_simps [simp]: "guardE True e = Inr ()" "guardE False e = Inl e"
  by (simp_all add: guardE_def)

lemma bindE_cong [fundef_cong]:
  "m = m' \<Longrightarrow> (\<And>x. m' = Inr x \<Longrightarrow> f x = g x) \<Longrightarrow> bindE m f = bindE m' g"
  by (auto simp: bindE_def split: sum.splits)

section \<open>Machine integers\<close>

text \<open>\<open>int64\<close> arithmetic wraps.\<close>

definition wrap64 :: "int \<Rightarrow> int" where
  "wrap64 n = (n + 2 ^ 63) mod 2 ^ 64 - 2 ^ 63"

end
