(* ===== verification/Ring_Buffer.thy ===== *)
theory Ring_Buffer
  imports Prelude "HOL-Library.Sublist"
begin

text \<open>
  \<open>src/internal/docker/ringbuffer.go\<close>: the bounded buffer that retains a command's output and
  the readers that follow it. A byte slice is a \<open>string\<close> (a list of bytes). \<open>written\<close> and
  \<open>pos\<close> are Go \<open>int\<close>s that only grow by the bytes of one command's output; they are
  natural numbers here. A capacity of 0 makes \<open>Write\<close> divide by zero; \<open>newRingBuffer\<close> is
  only called with \<open>defaultRingSize\<close>, and the invariant \<open>ring_wf\<close> records the positive size.
  The mutex makes each operation atomic, so a concurrent run is a list of operations; a
  \<open>Read\<close> that has to wait on the condition variable gives \<open>Block\<close> and is run again later.
\<close>

section \<open>State and operations\<close>

record ring_buffer =
  buf :: string
  rsize :: nat
  written :: nat
  closed :: bool
  readErr :: "err option"

definition defaultRingSize :: nat where
  "defaultRingSize = 2 ^ 20"

definition newRingBuffer :: "nat \<Rightarrow> ring_buffer" where
  "newRingBuffer n =
     \<lparr>buf = replicate n (CHR 0x00), rsize = n, written = 0, closed = False, readErr = None\<rparr>"

text \<open>Go's \<open>copy(dst[lo:hi], src)\<close>.\<close>

definition go_copy :: "'a list \<Rightarrow> nat \<Rightarrow> nat \<Rightarrow> 'a list \<Rightarrow> 'a list" where
  "go_copy dst lo hi src =
     take lo dst @ take (hi - lo) src @ drop (lo + min (hi - lo) (length src)) dst"

definition ring_write :: "ring_buffer \<Rightarrow> string \<Rightarrow> ring_buffer" where
  "ring_write r p =
     (let n = length p in
      if n \<ge> rsize r then
        let start = (written r + n) mod rsize r;
            tail = drop (n - rsize r) p;
            b1 = go_copy (buf r) start (length (buf r)) (take (rsize r - start) tail);
            b2 = go_copy b1 0 start (drop (rsize r - start) tail)
        in r\<lparr>buf := b2, written := written r + n\<rparr>
      else
        let start = written r mod rsize r in
        if start + n \<le> rsize r then
          r\<lparr>buf := go_copy (buf r) start (length (buf r)) p, written := written r + n\<rparr>
        else
          let first = rsize r - start;
              b1 = go_copy (buf r) start (length (buf r)) (take first p);
              b2 = go_copy b1 0 (length b1) (drop first p)
          in r\<lparr>buf := b2, written := written r + n\<rparr>)"

definition closeWithError :: "ring_buffer \<Rightarrow> err option \<Rightarrow> ring_buffer" where
  "closeWithError r e =
     r\<lparr>closed := True, readErr := (if readErr r = None then e else readErr r)\<rparr>"

definition ring_close :: "ring_buffer \<Rightarrow> ring_buffer" where
  "ring_close r = closeWithError r None"

definition ring_bytes :: "ring_buffer \<Rightarrow> string" where
  "ring_bytes r =
     (if written r = 0 then []
      else if written r \<le> rsize r then take (written r) (buf r)
      else let start = written r mod rsize r
           in drop start (buf r) @ take start (buf r))"

record ring_reader =
  pos :: nat
  rclosed :: bool

definition newReader :: ring_reader where
  "newReader = \<lparr>pos = 0, rclosed = False\<rparr>"

datatype read_result = Data string | Failed err | Block

text \<open>One pass of the loop in \<open>Read\<close>, into a slice of \<open>want\<close> bytes.\<close>

definition ring_read :: "ring_buffer \<Rightarrow> ring_reader \<Rightarrow> nat \<Rightarrow> read_result \<times> ring_reader" where
  "ring_read r rr want =
     (if want = 0 then (Data [], rr)
      else if rclosed rr then (Failed EOF, rr)
      else if written r > rsize r \<and> pos rr < written r - rsize r then (Failed ErrLogTruncated, rr)
      else if written r > pos rr then
        let available = written r - pos rr;
            n = (if available > want then want else available);
            start = pos rr mod rsize r;
            out = (if start + n \<le> rsize r then take n (drop start (buf r))
                   else let first = rsize r - start
                        in take first (drop start (buf r)) @ take (n - first) (buf r))
        in (Data out, rr\<lparr>pos := pos rr + n\<rparr>)
      else if closed r then
        (case readErr r of Some e \<Rightarrow> (Failed e, rr) | None \<Rightarrow> (Failed EOF, rr))
      else (Block, rr))"

definition reader_close :: "ring_reader \<Rightarrow> ring_reader" where
  "reader_close rr = rr\<lparr>rclosed := True\<rparr>"

section \<open>The history a buffer stands for\<close>

text \<open>
  The abstract state is everything ever written. The buffer holds its last \<open>size\<close> bytes, the
  byte of history index \<open>i\<close> at slot \<open>i mod size\<close>.
\<close>

definition ring_wf :: "ring_buffer \<Rightarrow> bool" where
  "ring_wf r \<longleftrightarrow> 0 < rsize r \<and> length (buf r) = rsize r"

definition ring_hist :: "ring_buffer \<Rightarrow> string \<Rightarrow> bool" where
  "ring_hist r h \<longleftrightarrow> ring_wf r \<and> written r = length h \<and>
     (\<forall>i. length h - rsize r \<le> i \<and> i < length h \<longrightarrow> buf r ! (i mod rsize r) = h ! i)"

lemma ring_hist_new: "0 < n \<Longrightarrow> ring_hist (newRingBuffer n) []"
  by (simp add: ring_hist_def ring_wf_def newRingBuffer_def)

lemma length_go_copy [simp]:
  "lo \<le> hi \<Longrightarrow> hi \<le> length dst \<Longrightarrow> length (go_copy dst lo hi src) = length dst"
  by (simp add: go_copy_def)

lemma nth_go_copy:
  assumes "lo \<le> hi" and "hi \<le> length dst" and "i < length dst"
  shows "go_copy dst lo hi src ! i =
    (if lo \<le> i \<and> i < lo + min (hi - lo) (length src) then src ! (i - lo) else dst ! i)"
  using assms by (auto simp: go_copy_def nth_append min_def)

lemma mod_add_cases:
  assumes "0 < (m::nat)" and "d < m"
  shows "(x + d) mod m = (if x mod m + d < m then x mod m + d else x mod m + d - m)"
proof -
  have "(x + d) mod m = (x mod m + d) mod m"
    by (simp add: mod_simps)
  also have "\<dots> = (if x mod m + d < m then x mod m + d else (x mod m + d - m) mod m)"
    by (rule mod_if)
  also have "(x mod m + d - m) mod m = x mod m + d - m"
    using assms mod_less_divisor [of m x] by (intro mod_less) linarith
  finally show ?thesis .
qed

lemma mod_sub_cases:
  assumes "0 < (m::nat)" and "0 < e" and "e \<le> m" and "e \<le> x"
  shows "(x - e) mod m = (if e \<le> x mod m then x mod m - e else x mod m + m - e)"
proof -
  define y where "y = x - e"
  have x: "x = y + e" using assms by (simp add: y_def)
  show ?thesis
  proof (cases "e = m")
    case True
    then show ?thesis using assms by (simp add: x not_le)
  next
    case False
    then have "x mod m = (if y mod m + e < m then y mod m + e else y mod m + e - m)"
      using assms mod_add_cases [of m e y] by (simp add: x)
    moreover from assms have "y mod m < m" by simp
    ultimately show ?thesis
      using assms False unfolding x by (simp split: if_splits; linarith)
  qed
qed

text \<open>Where a byte lands when a block is copied in two parts around the end of the buffer.\<close>

lemma nth_full_copy:
  assumes "s \<le> length b" and "length t = length b" and "d < length b"
  shows "go_copy (go_copy b s (length b) (take (length b - s) t)) 0 s (drop (length b - s) t) !
    (if s + d < length b then s + d else s + d - length b) = t ! d"
  using assms by (auto simp: nth_go_copy not_less)

lemma nth_wrap_copy:
  assumes "s < length b" and "length p < length b" and "length b < s + length p"
  defines "c \<equiv> go_copy (go_copy b s (length b) (take (length b - s) p)) 0 (length b)
             (drop (length b - s) p)"
  shows "d < length p \<Longrightarrow>
      c ! (if s + d < length b then s + d else s + d - length b) = p ! d"
    and "s + length p - length b \<le> j \<Longrightarrow> j < s \<Longrightarrow> c ! j = b ! j"
  using assms by (auto simp: nth_go_copy not_less)

lemma nth_flat_copy:
  assumes "s + length p \<le> length b"
  shows "d < length p \<Longrightarrow> go_copy b s (length b) p ! (s + d) = p ! d"
    and "j < length b \<Longrightarrow> j < s \<or> s + length p \<le> j \<Longrightarrow> go_copy b s (length b) p ! j = b ! j"
  using assms by (auto simp: nth_go_copy)

text \<open>A write appends to the history: the long write, then the short one.\<close>

lemma ring_hist_write_long:
  assumes h: "ring_hist r h" and n: "rsize r \<le> length p"
  shows "ring_hist (ring_write r p) (h @ p)"
proof -
  from h have sz: "0 < rsize r" "length (buf r) = rsize r" "written r = length h"
    by (auto simp: ring_hist_def ring_wf_def)
  define s where "s = (length h + length p) mod rsize r"
  define t where "t = drop (length p - rsize r) p"
  define b where "b = go_copy (go_copy (buf r) s (length (buf r)) (take (rsize r - s) t)) 0 s
    (drop (rsize r - s) t)"
  have s: "s < rsize r" and t: "length t = rsize r" using sz n by (simp_all add: s_def t_def)
  have eq: "ring_write r p = r\<lparr>buf := b, written := length h + length p\<rparr>"
    using n sz by (simp add: ring_write_def Let_def b_def s_def t_def)
  have "b ! (i mod rsize r) = (h @ p) ! i"
    if i: "length h + length p - rsize r \<le> i" "i < length h + length p" for i
  proof -
    define d where "d = i - (length h + length p - rsize r)"
    have d: "d < rsize r" "i = length h + length p - rsize r + d"
      using i n by (auto simp: d_def)
    have "(length h + length p - rsize r) mod rsize r = s"
      using n by (simp add: le_mod_geq s_def)
    then have "i mod rsize r = (if s + d < rsize r then s + d else s + d - rsize r)"
      using mod_add_cases [of "rsize r" d "length h + length p - rsize r"] d sz by simp
    then have "b ! (i mod rsize r) = t ! d"
      using nth_full_copy [of s "buf r" t d] s t d sz by (auto simp: b_def split: if_splits)
    also have "\<dots> = p ! (length p - rsize r + d)"
      using d n by (simp add: t_def)
    also have "length p - rsize r + d = i - length h" using d n by simp
    finally have "b ! (i mod rsize r) = p ! (i - length h)" .
    moreover have "length h \<le> i" using d n by simp
    ultimately show ?thesis by (simp add: nth_append)
  qed
  with eq sz s show ?thesis
    by (simp add: ring_hist_def ring_wf_def b_def)
qed

lemma ring_hist_write_short:
  assumes h: "ring_hist r h" and n: "length p < rsize r"
  shows "ring_hist (ring_write r p) (h @ p)"
proof -
  from h have sz: "0 < rsize r" "length (buf r) = rsize r" "written r = length h"
    and old: "\<And>i. length h - rsize r \<le> i \<Longrightarrow> i < length h \<Longrightarrow> buf r ! (i mod rsize r) = h ! i"
    by (auto simp: ring_hist_def ring_wf_def)
  define s where "s = length h mod rsize r"
  define b where "b = (if s + length p \<le> rsize r then go_copy (buf r) s (length (buf r)) p
    else go_copy (go_copy (buf r) s (length (buf r)) (take (rsize r - s) p)) 0
               (length (buf r)) (drop (rsize r - s) p))"
  have s: "s < rsize r" using sz by (simp add: s_def)
  have eq: "ring_write r p = r\<lparr>buf := b, written := length h + length p\<rparr>"
    using n sz s by (simp add: ring_write_def Let_def b_def s_def)
  have "b ! (i mod rsize r) = (h @ p) ! i"
    if i: "length h + length p - rsize r \<le> i" "i < length h + length p" for i
  proof (cases "i < length h")
    case True
    define e where "e = length h - i"
    have e: "0 < e" "e \<le> rsize r - length p" "e \<le> length h" "i = length h - e"
      using True i n by (auto simp: e_def)
    have im: "i mod rsize r = (if e \<le> s then s - e else s + rsize r - e)"
      using mod_sub_cases [of "rsize r" e "length h"] e sz n by (simp add: s_def)
    have "b ! (i mod rsize r) = buf r ! (i mod rsize r)"
    proof (cases "s + length p \<le> rsize r")
      case True
      have "i mod rsize r < s \<or> s + length p \<le> i mod rsize r"
        using im e n by (auto split: if_splits)
      with True show ?thesis
        using nth_flat_copy(2) [of s p "buf r" "i mod rsize r"] sz by (simp add: b_def)
    next
      case False
      then have "s + length p - rsize r \<le> i mod rsize r" "i mod rsize r < s"
        using im e n by (auto split: if_splits)
      with False show ?thesis
        using nth_wrap_copy(2) [of s "buf r" p "i mod rsize r"] s sz n by (simp add: b_def)
    qed
    with old [of i] True i show ?thesis by (simp add: nth_append)
  next
    case False
    define d where "d = i - length h"
    have d: "d < length p" "i = length h + d" using False i by (auto simp: d_def)
    have im: "i mod rsize r = (if s + d < rsize r then s + d else s + d - rsize r)"
      using mod_add_cases [of "rsize r" d "length h"] d sz n by (simp add: s_def)
    have "b ! (i mod rsize r) = p ! d"
      using nth_flat_copy(1) [of s p "buf r" d] nth_wrap_copy(1) [of s "buf r" p d] im d s sz n
      by (auto simp: b_def split: if_splits)
    with d show ?thesis by (simp add: nth_append)
  qed
  with eq sz s show ?thesis
    by (simp add: ring_hist_def ring_wf_def b_def)
qed

lemma ring_hist_write: "ring_hist r h \<Longrightarrow> ring_hist (ring_write r p) (h @ p)"
  by (cases "rsize r \<le> length p") (simp_all add: ring_hist_write_long ring_hist_write_short)

lemma ring_hist_close: "ring_hist r h \<Longrightarrow> ring_hist (closeWithError r e) h"
  by (simp add: ring_hist_def ring_wf_def closeWithError_def)

lemma ring_size_write [simp]: "rsize (ring_write r p) = rsize r"
  by (simp add: ring_write_def Let_def)

section \<open>What is read back\<close>

lemma ring_bytes_hist: "ring_hist r h \<Longrightarrow> ring_bytes r = drop (length h - rsize r) h"
proof (rule nth_equalityI)
  assume h: "ring_hist r h"
  then have sz: "0 < rsize r" "length (buf r) = rsize r" "written r = length h"
    and win: "\<And>i. length h - rsize r \<le> i \<Longrightarrow> i < length h \<Longrightarrow> buf r ! (i mod rsize r) = h ! i"
    by (auto simp: ring_hist_def ring_wf_def)
  show len: "length (ring_bytes r) = length (drop (length h - rsize r) h)"
    using sz by (auto simp: ring_bytes_def Let_def)
  fix i assume "i < length (ring_bytes r)"
  then have i: "i < rsize r" "i < length h" "length h - rsize r + i < length h"
    using len sz by auto
  show "ring_bytes r ! i = drop (length h - rsize r) h ! i"
  proof (cases "length h \<le> rsize r")
    case True
    then show ?thesis using win [of i] i sz by (simp add: ring_bytes_def)
  next
    case False
    define s where "s = length h mod rsize r"
    have s: "s < rsize r" "(length h - rsize r) mod rsize r = s"
      using sz False by (simp_all add: s_def le_mod_geq)
    have "ring_bytes r = drop s (buf r) @ take s (buf r)"
      using False sz by (auto simp: ring_bytes_def Let_def s_def)
    then have "ring_bytes r ! i = buf r ! (if s + i < rsize r then s + i else s + i - rsize r)"
      using s sz i by (auto simp: nth_append add.commute not_less)
    also have "\<dots> = h ! (length h - rsize r + i)"
      using win [of "length h - rsize r + i"] i s
        mod_add_cases [of "rsize r" i "length h - rsize r"] sz
      by (simp split: if_splits)
    finally show ?thesis using i by simp
  qed
qed

text \<open>The slice a read takes out of the buffer, when the history still holds it.\<close>

lemma ring_slice:
  assumes "ring_hist r h" and "length h - rsize r \<le> p" and "p + n \<le> length h"
    and "n \<le> rsize r" and "s = p mod rsize r"
  shows "(if s + n \<le> rsize r then take n (drop s (buf r))
     else take (rsize r - s) (drop s (buf r)) @ take (n - (rsize r - s)) (buf r)) =
     take n (drop p h)" (is "?l = _")
proof (rule nth_equalityI)
  from assms(1) have sz: "0 < rsize r" "length (buf r) = rsize r"
    and win: "\<And>i. length h - rsize r \<le> i \<Longrightarrow> i < length h \<Longrightarrow> buf r ! (i mod rsize r) = h ! i"
    by (auto simp: ring_hist_def ring_wf_def)
  have s: "s < rsize r" using sz assms(5) by simp
  show len: "length ?l = length (take n (drop p h))"
    using assms(3,4) s sz by (auto simp: min_def)
  fix i assume "i < length ?l"
  then have i: "i < n" using len assms(3) by simp
  then have m: "(p + i) mod rsize r = (if s + i < rsize r then s + i else s + i - rsize r)"
    using mod_add_cases [of "rsize r" i p] sz assms(4,5) by simp
  have "?l ! i = buf r ! (if s + i < rsize r then s + i else s + i - rsize r)"
    using i s sz assms(4) by (auto simp: nth_append not_less add.commute)
  also have "\<dots> = h ! (p + i)"
    using win [of "p + i"] i assms(2,3) m by simp
  finally show "?l ! i = take n (drop p h) ! i"
    using i assms(3) by simp
qed

lemma ring_read_Data:
  assumes h: "ring_hist r h" and p: "pos rr \<le> length h" and r: "ring_read r rr want = (Data d, rr')"
  shows "rr' = rr\<lparr>pos := pos rr + length d\<rparr> \<and> pos rr + length d \<le> length h \<and>
    d = take (length d) (drop (pos rr) h)"
proof (cases "want = 0")
  case True
  then show ?thesis using r p by (auto simp: ring_read_def)
next
  case False
  have w: "written r = length h" using h by (simp add: ring_hist_def)
  let ?n = "if length h - pos rr > want then want else length h - pos rr"
  have c: "\<not> rclosed rr" "\<not> (length h > rsize r \<and> pos rr < length h - rsize r)"
    "pos rr < length h"
    using r False w by (auto simp: ring_read_def split: if_splits option.splits)
  have "take ?n (drop (pos rr) h) = d \<and> rr' = rr\<lparr>pos := pos rr + ?n\<rparr>"
    using r c False w ring_slice [OF h, of "pos rr" ?n "pos rr mod rsize r"]
    by (auto simp: ring_read_def Let_def)
  moreover have "length (take ?n (drop (pos rr) h)) = ?n" by simp
  ultimately show ?thesis using p by auto
qed

lemma ring_read_other:
  assumes "ring_hist r h" and "ring_read r rr want = (x, rr')" and "\<nexists>d. x = Data d"
  shows "rr' = rr"
  using assms by (auto simp: ring_read_def Let_def split: if_splits option.splits)

text \<open>A terminal result other than truncation is only given when nothing is left to read.\<close>

lemma ring_read_Failed:
  assumes "ring_hist r h" and "pos rr \<le> length h" and "ring_read r rr want = (Failed e, rr')"
    and "\<not> rclosed rr" and "e \<noteq> ErrLogTruncated"
  shows "pos rr = length h"
  using assms by (auto simp: ring_read_def Let_def ring_hist_def split: if_splits option.splits)

section \<open>The interface of a followed log\<close>

text \<open>
  What a consumer of a command's output relies on: the sink keeps an abstract history, a read
  hands out the next bytes of it, and a failure that is not truncation comes after the last
  byte. \<open>stream_run\<close> is a writer and a reader interleaved in any order.
\<close>

datatype stream_event = Wrote string | Finished "err option" | Read nat | ReaderClosed

fun stream_run :: "('r \<Rightarrow> string \<Rightarrow> 'r) \<Rightarrow> ('r \<Rightarrow> err option \<Rightarrow> 'r) \<Rightarrow>
    ('r \<Rightarrow> ring_reader \<Rightarrow> nat \<Rightarrow> read_result \<times> ring_reader) \<Rightarrow>
    'r \<times> ring_reader \<Rightarrow> stream_event list \<Rightarrow> read_result list \<times> 'r \<times> ring_reader" where
  "stream_run wr fin rd st [] = ([], st)"
| "stream_run wr fin rd (r, rr) (Wrote p # es) = stream_run wr fin rd (wr r p, rr) es"
| "stream_run wr fin rd (r, rr) (Finished e # es) = stream_run wr fin rd (fin r e, rr) es"
| "stream_run wr fin rd (r, rr) (ReaderClosed # es) =
     stream_run wr fin rd (r, reader_close rr) es"
| "stream_run wr fin rd (r, rr) (Read n # es) =
     (case rd r rr n of (x, rr') \<Rightarrow>
      (case stream_run wr fin rd (r, rr') es of (xs, st) \<Rightarrow> (x # xs, st)))"

fun delivered :: "read_result list \<Rightarrow> string" where
  "delivered [] = []"
| "delivered (Data d # xs) = d @ delivered xs"
| "delivered (x # xs) = delivered xs"

fun produced :: "stream_event list \<Rightarrow> string" where
  "produced [] = []"
| "produced (Wrote p # es) = p @ produced es"
| "produced (e # es) = produced es"

lemma delivered_append [simp]: "delivered (xs @ ys) = delivered xs @ delivered ys"
  by (induction xs rule: delivered.induct) auto

lemma produced_append [simp]: "produced (es @ fs) = produced es @ produced fs"
  by (induction es rule: produced.induct) auto

lemma stream_run_append:
  "stream_run wr fin rd st (es @ fs) =
     (case stream_run wr fin rd st es of (xs, st') \<Rightarrow>
      (case stream_run wr fin rd st' fs of (ys, st'') \<Rightarrow> (xs @ ys, st'')))"
  by (induction wr fin rd st es rule: stream_run.induct) (auto split: prod.splits)

locale followed_log =
  fixes wr :: "'r \<Rightarrow> string \<Rightarrow> 'r"
    and fin :: "'r \<Rightarrow> err option \<Rightarrow> 'r"
    and rd :: "'r \<Rightarrow> ring_reader \<Rightarrow> nat \<Rightarrow> read_result \<times> ring_reader"
    and hist :: "'r \<Rightarrow> string \<Rightarrow> bool"
  assumes hist_wr: "hist r h \<Longrightarrow> hist (wr r p) (h @ p)"
    and hist_fin: "hist r h \<Longrightarrow> hist (fin r c) h"
    and rd_Data: "hist r h \<Longrightarrow> pos rr \<le> length h \<Longrightarrow> rd r rr n = (Data d, rr') \<Longrightarrow>
      rr' = rr\<lparr>pos := pos rr + length d\<rparr> \<and> pos rr + length d \<le> length h \<and>
      d = take (length d) (drop (pos rr) h)"
    and rd_other: "hist r h \<Longrightarrow> rd r rr n = (x, rr') \<Longrightarrow> \<nexists>d. x = Data d \<Longrightarrow> rr' = rr"
    and rd_Failed: "hist r h \<Longrightarrow> pos rr \<le> length h \<Longrightarrow> rd r rr n = (Failed e, rr') \<Longrightarrow>
      \<not> rclosed rr \<Longrightarrow> e \<noteq> ErrLogTruncated \<Longrightarrow> pos rr = length h"
begin

lemma run_hist:
  assumes "hist r h" and "pos rr \<le> length h" and "stream_run wr fin rd (r, rr) es = (xs, r', rr')"
  shows "hist r' (h @ produced es) \<and> pos rr \<le> pos rr' \<and> pos rr' \<le> length (h @ produced es) \<and>
    delivered xs = take (pos rr' - pos rr) (drop (pos rr) (h @ produced es)) \<and>
    (ReaderClosed \<notin> set es \<longrightarrow> rclosed rr' = rclosed rr)"
  using assms
proof (induction es arbitrary: r rr h xs)
  case Nil
  then show ?case by simp
next
  case (Cons e es)
  show ?case
  proof (cases e)
    case (Wrote p)
    then show ?thesis
      using Cons.IH [OF hist_wr [OF Cons.prems(1)], of rr p] Cons.prems by simp
  next
    case (Finished err)
    then show ?thesis using Cons.IH [OF hist_fin [OF Cons.prems(1)], of rr] Cons.prems by simp
  next
    case ReaderClosed
    then show ?thesis
      using Cons.IH [OF Cons.prems(1), of "reader_close rr"] Cons.prems
      by (simp add: reader_close_def)
  next
    case (Read n)
    obtain x rr1 where x: "rd r rr n = (x, rr1)" by (cases "rd r rr n")
    obtain ys where ys: "stream_run wr fin rd (r, rr1) es = (ys, r', rr')" "xs = x # ys"
      using Cons.prems(3) x Read by (auto split: prod.splits)
    show ?thesis
    proof (cases "\<exists>d. x = Data d")
      case True
      then obtain d where d: "x = Data d" by blast
      define H where "H = h @ produced es"
      have r1: "rr1 = rr\<lparr>pos := pos rr + length d\<rparr>" "pos rr + length d \<le> length h"
        "d = take (length d) (drop (pos rr) h)"
        using rd_Data [OF Cons.prems(1,2) x [unfolded d]] by auto
      then have d': "d = take (length d) (drop (pos rr) H)"
        by (simp add: H_def)
      have ih: "hist r' H" "pos rr1 \<le> pos rr'" "pos rr' \<le> length H"
        "delivered ys = take (pos rr' - pos rr1) (drop (pos rr1) H)"
        "ReaderClosed \<notin> set es \<longrightarrow> rclosed rr' = rclosed rr1"
        using Cons.IH [OF Cons.prems(1) _ ys(1)] r1(1,2) by (auto simp: H_def)
      have "delivered xs = take (pos rr' - pos rr) (drop (pos rr) H)"
        using take_drop_split [of "pos rr" "length d" "pos rr'" H] ih r1(1) d' d ys(2) by simp
      then show ?thesis using ih r1(1) Read by (simp add: H_def)
    next
      case False
      then have "rr1 = rr" and "delivered xs = delivered ys"
        using rd_other [OF Cons.prems(1) x] ys(2) by (auto, cases x, auto)
      then show ?thesis using Cons.IH [OF Cons.prems(1,2)] ys(1) Read by simp
    qed
  qed
qed

lemma run_prefix:
  assumes "hist r []" and "stream_run wr fin rd (r, newReader) es = (xs, st)"
  shows "prefix (delivered xs) (produced es)"
proof -
  obtain r' rr' where st: "st = (r', rr')" by (cases st)
  show ?thesis
    using run_hist [OF assms(1) _ assms(2) [unfolded st]]
    by (auto simp: newReader_def take_is_prefix)
qed

lemma run_complete:
  assumes "hist r []" and "ReaderClosed \<notin> set es"
    and "stream_run wr fin rd (r, newReader) (es @ [Read n]) = (xs @ [Failed e], st)"
    and "e \<noteq> ErrLogTruncated"
  shows "delivered xs = produced es"
proof -
  obtain ys r' rr' where ys: "stream_run wr fin rd (r, newReader) es = (ys, r', rr')"
    by (metis surj_pair)
  then obtain rr'' where "xs = ys" and rd: "rd r' rr' n = (Failed e, rr'')"
    using assms(3) by (auto simp: stream_run_append split: prod.splits)
  have inv: "hist r' (produced es)" "pos rr' \<le> length (produced es)" "\<not> rclosed rr'"
    "delivered ys = take (pos rr') (produced es)"
    using run_hist [OF assms(1) _ ys] assms(2) by (auto simp: newReader_def)
  then have "pos rr' = length (produced es)"
    using rd_Failed [OF inv(1,2) rd inv(3) assms(4)] by simp
  with inv(4) \<open>xs = ys\<close> show ?thesis by simp
qed

end

interpretation ring: followed_log ring_write closeWithError ring_read ring_hist
  by unfold_locales
    (auto simp: ring_hist_write ring_hist_close ring_read_Data ring_read_other ring_read_Failed
      dest: ring_read_Data ring_read_other ring_read_Failed)

definition ring_run :: "ring_buffer \<times> ring_reader \<Rightarrow> stream_event list \<Rightarrow>
    read_result list \<times> ring_buffer \<times> ring_reader" where
  "ring_run = stream_run ring_write closeWithError ring_read"

lemma ring_run_rsize: "rsize (fst (snd (ring_run (r, rr) es))) = rsize r"
proof (induction es arbitrary: r rr)
  case (Cons e es)
  then show ?case
    by (cases e) (simp_all add: ring_run_def closeWithError_def split: prod.splits, metis fst_conv snd_conv)
qed (simp add: ring_run_def)

text \<open>
  C7: A reader that follows a command's output while it is written gets a prefix of what was
  written, byte for byte, whatever the interleaving of writes, reads and closes and however
  often the buffer has wrapped around.
\<close>

theorem reader_gets_prefix:
  assumes "0 < n" and "ring_run (newRingBuffer n, newReader) es = (xs, st)"
  shows "prefix (delivered xs) (produced es)"
  using ring.run_prefix [OF ring_hist_new [OF assms(1)]] assms(2) by (simp add: ring_run_def)

theorem reader_gets_prefix_witness:
  "prefix (delivered [Data ''bcd'', Failed ErrLogTruncated]) ''bcdefgh''"
proof -
  have "ring_run (newRingBuffer 3, newReader) [Wrote ''bcd'', Read 9, Wrote ''efgh'', Read 9] =
      ([Data ''bcd'', Failed ErrLogTruncated], snd (ring_run (newRingBuffer 3, newReader)
        [Wrote ''bcd'', Read 9, Wrote ''efgh'', Read 9]))"
    by code_simp
  from reader_gets_prefix [OF _ this] show ?thesis by simp
qed

text \<open>
  C8: When a read ends with an error that is not \<open>ErrLogTruncated\<close> (the end of file, or the
  source's own failure) and the reader was not closed, the reader has received every byte that
  was written: truncation is never reported as a complete stream.
\<close>

theorem terminal_read_is_complete:
  assumes "0 < n" and "ReaderClosed \<notin> set es" and "e \<noteq> ErrLogTruncated"
    and "ring_run (newRingBuffer n, newReader) (es @ [Read w]) = (xs @ [Failed e], st)"
  shows "delivered xs = produced es"
  using ring.run_complete [OF ring_hist_new [OF assms(1)] assms(2)] assms(3,4)
  by (simp add: ring_run_def)

theorem terminal_read_is_complete_witness:
  "delivered [Data ''ab'', Data ''cde''] = ''abcde''"
proof -
  let ?es = "[Wrote ''ab'', Read 2, Wrote ''cde'', Finished None, Read 9]"
  have "ring_run (newRingBuffer 3, newReader) (?es @ [Read 9]) =
      ([Data ''ab'', Data ''cde''] @ [Failed EOF],
       snd (ring_run (newRingBuffer 3, newReader) (?es @ [Read 9])))"
    by code_simp
  from terminal_read_is_complete [OF _ _ _ this] show ?thesis by simp
qed

text \<open>
  The snapshot \<open>Bytes\<close> of a buffer of capacity \<open>n\<close> is exactly the last \<open>n\<close> bytes
  written (all of them, if there were fewer), after any run.
\<close>

lemma snapshot_is_tail:
  assumes "0 < n" and "ring_run (newRingBuffer n, newReader) es = (xs, r, rr)"
  shows "ring_bytes r = drop (length (produced es) - n) (produced es)"
proof -
  have "ring_hist r (produced es)"
    using ring.run_hist [OF ring_hist_new [OF assms(1)], of newReader es xs r rr] assms(2)
    by (simp add: ring_run_def newReader_def)
  moreover have "rsize r = n"
    using assms(2) ring_run_rsize [of "newRingBuffer n" newReader es]
    by (simp add: newRingBuffer_def)
  ultimately show ?thesis using ring_bytes_hist by blast
qed

end
