(* ===== verification/Go_Strings.thy ===== *)
theory Go_Strings
  imports Prelude "HOL-Library.List_Lexorder" "HOL-Library.Char_ord"
begin

text \<open>
  What the sources use of Go's \<open>strings\<close>, \<open>strconv\<close> and \<open>sort\<close> packages, on strings as byte
  lists: prefixes and suffixes, \<open>Split\<close>, \<open>Cut\<close>, \<open>TrimLeft\<close>, decimal printing and parsing.
  \<open>List_Lexorder\<close> and \<open>Char_ord\<close> give Go's byte-wise string order, so \<open>sort\<close> is
  \<open>sort.Strings\<close>.
\<close>

section \<open>Searching and cutting\<close>

definition hasPrefix :: "string \<Rightarrow> string \<Rightarrow> bool" where
  "hasPrefix s p \<longleftrightarrow> take (length p) s = p"

definition hasSuffix :: "string \<Rightarrow> string \<Rightarrow> bool" where
  "hasSuffix s p \<longleftrightarrow> length p \<le> length s \<and> drop (length s - length p) s = p"

definition trimPrefix :: "string \<Rightarrow> string \<Rightarrow> string" where
  "trimPrefix s p = (if hasPrefix s p then drop (length p) s else s)"

definition trimSuffix :: "string \<Rightarrow> string \<Rightarrow> string" where
  "trimSuffix s p = (if hasSuffix s p then take (length s - length p) s else s)"

fun containsStr :: "string \<Rightarrow> string \<Rightarrow> bool" where
  "containsStr [] p = (p = [])"
| "containsStr (c # s) p = (hasPrefix (c # s) p \<or> containsStr s p)"

definition containsAny :: "string \<Rightarrow> string \<Rightarrow> bool" where
  "containsAny s cs \<longleftrightarrow> list_ex (\<lambda>c. c \<in> set cs) s"

text \<open>\<open>strings.Split\<close> and \<open>strings.Cut\<close> with a one-byte separator.\<close>

fun splitOn :: "char \<Rightarrow> string \<Rightarrow> string list" where
  "splitOn c [] = [[]]"
| "splitOn c (x # s) =
     (if x = c then [] # splitOn c s
      else (case splitOn c s of p # ps \<Rightarrow> (x # p) # ps | [] \<Rightarrow> [[x]]))"

fun cutAt :: "char \<Rightarrow> string \<Rightarrow> string \<times> string \<times> bool" where
  "cutAt c [] = ([], [], False)"
| "cutAt c (x # s) =
     (if x = c then ([], s, True) else (case cutAt c s of (a, b, f) \<Rightarrow> (x # a, b, f)))"

definition trimLeft :: "string \<Rightarrow> string \<Rightarrow> string" where
  "trimLeft s cs = dropWhile (\<lambda>c. c \<in> set cs) s"

text \<open>\<open>strings.TrimSpace\<close> on ASCII text.\<close>

definition trimSpace :: "string \<Rightarrow> string" where
  "trimSpace s =
     (let blanks = [CHR '' '', CHR 0x09, CHR 0x0A, CHR 0x0B, CHR 0x0C, CHR 0x0D] in
      rev (trimLeft (rev (trimLeft s blanks)) blanks))"

lemma hasSuffix_append [simp]: "hasSuffix (s @ p) p"
  by (simp add: hasSuffix_def)

lemma hasSuffixE: "hasSuffix s p \<Longrightarrow> \<exists>t. s = t @ p"
  unfolding hasSuffix_def by (metis append_take_drop_id)

lemma hasPrefixE: "hasPrefix s p \<Longrightarrow> \<exists>t. s = p @ t"
  unfolding hasPrefix_def by (metis append_take_drop_id)

lemma hasPrefix_append [simp]: "hasPrefix (p @ s) p"
  by (simp add: hasPrefix_def)

lemma trimSuffix_append [simp]: "trimSuffix (s @ p) p = s"
  by (simp add: trimSuffix_def)

lemma splitOn_nonempty [simp]: "splitOn c s \<noteq> []"
  by (induction s) (auto split: list.splits)

lemma splitOn_absent: "c \<notin> set s \<Longrightarrow> splitOn c s = [s]"
  by (induction s) auto

lemma splitOn_append: "c \<notin> set a \<Longrightarrow> splitOn c (a @ c # b) = a # splitOn c b"
  by (induction a) auto

lemma splitOn_length: "length (splitOn c s) = Suc (count_list s c)"
  by (induction s) (auto split: list.splits)

lemma splitOn_mem: "p \<in> set (splitOn c s) \<Longrightarrow> c \<notin> set p"
proof (induction s arbitrary: p)
  case (Cons x s)
  then show ?case
    by (cases "splitOn c s") (auto split: if_splits)
qed simp

lemma splitOn_join: "concat (map (\<lambda>p. c # p) (splitOn c s)) = c # s"
proof (induction s)
  case (Cons x s)
  then show ?case by (cases "splitOn c s") auto
qed simp

lemma cutAt_absent: "c \<notin> set s \<Longrightarrow> cutAt c s = (s, [], False)"
  by (induction s) auto

lemma cutAt_append: "c \<notin> set a \<Longrightarrow> cutAt c (a @ c # b) = (a, b, True)"
  by (induction a) auto

lemma cutAt_found: "cutAt c s = (a, b, True) \<Longrightarrow> s = a @ c # b \<and> c \<notin> set a"
  by (induction s arbitrary: a) (auto split: if_splits prod.splits)

lemma cutAt_missing: "cutAt c s = (a, b, False) \<Longrightarrow> a = s \<and> b = [] \<and> c \<notin> set s"
  by (induction s arbitrary: a) (auto split: if_splits prod.splits)

section \<open>Positions of a byte\<close>

fun indexOf :: "char \<Rightarrow> string \<Rightarrow> nat option" where
  "indexOf c [] = None"
| "indexOf c (x # s) = (if x = c then Some 0 else map_option Suc (indexOf c s))"

definition lastIndexOf :: "char \<Rightarrow> string \<Rightarrow> nat option" where
  "lastIndexOf c s = map_option (\<lambda>i. length s - Suc i) (indexOf c (rev s))"

lemma indexOf_None [simp]: "indexOf c s = None \<longleftrightarrow> c \<notin> set s"
  by (induction s) auto

lemma indexOf_append: "c \<notin> set a \<Longrightarrow> indexOf c (a @ c # b) = Some (length a)"
  by (induction a) auto

lemma indexOf_Some: "indexOf c s = Some i \<Longrightarrow> \<exists>a b. s = a @ c # b \<and> c \<notin> set a \<and> length a = i"
proof (induction s arbitrary: i)
  case (Cons x s)
  show ?case
  proof (cases "x = c")
    case True
    then show ?thesis using Cons.prems by (intro exI [of _ "[]"] exI [of _ s]) auto
  next
    case False
    then obtain j where j: "indexOf c s = Some j" "i = Suc j" using Cons.prems by auto
    then obtain a b where "s = a @ c # b \<and> c \<notin> set a \<and> length a = j" using Cons.IH by blast
    then show ?thesis using False j(2) by (intro exI [of _ "x # a"] exI [of _ b]) auto
  qed
qed simp

lemma lastIndexOf_append: "c \<notin> set b \<Longrightarrow> lastIndexOf c (a @ c # b) = Some (length a)"
  by (simp add: lastIndexOf_def indexOf_append)

lemma lastIndexOf_None [simp]: "lastIndexOf c s = None \<longleftrightarrow> c \<notin> set s"
  by (simp add: lastIndexOf_def)

lemma lastIndexOf_Some:
  assumes "lastIndexOf c s = Some i"
  shows "\<exists>a b. s = a @ c # b \<and> c \<notin> set b \<and> length a = i"
proof -
  obtain j where j: "indexOf c (rev s) = Some j" "i = length s - Suc j"
    using assms by (auto simp: lastIndexOf_def)
  obtain a b where ab: "rev s = a @ c # b" "c \<notin> set a" "length a = j"
    using indexOf_Some [OF j(1)] by blast
  have s: "s = rev b @ c # rev a" using arg_cong [OF ab(1), of rev] by simp
  show ?thesis
    by (rule exI [of _ "rev b"], rule exI [of _ "rev a"]) (use s ab j in auto)
qed

section \<open>Decimal numbers\<close>

definition digitVal :: "char \<Rightarrow> nat option" where
  "digitVal c = (let n = of_char c :: nat in if 48 \<le> n \<and> n \<le> 57 then Some (n - 48) else None)"

definition digitChar :: "nat \<Rightarrow> char" where
  "digitChar d = char_of (48 + d)"

fun decAcc :: "nat \<Rightarrow> string \<Rightarrow> nat option" where
  "decAcc a [] = Some a"
| "decAcc a (c # s) = (case digitVal c of None \<Rightarrow> None | Some d \<Rightarrow> decAcc (10 * a + d) s)"

text \<open>\<open>strconv.ParseUint(s, 10, bits)\<close>: no sign, no empty string, no value beyond the width.\<close>

definition ParseUint :: "nat \<Rightarrow> string \<Rightarrow> nat option" where
  "ParseUint bits s =
     (if s = [] then None
      else case decAcc 0 s of None \<Rightarrow> None
           | Some n \<Rightarrow> if n < 2 ^ bits then Some n else None)"

text \<open>\<open>strconv.Atoi\<close> on a 64-bit platform: one optional sign, then digits, in range.\<close>

definition Atoi :: "string \<Rightarrow> int option" where
  "Atoi s =
     (let (neg, t) = (case s of [] \<Rightarrow> (False, [])
                      | c # r \<Rightarrow> if c = CHR ''-'' then (True, r)
                                else if c = CHR ''+'' then (False, r) else (False, s))
      in if t = [] then None
         else case decAcc 0 t of None \<Rightarrow> None
              | Some n \<Rightarrow> if neg then (if n \<le> 2 ^ 63 then Some (- int n) else None)
                         else if n < 2 ^ 63 then Some (int n) else None)"

fun Itoa :: "nat \<Rightarrow> string" where
  "Itoa n = (if n < 10 then [digitChar n] else Itoa (n div 10) @ [digitChar (n mod 10)])"

declare Itoa.simps [simp del]

lemma digitChar_simps:
  "digitChar 0 = CHR ''0''" "digitChar (Suc 0) = CHR ''1''" "digitChar 1 = CHR ''1''"
  "digitChar 2 = CHR ''2''" "digitChar 3 = CHR ''3''" "digitChar 4 = CHR ''4''"
  "digitChar 5 = CHR ''5''" "digitChar 6 = CHR ''6''" "digitChar 7 = CHR ''7''"
  "digitChar 8 = CHR ''8''" "digitChar 9 = CHR ''9''"
  by (simp_all add: digitChar_def char_of_def bit_Suc_0_iff)

text \<open>Evaluation of the decimal functions on closed terms.\<close>

lemmas decimal_eval = ParseUint_def Atoi_def digitVal_def Itoa.simps digitChar_simps Let_def

lemma digitVal_digitChar [simp]: "d < 10 \<Longrightarrow> digitVal (digitChar d) = Some d"
  by (simp add: digitVal_def digitChar_def of_char_of)

lemma digitVal_less: "digitVal c = Some d \<Longrightarrow> d < 10"
  by (auto simp: digitVal_def Let_def split: if_splits)

lemma digitChar_digitVal: "digitVal c = Some d \<Longrightarrow> digitChar d = c"
  by (auto simp: digitVal_def digitChar_def Let_def split: if_splits)

lemma decAcc_append:
  "decAcc a (s @ t) = (case decAcc a s of None \<Rightarrow> None | Some b \<Rightarrow> decAcc b t)"
  by (induction s arbitrary: a) (auto split: option.splits)

lemma decAcc_digits: "decAcc a s = Some n \<Longrightarrow> c \<in> set s \<Longrightarrow> digitVal c \<noteq> None"
  by (induction s arbitrary: a) (auto split: option.splits)

lemma decAcc_ge: "decAcc a s = Some n \<Longrightarrow> a \<le> n"
  by (induction s arbitrary: a) (force split: option.splits)+

lemma Itoa_nonempty [simp]: "Itoa n \<noteq> []"
  by (subst Itoa.simps) simp

lemma decAcc_Itoa [simp]: "decAcc 0 (Itoa n) = Some n"
proof (induction n rule: Itoa.induct)
  case (1 n)
  then show ?case
    by (cases "n < 10") (simp_all add: Itoa.simps [of n] decAcc_append)
qed

lemma Itoa_chars: "c \<in> set (Itoa n) \<Longrightarrow> digitVal c \<noteq> None"
  using decAcc_digits [OF decAcc_Itoa] by blast

lemma Itoa_no [simp]: "digitVal c = None \<Longrightarrow> c \<notin> set (Itoa n)"
  using Itoa_chars by blast

lemma ParseUint_Itoa [simp]: "n < 2 ^ bits \<Longrightarrow> ParseUint bits (Itoa n) = Some n"
  by (simp add: ParseUint_def)

lemma ParseUint_less: "ParseUint bits s = Some n \<Longrightarrow> n < 2 ^ bits"
  by (auto simp: ParseUint_def split: if_splits option.splits)

lemma ParseUint_digits: "ParseUint bits s = Some n \<Longrightarrow> c \<in> set s \<Longrightarrow> digitVal c \<noteq> None"
  by (auto simp: ParseUint_def split: if_splits option.splits dest: decAcc_digits)

lemma Itoa_head_unsigned:
  "Itoa n = c # r \<Longrightarrow> c \<noteq> CHR ''-'' \<and> c \<noteq> CHR ''+''"
  using Itoa_chars [of c n] by (auto simp: digitVal_def)

lemma Atoi_Itoa [simp]: "n < 2 ^ 63 \<Longrightarrow> Atoi (Itoa n) = Some (int n)"
proof (cases "Itoa n")
  case (Cons c r)
  assume "n < 2 ^ 63"
  moreover have "decAcc 0 (c # r) = Some n" using decAcc_Itoa [of n] Cons by simp
  ultimately show ?thesis
    using Itoa_head_unsigned [OF Cons] Cons by (simp add: Atoi_def)
qed simp

section \<open>Letters\<close>

text \<open>
  \<open>strings.ToLower\<close>. Of the non-ASCII letters only U+212A (bytes E2 84 AA) and U+0130 (bytes
  C4 B0) have an ASCII lower case; every other one stays outside ASCII and is left unchanged
  here: its callers compare the result with ASCII text only.
\<close>

definition lowerChar :: "char \<Rightarrow> char" where
  "lowerChar c = (let n = of_char c :: nat in if 65 \<le> n \<and> n \<le> 90 then char_of (n + 32) else c)"

fun toLower :: "string \<Rightarrow> string" where
  "toLower (a # b # c # s) =
     (if a = CHR 0xE2 \<and> b = CHR 0x84 \<and> c = CHR 0xAA then CHR ''k'' # toLower s
      else if a = CHR 0xC4 \<and> b = CHR 0xB0 then CHR ''i'' # toLower (c # s)
      else lowerChar a # toLower (b # c # s))"
| "toLower [a, b] =
     (if a = CHR 0xC4 \<and> b = CHR 0xB0 then ''i'' else [lowerChar a, lowerChar b])"
| "toLower [a] = [lowerChar a]"
| "toLower [] = []"

definition isLower :: "char \<Rightarrow> bool" where
  "isLower c \<longleftrightarrow> (let n = of_char c :: nat in 97 \<le> n \<and> n \<le> 122)"

definition isUpper :: "char \<Rightarrow> bool" where
  "isUpper c \<longleftrightarrow> (let n = of_char c :: nat in 65 \<le> n \<and> n \<le> 90)"

definition isDigit :: "char \<Rightarrow> bool" where
  "isDigit c \<longleftrightarrow> digitVal c \<noteq> None"

lemma lowerChar_fix: "\<not> isUpper c \<Longrightarrow> lowerChar c = c"
  by (auto simp: lowerChar_def isUpper_def Let_def)

lemma not_upper_of_lower: "isLower c \<Longrightarrow> \<not> isUpper c \<and> c \<noteq> CHR 0xE2 \<and> c \<noteq> CHR 0xC4"
  by (auto simp: isLower_def isUpper_def Let_def)

lemma not_upper_of_digit: "isDigit c \<Longrightarrow> \<not> isUpper c \<and> c \<noteq> CHR 0xE2 \<and> c \<noteq> CHR 0xC4"
  by (auto simp: isDigit_def digitVal_def isUpper_def Let_def split: if_splits)

text \<open>Text without upper case and without the two special letters is its own lower case.\<close>

lemma toLower_fix:
  "\<forall>c \<in> set s. \<not> isUpper c \<and> c \<noteq> CHR 0xE2 \<and> c \<noteq> CHR 0xC4 \<Longrightarrow> toLower s = s"
  by (induction s rule: toLower.induct) (auto simp: lowerChar_fix)

end
