(* ===== verification/Ports.thy ===== *)
theory Ports
  imports Go_Strings
begin

text \<open>
  \<open>src/internal/sandbox/ports.go\<close> (the domain's port values) and
  \<open>src/internal/docker/ports.go\<close> (the port specifications handed to the container engine).
  A Go \<open>map\<close> is an association list with distinct keys, in the order an iteration visits it.
  \<open>network.ParsePort\<close> and \<open>network.Port.String\<close> of the engine's client library are parameters.
\<close>

section \<open>Domain ports\<close>

record port =
  Number :: nat
  Protocol :: string

text \<open>\<open>uint16\<close> is a natural number below 65536; \<open>ParsePort\<close> only builds such.\<close>

definition ParsePort :: "string \<Rightarrow> err + port" where
  "ParsePort raw =
     (let parts = splitOn (CHR ''/'') raw in
      if length parts > 2 then Inl (Msg ''invalid port'')
      else case ParseUint 16 (parts ! 0) of
        None \<Rightarrow> Inl (Msg ''port must be between 1 and 65535'')
      | Some n \<Rightarrow>
          if n = 0 then Inl (Msg ''port must be between 1 and 65535'')
          else
            let protocol = (if length parts = 2 then parts ! 1 else ''tcp'') in
            if protocol \<noteq> ''tcp'' \<and> protocol \<noteq> ''udp''
            then Inl (Msg ''port protocol must be tcp or udp'')
            else Inr \<lparr>Number = n, Protocol = protocol\<rparr>)"

definition portString :: "port \<Rightarrow> string" where
  "portString p = (if Number p = 0 then [] else Itoa (Number p) @ ''/'' @ Protocol p)"

definition ParsePorts :: "string list \<Rightarrow> err + port list" where
  "ParsePorts raw = map_err ParsePort raw"

definition PortStrings :: "port list \<Rightarrow> string list" where
  "PortStrings ports = map portString ports"

definition port_wf :: "port \<Rightarrow> bool" where
  "port_wf p \<longleftrightarrow> 1 \<le> Number p \<and> Number p \<le> 65535 \<and> (Protocol p = ''tcp'' \<or> Protocol p = ''udp'')"

lemma ParsePort_wf: "ParsePort raw = Inr p \<Longrightarrow> port_wf p"
  using ParseUint_less [of 16]
  by (fastforce simp: ParsePort_def port_wf_def Let_def split: if_splits option.splits)

lemma slash_not_in_Itoa [simp]: "CHR ''/'' \<notin> set (Itoa n)"
  by (rule Itoa_no) (simp add: digitVal_def)

lemma splitOn_portString:
  assumes "CHR ''/'' \<notin> set q"
  shows "splitOn (CHR ''/'') (Itoa n @ CHR ''/'' # q) = [Itoa n, q]"
  using assms by (simp add: splitOn_append splitOn_absent)

lemma ParsePort_portString: "port_wf p \<Longrightarrow> ParsePort (portString p) = Inr p"
  by (cases p) (auto simp: port_wf_def ParsePort_def portString_def splitOn_portString)

text \<open>
  The domain's ports and their text agree: parsing what \<open>PortStrings\<close> prints gives back
  the ports, for every list of ports that \<open>ParsePorts\<close> can produce, and parsing produces
  numbers from 1 to 65535 with protocol tcp or udp only.
\<close>

theorem ports_roundtrip:
  assumes "ParsePorts raw = Inr ps"
  shows "list_all port_wf ps \<and> ParsePorts (PortStrings ps) = Inr ps"
proof -
  have wf: "list_all port_wf ps"
    using assms ParsePort_wf
    by (auto simp: ParsePorts_def map_err_Inr_iff list_all2_conv_all_nth list_all_length)
  then have "list_all2 (\<lambda>x y. ParsePort x = Inr y) (map portString ps) ps"
    by (auto simp: list_all2_conv_all_nth list_all_length ParsePort_portString)
  with wf show ?thesis by (simp add: ParsePorts_def PortStrings_def map_err_Inr_iff)
qed

theorem ports_roundtrip_witness:
  "ParsePorts (PortStrings [\<lparr>Number = 80, Protocol = ''tcp''\<rparr>, \<lparr>Number = 53, Protocol = ''udp''\<rparr>])
     = Inr [\<lparr>Number = 80, Protocol = ''tcp''\<rparr>, \<lparr>Number = 53, Protocol = ''udp''\<rparr>]"
proof -
  have "ParsePorts [''080'', ''53/udp''] =
      Inr [\<lparr>Number = 80, Protocol = ''tcp''\<rparr>, \<lparr>Number = 53, Protocol = ''udp''\<rparr>]"
    by (simp add: ParsePorts_def ParsePort_def decimal_eval)
  from ports_roundtrip [OF this] show ?thesis by simp
qed

section \<open>Port specifications of the Docker adapter\<close>

definition normalizePort :: "string \<Rightarrow> string" where
  "normalizePort p =
     (if p = [] then [] else if CHR ''/'' \<notin> set p then p @ ''/tcp'' else p)"

definition normalizePorts :: "string list \<Rightarrow> string list" where
  "normalizePorts ports = filter (\<lambda>n. n \<noteq> []) (map normalizePort ports)"

text \<open>
  \<open>buildExposedPorts\<close> and \<open>buildPortBindings\<close>: an unparsable specification is skipped, an
  empty result is Go's nil map, \<open>None\<close>. A binding is its host address and host port; the
  code sets the address only.
\<close>

record port_binding =
  HostIP :: string
  HostPort :: string

fun parsedPorts :: "(string \<Rightarrow> err + 'p) \<Rightarrow> string list \<Rightarrow> 'p list" where
  "parsedPorts net [] = []"
| "parsedPorts net (p # ps) =
     (case net p of Inl e \<Rightarrow> parsedPorts net ps | Inr q \<Rightarrow> List.insert q (parsedPorts net ps))"

definition buildExposedPorts :: "(string \<Rightarrow> err + 'p) \<Rightarrow> string list \<Rightarrow> 'p list option" where
  "buildExposedPorts net ports =
     (if ports = [] then None
      else let ps = parsedPorts net ports in if ps = [] then None else Some ps)"

definition buildPortBindings ::
    "(string \<Rightarrow> err + 'p) \<Rightarrow> string list \<Rightarrow> ('p \<times> port_binding list) list option" where
  "buildPortBindings net ports =
     (if ports = [] then None
      else let pm = map (\<lambda>p. (p, [\<lparr>HostIP = ''127.0.0.1'', HostPort = []\<rparr>])) (parsedPorts net ports)
           in if pm = [] then None else Some pm)"

definition extractPorts ::
    "('p \<Rightarrow> string) \<Rightarrow> ('p \<times> port_binding list) list \<Rightarrow> (string \<times> string) list" where
  "extractPorts str pm =
     map (\<lambda>(p, bs). (str p, HostPort (hd bs))) (filter (\<lambda>(p, bs). bs \<noteq> []) pm)"

definition portKeys :: "(string \<times> string) list \<Rightarrow> string list" where
  "portKeys pm = sort (map fst pm)"

definition portValue :: "nat \<Rightarrow> string" where
  "portValue n = Itoa n"

definition portKey :: "nat \<Rightarrow> string \<Rightarrow> string" where
  "portKey n proto = portValue n @ ''/'' @ (if proto = [] then ''tcp'' else proto)"

lemma normalizePort_idem: "normalizePort (normalizePort p) = normalizePort p"
  by (simp add: normalizePort_def)

lemma normalizePorts_idem: "normalizePorts (normalizePorts ps) = normalizePorts ps"
  by (induction ps) (auto simp: normalizePorts_def normalizePort_idem)

lemma ParsePort_no_slash:
  "CHR ''/'' \<notin> set raw \<Longrightarrow> ParsePort (raw @ ''/tcp'') = ParsePort raw"
  by (simp add: ParsePort_def splitOn_append splitOn_absent Let_def split: option.split)

text \<open>
  The Docker adapter's normalisation of a port specification agrees with the domain's
  parser: a normalised specification means the same port, and normalising the domain's own
  text changes nothing.
\<close>

theorem normalizePort_agrees:
  "ParsePort (normalizePort raw) = ParsePort raw \<and>
   (port_wf p \<longrightarrow> normalizePort (portString p) = portString p)"
  by (auto simp: normalizePort_def ParsePort_no_slash portString_def port_wf_def)

theorem normalizePort_agrees_witness:
  "normalizePort (portString \<lparr>Number = 8080, Protocol = ''udp''\<rparr>) = ''8080/udp''"
proof -
  have "port_wf \<lparr>Number = 8080, Protocol = ''udp''\<rparr>" by (simp add: port_wf_def)
  moreover have "portString \<lparr>Number = 8080, Protocol = ''udp''\<rparr> = ''8080/udp''"
    by (simp add: portString_def decimal_eval)
  ultimately show ?thesis
    using normalizePort_agrees [of "[]" "\<lparr>Number = 8080, Protocol = ''udp''\<rparr>"] by simp
qed

lemma set_parsedPorts: "set (parsedPorts net ps) = {q. \<exists>p \<in> set ps. net p = Inr q}"
  by (induction ps) (auto split: sum.splits)

lemma distinct_parsedPorts: "distinct (parsedPorts net ps)"
  by (induction ps) (auto split: sum.splits)

text \<open>
  Every published port of a new container listens on 127.0.0.1 only, and the container
  exposes exactly the ports that are published.
\<close>

theorem bindings_loopback_only:
  "(buildPortBindings net ports = None) = (buildExposedPorts net ports = None) \<and>
   (buildPortBindings net ports = Some pm \<longrightarrow>
      buildExposedPorts net ports = Some (map fst pm) \<and> distinct (map fst pm) \<and>
      (\<forall>(p, bs) \<in> set pm. bs \<noteq> [] \<and> (\<forall>b \<in> set bs. HostIP b = ''127.0.0.1'')))"
  by (auto simp: buildPortBindings_def buildExposedPorts_def Let_def comp_def
      distinct_parsedPorts split: if_splits)

theorem bindings_loopback_only_witness:
  "\<exists>pm. buildPortBindings ParsePort [''80'', ''bad'', ''53/udp''] = Some pm \<and>
     (\<forall>(p, bs) \<in> set pm. bs \<noteq> [] \<and> (\<forall>b \<in> set bs. HostIP b = ''127.0.0.1''))"
proof -
  have "\<exists>pm. buildPortBindings ParsePort [''80'', ''bad'', ''53/udp''] = Some pm"
    by (simp add: buildPortBindings_def ParsePort_def decimal_eval)
  then show ?thesis using bindings_loopback_only by blast
qed

lemma portKeys_sorted: "sorted (portKeys pm)" "set (portKeys pm) = fst ` set pm"
  by (simp_all add: portKeys_def)

lemma portKey_ParsePort:
  "1 \<le> n \<Longrightarrow> n \<le> 65535 \<Longrightarrow> q \<in> {''tcp'', ''udp'', []} \<Longrightarrow>
     ParsePort (portKey n q) = Inr \<lparr>Number = n, Protocol = (if q = [] then ''tcp'' else q)\<rparr>"
  using ParsePort_portString [of "\<lparr>Number = n, Protocol = (if q = [] then ''tcp'' else q)\<rparr>"]
  by (auto simp: portKey_def portValue_def portString_def port_wf_def)

end
