(* ===== verification/Names.thy ===== *)
theory Names
  imports Go_Strings
begin

text \<open>
  \<open>src/internal/docker/names.go\<close>: random sandbox names. A random draw is an argument,
  \<open>draw k n\<close>, the \<open>k\<close>-th call of \<open>rand.IntN(n)\<close> (taken modulo \<open>n\<close>, so in range). The two
  loops that may draw forever take fuel and give \<open>None\<close> when it runs out;
  \<open>generateUniqueName_terminates\<close> says how much is enough.
\<close>

definition adjectives :: "string list" where
  "adjectives = [
    ''admiring'', ''adoring'', ''affectionate'', ''agitated'', ''amazing'', ''angry'',
    ''awesome'', ''beautiful'', ''blissful'', ''bold'', ''boring'', ''brave'', ''busy'',
    ''charming'', ''clever'', ''compassionate'', ''competent'', ''condescending'',
    ''confident'', ''cool'', ''cranky'', ''crazy'', ''dazzling'', ''determined'',
    ''distracted'', ''dreamy'', ''eager'', ''ecstatic'', ''elastic'', ''elated'', ''elegant'',
    ''eloquent'', ''epic'', ''exciting'', ''fervent'', ''festive'', ''flamboyant'', ''focused'',
    ''friendly'', ''frosty'', ''funny'', ''gallant'', ''gifted'', ''goofy'', ''gracious'',
    ''great'', ''happy'', ''hardcore'', ''heuristic'', ''hopeful'', ''hungry'', ''infallible'',
    ''inspiring'', ''intelligent'', ''interesting'', ''jolly'', ''jovial'', ''keen'', ''kind'',
    ''laughing'', ''loving'', ''lucid'', ''magical'', ''modest'', ''musing'', ''mystifying'',
    ''naughty'', ''nervous'', ''nice'', ''nifty'', ''nostalgic'', ''objective'', ''optimistic'',
    ''peaceful'', ''pedantic'', ''pensive'', ''practical'', ''priceless'', ''quirky'',
    ''quizzical'', ''recursing'', ''relaxed'', ''reverent'', ''romantic'', ''sad'', ''serene'',
    ''sharp'', ''silly'', ''sleepy'', ''stoic'', ''strange'', ''stupefied'', ''suspicious'',
    ''sweet'', ''tender'', ''thirsty'', ''trusting'', ''unruffled'', ''upbeat'', ''vibrant'',
    ''vigilant'', ''vigorous'', ''wizardly'', ''wonderful'', ''xenodochial'', ''youthful'',
    ''zealous'', ''zen'']"

definition surnames :: "string list" where
  "surnames = [
    ''agnesi'', ''albattani'', ''allen'', ''almeida'', ''antonelli'', ''archimedes'',
    ''ardinghelli'', ''aryabhata'', ''austin'', ''babbage'', ''banach'', ''banzai'',
    ''bardeen'', ''bartik'', ''bassi'', ''beaver'', ''bell'', ''benz'', ''bhabha'',
    ''bhaskara'', ''black'', ''blackburn'', ''blackwell'', ''bohr'', ''booth'', ''borg'',
    ''bose'', ''bouman'', ''boyd'', ''brahmagupta'', ''brattain'', ''brown'', ''buck'',
    ''burnell'', ''cannon'', ''carson'', ''cartwright'', ''carver'', ''cerf'',
    ''chandrasekhar'', ''chaplygin'', ''chatelet'', ''chatterjee'', ''chaum'', ''chebyshev'',
    ''clarke'', ''cohen'', ''colden'', ''cori'', ''cray'', ''curie'', ''curran'', ''darwin'',
    ''davinci'', ''dewdney'', ''dhawan'', ''diffie'', ''dijkstra'', ''dirac'', ''driscoll'',
    ''dubinsky'', ''easley'', ''edison'', ''einstein'', ''elbakyan'', ''elgamal'', ''elion'',
    ''ellis'', ''engelbart'', ''euclid'', ''euler'', ''faraday'', ''feistel'', ''fermat'',
    ''fermi'', ''feynman'', ''franklin'', ''gagarin'', ''galileo'', ''galois'', ''ganguly'',
    ''gates'', ''gauss'', ''germain'', ''goldberg'', ''goldstine'', ''goldwasser'', ''golick'',
    ''goodall'', ''gould'', ''greider'', ''grothendieck'', ''haibt'', ''hamilton'', ''haslett'',
    ''hawking'', ''heisenberg'', ''hellman'', ''hermann'', ''herschel'', ''hertz'',
    ''heyrovsky'', ''hodgkin'', ''hofstadter'', ''hoover'', ''hopper'', ''hugle'', ''hypatia'',
    ''ishizaka'', ''jackson'', ''jang'', ''jemison'', ''jennings'', ''jepsen'', ''johnson'',
    ''joliot'', ''jones'', ''kalam'', ''kapitsa'', ''kare'', ''keldysh'', ''keller'',
    ''kepler'', ''khayyam'', ''khorana'', ''kilby'', ''kirch'', ''knuth'', ''kowalevski'',
    ''lalande'', ''lamarr'', ''lamport'', ''leakey'', ''leavitt'', ''lederberg'', ''lehmann'',
    ''lewin'', ''lichterman'', ''liskov'', ''lovelace'', ''lumiere'', ''mahavira'',
    ''margulis'', ''matsumoto'', ''maxwell'', ''mayer'', ''mccarthy'', ''mcclintock'',
    ''mclaren'', ''mclean'', ''mcnulty'', ''meitner'', ''mendel'', ''mendeleev'', ''meninsky'',
    ''merkle'', ''mestorf'', ''mirzakhani'', ''montalcini'', ''moore'', ''morse'', ''moser'',
    ''murdock'', ''napier'', ''nash'', ''neumann'', ''newton'', ''nightingale'', ''nobel'',
    ''noether'', ''northcutt'', ''noyce'', ''panini'', ''pare'', ''pascal'', ''pasteur'',
    ''payne'', ''perlman'', ''pike'', ''poincare'', ''poitras'', ''proskuriakova'', ''ptolemy'',
    ''raman'', ''ramanujan'', ''rhodes'', ''ride'', ''ritchie'', ''robinson'', ''roentgen'',
    ''rosalind'', ''rubin'', ''saha'', ''sammet'', ''sanderson'', ''satoshi'', ''shamir'',
    ''shannon'', ''shaw'', ''shirley'', ''shockley'', ''shtern'', ''sinoussi'', ''snyder'',
    ''solomon'', ''spence'', ''stonebraker'', ''sutherland'', ''swanson'', ''swartz'',
    ''swirles'', ''taussig'', ''tesla'', ''tharp'', ''thompson'', ''torvalds'', ''tu'',
    ''turing'', ''varahamihira'', ''vaughan'', ''villani'', ''visvesvaraya'', ''volhard'',
    ''wescoff'', ''wilbur'', ''wiles'', ''williams'', ''williamson'', ''wilson'', ''wing'',
    ''wozniak'', ''wright'', ''wu'', ''yalow'', ''yonath'', ''zhukovsky'']"

type_synonym draws = "nat \<Rightarrow> nat \<Rightarrow> nat"

definition nameAt :: "draws \<Rightarrow> nat \<Rightarrow> string" where
  "nameAt draw k =
     adjectives ! (draw k (length adjectives) mod length adjectives) @ ''-'' @
     surnames ! (draw (k + 1) (length surnames) mod length surnames)"

text \<open>The result is the name and the number of the next draw.\<close>

fun generateName :: "nat \<Rightarrow> draws \<Rightarrow> nat \<Rightarrow> (string \<times> nat) option" where
  "generateName 0 draw k = None"
| "generateName (Suc fuel) draw k =
     (let name = nameAt draw k in
      if name \<noteq> ''boring-wozniak'' then Some (name, k + 2) else generateName fuel draw (k + 2))"

definition digits10 :: string where
  "digits10 = ''0123456789''"

definition randomSuffix :: "draws \<Rightarrow> nat \<Rightarrow> string \<times> nat" where
  "randomSuffix draw k = (map (\<lambda>i. digits10 ! (draw (k + i) 10 mod 10)) [0..<4], k + 4)"

text \<open>
  The caller's \<open>exists\<close> may read and change a state (the adapter's asks the database).
\<close>

type_synonym 's probe = "string \<Rightarrow> 's \<Rightarrow> bool \<times> 's"

fun plainAttempts :: "nat \<Rightarrow> nat \<Rightarrow> draws \<Rightarrow> 's probe \<Rightarrow> nat \<Rightarrow> 's \<Rightarrow>
    (string option \<times> nat \<times> 's) option" where
  "plainAttempts fuel 0 draw exists k s = Some (None, k, s)"
| "plainAttempts fuel (Suc n) draw exists k s =
     (case generateName fuel draw k of None \<Rightarrow> None
      | Some (name, k') \<Rightarrow>
          (case exists name s of (taken, s') \<Rightarrow>
             if \<not> taken then Some (Some name, k', s')
             else plainAttempts fuel n draw exists k' s'))"

fun suffixAttempts :: "nat \<Rightarrow> nat \<Rightarrow> draws \<Rightarrow> 's probe \<Rightarrow> nat \<Rightarrow> 's \<Rightarrow>
    (string \<times> nat \<times> 's) option" where
  "suffixAttempts fuel 0 draw exists k s = None"
| "suffixAttempts fuel (Suc n) draw exists k s =
     (case generateName fuel draw k of None \<Rightarrow> None
      | Some (base, k') \<Rightarrow>
          (case randomSuffix draw k' of (sfx, k'') \<Rightarrow>
             let name = base @ ''-'' @ sfx in
             (case exists name s of (taken, s') \<Rightarrow>
                if \<not> taken then Some (name, k'', s')
                else suffixAttempts fuel n draw exists k'' s')))"

definition generateUniqueName :: "nat \<Rightarrow> draws \<Rightarrow> 's probe \<Rightarrow> nat \<Rightarrow> 's \<Rightarrow>
    (string \<times> nat \<times> 's) option" where
  "generateUniqueName fuel draw exists k s =
     (case plainAttempts fuel 10 draw exists k s of
        None \<Rightarrow> None
      | Some (Some name, k', s') \<Rightarrow> Some (name, k', s')
      | Some (None, k', s') \<Rightarrow> suffixAttempts fuel fuel draw exists k' s')"

section \<open>Every name is a DNS label\<close>

definition labelChar :: "char \<Rightarrow> bool" where
  "labelChar c \<longleftrightarrow> isLower c \<or> isDigit c \<or> c = CHR ''-''"

definition alnumChar :: "char \<Rightarrow> bool" where
  "alnumChar c \<longleftrightarrow> isLower c \<or> isDigit c"

text \<open>The label part of the proxy's host pattern: 1 to 63 characters, no hyphen at the ends.\<close>

definition dnsLabel :: "string \<Rightarrow> bool" where
  "dnsLabel s \<longleftrightarrow> s \<noteq> [] \<and> length s \<le> 63 \<and> alnumChar (hd s) \<and> alnumChar (last s) \<and>
     list_all labelChar s"

definition wordOk :: "string \<Rightarrow> bool" where
  "wordOk w \<longleftrightarrow> w \<noteq> [] \<and> length w \<le> 20 \<and> list_all isLower w"

lemma adjectives_ok: "list_all wordOk adjectives"
  by (simp add: adjectives_def wordOk_def isLower_def)

lemma surnames_ok: "list_all wordOk surnames"
  by (simp add: surnames_def wordOk_def isLower_def)

lemma lengths_pos: "0 < length adjectives" "0 < length surnames"
  by (simp_all add: adjectives_def surnames_def)

lemma dnsLabel_words:
  assumes "wordOk a" and "wordOk s" and "length x \<le> 5" and "x = [] \<or> alnumChar (last x)"
    and "list_all labelChar x"
  shows "dnsLabel (a @ ''-'' @ s @ x)"
  using assms
  by (auto simp: dnsLabel_def wordOk_def labelChar_def alnumChar_def list_all_iff hd_append last_append)

lemma nameAt_words: "\<exists>a s. nameAt draw k = a @ ''-'' @ s \<and> wordOk a \<and> wordOk s"
  using adjectives_ok surnames_ok lengths_pos
  unfolding nameAt_def list_all_length by (metis mod_less_divisor)

lemma generateName_Some:
  "generateName fuel draw k = Some (name, k') \<Longrightarrow>
     name \<noteq> ''boring-wozniak'' \<and> (\<exists>j. name = nameAt draw j)"
  by (induction fuel arbitrary: k) (auto simp: Let_def split: if_splits)

lemma randomSuffix_digits:
  "randomSuffix draw k = (x, k') \<Longrightarrow> length x = 4 \<and> list_all isDigit x"
proof -
  assume "randomSuffix draw k = (x, k')"
  then have x: "x = map (\<lambda>i. digits10 ! (draw (k + i) 10 mod 10)) [0..<4]"
    by (simp add: randomSuffix_def)
  have "list_all isDigit digits10" and "length digits10 = 10"
    by (simp_all add: digits10_def isDigit_def digitVal_def)
  then have "isDigit (digits10 ! (n mod 10))" for n
    by (simp add: list_all_length)
  then show ?thesis by (simp add: x list_all_iff)
qed

lemma plainAttempts_Some:
  "plainAttempts fuel n draw exists k s = Some (Some name, k', s') \<Longrightarrow>
     (\<exists>s1. exists name s1 = (False, s')) \<and> (\<exists>j. name = nameAt draw j)"
  by (induction n arbitrary: k s)
    (fastforce split: option.splits if_splits prod.splits dest: generateName_Some)+

lemma suffixAttempts_Some:
  "suffixAttempts fuel n draw exists k s = Some (name, k', s') \<Longrightarrow>
     (\<exists>s1. exists name s1 = (False, s')) \<and>
     (\<exists>j x. name = nameAt draw j @ ''-'' @ x \<and> length x = 4 \<and> list_all isDigit x)"
proof (induction fuel n draw exists k s rule: suffixAttempts.induct)
  case (2 fuel n draw exists k s)
  then show ?case
    by (fastforce simp: Let_def split: option.splits prod.splits if_splits
        dest: generateName_Some randomSuffix_digits)
qed simp

lemma generated_name_fresh:
  assumes "generateUniqueName fuel draw exists k s = Some (name, k', s')"
  shows "(\<exists>s1. exists name s1 = (False, s')) \<and> dnsLabel name"
proof -
  obtain m j t where p: "plainAttempts fuel 10 draw exists k s = Some (m, j, t)"
    using assms by (auto simp: generateUniqueName_def split: option.splits)
  show ?thesis
  proof (cases m)
    case None
    then have "suffixAttempts fuel fuel draw exists j t = Some (name, k', s')"
      using assms p by (simp add: generateUniqueName_def)
    from suffixAttempts_Some [OF this] obtain i x
      where fresh: "\<exists>s1. exists name s1 = (False, s')"
        and n: "name = nameAt draw i @ ''-'' @ x" and x: "length x = 4" "list_all isDigit x"
      by auto
    obtain a b where ab: "nameAt draw i = a @ ''-'' @ b" "wordOk a" "wordOk b"
      using nameAt_words by blast
    from x have "alnumChar (last (''-'' @ x))" "list_all labelChar (''-'' @ x)"
      by (auto simp: list_all_iff alnumChar_def labelChar_def last_append)
    then have "dnsLabel (a @ ''-'' @ b @ ''-'' @ x)"
      using ab(2,3) x(1) by (intro dnsLabel_words) auto
    with fresh n ab(1) show ?thesis by simp
  next
    case (Some n')
    then have n': "n' = name" "t = s'"
      using assms p by (simp_all add: generateUniqueName_def)
    then obtain i where "\<exists>s1. exists name s1 = (False, s')" and "name = nameAt draw i"
      using plainAttempts_Some [of fuel 10 draw exists k s n' j t] p Some by auto
    then show ?thesis
      using nameAt_words [of draw i] dnsLabel_words [of _ _ "[]"] by fastforce
  qed
qed

text \<open>
  A generated sandbox name is one whose probe answered that it is free, and a DNS label
  that the proxy's host pattern accepts, also after ten collisions when digits are appended.
\<close>

theorem generated_name_unique_label:
  assumes "generateUniqueName fuel draw exists k s = Some (name, k', s')"
  shows "(\<exists>s1. exists name s1 = (False, s')) \<and> dnsLabel name"
  by (rule generated_name_fresh [OF assms])

theorem generated_name_unique_label_witness:
  "dnsLabel (nameAt (\<lambda>_ _. 5) 0)"
proof -
  have "nameAt (\<lambda>_ _. 5) 0 \<noteq> ''boring-wozniak''"
    by (simp add: nameAt_def adjectives_def surnames_def)
  then have "generateUniqueName 1 (\<lambda>_ _. 5) (\<lambda>_ s. (False, s)) 0 () = Some (nameAt (\<lambda>_ _. 5) 0, 2, ())"
    by (simp add: generateUniqueName_def eval_nat_numeral)
  from generated_name_unique_label [OF this] show ?thesis by simp
qed

text \<open>
  Fuel: one unit per rejected draw of a base name, one per round of the suffix loop. Draws that
  do not stay on the rejected name, and a catalogue without a suffixed name, are enough.
\<close>

lemma generateName_terminates:
  "nameAt draw (k + 2 * i) \<noteq> ''boring-wozniak'' \<Longrightarrow> i < fuel \<Longrightarrow> generateName fuel draw k \<noteq> None"
proof (induction fuel arbitrary: k i)
  case (Suc fuel)
  then show ?case by (cases i) (auto simp: Let_def)
qed simp

lemma plainAttempts_terminates:
  "(\<And>k. generateName fuel draw k \<noteq> None) \<Longrightarrow> plainAttempts fuel n draw exists k s \<noteq> None"
  by (induction n arbitrary: k s) (auto split: option.split prod.split)

lemma generateUniqueName_terminates:
  assumes "\<And>k. \<exists>i < fuel. nameAt draw (k + 2 * i) \<noteq> ''boring-wozniak''" and "0 < fuel"
    and free: "\<And>j x s. \<not> fst (exists (nameAt draw j @ ''-'' @ x) s)"
  shows "\<exists>r. generateUniqueName fuel draw exists k s = Some r"
proof -
  have g: "generateName fuel draw k \<noteq> None" for k
    using assms(1) generateName_terminates by blast
  obtain m j t where p: "plainAttempts fuel 10 draw exists k s = Some (m, j, t)"
    using plainAttempts_terminates [OF g] by fast
  obtain base j' where b: "generateName fuel draw j = Some (base, j')"
    using g [of j] by fast
  obtain f where f: "fuel = Suc f" using assms(2) by (cases fuel) auto
  have "\<exists>r. suffixAttempts fuel (Suc f) draw exists j t = Some r"
  proof -
    obtain x k2 where x: "randomSuffix draw j' = (x, k2)" by fastforce
    obtain i where i: "base = nameAt draw i" using generateName_Some [OF b] by blast
    obtain s2 where "exists (base @ ''-'' @ x) t = (False, s2)"
      using free [of i x t] i by (metis (full_types) prod.collapse)
    then show ?thesis using b x by simp
  qed
  with p f show ?thesis by (auto simp: generateUniqueName_def split: option.split)
qed

end
