(* ===== verification/Database.thy ===== *)
theory Database
  imports Go_Strings
begin

text \<open>
  \<open>src/internal/database\<close>: the SQLite tables and the repository over them. A table is a list of
  rows; \<open>gorm\<close>'s \<open>First\<close> takes the match with the least primary key, \<open>Create\<close> fails on a
  primary key that exists, \<open>Updates\<close> and \<open>Delete\<close> apply to every match. A column that can
  be NULL on legacy rows (\<open>native_id\<close>) is an option; Go reads NULL as the empty string.

  Every SQL statement may fail: the \<open>n\<close>-th statement of a run fails when \<open>F n\<close> says so, with a
  database error or with the error of the context bound to the session. \<open>F\<close> is an argument of
  every operation, so what is proved holds for every pattern of failures. A transaction
  restores the tables on every error, its own commit included.
\<close>

section \<open>Rows\<close>

type_synonym JSONMap = "(string \<times> string) list"

record sandbox_row =
  sb_ID :: string
  sb_NativeID :: "string option"
  sb_ImageRoot :: string
  sb_ImageManifest :: string
  sb_NativeImage :: string
  sb_CacheVersion :: string
  sb_RecoveryError :: string
  sb_RuntimeKind :: string
  sb_AttemptToken :: string
  sb_ExpiresAt :: "int option"
  sb_Name :: string
  sb_Image :: string
  sb_Ports :: JSONMap
  sb_Port :: string

record operation =
  op_ID :: string
  op_RuntimeKind :: string
  op_PublicID :: string
  op_NativeID :: string
  op_NativeName :: string
  op_Token :: string
  op_Kind :: string
  op_Deadline :: "int option"

record command_row =
  cmd_ID :: string
  cmd_SandboxID :: string
  cmd_Name :: string
  cmd_Args :: string
  cmd_Cwd :: string
  cmd_ExitCode :: "int option"
  cmd_StartedAt :: int
  cmd_FinishedAt :: "int option"

record db =
  sandboxes :: "sandbox_row list"
  operations :: "operation list"
  commands :: "command_row list"
  stmts :: nat

datatype fault = DbFailed string | DbCanceled | DbDeadline

type_synonym faults = "nat \<Rightarrow> fault option"

fun faultErr :: "fault \<Rightarrow> err" where
  "faultErr (DbFailed s) = Db s"
| "faultErr DbCanceled = Canceled"
| "faultErr DbDeadline = DeadlineExceeded"

text \<open>The tables, without the count of statements: what a transaction restores.\<close>

definition tables :: "db \<Rightarrow> sandbox_row list \<times> operation list \<times> command_row list" where
  "tables d = (sandboxes d, operations d, commands d)"

section \<open>Statements and transactions\<close>

definition stmt :: "faults \<Rightarrow> (db \<Rightarrow> (err + 'a) \<times> db) \<Rightarrow> (db, 'a) prog" where
  "stmt F f = (\<lambda>d. let d1 = d\<lparr>stmts := Suc (stmts d)\<rparr> in
     case F (stmts d) of Some x \<Rightarrow> (Inl (faultErr x), d1) | None \<Rightarrow> f d1)"

definition query :: "faults \<Rightarrow> (db \<Rightarrow> 'a) \<Rightarrow> (db, 'a) prog" where
  "query F f = stmt F (\<lambda>d. (Inr (f d), d))"

definition exec :: "faults \<Rightarrow> (db \<Rightarrow> db) \<Rightarrow> (db, unit) prog" where
  "exec F f = stmt F (\<lambda>d. (Inr (), f d))"

text \<open>An insert that fails on an existing primary key.\<close>

definition insert_stmt :: "faults \<Rightarrow> (db \<Rightarrow> bool) \<Rightarrow> (db \<Rightarrow> db) \<Rightarrow> (db, unit) prog" where
  "insert_stmt F dup f = stmt F (\<lambda>d. if dup d then (Inl (Db ''UNIQUE constraint failed''), d)
     else (Inr (), f d))"

text \<open>\<open>db.Transaction\<close>: begin, body, commit; a nested call is a savepoint.\<close>

definition transaction :: "faults \<Rightarrow> (db, 'a) prog \<Rightarrow> (db, 'a) prog" where
  "transaction F body = (\<lambda>d. case stmt F (\<lambda>d. (Inr (), d)) d of
     (Inl e, d1) \<Rightarrow> (Inl e, d1)
   | (Inr _, d1) \<Rightarrow>
       (case body d1 of
          (Inl e, d2) \<Rightarrow> (Inl e, d\<lparr>stmts := stmts d2\<rparr>)
        | (Inr x, d2) \<Rightarrow>
            (case stmt F (\<lambda>d. (Inr x, d)) d2 of
               (Inl e, d3) \<Rightarrow> (Inl e, d\<lparr>stmts := stmts d3\<rparr>)
             | (Inr y, d3) \<Rightarrow> (Inr y, d3))))"

definition first_row :: "('r \<Rightarrow> string) \<Rightarrow> ('r \<Rightarrow> bool) \<Rightarrow> 'r list \<Rightarrow> 'r option" where
  "first_row key p rows = (case sort_key key (filter p rows) of [] \<Rightarrow> None | r # _ \<Rightarrow> Some r)"

definition update_rows :: "('r \<Rightarrow> bool) \<Rightarrow> ('r \<Rightarrow> 'r) \<Rightarrow> 'r list \<Rightarrow> 'r list" where
  "update_rows p f rows = map (\<lambda>r. if p r then f r else r) rows"

definition delete_rows :: "('r \<Rightarrow> bool) \<Rightarrow> 'r list \<Rightarrow> 'r list" where
  "delete_rows p rows = filter (\<lambda>r. \<not> p r) rows"

lemma first_row_None: "first_row key p rows = None \<longleftrightarrow> (\<forall>r \<in> set rows. \<not> p r)"
  by (auto simp: first_row_def filter_empty_conv split: list.split dest!: arg_cong [where f = set])
    blast+

lemma first_row_Some: "first_row key p rows = Some r \<Longrightarrow> r \<in> set rows \<and> p r"
proof -
  assume "first_row key p rows = Some r"
  then obtain xs where "sort_key key (filter p rows) = r # xs"
    by (auto simp: first_row_def split: list.splits)
  then have "r \<in> set (sort_key key (filter p rows))" by simp
  then show ?thesis by simp
qed

lemma first_row_least: "first_row key p rows = Some r \<Longrightarrow> x \<in> set rows \<Longrightarrow> p x \<Longrightarrow> key r \<le> key x"
proof -
  assume r: "first_row key p rows = Some r" and x: "x \<in> set rows" "p x"
  then obtain xs where xs: "sort_key key (filter p rows) = r # xs"
    by (auto simp: first_row_def split: list.splits)
  have "sorted (map key (sort_key key (filter p rows)))" by simp
  moreover have "x \<in> set (r # xs)" using x xs [symmetric] by simp
  ultimately show ?thesis using xs by auto
qed

lemma set_update_rows: "set (update_rows p f rows) = (\<lambda>r. if p r then f r else r) ` set rows"
  by (simp add: update_rows_def)

lemma map_update_rows:
  "(\<And>r. r \<in> set rows \<Longrightarrow> p r \<Longrightarrow> g (f r) = g r) \<Longrightarrow> map g (update_rows p f rows) = map g rows"
  by (induction rows) (auto simp: update_rows_def)

lemma set_delete_rows [simp]: "set (delete_rows p rows) = {r \<in> set rows. \<not> p r}"
  by (auto simp: delete_rows_def)

section \<open>Lookups\<close>

text \<open>How Go reads a nullable text column.\<close>

definition nstr :: "string option \<Rightarrow> string" where
  "nstr s = (case s of None \<Rightarrow> [] | Some x \<Rightarrow> x)"

definition RuntimeID :: "sandbox_row \<Rightarrow> string" where
  "RuntimeID s = (if nstr (sb_NativeID s) \<noteq> [] then nstr (sb_NativeID s) else sb_ID s)"

definition hasNativeID :: "string \<Rightarrow> sandbox_row \<Rightarrow> bool" where
  "hasNativeID i s \<longleftrightarrow>
     sb_NativeID s = Some i \<or> ((sb_NativeID s = Some [] \<or> sb_NativeID s = None) \<and> sb_ID s = i)"

definition FindByNativeID :: "faults \<Rightarrow> string \<Rightarrow> (db, sandbox_row option) prog" where
  "FindByNativeID F i = query F (\<lambda>d. first_row sb_ID (hasNativeID i) (sandboxes d))"

definition storedID :: "faults \<Rightarrow> bool \<Rightarrow> string \<Rightarrow> (db, string) prog" where
  "storedID F native i =
     (if \<not> native then ret i
      else andThen (FindByNativeID F i) (\<lambda>s.
        case s of Some row \<Rightarrow> ret (sb_ID row) | None \<Rightarrow> ret i))"

definition commandView :: "faults \<Rightarrow> bool \<Rightarrow> command_row \<Rightarrow> (db, command_row) prog" where
  "commandView F native cmd =
     (if \<not> native then ret cmd
      else andThen (query F (\<lambda>d. first_row sb_ID (\<lambda>s. sb_ID s = cmd_SandboxID cmd) (sandboxes d)))
        (\<lambda>s. case s of None \<Rightarrow> ret cmd | Some row \<Rightarrow> ret (cmd\<lparr>cmd_SandboxID := RuntimeID row\<rparr>)))"

definition nativeRow :: "bool \<Rightarrow> sandbox_row \<Rightarrow> sandbox_row" where
  "nativeRow native s = (if native then s\<lparr>sb_ID := RuntimeID s\<rparr> else s)"

definition FindByID :: "faults \<Rightarrow> bool \<Rightarrow> string \<Rightarrow> (db, sandbox_row option) prog" where
  "FindByID F native i =
     (if native then andThen (FindByNativeID F i) (\<lambda>s. ret (map_option (nativeRow True) s))
      else query F (\<lambda>d. first_row sb_ID (\<lambda>s. sb_ID s = i) (sandboxes d)))"

definition FindAll :: "faults \<Rightarrow> bool \<Rightarrow> (db, sandbox_row list) prog" where
  "FindAll F native = query F (\<lambda>d. map (nativeRow native) (sandboxes d))"

definition FindByName :: "faults \<Rightarrow> bool \<Rightarrow> string \<Rightarrow> (db, sandbox_row option) prog" where
  "FindByName F native name = query F (\<lambda>d.
     map_option (nativeRow native) (first_row sb_ID (\<lambda>s. sb_Name s = name) (sandboxes d)))"

definition Operations :: "faults \<Rightarrow> string \<Rightarrow> (db, operation list) prog" where
  "Operations F runtime = query F (\<lambda>d.
     sort_key op_ID (filter (\<lambda>o1. op_RuntimeKind o1 = runtime) (operations d)))"

definition FindOperation :: "faults \<Rightarrow> string \<Rightarrow> (db, operation option) prog" where
  "FindOperation F i = query F (\<lambda>d. first_row op_ID (\<lambda>o1. op_ID o1 = i) (operations d))"

definition pendingFor :: "string \<Rightarrow> string \<Rightarrow> sandbox_row option \<Rightarrow> operation \<Rightarrow> bool" where
  "pendingFor runtime native owner o1 \<longleftrightarrow> op_RuntimeKind o1 = runtime \<and>
     (case owner of None \<Rightarrow> op_NativeID o1 = native
      | Some row \<Rightarrow> op_NativeID o1 = native \<or> op_PublicID o1 = sb_ID row \<or>
          (op_Token o1 \<noteq> [] \<and> op_Token o1 = sb_AttemptToken row))"

definition Pending :: "faults \<Rightarrow> string \<Rightarrow> string \<Rightarrow> (db, operation option) prog" where
  "Pending F runtime native =
     andThen (FindByNativeID F native) (\<lambda>owner.
       query F (\<lambda>d. first_row op_ID (pendingFor runtime native owner) (operations d)))"

definition RequireIdle :: "faults \<Rightarrow> string \<Rightarrow> string \<Rightarrow> (db, unit) prog" where
  "RequireIdle F runtime native =
     andThen (FindByNativeID F native) (\<lambda>row.
       case row of None \<Rightarrow> throw ErrNotFound
       | Some s \<Rightarrow>
           if sb_RuntimeKind s \<noteq> [] \<and> sb_RuntimeKind s \<noteq> runtime then throw ErrNotFound
           else andThen (Pending F runtime native) (\<lambda>op.
             case op of Some o1 \<Rightarrow> throw (Msg ''pending; run startup recovery'') | None \<Rightarrow> ret ()))"

definition FindByAttempt :: "faults \<Rightarrow> string \<Rightarrow> string \<Rightarrow> (db, sandbox_row option) prog" where
  "FindByAttempt F runtime token =
     (if token = [] then ret None
      else query F (\<lambda>d. first_row sb_ID
        (\<lambda>s. sb_RuntimeKind s = runtime \<and> sb_AttemptToken s = token) (sandboxes d)))"

text \<open>\<open>FindRoutingState\<close> (\<open>routing.go\<close>): the owner of a name and whether work is pending.\<close>

definition routingPending :: "string \<Rightarrow> sandbox_row \<Rightarrow> operation \<Rightarrow> bool" where
  "routingPending runtime owner o1 \<longleftrightarrow> op_PublicID o1 = sb_ID owner \<or>
     (op_RuntimeKind o1 = runtime \<and> (op_NativeID o1 = RuntimeID owner \<or>
        (op_Token o1 \<noteq> [] \<and> op_Token o1 = sb_AttemptToken owner)))"

definition FindRoutingState ::
    "faults \<Rightarrow> string \<Rightarrow> string \<Rightarrow> (db, sandbox_row option \<times> bool) prog" where
  "FindRoutingState F name runtime = transaction F (
     andThen (FindByName F False name) (\<lambda>owner.
       case owner of None \<Rightarrow> ret (None, False)
       | Some s \<Rightarrow>
           andThen (query F (\<lambda>d. length (filter (routingPending runtime s) (operations d))))
             (\<lambda>count. ret (Some s, count \<noteq> 0))))"

section \<open>Sandbox and command records\<close>

definition goRow :: "sandbox_row \<Rightarrow> sandbox_row" where
  "goRow s = s\<lparr>sb_NativeID := Some (nstr (sb_NativeID s))\<rparr>"

definition upsert :: "sandbox_row \<Rightarrow> db \<Rightarrow> db" where
  "upsert s d = d\<lparr>sandboxes :=
     (if \<exists>r \<in> set (sandboxes d). sb_ID r = sb_ID s
      then update_rows (\<lambda>r. sb_ID r = sb_ID s) (\<lambda>_. s) (sandboxes d)
      else sandboxes d @ [s])\<rparr>"

definition Save :: "faults \<Rightarrow> bool \<Rightarrow> sandbox_row \<Rightarrow> (db, unit) prog" where
  "Save F native s0 =
     andThen
       (if native \<and> (nstr (sb_NativeID s0) = [] \<or> sb_ID s0 = nstr (sb_NativeID s0)) then
          andThen (FindByNativeID F (sb_ID s0)) (\<lambda>stored.
            case stored of None \<Rightarrow> ret s0
            | Some r \<Rightarrow>
                let s1 = s0\<lparr>sb_ID := sb_ID r\<rparr> in
                ret (if nstr (sb_NativeID s1) = [] then s1\<lparr>sb_NativeID := sb_NativeID r\<rparr> else s1))
        else ret s0)
       (\<lambda>s. exec F (upsert (goRow s)))"

definition insertSandbox :: "faults \<Rightarrow> sandbox_row \<Rightarrow> (db, unit) prog" where
  "insertSandbox F s = insert_stmt F (\<lambda>d. \<exists>r \<in> set (sandboxes d). sb_ID r = sb_ID s)
     (\<lambda>d. d\<lparr>sandboxes := sandboxes d @ [goRow s]\<rparr>)"

definition insertOperation :: "faults \<Rightarrow> operation \<Rightarrow> (db, unit) prog" where
  "insertOperation F o1 = insert_stmt F (\<lambda>d. \<exists>r \<in> set (operations d). op_ID r = op_ID o1)
     (\<lambda>d. d\<lparr>operations := operations d @ [o1]\<rparr>)"

definition CreateOwnership :: "faults \<Rightarrow> sandbox_row \<Rightarrow> (db, unit) prog" where
  "CreateOwnership F s = insertSandbox F s"

definition UpdatePorts :: "faults \<Rightarrow> bool \<Rightarrow> string \<Rightarrow> JSONMap \<Rightarrow> (db, unit) prog" where
  "UpdatePorts F native i ports =
     andThen (storedID F native i) (\<lambda>i'.
       exec F (\<lambda>d. d\<lparr>sandboxes :=
         update_rows (\<lambda>s. sb_ID s = i') (\<lambda>s. s\<lparr>sb_Ports := ports\<rparr>) (sandboxes d)\<rparr>))"

definition DeleteRow :: "faults \<Rightarrow> bool \<Rightarrow> string \<Rightarrow> (db, unit) prog" where
  "DeleteRow F native i =
     andThen (storedID F native i) (\<lambda>i'.
       exec F (\<lambda>d. d\<lparr>sandboxes := delete_rows (\<lambda>s. sb_ID s = i') (sandboxes d)\<rparr>))"

definition DeleteCommandsBySandbox :: "faults \<Rightarrow> bool \<Rightarrow> string \<Rightarrow> (db, unit) prog" where
  "DeleteCommandsBySandbox F native i =
     andThen (storedID F native i) (\<lambda>i'.
       exec F (\<lambda>d. d\<lparr>commands := delete_rows (\<lambda>c. cmd_SandboxID c = i') (commands d)\<rparr>))"

definition DeleteSandbox :: "faults \<Rightarrow> bool \<Rightarrow> string \<Rightarrow> (db, unit) prog" where
  "DeleteSandbox F native i = transaction F (
     andThen (DeleteCommandsBySandbox F native i) (\<lambda>_. DeleteRow F native i))"

definition SaveCommand :: "faults \<Rightarrow> bool \<Rightarrow> command_row \<Rightarrow> (db, unit) prog" where
  "SaveCommand F native cmd =
     andThen (storedID F native (cmd_SandboxID cmd)) (\<lambda>i.
       insert_stmt F (\<lambda>d. \<exists>r \<in> set (commands d). cmd_ID r = cmd_ID cmd)
         (\<lambda>d. d\<lparr>commands := commands d @ [cmd\<lparr>cmd_SandboxID := i\<rparr>]\<rparr>))"

definition FindCommandByID :: "faults \<Rightarrow> bool \<Rightarrow> string \<Rightarrow> (db, command_row option) prog" where
  "FindCommandByID F native i =
     andThen (query F (\<lambda>d. first_row cmd_ID (\<lambda>c. cmd_ID c = i) (commands d))) (\<lambda>c.
       case c of None \<Rightarrow> ret None
       | Some cmd \<Rightarrow> andThen (commandView F native cmd) (\<lambda>cmd'. ret (Some cmd')))"

fun commandViews :: "faults \<Rightarrow> bool \<Rightarrow> command_row list \<Rightarrow> (db, command_row list) prog" where
  "commandViews F native [] = ret []"
| "commandViews F native (c # cs) =
     andThen (commandView F native c) (\<lambda>c'.
       andThen (commandViews F native cs) (\<lambda>cs'. ret (c' # cs')))"

definition FindCommandsBySandbox :: "faults \<Rightarrow> bool \<Rightarrow> string \<Rightarrow> (db, command_row list) prog" where
  "FindCommandsBySandbox F native i =
     andThen (storedID F native i) (\<lambda>i'.
       andThen (query F (\<lambda>d.
           sort_key cmd_StartedAt (filter (\<lambda>c. cmd_SandboxID c = i') (commands d))))
         (\<lambda>cmds. commandViews F native cmds))"

definition UpdateCommandFinished :: "faults \<Rightarrow> string \<Rightarrow> int \<Rightarrow> int \<Rightarrow> (db, unit) prog" where
  "UpdateCommandFinished F i exitCode finishedAt = exec F (\<lambda>d. d\<lparr>commands :=
     update_rows (\<lambda>c. cmd_ID c = i)
       (\<lambda>c. c\<lparr>cmd_ExitCode := Some exitCode, cmd_FinishedAt := Some finishedAt\<rparr>) (commands d)\<rparr>)"

end
