(* ===== verification/Intents.thy ===== *)
theory Intents
  imports Database
begin

text \<open>
  \<open>src/internal/database/operations.go\<close>: the durable lifecycle intents. An intent is written
  before a native mutation and removed in the transaction that records its outcome.
  \<open>rand.Text()\<close> is the argument \<open>rnd\<close> of \<open>BeginOperation\<close>.
\<close>

section \<open>Operations\<close>

definition errRecordNotFound :: err where
  "errRecordNotFound = Msg ''record not found''"

definition ownershipMismatch :: "sandbox_row \<Rightarrow> operation \<Rightarrow> bool" where
  "ownershipMismatch row o1 \<longleftrightarrow> (op_NativeID o1 \<noteq> [] \<and> RuntimeID row \<noteq> op_NativeID o1) \<or>
     (sb_RuntimeKind row \<noteq> [] \<and> sb_RuntimeKind row \<noteq> op_RuntimeKind o1) \<or>
     sb_AttemptToken row \<noteq> op_Token o1"

definition ValidateOperation :: "faults \<Rightarrow> operation \<Rightarrow> (db, unit) prog" where
  "ValidateOperation F o1 =
     andThen (query F (\<lambda>d. first_row op_ID (\<lambda>r. op_ID r = op_ID o1) (operations d))) (\<lambda>stored.
     case stored of None \<Rightarrow> throw errRecordNotFound
     | Some st \<Rightarrow>
         if op_Kind st \<noteq> op_Kind o1 \<or> op_RuntimeKind st \<noteq> op_RuntimeKind o1 \<or>
            op_Token st \<noteq> op_Token o1
         then throw (Msg ''operation changed'')
         else if op_PublicID o1 = [] \<and> op_Kind o1 = ''create'' then ret ()
         else andThen (FindByID F False (op_PublicID o1)) (\<lambda>row.
           case row of
             None \<Rightarrow> if op_Kind o1 = ''create'' then ret ()
                     else throw (Msg ''operation lacks ownership metadata'')
           | Some r \<Rightarrow> failIf (ownershipMismatch r o1) (Msg ''operation ownership changed'')))"

definition BeginCreate :: "faults \<Rightarrow> operation \<Rightarrow> (db, unit) prog" where
  "BeginCreate F o1 = transaction F (
     andThen
       (if op_PublicID o1 \<noteq> [] then
          andThen (query F (\<lambda>d. first_row sb_ID (\<lambda>s. sb_ID s = op_PublicID o1) (sandboxes d)))
            (\<lambda>owner. case owner of Some s \<Rightarrow> throw (Msg ''already has ownership metadata'')
             | None \<Rightarrow>
                 andThen (query F (\<lambda>d.
                     length (filter (\<lambda>r. op_PublicID r = op_PublicID o1) (operations d))))
                   (\<lambda>count. failIf (count \<noteq> 0) (Msg ''has pending recovery work'')))
        else ret ())
       (\<lambda>_. insertOperation F o1))"

definition updateOps :: "faults \<Rightarrow> (operation \<Rightarrow> bool) \<Rightarrow> (operation \<Rightarrow> operation) \<Rightarrow> (db, unit) prog"
where
  "updateOps F p f = exec F (\<lambda>d. d\<lparr>operations := update_rows p f (operations d)\<rparr>)"

definition BeginOperation ::
    "faults \<Rightarrow> string \<Rightarrow> string \<Rightarrow> string \<Rightarrow> string \<Rightarrow> int option \<Rightarrow> (db, operation) prog" where
  "BeginOperation F rnd runtime native kind deadline = transaction F (
     andThen (FindByNativeID F native) (\<lambda>owner.
     case owner of None \<Rightarrow> throw ErrNotFound
     | Some row \<Rightarrow>
       if sb_RuntimeKind row \<noteq> [] \<and> sb_RuntimeKind row \<noteq> runtime
       then throw (Msg ''sandbox runtime mismatch'')
       else andThen (Pending F runtime native) (\<lambda>pending.
         case pending of
           Some p \<Rightarrow>
             andThen (ValidateOperation F p) (\<lambda>_.
               if kind = ''delete'' \<and> op_Kind p = ''create'' then
                 if sb_AttemptToken row \<noteq> op_Token p then throw (Msg ''creation ownership mismatch'')
                 else
                   let o1 = p\<lparr>op_Kind := ''delete'', op_NativeID := native, op_PublicID := sb_ID row\<rparr>
                   in andThen (updateOps F (\<lambda>r. op_ID r = op_ID p)
                        (\<lambda>r. r\<lparr>op_Kind := ''delete'', op_NativeID := native,
                                op_PublicID := sb_ID row\<rparr>)) (\<lambda>_. ret o1)
               else if op_Kind p = kind \<and> (kind = ''delete'' \<or> kind = ''stop'') then ret p
               else throw (Msg ''pending; run startup recovery before another mutation''))
         | None \<Rightarrow>
             let o1 = \<lparr>op_ID = runtime @ '':'' @ rnd, op_RuntimeKind = runtime,
                       op_PublicID = sb_ID row, op_NativeID = native, op_NativeName = [],
                       op_Token = sb_AttemptToken row, op_Kind = kind, op_Deadline = deadline\<rparr>
             in andThen (insertOperation F o1) (\<lambda>_. ret o1))))"

definition BindCreation :: "faults \<Rightarrow> operation \<Rightarrow> string \<Rightarrow> (db, operation) prog" where
  "BindCreation F o1 native =
     (let public = (if op_PublicID o1 = [] then native else op_PublicID o1) in
      andThen (updateOps F (\<lambda>r. op_ID r = op_ID o1)
          (\<lambda>r. r\<lparr>op_NativeID := native, op_PublicID := public\<rparr>))
        (\<lambda>_. ret (o1\<lparr>op_NativeID := native, op_PublicID := public\<rparr>)))"

definition ClearOperation :: "faults \<Rightarrow> operation \<Rightarrow> (db, unit) prog" where
  "ClearOperation F o1 = exec F (\<lambda>d. d\<lparr>operations :=
     delete_rows (\<lambda>r. op_ID r = op_ID o1) (operations d)\<rparr>)"

definition CommitCreation :: "faults \<Rightarrow> operation \<Rightarrow> sandbox_row \<Rightarrow> bool \<Rightarrow> (db, unit) prog" where
  "CommitCreation F o1 row awaitAdoption = transaction F (
     andThen (insertSandbox F row) (\<lambda>_.
       if awaitAdoption then ret () else ClearOperation F o1))"

definition updateSandboxes ::
    "faults \<Rightarrow> (sandbox_row \<Rightarrow> bool) \<Rightarrow> (sandbox_row \<Rightarrow> sandbox_row) \<Rightarrow> (db, nat) prog" where
  "updateSandboxes F p f = stmt F (\<lambda>d. (Inr (length (filter p (sandboxes d))),
     d\<lparr>sandboxes := update_rows p f (sandboxes d)\<rparr>))"

definition CompleteOperation ::
    "faults \<Rightarrow> operation \<Rightarrow> JSONMap option \<Rightarrow> int option \<Rightarrow> (db, unit) prog" where
  "CompleteOperation F o1 ports deadline = transaction F (
     andThen (ValidateOperation F o1) (\<lambda>_.
     andThen (case ports of None \<Rightarrow> ret () | Some ps \<Rightarrow> UpdatePorts F False (op_PublicID o1) ps) (\<lambda>_.
     andThen (updateSandboxes F
         (\<lambda>s. sb_ID s = op_PublicID o1 \<and> hasNativeID (op_NativeID o1) s)
         (\<lambda>s. s\<lparr>sb_ExpiresAt := deadline, sb_RuntimeKind := op_RuntimeKind o1\<rparr>)) (\<lambda>affected.
     andThen (failIf (affected \<noteq> 1) (Msg ''operation ownership changed'')) (\<lambda>_.
     ClearOperation F o1)))))"

definition DeleteOperation :: "faults \<Rightarrow> operation \<Rightarrow> (db, unit) prog" where
  "DeleteOperation F o1 = transaction F (
     andThen
       (if op_PublicID o1 \<noteq> [] then
          andThen (FindByID F False (op_PublicID o1)) (\<lambda>row.
            case row of None \<Rightarrow> ret ()
            | Some r \<Rightarrow>
                if RuntimeID r \<noteq> op_NativeID o1 \<or>
                   (sb_RuntimeKind r \<noteq> [] \<and> sb_RuntimeKind r \<noteq> op_RuntimeKind o1) \<or>
                   sb_AttemptToken r \<noteq> op_Token o1
                then throw (Msg ''operation ownership changed'')
                else DeleteSandbox F False (sb_ID r))
        else ret ())
       (\<lambda>_. ClearOperation F o1))"

definition SetDeadline :: "faults \<Rightarrow> string \<Rightarrow> string \<Rightarrow> int option \<Rightarrow> (db, unit) prog" where
  "SetDeadline F i runtime deadline = transaction F (
     andThen (FindByNativeID F i) (\<lambda>row.
     case row of None \<Rightarrow> throw ErrNotFound
     | Some r \<Rightarrow>
       if sb_RuntimeKind r \<noteq> [] \<and> sb_RuntimeKind r \<noteq> runtime
       then throw (Msg ''sandbox runtime mismatch'')
       else andThen (Pending F runtime i) (\<lambda>op.
         case op of Some o1 \<Rightarrow> throw (Msg ''pending; run startup recovery'')
         | None \<Rightarrow>
             andThen (updateSandboxes F (\<lambda>s. sb_ID s = sb_ID r)
                 (\<lambda>s. s\<lparr>sb_ExpiresAt := deadline, sb_RuntimeKind := runtime\<rparr>)) (\<lambda>_. ret ()))))"

definition UpdateProvenance :: "faults \<Rightarrow> sandbox_row \<Rightarrow> bool \<Rightarrow> (db, unit) prog" where
  "UpdateProvenance F row adopt = transaction F (
     andThen (query F (\<lambda>d. length (filter
         (\<lambda>o1. op_PublicID o1 = sb_ID row \<and> op_Kind o1 \<noteq> ''create'') (operations d)))) (\<lambda>pending.
     andThen (failIf (adopt \<and> pending \<noteq> 0) (Msg ''has pending lifecycle work'')) (\<lambda>_.
     andThen (updateSandboxes F
         (\<lambda>s. sb_ID s = sb_ID row \<and> sb_NativeID s = Some (nstr (sb_NativeID row)))
         (\<lambda>s. s\<lparr>sb_Image := sb_Image row, sb_ImageRoot := sb_ImageRoot row,
                 sb_ImageManifest := sb_ImageManifest row, sb_NativeImage := sb_NativeImage row,
                 sb_CacheVersion := sb_CacheVersion row,
                 sb_RecoveryError := sb_RecoveryError row\<rparr>)) (\<lambda>affected.
     andThen (failIf (affected \<noteq> 1) (Msg ''ownership disappeared or changed'')) (\<lambda>_.
     if adopt then exec F (\<lambda>d. d\<lparr>operations := delete_rows
         (\<lambda>o1. op_PublicID o1 = sb_ID row \<and> op_NativeID o1 = nstr (sb_NativeID row) \<and>
                op_Kind o1 = ''create'') (operations d)\<rparr>)
     else ret ())))))"

end
