(* ===== verification/Docker_World.thy ===== *)
theory Docker_World
  imports Intents Ports Names Ring_Buffer Complex_Main
begin

text \<open>
  The state of the Docker adapter (\<open>src/internal/docker/client.go\<close>) and the operations every
  handler is made of. The engine behind the client library, the clock, the random source and
  the failures of the database are the record \<open>env\<close>: an answer of the engine may depend on
  everything the adapter has asked it before, so nothing is assumed of it. The list \<open>calls\<close>
  records every request to the engine with its answer and the sandbox and intent tables at
  that moment; the code does not read it, the properties speak about it.

  Handlers run under \<open>lifecycleMu\<close>, so each is one atomic step on the state. Times and
  durations are nanoseconds. A nil dereference is a Go panic: it unwinds through the deferred
  calls, so it is an error value here.
\<close>

section \<open>What the engine answers\<close>

record cstate =
  st_Running :: bool
  st_Paused :: bool
  st_Restarting :: bool
  st_Status :: string
  st_StartedAt :: string
  st_FinishedAt :: string

record cconfig =
  cc_Image :: string
  cc_Env :: "string list"
  cc_Labels :: "(string \<times> string) list"

type_synonym port_map = "(port \<times> port_binding list) list"

record container =
  ct_ID :: string
  ct_Name :: string
  ct_Config :: "cconfig option"
  ct_State :: "cstate option"
  ct_Ports :: "port_map option"
  ct_Memory :: int
  ct_NanoCPUs :: int

record create_options =
  cr_Name :: string
  cr_Image :: string
  cr_Env :: "string list"
  cr_Cmd :: "string list"
  cr_Labels :: "(string \<times> string) list"
  cr_Exposed :: "port list option"
  cr_Bindings :: "port_map option"
  cr_Memory :: int
  cr_NanoCPUs :: int

datatype verb = VImage | VInspect | VCreate | VStart | VStop | VRestart | VRemove | VPause | VUnpause

datatype answer = Failed err | Found container | Created string | Done

record event =
  ev_verb :: verb
  ev_target :: string
  ev_label :: string
  ev_answer :: answer
  ev_rows :: "sandbox_row list"
  ev_ops :: "operation list"

record env =
  en_F :: faults
  en_image :: "event list \<Rightarrow> string \<Rightarrow> err option"
  en_inspect :: "event list \<Rightarrow> string \<Rightarrow> err + container"
  en_create :: "event list \<Rightarrow> create_options \<Rightarrow> err + string"
  en_act :: "event list \<Rightarrow> verb \<Rightarrow> string \<Rightarrow> err option"
  en_clock :: "nat \<Rightarrow> int"
  en_token :: "nat \<Rightarrow> string"
  en_draw :: "nat \<Rightarrow> draws"
  en_fuel :: nat
  en_parsePort :: "string \<Rightarrow> err + port"
  en_portString :: "port \<Rightarrow> string"
  en_invalidator :: bool

text \<open>
  A context: what \<open>ctx.Err()\<close> answers at each moment, and the values that
  \<open>sandbox.WithCreationID\<close>, \<open>sandbox.WithCreationImage\<close> and \<open>runtimeio.AwaitAdoption\<close>
  carry; an absent value is the empty string.
\<close>

record ctx =
  cx_Err :: "nat \<Rightarrow> err option"
  cx_ID :: string
  cx_Image :: string
  cx_Await :: bool

definition CreationID :: "ctx \<Rightarrow> string \<Rightarrow> string" where
  "CreationID cx native = (if cx_ID cx \<noteq> [] then cx_ID cx else native)"

definition CreationImage :: "ctx \<Rightarrow> string \<Rightarrow> string" where
  "CreationImage cx native = (if cx_Image cx \<noteq> [] then cx_Image cx else native)"

definition AwaitAdoption :: "ctx \<Rightarrow> bool" where
  "AwaitAdoption cx = cx_Await cx"

definition WithCreationID :: "ctx \<Rightarrow> string \<Rightarrow> ctx" where
  "WithCreationID cx i = cx\<lparr>cx_ID := i\<rparr>"

definition WithCreationImage :: "ctx \<Rightarrow> string \<Rightarrow> ctx" where
  "WithCreationImage cx digest = cx\<lparr>cx_Image := digest\<rparr>"

definition Background :: ctx where
  "Background = \<lparr>cx_Err = (\<lambda>_. None), cx_ID = [], cx_Image = [], cx_Await = False\<rparr>"

section \<open>The client\<close>

record timerEntry =
  te_serial :: nat
  te_expiresAt :: int
  te_delay :: int

record runningCommand =
  rc_execID :: string
  rc_sandboxID :: string
  rc_cmd :: "string list"
  rc_canceled :: bool
  rc_stdout :: ring_buffer
  rc_stderr :: ring_buffer
  rc_done :: bool
  rc_attached :: bool
  rc_startErr :: "err option"
  rc_exitCode :: int
  rc_finished :: bool
  rc_identity :: "(int \<times> nat \<times> err option) option"
  rc_streamErr :: "err option"

text \<open>The closures handed to the recovery queue: \<open>queueOperation\<close>'s and \<open>expire\<close>'s.\<close>

datatype job = IntentJob operation | TtlJob string timerEntry

record world =
  wdb :: db
  calls :: "event list"
  tick :: nat
  closing :: bool
  timers :: "(string \<times> timerEntry) list"
  serial :: nat
  running :: "(string \<times> runningCommand) list"
  createAttempts :: "(string \<times> operation) list"
  jobs :: "(string \<times> job) list"
  queueClosed :: bool
  invalidated :: "string list"

type_synonym 'a act = "(world, 'a) prog"

section \<open>Steps of the outside world\<close>

definition repo :: "(db, 'a) prog \<Rightarrow> 'a act" where
  "repo m = zoom wdb (\<lambda>d w. w\<lparr>wdb := d\<rparr>) m"

definition now :: "env \<Rightarrow> int act" where
  "now en = (\<lambda>w. (Inr (en_clock en (tick w)), w\<lparr>tick := Suc (tick w)\<rparr>))"

definition randText :: "env \<Rightarrow> string act" where
  "randText en = (\<lambda>w. (Inr (en_token en (tick w)), w\<lparr>tick := Suc (tick w)\<rparr>))"

definition ctxErr :: "ctx \<Rightarrow> err option act" where
  "ctxErr cx = (\<lambda>w. (Inr (cx_Err cx (tick w)), w\<lparr>tick := Suc (tick w)\<rparr>))"

definition record_event :: "verb \<Rightarrow> string \<Rightarrow> string \<Rightarrow> answer \<Rightarrow> world \<Rightarrow> world" where
  "record_event v target label a w = w\<lparr>calls := calls w @
     [\<lparr>ev_verb = v, ev_target = target, ev_label = label, ev_answer = a,
       ev_rows = sandboxes (wdb w), ev_ops = operations (wdb w)\<rparr>]\<rparr>"

definition ContainerInspect :: "env \<Rightarrow> string \<Rightarrow> container act" where
  "ContainerInspect en ref = (\<lambda>w. case en_inspect en (calls w) ref of
     Inl e \<Rightarrow> (Inl e, record_event VInspect ref [] (Failed e) w)
   | Inr c \<Rightarrow> (Inr c, record_event VInspect ref [] (Found c) w))"

definition ownerLabel :: string where
  "ownerLabel = ''io.opensbx.attempt''"

text \<open>A Go map read: the zero value when the key is absent.\<close>

definition labelOf :: "(string \<times> string) list \<Rightarrow> string" where
  "labelOf labels = (case map_of labels ownerLabel of None \<Rightarrow> [] | Some t \<Rightarrow> t)"

definition ContainerCreate :: "env \<Rightarrow> create_options \<Rightarrow> string act" where
  "ContainerCreate en opts = (\<lambda>w. case en_create en (calls w) opts of
     Inl e \<Rightarrow> (Inl e, record_event VCreate (cr_Name opts) (labelOf (cr_Labels opts)) (Failed e) w)
   | Inr i \<Rightarrow> (Inr i, record_event VCreate (cr_Name opts) (labelOf (cr_Labels opts)) (Created i) w))"

text \<open>Start, stop, restart, forced removal, pause and unpause answer with an error or nothing.\<close>

definition native_call :: "env \<Rightarrow> verb \<Rightarrow> string \<Rightarrow> unit act" where
  "native_call en v ref = (\<lambda>w. case en_act en (calls w) v ref of
     Some e \<Rightarrow> (Inl e, record_event v ref [] (Failed e) w)
   | None \<Rightarrow> (Inr (), record_event v ref [] Done w))"

definition ImageInspect :: "env \<Rightarrow> string \<Rightarrow> unit act" where
  "ImageInspect en ref = (\<lambda>w. case en_image en (calls w) ref of
     Some e \<Rightarrow> (Inl e, record_event VImage ref [] (Failed e) w)
   | None \<Rightarrow> (Inr (), record_event VImage ref [] Done w))"

text \<open>\<open>errdefs.IsNotFound\<close> looks through wrapped errors.\<close>

fun IsNotFound :: "err \<Rightarrow> bool" where
  "IsNotFound (Native b s) = b"
| "IsNotFound (Wrap s e) = IsNotFound e"
| "IsNotFound (Deferred e) = IsNotFound e"
| "IsNotFound (Join es) = (\<exists>e \<in> set es. IsNotFound e)"
| "IsNotFound e = False"

definition wrapNotFound :: "err \<Rightarrow> err" where
  "wrapNotFound e = (if IsNotFound e then ErrNotFound else e)"

definition ImageExists :: "env \<Rightarrow> string \<Rightarrow> bool act" where
  "ImageExists en img =
     andThen (attempt (ImageInspect en img)) (\<lambda>r.
       case r of Inr _ \<Rightarrow> ret True
       | Inl e \<Rightarrow> if IsNotFound e then ret False else throw e)"

definition nilPanic :: err where
  "nilPanic = Msg ''invalid memory address or nil pointer dereference''"

definition deref :: "'a option \<Rightarrow> 'a act" where
  "deref x = (case x of None \<Rightarrow> throw nilPanic | Some v \<Rightarrow> ret v)"

text \<open>\<open>defer\<close> of a clean-up that runs on errors only and may replace the error.\<close>

definition onError :: "'a act \<Rightarrow> (err \<Rightarrow> 'a act) \<Rightarrow> 'a act" where
  "onError m h = withDefer m (\<lambda>r w. case r of Inl e \<Rightarrow> h e w | Inr x \<Rightarrow> (Inr x, w))"

section \<open>The lifecycle lock\<close>

text \<open>
  \<open>lockLifecycle\<close> polls until the lock is free or the context is done. Handlers are atomic
  here, so the lock is free whenever one starts.
\<close>

definition lockLifecycle :: "ctx \<Rightarrow> unit act" where
  "lockLifecycle cx =
     andThen (ctxErr cx) (\<lambda>e. case e of
       Some x \<Rightarrow> throw x
     | None \<Rightarrow> andThen (reads closing) (\<lambda>c.
         failIf c (Msg ''runtime: Docker backend is shutting down'')))"

definition locked :: "ctx \<Rightarrow> 'a act \<Rightarrow> 'a act" where
  "locked cx m = andThen (lockLifecycle cx) (\<lambda>_. m)"

section \<open>Timers\<close>

definition getTimerEntry :: "string \<Rightarrow> world \<Rightarrow> timerEntry option" where
  "getTimerEntry i w = map_of (timers w) i"

definition cancelTimerLocked :: "string \<Rightarrow> world \<Rightarrow> world" where
  "cancelTimerLocked i w = w\<lparr>timers := remove_key i (timers w)\<rparr>"

definition cancelTimer :: "string \<Rightarrow> unit act" where
  "cancelTimer i = modify (cancelTimerLocked i)"

definition scheduleDeadline :: "string \<Rightarrow> int \<Rightarrow> int \<Rightarrow> unit act" where
  "scheduleDeadline i deadline delay = modify (\<lambda>w.
     let w1 = cancelTimerLocked i w in
     w1\<lparr>timers := store i \<lparr>te_serial = serial w, te_expiresAt = deadline, te_delay = delay\<rparr> (timers w1),
        serial := Suc (serial w)\<rparr>)"

text \<open>\<open>scheduleDeadline(id, deadline, time.Until(deadline))\<close>\<close>

definition scheduleUntil :: "env \<Rightarrow> string \<Rightarrow> int \<Rightarrow> unit act" where
  "scheduleUntil en i deadline =
     andThen (now en) (\<lambda>t. scheduleDeadline i deadline (deadline - t))"

definition Second :: int where
  "Second = 1000000000"

definition scheduleStop :: "env \<Rightarrow> string \<Rightarrow> int \<Rightarrow> unit act" where
  "scheduleStop en i seconds =
     andThen (now en) (\<lambda>t. scheduleUntil en i (t + seconds * Second))"

section \<open>The recovery queue, as the handlers use it\<close>

definition RecoveryRetryDelay :: int where
  "RecoveryRetryDelay = 30 * Second"

definition Schedule :: "string \<Rightarrow> job \<Rightarrow> unit act" where
  "Schedule key j = modify (\<lambda>w.
     if queueClosed w \<or> map_of (jobs w) key \<noteq> None then w
     else w\<lparr>jobs := jobs w @ [(key, j)]\<rparr>)"

definition queueOperation :: "operation \<Rightarrow> unit act" where
  "queueOperation o1 = Schedule (op_ID o1) (IntentJob o1)"

text \<open>
  \<open>retryOperation\<close>, called after failed work and when startup work is registered. On a failed
  lookup the intent is assumed to be there.
\<close>

definition retryOperation :: "env \<Rightarrow> operation \<Rightarrow> unit act" where
  "retryOperation en o1 =
     andThen (reads closing) (\<lambda>c.
     if c then ret ()
     else andThen (attempt (repo (FindOperation (en_F en) (op_ID o1)))) (\<lambda>current.
     if current = Inr None then ret ()
     else andThen (reads (getTimerEntry (op_NativeID o1))) (\<lambda>entry.
     andThen
       (case op_Deadline o1 of
          Some dl \<Rightarrow>
            if op_Kind o1 \<noteq> ''create'' \<and> entry = None
            then andThen (now en) (\<lambda>t.
              scheduleDeadline (op_NativeID o1) dl (max (dl - t) RecoveryRetryDelay))
            else ret ()
        | None \<Rightarrow> ret ())
       (\<lambda>_. queueOperation o1))))"

section \<open>Commands and the proxy's cache\<close>

text \<open>\<open>clearCommands\<close> cancels and forgets the commands of a sandbox.\<close>

definition clearCommands :: "string \<Rightarrow> unit act" where
  "clearCommands i = modify (\<lambda>w. w\<lparr>running := filter (\<lambda>(_, rc). rc_sandboxID rc \<noteq> i) (running w)\<rparr>)"

definition invalidateCache :: "env \<Rightarrow> string \<Rightarrow> unit act" where
  "invalidateCache en i =
     (if \<not> en_invalidator en then ret ()
      else andThen (attempt (repo (FindByID (en_F en) True i))) (\<lambda>r.
        case r of
          Inr (Some sb) \<Rightarrow>
            if sb_Name sb \<noteq> [] then modify (\<lambda>w. w\<lparr>invalidated := invalidated w @ [sb_Name sb]\<rparr>)
            else ret ()
        | _ \<Rightarrow> ret ()))"

section \<open>Ownership of a native resource\<close>

text \<open>
  \<open>checkOwnership\<close>: legacy intents without a token are bound by their stored native ID only; a
  missing resource is accepted; any other must carry the intent's ID and label.
\<close>

definition labelled :: "string \<Rightarrow> container \<Rightarrow> bool" where
  "labelled token c \<longleftrightarrow> (case ct_Config c of None \<Rightarrow> False
     | Some cfg \<Rightarrow> labelOf (cc_Labels cfg) = token)"

definition checkOwnership :: "env \<Rightarrow> operation \<Rightarrow> unit act" where
  "checkOwnership en o1 =
     (if op_Token o1 = [] then ret ()
      else andThen (attempt (ContainerInspect en (op_NativeID o1))) (\<lambda>r.
        case r of
          Inl e \<Rightarrow> if IsNotFound e then ret () else throw (DeferRecovery e)
        | Inr c \<Rightarrow> failIf (ct_ID c \<noteq> op_NativeID o1 \<or> \<not> labelled (op_Token o1) c)
            (Msg ''native ownership mismatch'')))"

end
