(* ===== verification/Docker_Lifecycle.thy ===== *)
theory Docker_Lifecycle
  imports Docker_World
begin

text \<open>
  \<open>src/internal/docker/lifecycle.go\<close>: create, start, stop, restart, remove, pause, resume and
  renewal of a sandbox. Each handler is the Go function, statement by statement; deferred calls
  are \<open>finallyDo\<close> (they run on every return) or \<open>onError\<close> (the closures that test
  \<open>committed\<close>: it is set just before the only successful return).
\<close>

section \<open>Requests and responses\<close>

text \<open>\<open>CPUs\<close> is a \<open>float64\<close>; it is a real number here, and \<open>int64(cpus * 1e9)\<close> truncates.\<close>

record resource_limits =
  rl_Memory :: int
  rl_CPUs :: real

record create_request =
  rq_Image :: string
  rq_Ports :: "string list"
  rq_Timeout :: int
  rq_Resources :: "resource_limits option"
  rq_Env :: "string list"

record create_response =
  rs_ID :: string
  rs_Name :: string
  rs_Ports :: "string list"

record restart_response =
  rr_Status :: string
  rr_Ports :: "string list"
  rr_ExpiresAt :: "int option"

definition defaultTimeout :: int where
  "defaultTimeout = 900"

definition defaultMemoryMB :: int where
  "defaultMemoryMB = 1024"

definition defaultCPUs :: real where
  "defaultCPUs = 1"

definition requestedMemory :: "create_request \<Rightarrow> int" where
  "requestedMemory req = (case rq_Resources req of None \<Rightarrow> defaultMemoryMB
     | Some r \<Rightarrow> if rl_Memory r > 0 then rl_Memory r else defaultMemoryMB)"

definition requestedCPUs :: "create_request \<Rightarrow> real" where
  "requestedCPUs req = (case rq_Resources req of None \<Rightarrow> defaultCPUs
     | Some r \<Rightarrow> if rl_CPUs r > 0 then rl_CPUs r else defaultCPUs)"

definition createOptions :: "env \<Rightarrow> create_request \<Rightarrow> string list \<Rightarrow> string \<Rightarrow> string \<Rightarrow> create_options"
where
  "createOptions en req ports name token =
     \<lparr>cr_Name = name, cr_Image = rq_Image req, cr_Env = rq_Env req,
      cr_Cmd = [''sleep'', ''infinity''], cr_Labels = [(ownerLabel, token)],
      cr_Exposed = buildExposedPorts (en_parsePort en) ports,
      cr_Bindings = buildPortBindings (en_parsePort en) ports,
      cr_Memory = wrap64 (requestedMemory req * 1024 * 1024),
      cr_NanoCPUs = wrap64 \<lfloor>requestedCPUs req * 10 ^ 9\<rfloor>\<rparr>"

section \<open>Create\<close>

definition nameProbe :: "env \<Rightarrow> world probe" where
  "nameProbe en n w =
     (case repo (FindByName (en_F en) True n) w of
        (Inr (Some _), w') \<Rightarrow> (True, w') | (_, w') \<Rightarrow> (False, w'))"

definition uniqueName :: "env \<Rightarrow> string act" where
  "uniqueName en = (\<lambda>w.
     case generateUniqueName (en_fuel en) (en_draw en (tick w)) (nameProbe en) 0 w of
       None \<Rightarrow> (Inl (Msg ''name generation did not finish within the fuel''), w)
     | Some (name, _, w') \<Rightarrow> (Inr name, w'\<lparr>tick := Suc (tick w')\<rparr>))"

definition generateCmdID :: "env \<Rightarrow> string act" where
  "generateCmdID en = andThen (randText en) (\<lambda>h. ret (''cmd_'' @ h))"

definition sandboxRow ::
    "ctx \<Rightarrow> create_request \<Rightarrow> string \<Rightarrow> string \<Rightarrow> string \<Rightarrow> string \<Rightarrow> JSONMap \<Rightarrow> int \<Rightarrow> sandbox_row" where
  "sandboxRow cx req native name mainPort token ports deadline =
     \<lparr>sb_ID = CreationID cx native, sb_NativeID = Some native, sb_ImageRoot = [],
      sb_ImageManifest = [], sb_NativeImage = [], sb_CacheVersion = [], sb_RecoveryError = [],
      sb_RuntimeKind = ''docker'', sb_AttemptToken = token, sb_ExpiresAt = Some deadline,
      sb_Name = name, sb_Image = CreationImage cx (rq_Image req), sb_Ports = ports,
      sb_Port = mainPort\<rparr>"

text \<open>
  The deferred roll-back of a creation that was not committed: force the new resource away; if
  that fails keep its ownership row, otherwise retire the intent.
\<close>

definition rollbackCreate :: "env \<Rightarrow> operation \<Rightarrow> string \<Rightarrow> sandbox_row \<Rightarrow> err \<Rightarrow> 'a act" where
  "rollbackCreate en o1 native row e =
     andThen (cancelTimer native) (\<lambda>_.
     andThen (attempt (native_call en VRemove native)) (\<lambda>r.
     case r of
       Inl x \<Rightarrow>
         if \<not> IsNotFound x then
           andThen (attempt (repo (CreateOwnership (en_F en) row))) (\<lambda>s.
             throw (Join (e # Wrap ''rollback sandbox'' x #
               (case s of Inl y \<Rightarrow> [y] | Inr _ \<Rightarrow> []))))
         else
           andThen (attempt (repo (DeleteOperation (en_F en) o1))) (\<lambda>s.
             throw (Join (e # (case s of Inl y \<Rightarrow> [y] | Inr _ \<Rightarrow> []))))
     | Inr _ \<Rightarrow>
         andThen (attempt (repo (DeleteOperation (en_F en) o1))) (\<lambda>s.
           throw (Join (e # (case s of Inl y \<Rightarrow> [y] | Inr _ \<Rightarrow> []))))))"

definition retryOnError :: "env \<Rightarrow> operation \<Rightarrow> 'a act \<Rightarrow> 'a act" where
  "retryOnError en o1 m = onError m (\<lambda>e. andThen (retryOperation en o1) (\<lambda>_. throw e))"

text \<open>From the bound intent to the commit.\<close>

definition commitCreate ::
    "env \<Rightarrow> ctx \<Rightarrow> create_request \<Rightarrow> operation \<Rightarrow> string \<Rightarrow> string \<Rightarrow> string \<Rightarrow> int \<Rightarrow> create_response act"
where
  "commitCreate en cx req o1 native name mainPort deadline =
     andThen (native_call en VStart native) (\<lambda>_.
     andThen (ContainerInspect en native) (\<lambda>info.
     andThen (deref (ct_Ports info)) (\<lambda>pm.
     let assigned = extractPorts (en_portString en) pm in
     andThen (repo (CommitCreation (en_F en) o1
         (sandboxRow cx req native name mainPort (op_Token o1) assigned deadline)
         (AwaitAdoption cx))) (\<lambda>_.
     andThen (if AwaitAdoption cx
         then modify (\<lambda>w. w\<lparr>createAttempts := store native o1 (createAttempts w)\<rparr>)
         else ret ()) (\<lambda>_.
     andThen (scheduleUntil en native deadline) (\<lambda>_.
     ret \<lparr>rs_ID = native, rs_Name = name, rs_Ports = portKeys assigned\<rparr>))))))"

definition Create :: "env \<Rightarrow> ctx \<Rightarrow> create_request \<Rightarrow> create_response act" where
  "Create en cx req = locked cx (
     andThen (ImageExists en (rq_Image req)) (\<lambda>exists.
     if \<not> exists then throw ErrImageNotFound
     else
       let ports = normalizePorts (rq_Ports req);
           mainPort = (case ports of [] \<Rightarrow> [] | p # _ \<Rightarrow> p);
           timeout = (if rq_Timeout req \<le> 0 then defaultTimeout else rq_Timeout req) in
       andThen (uniqueName en) (\<lambda>name.
       andThen (generateCmdID en) (\<lambda>token.
       andThen (now en) (\<lambda>t.
       let nativeName = name @ ''-'' @ token;
           deadline = t + wrap64 (timeout * Second);
           o1 = \<lparr>op_ID = ''docker:'' @ token, op_RuntimeKind = ''docker'',
                 op_PublicID = CreationID cx [], op_NativeID = [], op_NativeName = nativeName,
                 op_Token = token, op_Kind = ''create'', op_Deadline = Some deadline\<rparr> in
       andThen (repo (BeginCreate (en_F en) o1)) (\<lambda>_.
       andThen (retryOnError en o1 (mapErr (Wrap ''create intent retained for recovery'')
           (ContainerCreate en (createOptions en req ports nativeName token)))) (\<lambda>native.
       let row = sandboxRow cx req native name mainPort token [] deadline in
       andThen (retryOnError en o1
           (onError (repo (BindCreation (en_F en) o1 native)) (rollbackCreate en o1 native row)))
         (\<lambda>o2.
           retryOnError en o2
             (onError (commitCreate en cx req o2 native name mainPort deadline)
               (rollbackCreate en o2 native row))))))))))"

section \<open>Start and restart\<close>

text \<open>What start and restart do once the engine has accepted the call.\<close>

definition finishStart ::
    "env \<Rightarrow> operation \<Rightarrow> string \<Rightarrow> int \<Rightarrow> string \<Rightarrow> restart_response act" where
  "finishStart en o1 i deadline status =
     andThen (scheduleUntil en i deadline) (\<lambda>_.
     andThen (mapErr wrapNotFound (ContainerInspect en i)) (\<lambda>info.
     andThen (reads (getTimerEntry i)) (\<lambda>entry.
     andThen (deref (ct_Ports info)) (\<lambda>pm.
     let ports = extractPorts (en_portString en) pm in
     andThen (mapErr (Wrap ''persist ports for sandbox'')
         (repo (CompleteOperation (en_F en) o1 (Some ports) (Some deadline)))) (\<lambda>_.
     ret \<lparr>rr_Status = status, rr_Ports = portKeys ports,
          rr_ExpiresAt = map_option te_expiresAt entry\<rparr>)))))"

definition Start :: "env \<Rightarrow> ctx \<Rightarrow> string \<Rightarrow> restart_response act" where
  "Start en cx i = locked cx (
     andThen (mapErr wrapNotFound (ContainerInspect en i)) (\<lambda>pre.
     andThen (deref (ct_State pre)) (\<lambda>st.
     if st_Running st then throw ErrAlreadyRunning
     else
       andThen (now en) (\<lambda>t.
       let deadline = t + defaultTimeout * Second in
       andThen (randText en) (\<lambda>rnd.
       andThen (repo (BeginOperation (en_F en) rnd ''docker'' i ''start'' (Some deadline))) (\<lambda>o1.
       finallyDo
         (andThen (checkOwnership en o1) (\<lambda>_.
          finallyDo
            (andThen (mapErr wrapNotFound (native_call en VStart i)) (\<lambda>_.
             finishStart en o1 i deadline ''started''))
            (invalidateCache en i)))
         (retryOperation en o1)))))))"

definition Restart :: "env \<Rightarrow> ctx \<Rightarrow> string \<Rightarrow> restart_response act" where
  "Restart en cx i = locked cx (
     andThen (now en) (\<lambda>t.
     let deadline = t + defaultTimeout * Second in
     andThen (randText en) (\<lambda>rnd.
     andThen (repo (BeginOperation (en_F en) rnd ''docker'' i ''restart'' (Some deadline))) (\<lambda>o1.
     finallyDo
       (andThen (checkOwnership en o1) (\<lambda>_.
        finallyDo
          (andThen (mapErr wrapNotFound (native_call en VRestart i)) (\<lambda>_.
           finishStart en o1 i deadline ''restarted''))
          (invalidateCache en i)))
       (retryOperation en o1)))))"

section \<open>Stop and remove\<close>

text \<open>Retire the intent, forget the timer, and answer with the given error (or none).\<close>

definition settleStop :: "env \<Rightarrow> operation \<Rightarrow> string \<Rightarrow> err option \<Rightarrow> unit act" where
  "settleStop en o1 i e =
     andThen (repo (CompleteOperation (en_F en) o1 None None)) (\<lambda>_.
     andThen (cancelTimer i) (\<lambda>_.
       case e of None \<Rightarrow> ret () | Some x \<Rightarrow> throw x))"

definition stopLocked :: "env \<Rightarrow> string \<Rightarrow> unit act" where
  "stopLocked en i =
     andThen (randText en) (\<lambda>rnd.
     andThen (repo (BeginOperation (en_F en) rnd ''docker'' i ''stop'' None)) (\<lambda>o1.
     finallyDo
       (andThen (checkOwnership en o1) (\<lambda>_.
        finallyDo
          (andThen (attempt (ContainerInspect en i)) (\<lambda>r.
           case r of
             Inl e \<Rightarrow>
               if IsNotFound e then settleStop en o1 i (Some ErrNotFound)
               else throw (DeferRecovery (wrapNotFound e))
           | Inr info \<Rightarrow>
               andThen (deref (ct_State info)) (\<lambda>st.
               if \<not> st_Running st then settleStop en o1 i (Some ErrAlreadyStopped)
               else
                 andThen (attempt (native_call en VStop i)) (\<lambda>s.
                 case s of
                   Inr _ \<Rightarrow> settleStop en o1 i None
                 | Inl e \<Rightarrow>
                     if IsNotFound e then settleStop en o1 i (Some (DeferRecovery (wrapNotFound e)))
                     else throw (DeferRecovery (wrapNotFound e))))))
          (invalidateCache en i)))
       (retryOperation en o1)))"

definition Stop :: "env \<Rightarrow> ctx \<Rightarrow> string \<Rightarrow> unit act" where
  "Stop en cx i = locked cx (stopLocked en i)"

definition Remove :: "env \<Rightarrow> ctx \<Rightarrow> string \<Rightarrow> unit act" where
  "Remove en cx i = locked cx (
     andThen (randText en) (\<lambda>rnd.
     andThen (repo (BeginOperation (en_F en) rnd ''docker'' i ''delete'' None)) (\<lambda>o1.
     finallyDo
       (andThen (checkOwnership en o1) (\<lambda>_.
        andThen (attempt (native_call en VRemove i)) (\<lambda>r.
        andThen (case r of Inl e \<Rightarrow> failIf (\<not> IsNotFound e) e | Inr _ \<Rightarrow> ret ()) (\<lambda>_.
        andThen (cancelTimer i) (\<lambda>_.
        andThen (invalidateCache en i) (\<lambda>_.
        andThen (clearCommands i) (\<lambda>_.
        mapErr (Wrap ''delete sandbox'') (repo (DeleteOperation (en_F en) o1)))))))))
       (retryOperation en o1))))"

section \<open>Pause, resume and renewal\<close>

definition Pause :: "env \<Rightarrow> ctx \<Rightarrow> string \<Rightarrow> unit act" where
  "Pause en cx i = locked cx (
     andThen (repo (RequireIdle (en_F en) ''docker'' i)) (\<lambda>_.
     andThen (mapErr wrapNotFound (ContainerInspect en i)) (\<lambda>info.
     andThen (deref (ct_State info)) (\<lambda>st.
     if st_Paused st then throw ErrAlreadyPaused
     else if \<not> st_Running st then throw ErrNotRunning
     else mapErr wrapNotFound (native_call en VPause i)))))"

definition Resume :: "env \<Rightarrow> ctx \<Rightarrow> string \<Rightarrow> unit act" where
  "Resume en cx i = locked cx (
     andThen (repo (RequireIdle (en_F en) ''docker'' i)) (\<lambda>_.
     andThen (mapErr wrapNotFound (ContainerInspect en i)) (\<lambda>info.
     andThen (deref (ct_State info)) (\<lambda>st.
     if \<not> st_Paused st then throw ErrNotPaused
     else mapErr wrapNotFound (native_call en VUnpause i)))))"

definition RenewExpiration :: "env \<Rightarrow> ctx \<Rightarrow> string \<Rightarrow> int \<Rightarrow> unit act" where
  "RenewExpiration en cx i timeout = locked cx (
     andThen (mapErr wrapNotFound (ContainerInspect en i)) (\<lambda>_.
     andThen (now en) (\<lambda>t.
     let deadline = t + wrap64 (timeout * Second) in
     andThen (repo (SetDeadline (en_F en) i ''docker'' (Some deadline))) (\<lambda>_.
     scheduleUntil en i deadline))))"

end
