(* ===== verification/Docker_Recovery.thy ===== *)
theory Docker_Recovery
  imports Docker_Lifecycle
begin

text \<open>
  \<open>src/internal/docker/recovery.go\<close> with the expiry and shutdown paths of \<open>lifecycle.go\<close>: how
  a durable intent is observed and settled after a failure or a restart of the server. A job
  of the recovery queue is run by \<open>runJob\<close>, one attempt of \<open>RecoveryQueue.Run\<close>.
\<close>

section \<open>Reconciliation of one intent\<close>

definition validateIntent :: "operation \<Rightarrow> unit act" where
  "validateIntent o1 =
     (if op_RuntimeKind o1 \<noteq> ''docker'' then throw (Msg ''recovery runtime mismatch'')
      else if op_Kind o1 = ''create'' then
        failIf (op_Token o1 = [] \<or> op_NativeName o1 = [])
          (Msg ''creation intent lacks exact name and ownership token'')
      else if op_Kind o1 = ''start'' \<or> op_Kind o1 = ''restart'' then
        failIf (op_Deadline o1 = None \<or> op_NativeID o1 = [])
          (Msg ''start/restart intent lacks identity or deadline'')
      else if op_Kind o1 = ''stop'' \<or> op_Kind o1 = ''delete'' then
        failIf (op_NativeID o1 = []) (Msg ''recovery intent lacks native identity'')
      else throw (Msg ''unknown pending operation''))"

text \<open>The reference to inspect; a creation that was not bound is looked up by its attempt.\<close>

definition resolveRef :: "env \<Rightarrow> operation \<Rightarrow> (operation \<times> string) act" where
  "resolveRef en o1 =
     (if op_Kind o1 = ''create'' \<and> op_NativeID o1 = [] then
        andThen (repo (FindByAttempt (en_F en) (op_RuntimeKind o1) (op_Token o1))) (\<lambda>row.
        case row of
          None \<Rightarrow> ret (o1, op_NativeName o1)
        | Some r \<Rightarrow>
            if op_PublicID o1 \<noteq> [] \<and> sb_ID r \<noteq> op_PublicID o1
            then throw (Msg ''creation owner does not match attempt'')
            else ret (o1\<lparr>op_NativeID := RuntimeID r, op_PublicID := sb_ID r\<rparr>, RuntimeID r))
      else ret (o1, op_NativeID o1))"

text \<open>Inspection; \<open>None\<close> is \<open>missing\<close>.\<close>

definition observe :: "env \<Rightarrow> string \<Rightarrow> container option act" where
  "observe en ref =
     andThen (attempt (ContainerInspect en ref)) (\<lambda>r.
       case r of Inr c \<Rightarrow> ret (Some c)
       | Inl e \<Rightarrow> if IsNotFound e then ret None else throw (DeferRecovery e))"

definition identify :: "env \<Rightarrow> operation \<Rightarrow> container \<Rightarrow> (operation \<times> cstate) act" where
  "identify en o1 info =
     (if op_Token o1 \<noteq> [] \<and> \<not> labelled (op_Token o1) info
      then throw (Msg ''native ownership label mismatch; refusing recovery mutation'')
      else if op_NativeID o1 \<noteq> [] \<and> ct_ID info \<noteq> op_NativeID o1
      then throw (Msg ''native identity mismatch'')
      else case ct_State info of
        None \<Rightarrow> throw (Msg ''native recovery state is missing'')
      | Some st \<Rightarrow>
          if st_Restarting st then throw (DeferRecovery (Msg ''native state is not settled''))
          else if op_Kind o1 = ''create'' \<and> op_NativeID o1 = [] then
            let o2 = o1\<lparr>op_NativeID := ct_ID info\<rparr> in
            if op_PublicID o2 = [] then
              andThen (repo (FindByNativeID (en_F en) (op_NativeID o2))) (\<lambda>row.
              case row of
                None \<Rightarrow> ret (o2, st)
              | Some r \<Rightarrow>
                  if sb_AttemptToken r \<noteq> op_Token o2 \<or> sb_RuntimeKind r \<noteq> op_RuntimeKind o2
                  then throw (Msg ''creation owner does not match attempt'')
                  else ret (o2\<lparr>op_PublicID := sb_ID r\<rparr>, st))
            else ret (o2, st)
          else ret (o1, st))"

text \<open>An engine call after which a missing resource counts as success.\<close>

definition tolerantCall :: "env \<Rightarrow> verb \<Rightarrow> string \<Rightarrow> unit act" where
  "tolerantCall en v ref =
     andThen (attempt (native_call en v ref)) (\<lambda>r.
       case r of Inr _ \<Rightarrow> ret ()
       | Inl e \<Rightarrow> if IsNotFound e then ret () else throw (DeferRecovery e))"

definition settleIntent :: "env \<Rightarrow> operation \<Rightarrow> (container \<times> cstate) option \<Rightarrow> unit act" where
  "settleIntent en o1 seen =
     (if op_Kind o1 = ''create'' \<or> op_Kind o1 = ''delete'' then
        andThen (case seen of None \<Rightarrow> ret () | Some (info, st) \<Rightarrow> tolerantCall en VRemove (ct_ID info))
          (\<lambda>_.
        andThen (clearCommands (op_NativeID o1)) (\<lambda>_.
        andThen (invalidateCache en (op_NativeID o1)) (\<lambda>_.
        andThen (repo (DeleteOperation (en_F en) o1)) (\<lambda>_.
        cancelTimer (op_NativeID o1)))))
      else if op_Kind o1 = ''stop'' then
        andThen (case seen of None \<Rightarrow> ret ()
          | Some (info, st) \<Rightarrow>
              if st_Running st then tolerantCall en VStop (op_NativeID o1) else ret ()) (\<lambda>_.
        andThen (repo (CompleteOperation (en_F en) o1 None None)) (\<lambda>_.
        andThen (cancelTimer (op_NativeID o1)) (\<lambda>_.
        invalidateCache en (op_NativeID o1))))
      else if op_Kind o1 = ''start'' \<or> op_Kind o1 = ''restart'' then
        if op_Deadline o1 = None then throw (Msg ''start/restart intent lacks an absolute deadline'')
        else
          andThen (case seen of None \<Rightarrow> ret []
            | Some (info, st) \<Rightarrow>
                andThen (deref (ct_Ports info)) (\<lambda>pm. ret (extractPorts (en_portString en) pm)))
            (\<lambda>ports.
          let deadline = (case seen of None \<Rightarrow> None
            | Some (info, st) \<Rightarrow> if \<not> st_Running st then None else op_Deadline o1) in
          andThen (repo (CompleteOperation (en_F en) o1 (Some ports) deadline)) (\<lambda>_.
          andThen (invalidateCache en (op_NativeID o1)) (\<lambda>_.
          case deadline of
            Some dl \<Rightarrow> scheduleUntil en (op_NativeID o1) dl
          | None \<Rightarrow> cancelTimer (op_NativeID o1))))
      else throw (Msg ''unknown pending operation''))"

definition reconcile :: "env \<Rightarrow> operation \<Rightarrow> unit act" where
  "reconcile en o1 =
     andThen (validateIntent o1) (\<lambda>_.
     andThen (repo (ValidateOperation (en_F en) o1)) (\<lambda>_.
     if op_Kind o1 = ''create'' \<and> (op_Token o1 = [] \<or> op_NativeName o1 = [])
     then throw (Msg ''creation intent lacks exact name and ownership token'')
     else
       andThen (resolveRef en o1) (\<lambda>(o2, ref).
       andThen (observe en ref) (\<lambda>seen.
       case seen of
         None \<Rightarrow> settleIntent en o2 None
       | Some info \<Rightarrow>
           andThen (identify en o2 info) (\<lambda>(o3, st). settleIntent en o3 (Some (info, st)))))))"

definition reconcileResource :: "env \<Rightarrow> string \<Rightarrow> unit act" where
  "reconcileResource en i =
     andThen (repo (Pending (en_F en) ''docker'' i)) (\<lambda>p.
     case p of
       None \<Rightarrow> ret ()
     | Some o1 \<Rightarrow>
         if op_Kind o1 = ''create''
         then throw (DeferRecovery (Msg ''creation awaits adoption or explicit failed-create recovery''))
         else reconcile en o1)"

section \<open>Jobs\<close>

text \<open>The closure that \<open>queueOperation\<close> schedules.\<close>

definition intentWork :: "env \<Rightarrow> ctx \<Rightarrow> operation \<Rightarrow> unit act" where
  "intentWork en cx o1 = locked cx (
     andThen (repo (FindOperation (en_F en) (op_ID o1))) (\<lambda>current.
     case current of
       None \<Rightarrow> ret ()
     | Some cur \<Rightarrow>
         if op_RuntimeKind cur \<noteq> op_RuntimeKind o1 \<or> op_Token cur \<noteq> op_Token o1
         then throw (Msg ''recovery attempt identity changed'')
         else andThen (reconcile en cur) (\<lambda>_.
           if op_Kind cur = ''create'' \<or> op_Kind cur = ''delete''
           then modify (\<lambda>w. w\<lparr>createAttempts := remove_key (op_NativeID cur) (createAttempts w)\<rparr>)
           else ret ())))"

text \<open>A failed stop whose error is one of the two benign ones counts as a stop.\<close>

definition benignStop :: "err \<Rightarrow> bool" where
  "benignStop e \<longleftrightarrow> errors_is e ErrAlreadyStopped \<or> errors_is e ErrNotFound"

definition stopExpired :: "env \<Rightarrow> string \<Rightarrow> timerEntry \<Rightarrow> unit act" where
  "stopExpired en i entry =
     andThen (attempt (stopLocked en i)) (\<lambda>r.
     case r of
       Inl e \<Rightarrow>
         if \<not> benignStop e then scheduleDeadline i (te_expiresAt entry) RecoveryRetryDelay
         else andThen (cancelTimer i) (\<lambda>_. invalidateCache en i)
     | Inr _ \<Rightarrow> andThen (cancelTimer i) (\<lambda>_. invalidateCache en i))"

text \<open>
  \<open>row.ExpiresAt.After(entry.expiresAt) && row.ExpiresAt.After(time.Now())\<close>: renewed meanwhile.
\<close>

definition renewedDeadline :: "env \<Rightarrow> timerEntry \<Rightarrow> sandbox_row \<Rightarrow> int option act" where
  "renewedDeadline en entry s =
     (case sb_ExpiresAt s of
        None \<Rightarrow> ret None
      | Some dl \<Rightarrow>
          if dl > te_expiresAt entry
          then andThen (now en) (\<lambda>t. ret (if dl > t then Some dl else None))
          else ret None)"

definition expireLocked :: "env \<Rightarrow> string \<Rightarrow> timerEntry \<Rightarrow> unit act" where
  "expireLocked en i entry =
     andThen (reads (\<lambda>w. closing w \<or>
         map_option te_serial (getTimerEntry i w) \<noteq> Some (te_serial entry))) (\<lambda>stale.
     if stale then ret ()
     else andThen (attempt (reconcileResource en i)) (\<lambda>r.
     case r of
       Inl e \<Rightarrow> scheduleDeadline i (te_expiresAt entry) RecoveryRetryDelay
     | Inr _ \<Rightarrow>
         andThen (reads (getTimerEntry i)) (\<lambda>entry'.
         if entry' = None then ret ()
         else andThen (attempt (repo (FindByNativeID (en_F en) i))) (\<lambda>row.
         case row of
           Inl e \<Rightarrow> scheduleDeadline i (te_expiresAt entry) RecoveryRetryDelay
         | Inr found \<Rightarrow>
             (case found of
                None \<Rightarrow> cancelTimer i
              | Some s \<Rightarrow>
                  andThen (renewedDeadline en entry s) (\<lambda>dl.
                  case dl of
                    Some d \<Rightarrow> scheduleUntil en i d
                  | None \<Rightarrow> stopExpired en i entry))))))"

definition runWork :: "env \<Rightarrow> ctx \<Rightarrow> job \<Rightarrow> unit act" where
  "runWork en cx j = (case j of
     IntentJob o1 \<Rightarrow> intentWork en cx o1
   | TtlJob i entry \<Rightarrow> locked cx (expireLocked en i entry))"

text \<open>
  One attempt of \<open>RecoveryQueue.Run\<close>: a job that succeeds leaves the queue, a job that fails
  stays for the next timer.
\<close>

definition runJob :: "env \<Rightarrow> ctx \<Rightarrow> string \<Rightarrow> unit act" where
  "runJob en cx key = (\<lambda>w.
     if queueClosed w then (Inr (), w)
     else case map_of (jobs w) key of
       None \<Rightarrow> (Inr (), w)
     | Some j \<Rightarrow>
         (case runWork en cx j w of
            (Inl e, w1) \<Rightarrow> (Inl e, w1)
          | (Inr _, w1) \<Rightarrow>
              if queueClosed w1 then (Inr (), w1)
              else (Inr (), w1\<lparr>jobs := remove_key key (jobs w1)\<rparr>)))"

text \<open>\<open>expire\<close>: the key has the entry's address, here its serial number.\<close>

definition ttlKey :: "string \<Rightarrow> timerEntry \<Rightarrow> string" where
  "ttlKey i entry = ''ttl:'' @ i @ '':'' @ Itoa (te_serial entry)"

definition expire :: "env \<Rightarrow> string \<Rightarrow> timerEntry \<Rightarrow> unit act" where
  "expire en i entry =
     andThen (Schedule (ttlKey i entry) (TtlJob i entry)) (\<lambda>_.
       runJob en Background (ttlKey i entry))"

section \<open>Creation at the service boundary\<close>

definition CreationFailed :: "string \<Rightarrow> unit act" where
  "CreationFailed i =
     andThen (reads (\<lambda>w. map_of (createAttempts w) i)) (\<lambda>o1.
       case o1 of None \<Rightarrow> ret () | Some x \<Rightarrow> queueOperation x)"

definition forgetAttempt :: "string \<Rightarrow> unit act" where
  "forgetAttempt i = modify (\<lambda>w. w\<lparr>createAttempts := remove_key i (createAttempts w)\<rparr>)"

definition DiscardCreated :: "env \<Rightarrow> ctx \<Rightarrow> string \<Rightarrow> unit act" where
  "DiscardCreated en cx i =
     andThen (attempt (Remove en cx i)) (\<lambda>r.
       case r of
         Inl e \<Rightarrow> andThen (CreationFailed i) (\<lambda>_. throw e)
       | Inr _ \<Rightarrow> forgetAttempt i)"

definition AdoptCreation :: "env \<Rightarrow> ctx \<Rightarrow> sandbox_row \<Rightarrow> unit act" where
  "AdoptCreation en cx row = locked cx (
     andThen (repo (UpdateProvenance (en_F en) row True)) (\<lambda>_.
       forgetAttempt (RuntimeID row)))"

section \<open>Startup recovery\<close>

text \<open>
  \<open>warm\<close> is the context bounded by the warm-up budget. An error of a reconciliation is let
  pass when it is an operational engine failure or the budget's own error.
\<close>

definition deferrable :: "env \<Rightarrow> ctx \<Rightarrow> err \<Rightarrow> bool act" where
  "deferrable en warm e =
     (if IsDeferredRecovery e then ret True
      else andThen (ctxErr warm) (\<lambda>x.
        ret (case x of None \<Rightarrow> False | Some y \<Rightarrow> errors_is e y)))"

fun registerIntents :: "env \<Rightarrow> operation list \<Rightarrow> unit act" where
  "registerIntents en [] = ret ()"
| "registerIntents en (o1 # ops) =
     andThen (repo (ValidateOperation (en_F en) o1)) (\<lambda>_.
     andThen (validateIntent o1) (\<lambda>_.
     andThen (retryOperation en o1) (\<lambda>_.
     registerIntents en ops)))"

fun restoreDeadlines :: "env \<Rightarrow> sandbox_row list \<Rightarrow> unit act" where
  "restoreDeadlines en [] = ret ()"
| "restoreDeadlines en (row # rows) =
     andThen
       (case sb_ExpiresAt row of
          Some dl \<Rightarrow>
            if sb_RuntimeKind row \<noteq> ''docker'' then ret ()
            else andThen (now en) (\<lambda>t.
              scheduleDeadline (RuntimeID row) dl
                (if dl - t \<le> 0 then RecoveryRetryDelay else dl - t))
        | None \<Rightarrow> ret ())
       (\<lambda>_. restoreDeadlines en rows)"

fun warmIntents :: "env \<Rightarrow> ctx \<Rightarrow> operation list \<Rightarrow> unit act" where
  "warmIntents en warm [] = ret ()"
| "warmIntents en warm (o1 # ops) =
     andThen (ctxErr warm) (\<lambda>x.
     if x \<noteq> None then ret ()
     else andThen (attempt (reconcile en o1)) (\<lambda>r.
     andThen
       (case r of Inr _ \<Rightarrow> ret ()
        | Inl e \<Rightarrow> andThen (deferrable en warm e) (\<lambda>b. failIf (\<not> b) e))
       (\<lambda>_. warmIntents en warm ops)))"

definition overdue :: "env \<Rightarrow> sandbox_row \<Rightarrow> bool act" where
  "overdue en row =
     (case sb_ExpiresAt row of
        None \<Rightarrow> ret False
      | Some dl \<Rightarrow>
          if sb_RuntimeKind row \<noteq> ''docker'' then ret False
          else andThen (now en) (\<lambda>t. ret (\<not> dl > t)))"

fun warmOverdue :: "env \<Rightarrow> ctx \<Rightarrow> sandbox_row list \<Rightarrow> unit act" where
  "warmOverdue en warm [] = ret ()"
| "warmOverdue en warm (row # rows) =
     andThen (ctxErr warm) (\<lambda>x.
     if x \<noteq> None then ret ()
     else andThen (overdue en row) (\<lambda>late.
     if \<not> late then warmOverdue en warm rows
     else andThen (repo (Pending (en_F en) ''docker'' (RuntimeID row))) (\<lambda>pending.
     if pending \<noteq> None then warmOverdue en warm rows
     else andThen (attempt (stopLocked en (RuntimeID row))) (\<lambda>r.
     andThen
       (case r of Inr _ \<Rightarrow> ret ()
        | Inl e \<Rightarrow>
            if benignStop e then ret ()
            else andThen (deferrable en warm e) (\<lambda>b. failIf (\<not> b) e))
       (\<lambda>_. warmOverdue en warm rows)))))"

definition Recover :: "env \<Rightarrow> ctx \<Rightarrow> ctx \<Rightarrow> unit act" where
  "Recover en cx warm = locked cx (
     andThen (repo (Operations (en_F en) ''docker'')) (\<lambda>ops.
     andThen (repo (FindAll (en_F en) True)) (\<lambda>rows.
     andThen (registerIntents en ops) (\<lambda>_.
     andThen (restoreDeadlines en rows) (\<lambda>_.
     andThen (warmIntents en warm ops) (\<lambda>_.
     andThen (warmOverdue en warm rows) (\<lambda>_.
     andThen (ctxErr cx) (\<lambda>x. case x of None \<Rightarrow> ret () | Some e \<Rightarrow> throw e))))))))"

section \<open>Shutdown\<close>

definition stopForShutdown :: "env \<Rightarrow> string \<Rightarrow> unit act" where
  "stopForShutdown en i =
     andThen (reconcileResource en i) (\<lambda>_.
     andThen (repo (FindByNativeID (en_F en) i)) (\<lambda>row.
     if row = None then ret ()
     else andThen (attempt (stopLocked en i)) (\<lambda>r.
       case r of Inr _ \<Rightarrow> ret ()
       | Inl e \<Rightarrow> if benignStop e then ret () else throw e)))"

text \<open>\<open>timers.Range\<close> visits each key once and skips a key that has been deleted meanwhile.\<close>

fun shutdownTimers :: "env \<Rightarrow> string list \<Rightarrow> unit act" where
  "shutdownTimers en [] = ret ()"
| "shutdownTimers en (i # is) =
     andThen (reads (getTimerEntry i)) (\<lambda>entry.
     if entry = None then shutdownTimers en is
     else andThen (cancelTimer i) (\<lambda>_.
       andThen (attempt (stopForShutdown en i)) (\<lambda>_. shutdownTimers en is)))"

definition stopQueue :: "world \<Rightarrow> world" where
  "stopQueue w = w\<lparr>queueClosed := True, jobs := []\<rparr>"

definition cancelCommands :: "world \<Rightarrow> world" where
  "cancelCommands w = w\<lparr>running := map (\<lambda>(k, rc). (k, rc\<lparr>rc_canceled := True\<rparr>)) (running w)\<rparr>"

text \<open>Errors are logged only: a shutdown returns nothing.\<close>

definition Shutdown :: "env \<Rightarrow> ctx \<Rightarrow> unit act" where
  "Shutdown en cx =
     andThen (modify stopQueue) (\<lambda>_.
     andThen (attempt (locked cx (
       andThen (modify (\<lambda>w. w\<lparr>closing := True\<rparr>)) (\<lambda>_.
       andThen (modify cancelCommands) (\<lambda>_.
       andThen (reads (\<lambda>w. map fst (timers w))) (\<lambda>ids. shutdownTimers en ids)))))) (\<lambda>_. ret ()))"

end
