(* ===== verification/Intent_Props.thy ===== *)
theory Intent_Props
  imports Intents
begin

text \<open>
  What the repository promises the runtime adapters: failed transactions change nothing,
  primary keys stay unique, an intent is present from its begin to the transaction that
  records its outcome, and no mutation bypasses a pending intent.
\<close>

section \<open>Statements and transactions\<close>

abbreviation bump :: "db \<Rightarrow> db" where
  "bump d \<equiv> d\<lparr>stmts := Suc (stmts d)\<rparr>"

lemma tables_stmts [simp]: "tables (d\<lparr>stmts := n\<rparr>) = tables d"
  by (simp add: tables_def)

lemma tables_eq_iff:
  "tables d' = tables d \<longleftrightarrow>
     sandboxes d' = sandboxes d \<and> operations d' = operations d \<and> commands d' = commands d"
  by (simp add: tables_def)

lemma ok_stmt [ok_simps]:
  "stmt F f d = (Inr x, d') \<longleftrightarrow> F (stmts d) = None \<and> f (bump d) = (Inr x, d')"
  by (auto simp: stmt_def Let_def split: option.splits)

lemma ok_query [ok_simps]:
  "query F f d = (Inr x, d') \<longleftrightarrow> F (stmts d) = None \<and> x = f (bump d) \<and> d' = bump d"
  by (auto simp: query_def ok_simps)

lemma ok_exec [ok_simps]:
  "exec F f d = (Inr x, d') \<longleftrightarrow> F (stmts d) = None \<and> d' = f (bump d)"
  by (auto simp: exec_def ok_simps)

lemma ok_insert_stmt [ok_simps]:
  "insert_stmt F dup f d = (Inr x, d') \<longleftrightarrow>
     F (stmts d) = None \<and> \<not> dup (bump d) \<and> d' = f (bump d)"
  by (auto simp: insert_stmt_def ok_simps split: if_splits)

lemma transaction_atomic:
  "transaction F body d = (Inl e, d') \<Longrightarrow> tables d' = tables d"
  by (auto simp: transaction_def stmt_def Let_def split: prod.splits sum.splits option.splits)

lemma transaction_ok:
  "transaction F body d = (Inr x, d') \<Longrightarrow>
     \<exists>d2. body (bump d) = (Inr x, d2) \<and> tables d' = tables d2"
  by (auto simp: transaction_def stmt_def Let_def split: prod.splits sum.splits option.splits)

lemma transaction_okE:
  assumes "transaction F body d = (Inr x, d')"
  obtains d2 where "body (bump d) = (Inr x, d2)" and "tables d' = tables d2"
  using transaction_ok [OF assms] by blast

text \<open>
  C5: Every repository call that changes several rows is atomic: when it returns an error
  (from a guard, from any of its SQL statements or from its commit) the tables are what they
  were, so an intent is never lost and an owner never half deleted.
\<close>

theorem failed_calls_change_nothing:
  "(BeginCreate F o1 d = (Inl e, d') \<longrightarrow> tables d' = tables d) \<and>
   (BeginOperation F rnd runtime native kind dl d = (Inl e, d') \<longrightarrow> tables d' = tables d) \<and>
   (CommitCreation F o1 row await d = (Inl e, d') \<longrightarrow> tables d' = tables d) \<and>
   (CompleteOperation F o1 ports dl d = (Inl e, d') \<longrightarrow> tables d' = tables d) \<and>
   (DeleteOperation F o1 d = (Inl e, d') \<longrightarrow> tables d' = tables d) \<and>
   (DeleteSandbox F b i d = (Inl e, d') \<longrightarrow> tables d' = tables d) \<and>
   (SetDeadline F i runtime dl d = (Inl e, d') \<longrightarrow> tables d' = tables d) \<and>
   (UpdateProvenance F row adopt d = (Inl e, d') \<longrightarrow> tables d' = tables d)"
  unfolding BeginCreate_def BeginOperation_def CommitCreation_def CompleteOperation_def
    DeleteOperation_def DeleteSandbox_def SetDeadline_def UpdateProvenance_def
  by (auto dest: transaction_atomic)

definition sample_row :: sandbox_row where
  "sample_row = \<lparr>sb_ID = ''sbx-1'', sb_NativeID = Some ''c1'', sb_ImageRoot = ''sha256:r'',
     sb_ImageManifest = ''sha256:m'', sb_NativeImage = ''img'', sb_CacheVersion = ''docker:1'',
     sb_RecoveryError = [], sb_RuntimeKind = ''docker'', sb_AttemptToken = ''t1'',
     sb_ExpiresAt = Some 100, sb_Name = ''keen-lamport'', sb_Image = ''img'',
     sb_Ports = [(''80/tcp'', ''32768'')], sb_Port = ''80/tcp''\<rparr>"

definition sample_db :: db where
  "sample_db = \<lparr>sandboxes = [sample_row], operations = [], commands = [], stmts = 0\<rparr>"

theorem failed_calls_change_nothing_witness:
  "tables (snd (BeginOperation (\<lambda>_. None) ''r'' ''docker'' ''nope'' ''stop'' None sample_db)) =
     tables sample_db"
proof -
  have "fst (BeginOperation (\<lambda>_. None) ''r'' ''docker'' ''nope'' ''stop'' None sample_db) =
      Inl ErrNotFound"
    by (simp add: BeginOperation_def transaction_def stmt_def FindByNativeID_def query_def
        sample_db_def sample_row_def prog_defs first_row_def hasNativeID_def)
  then show ?thesis
    using failed_calls_change_nothing [of "\<lambda>_. None" undefined sample_db ErrNotFound
        "snd (BeginOperation (\<lambda>_. None) ''r'' ''docker'' ''nope'' ''stop'' None sample_db)"
        "''r''" "''docker''" "''nope''" "''stop''" None]
    by (metis prod.collapse)
qed

section \<open>Primary keys\<close>

definition keys_wf :: "db \<Rightarrow> bool" where
  "keys_wf d \<longleftrightarrow> distinct (map sb_ID (sandboxes d)) \<and> distinct (map op_ID (operations d)) \<and>
     distinct (map cmd_ID (commands d))"

lemma keys_wf_tables: "tables d' = tables d \<Longrightarrow> keys_wf d' = keys_wf d"
  by (simp add: keys_wf_def tables_def)

lemma keys_wf_bump [simp]: "keys_wf (bump d) = keys_wf d"
  by (simp add: keys_wf_def)

lemma keeps_stmt:
  "(\<And>d. I d \<Longrightarrow> I (bump d)) \<Longrightarrow> (\<And>d. I d \<Longrightarrow> I (snd (f d))) \<Longrightarrow> keeps I (stmt F f)"
  by (auto simp: keeps_def stmt_def Let_def split: option.split)

lemma keeps_query [keeps_rules]: "(\<And>d. I d \<Longrightarrow> I (bump d)) \<Longrightarrow> keeps I (query F f)"
  unfolding query_def by (rule keeps_stmt) auto

lemma keeps_transaction:
  assumes "\<And>d d'. tables d' = tables d \<Longrightarrow> I d' = I d" and "keeps I body"
  shows "keeps I (transaction F body)"
  unfolding keeps_def
proof (intro allI impI)
  fix d assume I: "I d"
  obtain r d' where t: "transaction F body d = (r, d')" by fastforce
  have "I d'"
  proof (cases r)
    case (Inl e)
    then show ?thesis using transaction_atomic t I assms(1) by blast
  next
    case (Inr x)
    then obtain d2 where "body (bump d) = (Inr x, d2)" "tables d' = tables d2"
      using t by (auto elim: transaction_okE)
    moreover have "I (bump d)" using I assms(1) [of d "bump d"] by simp
    ultimately show ?thesis using assms keepsD by metis
  qed
  then show "I (snd (transaction F body d))" using t by simp
qed

lemma keys_wf_query [keeps_rules]: "keeps keys_wf (query F f)"
  by (rule keeps_query) simp

lemma keys_wf_exec:
  "(\<And>d. keys_wf d \<Longrightarrow> keys_wf (f d)) \<Longrightarrow> keeps keys_wf (exec F f)"
  unfolding exec_def by (rule keeps_stmt) auto

lemma keys_wf_transaction [keeps_rules]: "keeps keys_wf m \<Longrightarrow> keeps keys_wf (transaction F m)"
  by (rule keeps_transaction) (auto simp: keys_wf_def tables_def)

lemma distinct_map_delete [simp]: "distinct (map k xs) \<Longrightarrow> distinct (map k (delete_rows p xs))"
  by (simp add: delete_rows_def distinct_map_filter)

lemma map_key_update [simp]:
  "(\<And>r. k (f r) = k r) \<Longrightarrow> map k (update_rows p f xs) = map k xs"
  by (simp add: map_update_rows)

lemma map_key_replace: "map k (update_rows (\<lambda>r. k r = k s) (\<lambda>_. s) xs) = map k xs"
  by (induction xs) (auto simp: update_rows_def)

lemma keys_wf_inserts [keeps_rules]:
  "keeps keys_wf (insertSandbox F s)" "keeps keys_wf (insertOperation F o1)"
  unfolding insertSandbox_def insertOperation_def insert_stmt_def
  by (rule keeps_stmt; auto simp: keys_wf_def goRow_def)+

lemma keys_wf_updates [keeps_rules]:
  "(\<And>r. op_ID (g r) = op_ID r) \<Longrightarrow> keeps keys_wf (updateOps F q g)"
  "(\<And>r. sb_ID (f r) = sb_ID r) \<Longrightarrow> keeps keys_wf (updateSandboxes F p f)"
  "keeps keys_wf (ClearOperation F o1)"
  unfolding updateOps_def updateSandboxes_def ClearOperation_def exec_def
  by (rule keeps_stmt; simp add: keys_wf_def)+

lemma keys_wf_deleteOps [keeps_rules]:
  "keeps keys_wf (exec F (\<lambda>d. d\<lparr>operations := delete_rows p (operations d)\<rparr>))"
  by (rule keys_wf_exec) (simp add: keys_wf_def)

lemma keys_wf_lookups [keeps_rules]:
  "keeps keys_wf (FindByNativeID F i)" "keeps keys_wf (storedID F b i)"
  "keeps keys_wf (FindByID F b i)" "keeps keys_wf (Pending F runtime i)"
  "keeps keys_wf (ValidateOperation F o1)" "keeps keys_wf (FindOperation F i)"
  unfolding FindByNativeID_def storedID_def FindByID_def Pending_def ValidateOperation_def
    FindOperation_def
  by (intro keeps_rules)+

lemma keys_wf_records [keeps_rules]:
  "keeps keys_wf (UpdatePorts F b i ports)" "keeps keys_wf (DeleteRow F b i)"
  "keeps keys_wf (DeleteCommandsBySandbox F b i)" "keeps keys_wf (UpdateCommandFinished F i c t)"
  unfolding UpdatePorts_def DeleteRow_def DeleteCommandsBySandbox_def UpdateCommandFinished_def
  by (intro keeps_rules keys_wf_exec; simp add: keys_wf_def)+

lemma keys_wf_DeleteSandbox [keeps_rules]: "keeps keys_wf (DeleteSandbox F b i)"
  unfolding DeleteSandbox_def by (intro keeps_rules)

lemma keys_wf_SaveCommand [keeps_rules]: "keeps keys_wf (SaveCommand F b c)"
  unfolding SaveCommand_def insert_stmt_def
  by (intro keeps_rules keeps_stmt; auto simp: keys_wf_def)

lemma keys_wf_Save [keeps_rules]: "keeps keys_wf (Save F b s)"
  unfolding Save_def Let_def
  by (intro keeps_rules keys_wf_exec)
    (auto simp: keys_wf_def upsert_def map_key_replace)


section \<open>What a successful call has done\<close>

lemma ok_FindByNativeID [ok_simps]:
  "FindByNativeID F i d = (Inr r, d') \<longleftrightarrow>
     F (stmts d) = None \<and> d' = bump d \<and> r = first_row sb_ID (hasNativeID i) (sandboxes d)"
  by (auto simp: FindByNativeID_def ok_simps)

lemma ok_Pending:
  "Pending F runtime i d = (Inr r, d') \<Longrightarrow> tables d' = tables d \<and>
     r = first_row op_ID (pendingFor runtime i (first_row sb_ID (hasNativeID i) (sandboxes d)))
       (operations d)"
  by (auto simp: Pending_def ok_simps tables_def)

lemma ok_FindByID_public:
  "FindByID F False i d = (Inr r, d') \<Longrightarrow>
     tables d' = tables d \<and> r = first_row sb_ID (\<lambda>s. sb_ID s = i) (sandboxes d)"
  by (auto simp: FindByID_def ok_simps tables_def)

lemma ok_ValidateOperation:
  assumes "ValidateOperation F o1 d = (Inr x, d')"
  shows "tables d' = tables d \<and> (\<exists>st \<in> set (operations d). op_ID st = op_ID o1 \<and>
     op_Kind st = op_Kind o1 \<and> op_RuntimeKind st = op_RuntimeKind o1 \<and> op_Token st = op_Token o1) \<and>
     (op_Kind o1 \<noteq> ''create'' \<longrightarrow> (\<exists>row \<in> set (sandboxes d). sb_ID row = op_PublicID o1 \<and>
        \<not> ownershipMismatch row o1))"
proof -
  obtain st d1 where st: "first_row op_ID (\<lambda>r. op_ID r = op_ID o1) (operations d) = Some st"
    "op_Kind st = op_Kind o1" "op_RuntimeKind st = op_RuntimeKind o1" "op_Token st = op_Token o1"
    "d1 = bump d"
    and rest: "(op_PublicID o1 = [] \<and> op_Kind o1 = ''create'' \<and> d' = d1) \<or>
      (\<exists>row d2. FindByID F False (op_PublicID o1) d1 = (Inr row, d2) \<and> d' = d2 \<and>
        (case row of None \<Rightarrow> op_Kind o1 = ''create'' | Some r \<Rightarrow> \<not> ownershipMismatch r o1))"
    using assms
    by (auto simp: ValidateOperation_def ok_simps split: option.splits if_splits)
  from rest show ?thesis
  proof
    assume "op_PublicID o1 = [] \<and> op_Kind o1 = ''create'' \<and> d' = d1"
    then show ?thesis using first_row_Some [OF st(1)] st by auto
  next
    assume "\<exists>row d2. FindByID F False (op_PublicID o1) d1 = (Inr row, d2) \<and> d' = d2 \<and>
        (case row of None \<Rightarrow> op_Kind o1 = ''create'' | Some r \<Rightarrow> \<not> ownershipMismatch r o1)"
    then obtain row where f: "FindByID F False (op_PublicID o1) d1 = (Inr row, d')"
      and c: "case row of None \<Rightarrow> op_Kind o1 = ''create'' | Some r \<Rightarrow> \<not> ownershipMismatch r o1"
      by blast
    have t: "tables d' = tables d" and r: "row = first_row sb_ID (\<lambda>s. sb_ID s = op_PublicID o1) (sandboxes d)"
      using ok_FindByID_public [OF f] st(5) by (auto simp: tables_eq_iff)
    have "op_Kind o1 \<noteq> ''create'' \<longrightarrow> (\<exists>row \<in> set (sandboxes d). sb_ID row = op_PublicID o1 \<and>
        \<not> ownershipMismatch row o1)"
    proof (cases row)
      case None
      then show ?thesis using c by simp
    next
      case (Some y)
      then show ?thesis using c r first_row_Some [OF r [symmetric, unfolded Some]] by auto
    qed
    then show ?thesis using t first_row_Some [OF st(1)] st by auto
  qed
qed

lemma ok_transaction_tables:
  "transaction F m d = (Inr x, d') \<Longrightarrow>
     (\<And>d1 d2. tables d1 = tables d \<Longrightarrow> m d1 = (Inr x, d2) \<Longrightarrow> P (tables d2)) \<Longrightarrow> P (tables d')"
  by (metis transaction_ok tables_stmts)

text \<open>The three ways \<open>BeginOperation\<close> can succeed.\<close>

definition freshIntent :: "string \<Rightarrow> string \<Rightarrow> sandbox_row \<Rightarrow> string \<Rightarrow> string \<Rightarrow> int option \<Rightarrow> operation"
where
  "freshIntent rnd runtime row native kind dl =
     \<lparr>op_ID = runtime @ '':'' @ rnd, op_RuntimeKind = runtime, op_PublicID = sb_ID row,
      op_NativeID = native, op_NativeName = [], op_Token = sb_AttemptToken row,
      op_Kind = kind, op_Deadline = dl\<rparr>"

definition asDelete :: "string \<Rightarrow> sandbox_row \<Rightarrow> operation \<Rightarrow> operation" where
  "asDelete native row p = p\<lparr>op_Kind := ''delete'', op_NativeID := native, op_PublicID := sb_ID row\<rparr>"

definition begun :: "string \<Rightarrow> string \<Rightarrow> string \<Rightarrow> string \<Rightarrow> int option \<Rightarrow> sandbox_row \<Rightarrow>
    operation list \<Rightarrow> operation \<Rightarrow> operation list \<Rightarrow> bool" where
  "begun rnd runtime native kind dl row ops o1 ops' \<longleftrightarrow>
     (case first_row op_ID (pendingFor runtime native (Some row)) ops of
        None \<Rightarrow> o1 = freshIntent rnd runtime row native kind dl \<and> op_ID o1 \<notin> op_ID ` set ops \<and>
                ops' = ops @ [o1]
      | Some p \<Rightarrow>
          (op_Kind p = kind \<and> (kind = ''delete'' \<or> kind = ''stop'') \<and> o1 = p \<and> ops' = ops) \<or>
          (kind = ''delete'' \<and> op_Kind p = ''create'' \<and> op_Token p = sb_AttemptToken row \<and>
           o1 = asDelete native row p \<and>
           ops' = update_rows (\<lambda>r. op_ID r = op_ID p) (asDelete native row) ops))"

lemma ok_BeginOperation:
  assumes "BeginOperation F rnd runtime native kind dl d = (Inr o1, d')"
  shows "\<exists>row. first_row sb_ID (hasNativeID native) (sandboxes d) = Some row \<and>
     (sb_RuntimeKind row = [] \<or> sb_RuntimeKind row = runtime) \<and>
     begun rnd runtime native kind dl row (operations d) o1 (operations d') \<and>
     sandboxes d' = sandboxes d \<and> commands d' = commands d"
proof -
  obtain d2 where b: "(andThen (FindByNativeID F native) (\<lambda>owner.
     case owner of None \<Rightarrow> throw ErrNotFound
     | Some row \<Rightarrow>
       if sb_RuntimeKind row \<noteq> [] \<and> sb_RuntimeKind row \<noteq> runtime
       then throw (Msg ''sandbox runtime mismatch'')
       else andThen (Pending F runtime native) (\<lambda>pending.
         case pending of
           Some p \<Rightarrow>
             andThen (ValidateOperation F p) (\<lambda>_.
               if kind = ''delete'' \<and> op_Kind p = ''create'' then
                 if sb_AttemptToken row \<noteq> op_Token p then throw (Msg ''creation ownership mismatch'')
                 else
                   let o1 = p\<lparr>op_Kind := ''delete'', op_NativeID := native, op_PublicID := sb_ID row\<rparr>
                   in andThen (updateOps F (\<lambda>r. op_ID r = op_ID p)
                        (\<lambda>r. r\<lparr>op_Kind := ''delete'', op_NativeID := native,
                                op_PublicID := sb_ID row\<rparr>)) (\<lambda>_. ret o1)
               else if op_Kind p = kind \<and> (kind = ''delete'' \<or> kind = ''stop'') then ret p
               else throw (Msg ''pending; run startup recovery before another mutation''))
         | None \<Rightarrow>
             let o1 = \<lparr>op_ID = runtime @ '':'' @ rnd, op_RuntimeKind = runtime,
                       op_PublicID = sb_ID row, op_NativeID = native, op_NativeName = [],
                       op_Token = sb_AttemptToken row, op_Kind = kind, op_Deadline = dl\<rparr>
             in andThen (insertOperation F o1) (\<lambda>_. ret o1)))) (bump d) = (Inr o1, d2)"
    and t: "tables d' = tables d2"
    using assms unfolding BeginOperation_def by (rule transaction_okE)
  obtain row where row: "first_row sb_ID (hasNativeID native) (sandboxes d) = Some row"
    and kind: "sb_RuntimeKind row = [] \<or> sb_RuntimeKind row = runtime"
    using b by (auto simp: ok_simps split: option.splits if_splits)
  have nk: "(sb_RuntimeKind row \<noteq> [] \<and> sb_RuntimeKind row \<noteq> runtime) = False"
    using kind by auto
  obtain pending d1 where p: "Pending F runtime native (bump (bump d)) = (Inr pending, d1)"
    and m: "(case pending of
           Some p \<Rightarrow>
             andThen (ValidateOperation F p) (\<lambda>_.
               if kind = ''delete'' \<and> op_Kind p = ''create'' then
                 if sb_AttemptToken row \<noteq> op_Token p then throw (Msg ''creation ownership mismatch'')
                 else
                   let o1 = p\<lparr>op_Kind := ''delete'', op_NativeID := native, op_PublicID := sb_ID row\<rparr>
                   in andThen (updateOps F (\<lambda>r. op_ID r = op_ID p)
                        (\<lambda>r. r\<lparr>op_Kind := ''delete'', op_NativeID := native,
                                op_PublicID := sb_ID row\<rparr>)) (\<lambda>_. ret o1)
               else if op_Kind p = kind \<and> (kind = ''delete'' \<or> kind = ''stop'') then ret p
               else throw (Msg ''pending; run startup recovery before another mutation''))
         | None \<Rightarrow>
             let o1 = \<lparr>op_ID = runtime @ '':'' @ rnd, op_RuntimeKind = runtime,
                       op_PublicID = sb_ID row, op_NativeID = native, op_NativeName = [],
                       op_Token = sb_AttemptToken row, op_Kind = kind, op_Deadline = dl\<rparr>
             in andThen (insertOperation F o1) (\<lambda>_. ret o1)) d1 = (Inr o1, d2)"
    using b row nk by (simp add: ok_andThen ok_FindByNativeID del: de_Morgan_conj append.simps)
      blast
  have c: "case pending of None \<Rightarrow> o1 = freshIntent rnd runtime row native kind dl \<and>
           insertOperation F o1 d1 = (Inr (), d2)
       | Some p \<Rightarrow> \<exists>d3. ValidateOperation F p d1 = (Inr (), d3) \<and>
          ((kind = ''delete'' \<and> op_Kind p = ''create'' \<and> op_Token p = sb_AttemptToken row \<and>
             o1 = asDelete native row p \<and>
             updateOps F (\<lambda>r. op_ID r = op_ID p) (asDelete native row) d3 = (Inr (), d2)) \<or>
           (op_Kind p = kind \<and> (kind = ''delete'' \<or> kind = ''stop'') \<and> o1 = p \<and> d3 = d2))"
    using m by (cases pending)
      (auto simp: ok_simps Let_def freshIntent_def asDelete_def [abs_def] split: if_splits)
  have p': "tables d1 = tables d"
    "pending = first_row op_ID (pendingFor runtime native (Some row)) (operations d)"
    using ok_Pending [OF p] row by (auto simp: tables_eq_iff)
  show ?thesis
  proof (cases pending)
    case None
    then show ?thesis using c p' t row kind
      by (auto simp: begun_def insertOperation_def ok_simps tables_eq_iff)
  next
    case (Some q)
    then obtain d3 where "ValidateOperation F q d1 = (Inr (), d3)"
      and c3: "(kind = ''delete'' \<and> op_Kind q = ''create'' \<and> op_Token q = sb_AttemptToken row \<and>
             o1 = asDelete native row q \<and>
             updateOps F (\<lambda>r. op_ID r = op_ID q) (asDelete native row) d3 = (Inr (), d2)) \<or>
           (op_Kind q = kind \<and> (kind = ''delete'' \<or> kind = ''stop'') \<and> o1 = q \<and> d3 = d2)"
      using c by auto
    then have "tables d3 = tables d1" using ok_ValidateOperation by blast
    then show ?thesis using c3 Some p' t row kind
      by (auto simp: begun_def updateOps_def ok_simps tables_eq_iff)
  qed
qed

end
