(* ===== verification/Intent_Specs.thy ===== *)
theory Intent_Specs
  imports Intent_Props
begin

text \<open>
  The contracts of the intent operations: at most one intent per owner, what a completed or
  deleted operation leaves behind, and the interlock between pending work and every other
  mutation of an owner.
\<close>

section \<open>Owners and the intents that cover them\<close>

definition covers :: "string \<Rightarrow> sandbox_row \<Rightarrow> operation \<Rightarrow> bool" where
  "covers runtime row o1 \<longleftrightarrow> pendingFor runtime (RuntimeID row) (Some row) o1"

text \<open>Owners are told apart by their public ID, their native ID and their attempt token.\<close>

definition owners_wf :: "sandbox_row list \<Rightarrow> bool" where
  "owners_wf rows \<longleftrightarrow> distinct (map sb_ID rows) \<and> distinct (map RuntimeID rows) \<and>
     distinct (filter (\<lambda>t. t \<noteq> []) (map sb_AttemptToken rows))"

definition one_intent :: "db \<Rightarrow> bool" where
  "one_intent d \<longleftrightarrow> (\<forall>runtime. \<forall>row \<in> set (sandboxes d). \<forall>o1 \<in> set (operations d).
     \<forall>o2 \<in> set (operations d). covers runtime row o1 \<longrightarrow> covers runtime row o2 \<longrightarrow>
       op_ID o1 = op_ID o2)"

lemma distinct_filter_map_inj:
  "distinct (filter P (map f xs)) \<Longrightarrow> x \<in> set xs \<Longrightarrow> y \<in> set xs \<Longrightarrow> f x = f y \<Longrightarrow> P (f x) \<Longrightarrow>
     distinct (map g xs) \<Longrightarrow> x = y"
proof (induction xs)
  case (Cons a xs)
  have "f a \<notin> f ` set xs" if "P (f a)"
    using Cons.prems(1) that by auto
  then show ?case
    using Cons by (auto split: if_splits intro: rev_image_eqI)
qed simp

lemma owners_same_token:
  assumes "owners_wf rows" "x \<in> set rows" "y \<in> set rows" "sb_AttemptToken x \<noteq> []"
    "sb_AttemptToken x = sb_AttemptToken y"
  shows "x = y"
  using assms by (auto simp: owners_wf_def intro: distinct_filter_map_inj)

lemma owners_same_ID:
  "owners_wf rows \<Longrightarrow> x \<in> set rows \<Longrightarrow> y \<in> set rows \<Longrightarrow> sb_ID x = sb_ID y \<Longrightarrow> x = y"
  by (auto simp: owners_wf_def distinct_map inj_on_def)

lemma owners_same_native:
  "owners_wf rows \<Longrightarrow> x \<in> set rows \<Longrightarrow> y \<in> set rows \<Longrightarrow> RuntimeID x = RuntimeID y \<Longrightarrow> x = y"
  by (auto simp: owners_wf_def distinct_map inj_on_def)

lemma hasNativeID_RuntimeID: "hasNativeID i s \<Longrightarrow> i \<noteq> [] \<Longrightarrow> RuntimeID s = i"
  by (auto simp: hasNativeID_def RuntimeID_def nstr_def split: option.splits)

lemma covers_only_its_owner:
  assumes wf: "owners_wf rows" "row \<in> set rows" "row' \<in> set rows" and native: "RuntimeID row = native"
    and o1: "op_PublicID o1 = sb_ID row" "op_NativeID o1 = native" "op_Token o1 = sb_AttemptToken row"
    and c: "covers runtime row' o1"
  shows "row' = row"
proof -
  have "RuntimeID row' = RuntimeID row \<or> sb_ID row' = sb_ID row \<or>
      (sb_AttemptToken row \<noteq> [] \<and> sb_AttemptToken row = sb_AttemptToken row')"
    using c o1 native by (simp add: covers_def pendingFor_def) metis
  then show ?thesis
    using owners_same_token [OF wf(1,2,3)] owners_same_ID [OF wf(1,3,2)]
      owners_same_native [OF wf(1,3,2)] by blast
qed

lemma covers_runtime: "covers rt row o1 \<Longrightarrow> rt = op_RuntimeKind o1"
  by (simp add: covers_def pendingFor_def)

lemma one_intentD:
  "one_intent d \<Longrightarrow> row \<in> set (sandboxes d) \<Longrightarrow> o1 \<in> set (operations d) \<Longrightarrow>
     o2 \<in> set (operations d) \<Longrightarrow> covers rt row o1 \<Longrightarrow> covers rt row o2 \<Longrightarrow> op_ID o1 = op_ID o2"
  unfolding one_intent_def by blast

lemma begun_keeps_one_intent:
  assumes wf: "owners_wf (sandboxes d)" and one: "one_intent d" and native: "native \<noteq> []"
    and keys: "distinct (map op_ID (operations d))"
    and row: "row \<in> set (sandboxes d)" "hasNativeID native row"
    and b: "begun rnd runtime native kind dl row (operations d) o1 ops'"
    and d': "sandboxes d' = sandboxes d" "operations d' = ops'"
  shows "one_intent d'"
proof -
  have R: "RuntimeID row = native" using row native by (simp add: hasNativeID_RuntimeID)
  have cov: "pendingFor runtime native (Some row) = covers runtime row"
    by (simp add: covers_def R fun_eq_iff)
  consider (same) "ops' = operations d"
    | (fresh) "o1 = freshIntent rnd runtime row native kind dl" "ops' = operations d @ [o1]"
        "\<forall>x \<in> set (operations d). \<not> covers runtime row x"
    | (upd) p where "p \<in> set (operations d)" "covers runtime row p" "op_Token p = sb_AttemptToken row"
        "ops' = update_rows (\<lambda>r. op_ID r = op_ID p) (asDelete native row) (operations d)"
  proof (cases "first_row op_ID (covers runtime row) (operations d)")
    case None
    then have "\<forall>x \<in> set (operations d). \<not> covers runtime row x" by (simp add: first_row_None)
    then show thesis using fresh b None unfolding begun_def cov by simp
  next
    case (Some p)
    have p: "p \<in> set (operations d)" "covers runtime row p" using first_row_Some [OF Some] by auto
    have "ops' = operations d \<or> (op_Token p = sb_AttemptToken row \<and>
        ops' = update_rows (\<lambda>r. op_ID r = op_ID p) (asDelete native row) (operations d))"
      using b Some unfolding begun_def cov by (simp only: option.case) blast
    then show thesis
      by (rule disjE) (rule same, assumption, rule upd [OF p], auto)
  qed
  then show ?thesis
  proof cases
    case same
    show ?thesis unfolding one_intent_def d' same by (rule one [unfolded one_intent_def])
  next
    case fresh
    have only: "row' = row \<and> rt = runtime" if "row' \<in> set (sandboxes d)" "covers rt row' o1" for row' rt
      using covers_only_its_owner [OF wf row(1) that(1) R _ _ _ that(2)] covers_runtime [OF that(2)]
        fresh(1) by (simp add: freshIntent_def)
    show ?thesis unfolding one_intent_def d' fresh(2)
    proof (intro allI ballI impI)
      fix rt row' x y
      assume m: "row' \<in> set (sandboxes d)" "x \<in> set (operations d @ [o1])" "y \<in> set (operations d @ [o1])"
        and c: "covers rt row' x" "covers rt row' y"
      show "op_ID x = op_ID y"
      proof (cases "x = o1 \<or> y = o1")
        case True
        then have "row' = row" "rt = runtime" using only m(1) c by auto
        then show ?thesis using fresh(3) m c by auto
      next
        case False
        then have "x \<in> set (operations d)" "y \<in> set (operations d)" using m by auto
        then show ?thesis by (rule one_intentD [OF one m(1) _ _ c])
      qed
    qed
  next
    case upd
    define q where "q = asDelete native row"
    have only: "row' = row" if "row' \<in> set (sandboxes d)" "covers rt row' (q x)"
        "op_ID x = op_ID p" "op_Token x = sb_AttemptToken row" for row' rt x
      using covers_only_its_owner [OF wf row(1) that(1) R _ _ _ that(2)] that(4)
      by (simp add: q_def asDelete_def)
    have rt: "op_RuntimeKind (q p) = runtime"
      using covers_runtime [OF upd(2)] by (simp add: q_def asDelete_def)
    have p_eq: "x = p" if "x \<in> set (operations d)" "op_ID x = op_ID p" for x
      using keys upd(1) that by (auto simp: distinct_map inj_on_def)
    have step: "op_ID x0 = op_ID y0"
      if "row' \<in> set (sandboxes d)" "x0 \<in> set (operations d)" "y0 \<in> set (operations d)"
        "covers rt row' (if op_ID x0 = op_ID p then q x0 else x0)" "op_ID y0 \<noteq> op_ID p"
        "covers rt row' y0" for rt row' x0 y0
    proof (cases "op_ID x0 = op_ID p")
      case True
      then have "x0 = p" using p_eq that by blast
      then have "row' = row" "rt = runtime"
        using only [OF that(1), of rt p] that(4) upd(3) covers_runtime [of rt row' "q p"] rt by auto
      then have "covers runtime row y0" using that(6) by simp
      then show ?thesis
        using one_intentD [OF one row(1) upd(1) that(3) upd(2)] True by simp
    next
      case False
      then show ?thesis using one_intentD [OF one that(1,2,3) _ that(6)] that(4) by simp
    qed
    show ?thesis unfolding one_intent_def d' upd(4)
    proof (intro allI ballI impI)
      fix rt row' x y
      assume m: "row' \<in> set (sandboxes d)"
        "x \<in> set (update_rows (\<lambda>r. op_ID r = op_ID p) (asDelete native row) (operations d))"
        "y \<in> set (update_rows (\<lambda>r. op_ID r = op_ID p) (asDelete native row) (operations d))"
        and c: "covers rt row' x" "covers rt row' y"
      obtain x0 where x0: "x0 \<in> set (operations d)" "x = (if op_ID x0 = op_ID p then q x0 else x0)"
        using m(2) by (auto simp: set_update_rows q_def)
      obtain y0 where y0: "y0 \<in> set (operations d)" "y = (if op_ID y0 = op_ID p then q y0 else y0)"
        using m(3) by (auto simp: set_update_rows q_def)
      have ids: "op_ID x = op_ID x0" "op_ID y = op_ID y0"
        using x0 y0 by (auto simp: q_def asDelete_def)
      show "op_ID x = op_ID y"
        using step [OF m(1) x0(1) y0(1), of rt] step [OF m(1) y0(1) x0(1), of rt] x0(2) y0(2) c ids
        by (cases "op_ID y0 = op_ID p"; cases "op_ID x0 = op_ID p") simp_all
    qed
  qed
qed

text \<open>
  C2: However statements fail, beginning an operation keeps at most one intent per owner: a
  second mutation either joins the pending intent (delete, stop, a creation turned into a
  deletion) or is refused.
\<close>

theorem begin_keeps_one_intent:
  assumes "owners_wf (sandboxes d)" and "keys_wf d" and "one_intent d" and "native \<noteq> []"
  shows "one_intent (snd (BeginOperation F rnd runtime native kind dl d))"
proof -
  obtain r d' where r: "BeginOperation F rnd runtime native kind dl d = (r, d')" by fastforce
  have "one_intent d'"
  proof (cases r)
    case (Inl e)
    then have "tables d' = tables d"
      using r by (auto simp: BeginOperation_def dest: transaction_atomic)
    then have "sandboxes d' = sandboxes d" "operations d' = operations d"
      by (simp_all add: tables_eq_iff)
    then show ?thesis using assms(3) unfolding one_intent_def by (metis (no_types))
  next
    case (Inr o1)
    then obtain row where row: "first_row sb_ID (hasNativeID native) (sandboxes d) = Some row"
      and b: "begun rnd runtime native kind dl row (operations d) o1 (operations d')"
      and s: "sandboxes d' = sandboxes d"
      using ok_BeginOperation r by blast
    show ?thesis
      using begun_keeps_one_intent [OF assms(1,3,4) _ _ _ b s refl] assms(2)
        first_row_Some [OF row] by (simp add: keys_wf_def)
  qed
  then show ?thesis using r by simp
qed

lemma sample_owners: "owners_wf (sandboxes sample_db)" "keys_wf sample_db" "one_intent sample_db"
  by (simp_all add: owners_wf_def keys_wf_def one_intent_def sample_db_def sample_row_def)

theorem begin_keeps_one_intent_witness:
  "one_intent (snd (BeginOperation (\<lambda>_. None) ''r'' ''docker'' ''c1'' ''stop'' None sample_db))"
  by (rule begin_keeps_one_intent) (simp_all add: sample_owners)

section \<open>Completion\<close>

definition completed :: "operation \<Rightarrow> JSONMap option \<Rightarrow> int option \<Rightarrow> sandbox_row \<Rightarrow> sandbox_row"
where
  "completed o1 ports deadline s =
     (case ports of None \<Rightarrow> s | Some ps \<Rightarrow> s\<lparr>sb_Ports := ps\<rparr>)
       \<lparr>sb_ExpiresAt := deadline, sb_RuntimeKind := op_RuntimeKind o1\<rparr>"

lemma update_one:
  "distinct (map k rows) \<Longrightarrow> length (filter (\<lambda>s. k s = i \<and> q s) rows) = 1 \<Longrightarrow>
     \<exists>row \<in> set rows. k row = i \<and> q row \<and>
       update_rows (\<lambda>s. k s = i \<and> q s) f rows = update_rows (\<lambda>s. k s = i) f rows"
proof (induction rows)
  case (Cons a rows)
  have "update_rows (\<lambda>s. k s = i) f rows = rows \<and> update_rows (\<lambda>s. k s = i \<and> q s) f rows = rows \<and>
      filter (\<lambda>s. k s = i \<and> q s) rows = []" if "k a = i"
    using that Cons.prems(1) by (induction rows) (auto simp: update_rows_def)
  then show ?case using Cons by (cases "k a = i") (auto simp: update_rows_def split: if_splits)
qed simp

lemma ok_UpdatePorts_public:
  "UpdatePorts F False i ps d = (Inr x, d') \<Longrightarrow>
     tables d' = (update_rows (\<lambda>s. sb_ID s = i) (\<lambda>s. s\<lparr>sb_Ports := ps\<rparr>) (sandboxes d),
       operations d, commands d)"
  by (auto simp: UpdatePorts_def storedID_def ok_simps tables_def)

lemma ok_updateSandboxes:
  "updateSandboxes F p f d = (Inr n, d') \<Longrightarrow> n = length (filter p (sandboxes d)) \<and>
     tables d' = (update_rows p f (sandboxes d), operations d, commands d)"
  by (auto simp: updateSandboxes_def ok_simps tables_def)

lemma ok_ClearOperation:
  "ClearOperation F o1 d = (Inr x, d') \<Longrightarrow>
     tables d' = (sandboxes d, delete_rows (\<lambda>r. op_ID r = op_ID o1) (operations d), commands d)"
  by (auto simp: ClearOperation_def ok_simps tables_def)

lemma update_rows_update:
  "(\<And>r. k (g r) = k r) \<Longrightarrow> update_rows (\<lambda>s. k s = i) f (update_rows (\<lambda>s. k s = i) g rows) =
     update_rows (\<lambda>s. k s = i) (f \<circ> g) rows"
  by (induction rows) (auto simp: update_rows_def)

lemma ok_CompleteOperation_steps:
  assumes "CompleteOperation F o1 ports deadline d = (Inr x, d')"
  obtains d1 d2 d3 where "tables d1 = tables d" "ValidateOperation F o1 (bump d) = (Inr (), d1)"
    "sandboxes d2 = update_rows (\<lambda>s. sb_ID s = op_PublicID o1)
       (\<lambda>s. case ports of None \<Rightarrow> s | Some ps \<Rightarrow> s\<lparr>sb_Ports := ps\<rparr>) (sandboxes d)"
    "operations d2 = operations d" "commands d2 = commands d"
    "updateSandboxes F (\<lambda>s. sb_ID s = op_PublicID o1 \<and> hasNativeID (op_NativeID o1) s)
       (\<lambda>s. s\<lparr>sb_ExpiresAt := deadline, sb_RuntimeKind := op_RuntimeKind o1\<rparr>) d2 = (Inr 1, d3)"
    "tables d' = (sandboxes d3, delete_rows (\<lambda>r. op_ID r = op_ID o1) (operations d3), commands d3)"
proof -
  from assms obtain e where e: "tables d' = tables e" and body: "\<exists>d1 d2 d3.
      ValidateOperation F o1 (bump d) = (Inr (), d1) \<and>
      (case ports of None \<Rightarrow> ret () | Some ps \<Rightarrow> UpdatePorts F False (op_PublicID o1) ps) d1 = (Inr (), d2) \<and>
      updateSandboxes F (\<lambda>s. sb_ID s = op_PublicID o1 \<and> hasNativeID (op_NativeID o1) s)
       (\<lambda>s. s\<lparr>sb_ExpiresAt := deadline, sb_RuntimeKind := op_RuntimeKind o1\<rparr>) d2 = (Inr 1, d3) \<and>
      ClearOperation F o1 d3 = (Inr x, e)"
    unfolding CompleteOperation_def
    by (elim transaction_okE) (force simp: ok_andThen ok_failIf)
  then obtain d1 d2 d3 where s:
      "ValidateOperation F o1 (bump d) = (Inr (), d1)"
      "(case ports of None \<Rightarrow> ret () | Some ps \<Rightarrow> UpdatePorts F False (op_PublicID o1) ps) d1 = (Inr (), d2)"
      "updateSandboxes F (\<lambda>s. sb_ID s = op_PublicID o1 \<and> hasNativeID (op_NativeID o1) s)
       (\<lambda>s. s\<lparr>sb_ExpiresAt := deadline, sb_RuntimeKind := op_RuntimeKind o1\<rparr>) d2 = (Inr 1, d3)"
      "ClearOperation F o1 d3 = (Inr x, e)" by blast
  have 1: "tables d1 = tables d" using ok_ValidateOperation [OF s(1)] by simp
  have 2: "sandboxes d2 = update_rows (\<lambda>s. sb_ID s = op_PublicID o1)
       (\<lambda>s. case ports of None \<Rightarrow> s | Some ps \<Rightarrow> s\<lparr>sb_Ports := ps\<rparr>) (sandboxes d) \<and>
     operations d2 = operations d \<and> commands d2 = commands d"
    using 1 s(2) by (cases ports)
      (auto simp: ok_simps update_rows_def tables_def dest!: ok_UpdatePorts_public)
  show thesis by (rule that [OF 1 s(1) _ _ _ s(3)]) (use 2 ok_ClearOperation [OF s(4)] e in auto)
qed

text \<open>
  C4: When \<open>CompleteOperation\<close> returns without an error, the intent it was given was stored
  and named the owner with the same native ID and token; the owner has the observed ports, the
  deadline and the runtime; no other row has changed; and the intent, and only it, is gone.
\<close>

theorem complete_operation_result:
  assumes ok: "CompleteOperation F o1 ports deadline d = (Inr x, d')" and wf: "keys_wf d"
  shows "\<exists>row \<in> set (sandboxes d). sb_ID row = op_PublicID o1 \<and> hasNativeID (op_NativeID o1) row \<and>
      (op_Kind o1 \<noteq> ''create'' \<longrightarrow> sb_AttemptToken row = op_Token o1) \<and>
      op_ID o1 \<in> op_ID ` set (operations d) \<and>
      sandboxes d' = update_rows (\<lambda>s. sb_ID s = op_PublicID o1) (completed o1 ports deadline) (sandboxes d) \<and>
      operations d' = delete_rows (\<lambda>r. op_ID r = op_ID o1) (operations d) \<and>
      commands d' = commands d"
proof -
  obtain d1 d2 d3 where s: "tables d1 = tables d" "ValidateOperation F o1 (bump d) = (Inr (), d1)"
    "sandboxes d2 = update_rows (\<lambda>s. sb_ID s = op_PublicID o1)
       (\<lambda>s. case ports of None \<Rightarrow> s | Some ps \<Rightarrow> s\<lparr>sb_Ports := ps\<rparr>) (sandboxes d)"
    "operations d2 = operations d" "commands d2 = commands d"
    "updateSandboxes F (\<lambda>s. sb_ID s = op_PublicID o1 \<and> hasNativeID (op_NativeID o1) s)
       (\<lambda>s. s\<lparr>sb_ExpiresAt := deadline, sb_RuntimeKind := op_RuntimeKind o1\<rparr>) d2 = (Inr 1, d3)"
    "tables d' = (sandboxes d3, delete_rows (\<lambda>r. op_ID r = op_ID o1) (operations d3), commands d3)"
    using ok_CompleteOperation_steps [OF ok] .
  have ids: "map sb_ID (sandboxes d2) = map sb_ID (sandboxes d)"
    using s(3) by (simp split: option.split)
  have n: "length (filter (\<lambda>s. sb_ID s = op_PublicID o1 \<and> hasNativeID (op_NativeID o1) s) (sandboxes d2)) = 1"
    and d3: "tables d3 = (update_rows (\<lambda>s. sb_ID s = op_PublicID o1 \<and> hasNativeID (op_NativeID o1) s)
       (\<lambda>s. s\<lparr>sb_ExpiresAt := deadline, sb_RuntimeKind := op_RuntimeKind o1\<rparr>) (sandboxes d2),
       operations d2, commands d2)"
    using ok_updateSandboxes [OF s(6)] by auto
  obtain r2 where r2: "r2 \<in> set (sandboxes d2)" "sb_ID r2 = op_PublicID o1" "hasNativeID (op_NativeID o1) r2"
    and upd: "sandboxes d3 = update_rows (\<lambda>s. sb_ID s = op_PublicID o1)
       (\<lambda>s. s\<lparr>sb_ExpiresAt := deadline, sb_RuntimeKind := op_RuntimeKind o1\<rparr>) (sandboxes d2)"
    using update_one [OF _ n] ids wf d3 by (auto simp: keys_wf_def tables_def)
  obtain row where row: "row \<in> set (sandboxes d)" "sb_ID row = op_PublicID o1"
    "hasNativeID (op_NativeID o1) row"
    using r2 s(3) by (auto simp: set_update_rows hasNativeID_def split: option.splits)
  have val: "op_ID o1 \<in> op_ID ` set (operations d) \<and>
      (op_Kind o1 \<noteq> ''create'' \<longrightarrow> (\<exists>r \<in> set (sandboxes d). sb_ID r = op_PublicID o1 \<and> \<not> ownershipMismatch r o1))"
    using ok_ValidateOperation [OF s(2)] by (auto intro: rev_image_eqI)
  have tok: "sb_AttemptToken row = op_Token o1" if kind: "op_Kind o1 \<noteq> ''create''"
  proof -
    obtain r where "r \<in> set (sandboxes d)" "sb_ID r = op_PublicID o1" "\<not> ownershipMismatch r o1"
      using val kind by blast
    moreover have "r = row"
      using wf row(1,2) calculation(1,2) by (auto simp: keys_wf_def distinct_map inj_on_def)
    ultimately show ?thesis by (simp add: ownershipMismatch_def)
  qed
  have "sandboxes d3 = update_rows (\<lambda>s. sb_ID s = op_PublicID o1) (completed o1 ports deadline) (sandboxes d)"
    unfolding upd s(3) by (subst update_rows_update)
      (auto simp: completed_def [abs_def] comp_def split: option.splits)
  then show ?thesis using row val tok s(4,5,7) d3 by (auto simp: tables_def)
qed

definition sample_stop :: operation where
  "sample_stop = freshIntent ''r'' ''docker'' sample_row ''c1'' ''stop'' None"

lemma sample_complete:
  "fst (CompleteOperation (\<lambda>_. None) sample_stop None None
     (sample_db\<lparr>operations := [sample_stop]\<rparr>)) = Inr ()"
  by (simp add: CompleteOperation_def transaction_def stmt_def ValidateOperation_def query_def
      exec_def FindByID_def updateSandboxes_def ClearOperation_def ownershipMismatch_def
      first_row_def sample_stop_def freshIntent_def sample_db_def sample_row_def prog_defs
      hasNativeID_def RuntimeID_def nstr_def)

theorem complete_operation_result_witness:
  "\<exists>d'. operations d' = [] \<and> commands d' = [] \<and>
     CompleteOperation (\<lambda>_. None) sample_stop None None (sample_db\<lparr>operations := [sample_stop]\<rparr>) =
       (Inr (), d')"
proof -
  let ?d = "sample_db\<lparr>operations := [sample_stop]\<rparr>"
  obtain d' where ok: "CompleteOperation (\<lambda>_. None) sample_stop None None ?d = (Inr (), d')"
    using sample_complete by (metis fst_conv surj_pair)
  have "keys_wf ?d" by (simp add: keys_wf_def sample_db_def)
  then show ?thesis
    using complete_operation_result [OF ok] ok
    by (auto simp: delete_rows_def sample_db_def)
qed

section \<open>Deletion\<close>

lemma ok_DeleteSandbox:
  "DeleteSandbox F False i d = (Inr x, d') \<Longrightarrow>
     tables d' = (delete_rows (\<lambda>s. sb_ID s = i) (sandboxes d), operations d,
       delete_rows (\<lambda>c. cmd_SandboxID c = i) (commands d))"
  unfolding DeleteSandbox_def
  by (elim transaction_okE)
    (auto simp: DeleteCommandsBySandbox_def DeleteRow_def storedID_def ok_simps tables_def)

text \<open>
  When \<open>DeleteOperation\<close> returns without an error, its intent is gone; an owner of its
  public ID had the native ID and the token of the intent, and is gone together with all its
  commands; without such an owner (an uncommitted creation) no row and no command is touched.
\<close>

theorem delete_operation_result:
  assumes ok: "DeleteOperation F o1 d = (Inr x, d')"
  shows "operations d' = delete_rows (\<lambda>r. op_ID r = op_ID o1) (operations d) \<and>
     (if op_PublicID o1 \<noteq> [] \<and> (\<exists>s \<in> set (sandboxes d). sb_ID s = op_PublicID o1) then
        (\<exists>s \<in> set (sandboxes d). sb_ID s = op_PublicID o1 \<and> RuntimeID s = op_NativeID o1 \<and>
           sb_AttemptToken s = op_Token o1) \<and>
        sandboxes d' = delete_rows (\<lambda>s. sb_ID s = op_PublicID o1) (sandboxes d) \<and>
        commands d' = delete_rows (\<lambda>c. cmd_SandboxID c = op_PublicID o1) (commands d)
      else sandboxes d' = sandboxes d \<and> commands d' = commands d)"
proof -
  obtain d1 d2 where t: "tables d' = tables d2" and c: "ClearOperation F o1 d1 = (Inr x, d2)"
    and body: "(if op_PublicID o1 \<noteq> [] then
          andThen (FindByID F False (op_PublicID o1)) (\<lambda>row.
            case row of None \<Rightarrow> ret ()
            | Some r \<Rightarrow>
                if RuntimeID r \<noteq> op_NativeID o1 \<or>
                   (sb_RuntimeKind r \<noteq> [] \<and> sb_RuntimeKind r \<noteq> op_RuntimeKind o1) \<or>
                   sb_AttemptToken r \<noteq> op_Token o1
                then throw (Msg ''operation ownership changed'')
                else DeleteSandbox F False (sb_ID r))
        else ret ()) (bump d) = (Inr (), d1)"
    using ok unfolding DeleteOperation_def by (elim transaction_okE) (simp add: ok_andThen; blast)
  show ?thesis
  proof (cases "op_PublicID o1 = []")
    case True
    then show ?thesis using body ok_ClearOperation [OF c] t by (simp add: ok_simps tables_def)
  next
    case False
    then obtain row d3 where f: "FindByID F False (op_PublicID o1) (bump d) = (Inr row, d3)"
      and body': "(case row of None \<Rightarrow> ret ()
            | Some r \<Rightarrow>
                if RuntimeID r \<noteq> op_NativeID o1 \<or>
                   (sb_RuntimeKind r \<noteq> [] \<and> sb_RuntimeKind r \<noteq> op_RuntimeKind o1) \<or>
                   sb_AttemptToken r \<noteq> op_Token o1
                then throw (Msg ''operation ownership changed'')
                else DeleteSandbox F False (sb_ID r)) d3 = (Inr (), d1)"
      using body False by (simp only: ok_andThen if_True simp_thms) blast
    have rest: "case row of None \<Rightarrow> d1 = d3
        | Some r \<Rightarrow> RuntimeID r = op_NativeID o1 \<and> sb_AttemptToken r = op_Token o1 \<and>
            DeleteSandbox F False (sb_ID r) d3 = (Inr (), d1)"
      using body' by (cases row) (auto simp: ok_simps split: if_splits)
    have d3: "tables d3 = tables d" and row: "first_row sb_ID (\<lambda>s. sb_ID s = op_PublicID o1) (sandboxes d) = row"
      using ok_FindByID_public [OF f] by auto
    show ?thesis
    proof (cases row)
      case None
      then show ?thesis using row rest d3 ok_ClearOperation [OF c] t
        by (auto simp: first_row_None tables_def)
    next
      case (Some r)
      have r: "r \<in> set (sandboxes d)" "sb_ID r = op_PublicID o1"
        using first_row_Some [OF row [unfolded Some]] by auto
      then show ?thesis using Some rest d3 ok_ClearOperation [OF c] t False
        by (auto simp: tables_def dest!: ok_DeleteSandbox)
    qed
  qed
qed

theorem delete_operation_result_witness:
  "\<exists>d'. DeleteOperation (\<lambda>_. None) sample_stop
     (sample_db\<lparr>operations := [sample_stop]\<rparr>) = (Inr (), d') \<and> sandboxes d' = []"
proof -
  let ?d = "sample_db\<lparr>operations := [sample_stop]\<rparr>"
  have "fst (DeleteOperation (\<lambda>_. None) sample_stop ?d) = Inr ()"
    by (simp add: DeleteOperation_def transaction_def stmt_def query_def exec_def FindByID_def
        ClearOperation_def first_row_def sample_stop_def freshIntent_def sample_db_def
        sample_row_def prog_defs RuntimeID_def nstr_def DeleteSandbox_def DeleteRow_def
        DeleteCommandsBySandbox_def storedID_def)
  then obtain d' where ok: "DeleteOperation (\<lambda>_. None) sample_stop ?d = (Inr (), d')"
    by (metis fst_conv surj_pair)
  show ?thesis
    using delete_operation_result [OF ok] ok
    by (auto simp: delete_rows_def sample_db_def sample_stop_def freshIntent_def sample_row_def)
qed

section \<open>The interlock\<close>

lemma ok_SetDeadline:
  assumes "SetDeadline F i runtime dl d = (Inr x, d')"
  shows "\<exists>row. first_row sb_ID (hasNativeID i) (sandboxes d) = Some row \<and>
     (\<forall>o1 \<in> set (operations d). \<not> pendingFor runtime i (Some row) o1) \<and>
     operations d' = operations d \<and> commands d' = commands d \<and>
     sandboxes d' = update_rows (\<lambda>s. sb_ID s = sb_ID row)
       (\<lambda>s. s\<lparr>sb_ExpiresAt := dl, sb_RuntimeKind := runtime\<rparr>) (sandboxes d)"
proof -
  obtain row d1 d2 n where row: "first_row sb_ID (hasNativeID i) (sandboxes d) = Some row"
    and p: "Pending F runtime i (bump (bump d)) = (Inr None, d1)"
    and u: "updateSandboxes F (\<lambda>s. sb_ID s = sb_ID row)
       (\<lambda>s. s\<lparr>sb_ExpiresAt := dl, sb_RuntimeKind := runtime\<rparr>) d1 = (Inr n, d2)"
    and t: "tables d' = tables d2"
    using assms unfolding SetDeadline_def
    by (elim transaction_okE) (auto simp: ok_simps split: option.splits if_splits)
  have "tables d1 = tables d"
    "first_row op_ID (pendingFor runtime i (Some row)) (operations d) = None"
    using ok_Pending [OF p] row by (auto simp: tables_eq_iff)
  then show ?thesis using row ok_updateSandboxes [OF u] t
    by (auto simp: tables_def first_row_None)
qed

lemma ok_RequireIdle:
  assumes "RequireIdle F runtime i d = (Inr x, d')"
  shows "\<exists>row. first_row sb_ID (hasNativeID i) (sandboxes d) = Some row \<and>
     (\<forall>o1 \<in> set (operations d). \<not> pendingFor runtime i (Some row) o1) \<and> tables d' = tables d"
proof -
  obtain row where row: "first_row sb_ID (hasNativeID i) (sandboxes d) = Some row"
    and p: "Pending F runtime i (bump d) = (Inr None, d')"
    using assms unfolding RequireIdle_def by (auto simp: ok_simps split: option.splits if_splits)
  have "tables d' = tables d"
    "first_row op_ID (pendingFor runtime i (Some row)) (operations d) = None"
    using ok_Pending [OF p] row by (auto simp: tables_eq_iff)
  then show ?thesis using row by (auto simp: first_row_None)
qed



section \<open>Provenance\<close>

text \<open>What a provenance update must not touch.\<close>

definition ownership :: "sandbox_row \<Rightarrow>
    string \<times> string option \<times> string \<times> string \<times> int option \<times> string \<times> JSONMap \<times> string" where
  "ownership s = (sb_ID s, sb_NativeID s, sb_RuntimeKind s, sb_AttemptToken s, sb_ExpiresAt s,
     sb_Name s, sb_Ports s, sb_Port s)"

lemma ok_UpdateProvenance:
  assumes "UpdateProvenance F row adopt d = (Inr x, d')"
  shows "length (filter (\<lambda>s. sb_ID s = sb_ID row \<and> sb_NativeID s = Some (nstr (sb_NativeID row)))
       (sandboxes d)) = 1 \<and>
     sandboxes d' = update_rows
       (\<lambda>s. sb_ID s = sb_ID row \<and> sb_NativeID s = Some (nstr (sb_NativeID row)))
       (\<lambda>s. s\<lparr>sb_Image := sb_Image row, sb_ImageRoot := sb_ImageRoot row,
               sb_ImageManifest := sb_ImageManifest row, sb_NativeImage := sb_NativeImage row,
               sb_CacheVersion := sb_CacheVersion row,
               sb_RecoveryError := sb_RecoveryError row\<rparr>) (sandboxes d) \<and>
     commands d' = commands d \<and>
     (if adopt then operations d' = delete_rows (\<lambda>o1. op_PublicID o1 = sb_ID row \<and>
           op_NativeID o1 = nstr (sb_NativeID row) \<and> op_Kind o1 = ''create'') (operations d) \<and>
         (\<forall>o1 \<in> set (operations d). op_PublicID o1 = sb_ID row \<longrightarrow> op_Kind o1 = ''create'')
      else operations d' = operations d)"
  using assms unfolding UpdateProvenance_def
  by (elim transaction_okE)
    (auto simp: ok_andThen ok_query ok_failIf ok_exec ok_ret tables_def filter_empty_conv
      split: if_splits dest!: ok_updateSandboxes)

text \<open>
  C6: \<open>UpdateProvenance\<close> never creates or revives an owner and never writes a stale deadline,
  port map, name or identity: whatever it returns, every row keeps its ownership data, and the
  only intents it can remove are creations of the row it adopts, when nothing else is pending
  for that row.
\<close>

theorem provenance_never_revives:
  "map ownership (sandboxes (snd (UpdateProvenance F row adopt d))) = map ownership (sandboxes d) \<and>
   commands (snd (UpdateProvenance F row adopt d)) = commands d \<and>
   (\<forall>o1 \<in> set (operations d). o1 \<notin> set (operations (snd (UpdateProvenance F row adopt d))) \<longrightarrow>
      adopt \<and> op_PublicID o1 = sb_ID row \<and> op_Kind o1 = ''create'' \<and>
      (\<forall>o2 \<in> set (operations d). op_PublicID o2 = sb_ID row \<longrightarrow> op_Kind o2 = ''create''))"
proof -
  obtain r d' where r: "UpdateProvenance F row adopt d = (r, d')" by fastforce
  show ?thesis
  proof (cases r)
    case (Inl e)
    then have "tables d' = tables d"
      using r by (auto simp: UpdateProvenance_def dest: transaction_atomic)
    then show ?thesis using r by (simp add: tables_eq_iff)
  next
    case (Inr x)
    have ok: "UpdateProvenance F row adopt d = (Inr x, d')" using r Inr by simp
    have "map ownership (sandboxes d') = map ownership (sandboxes d)"
      using ok_UpdateProvenance [OF ok] by (simp add: map_update_rows ownership_def)
    moreover have "commands d' = commands d" using ok_UpdateProvenance [OF ok] by simp
    moreover have "\<forall>o1 \<in> set (operations d). o1 \<notin> set (operations d') \<longrightarrow>
        adopt \<and> op_PublicID o1 = sb_ID row \<and> op_Kind o1 = ''create'' \<and>
        (\<forall>o2 \<in> set (operations d). op_PublicID o2 = sb_ID row \<longrightarrow> op_Kind o2 = ''create'')"
      using ok_UpdateProvenance [OF ok] by (cases adopt) simp_all
    ultimately show ?thesis using r by simp
  qed
qed

theorem provenance_never_revives_witness:
  "sample_stop \<in> set (operations (snd (UpdateProvenance (\<lambda>_. None) sample_row True
     (sample_db\<lparr>operations := [sample_stop]\<rparr>))))"
proof (rule ccontr)
  assume "sample_stop \<notin> set (operations (snd (UpdateProvenance (\<lambda>_. None) sample_row True
     (sample_db\<lparr>operations := [sample_stop]\<rparr>))))"
  then have "op_Kind sample_stop = ''create''"
    using provenance_never_revives [of "\<lambda>_. None" sample_row True
        "sample_db\<lparr>operations := [sample_stop]\<rparr>"] by simp
  then show False by (simp add: sample_stop_def freshIntent_def)
qed

end
