(* ===== verification/Docker_Audit.thy ===== *)
theory Docker_Audit
  imports Docker_Recovery Intent_Specs
begin

text \<open>
  The write-ahead discipline: every mutation of the engine is requested while a durable intent
  for exactly that resource is stored, and only after the resource has been identified by the
  intent's unpredictable label. What is proved holds for every engine, every pattern of
  database failures and every point at which the handlers can fail.
\<close>

section \<open>What a request must be backed by\<close>

text \<open>
  The resource \<open>i\<close> is known to be the one the attempt \<open>token\<close> made: the engine created it for
  that label, or showed that label on it, or said that it does not exist. Intents of legacy
  rows have no token and are bound by the stored native ID alone.
\<close>

definition identified :: "event list \<Rightarrow> string \<Rightarrow> string \<Rightarrow> bool" where
  "identified evs token i \<longleftrightarrow> token = [] \<or> (\<exists>e \<in> set evs. case ev_answer e of
     Failed x \<Rightarrow> ev_verb e = VInspect \<and> ev_target e = i \<and> IsNotFound x
   | Found c \<Rightarrow> ct_ID c = i \<and> labelled token c
   | Created j \<Rightarrow> ev_verb e = VCreate \<and> ev_label e = token \<and> j = i
   | Done \<Rightarrow> False)"

fun allows :: "verb \<Rightarrow> string \<Rightarrow> bool" where
  "allows VStart kind = (kind = ''create'' \<or> kind = ''start'')"
| "allows VStop kind = (kind = ''stop'')"
| "allows VRestart kind = (kind = ''restart'')"
| "allows VRemove kind = (kind = ''create'' \<or> kind = ''delete'')"
| "allows _ kind = False"

definition backs :: "event list \<Rightarrow> sandbox_row list \<Rightarrow> verb \<Rightarrow> string \<Rightarrow> operation \<Rightarrow> bool" where
  "backs evs rows v i o1 \<longleftrightarrow> op_RuntimeKind o1 = ''docker'' \<and> allows v (op_Kind o1) \<and>
     ((pendingFor ''docker'' i (first_row sb_ID (hasNativeID i) rows) o1 \<and>
       identified evs (op_Token o1) (op_NativeID o1)) \<or>
      (op_Kind o1 = ''create'' \<and> op_Token o1 \<noteq> [] \<and> identified evs (op_Token o1) i))"

definition event_ok :: "event list \<Rightarrow> event \<Rightarrow> bool" where
  "event_ok evs e \<longleftrightarrow> (case ev_verb e of
     VImage \<Rightarrow> True
   | VInspect \<Rightarrow> True
   | VCreate \<Rightarrow> (\<exists>o1 \<in> set (ev_ops e). op_RuntimeKind o1 = ''docker'' \<and> op_Kind o1 = ''create'' \<and>
       op_NativeName o1 = ev_target e \<and> op_Token o1 = ev_label e \<and> ev_label e \<noteq> [])
   | VPause \<Rightarrow> (\<exists>row. first_row sb_ID (hasNativeID (ev_target e)) (ev_rows e) = Some row \<and>
       (\<forall>o1 \<in> set (ev_ops e). \<not> pendingFor ''docker'' (ev_target e) (Some row) o1))
   | VUnpause \<Rightarrow> (\<exists>row. first_row sb_ID (hasNativeID (ev_target e)) (ev_rows e) = Some row \<and>
       (\<forall>o1 \<in> set (ev_ops e). \<not> pendingFor ''docker'' (ev_target e) (Some row) o1))
   | v \<Rightarrow> (\<exists>o1 \<in> set (ev_ops e). backs evs (ev_rows e) v (ev_target e) o1))"

definition log_ok :: "event list \<Rightarrow> bool" where
  "log_ok evs \<longleftrightarrow> (\<forall>k < length evs. event_ok (take k evs) (evs ! k))"

lemma log_ok_Nil [simp]: "log_ok []"
  by (simp add: log_ok_def)

lemma log_ok_snoc: "log_ok (evs @ [e]) \<longleftrightarrow> log_ok evs \<and> event_ok evs e"
  by (auto simp: log_ok_def nth_append less_Suc_eq)

lemma identified_mono: "identified evs t i \<Longrightarrow> identified (evs @ xs) t i"
  by (auto simp: identified_def)

definition audited :: "world \<Rightarrow> bool" where
  "audited w \<longleftrightarrow> log_ok (calls w) \<and> keys_wf (wdb w)"

section \<open>Rules for the steps\<close>

lemma triple_attempt:
  "triple P m Q E \<Longrightarrow>
     triple P (attempt m) (\<lambda>r s. case r of Inl e \<Rightarrow> E s | Inr x \<Rightarrow> Q x s) E'"
  by (fastforce simp: triple_def prog_defs split: prod.splits sum.splits)

lemma triple_onError:
  "triple P m Q R \<Longrightarrow> (\<And>e. triple R (h e) Q E) \<Longrightarrow> triple P (onError m h) Q E"
  by (fastforce simp: triple_def onError_def prog_defs split: prod.splits sum.splits)

lemma triple_of_keeps: "keeps I m \<Longrightarrow> (\<And>s. P s \<Longrightarrow> I s) \<Longrightarrow> triple P m (\<lambda>_. I) I"
  by (auto simp: keeps_triple intro: triple_conseq)

lemma keeps_repo:
  "(\<And>w d. I w \<Longrightarrow> D (wdb w)) \<Longrightarrow> (\<And>w d. I w \<Longrightarrow> D d \<Longrightarrow> I (w\<lparr>wdb := d\<rparr>)) \<Longrightarrow> keeps D m \<Longrightarrow>
     keeps I (repo m)"
  by (auto simp: keeps_def repo_def prog_defs split: prod.split) (metis snd_conv)

lemma audited_repo [keeps_rules]: "keeps keys_wf m \<Longrightarrow> keeps audited (repo m)"
  by (rule keeps_repo [where D = keys_wf]) (auto simp: audited_def)

lemma keeps_onError [keeps_rules]: "keeps I m \<Longrightarrow> (\<And>e. keeps I (h e)) \<Longrightarrow> keeps I (onError m h)"
  unfolding onError_def by (rule keeps_withDefer) (auto simp: keeps_def split: sum.split)

lemma keeps_deref [keeps_rules]: "keeps I (deref x)"
  unfolding deref_def by (intro keeps_rules)

text \<open>Steps that touch neither the database nor the record of requests.\<close>

definition quiet :: "'a act \<Rightarrow> bool" where
  "quiet m \<longleftrightarrow> (\<forall>w. wdb (snd (m w)) = wdb w \<and> calls (snd (m w)) = calls w)"

named_theorems quiet_rules

lemma quiet_basic [quiet_rules]:
  "quiet (ret x)" "quiet (throw e)" "quiet (reads f)" "quiet (failIf b e)" "quiet (now en)"
  "quiet (randText en)" "quiet (ctxErr cx)"
  by (auto simp: quiet_def prog_defs now_def randText_def ctxErr_def)

lemma quiet_modify [quiet_rules]:
  "(\<And>w. wdb (f w) = wdb w) \<Longrightarrow> (\<And>w. calls (f w) = calls w) \<Longrightarrow> quiet (modify f)"
  by (auto simp: quiet_def prog_defs)

lemma quiet_andThen [quiet_rules]: "quiet m \<Longrightarrow> (\<And>x. quiet (f x)) \<Longrightarrow> quiet (andThen m f)"
  unfolding quiet_def
proof (intro allI)
  fix w assume m: "\<forall>w. wdb (snd (m w)) = wdb w \<and> calls (snd (m w)) = calls w"
    and f: "\<And>x. \<forall>w. wdb (snd (f x w)) = wdb w \<and> calls (snd (f x w)) = calls w"
  obtain r w1 where r: "m w = (r, w1)" by fastforce
  then have "wdb w1 = wdb w" "calls w1 = calls w" using m [THEN spec, of w] by auto
  then show "wdb (snd (andThen m f w)) = wdb w \<and> calls (snd (andThen m f w)) = calls w"
    using f r by (cases r) (auto simp: prog_defs)
qed

lemma quiet_cases [quiet_rules]:
  "quiet m \<Longrightarrow> quiet n \<Longrightarrow> quiet (if b then m else n)"
  "quiet m \<Longrightarrow> (\<And>x. quiet (f x)) \<Longrightarrow> quiet (case y of None \<Rightarrow> m | Some x \<Rightarrow> f x)"
  by (auto split: option.split)

lemma quiet_timers [quiet_rules]:
  "quiet (cancelTimer i)" "quiet (scheduleDeadline i dl delay)" "quiet (scheduleUntil en i dl)"
  "quiet (Schedule key j)" "quiet (queueOperation o1)" "quiet (clearCommands i)"
  "quiet (lockLifecycle cx)"
  unfolding cancelTimer_def scheduleDeadline_def scheduleUntil_def Schedule_def queueOperation_def
    clearCommands_def lockLifecycle_def cancelTimerLocked_def Let_def
  by (intro quiet_rules; simp)+

lemma keeps_quiet:
  "quiet m \<Longrightarrow> (\<And>w w'. wdb w' = wdb w \<Longrightarrow> calls w' = calls w \<Longrightarrow> I w \<Longrightarrow> I w') \<Longrightarrow> keeps I m"
  unfolding keeps_def quiet_def by blast

lemma audited_quiet: "quiet m \<Longrightarrow> keeps audited m"
  by (rule keeps_quiet) (auto simp: audited_def)

lemmas audited_leaves [keeps_rules] =
  quiet_basic [THEN audited_quiet] quiet_timers [THEN audited_quiet]

lemma keeps_locked [keeps_rules]: "keeps audited m \<Longrightarrow> keeps audited (locked cx m)"
  unfolding locked_def by (intro keeps_rules)

lemma audited_inspect [keeps_rules]: "keeps audited (ContainerInspect en i)"
  by (auto simp: keeps_def ContainerInspect_def record_event_def audited_def log_ok_snoc
      event_ok_def split: sum.split)

lemma audited_image [keeps_rules]: "keeps audited (ImageInspect en i)"
  by (auto simp: keeps_def ImageInspect_def record_event_def audited_def log_ok_snoc
      event_ok_def split: option.split)

lemma audited_retry [keeps_rules]: "keeps audited (retryOperation en o1)"
  unfolding retryOperation_def by (intro keeps_rules)

lemma audited_invalidate [keeps_rules]: "keeps audited (invalidateCache en i)"
  unfolding invalidateCache_def
  by (intro keeps_rules; auto simp: audited_def)

lemma audited_checkOwnership [keeps_rules]: "keeps audited (checkOwnership en o1)"
  unfolding checkOwnership_def by (intro keeps_rules)

section \<open>Begin, check, call\<close>

definition covered_by :: "string \<Rightarrow> string \<Rightarrow> operation \<Rightarrow> world \<Rightarrow> bool" where
  "covered_by kind i o1 w \<longleftrightarrow> audited w \<and> o1 \<in> set (operations (wdb w)) \<and> op_Kind o1 = kind \<and>
     pendingFor ''docker'' i (first_row sb_ID (hasNativeID i) (sandboxes (wdb w))) o1"

definition armed :: "string \<Rightarrow> string \<Rightarrow> operation \<Rightarrow> world \<Rightarrow> bool" where
  "armed kind i o1 w \<longleftrightarrow> covered_by kind i o1 w \<and>
     identified (calls w) (op_Token o1) (op_NativeID o1)"

lemma repo_Inr: "repo m w = (Inr x, w') \<Longrightarrow> \<exists>d. m (wdb w) = (Inr x, d) \<and> w' = w\<lparr>wdb := d\<rparr>"
  by (auto simp: repo_def prog_defs split: prod.splits)

lemma repo_Inl: "repo m w = (Inl e, w') \<Longrightarrow> \<exists>d. m (wdb w) = (Inl e, d) \<and> w' = w\<lparr>wdb := d\<rparr>"
  by (auto simp: repo_def prog_defs split: prod.splits)

lemma keys_wf_ops [keeps_rules]:
  "keeps keys_wf (BeginOperation F rnd runtime native kind dl)"
  "keeps keys_wf (BeginCreate F o1)" "keeps keys_wf (BindCreation F o1 native)"
  "keeps keys_wf (CommitCreation F o1 row await)"
  "keeps keys_wf (CompleteOperation F o1 ports dl)" "keeps keys_wf (DeleteOperation F o1)"
  "keeps keys_wf (SetDeadline F i runtime dl)" "keeps keys_wf (UpdateProvenance F row adopt)"
  "keeps keys_wf (CreateOwnership F row)"
  "keeps keys_wf (FindByName F b n)" "keeps keys_wf (FindAll F b)" "keeps keys_wf (Operations F runtime)"
  "keeps keys_wf (FindByAttempt F runtime token)" "keeps keys_wf (RequireIdle F runtime i)"
  unfolding BeginCreate_def BeginOperation_def BindCreation_def CommitCreation_def
    CompleteOperation_def DeleteOperation_def SetDeadline_def UpdateProvenance_def
    CreateOwnership_def Let_def FindByName_def FindAll_def Operations_def FindByAttempt_def
    RequireIdle_def
  by ((intro conjI keeps_rules; auto)+)

lemma begun_covers:
  assumes "begun rnd runtime native kind dl row ops o1 ops'" "first_row sb_ID (hasNativeID native) rows = Some row"
  shows "o1 \<in> set ops' \<and> op_Kind o1 = kind \<and> pendingFor runtime native (Some row) o1"
proof (cases "first_row op_ID (pendingFor runtime native (Some row)) ops")
  case None
  then show ?thesis using assms
    by (simp add: begun_def freshIntent_def pendingFor_def)
next
  case (Some p)
  have p: "p \<in> set ops" "pendingFor runtime native (Some row) p"
    using first_row_Some [OF Some] by auto
  consider "o1 = p" "ops' = ops" "op_Kind p = kind"
    | "o1 = asDelete native row p" "kind = ''delete''"
      "ops' = update_rows (\<lambda>r. op_ID r = op_ID p) (asDelete native row) ops"
    using assms Some by (auto simp: begun_def)
  then show ?thesis
  proof cases
    case 1
    then show ?thesis using p by simp
  next
    case 2
    then show ?thesis using p by (auto simp: set_update_rows asDelete_def pendingFor_def)
  qed
qed

lemma triple_Begin:
  "triple audited (repo (BeginOperation F rnd ''docker'' i kind dl)) (covered_by kind i) audited"
proof (rule tripleI)
  fix w e w' assume "audited w" "repo (BeginOperation F rnd ''docker'' i kind dl) w = (Inl e, w')"
  then show "audited w'" using keepsD [OF audited_repo [OF keys_wf_ops(1)]] by blast
next
  fix w o1 w' assume w: "audited w" "repo (BeginOperation F rnd ''docker'' i kind dl) w = (Inr o1, w')"
  then have a: "audited w'" using keepsD [OF audited_repo [OF keys_wf_ops(1)]] by blast
  obtain d where d: "BeginOperation F rnd ''docker'' i kind dl (wdb w) = (Inr o1, d)"
    and w': "w' = w\<lparr>wdb := d\<rparr>" using repo_Inr [OF w(2)] by blast
  obtain row where row: "first_row sb_ID (hasNativeID i) (sandboxes (wdb w)) = Some row"
    and b: "begun rnd ''docker'' i kind dl row (operations (wdb w)) o1 (operations d)"
    and s: "sandboxes d = sandboxes (wdb w)" using ok_BeginOperation [OF d] by blast
  show "covered_by kind i o1 w'"
    using a begun_covers [OF b row] w' row s by (simp add: covered_by_def)
qed

lemma audited_if_armed: "armed kind i o1 w \<Longrightarrow> audited w" "covered_by kind i o1 w \<Longrightarrow> audited w"
  by (simp_all add: armed_def covered_by_def)

lemma audited_log: "audited w \<Longrightarrow> log_ok (calls w)"
  by (simp add: audited_def)

lemma inspect_answer:
  assumes "ContainerInspect en i w = (r, w')"
  shows "wdb w' = wdb w \<and> (\<exists>ev. calls w' = calls w @ [ev] \<and> ev_verb ev = VInspect \<and>
     ev_target ev = i \<and> ev_answer ev = (case r of Inl e \<Rightarrow> Failed e | Inr c \<Rightarrow> Found c))"
  using assms by (auto simp: ContainerInspect_def record_event_def split: sum.splits)

lemma audited_append:
  "audited w \<Longrightarrow> ContainerInspect en i w = (r, w') \<Longrightarrow> audited w'"
  using keepsD [OF audited_inspect] by blast

lemma keeps_covered_inspect: "keeps (covered_by kind i o1) (ContainerInspect en j)"
  unfolding keeps_def
proof (intro allI impI)
  fix w assume c: "covered_by kind i o1 w"
  obtain r w' where r: "ContainerInspect en j w = (r, w')" by fastforce
  then show "covered_by kind i o1 (snd (ContainerInspect en j w))"
    using c inspect_answer [OF r] audited_append [OF _ r] by (auto simp: covered_by_def)
qed

lemma keeps_armed_inspect: "keeps (armed kind i o1) (ContainerInspect en j)"
  unfolding keeps_def
proof (intro allI impI)
  fix w assume c: "armed kind i o1 w"
  obtain r w' where r: "ContainerInspect en j w = (r, w')" by fastforce
  then show "armed kind i o1 (snd (ContainerInspect en j w))"
    using c inspect_answer [OF r] keepsD [OF keeps_covered_inspect _ r] identified_mono
    by (auto simp: armed_def)
qed

lemma triple_check:
  "triple (covered_by kind i o1) (checkOwnership en o1) (\<lambda>_. armed kind i o1) audited"
proof (rule tripleI)
  fix w e w' assume "covered_by kind i o1 w" "checkOwnership en o1 w = (Inl e, w')"
  then show "audited w'" using keepsD [OF audited_checkOwnership] audited_if_armed(2) by blast
next
  fix w x w' assume c: "covered_by kind i o1 w" and ok: "checkOwnership en o1 w = (Inr x, w')"
  show "armed kind i o1 w'"
  proof (cases "op_Token o1 = []")
    case True
    then show ?thesis using c ok by (simp add: checkOwnership_def ok_simps armed_def identified_def)
  next
    case False
    obtain r w1 where r1: "ContainerInspect en (op_NativeID o1) w = (r, w1)"
      by fastforce
    then have "w1 = w' \<and> (case r of Inl e \<Rightarrow> IsNotFound e
        | Inr c \<Rightarrow> ct_ID c = op_NativeID o1 \<and> labelled (op_Token o1) c)"
      using ok False by (cases r) (auto simp: checkOwnership_def ok_simps split: if_splits)
    then have r: "ContainerInspect en (op_NativeID o1) w = (r, w')"
      and ans: "case r of Inl e \<Rightarrow> IsNotFound e
        | Inr c \<Rightarrow> ct_ID c = op_NativeID o1 \<and> labelled (op_Token o1) c"
      using r1 by auto
    have "identified (calls w') (op_Token o1) (op_NativeID o1)"
      using inspect_answer [OF r] ans by (auto simp: identified_def split: sum.splits)
    then show ?thesis using keepsD [OF keeps_covered_inspect c r] by (simp add: armed_def)
  qed
qed

lemma native_call_world:
  "native_call en v i w = (r, w') \<Longrightarrow> wdb w' = wdb w \<and> (\<exists>ev. calls w' = calls w @ [ev] \<and>
     ev_verb ev = v \<and> ev_target ev = i \<and> ev_rows ev = sandboxes (wdb w) \<and>
     ev_ops ev = operations (wdb w))"
  by (auto simp: native_call_def record_event_def split: option.splits)

lemma event_ok_backed:
  "ev_verb ev = v \<Longrightarrow> v \<in> {VStart, VStop, VRestart, VRemove} \<Longrightarrow> o1 \<in> set (ev_ops ev) \<Longrightarrow>
     backs evs (ev_rows ev) v (ev_target ev) o1 \<Longrightarrow> event_ok evs ev"
  by (auto simp: event_ok_def)

lemma allows_verbs: "allows v kind \<Longrightarrow> v \<in> {VStart, VStop, VRestart, VRemove}"
  by (cases v) auto

lemma audited_native:
  assumes "audited w" "o1 \<in> set (operations (wdb w))"
    "backs (calls w) (sandboxes (wdb w)) v i o1" "native_call en v i w = (r, w')"
  shows "audited w'"
proof -
  obtain ev where ev: "calls w' = calls w @ [ev]" "ev_verb ev = v" "ev_target ev = i"
    "ev_rows ev = sandboxes (wdb w)" "ev_ops ev = operations (wdb w)" "wdb w' = wdb w"
    using native_call_world [OF assms(4)] by blast
  have "v \<in> {VStart, VStop, VRestart, VRemove}"
    using assms(3) allows_verbs [of v "op_Kind o1"] by (simp add: backs_def)
  then have "event_ok (calls w) ev"
    using event_ok_backed [OF ev(2)] assms(2,3) ev by simp
  then show ?thesis using assms(1) ev by (simp add: audited_def log_ok_snoc)
qed

lemma triple_native:
  "allows v kind \<Longrightarrow> triple (armed kind i o1) (native_call en v i) (\<lambda>_. audited) audited"
proof -
  assume v: "allows v kind"
  have "audited w'" if "armed kind i o1 w" "native_call en v i w = (r, w')" for w r w'
  proof (rule audited_native [OF _ _ _ that(2)])
    show "audited w" "o1 \<in> set (operations (wdb w))"
      using that(1) by (simp_all add: armed_def covered_by_def)
    show "backs (calls w) (sandboxes (wdb w)) v i o1"
      using that(1) v unfolding backs_def
      by (auto simp: armed_def covered_by_def pendingFor_def split: option.splits)
  qed
  then show ?thesis by (auto intro: tripleI)
qed

section \<open>The handlers\<close>

lemma triple_finally_audited:
  "triple P m (\<lambda>_. audited) audited \<Longrightarrow> keeps audited p \<Longrightarrow>
     triple P (finallyDo m p) (\<lambda>_. audited) audited"
  by (rule triple_finally) (auto simp: keeps_triple)

lemma triple_then_keeps:
  "triple P m (\<lambda>_. audited) audited \<Longrightarrow> (\<And>x. keeps audited (f x)) \<Longrightarrow>
     triple P (andThen m f) (\<lambda>_. audited) audited"
  by (rule triple_andThen) (auto simp: keeps_triple)

lemma keeps_begin:
  "(\<And>o1. triple (covered_by kind i o1) (f o1) (\<lambda>_. audited) audited) \<Longrightarrow>
     keeps audited (andThen (repo (BeginOperation F rnd ''docker'' i kind dl)) f)"
  unfolding keeps_triple by (rule triple_andThen [OF triple_Begin])

lemma triple_guarded:
  assumes "triple (armed kind i o1) m (\<lambda>_. audited) audited"
  shows "triple (covered_by kind i o1)
    (finallyDo (andThen (checkOwnership en o1) (\<lambda>_. m)) (retryOperation en o1)) (\<lambda>_. audited) audited"
  by (rule triple_finally_audited [OF triple_andThen [OF triple_check assms]]) (rule audited_retry)

lemma keeps_persist [keeps_rules]:
  "keeps audited (finishStart en o1 i deadline status)" "keeps audited (settleStop en o1 i e)"
  unfolding finishStart_def settleStop_def Let_def by (intro keeps_rules)+

lemma triple_start_body:
  "allows v kind \<Longrightarrow> triple (armed kind i o1)
     (finallyDo (andThen (mapErr wrapNotFound (native_call en v i)) (\<lambda>_.
        finishStart en o1 i deadline status)) (invalidateCache en i)) (\<lambda>_. audited) audited"
  by (intro triple_finally_audited triple_then_keeps triple_mapErr triple_native keeps_rules)

lemma keeps_Start [keeps_rules]: "keeps audited (Start en cx i)"
  unfolding Start_def Let_def
  by (rule keeps_locked keeps_andThen keeps_mapErr audited_inspect keeps_deref keeps_if keeps_throw
      audited_leaves keeps_begin triple_guarded triple_start_body allows.simps [THEN iffD2] | simp)+

lemma keeps_Restart [keeps_rules]: "keeps audited (Restart en cx i)"
  unfolding Restart_def Let_def
  by (rule keeps_locked keeps_andThen audited_leaves keeps_begin triple_guarded triple_start_body | simp)+

lemma triple_inspect_armed:
  "triple (armed kind i o1) (attempt (ContainerInspect en j))
     (\<lambda>r. armed kind i o1) E"
  using keepsD [OF keeps_armed_inspect] by (auto intro!: tripleI simp: ok_attempt attempt_def
      split: prod.splits)

lemma triple_audited: "keeps audited m \<Longrightarrow> triple (armed kind i o1) m (\<lambda>_. audited) audited"
  by (rule triple_of_keeps) (auto dest: audited_if_armed)

lemma triple_deref: "(\<And>v. x = Some v \<Longrightarrow> triple P (f v) Q E) \<Longrightarrow> (\<And>s. P s \<Longrightarrow> E s) \<Longrightarrow>
    triple P (andThen (deref x) f) Q E"
  by (cases x) (auto simp: triple_def deref_def prog_defs)

lemma keeps_case_Inr [keeps_rules]:
  "keeps audited (case r of Inl e \<Rightarrow> f e | Inr u \<Rightarrow> m)" if "\<And>e. keeps audited (f e)" "keeps audited m"
  using that by (simp split: sum.split)

lemma triple_stop_body:
  "triple (armed ''stop'' i o1)
     (andThen (attempt (ContainerInspect en i)) (\<lambda>r.
           case r of
             Inl e \<Rightarrow>
               if IsNotFound e then settleStop en o1 i (Some ErrNotFound)
               else throw (DeferRecovery (wrapNotFound e))
           | Inr info \<Rightarrow>
               andThen (deref (ct_State info)) (\<lambda>st.
               if \<not> st_Running st then settleStop en o1 i (Some ErrAlreadyStopped)
               else
                 andThen (attempt (native_call en VStop i)) (\<lambda>s.
                 case s of
                   Inr _ \<Rightarrow> settleStop en o1 i None
                 | Inl e \<Rightarrow>
                     if IsNotFound e then settleStop en o1 i (Some (DeferRecovery (wrapNotFound e)))
                     else throw (DeferRecovery (wrapNotFound e)))))) (\<lambda>_. audited) audited"
proof (rule triple_andThen [OF triple_inspect_armed])
  fix r :: "err + container"
  have stop: "triple (armed ''stop'' i o1) (attempt (native_call en VStop i)) (\<lambda>_. audited) audited"
    by (rule triple_conseq [OF triple_attempt [OF triple_native]]) (auto split: sum.splits)
  show "triple (armed ''stop'' i o1) (case r of
             Inl e \<Rightarrow>
               if IsNotFound e then settleStop en o1 i (Some ErrNotFound)
               else throw (DeferRecovery (wrapNotFound e))
           | Inr info \<Rightarrow>
               andThen (deref (ct_State info)) (\<lambda>st.
               if \<not> st_Running st then settleStop en o1 i (Some ErrAlreadyStopped)
               else
                 andThen (attempt (native_call en VStop i)) (\<lambda>s.
                 case s of
                   Inr _ \<Rightarrow> settleStop en o1 i None
                 | Inl e \<Rightarrow>
                     if IsNotFound e then settleStop en o1 i (Some (DeferRecovery (wrapNotFound e)))
                     else throw (DeferRecovery (wrapNotFound e))))) (\<lambda>_. audited) audited"
  proof (cases r)
    case (Inl e)
    then show ?thesis by (simp add: triple_audited keeps_rules)
  next
    case (Inr info)
    have "keeps audited (case s of
                   Inr _ \<Rightarrow> settleStop en o1 i None
                 | Inl e \<Rightarrow>
                     if IsNotFound e then settleStop en o1 i (Some (DeferRecovery (wrapNotFound e)))
                     else throw (DeferRecovery (wrapNotFound e)))" for s
      by (intro keeps_rules)
    then show ?thesis unfolding Inr sum.case
      by (intro triple_deref triple_if triple_then_keeps [OF stop] triple_audited keeps_persist)
        (auto dest: audited_if_armed)
  qed
qed

lemma keeps_stopLocked [keeps_rules]: "keeps audited (stopLocked en i)"
  unfolding stopLocked_def
  by (rule keeps_andThen audited_leaves keeps_begin triple_guarded triple_finally_audited
      triple_stop_body audited_invalidate)+

lemma keeps_Stop [keeps_rules]: "keeps audited (Stop en cx i)"
  unfolding Stop_def by (intro keeps_rules)

lemma keeps_Remove [keeps_rules]: "keeps audited (Remove en cx i)"
proof -
  have "triple (armed ''delete'' i o1) (attempt (native_call en VRemove i)) (\<lambda>_. audited) audited" for o1
    by (rule triple_conseq [OF triple_attempt [OF triple_native]]) (auto split: sum.splits)
  then show ?thesis
    unfolding Remove_def
    by (intro keeps_locked keeps_begin triple_guarded triple_then_keeps
        keeps_andThen [OF audited_leaves(6)]; assumption?; intro keeps_rules)
qed

lemma idle_event_ok:
  assumes "first_row sb_ID (hasNativeID i) (sandboxes (wdb w)) = Some row"
    "\<forall>o1 \<in> set (operations (wdb w)). \<not> pendingFor ''docker'' i (Some row) o1"
    "audited w" "v = VPause \<or> v = VUnpause" "native_call en v i w = (r, w')"
  shows "audited w'"
  using native_call_world [OF assms(5)] assms(1-4) by (auto simp: audited_def log_ok_snoc event_ok_def)

definition idle :: "string \<Rightarrow> world \<Rightarrow> bool" where
  "idle i w \<longleftrightarrow> audited w \<and> (\<exists>row. first_row sb_ID (hasNativeID i) (sandboxes (wdb w)) = Some row \<and>
     (\<forall>o1 \<in> set (operations (wdb w)). \<not> pendingFor ''docker'' i (Some row) o1))"

lemma keeps_RequireIdle: "keeps audited (repo (RequireIdle F ''docker'' i))"
  by (intro keeps_rules)

lemma triple_idle: "triple audited (repo (RequireIdle F ''docker'' i)) (\<lambda>_. idle i) audited"
proof (rule tripleI)
  fix w e w' assume "audited w" "repo (RequireIdle F ''docker'' i) w = (Inl e, w')"
  then show "audited w'" using keepsD [OF keeps_RequireIdle] by blast
next
  fix w x w' assume w: "audited w" "repo (RequireIdle F ''docker'' i) w = (Inr x, w')"
  then have a: "audited w'" using keepsD [OF keeps_RequireIdle] by blast
  obtain d where d: "RequireIdle F ''docker'' i (wdb w) = (Inr x, d)" "w' = w\<lparr>wdb := d\<rparr>"
    using repo_Inr [OF w(2)] by blast
  then show "idle i w'" using a ok_RequireIdle [OF d(1)] by (auto simp: idle_def tables_eq_iff)
qed

lemma triple_idle_call:
  "v = VPause \<or> v = VUnpause \<Longrightarrow>
     triple (idle i) (mapErr g (native_call en v i)) (\<lambda>_. audited) audited"
  by (rule triple_mapErr, rule tripleI) (auto simp: idle_def dest: idle_event_ok)

lemma triple_idle_inspect:
  "triple (idle i) (mapErr g (ContainerInspect en j)) (\<lambda>_. idle i) audited"
proof (rule triple_mapErr, rule tripleI)
  fix w r w' assume w: "idle i w"
  { fix r w' assume r: "ContainerInspect en j w = (r, w')"
    then have "idle i w'"
      using w inspect_answer [OF r] audited_append [OF _ r] by (auto simp: idle_def) }
  then show "ContainerInspect en j w = (Inl r, w') \<Longrightarrow> audited w'"
    by (auto simp: idle_def)
next
  fix w r w' assume w: "idle i w" and r: "ContainerInspect en j w = (Inr r, w')"
  then show "idle i w'"
    using inspect_answer [OF r] audited_append [OF _ r] by (auto simp: idle_def)
qed

lemma triple_idle_throw: "triple (idle i) (throw e) (\<lambda>_. audited) audited"
  by (rule triple_throw) (simp add: idle_def)

lemma keeps_idle:
  "(\<And>st. triple (idle i) (f st) (\<lambda>_. audited) audited) \<Longrightarrow>
     keeps audited (andThen (repo (RequireIdle F ''docker'' i)) (\<lambda>_.
       andThen (mapErr g (ContainerInspect en j)) (\<lambda>info. andThen (deref (ct_State info)) f)))"
  unfolding keeps_triple
  by (rule triple_andThen [OF triple_idle], rule triple_andThen [OF triple_idle_inspect],
      rule triple_deref) (auto simp: idle_def)

lemma keeps_Pause_Resume [keeps_rules]: "keeps audited (Pause en cx i)" "keeps audited (Resume en cx i)"
  unfolding Pause_def Resume_def
  by (rule keeps_locked, rule keeps_idle, auto intro: triple_idle_throw triple_idle_call)+

lemma keeps_Renew [keeps_rules]: "keeps audited (RenewExpiration en cx i t)"
  unfolding RenewExpiration_def Let_def by (intro keeps_rules)

section \<open>Creation\<close>

definition planned :: "operation \<Rightarrow> world \<Rightarrow> bool" where
  "planned o1 w \<longleftrightarrow> audited w \<and> o1 \<in> set (operations (wdb w)) \<and> op_Kind o1 = ''create'' \<and>
     op_RuntimeKind o1 = ''docker'' \<and> op_Token o1 \<noteq> []"

definition made :: "operation \<Rightarrow> string \<Rightarrow> world \<Rightarrow> bool" where
  "made o1 native w \<longleftrightarrow> planned o1 w \<and> identified (calls w) (op_Token o1) native"

lemma made_audited: "made o1 native w \<Longrightarrow> audited w" "planned o1 w \<Longrightarrow> audited w"
  by (simp_all add: made_def planned_def)

lemma ok_BeginCreate: "BeginCreate F o1 d = (Inr x, d') \<Longrightarrow> o1 \<in> set (operations d')"
  unfolding BeginCreate_def
  by (elim transaction_okE)
    (auto simp: insertOperation_def ok_simps tables_eq_iff split: option.splits if_splits)

lemma triple_BeginCreate:
  assumes "op_Kind o1 = ''create''" "op_RuntimeKind o1 = ''docker''" "op_Token o1 \<noteq> []"
  shows "triple audited (repo (BeginCreate F o1)) (\<lambda>_. planned o1) audited"
proof (rule tripleI)
  have k: "keeps audited (repo (BeginCreate F o1))" by (intro keeps_rules)
  { fix w e w' assume "audited w" "repo (BeginCreate F o1) w = (Inl e, w')"
    then show "audited w'" using keepsD [OF k] by blast }
  fix w x w' assume w: "audited w" "repo (BeginCreate F o1) w = (Inr x, w')"
  then have "audited w'" using keepsD [OF k] by blast
  moreover obtain d where "BeginCreate F o1 (wdb w) = (Inr x, d)" "w' = w\<lparr>wdb := d\<rparr>"
    using repo_Inr [OF w(2)] by blast
  ultimately show "planned o1 w'" using assms ok_BeginCreate by (simp add: planned_def)
qed

lemma ContainerCreate_eq:
  "ContainerCreate en opts w = (en_create en (calls w) opts,
     record_event VCreate (cr_Name opts) (labelOf (cr_Labels opts))
       (case en_create en (calls w) opts of Inl e \<Rightarrow> Failed e | Inr i \<Rightarrow> Created i) w)"
  by (simp add: ContainerCreate_def split: sum.split)

lemma create_answer:
  "ContainerCreate en opts w = (r, w') \<Longrightarrow> w' = record_event VCreate (cr_Name opts)
     (labelOf (cr_Labels opts)) (case r of Inl e \<Rightarrow> Failed e | Inr i \<Rightarrow> Created i) w"
  unfolding ContainerCreate_eq by clarsimp

lemma triple_ContainerCreate:
  assumes "labelOf (cr_Labels opts) = op_Token o1" "cr_Name opts = op_NativeName o1"
  shows "triple (planned o1) (ContainerCreate en opts) (made o1) audited"
proof -
  have "audited w' \<and> (\<forall>i. r = Inr i \<longrightarrow> made o1 i w')"
    if p: "planned o1 w" and r: "ContainerCreate en opts w = (r, w')" for w r w'
  proof -
    obtain ev where ev: "calls w' = calls w @ [ev]" "wdb w' = wdb w" "ev_verb ev = VCreate"
      "ev_target ev = cr_Name opts" "ev_label ev = op_Token o1" "ev_ops ev = operations (wdb w)"
      "ev_answer ev = (case r of Inl e \<Rightarrow> Failed e | Inr i \<Rightarrow> Created i)"
      using create_answer [OF r] assms(1) by (simp add: record_event_def)
    have ok: "event_ok (calls w) ev"
      using p ev assms by (auto simp: event_ok_def planned_def)
    then have "audited w'" using p ev by (simp add: planned_def audited_def log_ok_snoc)
    moreover have "identified (calls w') (op_Token o1) i" if "r = Inr i" for i
      using ev that by (auto simp: identified_def)
    ultimately show ?thesis using p ev by (auto simp: made_def planned_def)
  qed
  then show ?thesis by (auto intro: tripleI)
qed

lemma keeps_made_quiet: "quiet m \<Longrightarrow> keeps (made o1 native) m"
  by (rule keeps_quiet) (auto simp: made_def planned_def audited_def)

lemma made_inspect: "keeps (made o1 native) (ContainerInspect en j)"
  unfolding keeps_def
proof (intro allI impI)
  fix w assume c: "made o1 native w"
  obtain r w' where r: "ContainerInspect en j w = (r, w')" by fastforce
  then show "made o1 native (snd (ContainerInspect en j w))"
    using c inspect_answer [OF r] audited_append [OF _ r] identified_mono
    by (auto simp: made_def planned_def)
qed

lemma made_native:
  "allows v ''create'' \<Longrightarrow> keeps (made o1 native) (native_call en v native)"
  unfolding keeps_def
proof (intro allI impI)
  fix w assume v: "allows v ''create''" and c: "made o1 native w"
  obtain r w' where r: "native_call en v native w = (r, w')" by fastforce
  have b: "backs (calls w) (sandboxes (wdb w)) v native o1"
    using c v by (auto simp: made_def planned_def backs_def)
  have "audited w'"
    by (rule audited_native [OF _ _ b r]) (use c in \<open>auto simp: made_def planned_def\<close>)
  then show "made o1 native (snd (native_call en v native w))"
    using c r native_call_world [OF r] identified_mono by (auto simp: made_def planned_def)
qed

lemma triple_of_keeps': "keeps I m \<Longrightarrow> (\<And>s. I s \<Longrightarrow> J s) \<Longrightarrow> triple I m (\<lambda>_. J) J"
  by (auto simp: keeps_triple intro: triple_conseq)

lemma keeps_rollback: "triple (made o1 native) (rollbackCreate en o1 native row e) (\<lambda>_. audited) audited"
proof -
  have t: "keeps audited (case s of Inl y \<Rightarrow> ret x | Inr u \<Rightarrow> ret z)" for s x z and y :: 'b
    by (intro keeps_rules)
  have rest: "keeps audited (case r of
       Inl x \<Rightarrow>
         if \<not> IsNotFound x then
           andThen (attempt (repo (CreateOwnership (en_F en) row))) (\<lambda>s.
             throw (Join (e # Wrap ''rollback sandbox'' x #
               (case s of Inl y \<Rightarrow> [y] | Inr _ \<Rightarrow> []))))
         else
           andThen (attempt (repo (DeleteOperation (en_F en) o1))) (\<lambda>s.
             throw (Join (e # (case s of Inl y \<Rightarrow> [y] | Inr _ \<Rightarrow> []))))
     | Inr _ \<Rightarrow>
         andThen (attempt (repo (DeleteOperation (en_F en) o1))) (\<lambda>s.
           throw (Join (e # (case s of Inl y \<Rightarrow> [y] | Inr _ \<Rightarrow> [])))))" for r :: "err + unit"
    by (intro keeps_rules)
  have n: "triple (made o1 native) (attempt (native_call en VRemove native)) (\<lambda>_. audited) audited"
    by (rule triple_of_keeps' [OF keeps_attempt [OF made_native]]) (auto intro: made_audited)
  have c: "triple (made o1 native) (cancelTimer native) (\<lambda>_. made o1 native) audited"
    by (rule triple_conseq [OF keeps_made_quiet [OF quiet_timers(1), unfolded keeps_triple]])
      (auto intro: made_audited)
  show ?thesis
    unfolding rollbackCreate_def by (rule triple_andThen [OF c triple_then_keeps [OF n rest]])
qed

lemma keeps_onRetry: "triple P m Q audited \<Longrightarrow> triple P (retryOnError en o1 m) Q audited"
proof -
  assume m: "triple P m Q audited"
  have "triple audited (andThen (retryOperation en o1) (\<lambda>_. throw e)) Q audited" for e
    by (rule triple_andThen [where R = "\<lambda>_. audited"])
      (use audited_retry [unfolded keeps_triple] in \<open>auto intro: triple_throw\<close>)
  then show ?thesis unfolding retryOnError_def by (rule triple_onError [OF m])
qed

definition boundTo :: "operation \<Rightarrow> string \<Rightarrow> operation" where
  "boundTo o1 native = o1\<lparr>op_NativeID := native,
     op_PublicID := (if op_PublicID o1 = [] then native else op_PublicID o1)\<rparr>"

lemma bind_result:
  "BindCreation F o1 native d = (r, d') \<Longrightarrow>
     (\<forall>o2. r = Inr o2 \<longrightarrow> o2 = boundTo o1 native \<and> sandboxes d' = sandboxes d \<and>
        operations d' = update_rows (\<lambda>x. op_ID x = op_ID o1) (\<lambda>x. x\<lparr>op_NativeID := native,
          op_PublicID := op_PublicID (boundTo o1 native)\<rparr>) (operations d)) \<and>
     (\<forall>e. r = Inl e \<longrightarrow> tables d' = tables d)"
  by (auto simp: BindCreation_def boundTo_def updateOps_def exec_def stmt_def prog_defs Let_def
      split: option.splits)

lemma triple_bind:
  "triple (made o1 native) (repo (BindCreation F o1 native)) (\<lambda>o2. made o2 native) (made o1 native)"
proof -
  have k: "keeps audited (repo (BindCreation F o1 native))" by (intro keeps_rules)
  show ?thesis
  proof (rule tripleI)
    fix w e w' assume w: "made o1 native w" "repo (BindCreation F o1 native) w = (Inl e, w')"
    obtain d where d: "BindCreation F o1 native (wdb w) = (Inl e, d)" "w' = w\<lparr>wdb := d\<rparr>"
      using repo_Inl [OF w(2)] by blast
    have "audited w'" using keepsD [OF k _ w(2)] w(1) by (simp add: made_def planned_def)
    then show "made o1 native w'"
      using w(1) d bind_result [OF d(1)] by (simp add: made_def planned_def tables_eq_iff)
  next
    fix w o2 w' assume w: "made o1 native w" "repo (BindCreation F o1 native) w = (Inr o2, w')"
    obtain d where d: "BindCreation F o1 native (wdb w) = (Inr o2, d)" "w' = w\<lparr>wdb := d\<rparr>"
      using repo_Inr [OF w(2)] by blast
    have a: "audited w'" using keepsD [OF k _ w(2)] w(1) by (simp add: made_def planned_def)
    have o2: "o2 = boundTo o1 native" "operations d = update_rows (\<lambda>x. op_ID x = op_ID o1)
        (\<lambda>x. x\<lparr>op_NativeID := native, op_PublicID := op_PublicID (boundTo o1 native)\<rparr>)
        (operations (wdb w))"
      using bind_result [OF d(1)] by auto
    have "o2 \<in> set (operations d)"
      using w(1) by (auto simp: made_def planned_def o2 set_update_rows boundTo_def)
    then show "made o2 native w'"
      using w(1) a d o2(1) by (simp add: made_def planned_def boundTo_def)
  qed
qed

text \<open>From the start of the new container to the commit the intent stays armed.\<close>

lemma triple_commitCreate_db:
  "triple (made o1 native) (repo (CommitCreation F o1 row await)) (\<lambda>_. audited) (made o1 native)"
proof (rule tripleI)
  have k: "keeps audited (repo (CommitCreation F o1 row await))" by (intro keeps_rules)
  { fix w x w' assume "made o1 native w" "repo (CommitCreation F o1 row await) w = (Inr x, w')"
    then show "audited w'" using keepsD [OF k] by (auto dest: made_audited) }
  fix w e w' assume w: "made o1 native w" "repo (CommitCreation F o1 row await) w = (Inl e, w')"
  then have "audited w'" using keepsD [OF k] by (auto dest: made_audited)
  moreover obtain d where d: "CommitCreation F o1 row await (wdb w) = (Inl e, d)" "w' = w\<lparr>wdb := d\<rparr>"
    using repo_Inl [OF w(2)] by blast
  moreover have "tables d = tables (wdb w)"
    using d(1) by (auto simp: CommitCreation_def dest: transaction_atomic)
  ultimately show "made o1 native w'" using w(1) by (simp add: made_def planned_def tables_eq_iff)
qed

lemma triple_tail:
  "keeps audited m \<Longrightarrow> (\<And>w e w'. m w \<noteq> (Inl e, w')) \<Longrightarrow> triple audited m (\<lambda>_. audited) E"
  by (rule tripleI) (auto dest: keepsD)

lemma no_error:
  "modify f w \<noteq> (Inl e, w')" "ret x w \<noteq> (Inl e, w')" "scheduleUntil en i dl w \<noteq> (Inl e, w')"
  by (auto simp: prog_defs scheduleUntil_def scheduleDeadline_def now_def)

lemma triple_commitCreate:
  "triple (made o1 native) (commitCreate en cx req o1 native name mainPort deadline)
     (\<lambda>_. audited) (made o1 native)"
proof -
  have k: "triple (made o1 native) m (\<lambda>_. made o1 native) (made o1 native)" if "keeps (made o1 native) m"
    for m :: "'b act" using that by (simp add: keeps_triple)
  have att: "triple audited (if AwaitAdoption cx
         then modify (\<lambda>w. w\<lparr>createAttempts := store native o1 (createAttempts w)\<rparr>)
         else ret ()) (\<lambda>_. audited) (made o1 native)"
    by (rule triple_tail) (auto simp: no_error keeps_def prog_defs audited_def)
  have sched: "triple audited (scheduleUntil en native deadline) (\<lambda>_. audited) (made o1 native)"
    by (rule triple_tail) (auto simp: no_error intro: keeps_rules)
  have fin: "triple audited (ret x) (\<lambda>_. audited) (made o1 native)" for x :: create_response
    by (rule triple_ret)
  show ?thesis
    unfolding commitCreate_def Let_def
    by (rule triple_andThen [OF k [OF made_native]], simp,
        rule triple_andThen [OF k [OF made_inspect]], rule triple_deref,
        rule triple_andThen [OF triple_commitCreate_db], rule triple_andThen [OF att],
        rule triple_andThen [OF sched], rule fin)
qed

lemma labelOf_owner [simp]: "labelOf [(ownerLabel, t)] = t"
  by (simp add: labelOf_def)

lemma keeps_uniqueName_of:
  assumes find: "\<And>n. keeps I (repo (FindByName (en_F en) True n))"
    and tick: "\<And>w. I w \<Longrightarrow> I (w\<lparr>tick := Suc (tick w)\<rparr>)"
  shows "keeps I (uniqueName en)"
proof -
  have probe: "I (snd (nameProbe en n w))" if "I w" for n w
  proof -
    have "I (snd (repo (FindByName (en_F en) True n) w))" using find that by (simp add: keeps_def)
    then show ?thesis by (auto simp: nameProbe_def split: prod.splits sum.splits option.splits)
  qed
  have p: "plainAttempts fuel k dr (nameProbe en) j w = Some (m, j', w') \<Longrightarrow> I w \<Longrightarrow> I w'"
    for fuel k dr j w m j' w'
    by (induction k arbitrary: j w)
      (auto split: option.splits prod.splits if_splits, (metis probe snd_conv)+)
  have s: "suffixAttempts fuel k dr (nameProbe en) j w = Some (m, j', w') \<Longrightarrow> I w \<Longrightarrow> I w'"
    for fuel k dr j w m j' w'
    by (induction k arbitrary: j w)
      (auto simp: Let_def split: option.splits prod.splits if_splits, (metis probe snd_conv)+)
  have "generateUniqueName fuel dr (nameProbe en) j w = Some (name, j', w') \<Longrightarrow> I w \<Longrightarrow> I w'"
    for fuel dr j w name j' w'
    using p s unfolding generateUniqueName_def by (fastforce split: option.splits prod.splits)
  then show ?thesis
    by (auto simp: keeps_def uniqueName_def tick split: option.splits)
qed

lemma keeps_uniqueName [keeps_rules]: "keeps audited (uniqueName en)"
  by (rule keeps_uniqueName_of) (intro keeps_rules, simp add: audited_def)

lemma keeps_generateCmdID: "triple audited (generateCmdID en)
    (\<lambda>t w. audited w \<and> t \<noteq> []) audited"
  by (auto intro!: tripleI simp: generateCmdID_def randText_def prog_defs audited_def)

lemma keeps_ImageExists [keeps_rules]: "keeps audited (ImageExists en i)"
  unfolding ImageExists_def by (intro keeps_rules)

lemma keeps_with_token:
  assumes "\<And>token. token \<noteq> [] \<Longrightarrow> keeps audited (f token)"
  shows "keeps audited (andThen (generateCmdID en) f)"
  unfolding keeps_triple
  by (rule triple_andThen [OF keeps_generateCmdID])
    (use assms in \<open>auto simp: keeps_triple triple_def\<close>)

lemma keeps_create_tail:
  assumes "op_Kind o1 = ''create''" "op_RuntimeKind o1 = ''docker''" "op_Token o1 \<noteq> []"
    "labelOf (cr_Labels opts) = op_Token o1" "cr_Name opts = op_NativeName o1"
  shows "keeps audited
    (andThen (repo (BeginCreate F o1)) (\<lambda>_.
     andThen (retryOnError en o1 (mapErr g (ContainerCreate en opts))) (\<lambda>native.
     andThen (retryOnError en o1
           (onError (repo (BindCreation F o1 native)) (rollbackCreate en o1 native (row native))))
       (\<lambda>o2. retryOnError en o2
             (onError (commitCreate en cx req o2 native name mainPort deadline)
               (rollbackCreate en o2 native (row native)))))))"
proof -
  have bind: "triple (made o1 native) (onError (repo (BindCreation F o1 native))
      (rollbackCreate en o1 native (row native))) (\<lambda>o2. made o2 native) audited" for native
  proof (rule triple_onError [OF triple_bind])
    fix e
    have "rollbackCreate en o1 native (row native) e w \<noteq> (Inr x, w')" for x :: operation and w w'
      by (auto simp: rollbackCreate_def ok_simps split: sum.splits if_splits)
    then show "triple (made o1 native) (rollbackCreate en o1 native (row native) e)
        (\<lambda>o2. made o2 native) audited"
      using keeps_rollback [of o1 native en "row native" e] by (fastforce simp: triple_def split: prod.splits sum.splits)
  qed
  have commit: "triple (made o2 native) (onError (commitCreate en cx req o2 native name mainPort deadline)
      (rollbackCreate en o2 native (row native))) (\<lambda>_. audited) audited" for o2 native
    by (rule triple_onError [OF triple_commitCreate keeps_rollback])
  show ?thesis
    unfolding keeps_triple
    by (rule triple_andThen [OF triple_BeginCreate [OF assms(1-3)]],
        rule triple_andThen [OF keeps_onRetry [OF triple_mapErr [OF triple_ContainerCreate [OF assms(4,5)]]]],
        rule triple_andThen [OF keeps_onRetry [OF bind]], rule keeps_onRetry [OF commit])
qed

lemma keeps_Create [keeps_rules]: "keeps audited (Create en cx req)"
  unfolding Create_def Let_def
  by (rule keeps_locked keeps_andThen [OF keeps_ImageExists] keeps_if keeps_throw
      keeps_andThen [OF keeps_uniqueName] keeps_with_token keeps_andThen [OF audited_leaves(5)]
      keeps_create_tail | simp add: createOptions_def)+

section \<open>Reconciliation\<close>

text \<open>The table holds nothing else under the key of the intent that is being reconciled.\<close>

definition agrees :: "operation \<Rightarrow> world \<Rightarrow> bool" where
  "agrees o1 w \<longleftrightarrow> audited w \<and> (\<forall>st \<in> set (operations (wdb w)). op_ID st = op_ID o1 \<longrightarrow> st = o1)"

definition stored :: "operation \<Rightarrow> world \<Rightarrow> bool" where
  "stored o1 w \<longleftrightarrow> audited w \<and> o1 \<in> set (operations (wdb w)) \<and> op_RuntimeKind o1 = ''docker'' \<and>
     (op_Kind o1 = ''create'' \<longrightarrow> op_Token o1 \<noteq> []) \<and>
     (op_Kind o1 \<noteq> ''create'' \<longrightarrow> op_NativeID o1 \<noteq> [])"

text \<open>\<open>o2\<close> is the intent \<open>o1\<close> with the identity that recovery has found for it.\<close>

definition resolved :: "operation \<Rightarrow> operation \<Rightarrow> bool" where
  "resolved o1 o2 \<longleftrightarrow> op_ID o2 = op_ID o1 \<and> op_Kind o2 = op_Kind o1 \<and> op_Token o2 = op_Token o1 \<and>
     (op_NativeID o1 \<noteq> [] \<longrightarrow> op_NativeID o2 = op_NativeID o1)"

definition seen_ok :: "operation \<Rightarrow> operation \<Rightarrow> container \<Rightarrow> world \<Rightarrow> bool" where
  "seen_ok o1 o2 info w \<longleftrightarrow> stored o1 w \<and> resolved o1 o2 \<and>
     (op_NativeID o1 \<noteq> [] \<longrightarrow> ct_ID info = op_NativeID o1) \<and>
     identified (calls w) (op_Token o1) (ct_ID info)"

lemma stored_audited: "stored o1 w \<Longrightarrow> audited w" "seen_ok o1 o2 info w \<Longrightarrow> audited w"
    "agrees o1 w \<Longrightarrow> audited w"
  by (simp_all add: stored_def seen_ok_def agrees_def)

lemma keeps_validate [keeps_rules]: "keeps audited (validateIntent o1)"
  unfolding validateIntent_def by (intro keeps_rules)

lemma ok_validateIntent:
  "validateIntent o1 w = (Inr x, w') \<Longrightarrow> w' = w \<and> op_RuntimeKind o1 = ''docker'' \<and>
     (op_Kind o1 = ''create'' \<longrightarrow> op_Token o1 \<noteq> [] \<and> op_NativeName o1 \<noteq> []) \<and>
     (op_Kind o1 \<noteq> ''create'' \<longrightarrow> op_NativeID o1 \<noteq> [])"
  by (auto simp: validateIntent_def ok_simps split: if_splits)

lemma triple_validated:
  "triple (agrees o1) (andThen (validateIntent o1) (\<lambda>_. repo (ValidateOperation F o1)))
     (\<lambda>_. stored o1) audited"
proof (rule tripleI)
  let ?m = "andThen (validateIntent o1) (\<lambda>_. repo (ValidateOperation F o1))"
  have k: "keeps audited ?m" by (intro keeps_rules)
  { fix w e w' assume "agrees o1 w" "?m w = (Inl e, w')"
    then show "audited w'" using keepsD [OF k] by (auto dest: stored_audited) }
  fix w x w' assume w: "agrees o1 w" "?m w = (Inr x, w')"
  then have a: "audited w'" using keepsD [OF k] by (auto dest: stored_audited)
  obtain y where v: "validateIntent o1 w = (Inr y, w)" and r: "repo (ValidateOperation F o1) w = (Inr x, w')"
    using w(2) ok_validateIntent by (auto simp: ok_andThen)
  obtain d where d: "ValidateOperation F o1 (wdb w) = (Inr x, d)" "w' = w\<lparr>wdb := d\<rparr>"
    using repo_Inr [OF r] by blast
  have "\<exists>st \<in> set (operations (wdb w)). op_ID st = op_ID o1" "tables d = tables (wdb w)"
    using ok_ValidateOperation [OF d(1)] by auto
  then have "o1 \<in> set (operations d)" using w(1) by (auto simp: agrees_def tables_eq_iff)
  then show "stored o1 w'" using a d ok_validateIntent [OF v] by (simp add: stored_def)
qed

lemma repo_reads:
  assumes "\<And>d r d'. m d = (r, d') \<Longrightarrow> tables d' = tables d"
  shows "keeps (stored o1) (repo m)" "keeps (seen_ok o1 o2 info) (repo m)"
proof -
  have "stored o1 w'" "calls w' = calls w" if st: "stored o1 w" and r: "repo m w = (r, w')" for w r w'
  proof -
    obtain d where d: "m (wdb w) = (r, d)" "w' = w\<lparr>wdb := d\<rparr>"
      using r by (auto simp: repo_def prog_defs split: prod.splits)
    have t: "tables d = tables (wdb w)" using assms [OF d(1)] .
    then have "keys_wf d = keys_wf (wdb w)" by (rule keys_wf_tables)
    then show "stored o1 w'" "calls w' = calls w"
      using st d t by (auto simp: stored_def audited_def tables_eq_iff)
  qed
  note st = this
  show "keeps (stored o1) (repo m)"
    unfolding keeps_def using st(1) by (metis prod.collapse)
  show "keeps (seen_ok o1 o2 info) (repo m)"
    unfolding keeps_def seen_ok_def using st by (metis prod.collapse)
qed

lemma reads_only:
  "FindByAttempt F runtime token d = (r, d') \<Longrightarrow> tables d' = tables d"
  "FindByNativeID F i d = (s, d') \<Longrightarrow> tables d' = tables d"
  by (auto simp: FindByAttempt_def FindByNativeID_def query_def stmt_def Let_def ret_def tables_def
      split: option.splits if_splits)

lemma audited_reads [keeps_rules]:
  "keeps audited (resolveRef en o1)" "keeps audited (observe en ref)" "keeps audited (identify en o1 info)"
  unfolding resolveRef_def observe_def identify_def Let_def by (intro keeps_rules)+

lemma triple_resolveRef:
  "triple (stored o1) (resolveRef en o1)
     (\<lambda>(o2, ref) w. stored o1 w \<and> resolved o1 o2) audited"
proof (rule tripleI)
  { fix w e w' assume "stored o1 w" "resolveRef en o1 w = (Inl e, w')"
    then show "audited w'" using keepsD [OF audited_reads(1)] by (auto dest: stored_audited) }
  fix w x w' assume w: "stored o1 w" "resolveRef en o1 w = (Inr x, w')"
  have "keeps (stored o1) (repo (FindByAttempt (en_F en) (op_RuntimeKind o1) (op_Token o1)))"
    by (rule repo_reads(1)) (rule reads_only(1))
  from keepsD [OF this w(1)] have "stored o1 w'"
    using w by (auto simp: resolveRef_def ok_simps split: if_splits option.splits)
  moreover have "resolved o1 (fst x)"
    using w(2) by (auto simp: resolveRef_def resolved_def ok_simps split: if_splits option.splits)
  ultimately show "(case x of (o2, ref) \<Rightarrow> \<lambda>w. stored o1 w \<and> resolved o1 o2) w'"
    by (cases x) simp
qed

definition looked :: "operation \<Rightarrow> operation \<Rightarrow> container option \<Rightarrow> world \<Rightarrow> bool" where
  "looked o1 o2 seen w \<longleftrightarrow> stored o1 w \<and> resolved o1 o2 \<and>
     (\<forall>c. seen = Some c \<longrightarrow> (\<exists>e \<in> set (calls w). ev_answer e = Found c))"

lemma triple_observe:
  "triple (\<lambda>w. stored o1 w \<and> resolved o1 o2) (observe en ref) (looked o1 o2) audited"
proof (rule tripleI)
  { fix w e w' assume "stored o1 w \<and> resolved o1 o2" "observe en ref w = (Inl e, w')"
    then show "audited w'" using keepsD [OF audited_reads(2)] by (auto dest: stored_audited) }
  fix w x w' assume w: "stored o1 w \<and> resolved o1 o2" "observe en ref w = (Inr x, w')"
  obtain r w1 where r: "ContainerInspect en ref w = (r, w1)" by fastforce
  then have x: "w1 = w'" "\<forall>c. x = Some c \<longrightarrow> r = Inr c"
    using w(2) by (cases r; auto simp: observe_def ok_simps split: if_splits)+
  have "audited w'" using keepsD [OF audited_reads(2)] w by (auto dest: stored_audited)
  then show "looked o1 o2 x w'"
    using inspect_answer [OF r] w(1) x by (auto simp: looked_def stored_def)
qed

lemma ok_identify:
  "identify en o2 info w = (Inr (o3, st), w') \<Longrightarrow>
     (op_Token o2 \<noteq> [] \<longrightarrow> labelled (op_Token o2) info) \<and>
     (op_NativeID o2 \<noteq> [] \<longrightarrow> ct_ID info = op_NativeID o2) \<and> ct_State info = Some st \<and>
     op_ID o3 = op_ID o2 \<and> op_Kind o3 = op_Kind o2 \<and> op_Token o3 = op_Token o2 \<and>
     (op_NativeID o2 \<noteq> [] \<longrightarrow> op_NativeID o3 = op_NativeID o2) \<and>
     (w' = w \<or> (\<exists>s. repo (FindByNativeID (en_F en) (ct_ID info)) w = (Inr s, w')))"
  unfolding identify_def Let_def
  by (auto simp: ok_simps split: if_splits option.splits)

lemma triple_identify:
  "triple (looked o1 o2 (Some info)) (identify en o2 info)
     (\<lambda>(o3, st). seen_ok o1 o3 info) audited"
proof (rule tripleI)
  { fix w e w' assume "looked o1 o2 (Some info) w" "identify en o2 info w = (Inl e, w')"
    then show "audited w'" using keepsD [OF audited_reads(3)]
      by (auto simp: looked_def dest: stored_audited) }
  fix w x w' assume w: "looked o1 o2 (Some info) w" "identify en o2 info w = (Inr x, w')"
  obtain o3 st where x: "x = (o3, st)" by fastforce
  note ok = ok_identify [OF w(2) [unfolded x]]
  obtain e where e: "e \<in> set (calls w)" "ev_answer e = Found info"
    using w(1) by (auto simp: looked_def)
  have "identified (calls w) (op_Token o2) (ct_ID info)"
  proof (cases "op_Token o2 = []")
    case False
    then show ?thesis unfolding identified_def using ok e(2)
      by (intro disjI2 bexI [OF _ e(1)]) simp
  qed (simp add: identified_def)
  then have seen: "seen_ok o1 o3 info w"
    using w(1) ok unfolding looked_def seen_ok_def resolved_def by metis
  have "keeps (seen_ok o1 o3 info) (repo (FindByNativeID (en_F en) (ct_ID info)))"
    by (rule repo_reads(2)) (rule reads_only(2))
  then have "seen_ok o1 o3 info w'" using seen ok keepsD by metis
  then show "(case x of (o3, st) \<Rightarrow> seen_ok o1 o3 info) w'" by (simp add: x)
qed

lemma seen_backs:
  assumes "seen_ok o1 o2 info w" "allows v (op_Kind o2)"
    "i = ct_ID info \<or> (i = op_NativeID o2 \<and> op_Kind o2 \<noteq> ''create'')"
  shows "audited w" "o1 \<in> set (operations (wdb w))" "backs (calls w) (sandboxes (wdb w)) v i o1"
proof -
  show "audited w" "o1 \<in> set (operations (wdb w))"
    using assms(1) by (auto simp: seen_ok_def stored_def)
  have i: "i = ct_ID info"
    using assms by (auto simp: seen_ok_def stored_def resolved_def)
  have "identified (calls w) (op_Token o1) i" "op_RuntimeKind o1 = ''docker''" "allows v (op_Kind o1)"
    using assms i by (simp_all add: seen_ok_def stored_def resolved_def)
  then show "backs (calls w) (sandboxes (wdb w)) v i o1"
    using assms(1) i unfolding backs_def
    by (cases "op_NativeID o1 = []")
      (auto simp: seen_ok_def stored_def resolved_def pendingFor_def split: option.splits)
qed

lemma triple_tolerant:
  assumes "allows v (op_Kind o2)" "i = ct_ID info \<or> (i = op_NativeID o2 \<and> op_Kind o2 \<noteq> ''create'')"
  shows "triple (seen_ok o1 o2 info) (tolerantCall en v i) (\<lambda>_. audited) audited"
proof -
  have "audited (snd (tolerantCall en v i w))" if w: "seen_ok o1 o2 info w" for w
  proof -
    obtain r w1 where r: "native_call en v i w = (r, w1)" by fastforce
    have "audited w1" using audited_native [OF seen_backs [OF w assms] r] .
    then show ?thesis using r by (auto simp: tolerantCall_def prog_defs split: sum.split)
  qed
  then show ?thesis by (fastforce simp: triple_def split: prod.splits sum.splits)
qed

lemma triple_seen: "keeps audited m \<Longrightarrow> triple (seen_ok o1 o2 info) m (\<lambda>_. audited) audited"
  by (rule triple_of_keeps) (auto dest: stored_audited)

lemma triple_settle_seen:
  "triple (seen_ok o1 o2 info) (settleIntent en o2 (Some (info, st))) (\<lambda>_. audited) audited"
proof -
  have stop: "triple (seen_ok o1 o2 info)
      (if st_Running st then tolerantCall en VStop (op_NativeID o2) else ret ()) (\<lambda>_. audited) audited"
    if "op_Kind o2 = ''stop''"
    by (rule triple_if; rule triple_tolerant triple_seen) (use that in \<open>auto intro: keeps_rules\<close>)
  have rem: "triple (seen_ok o1 o2 info) (tolerantCall en VRemove (ct_ID info)) (\<lambda>_. audited) audited"
    if "op_Kind o2 = ''create'' \<or> op_Kind o2 = ''delete''"
    using that by (intro triple_tolerant) auto
  show ?thesis
    unfolding settleIntent_def Let_def option.case prod.case
    by (intro triple_if triple_then_keeps [OF rem] triple_then_keeps [OF stop] triple_seen)
      (assumption | intro keeps_rules)+
qed

lemma keeps_settle_missing: "keeps audited (settleIntent en o2 None)"
  unfolding settleIntent_def Let_def option.case by (intro keeps_rules)

lemma triple_reconcile: "triple (agrees o1) (reconcile en o1) (\<lambda>_. audited) audited"
proof -
  have assoc: "andThen m (\<lambda>x. andThen (f x) g) = andThen (andThen m f) g"
    for m :: "unit act" and f :: "unit \<Rightarrow> unit act" and g :: "unit \<Rightarrow> unit act"
    by (auto simp: andThen_def fun_eq_iff split: prod.split sum.split)
  have settle: "triple (looked o1 o2 seen) (case seen of
         None \<Rightarrow> settleIntent en o2 None
       | Some info \<Rightarrow>
           andThen (identify en o2 info) (\<lambda>(o3, st). settleIntent en o3 (Some (info, st))))
       (\<lambda>_. audited) audited" for o2 seen
  proof (cases seen)
    case None
    then show ?thesis
      by (auto simp: looked_def intro!: triple_of_keeps keeps_settle_missing dest: stored_audited)
  next
    case (Some info)
    show ?thesis unfolding Some option.case
      by (rule triple_andThen [OF triple_identify]) (auto intro: triple_settle_seen)
  qed
  have rest: "triple (stored o1) (if op_Kind o1 = ''create'' \<and> (op_Token o1 = [] \<or> op_NativeName o1 = [])
     then throw (Msg ''creation intent lacks exact name and ownership token'')
     else
       andThen (resolveRef en o1) (\<lambda>(o2, ref).
       andThen (observe en ref) (\<lambda>seen.
       case seen of
         None \<Rightarrow> settleIntent en o2 None
       | Some info \<Rightarrow>
           andThen (identify en o2 info) (\<lambda>(o3, st). settleIntent en o3 (Some (info, st))))))
       (\<lambda>_. audited) audited"
    by (intro triple_if triple_throw triple_andThen [OF triple_resolveRef])
      (auto intro: triple_andThen [OF triple_observe settle] stored_audited split: prod.split)
  show ?thesis
    unfolding reconcile_def assoc by (rule triple_andThen [OF triple_validated rest])
qed

section \<open>Jobs, expiry and recovery\<close>

lemma agrees_of_row:
  "audited w \<Longrightarrow> o1 \<in> set (operations (wdb w)) \<Longrightarrow> agrees o1 w"
  by (auto simp: agrees_def audited_def keys_wf_def distinct_map inj_on_def)

lemma keeps_find_then:
  assumes find: "\<And>d r d'. m d = (Inr (Some r), d') \<Longrightarrow> tables d' = tables d \<and> r \<in> set (operations d)"
    and k: "keeps keys_wf m" and none: "keeps audited n"
    and some: "\<And>o1. triple (agrees o1) (f o1) (\<lambda>_. audited) audited"
  shows "keeps audited (andThen (repo m) (\<lambda>r. case r of None \<Rightarrow> n | Some o1 \<Rightarrow> f o1))"
  unfolding keeps_triple
proof (rule triple_andThen)
  have ka: "keeps audited (repo m)" using k by (rule audited_repo)
  show "triple audited (repo m) (\<lambda>r w. audited w \<and> (\<forall>o1. r = Some o1 \<longrightarrow> agrees o1 w)) audited"
  proof (rule tripleI)
    { fix w e w' assume "audited w" "repo m w = (Inl e, w')"
      then show "audited w'" using keepsD [OF ka] by blast }
    fix w r w' assume w: "audited w" "repo m w = (Inr r, w')"
    then have a: "audited w'" using keepsD [OF ka] by blast
    obtain d where d: "m (wdb w) = (Inr r, d)" "w' = w\<lparr>wdb := d\<rparr>" using repo_Inr [OF w(2)] by blast
    have "agrees o1 w'" if "r = Some o1" for o1
      using find d that a by (intro agrees_of_row) (auto simp: tables_eq_iff)
    then show "audited w' \<and> (\<forall>o1. r = Some o1 \<longrightarrow> agrees o1 w')" using a by blast
  qed
  fix r :: "operation option"
  show "triple (\<lambda>w. audited w \<and> (\<forall>o1. r = Some o1 \<longrightarrow> agrees o1 w))
      (case r of None \<Rightarrow> n | Some o1 \<Rightarrow> f o1) (\<lambda>_. audited) audited"
  proof (cases r)
    case None
    then show ?thesis using none by (auto intro: triple_of_keeps)
  next
    case (Some o1)
    then show ?thesis using some [of o1] by (auto intro: triple_conseq)
  qed
qed

lemma Pending_row:
  "Pending F runtime i d = (Inr (Some o1), d') \<Longrightarrow> tables d' = tables d \<and> o1 \<in> set (operations d)"
proof -
  assume "Pending F runtime i d = (Inr (Some o1), d')"
  note ok = ok_Pending [OF this]
  show ?thesis using ok first_row_Some [OF conjunct2 [OF ok, symmetric]] by simp
qed

lemma FindOperation_row:
  "FindOperation F i d = (Inr (Some o1), d') \<Longrightarrow> tables d' = tables d \<and> o1 \<in> set (operations d)"
proof -
  assume "FindOperation F i d = (Inr (Some o1), d')"
  then have "first_row op_ID (\<lambda>r. op_ID r = i) (operations d) = Some o1" "tables d' = tables d"
    by (simp_all add: FindOperation_def ok_query)
  then show ?thesis using first_row_Some by fast
qed

lemma triple_throw_agrees: "triple (agrees o1) (throw e) (\<lambda>_. audited) audited"
  by (rule triple_throw) (rule stored_audited)

lemma keeps_reconcileResource [keeps_rules]: "keeps audited (reconcileResource en i)"
  unfolding reconcileResource_def
  by (rule keeps_find_then [OF Pending_row]) (auto intro: keeps_rules triple_throw_agrees triple_reconcile)

lemma audited_forget [keeps_rules]:
  "keeps audited (modify (\<lambda>w. w\<lparr>createAttempts := f w\<rparr>))" "keeps audited (forgetAttempt i)"
  by (auto simp: keeps_def prog_defs audited_def forgetAttempt_def)

lemma keeps_intentWork [keeps_rules]: "keeps audited (intentWork en cx o1)"
  unfolding intentWork_def
  by (rule keeps_locked, rule keeps_find_then [OF FindOperation_row])
    (auto intro!: keeps_rules triple_throw_agrees triple_then_keeps [OF triple_reconcile])

lemma keeps_renewed [keeps_rules]: "keeps audited (renewedDeadline en entry s)"
  unfolding renewedDeadline_def by (intro keeps_rules)

lemma keeps_expireLocked [keeps_rules]:
  "keeps audited (stopExpired en i entry)" "keeps audited (expireLocked en i entry)"
  unfolding stopExpired_def expireLocked_def by (intro keeps_rules)+

lemma keeps_runWork [keeps_rules]: "keeps audited (runWork en cx j)"
  unfolding runWork_def by (cases j) (auto intro: keeps_rules)

lemma keeps_runJob [keeps_rules]: "keeps audited (runJob en cx key)"
  unfolding keeps_def
proof (intro allI impI)
  fix w assume w: "audited w"
  have "audited (snd (runWork en cx j w))" for j
    using w keeps_runWork by (simp add: keeps_def)
  then show "audited (snd (runJob en cx key w))"
    using w by (auto simp: runJob_def audited_def split: option.splits prod.splits sum.splits)
      (metis snd_conv)+
qed

lemma keeps_expire [keeps_rules]: "keeps audited (expire en i entry)"
  unfolding expire_def by (intro keeps_rules)

lemma keeps_boundary [keeps_rules]:
  "keeps audited (CreationFailed i)" "keeps audited (DiscardCreated en cx i)"
  "keeps audited (AdoptCreation en cx row)"
  unfolding CreationFailed_def DiscardCreated_def AdoptCreation_def by (intro keeps_rules)+

text \<open>Reconciliation only removes intents.\<close>

abbreviation opsWithin :: "operation set \<Rightarrow> db \<Rightarrow> bool" where
  "opsWithin S d \<equiv> set (operations d) \<subseteq> S"

lemma opsWithin_db [keeps_rules]:
  "keeps (opsWithin S) (query F f)"
  "keeps (opsWithin S) (updateSandboxes F p g)" "keeps (opsWithin S) (ClearOperation F o1)"
  "keeps (opsWithin S) m \<Longrightarrow> keeps (opsWithin S) (transaction F m)"
  "keeps (opsWithin S) (exec F (\<lambda>d. d\<lparr>sandboxes := h d\<rparr>))"
  "keeps (opsWithin S) (exec F (\<lambda>d. d\<lparr>commands := c d\<rparr>))"
  unfolding query_def updateSandboxes_def ClearOperation_def exec_def
  by (auto intro!: keeps_stmt keeps_transaction simp: tables_eq_iff)

lemma opsWithin_repo [keeps_rules]:
  "keeps (opsWithin S) (FindByNativeID F i)" "keeps (opsWithin S) (FindByID F b i)"
  "keeps (opsWithin S) (ValidateOperation F o1)" "keeps (opsWithin S) (FindByAttempt F runtime t)"
  "keeps (opsWithin S) (UpdatePorts F b i ports)"
  unfolding FindByNativeID_def FindByID_def ValidateOperation_def FindByAttempt_def UpdatePorts_def
    storedID_def
  by (intro keeps_rules)+

lemma opsWithin_settle [keeps_rules]:
  "keeps (opsWithin S) (CompleteOperation F o1 ports dl)" "keeps (opsWithin S) (DeleteSandbox F b i)"
  "keeps (opsWithin S) (DeleteOperation F o1)"
  unfolding CompleteOperation_def DeleteOperation_def DeleteSandbox_def DeleteCommandsBySandbox_def
    DeleteRow_def storedID_def FindByNativeID_def
  by (intro keeps_rules)+

definition opsIn :: "operation set \<Rightarrow> world \<Rightarrow> bool" where
  "opsIn S w \<longleftrightarrow> set (operations (wdb w)) \<subseteq> S"

lemma opsIn_repo [keeps_rules]: "keeps (opsWithin S) m \<Longrightarrow> keeps (opsIn S) (repo m)"
  by (rule keeps_repo [where D = "opsWithin S"]) (auto simp: opsIn_def)

lemma opsIn_same_db: "(\<And>w r w'. m w = (r, w') \<Longrightarrow> wdb w' = wdb w) \<Longrightarrow> keeps (opsIn S) m"
  unfolding keeps_def opsIn_def by (metis prod.collapse)

lemma opsIn_quiet: "quiet m \<Longrightarrow> keeps (opsIn S) m"
  by (rule keeps_quiet) (auto simp: opsIn_def)

lemmas opsIn_leaves [keeps_rules] =
  quiet_basic [THEN opsIn_quiet] quiet_timers [THEN opsIn_quiet]

lemma opsIn_native [keeps_rules]:
  "keeps (opsIn S) (ContainerInspect en i)" "keeps (opsIn S) (native_call en v i)"
  by (rule opsIn_same_db, auto dest: inspect_answer native_call_world)+

lemma keeps_case_pair [keeps_rules]:
  "(\<And>a b. keeps I (f a b)) \<Longrightarrow> keeps I (case p of (a, b) \<Rightarrow> f a b)"
  by (cases p) simp

lemma opsWithin_FindOperation [keeps_rules]: "keeps (opsWithin S) (FindOperation F i)"
  unfolding FindOperation_def by (intro keeps_rules)

lemma opsIn_steps [keeps_rules]:
  "keeps (opsIn S) (validateIntent o1)" "keeps (opsIn S) (resolveRef en o1)"
  "keeps (opsIn S) (observe en ref)" "keeps (opsIn S) (identify en o1 info)"
  "keeps (opsIn S) (tolerantCall en v i)" "keeps (opsIn S) (invalidateCache en i)"
  "keeps (opsIn S) (retryOperation en o1)"
  unfolding validateIntent_def resolveRef_def observe_def identify_def tolerantCall_def
    invalidateCache_def retryOperation_def Let_def
  by (intro keeps_rules; simp add: opsIn_def)+

lemma opsIn_reconcile [keeps_rules]: "keeps (opsIn S) (reconcile en o1)"
  unfolding reconcile_def settleIntent_def Let_def
  by (intro keeps_rules)

text \<open>Startup: the intents read first stay the only ones that carry their keys.\<close>

definition snapshot :: "operation list \<Rightarrow> operation set \<Rightarrow> bool" where
  "snapshot ops S \<longleftrightarrow> (\<forall>o1 \<in> set ops. \<forall>st \<in> S. op_ID st = op_ID o1 \<longrightarrow> st = o1)"

lemma snapshot_agrees:
  "snapshot ops S \<Longrightarrow> o1 \<in> set ops \<Longrightarrow> audited w \<Longrightarrow> opsIn S w \<Longrightarrow> agrees o1 w"
  by (auto simp: snapshot_def agrees_def opsIn_def)

lemma triple_snd: "triple P m (\<lambda>_. I) I \<Longrightarrow> P w \<Longrightarrow> I (snd (m w))"
  by (auto simp: triple_def split_beta split: sum.splits)

lemma keeps_conj: "keeps I m \<Longrightarrow> keeps J m \<Longrightarrow> keeps (\<lambda>w. I w \<and> J w) m"
  by (simp add: keeps_def)

abbreviation "recovering S \<equiv> \<lambda>w. audited w \<and> opsIn S w"

lemma keeps_reconcile_recovering:
  assumes "snapshot ops S" "o1 \<in> set ops"
  shows "keeps (recovering S) (reconcile en o1)"
proof -
  have "audited (snd (reconcile en o1 w))" if "audited w" "opsIn S w" for w
    by (rule triple_snd [OF triple_reconcile snapshot_agrees [OF assms that]])
  moreover have "opsIn S (snd (reconcile en o1 w))" if "opsIn S w" for w
    using opsIn_reconcile that by (simp add: keeps_def)
  ultimately show ?thesis by (simp add: keeps_def)
qed

lemma keeps_recovering:
  "keeps audited m \<Longrightarrow> keeps (opsIn S) m \<Longrightarrow> keeps (recovering S) m"
  by (simp add: keeps_def)

lemma keeps_registerIntents: "keeps (recovering S) (registerIntents en ops)"
proof (induction ops)
  case (Cons o1 ops)
  show ?case unfolding registerIntents.simps
    by (intro keeps_andThen Cons.IH; rule keeps_recovering; intro keeps_rules)
qed (simp add: keeps_rules)

lemma keeps_restoreDeadlines: "quiet (restoreDeadlines en rows)"
  by (induction rows) (auto intro!: quiet_rules)

lemma keeps_deferrable: "quiet (deferrable en warm e)"
  unfolding deferrable_def by (intro quiet_rules)

lemma keeps_warmIntents:
  "snapshot ops S \<Longrightarrow> keeps (recovering S) (warmIntents en warm ops)"
proof (induction ops)
  case (Cons o1 ops)
  have q: "keeps (recovering S) m" if "quiet m" for m :: "'c act"
    using audited_quiet [OF that] opsIn_quiet [OF that] by (rule keeps_recovering)
  have IH: "keeps (recovering S) (warmIntents en warm ops)"
    using Cons by (auto simp: snapshot_def)
  have rec: "keeps (recovering S) (reconcile en o1)"
    using keeps_reconcile_recovering [OF Cons.prems] by simp
  show ?case unfolding warmIntents.simps
    by (intro keeps_andThen keeps_if keeps_attempt keeps_case_sum IH rec q quiet_rules keeps_deferrable)
qed (simp add: keeps_rules)

lemma keeps_overdue [keeps_rules]: "keeps audited (overdue en row)"
  unfolding overdue_def by (intro keeps_rules)

lemma keeps_deferrable' [keeps_rules]: "keeps audited (deferrable en warm e)"
  by (rule audited_quiet [OF keeps_deferrable])

lemma keys_wf_Pending [keeps_rules]: "keeps audited (repo (Pending F runtime i))"
  by (intro keeps_rules)

lemma keeps_warmOverdue [keeps_rules]: "keeps audited (warmOverdue en warm rows)"
proof (induction rows)
  case (Cons row rows)
  then show ?case unfolding warmOverdue.simps by (intro keeps_rules)
qed (simp add: keeps_rules)

lemma Operations_rows:
  "Operations F runtime d = (Inr ops, d') \<Longrightarrow> tables d' = tables d \<and>
     set ops = {o1 \<in> set (operations d). op_RuntimeKind o1 = runtime}"
  by (auto simp: Operations_def ok_query tables_def)

lemma keeps_Recover [keeps_rules]: "keeps audited (Recover en cx warm)"
  unfolding Recover_def
proof (rule keeps_locked)
  let ?tail = "\<lambda>ops rows. andThen (registerIntents en ops) (\<lambda>_.
     andThen (restoreDeadlines en rows) (\<lambda>_.
     andThen (warmIntents en warm ops) (\<lambda>_.
     andThen (warmOverdue en warm rows) (\<lambda>_.
     andThen (ctxErr cx) (\<lambda>x. case x of None \<Rightarrow> ret () | Some e \<Rightarrow> throw e)))))"
  have q: "keeps (recovering S) m" if "quiet m" for m :: "'c act" and S
    using audited_quiet [OF that] opsIn_quiet [OF that] by (rule keeps_recovering)
  have aud: "triple (recovering S) m (\<lambda>_. audited) audited" if "keeps audited m" for m :: "'c act" and S
    using that by (rule triple_of_keeps) simp
  have k: "triple (recovering S) (andThen m f) (\<lambda>_. audited) audited"
    if "keeps (recovering S) m" "\<And>x. triple (recovering S) (f x) (\<lambda>_. audited) audited"
    for m :: "'c act" and f :: "'c \<Rightarrow> unit act" and S
    using that by (intro triple_andThen [where R = "\<lambda>_. recovering S"])
      (auto simp: keeps_triple intro: triple_conseq)
  have tail: "triple (recovering S) (?tail ops rows) (\<lambda>_. audited) audited" if "snapshot ops S" for S ops rows
    by (rule k [OF keeps_registerIntents], rule k [OF q [OF keeps_restoreDeadlines]],
        rule k [OF keeps_warmIntents [OF that]], rule aud, intro keeps_rules)
  have rows: "triple (recovering S) (andThen (repo (FindAll F True)) (?tail ops)) (\<lambda>_. audited) audited"
    if "snapshot ops S" for S ops F
    by (rule k [OF keeps_recovering tail [OF that]])
      (auto intro!: keeps_rules simp: FindAll_def)
  show "keeps audited (andThen (repo (Operations (en_F en) ''docker'')) (\<lambda>ops.
     andThen (repo (FindAll (en_F en) True)) (?tail ops)))"
    unfolding keeps_triple
  proof (rule triple_andThen)
    have ka: "keeps audited (repo (Operations (en_F en) ''docker''))" by (intro keeps_rules)
    show "triple audited (repo (Operations (en_F en) ''docker''))
        (\<lambda>ops w. audited w \<and> snapshot ops (set (operations (wdb w)))) audited"
    proof (rule tripleI)
      { fix w e w' assume "audited w" "repo (Operations (en_F en) ''docker'') w = (Inl e, w')"
        then show "audited w'" using keepsD [OF ka] by blast }
      fix w ops w' assume w: "audited w" "repo (Operations (en_F en) ''docker'') w = (Inr ops, w')"
      then have a: "audited w'" using keepsD [OF ka] by blast
      obtain d where d: "Operations (en_F en) ''docker'' (wdb w) = (Inr ops, d)" "w' = w\<lparr>wdb := d\<rparr>"
        using repo_Inr [OF w(2)] by blast
      have "snapshot ops (set (operations d))"
        using Operations_rows [OF d(1)] a d(2)
        by (auto simp: snapshot_def audited_def keys_wf_def distinct_map inj_on_def tables_eq_iff)
      then show "audited w' \<and> snapshot ops (set (operations (wdb w')))" using a d(2) by simp
    qed
    fix ops
    show "triple (\<lambda>w. audited w \<and> snapshot ops (set (operations (wdb w))))
        (andThen (repo (FindAll (en_F en) True)) (?tail ops)) (\<lambda>_. audited) audited"
      unfolding triple_def
    proof (intro allI impI)
      fix w assume w: "audited w \<and> snapshot ops (set (operations (wdb w)))"
      then have r: "recovering (set (operations (wdb w))) w" by (simp add: opsIn_def)
      show "case andThen (repo (FindAll (en_F en) True)) (?tail ops) w of
          (Inl e, s') \<Rightarrow> audited s' | (Inr x, s') \<Rightarrow> audited s'"
        by (rule rows [OF conjunct2 [OF w], unfolded triple_def, THEN spec, THEN mp, OF r])
    qed
  qed
qed

lemma keeps_stopForShutdown [keeps_rules]: "keeps audited (stopForShutdown en i)"
  unfolding stopForShutdown_def by (intro keeps_rules)

lemma keeps_shutdownTimers [keeps_rules]: "keeps audited (shutdownTimers en is)"
proof (induction "is")
  case (Cons i ids)
  then show ?case unfolding shutdownTimers.simps by (intro keeps_rules)
qed (simp add: keeps_rules)

lemma keeps_Shutdown [keeps_rules]: "keeps audited (Shutdown en cx)"
  unfolding Shutdown_def
  by (intro keeps_rules; simp add: audited_def stopQueue_def cancelCommands_def)

section \<open>Every run of the adapter\<close>

datatype request =
    RCreate ctx create_request | RStart ctx string | RStop ctx string | RRestart ctx string
  | RRemove ctx string | RPause ctx string | RResume ctx string | RRenew ctx string int
  | RAdopt ctx sandbox_row | RDiscard ctx string | RFailed string | RRecover ctx ctx
  | RExpire string timerEntry | RRetry ctx string | RShutdown ctx

definition effect :: "'a act \<Rightarrow> world \<Rightarrow> world" where
  "effect m w = snd (m w)"

fun handle :: "env \<Rightarrow> request \<Rightarrow> world \<Rightarrow> world" where
  "handle en (RCreate cx req) = effect (Create en cx req)"
| "handle en (RStart cx i) = effect (Start en cx i)"
| "handle en (RStop cx i) = effect (Stop en cx i)"
| "handle en (RRestart cx i) = effect (Restart en cx i)"
| "handle en (RRemove cx i) = effect (Remove en cx i)"
| "handle en (RPause cx i) = effect (Pause en cx i)"
| "handle en (RResume cx i) = effect (Resume en cx i)"
| "handle en (RRenew cx i t) = effect (RenewExpiration en cx i t)"
| "handle en (RAdopt cx row) = effect (AdoptCreation en cx row)"
| "handle en (RDiscard cx i) = effect (DiscardCreated en cx i)"
| "handle en (RFailed i) = effect (CreationFailed i)"
| "handle en (RRecover cx warm) = effect (Recover en cx warm)"
| "handle en (RExpire i entry) = effect (expire en i entry)"
| "handle en (RRetry cx key) = effect (runJob en cx key)"
| "handle en (RShutdown cx) = effect (Shutdown en cx)"

inductive reachable :: "env \<Rightarrow> world \<Rightarrow> bool" for en where
  boot: "calls w = [] \<Longrightarrow> keys_wf (wdb w) \<Longrightarrow> reachable en w"
| step: "reachable en w \<Longrightarrow> reachable en (handle en r w)"

lemma handle_audited: "audited w \<Longrightarrow> audited (handle en r w)"
  by (cases r) (auto simp: effect_def intro: keeps_rules [unfolded keeps_def, rule_format])


definition sample_world :: world where
  "sample_world = \<lparr>wdb = sample_db, calls = [], tick = 0, closing = False, timers = [], serial = 0,
     running = [], createAttempts = [], jobs = [], queueClosed = False, invalidated = []\<rparr>"

definition sample_container :: container where
  "sample_container = \<lparr>ct_ID = ''c1'', ct_Name = ''/keen-lamport'',
     ct_Config = Some \<lparr>cc_Image = ''img'', cc_Env = [], cc_Labels = [(ownerLabel, ''t1'')]\<rparr>,
     ct_State = Some \<lparr>st_Running = True, st_Paused = False, st_Restarting = False,
       st_Status = ''running'', st_StartedAt = [], st_FinishedAt = []\<rparr>,
     ct_Ports = Some [], ct_Memory = 0, ct_NanoCPUs = 0\<rparr>"

definition sample_env :: env where
  "sample_env = \<lparr>en_F = (\<lambda>_. None), en_image = (\<lambda>_ _. None),
     en_inspect = (\<lambda>_ _. Inr sample_container), en_create = (\<lambda>_ _. Inr ''c2''),
     en_act = (\<lambda>_ _ _. None), en_clock = (\<lambda>n. int n), en_token = (\<lambda>n. Itoa n),
     en_draw = (\<lambda>_ _ _. 5), en_fuel = 3, en_parsePort = ParsePort, en_portString = portString,
     en_invalidator = False\<rparr>"

lemma sample_boot: "reachable sample_env sample_world"
  by (rule boot) (simp_all add: sample_world_def sample_owners)

lemma sample_stop_calls:
  "map ev_verb (calls (handle sample_env (RStop Background ''c1'') sample_world)) =
     [VInspect, VInspect, VStop]"
  by (simp add: effect_def Stop_def stopLocked_def locked_def lockLifecycle_def ctxErr_def
      Background_def randText_def repo_def BeginOperation_def transaction_def stmt_def
      FindByNativeID_def Pending_def query_def insertOperation_def insert_stmt_def first_row_def
      pendingFor_def sample_world_def sample_db_def sample_row_def sample_env_def
      sample_container_def hasNativeID_def prog_defs checkOwnership_def ContainerInspect_def
      record_event_def labelled_def deref_def native_call_def settleStop_def CompleteOperation_def
      ValidateOperation_def FindByID_def updateSandboxes_def ClearOperation_def exec_def
      ownershipMismatch_def RuntimeID_def nstr_def cancelTimer_def cancelTimerLocked_def
      invalidateCache_def retryOperation_def FindOperation_def delete_rows_def remove_key_def Let_def)


end
