(* ===== verification/Docker_Tracking.thy ===== *)
theory Docker_Tracking
  imports Docker_Audit
begin

text \<open>
  No durable intent is forgotten: whatever fails, an intent that a handler leaves in the table
  is registered with the recovery queue, or is held for the service's adoption of a successful
  creation, or the adapter is shutting down (and the next start registers it).
\<close>

section \<open>Tracked intents\<close>

definition dockerIDs :: "db \<Rightarrow> string set" where
  "dockerIDs d = set (map op_ID (filter (\<lambda>o1. op_RuntimeKind o1 = ''docker'') (operations d)))"

definition registered :: "world \<Rightarrow> string set" where
  "registered w = {k. \<exists>o1. map_of (jobs w) k = Some (IntentJob o1)}"

definition untracked :: "world \<Rightarrow> string set" where
  "untracked w = dockerIDs (wdb w) - registered w"

text \<open>The keys of the two kinds of jobs, and of the adapter's intents, do not meet.\<close>

definition intentKey :: "string \<Rightarrow> bool" where
  "intentKey k \<longleftrightarrow> k \<noteq> [] \<and> hd k = CHR ''d''"

definition queue_wf :: "world \<Rightarrow> bool" where
  "queue_wf w \<longleftrightarrow> (\<forall>k j. map_of (jobs w) k = Some j \<longrightarrow>
     (case j of IntentJob o1 \<Rightarrow> k = op_ID o1 | TtlJob i entry \<Rightarrow> k = ttlKey i entry))"

definition ids_ok :: "db \<Rightarrow> bool" where
  "ids_ok d \<longleftrightarrow> (\<forall>k \<in> dockerIDs d. intentKey k)"

definition stopping :: "world \<Rightarrow> bool" where
  "stopping w \<longleftrightarrow> closing w \<or> queueClosed w"

definition tracks :: "string set \<Rightarrow> world \<Rightarrow> bool" where
  "tracks U w \<longleftrightarrow> stopping w \<or> (queue_wf w \<and> ids_ok (wdb w) \<and> untracked w \<subseteq> U)"

lemma intentKey_docker [simp]: "intentKey (''docker:'' @ x)" "intentKey (''docker'' @ '':'' @ x)"
  by (simp_all add: intentKey_def)

lemma ttl_not_intent [simp]: "\<not> intentKey (ttlKey i entry)"
  by (simp add: intentKey_def ttlKey_def)

lemma tracks_mono: "tracks U w \<Longrightarrow> U \<subseteq> V \<Longrightarrow> tracks V w"
  by (auto simp: tracks_def)

section \<open>Steps that change neither tables nor queue\<close>

definition calm :: "'a act \<Rightarrow> bool" where
  "calm m \<longleftrightarrow> (\<forall>w. wdb (snd (m w)) = wdb w \<and> jobs (snd (m w)) = jobs w \<and>
     closing (snd (m w)) = closing w \<and> queueClosed (snd (m w)) = queueClosed w)"

named_theorems calm_rules

lemma calm_basic [calm_rules]:
  "calm (ret x)" "calm (throw e)" "calm (reads f)" "calm (failIf b e)" "calm (now en)"
  "calm (randText en)" "calm (ctxErr cx)" "calm (ContainerInspect en i)" "calm (native_call en v i)"
  "calm (ImageInspect en i)" "calm (ContainerCreate en opts)"
  by (auto simp: calm_def prog_defs now_def randText_def ctxErr_def ContainerInspect_def
      native_call_def ImageInspect_def ContainerCreate_def record_event_def
      split: sum.split option.split)

lemma calm_modify [calm_rules]:
  "(\<And>w. wdb (f w) = wdb w \<and> jobs (f w) = jobs w \<and> closing (f w) = closing w \<and>
     queueClosed (f w) = queueClosed w) \<Longrightarrow> calm (modify f)"
  by (auto simp: calm_def prog_defs)

lemma calm_andThen [calm_rules]: "calm m \<Longrightarrow> (\<And>x. calm (f x)) \<Longrightarrow> calm (andThen m f)"
proof -
  assume m: "calm m" and f: "\<And>x. calm (f x)"
  show ?thesis unfolding calm_def
  proof
    fix w
    obtain r w1 where r: "m w = (r, w1)" by fastforce
    then have "wdb w1 = wdb w \<and> jobs w1 = jobs w \<and> closing w1 = closing w \<and> queueClosed w1 = queueClosed w"
      using m [unfolded calm_def, THEN spec, of w] by simp
    then show "wdb (snd (andThen m f w)) = wdb w \<and> jobs (snd (andThen m f w)) = jobs w \<and>
        closing (snd (andThen m f w)) = closing w \<and> queueClosed (snd (andThen m f w)) = queueClosed w"
      using r f [unfolded calm_def] by (cases r) (auto simp: prog_defs)
  qed
qed

lemma calm_cases [calm_rules]:
  "calm m \<Longrightarrow> calm n \<Longrightarrow> calm (if b then m else n)"
  "calm m \<Longrightarrow> (\<And>x. calm (f x)) \<Longrightarrow> calm (case y of None \<Rightarrow> m | Some x \<Rightarrow> f x)"
  by (auto split: option.split)

lemma calm_timers [calm_rules]:
  "calm (cancelTimer i)" "calm (scheduleDeadline i dl delay)" "calm (scheduleUntil en i dl)"
  "calm (clearCommands i)" "calm (lockLifecycle cx)" "calm (deref x)" "calm (validateIntent o1)"
  unfolding cancelTimer_def scheduleDeadline_def scheduleUntil_def clearCommands_def
    lockLifecycle_def cancelTimerLocked_def Let_def deref_def validateIntent_def
  by (intro calm_rules; simp)+

lemma tracks_same:
  "wdb w' = wdb w \<Longrightarrow> jobs w' = jobs w \<Longrightarrow> closing w' = closing w \<Longrightarrow> queueClosed w' = queueClosed w \<Longrightarrow>
     tracks U w' = tracks U w"
  by (simp add: tracks_def stopping_def queue_wf_def untracked_def registered_def)

lemma tracks_calm: "calm m \<Longrightarrow> keeps (tracks U) m"
  unfolding keeps_def calm_def by (metis tracks_same)

lemmas tracks_leaves [keeps_rules] =
  calm_basic [THEN tracks_calm] calm_timers [THEN tracks_calm]

section \<open>Repository calls that add no intent\<close>

abbreviation idsIn :: "string set \<Rightarrow> db \<Rightarrow> bool" where
  "idsIn S d \<equiv> dockerIDs d \<subseteq> S"

lemma dockerIDs_simps [simp]:
  "dockerIDs (bump d) = dockerIDs d" "dockerIDs (d\<lparr>sandboxes := s\<rparr>) = dockerIDs d"
  "dockerIDs (d\<lparr>commands := c\<rparr>) = dockerIDs d"
  by (simp_all add: dockerIDs_def)

lemma dockerIDs_tables: "tables d' = tables d \<Longrightarrow> dockerIDs d' = dockerIDs d"
  by (simp add: dockerIDs_def tables_eq_iff)

lemma dockerIDs_delete: "dockerIDs (d\<lparr>operations := delete_rows p (operations d)\<rparr>) \<subseteq> dockerIDs d"
  by (auto simp: dockerIDs_def)

lemma operation_table: "operations (d\<lparr>operations := xs\<rparr>) = xs"
  by simp

lemma dockerIDs_update:
  "(\<And>r. op_ID (g r) = op_ID r \<and> op_RuntimeKind (g r) = op_RuntimeKind r) \<Longrightarrow>
     dockerIDs (d\<lparr>operations := update_rows p g (operations d)\<rparr>) = dockerIDs d"
proof -
  assume g: "\<And>r. op_ID (g r) = op_ID r \<and> op_RuntimeKind (g r) = op_RuntimeKind r"
  have "map op_ID (filter (\<lambda>o1. op_RuntimeKind o1 = ''docker'') (update_rows p g xs)) =
      map op_ID (filter (\<lambda>o1. op_RuntimeKind o1 = ''docker'') xs)" for xs
    by (induction xs) (simp_all add: update_rows_def g)
  then show ?thesis by (simp only: dockerIDs_def operation_table)
qed

lemma idsIn_db [keeps_rules]:
  "keeps (idsIn S) (query F f)" "keeps (idsIn S) (updateSandboxes F p g)"
  "keeps (idsIn S) (ClearOperation F o1)"
  "keeps (idsIn S) m \<Longrightarrow> keeps (idsIn S) (transaction F m)"
  "keeps (idsIn S) (exec F (\<lambda>d. d\<lparr>sandboxes := h d\<rparr>))"
  "keeps (idsIn S) (exec F (\<lambda>d. d\<lparr>commands := c d\<rparr>))"
  "keeps (idsIn S) (exec F (\<lambda>d. d\<lparr>operations := delete_rows q (operations d)\<rparr>))"
  "keeps (idsIn S) (insertSandbox F s)"
proof -
  show "keeps (idsIn S) (query F f)" "keeps (idsIn S) (updateSandboxes F p g)"
      "keeps (idsIn S) (exec F (\<lambda>d. d\<lparr>sandboxes := h d\<rparr>))"
      "keeps (idsIn S) (exec F (\<lambda>d. d\<lparr>commands := c d\<rparr>))" "keeps (idsIn S) (insertSandbox F s)"
    unfolding query_def updateSandboxes_def exec_def insertSandbox_def insert_stmt_def
    by (rule keeps_stmt; simp)+
  show del: "keeps (idsIn S) (exec F (\<lambda>d. d\<lparr>operations := delete_rows q (operations d)\<rparr>))" for q
    unfolding exec_def
  proof (rule keeps_stmt)
    fix d assume "idsIn S d"
    then show "idsIn S (snd (Inr (), d\<lparr>operations := delete_rows q (operations d)\<rparr>))"
      using dockerIDs_delete [where d = d and p = q] by auto
  qed simp
  show "keeps (idsIn S) (ClearOperation F o1)" unfolding ClearOperation_def by (rule del)
  show "keeps (idsIn S) m \<Longrightarrow> keeps (idsIn S) (transaction F m)"
    by (rule keeps_transaction) (auto dest: dockerIDs_tables)
qed

lemma idsIn_updateOps [keeps_rules]:
  "(\<And>r. op_ID (g r) = op_ID r \<and> op_RuntimeKind (g r) = op_RuntimeKind r) \<Longrightarrow>
     keeps (idsIn S) (updateOps F p g)"
  unfolding updateOps_def exec_def by (rule keeps_stmt) (simp_all add: dockerIDs_update)

lemma idsIn_reads [keeps_rules]:
  "keeps (idsIn S) (FindByNativeID F i)" "keeps (idsIn S) (FindByID F b i)"
  "keeps (idsIn S) (ValidateOperation F o1)" "keeps (idsIn S) (FindByAttempt F runtime t)"
  "keeps (idsIn S) (UpdatePorts F b i ports)" "keeps (idsIn S) (Pending F runtime i)"
  "keeps (idsIn S) (RequireIdle F runtime i)" "keeps (idsIn S) (FindOperation F i)"
  "keeps (idsIn S) (FindByName F b n)" "keeps (idsIn S) (FindAll F b)"
  "keeps (idsIn S) (Operations F runtime)" "keeps (idsIn S) (CreateOwnership F s)"
  unfolding FindByNativeID_def FindByID_def ValidateOperation_def FindByAttempt_def UpdatePorts_def
    storedID_def Pending_def RequireIdle_def FindOperation_def FindByName_def FindAll_def
    Operations_def CreateOwnership_def
  by (intro keeps_rules)+

lemma idsIn_settle [keeps_rules]:
  "keeps (idsIn S) (CompleteOperation F o1 ports dl)" "keeps (idsIn S) (DeleteSandbox F b i)"
  "keeps (idsIn S) (DeleteOperation F o1)" "keeps (idsIn S) (SetDeadline F i runtime dl)"
  "keeps (idsIn S) (UpdateProvenance F row adopt)" "keeps (idsIn S) (BindCreation F o1 native)"
  "keeps (idsIn S) (CommitCreation F o1 row await)"
  unfolding CompleteOperation_def DeleteOperation_def DeleteSandbox_def DeleteCommandsBySandbox_def
    DeleteRow_def storedID_def SetDeadline_def UpdateProvenance_def BindCreation_def
    CommitCreation_def Let_def
  by (intro keeps_rules; simp)+

lemma tracks_repo [keeps_rules]:
  assumes "\<And>S. keeps (idsIn S) m"
  shows "keeps (tracks U) (repo m)"
  unfolding keeps_def
proof (intro allI impI)
  fix w assume t: "tracks U w"
  have "dockerIDs (snd (m (wdb w))) \<subseteq> dockerIDs (wdb w)"
    using assms [of "dockerIDs (wdb w)"] by (simp add: keeps_def)
  moreover have "snd (repo m w) = w\<lparr>wdb := snd (m (wdb w))\<rparr>"
    by (simp add: repo_def prog_defs split: prod.split)
  ultimately show "tracks U (snd (repo m w))"
    using t by (auto simp: tracks_def stopping_def queue_wf_def ids_ok_def untracked_def registered_def)
qed

lemma tracks_locked [keeps_rules]: "keeps (tracks U) m \<Longrightarrow> keeps (tracks U) (locked cx m)"
  unfolding locked_def by (intro keeps_rules)

section \<open>Registering an intent\<close>

lemma Schedule_intent:
  assumes "tracks (insert (op_ID o1) U) w"
  shows "tracks U (snd (queueOperation o1 w))"
proof (cases "stopping w")
  case True
  have "stopping (snd (queueOperation o1 w))"
    using True by (auto simp: queueOperation_def Schedule_def prog_defs stopping_def)
  then show ?thesis by (simp add: tracks_def)
next
  case False
  then have t: "queue_wf w" "ids_ok (wdb w)" "untracked w \<subseteq> insert (op_ID o1) U"
    using assms by (auto simp: tracks_def)
  show ?thesis
  proof (cases "map_of (jobs w) (op_ID o1)")
    case None
    let ?w = "w\<lparr>jobs := jobs w @ [(op_ID o1, IntentJob o1)]\<rparr>"
    have new: "map_of (jobs ?w) k = (if k = op_ID o1 then Some (IntentJob o1) else map_of (jobs w) k)" for k
      using None by (simp add: map_add_def split: option.split)
    have "registered ?w = insert (op_ID o1) (registered w)"
      unfolding registered_def new by auto
    then have "untracked ?w \<subseteq> U" using t(3) by (auto simp: untracked_def)
    moreover have "queue_wf ?w" using t(1) unfolding queue_wf_def new by simp
    moreover have "snd (queueOperation o1 w) = ?w"
      using False None by (simp add: queueOperation_def Schedule_def prog_defs stopping_def)
    ultimately show ?thesis using t(2) by (simp add: tracks_def)
  next
    case (Some j)
    then have same: "snd (queueOperation o1 w) = w"
      using False by (simp add: queueOperation_def Schedule_def prog_defs stopping_def)
    have "op_ID o1 \<notin> untracked w"
    proof (cases j)
      case (IntentJob o2)
      then show ?thesis using Some by (auto simp: untracked_def registered_def)
    next
      case (TtlJob i entry)
      then have "op_ID o1 = ttlKey i entry"
        using t(1) Some unfolding queue_wf_def by fastforce
      then have "\<not> intentKey (op_ID o1)" by simp
      then have "op_ID o1 \<notin> dockerIDs (wdb w)" using t(2) by (auto simp: ids_ok_def)
      then show ?thesis by (simp add: untracked_def)
    qed
    then show ?thesis using t same by (auto simp: tracks_def)
  qed
qed

lemma keeps_queueOperation [keeps_rules]: "keeps (tracks U) (queueOperation o1)"
  unfolding keeps_def using Schedule_intent tracks_mono by blast

lemma keeps_retry_tracks [keeps_rules]: "keeps (tracks U) (retryOperation en o1)"
  unfolding retryOperation_def by (intro keeps_rules)

text \<open>\<open>retryOperation\<close> returns without registering only when the intent is not stored.\<close>

lemma retry_tracks: "tracks (insert (op_ID o1) U) w \<Longrightarrow> tracks U (snd (retryOperation en o1 w))"
proof -
  assume t: "tracks (insert (op_ID o1) U) w"
  show ?thesis
  proof (cases "closing w")
    case True
    then show ?thesis by (simp add: retryOperation_def prog_defs tracks_def stopping_def)
  next
    case False
    obtain r w1 where r: "repo (FindOperation (en_F en) (op_ID o1)) w = (r, w1)" by fastforce
    have k: "keeps (tracks (insert (op_ID o1) U)) (repo (FindOperation (en_F en) (op_ID o1)))"
      by (intro keeps_rules)
    have t1: "tracks (insert (op_ID o1) U) w1"
      using k t r by (rule keepsD)
    show ?thesis
    proof (cases "r = Inr None")
      case True
      then obtain d where d: "FindOperation (en_F en) (op_ID o1) (wdb w) = (Inr None, d)"
        and w1: "w1 = w\<lparr>wdb := d\<rparr>" using repo_Inr [OF r [unfolded True]] by blast
      have "op_ID o1 \<notin> dockerIDs (wdb w1)"
      proof -
        have "first_row op_ID (\<lambda>x. op_ID x = op_ID o1) (operations (wdb w)) = None"
          "operations d = operations (wdb w)"
          using d by (simp_all add: FindOperation_def ok_query)
        then show ?thesis using w1 by (auto simp: first_row_None dockerIDs_def)
      qed
      then have "op_ID o1 \<notin> untracked w1" by (simp add: untracked_def)
      then have "tracks U w1" using t1 by (auto simp: tracks_def)
      then show ?thesis using r True False by (simp add: retryOperation_def prog_defs)
    next
      case no: False
      let ?m = "andThen (reads (getTimerEntry (op_NativeID o1))) (\<lambda>entry.
        andThen
       (case op_Deadline o1 of
          Some dl \<Rightarrow>
            if op_Kind o1 \<noteq> ''create'' \<and> entry = None
            then andThen (now en) (\<lambda>t.
              scheduleDeadline (op_NativeID o1) dl (max (dl - t) RecoveryRetryDelay))
            else ret ()
        | None \<Rightarrow> ret ())
       (\<lambda>_. queueOperation o1))"
      have "snd (retryOperation en o1 w) = snd (?m w1)"
        using r no False by (simp add: retryOperation_def prog_defs)
      moreover obtain e w2 where "snd (?m w1) = snd (queueOperation o1 w2)"
        "tracks (insert (op_ID o1) U) w2" 
      proof -
        let ?t = "andThen (reads (getTimerEntry (op_NativeID o1))) (\<lambda>entry.
           case op_Deadline o1 of
          Some dl \<Rightarrow>
            if op_Kind o1 \<noteq> ''create'' \<and> entry = None
            then andThen (now en) (\<lambda>t.
              scheduleDeadline (op_NativeID o1) dl (max (dl - t) RecoveryRetryDelay))
            else ret ()
        | None \<Rightarrow> ret ())"
        have k: "keeps (tracks (insert (op_ID o1) U)) ?t" by (intro keeps_rules)
        have ok: "\<exists>w2. ?t w1 = (Inr (), w2)"
          by (auto simp: prog_defs now_def scheduleDeadline_def Let_def split: option.split)
        then obtain w2 where w2: "?t w1 = (Inr (), w2)" by blast
        have "?m w1 = queueOperation o1 w2"
          using w2 by (auto simp: prog_defs split: prod.splits sum.splits)
        then show thesis using that keepsD [OF k t1 w2] by metis
      qed
      ultimately show ?thesis using Schedule_intent by simp
    qed
  qed
qed

section \<open>Beginning an operation\<close>

lemma tracks_shrink:
  "tracks U w \<Longrightarrow> dockerIDs d \<subseteq> dockerIDs (wdb w) \<Longrightarrow> tracks U (w\<lparr>wdb := d\<rparr>)"
  by (auto simp: tracks_def stopping_def queue_wf_def ids_ok_def untracked_def registered_def)

lemma tracks_insert:
  "tracks U w \<Longrightarrow> intentKey k \<Longrightarrow> dockerIDs d \<subseteq> insert k (dockerIDs (wdb w)) \<Longrightarrow>
     tracks (insert k U) (w\<lparr>wdb := d\<rparr>)"
  by (auto simp: tracks_def stopping_def queue_wf_def ids_ok_def untracked_def registered_def)

lemma begun_ids:
  assumes "begun rnd ''docker'' native kind dl row ops o1 ops'" "operations d = ops" "operations d' = ops'"
  shows "dockerIDs d' \<subseteq> dockerIDs d \<or> (intentKey (op_ID o1) \<and> dockerIDs d' \<subseteq> insert (op_ID o1) (dockerIDs d))"
proof (cases "first_row op_ID (pendingFor ''docker'' native (Some row)) ops")
  case None
  then have "ops' = ops @ [o1]" "op_ID o1 = ''docker'' @ '':'' @ rnd"
    using assms(1) by (auto simp: begun_def freshIntent_def)
  then show ?thesis using assms(2,3) intentKey_docker(2) [of rnd]
    by (auto simp: dockerIDs_def simp del: append.simps)
next
  case (Some p)
  then consider "ops' = ops"
    | "ops' = update_rows (\<lambda>r. op_ID r = op_ID p) (asDelete native row) ops"
    using assms(1) by (auto simp: begun_def)
  then show ?thesis
  proof cases
    case 2
    have "dockerIDs (d\<lparr>operations := update_rows (\<lambda>r. op_ID r = op_ID p) (asDelete native row)
        (operations d)\<rparr>) = dockerIDs d"
      by (rule dockerIDs_update) (simp add: asDelete_def)
    then show ?thesis using 2 assms(2,3) by (simp add: dockerIDs_def)
  qed (use assms in \<open>simp add: dockerIDs_def\<close>)
qed

lemma triple_begin_tracks:
  "triple (tracks U) (repo (BeginOperation F rnd ''docker'' i kind dl))
     (\<lambda>o1. tracks (insert (op_ID o1) U)) (tracks U)"
proof (rule tripleI)
  fix w e w' assume t: "tracks U w" "repo (BeginOperation F rnd ''docker'' i kind dl) w = (Inl e, w')"
  obtain d where d: "BeginOperation F rnd ''docker'' i kind dl (wdb w) = (Inl e, d)" "w' = w\<lparr>wdb := d\<rparr>"
    using repo_Inl [OF t(2)] by blast
  have "tables d = tables (wdb w)" using d(1) by (auto simp: BeginOperation_def dest: transaction_atomic)
  then show "tracks U w'" using t(1) d(2) dockerIDs_tables tracks_shrink by blast
next
  fix w o1 w' assume t: "tracks U w" "repo (BeginOperation F rnd ''docker'' i kind dl) w = (Inr o1, w')"
  obtain d where d: "BeginOperation F rnd ''docker'' i kind dl (wdb w) = (Inr o1, d)" "w' = w\<lparr>wdb := d\<rparr>"
    using repo_Inr [OF t(2)] by blast
  obtain row where b: "begun rnd ''docker'' i kind dl row (operations (wdb w)) o1 (operations d)"
    using ok_BeginOperation [OF d(1)] by blast
  from begun_ids [OF b refl refl] show "tracks (insert (op_ID o1) U) w'"
  proof
    assume "dockerIDs d \<subseteq> dockerIDs (wdb w)"
    then have "tracks U w'" using t(1) d(2) by (simp add: tracks_shrink)
    then show ?thesis by (rule tracks_mono) blast
  next
    assume "intentKey (op_ID o1) \<and> dockerIDs d \<subseteq> insert (op_ID o1) (dockerIDs (wdb w))"
    then show ?thesis using tracks_insert [OF t(1)] d(2) by simp
  qed
qed

text \<open>What is begun and then deferred to \<open>retryOperation\<close> leaves nothing untracked.\<close>

lemma keeps_begun:
  assumes "\<And>V o1. keeps (tracks V) (f o1)"
  shows "keeps (tracks U) (andThen (repo (BeginOperation F rnd ''docker'' i kind dl))
     (\<lambda>o1. finallyDo (f o1) (retryOperation en o1)))"
  unfolding keeps_triple
proof (rule triple_andThen [OF triple_begin_tracks])
  fix o1
  have r: "triple (tracks (insert (op_ID o1) U)) (retryOperation en o1) (\<lambda>_. tracks U) (tracks U)"
    using retry_tracks by (auto intro!: tripleI) (metis snd_conv)+
  show "triple (tracks (insert (op_ID o1) U)) (finallyDo (f o1) (retryOperation en o1))
      (\<lambda>_. tracks U) (tracks U)"
    by (rule triple_finally [OF assms [unfolded keeps_triple] r r])
qed

lemma tracks_invalidate [keeps_rules]: "keeps (tracks U) (invalidateCache en i)"
proof -
  have "tracks U (w\<lparr>invalidated := x\<rparr>) = tracks U w" for w x
    by (rule tracks_same) simp_all
  then show ?thesis unfolding invalidateCache_def by (intro keeps_rules; simp)
qed

lemma tracks_forget [keeps_rules]:
  "keeps (tracks U) (modify (\<lambda>w. w\<lparr>createAttempts := f w\<rparr>))" "keeps (tracks U) (forgetAttempt i)"
  unfolding forgetAttempt_def by (intro tracks_calm calm_rules; simp)+

lemma tracks_parts [keeps_rules]:
  "keeps (tracks U) (checkOwnership en o1)" "keeps (tracks U) (finishStart en o1 i dl status)"
  "keeps (tracks U) (settleStop en o1 i e)" "keeps (tracks U) (ImageExists en img)"
  unfolding checkOwnership_def finishStart_def settleStop_def ImageExists_def Let_def
  by (intro keeps_rules)+

lemma tracks_stopLocked [keeps_rules]: "keeps (tracks U) (stopLocked en i)"
  unfolding stopLocked_def
  by (rule keeps_andThen [OF tracks_leaves(6)], rule keeps_begun, intro keeps_rules)

lemma tracks_handlers [keeps_rules]:
  "keeps (tracks U) (Start en cx i)" "keeps (tracks U) (Restart en cx i)"
  "keeps (tracks U) (Stop en cx i)" "keeps (tracks U) (Remove en cx i)"
  "keeps (tracks U) (Pause en cx i)" "keeps (tracks U) (Resume en cx i)"
  "keeps (tracks U) (RenewExpiration en cx i t)"
proof -
  show "keeps (tracks U) (Start en cx i)"
    unfolding Start_def Let_def
    by (rule tracks_locked keeps_andThen keeps_mapErr tracks_leaves keeps_if keeps_throw keeps_begun |
        intro keeps_rules)+
  show "keeps (tracks U) (Restart en cx i)" "keeps (tracks U) (Remove en cx i)"
    unfolding Restart_def Remove_def Let_def
    by (rule tracks_locked keeps_andThen [OF tracks_leaves(5)] keeps_andThen [OF tracks_leaves(6)]
        keeps_begun | intro keeps_rules)+
  show "keeps (tracks U) (Stop en cx i)" "keeps (tracks U) (Pause en cx i)"
    "keeps (tracks U) (Resume en cx i)" "keeps (tracks U) (RenewExpiration en cx i t)"
    unfolding Stop_def Pause_def Resume_def RenewExpiration_def Let_def by (intro keeps_rules)+
qed

section \<open>Reconciliation and jobs\<close>

lemma tracks_reconcile [keeps_rules]:
  "keeps (tracks U) (resolveRef en o1)" "keeps (tracks U) (observe en ref)"
  "keeps (tracks U) (identify en o1 info)" "keeps (tracks U) (tolerantCall en v i)"
  unfolding resolveRef_def observe_def identify_def tolerantCall_def Let_def
  by (intro keeps_rules)+

lemma tracks_reconcile_whole [keeps_rules]: "keeps (tracks U) (reconcile en o1)"
  unfolding reconcile_def settleIntent_def Let_def by (intro keeps_rules)

lemma tracks_reconcileResource [keeps_rules]: "keeps (tracks U) (reconcileResource en i)"
  unfolding reconcileResource_def by (intro keeps_rules)

lemma tracks_intentWork [keeps_rules]: "keeps (tracks U) (intentWork en cx o1)"
  unfolding intentWork_def by (intro keeps_rules)

lemma tracks_expireLocked [keeps_rules]: "keeps (tracks U) (expireLocked en i entry)"
  unfolding expireLocked_def stopExpired_def renewedDeadline_def by (intro keeps_rules)

text \<open>A settled intent is no longer stored.\<close>

definition gone :: "string \<Rightarrow> world \<Rightarrow> bool" where
  "gone k w \<longleftrightarrow> k \<notin> op_ID ` set (operations (wdb w))"

lemma gone_calm: "calm m \<Longrightarrow> keeps (gone k) m"
  unfolding keeps_def calm_def gone_def by metis

lemma opsWithin_gone:
  assumes "\<And>S. keeps (opsWithin S) m" shows "keeps (gone k) (repo m)"
  unfolding keeps_def gone_def
proof (intro allI impI)
  fix w :: world assume "k \<notin> op_ID ` set (operations (wdb w))"
  moreover have "set (operations (snd (m (wdb w)))) \<subseteq> set (operations (wdb w))"
    using assms [of "set (operations (wdb w))"] by (simp add: keeps_def)
  ultimately show "k \<notin> op_ID ` set (operations (wdb (snd (repo m w))))"
    by (auto simp: repo_def prog_defs split: prod.split)
qed

lemma gone_invalidate: "keeps (gone k) (invalidateCache en i)"
proof -
  have "keeps (gone k) (repo (FindByID F b i))" for F b
    by (rule opsWithin_gone) (intro keeps_rules)
  then show ?thesis unfolding invalidateCache_def
    by (intro keeps_if keeps_andThen keeps_attempt keeps_case_sum keeps_case_option keeps_ret
        keeps_modify; simp add: gone_def)
qed

lemma CompleteOperation_gone:
  "repo (CompleteOperation F o1 ports dl) w = (Inr x, w') \<Longrightarrow> gone (op_ID o1) w'"
proof -
  assume a: "repo (CompleteOperation F o1 ports dl) w = (Inr x, w')"
  obtain d where d: "CompleteOperation F o1 ports dl (wdb w) = (Inr x, d)" "w' = w\<lparr>wdb := d\<rparr>"
    using repo_Inr [OF a] by blast
  have "\<exists>xs. operations d = delete_rows (\<lambda>r. op_ID r = op_ID o1) xs"
    by (rule ok_CompleteOperation_steps [OF d(1)]) (auto simp: tables_def)
  then show ?thesis using d(2) by (auto simp: gone_def)
qed

lemma DeleteOperation_gone:
  "repo (DeleteOperation F o1) w = (Inr x, w') \<Longrightarrow> gone (op_ID o1) w'"
proof -
  assume a: "repo (DeleteOperation F o1) w = (Inr x, w')"
  obtain d where d: "DeleteOperation F o1 (wdb w) = (Inr x, d)" "w' = w\<lparr>wdb := d\<rparr>"
    using repo_Inr [OF a] by blast
  obtain d1 d2 where "ClearOperation F o1 d1 = (Inr x, d2)" "tables d = tables d2"
    using d(1) unfolding DeleteOperation_def by (elim transaction_okE) (simp add: ok_andThen; blast)
  then show ?thesis using d(2) by (auto simp: gone_def tables_def dest!: ok_ClearOperation)
qed

lemma settle_gone: "settleIntent en o1 seen w = (Inr x, w') \<Longrightarrow> gone (op_ID o1) w'"
proof -
  assume ok: "settleIntent en o1 seen w = (Inr x, w')"
  have inv: "gone k w2" if "invalidateCache en i w1 = (r, w2)" "gone k w1" for k i r w1 w2
    using keepsD [OF gone_invalidate that(2,1)] .
  have can: "gone k w2" if "cancelTimer i w1 = (r, w2)" "gone k w1" for k i r w1 w2
    using keepsD [OF gone_calm [OF calm_timers(1)] that(2,1)] .
  have sch: "gone k w2" if "scheduleUntil en i dl w1 = (r, w2)" "gone k w1" for k i dl r w1 w2
    using keepsD [OF gone_calm [OF calm_timers(3)] that(2,1)] .
  show ?thesis
    using ok unfolding settleIntent_def Let_def
    by (auto simp: ok_andThen ok_throw split: if_splits option.splits
        dest: CompleteOperation_gone DeleteOperation_gone inv can sch)
qed

lemma reconcile_gone: "reconcile en o1 w = (Inr x, w') \<Longrightarrow> gone (op_ID o1) w'"
proof -
  assume ok: "reconcile en o1 w = (Inr x, w')"
  obtain o2 ref w1 w2 where r: "resolveRef en o1 w1 = (Inr (o2, ref), w2)"
    and rest: "\<exists>seen w3. observe en ref w2 = (Inr seen, w3) \<and>
      (case seen of None \<Rightarrow> settleIntent en o2 None
       | Some info \<Rightarrow> andThen (identify en o2 info) (\<lambda>(o3, st). settleIntent en o3 (Some (info, st)))) w3
      = (Inr x, w')"
    using ok unfolding reconcile_def by (auto simp: ok_andThen ok_throw split: if_splits prod.splits)
  have id2: "op_ID o2 = op_ID o1"
    using r by (auto simp: resolveRef_def ok_simps split: if_splits option.splits)
  obtain seen w3 where s: "(case seen of None \<Rightarrow> settleIntent en o2 None
       | Some info \<Rightarrow> andThen (identify en o2 info) (\<lambda>(o3, st). settleIntent en o3 (Some (info, st)))) w3
      = (Inr x, w')" using rest by blast
  show ?thesis
  proof (cases seen)
    case None
    then have "settleIntent en o2 None w3 = (Inr x, w')" using s by simp
    from settle_gone [OF this] show ?thesis using id2 by simp
  next
    case (Some info)
    then obtain o3 st w4 where i: "identify en o2 info w3 = (Inr (o3, st), w4)"
      and f: "settleIntent en o3 (Some (info, st)) w4 = (Inr x, w')"
      using s by (auto simp: ok_andThen)
    show ?thesis using settle_gone [OF f] ok_identify [OF i] id2 by simp
  qed
qed

lemma intentWork_gone: "intentWork en cx o1 w = (Inr x, w') \<Longrightarrow> gone (op_ID o1) w'"
proof -
  assume ok: "intentWork en cx o1 w = (Inr x, w')"
  obtain w1 current w2 where f: "repo (FindOperation (en_F en) (op_ID o1)) w1 = (Inr current, w2)"
    and rest: "(case current of
       None \<Rightarrow> ret ()
     | Some cur \<Rightarrow>
         if op_RuntimeKind cur \<noteq> op_RuntimeKind o1 \<or> op_Token cur \<noteq> op_Token o1
         then throw (Msg ''recovery attempt identity changed'')
         else andThen (reconcile en cur) (\<lambda>_.
           if op_Kind cur = ''create'' \<or> op_Kind cur = ''delete''
           then modify (\<lambda>w. w\<lparr>createAttempts := remove_key (op_NativeID cur) (createAttempts w)\<rparr>)
           else ret ())) w2 = (Inr x, w')"
    using ok unfolding intentWork_def locked_def by (simp only: ok_andThen) blast
  obtain d where d: "FindOperation (en_F en) (op_ID o1) (wdb w1) = (Inr current, d)" "w2 = w1\<lparr>wdb := d\<rparr>"
    using repo_Inr [OF f] by blast
  have fr: "first_row op_ID (\<lambda>y. op_ID y = op_ID o1) (operations (wdb w1)) = current"
    "operations d = operations (wdb w1)" using d(1) by (simp_all add: FindOperation_def ok_query)
  show ?thesis
  proof (cases current)
    case None
    then show ?thesis using rest fr d(2) by (auto simp: ok_ret gone_def first_row_None)
  next
    case (Some cur)
    then have "op_ID cur = op_ID o1" using first_row_Some [OF fr(1) [unfolded Some]] by simp
    moreover obtain w3 y where "reconcile en cur w2 = (Inr y, w3)" "wdb w' = wdb w3"
      using rest Some by (auto simp: ok_simps split: if_splits)
    ultimately show ?thesis using reconcile_gone by (metis gone_def)
  qed
qed

lemma tracks_remove:
  assumes t: "tracks U w" and k: "\<not> intentKey k \<or> gone k w"
  shows "tracks U (w\<lparr>jobs := remove_key k (jobs w)\<rparr>)"
proof -
  let ?w = "w\<lparr>jobs := remove_key k (jobs w)\<rparr>"
  have r: "registered ?w = registered w - {k}" by (auto simp: registered_def)
  have "ids_ok (wdb w) \<Longrightarrow> untracked ?w \<subseteq> untracked w"
    using k unfolding untracked_def r by (auto simp: gone_def dockerIDs_def ids_ok_def)
  moreover have "queue_wf w \<Longrightarrow> queue_wf ?w" by (auto simp: queue_wf_def)
  ultimately show ?thesis using t by (auto simp: tracks_def stopping_def)
qed

lemma tracks_Schedule_ttl: "keeps (tracks U) (Schedule (ttlKey i entry) (TtlJob i entry))"
  unfolding keeps_def
proof (intro allI impI)
  fix w assume t: "tracks U w"
  show "tracks U (snd (Schedule (ttlKey i entry) (TtlJob i entry) w))"
  proof (cases "queueClosed w \<or> map_of (jobs w) (ttlKey i entry) \<noteq> None")
    case True
    then show ?thesis using t by (auto simp: Schedule_def prog_defs)
  next
    case False
    let ?w = "w\<lparr>jobs := jobs w @ [(ttlKey i entry, TtlJob i entry)]\<rparr>"
    have new: "map_of (jobs ?w) k = (if k = ttlKey i entry then Some (TtlJob i entry) else map_of (jobs w) k)" for k
      using False by (simp add: map_add_def split: option.split)
    have "registered ?w = registered w" unfolding registered_def new using False by auto
    moreover have "queue_wf w \<Longrightarrow> queue_wf ?w" unfolding queue_wf_def new by simp
    ultimately have "tracks U ?w" using t by (auto simp: tracks_def stopping_def untracked_def)
    then show ?thesis using False by (simp add: Schedule_def prog_defs)
  qed
qed

lemma queue_wfD:
  "queue_wf w \<Longrightarrow> map_of (jobs w) k = Some j \<Longrightarrow>
     (case j of IntentJob o1 \<Rightarrow> k = op_ID o1 | TtlJob i entry \<Rightarrow> k = ttlKey i entry)"
  by (simp add: queue_wf_def)

lemma runJob_tracks:
  assumes t: "tracks U w" shows "tracks U (snd (runJob en cx key w))"
proof (cases "queueClosed w \<or> map_of (jobs w) key = None")
  case True
  then show ?thesis using t by (auto simp: runJob_def)
next
  case False
  then obtain j where j: "map_of (jobs w) key = Some j" and open': "\<not> queueClosed w" by auto
  obtain r w1 where r: "runWork en cx j w = (r, w1)" by fastforce
  have k: "keeps (tracks U) (runWork en cx j)"
    unfolding runWork_def by (cases j) (simp_all add: keeps_rules)
  have t1: "tracks U w1" by (rule keepsD [OF k t r])
  show ?thesis
  proof (cases r)
    case (Inl e)
    then show ?thesis using t1 r j open' by (simp add: runJob_def)
  next
    case (Inr u)
    have "\<not> closing w" using r Inr
      by (cases j) (auto simp: runWork_def intentWork_def locked_def lockLifecycle_def ok_simps ctxErr_def
          split: option.splits)
    then have wf: "queue_wf w" using t open' by (simp add: tracks_def stopping_def)
    have "\<not> intentKey key \<or> gone key w1"
    proof (cases j)
      case (IntentJob o1)
      then have "key = op_ID o1" using queue_wfD [OF wf j] by simp
      then show ?thesis using r Inr IntentJob intentWork_gone [of en cx o1 w u w1]
        by (simp add: runWork_def)
    next
      case (TtlJob i entry)
      then have "key = ttlKey i entry" using queue_wfD [OF wf j] by simp
      then show ?thesis by simp
    qed
    then show ?thesis using tracks_remove [OF t1] t1 r j open' Inr by (simp add: runJob_def)
  qed
qed

lemma tracks_runJob [keeps_rules]: "keeps (tracks U) (runJob en cx key)"
  by (simp add: keeps_def runJob_tracks)

lemma tracks_expire [keeps_rules]: "keeps (tracks U) (expire en i entry)"
  unfolding expire_def by (intro keeps_rules tracks_Schedule_ttl)

lemma tracks_boundary [keeps_rules]:
  "keeps (tracks U) (CreationFailed i)" "keeps (tracks U) (DiscardCreated en cx i)"
  "keeps (tracks U) (AdoptCreation en cx row)"
  unfolding CreationFailed_def DiscardCreated_def AdoptCreation_def by (intro keeps_rules)+

lemma tracks_Shutdown [keeps_rules]: "keeps (tracks U) (Shutdown en cx)"
proof -
  have stop: "keeps (tracks U) (stopForShutdown en i)" for i
    unfolding stopForShutdown_def by (intro keeps_rules)
  have timers: "keeps (tracks U) (shutdownTimers en ids)" for ids
  proof (induction ids)
    case (Cons i ids)
    then show ?case unfolding shutdownTimers.simps by (intro keeps_rules stop)
  qed (simp add: keeps_rules)
  show ?thesis unfolding Shutdown_def
    by (intro keeps_andThen keeps_attempt keeps_modify keeps_ret keeps_reads tracks_locked timers)
      (auto simp: tracks_def stopping_def stopQueue_def cancelCommands_def queue_wf_def
        untracked_def registered_def)
qed

lemma tracks_warm [keeps_rules]:
  "keeps (tracks U) (deferrable en warm e)" "keeps (tracks U) (overdue en row)"
  unfolding deferrable_def overdue_def by (intro keeps_rules)+

lemma tracks_loops [keeps_rules]:
  "keeps (tracks U) (restoreDeadlines en rows)" "keeps (tracks U) (warmIntents en warm ops)"
  "keeps (tracks U) (warmOverdue en warm rows)" "keeps (tracks U) (registerIntents en ops)"
proof -
  show "keeps (tracks U) (restoreDeadlines en rows)"
    by (induction rows) (auto intro!: keeps_rules)
  show "keeps (tracks U) (warmOverdue en warm rows)"
    by (induction rows) (simp_all only: warmOverdue.simps, (intro keeps_rules | assumption)+)
  show "keeps (tracks U) (warmIntents en warm ops)"
    by (induction ops) (simp_all only: warmIntents.simps, (intro keeps_rules | assumption)+)
  show "keeps (tracks U) (registerIntents en ops)"
    by (induction ops) (simp_all only: registerIntents.simps, (intro keeps_rules | assumption)+)
qed

lemma tracks_Recover [keeps_rules]: "keeps (tracks U) (Recover en cx warm)"
  unfolding Recover_def by (intro keeps_rules)

section \<open>Creation\<close>

definition awaiting :: "world \<Rightarrow> string set" where
  "awaiting w = set (map (\<lambda>(_, o1). op_ID o1) (createAttempts w))"

text \<open>Either settled or held until the service adopts the creation.\<close>

definition settled :: "string \<Rightarrow> string set \<Rightarrow> world \<Rightarrow> bool" where
  "settled k U w \<longleftrightarrow> tracks (insert k U) w \<and> (gone k w \<or> k \<in> awaiting w)"

lemma settled_tracks: "settled k U w \<Longrightarrow> tracks (U \<union> awaiting w) w"
  by (auto simp: settled_def tracks_def untracked_def gone_def dockerIDs_def)

lemma settled_schedule: "triple (settled k U) (scheduleUntil en i dl) (\<lambda>_. settled k U) E"
proof (rule tripleI)
  fix w x w' assume w: "settled k U w" "scheduleUntil en i dl w = (Inr x, w')"
  then have "tracks (insert k U) w'"
    using keepsD [OF tracks_leaves(14)] by (auto simp: settled_def)
  moreover have "wdb w' = wdb w" "createAttempts w' = createAttempts w"
    using w(2) by (auto simp: scheduleUntil_def scheduleDeadline_def now_def prog_defs Let_def
        cancelTimerLocked_def)
  ultimately show "settled k U w'" using w(1) by (simp add: settled_def gone_def awaiting_def)
qed (auto simp: no_error)

lemma CommitCreation_gone:
  "repo (CommitCreation F o1 row False) w = (Inr x, w') \<Longrightarrow> gone (op_ID o1) w'"
proof -
  assume a: "repo (CommitCreation F o1 row False) w = (Inr x, w')"
  obtain d where d: "CommitCreation F o1 row False (wdb w) = (Inr x, d)" "w' = w\<lparr>wdb := d\<rparr>"
    using repo_Inr [OF a] by blast
  obtain d1 d2 where "ClearOperation F o1 d1 = (Inr x, d2)" "tables d = tables d2"
    using d(1) unfolding CommitCreation_def by (elim transaction_okE) (auto simp: ok_andThen)
  then show ?thesis using d(2) by (auto simp: gone_def tables_def dest!: ok_ClearOperation)
qed

lemma commitCreate_tracks:
  "triple (tracks (insert (op_ID o1) U)) (commitCreate en cx req o1 native name mainPort deadline)
     (\<lambda>_ w. tracks (U \<union> awaiting w) w) (tracks (insert (op_ID o1) U))"
proof -
  let ?T = "tracks (insert (op_ID o1) U)"
  have k: "triple ?T m (\<lambda>_. ?T) ?T" if "keeps ?T m" for m :: "'b act"
    using that by (simp add: keeps_triple)
  have commit: "triple ?T (repo (CommitCreation (en_F en) o1 row (AwaitAdoption cx)))
      (\<lambda>_ w. ?T w \<and> (AwaitAdoption cx \<or> gone (op_ID o1) w)) ?T" for row
  proof (rule tripleI)
    have kc: "keeps ?T (repo (CommitCreation (en_F en) o1 row (AwaitAdoption cx)))" by (intro keeps_rules)
    { fix w e w' assume "?T w" "repo (CommitCreation (en_F en) o1 row (AwaitAdoption cx)) w = (Inl e, w')"
      then show "?T w'" using keepsD [OF kc] by blast }
    fix w x w' assume w: "?T w" "repo (CommitCreation (en_F en) o1 row (AwaitAdoption cx)) w = (Inr x, w')"
    then show "?T w' \<and> (AwaitAdoption cx \<or> gone (op_ID o1) w')"
      using keepsD [OF kc] CommitCreation_gone by (cases "AwaitAdoption cx") auto
  qed
  have att: "triple (\<lambda>w. ?T w \<and> (AwaitAdoption cx \<or> gone (op_ID o1) w))
      (if AwaitAdoption cx
         then modify (\<lambda>w. w\<lparr>createAttempts := store native o1 (createAttempts w)\<rparr>)
         else ret ()) (\<lambda>_. settled (op_ID o1) U) ?T"
  proof -
    have same: "tracks V (w\<lparr>createAttempts := a\<rparr>) = tracks V w" for V w a
      by (rule tracks_same) simp_all
    show ?thesis
      by (auto simp: triple_def prog_defs settled_def same awaiting_def)
  qed
  show ?thesis
    unfolding commitCreate_def Let_def
    by (rule triple_andThen [OF k [OF tracks_leaves(9)]], rule triple_andThen [OF k [OF tracks_leaves(8)]],
        rule triple_deref, rule triple_andThen [OF commit], rule triple_andThen [OF att],
        rule triple_andThen [OF settled_schedule], rule triple_ret) (auto intro: settled_tracks)
qed

lemma retryOnError_tracks:
  assumes "triple P m Q (tracks (insert (op_ID o1) U))"
  shows "triple P (retryOnError en o1 m) Q (tracks U)"
proof -
  have "triple (tracks (insert (op_ID o1) U)) (andThen (retryOperation en o1) (\<lambda>_. throw e)) Q (tracks U)" for e
  proof (rule triple_andThen [where R = "\<lambda>_. tracks U"])
    show "triple (tracks (insert (op_ID o1) U)) (retryOperation en o1) (\<lambda>_. tracks U) (tracks U)"
      using retry_tracks by (auto intro!: tripleI) (metis snd_conv)+
  qed (auto intro: triple_throw)
  then show ?thesis unfolding retryOnError_def by (rule triple_onError [OF assms])
qed

lemma rollback_tracks: "keeps (tracks U) (rollbackCreate en o1 native row e)"
  unfolding rollbackCreate_def by (intro keeps_rules)

lemma rollback_fails: "rollbackCreate en o1 native row e w \<noteq> (Inr x, w')"
  by (auto simp: rollbackCreate_def ok_simps split: sum.splits if_splits)

lemma onError_rollback:
  assumes "triple P m Q (tracks V)"
  shows "triple P (onError m (rollbackCreate en o1 native row)) Q (tracks V)"
proof (rule triple_onError [OF assms])
  fix e
  show "triple (tracks V) (rollbackCreate en o1 native row e) Q (tracks V)"
    using keepsD [OF rollback_tracks] by (auto intro!: tripleI simp: rollback_fails)
qed

lemma BeginCreate_tracks:
  assumes "intentKey (op_ID o1)"
  shows "triple (tracks U) (repo (BeginCreate F o1)) (\<lambda>_. tracks (insert (op_ID o1) U)) (tracks U)"
proof (rule tripleI)
  fix w e w' assume t: "tracks U w" "repo (BeginCreate F o1) w = (Inl e, w')"
  obtain d where d: "BeginCreate F o1 (wdb w) = (Inl e, d)" "w' = w\<lparr>wdb := d\<rparr>"
    using repo_Inl [OF t(2)] by blast
  have "tables d = tables (wdb w)" using d(1) by (auto simp: BeginCreate_def dest: transaction_atomic)
  then show "tracks U w'" using t(1) d(2) dockerIDs_tables tracks_shrink by blast
next
  fix w x w' assume t: "tracks U w" "repo (BeginCreate F o1) w = (Inr x, w')"
  obtain d where d: "BeginCreate F o1 (wdb w) = (Inr x, d)" "w' = w\<lparr>wdb := d\<rparr>"
    using repo_Inr [OF t(2)] by blast
  have "operations d = operations (wdb w) @ [o1]"
    using d(1) unfolding BeginCreate_def
    by (elim transaction_okE)
      (auto simp: insertOperation_def ok_simps tables_eq_iff split: option.splits if_splits)
  then have "dockerIDs d \<subseteq> insert (op_ID o1) (dockerIDs (wdb w))" by (auto simp: dockerIDs_def)
  then show "tracks (insert (op_ID o1) U) w'" using tracks_insert [OF t(1) assms] d(2) by simp
qed

lemma bind_ids: "BindCreation F o1 native d = (Inr o2, d') \<Longrightarrow> op_ID o2 = op_ID o1"
  by (auto dest!: bind_result simp: boundTo_def)

lemma Bind_tracks:
  "triple (tracks (insert (op_ID o1) U)) (repo (BindCreation F o1 native))
     (\<lambda>o2 w. op_ID o2 = op_ID o1 \<and> tracks (insert (op_ID o1) U) w) (tracks (insert (op_ID o1) U))"
proof (rule tripleI)
  let ?T = "tracks (insert (op_ID o1) U)"
  have k: "keeps ?T (repo (BindCreation F o1 native))" by (intro keeps_rules)
  { fix w e w' assume "?T w" "repo (BindCreation F o1 native) w = (Inl e, w')"
    then show "?T w'" using keepsD [OF k] by blast }
  fix w o2 w' assume w: "?T w" "repo (BindCreation F o1 native) w = (Inr o2, w')"
  then have "?T w'" using keepsD [OF k] by blast
  moreover have "op_ID o2 = op_ID o1" using repo_Inr [OF w(2)] bind_ids by blast
  ultimately show "op_ID o2 = op_ID o1 \<and> ?T w'" by blast
qed

lemma create_tail_tracks:
  assumes "intentKey (op_ID o1)"
  shows "triple (tracks U)
    (andThen (repo (BeginCreate F o1)) (\<lambda>_.
     andThen (retryOnError en o1 (mapErr g (ContainerCreate en opts))) (\<lambda>native.
     andThen (retryOnError en o1
           (onError (repo (BindCreation F o1 native)) (rollbackCreate en o1 native (row native))))
       (\<lambda>o2. retryOnError en o2
             (onError (commitCreate en cx req o2 native name mainPort deadline)
               (rollbackCreate en o2 native (row native)))))))
     (\<lambda>_ w. tracks (U \<union> awaiting w) w) (tracks U)"
proof -
  let ?T = "tracks (insert (op_ID o1) U)"
  have create: "triple ?T (mapErr g (ContainerCreate en opts)) (\<lambda>_. ?T) ?T"
    using tracks_leaves(11) by (intro triple_mapErr) (simp add: keeps_triple)
  have commit: "triple (\<lambda>w. op_ID o2 = op_ID o1 \<and> ?T w)
      (retryOnError en o2 (onError (commitCreate en cx req o2 native name mainPort deadline)
         (rollbackCreate en o2 native (row native)))) (\<lambda>_ w. tracks (U \<union> awaiting w) w) (tracks U)"
    for o2 native
  proof (cases "op_ID o2 = op_ID o1")
    case True
    have "triple (tracks (insert (op_ID o2) U)) (retryOnError en o2
        (onError (commitCreate en cx req o2 native name mainPort deadline)
          (rollbackCreate en o2 native (row native)))) (\<lambda>_ w. tracks (U \<union> awaiting w) w) (tracks U)"
      by (rule retryOnError_tracks [OF onError_rollback [OF commitCreate_tracks]])
    then show ?thesis using True by (auto intro: triple_conseq)
  qed (simp add: triple_def)
  show ?thesis
    by (rule triple_andThen [OF BeginCreate_tracks [OF assms]],
        rule triple_andThen [OF retryOnError_tracks [OF create]],
        rule triple_andThen [OF retryOnError_tracks [OF onError_rollback [OF Bind_tracks]]],
        rule commit)
qed

lemma tracks_name [keeps_rules]:
  "keeps (tracks U) (uniqueName en)" "keeps (tracks U) (generateCmdID en)"
proof -
  have "tracks U (w\<lparr>tick := n\<rparr>) = tracks U w" for w n by (rule tracks_same) simp_all
  then show "keeps (tracks U) (uniqueName en)" by (intro keeps_uniqueName_of keeps_rules) simp
  show "keeps (tracks U) (generateCmdID en)" unfolding generateCmdID_def by (intro keeps_rules)
qed

lemma triple_keeps_then:
  "keeps I m \<Longrightarrow> (\<And>x. triple I (f x) Q I) \<Longrightarrow> triple I (andThen m f) Q I"
  by (rule triple_andThen [where R = "\<lambda>_. I"]) (simp_all add: keeps_triple)

lemma Create_tracks:
  "triple (tracks U) (Create en cx req) (\<lambda>_ w. tracks (U \<union> awaiting w) w) (tracks U)"
  unfolding Create_def Let_def locked_def
  by (assumption | rule create_tail_tracks triple_keeps_then triple_if triple_throw |
      (intro keeps_rules)[1] | simp add: intentKey_def)+

section \<open>The properties\<close>

lemma tracks_handle:
  assumes "tracks U w"
  shows "tracks (U \<union> (case r of RCreate cx req \<Rightarrow> awaiting (handle en r w) | _ \<Rightarrow> {})) (handle en r w)"
proof (cases r)
  case (RCreate cx req)
  obtain x w' where c: "Create en cx req w = (x, w')" by fastforce
  have "tracks (U \<union> awaiting w') w'"
  proof (cases x)
    case (Inl e)
    then show ?thesis using triple_err [OF Create_tracks assms] c tracks_mono by blast
  next
    case (Inr y)
    then show ?thesis using triple_ok [OF Create_tracks assms] c by blast
  qed
  then show ?thesis using RCreate c by (simp add: effect_def)
qed (use assms in \<open>simp_all add: effect_def keeps_rules [unfolded keeps_def, rule_format]\<close>)


lemma registerIntents_tracks:
  "triple (tracks (U \<union> set (map op_ID ops))) (registerIntents en ops) (\<lambda>_. tracks U) (\<lambda>_. True)"
proof (induction ops)
  case Nil
  then show ?case by (simp add: triple_ret)
next
  case (Cons o1 ops)
  let ?V = "U \<union> set (map op_ID ops)"
  have k: "triple (tracks (insert (op_ID o1) ?V)) m (\<lambda>_. tracks (insert (op_ID o1) ?V)) (\<lambda>_. True)"
    if "keeps (tracks (insert (op_ID o1) ?V)) m" for m :: "unit act"
    using that unfolding keeps_triple by (rule triple_conseq) auto
  have r: "triple (tracks (insert (op_ID o1) ?V)) (retryOperation en o1) (\<lambda>_. tracks ?V) (\<lambda>_. True)"
    using retry_tracks by (auto intro!: tripleI) (metis snd_conv)
  have "triple (tracks (insert (op_ID o1) ?V)) (registerIntents en (o1 # ops)) (\<lambda>_. tracks U) (\<lambda>_. True)"
    unfolding registerIntents.simps
    by (rule triple_andThen [OF k], intro keeps_rules, rule triple_andThen [OF k], intro keeps_rules,
        rule triple_andThen [OF r], rule Cons.IH)
  then show ?case by simp
qed

text \<open>
  C12: When startup recovery returns without an error, every intent of this runtime that is in
  the table is registered with the recovery queue, also those whose warm-up attempt was
  deferred or did not fit the budget.
\<close>

theorem startup_registers_every_intent:
  assumes ok: "Recover en cx warm w = (Inr x, w')" and wf: "queue_wf w" "ids_ok (wdb w)"
  shows "stopping w' \<or> untracked w' = {}"
proof -
  have ops: "triple (tracks UNIV) (repo (Operations (en_F en) ''docker''))
      (\<lambda>ops. tracks ({} \<union> set (map op_ID ops))) (\<lambda>_. True)"
  proof (rule tripleI)
    fix w ops w' assume t: "tracks UNIV w" "repo (Operations (en_F en) ''docker'') w = (Inr ops, w')"
    have k: "keeps (tracks UNIV) (repo (Operations (en_F en) ''docker''))" by (intro keeps_rules)
    obtain d where d: "Operations (en_F en) ''docker'' (wdb w) = (Inr ops, d)" "w' = w\<lparr>wdb := d\<rparr>"
      using repo_Inr [OF t(2)] by blast
    have "dockerIDs d = set (map op_ID ops)"
      using Operations_rows [OF d(1)] by (auto simp: dockerIDs_def tables_eq_iff)
    then show "tracks ({} \<union> set (map op_ID ops)) w'"
      using keepsD [OF k t] d(2) by (auto simp: tracks_def untracked_def)
  qed simp
  have k: "triple (tracks U) m (\<lambda>_. tracks U) (\<lambda>_. True)" if "keeps (tracks U) m"
    for m :: "'b act" and U
    using that unfolding keeps_triple by (rule triple_conseq) auto
  have t: "triple (tracks UNIV) (Recover en cx warm) (\<lambda>_. tracks {}) (\<lambda>_. True)"
    unfolding Recover_def locked_def
    by (rule triple_andThen [OF k], intro keeps_rules, rule triple_andThen [OF ops],
        rule triple_andThen [OF k], intro keeps_rules, rule triple_andThen [OF registerIntents_tracks],
        rule k, intro keeps_rules)
  have w: "tracks UNIV w" using wf by (simp add: tracks_def)
  have "tracks {} w'" by (rule triple_ok [OF t w ok])
  then show ?thesis by (auto simp: tracks_def)
qed

text \<open>A sample run in which the engine refuses every change.\<close>

definition refusing_env :: env where
  "refusing_env = sample_env\<lparr>en_act := (\<lambda>_ _ _. Some (Native False ''busy''))\<rparr>"

definition waiting_stop :: operation where
  "waiting_stop = sample_stop\<lparr>op_ID := ''docker:1''\<rparr>"

lemmas docker_eval = effect_def Stop_def stopLocked_def locked_def lockLifecycle_def ctxErr_def
  Background_def randText_def repo_def BeginOperation_def transaction_def stmt_def
  FindByNativeID_def Pending_def query_def insertOperation_def insert_stmt_def first_row_def
  pendingFor_def sample_world_def sample_db_def sample_row_def sample_env_def
  sample_container_def hasNativeID_def prog_defs checkOwnership_def ContainerInspect_def
  record_event_def labelled_def deref_def native_call_def settleStop_def CompleteOperation_def
  ValidateOperation_def FindByID_def updateSandboxes_def ClearOperation_def exec_def
  ownershipMismatch_def RuntimeID_def nstr_def cancelTimer_def cancelTimerLocked_def
  invalidateCache_def retryOperation_def FindOperation_def delete_rows_def remove_key_def Let_def
  getTimerEntry_def queueOperation_def Schedule_def now_def scheduleDeadline_def onError_def

lemmas tracking_eval = queue_wf_def ids_ok_def dockerIDs_def untracked_def registered_def
  stopping_def intentKey_def

lemma refused_stop:
  "\<not> stopping (handle refusing_env (RStop Background ''c1'') sample_world) \<and>
   dockerIDs (wdb (handle refusing_env (RStop Background ''c1'') sample_world)) \<noteq> {}"
  by (simp add: docker_eval refusing_env_def stopping_def dockerIDs_def retryOnError_def)


text \<open>A start after a crash that left a stop intent in the table.\<close>

definition crashed_world :: world where
  "crashed_world = sample_world\<lparr>wdb := sample_db\<lparr>operations := [waiting_stop]\<rparr>\<rparr>"

lemmas recover_eval = docker_eval Recover_def Operations_def FindAll_def registerIntents.simps
  restoreDeadlines.simps warmIntents.simps warmOverdue.simps reconcile_def validateIntent_def
  resolveRef_def observe_def identify_def settleIntent_def tolerantCall_def deferrable_def
  overdue_def waiting_stop_def sample_stop_def freshIntent_def refusing_env_def crashed_world_def
  DeferRecovery_def nativeRow_def RecoveryRetryDelay_def Second_def IsNotFound.simps

lemma recover_after_crash:
  "fst (Recover refusing_env Background Background crashed_world) = Inr ()"
  "stopping (snd (Recover refusing_env Background Background crashed_world)) = False"
  "operations (wdb (snd (Recover refusing_env Background Background crashed_world))) \<noteq> []"
  by (simp_all add: recover_eval stopping_def)

theorem startup_registers_every_intent_witness:
  "operations (wdb (snd (Recover refusing_env Background Background crashed_world))) \<noteq> [] \<and>
   untracked (snd (Recover refusing_env Background Background crashed_world)) = {}"
proof -
  obtain w' where ok: "Recover refusing_env Background Background crashed_world = (Inr (), w')"
    using recover_after_crash(1) by (metis fst_conv surj_pair)
  have "queue_wf crashed_world" "ids_ok (wdb crashed_world)"
    by (auto simp: tracking_eval sample_world_def crashed_world_def waiting_stop_def)
  from startup_registers_every_intent [OF ok this] show ?thesis
    using recover_after_crash(2,3) ok by simp
qed

end
