(* ===== verification/Net_Address.thy ===== *)
theory Net_Address
  imports Go_Strings
begin

text \<open>
  What the reverse proxy uses of Go's \<open>net\<close> package: \<open>SplitHostPort\<close>, \<open>JoinHostPort\<close> and the
  test \<open>ParseIP(s) != nil\<close>, each written out as the standard library has it.
\<close>

section \<open>Host and port\<close>

text \<open>
  The last test of \<open>SplitHostPort\<close>: no bracket in the rest of the text. The error of the
  library says only that the address is malformed, so it is \<open>None\<close>.
\<close>

definition bracketFree :: "string \<Rightarrow> string \<Rightarrow> string \<times> string \<Rightarrow> (string \<times> string) option" where
  "bracketFree a b hp = (if CHR ''['' \<in> set a \<or> CHR '']'' \<in> set b then None else Some hp)"

definition SplitHostPort :: "string \<Rightarrow> (string \<times> string) option" where
  "SplitHostPort s = (case lastIndexOf (CHR '':'') s of
     None \<Rightarrow> None
   | Some i \<Rightarrow>
       if hd s = CHR ''['' then
         (case indexOf (CHR '']'') s of
            None \<Rightarrow> None
          | Some e \<Rightarrow>
              if Suc e = i
              then bracketFree (drop 1 s) (drop (Suc e) s) (take (e - 1) (drop 1 s), drop (Suc i) s)
              else None)
       else if CHR '':'' \<in> set (take i s) then None
       else bracketFree s s (take i s, drop (Suc i) s))"

definition JoinHostPort :: "string \<Rightarrow> string \<Rightarrow> string" where
  "JoinHostPort host port =
     (if CHR '':'' \<in> set host then ''['' @ host @ '']:'' @ port else host @ '':'' @ port)"

definition hostText :: "string \<Rightarrow> bool" where
  "hostText s \<longleftrightarrow> CHR ''['' \<notin> set s \<and> CHR '']'' \<notin> set s"

lemma SplitHostPort_sound:
  assumes "SplitHostPort s = Some (h, p)"
  shows "hostText h \<and> CHR '':'' \<notin> set p \<and>
    (s = ''['' @ h @ '']:'' @ p \<or> (s = h @ '':'' @ p \<and> CHR '':'' \<notin> set h \<and> \<not> hasPrefix s ''[''))"
proof -
  obtain i where i: "lastIndexOf (CHR '':'') s = Some i"
    using assms by (auto simp: SplitHostPort_def split: option.splits)
  obtain a b where ab: "s = a @ CHR '':'' # b" "CHR '':'' \<notin> set b" "length a = i"
    using lastIndexOf_Some [OF i] by blast
  show ?thesis
  proof (cases "hd s = CHR ''[''")
    case True
    obtain e where e: "indexOf (CHR '']'') s = Some e" "Suc e = i"
      and r: "bracketFree (drop 1 s) (drop (Suc e) s) (take (e - 1) (drop 1 s), drop (Suc i) s) = Some (h, p)"
      using assms i True by (auto simp: SplitHostPort_def split: option.splits if_splits)
    obtain c d where cd: "s = c @ CHR '']'' # d" "CHR '']'' \<notin> set c" "length c = e"
      using indexOf_Some [OF e(1)] by blast
    have a: "a = c @ '']''" using ab cd e(2)
      by (metis append_Cons append_Nil append_assoc append_eq_append_conv length_append_singleton)
    obtain c' where c': "c = CHR ''['' # c'" using True cd(1) by (cases c) auto
    have "s = ''['' @ c' @ '']:'' @ b" using ab a c' by simp
    moreover have "h = c'" "p = b" using r ab a c' cd(3) e(2)
      by (auto simp: bracketFree_def split: if_splits)
    moreover have "CHR ''['' \<notin> set c'" using r calculation(1)
      by (auto simp: bracketFree_def split: if_splits)
    ultimately show ?thesis using ab(2) cd(2) c' by (auto simp: hostText_def)
  next
    case False
    then have "CHR '':'' \<notin> set (take i s)" and r: "bracketFree s s (take i s, drop (Suc i) s) = Some (h, p)"
      using assms i by (auto simp: SplitHostPort_def split: option.splits if_splits)
    then have "h = a" "p = b" "hostText s" "CHR '':'' \<notin> set a"
      using ab by (auto simp: bracketFree_def hostText_def split: if_splits)
    moreover have "\<not> hasPrefix s ''[''"
      using \<open>hostText s\<close> by (auto simp: hostText_def dest: hasPrefixE)
    ultimately show ?thesis using ab by (simp add: hostText_def)
  qed
qed

lemma SplitHostPort_Join:
  assumes "hostText h" and "hostText p" and "CHR '':'' \<notin> set p"
  shows "SplitHostPort (JoinHostPort h p) = Some (h, p)"
proof (cases "CHR '':'' \<in> set h")
  case True
  have s: "JoinHostPort h p = (CHR ''['' # h @ '']'') @ CHR '':'' # p"
    using True by (simp add: JoinHostPort_def)
  have l: "lastIndexOf (CHR '':'') (JoinHostPort h p) = Some (Suc (Suc (length h)))"
    unfolding s using lastIndexOf_append [OF assms(3), of "CHR ''['' # h @ '']''"] by simp
  have "indexOf (CHR '']'') ((CHR ''['' # h) @ CHR '']'' # '':'' @ p) = Some (length (CHR ''['' # h))"
    by (rule indexOf_append) (use assms(1) in \<open>simp add: hostText_def\<close>)
  then have e: "indexOf (CHR '']'') (JoinHostPort h p) = Some (Suc (length h))"
    unfolding s by simp
  show ?thesis using l e assms(1,2)
    by (simp add: SplitHostPort_def s bracketFree_def hostText_def)
next
  case False
  have s: "JoinHostPort h p = h @ CHR '':'' # p" using False by (simp add: JoinHostPort_def)
  have "hd (h @ CHR '':'' # p) \<noteq> CHR ''[''" using assms(1) by (cases h) (auto simp: hostText_def)
  then show ?thesis using False assms
    by (simp add: SplitHostPort_def s lastIndexOf_append bracketFree_def hostText_def)
qed

section \<open>IP literals\<close>

text \<open>
  \<open>parseIPv4Fields\<close>: the value and the digits of the current octet, and the octets before it.
\<close>

fun ipv4Fields :: "nat \<Rightarrow> nat \<Rightarrow> nat \<Rightarrow> string \<Rightarrow> bool" where
  "ipv4Fields val digs n [] = (n = 3)"
| "ipv4Fields val digs n (c # s) =
     (case digitVal c of
        Some d \<Rightarrow> \<not> (digs = 1 \<and> val = 0) \<and> 10 * val + d \<le> 255 \<and>
          ipv4Fields (10 * val + d) (Suc digs) n s
      | None \<Rightarrow> c = CHR ''.'' \<and> digs \<noteq> 0 \<and> s \<noteq> [] \<and> n \<noteq> 3 \<and> ipv4Fields 0 0 (Suc n) s)"

definition isHex :: "char \<Rightarrow> bool" where
  "isHex c \<longleftrightarrow> c \<in> set ''0123456789abcdefABCDEF''"

text \<open>
  \<open>parseIPv6\<close>: the 16-bit groups still to fill and whether \<open>::\<close> has been seen; at the end the
  ellipsis must stand for at least one group.
\<close>

definition ipv6End :: "nat \<Rightarrow> bool \<Rightarrow> bool" where
  "ipv6End left ell \<longleftrightarrow> (if left > 0 then ell else \<not> ell)"

fun ipv6Groups :: "nat \<Rightarrow> bool \<Rightarrow> string \<Rightarrow> bool" where
  "ipv6Groups 0 ell s = (s = [] \<and> ipv6End 0 ell)"
| "ipv6Groups (Suc n) ell s =
     (let d = takeWhile isHex s; r = dropWhile isHex s in
      d \<noteq> [] \<and> length d \<le> 4 \<and>
      (case r of
         [] \<Rightarrow> ipv6End n ell
       | c # r1 \<Rightarrow>
           if c = CHR ''.''
           then (ell \<or> n = 1) \<and> 1 \<le> n \<and> ipv4Fields 0 0 0 s \<and> ipv6End (n - 1) ell
           else c = CHR '':'' \<and>
             (case r1 of
                [] \<Rightarrow> False
              | c1 # r2 \<Rightarrow>
                  if c1 = CHR '':''
                  then \<not> ell \<and> (if r2 = [] then ipv6End n True else ipv6Groups n True r2)
                  else ipv6Groups n ell r1)))"

definition isIPv6 :: "string \<Rightarrow> bool" where
  "isIPv6 s \<longleftrightarrow>
     (if hasPrefix s ''::'' then drop 2 s = [] \<or> ipv6Groups 8 True (drop 2 s)
      else ipv6Groups 8 False s)"

text \<open>\<open>net.ParseIP(s) != nil\<close>; an address with a zone is none.\<close>

definition isIP :: "string \<Rightarrow> bool" where
  "isIP s \<longleftrightarrow> CHR ''%'' \<notin> set s \<and>
     (case filter (\<lambda>c. c = CHR ''.'' \<or> c = CHR '':'') s of
        [] \<Rightarrow> False
      | c # _ \<Rightarrow> if c = CHR ''.'' then ipv4Fields 0 0 0 s else isIPv6 s)"

lemma isIP_samples:
  "isIP ''127.0.0.1''" "isIP ''::1''" "isIP ''fe80::1:2''" "isIP ''::ffff:10.0.0.1''"
  "\<not> isIP ''127.0.0.01''" "\<not> isIP ''1.2.3''" "\<not> isIP ''localhost''" "\<not> isIP ''1:2:3:4:5:6:7::8:9''"
  by (simp_all add: isIP_def isIPv6_def hasPrefix_def digitVal_def isHex_def ipv6End_def eval_nat_numeral)

text \<open>An IP literal consists of hexadecimal digits, dots and colons.\<close>

lemma ipv4Fields_chars: "ipv4Fields v d n s \<Longrightarrow> c \<in> set s \<Longrightarrow> digitVal c \<noteq> None \<or> c = CHR ''.''"
  by (induction v d n s rule: ipv4Fields.induct) (auto split: option.splits)

lemma isIP_no_colon:
  assumes "isIP s" and "CHR '':'' \<notin> set s"
  shows "ipv4Fields 0 0 0 s"
proof -
  let ?f = "filter (\<lambda>c. c = CHR ''.'' \<or> c = CHR '':'') s"
  obtain c t where f: "?f = c # t" using assms(1) by (auto simp: isIP_def split: list.splits)
  then have "c \<in> set ?f" by simp
  then have "c = CHR ''.''" using assms(2) by auto
  then show ?thesis using assms(1) f by (simp add: isIP_def)
qed

end
