(* ===== verification/Host_Routing.thy ===== *)
theory Host_Routing
  imports Net_Address Names Database
begin

text \<open>
  \<open>src/internal/proxy\<close>: admission of requests by their authority (\<open>local.go\<close>), the reverse
  proxy (\<open>proxy.go\<close>), the route of a sandbox (\<open>resolver.go\<close>) and the route cache
  (\<open>cache.go\<close>). What a handler writes is the value \<open>reply\<close>. The URL parser of the standard
  library and the live resolver are arguments; nothing is assumed of either.
\<close>

section \<open>Authorities\<close>

definition malformedChars :: string where
  "malformedChars = [CHR ''/'', CHR ''@'', CHR 0x5C, CHR '' '', CHR 0x09, CHR 0x0D, CHR 0x0A, CHR ''%'']"

definition portInRange :: "string \<Rightarrow> bool" where
  "portInRange s \<longleftrightarrow> (case Atoi s of None \<Rightarrow> False | Some n \<Rightarrow> 1 \<le> n \<and> n \<le> 65535)"

definition splitAuthority :: "string \<Rightarrow> err + string \<times> string" where
  "splitAuthority authority =
     (case SplitHostPort authority of
        Some hp \<Rightarrow> Inr hp
      | None \<Rightarrow>
          if containsAny authority '':[]'' then Inl (Msg ''malformed authority'')
          else Inr (authority, ''80''))"

definition canonicalAuthority :: "string \<Rightarrow> err + string \<times> string" where
  "canonicalAuthority authority =
     (case splitAuthority authority of
        Inl e \<Rightarrow> Inl e
      | Inr (host, port) \<Rightarrow>
          if host = [] \<or> containsAny host malformedChars then Inl (Msg ''malformed host'')
          else if hasPrefix authority ''['' \<and> (\<not> isIP host \<or> \<not> containsStr host '':'')
          then Inl (Msg ''brackets require an IPv6 literal'')
          else if \<not> list_all isDigit port then Inl (Msg ''invalid port'')
          else if \<not> portInRange port then Inl (Msg ''invalid port'')
          else if isIP host then Inr (host, port)
          else
            let host1 = trimSuffix (toLower host) ''.'' in
            if host1 = [] \<or> containsStr host1 ''..'' \<or> hasSuffix host1 ''.''
            then Inl (Msg ''malformed DNS host'')
            else Inr (host1, port))"

text \<open>The pattern \<open>sandboxHost\<close>: a DNS label before \<open>.localhost\<close>.\<close>

definition localSuffix :: string where
  "localSuffix = ''.localhost''"

definition sandboxHost :: "string \<Rightarrow> bool" where
  "sandboxHost h \<longleftrightarrow> hasSuffix h localSuffix \<and> dnsLabel (trimSuffix h localSuffix)"

section \<open>Admission\<close>

record url =
  u_Scheme :: string
  u_User :: bool
  u_Host :: string
  u_Path :: string
  u_RawQuery :: string
  u_Fragment :: string

text \<open>The parts of a request that are read: its authority and its headers by canonical name.\<close>

record http_request =
  r_Host :: string
  r_Header :: "(string \<times> string list) list"

definition headerValues :: "http_request \<Rightarrow> string \<Rightarrow> string list" where
  "headerValues r k = (case map_of (r_Header r) k of None \<Rightarrow> [] | Some vs \<Rightarrow> vs)"

definition headerGet :: "http_request \<Rightarrow> string \<Rightarrow> string" where
  "headerGet r k = (case headerValues r k of [] \<Rightarrow> [] | v # _ \<Rightarrow> v)"

definition originMatches :: "(string \<Rightarrow> url option) \<Rightarrow> string \<Rightarrow> string \<Rightarrow> string \<Rightarrow> bool" where
  "originMatches parseURL origin host port =
     (origin \<noteq> ''null'' \<and>
      (case parseURL origin of
         None \<Rightarrow> False
       | Some u \<Rightarrow>
           u_Scheme u = ''http'' \<and> \<not> u_User u \<and> u_Path u = [] \<and> u_RawQuery u = [] \<and>
           u_Fragment u = [] \<and> canonicalAuthority (u_Host u) = Inr (host, port)))"

definition controlOriginAllowed ::
    "(string \<Rightarrow> url option) \<Rightarrow> http_request \<Rightarrow> string \<Rightarrow> string \<Rightarrow> bool" where
  "controlOriginAllowed parseURL r host port =
     ((case headerValues r ''Origin'' of
         [] \<Rightarrow> True
       | [origin] \<Rightarrow> originMatches parseURL origin host port
       | _ \<Rightarrow> False) \<and>
      headerGet r ''Sec-Fetch-Site'' \<in> {[], ''none'', ''same-origin''})"

datatype reply =
    HttpError nat string
  | Control
  | Sandboxes
  | Forward (fwd_target: string) (fwd_host: string)

definition LocalHandler :: "(string \<Rightarrow> url option) \<Rightarrow> string \<Rightarrow> http_request \<Rightarrow> reply" where
  "LocalHandler parseURL addr r =
     (let (listenHost, listenPort) = (case SplitHostPort addr of None \<Rightarrow> ([], []) | Some hp \<Rightarrow> hp) in
      case canonicalAuthority (r_Host r) of
        Inl e \<Rightarrow> HttpError 400 ''invalid local authority''
      | Inr (host, port) \<Rightarrow>
          if port \<noteq> listenPort then HttpError 400 ''invalid local authority''
          else if host = ''localhost'' \<or> host = ''127.0.0.1'' \<or>
                  (host = ''::1'' \<and> containsStr listenHost '':'')
          then
            if \<not> controlOriginAllowed parseURL r host port
            then HttpError 403 ''control-plane origin forbidden''
            else Control
          else if sandboxHost host then Sandboxes
          else HttpError 421 ''unknown local host'')"

section \<open>The route of a sandbox\<close>

definition checkedHostPort :: "string \<Rightarrow> err + string" where
  "checkedHostPort port =
     (case Atoi port of
        None \<Rightarrow> Inl (Msg ''invalid published port'')
      | Some n \<Rightarrow>
          if n < 1 \<or> n > 65535 then Inl (Msg ''invalid published port'')
          else Inr (Itoa (nat n)))"

definition resolveHostPort :: "sandbox_row \<Rightarrow> err + string" where
  "resolveHostPort sb =
     (if sb_Port sb \<noteq> [] then
        if \<not> hasSuffix (sb_Port sb) ''/tcp'' then Inl (Msg ''main port is not TCP'')
        else case map_of (sb_Ports sb) (sb_Port sb) of
          None \<Rightarrow> Inl (Msg ''port not found in port map'')
        | Some hp \<Rightarrow> checkedHostPort hp
      else case sb_Ports sb of
        [(port, hp)] \<Rightarrow>
          if \<not> hasSuffix port ''/tcp'' then Inl (Msg ''main port is not TCP'')
          else checkedHostPort hp
      | _ \<Rightarrow> Inl (Msg ''no port configured''))"

section \<open>The route cache\<close>

text \<open>A target is the host of an \<open>http\<close> URL; times are nanoseconds.\<close>

record cacheEntry =
  ce_target :: string
  ce_expiresAt :: int

record server =
  srv_db :: db
  cache :: "(string \<times> cacheEntry) list"
  clock :: nat

definition routeTTL :: int where
  "routeTTL = 30000000000"

definition cache_get :: "(nat \<Rightarrow> int) \<Rightarrow> string \<Rightarrow> (server, string option) prog" where
  "cache_get time name = (\<lambda>s. case map_of (cache s) name of
     None \<Rightarrow> (Inr None, s)
   | Some entry \<Rightarrow>
       (Inr (if time (clock s) > ce_expiresAt entry then None else Some (ce_target entry)),
        s\<lparr>clock := Suc (clock s)\<rparr>))"

definition cache_set :: "(nat \<Rightarrow> int) \<Rightarrow> string \<Rightarrow> string \<Rightarrow> (server, unit) prog" where
  "cache_set time name target = modify (\<lambda>s.
     s\<lparr>cache := store name \<lparr>ce_target = target, ce_expiresAt = time (clock s) + routeTTL\<rparr> (cache s),
       clock := Suc (clock s)\<rparr>)"

definition cache_Invalidate :: "string \<Rightarrow> server \<Rightarrow> server" where
  "cache_Invalidate name s = s\<lparr>cache := remove_key name (cache s)\<rparr>"

definition resolve_db :: "faults \<Rightarrow> string \<Rightarrow> (server, string) prog" where
  "resolve_db F name =
     andThen (mapErr (Wrap ''lookup failed'')
         (zoom srv_db (\<lambda>d s. s\<lparr>srv_db := d\<rparr>) (FindByName F False name))) (\<lambda>sb.
     case sb of
       None \<Rightarrow> throw (Msg ''not found'')
     | Some row \<Rightarrow>
         (case resolveHostPort row of
            Inl e \<Rightarrow> throw e
          | Inr hostPort \<Rightarrow> ret (''127.0.0.1:'' @ hostPort)))"

definition resolve :: "(nat \<Rightarrow> int) \<Rightarrow> faults \<Rightarrow> string \<Rightarrow> (server, string) prog" where
  "resolve time F name =
     andThen (cache_get time name) (\<lambda>hit.
     case hit of
       Some target \<Rightarrow> ret target
     | None \<Rightarrow>
         andThen (resolve_db F name) (\<lambda>target.
         andThen (cache_set time name target) (\<lambda>_.
         ret target)))"

section \<open>The reverse proxy\<close>

definition extractSubdomain :: "string \<Rightarrow> string" where
  "extractSubdomain host =
     (case canonicalAuthority host of
        Inl e \<Rightarrow> []
      | Inr (h, _) \<Rightarrow> if \<not> sandboxHost h then [] else trimSuffix h localSuffix)"

text \<open>
  The live resolver, when one is set, replaces the table and the cache; it may give a different
  answer at each moment.
\<close>

type_synonym live = "nat \<Rightarrow> string \<Rightarrow> err + string"

definition liveTarget :: "live \<Rightarrow> string \<Rightarrow> (server, string) prog" where
  "liveTarget live name =
     andThen (\<lambda>s. (live (clock s) name, s\<lparr>clock := Suc (clock s)\<rparr>)) (\<lambda>port.
       case checkedHostPort port of
         Inl e \<Rightarrow> throw e
       | Inr p \<Rightarrow> ret (JoinHostPort ''127.0.0.1'' p))"

definition handleRequest ::
    "(nat \<Rightarrow> int) \<Rightarrow> faults \<Rightarrow> live option \<Rightarrow> http_request \<Rightarrow> server \<Rightarrow>
     reply \<times> server" where
  "handleRequest time F live r s =
     (let name = extractSubdomain (r_Host r) in
      if name = [] then (HttpError 502 ''no subdomain in request'', s)
      else case (case live of Some l \<Rightarrow> liveTarget l name s | None \<Rightarrow> resolve time F name s) of
        (Inl e, s') \<Rightarrow> (HttpError 502 ''sandbox'', s')
      | (Inr target, s') \<Rightarrow> (Forward target (r_Host r), s'))"

section \<open>Spelling of host names\<close>

definition ascii :: "string \<Rightarrow> bool" where
  "ascii s \<longleftrightarrow> list_all (\<lambda>c. of_char c < (128 :: nat)) s"

lemma toLower_ascii: "ascii s \<Longrightarrow> toLower s = map lowerChar s"
  by (induction s rule: toLower.induct) (auto simp: ascii_def)

lemma lowerChar_cases: "lowerChar c = c \<or> isLower (lowerChar c)"
proof (cases "isUpper c")
  case True
  then have "isLower (lowerChar c)"
    by (auto simp: lowerChar_def isUpper_def isLower_def Let_def)
  then show ?thesis ..
qed (simp add: lowerChar_fix)

lemma lowerChar_idem [simp]: "lowerChar (lowerChar c) = lowerChar c"
  using lowerChar_cases [of c] not_upper_of_lower lowerChar_fix by metis

lemma lowerChar_eq:
  assumes "\<not> isLower x"
  shows "lowerChar c = x \<Longrightarrow> c = x"
  using lowerChar_cases [of c] assms by auto

lemma lower_mem: "\<not> isLower x \<Longrightarrow> x \<in> set (map lowerChar s) \<Longrightarrow> x \<in> set s"
  using lowerChar_eq by fastforce

lemma lower_ascii: "ascii s \<Longrightarrow> ascii (map lowerChar s)"
  by (auto simp: ascii_def list_all_iff lowerChar_def Let_def)

lemma trimSuffix_mem: "c \<in> set (trimSuffix s p) \<Longrightarrow> c \<in> set s"
  by (auto simp: trimSuffix_def split: if_splits dest: in_set_takeD)

lemma trimSuffix_id: "\<not> hasSuffix s p \<Longrightarrow> trimSuffix s p = s"
  by (simp add: trimSuffix_def)

lemma punctuation_not_lower [simp]:
  "\<not> isLower (CHR '':'')" "\<not> isLower (CHR ''['')" "\<not> isLower (CHR '']'')" "\<not> isLower (CHR ''.'')"
  by (simp_all add: isLower_def)

lemma malformed_not_lower: "c \<in> set malformedChars \<Longrightarrow> \<not> isLower c"
  by (auto simp: malformedChars_def isLower_def)

lemma containsAny_iff: "containsAny s cs \<longleftrightarrow> (\<exists>c \<in> set s. c \<in> set cs)"
  by (simp add: containsAny_def list_ex_iff)

lemma containsStr_char: "containsStr s [c] \<longleftrightarrow> c \<in> set s"
  by (induction s) (auto simp: hasPrefix_def)

lemma digits_text: "list_all isDigit p \<Longrightarrow> hostText p \<and> CHR '':'' \<notin> set p"
  by (auto simp: hostText_def isDigit_def digitVal_def list_all_iff)

section \<open>What an accepted authority looks like\<close>

text \<open>Every accepted authority comes from a host without brackets and a port in range.\<close>

definition hostWf :: "string \<Rightarrow> bool" where
  "hostWf h \<longleftrightarrow> h \<noteq> [] \<and> hostText h \<and> \<not> containsAny h malformedChars"

definition portWf :: "string \<Rightarrow> bool" where
  "portWf p \<longleftrightarrow> list_all isDigit p \<and> portInRange p"

lemma canonical_cases:
  assumes "canonicalAuthority a = Inr (h, p)"
  obtains (ip) "isIP h" "hostWf h" "portWf p"
  | (dns) host where "\<not> isIP host" "hostWf host" "portWf p" "CHR '':'' \<notin> set host"
      "h = trimSuffix (toLower host) ''.''" "h \<noteq> []" "\<not> containsStr h ''..''" "\<not> hasSuffix h ''.''"
      "ascii a \<Longrightarrow> ascii host"
proof -
  obtain host q where sa: "splitAuthority a = Inr (host, q)"
    using assms by (auto simp: canonicalAuthority_def split: sum.splits)
  note c = assms [unfolded canonicalAuthority_def sa sum.case prod.case Let_def]
  have ok: "host \<noteq> []" "\<not> containsAny host malformedChars"
    and br: "hasPrefix a ''['' \<longrightarrow> isIP host \<and> containsStr host '':''"
    and pw: "list_all isDigit p" "portInRange p" and q: "q = p"
    and res: "if isIP host then h = host else h = trimSuffix (toLower host) ''.'' \<and> h \<noteq> [] \<and>
        \<not> containsStr h ''..'' \<and> \<not> hasSuffix h ''.''"
    using c by (simp_all split: if_splits)
  have sp: "SplitHostPort a = Some (host, p) \<or> (\<not> containsAny a '':[]'' \<and> host = a)"
    using sa q by (auto simp: splitAuthority_def split: option.splits if_splits)
  have ht: "hostText host" using sp SplitHostPort_sound
    by (auto simp: hostText_def containsAny_iff)
  show thesis
  proof (cases "isIP host")
    case True
    then show ?thesis using ip res ok pw ht by (simp add: hostWf_def portWf_def)
  next
    case False
    have np: "\<not> hasPrefix a ''[''" using br False by blast
    have "CHR '':'' \<notin> set host \<and> (ascii a \<longrightarrow> ascii host)"
      using sp
    proof
      assume "SplitHostPort a = Some (host, p)"
      from SplitHostPort_sound [OF this] np show ?thesis
        by (auto simp: ascii_def hasPrefix_def)
    qed (auto simp: containsAny_iff)
    then show ?thesis using dns [of host] False res ok pw ht by (auto simp: hostWf_def portWf_def)
  qed
qed

text \<open>How the parts of a printed authority are read back.\<close>

lemma canonical_Join:
  assumes h: "hostWf h" and p: "portWf p" and c: "CHR '':'' \<in> set h \<Longrightarrow> isIP h"
  shows "canonicalAuthority (JoinHostPort h p) =
    (if isIP h then Inr (h, p)
     else let h1 = trimSuffix (toLower h) ''.'' in
       if h1 = [] \<or> containsStr h1 ''..'' \<or> hasSuffix h1 ''.''
       then Inl (Msg ''malformed DNS host'') else Inr (h1, p))"
proof -
  have p': "hostText p" "CHR '':'' \<notin> set p" "list_all isDigit p" "portInRange p"
    using p digits_text by (auto simp: portWf_def)
  have s: "SplitHostPort (JoinHostPort h p) = Some (h, p)"
    by (rule SplitHostPort_Join) (use h p' in \<open>simp_all add: hostWf_def\<close>)
  have "hasPrefix (JoinHostPort h p) ''['' \<longleftrightarrow> CHR '':'' \<in> set h"
    using h by (cases h) (auto simp: JoinHostPort_def hasPrefix_def hostWf_def hostText_def)
  then have "\<not> (hasPrefix (JoinHostPort h p) ''['' \<and> (\<not> isIP h \<or> \<not> containsStr h '':''))"
    using c by (auto simp: containsStr_char)
  then show ?thesis using h p'
    by (simp add: canonicalAuthority_def splitAuthority_def s hostWf_def Let_def)
qed

section \<open>Properties of admission\<close>

text \<open>
  Normalisation is stable: the authority printed from an accepted host and port is
  accepted again, as the same host and port. So comparing two canonical authorities, as the
  origin check does, does not depend on how either was spelled.
\<close>

theorem canonical_authority_stable:
  assumes "canonicalAuthority a = Inr (h, p)" and "ascii a"
  shows "canonicalAuthority (JoinHostPort h p) = Inr (h, p)"
  using assms(1)
proof (cases rule: canonical_cases)
  case ip
  then show ?thesis by (simp add: canonical_Join)
next
  case (dns host)
  let ?l = "map lowerChar host"
  have h: "h = trimSuffix ?l ''.''" using dns assms(2) by (simp add: toLower_ascii)
  have mem: "c \<in> set host" if c: "c \<in> set h" "\<not> isLower c" for c
    using trimSuffix_mem [of c ?l "''.''"] lower_mem [of c host] c h by simp
  have "ascii h"
    using trimSuffix_mem [of _ ?l "''.''"] lower_ascii [OF dns(9) [OF assms(2)]] h
    by (auto simp: ascii_def list_all_iff)
  moreover have "map lowerChar h = h"
    unfolding h by (simp add: trimSuffix_def hasSuffix_def take_map [symmetric] comp_def)
  ultimately have low: "toLower h = h" by (simp add: toLower_ascii)
  have wf: "hostWf h"
    using dns(2,6) mem malformed_not_lower
    by (auto simp: hostWf_def hostText_def containsAny_iff)
  have colon: "CHR '':'' \<notin> set h" using mem dns(4) by auto
  show ?thesis
    unfolding canonical_Join [OF wf dns(3), simplified colon, simplified]
    using dns(6-8) low by (simp add: trimSuffix_id Let_def)
qed

theorem canonical_authority_stable_witness:
  "canonicalAuthority ''Keen-Lamport.LOCALHOST.:8080'' = Inr (''keen-lamport.localhost'', ''8080'') \<and>
   canonicalAuthority ''keen-lamport.localhost:8080'' = Inr (''keen-lamport.localhost'', ''8080'')"
proof
  show 1: "canonicalAuthority ''Keen-Lamport.LOCALHOST.:8080'' = Inr (''keen-lamport.localhost'', ''8080'')"
    by (simp add: canonicalAuthority_def splitAuthority_def SplitHostPort_def lastIndexOf_def
        bracketFree_def containsAny_def malformedChars_def hasPrefix_def isIP_def digitVal_def
        isDigit_def portInRange_def Atoi_def lowerChar_def char_of_def bit_Suc_0_iff trimSuffix_def
        hasSuffix_def Let_def)
  show "canonicalAuthority ''keen-lamport.localhost:8080'' = Inr (''keen-lamport.localhost'', ''8080'')"
    using canonical_authority_stable [OF 1] by (simp add: ascii_def JoinHostPort_def)
qed

lemma sandboxHost_label:
  "sandboxHost h \<Longrightarrow> dnsLabel (trimSuffix h localSuffix) \<and> h = trimSuffix h localSuffix @ localSuffix"
  by (auto simp: sandboxHost_def dest!: hasSuffixE)

lemma sandboxHost_last: "sandboxHost h \<Longrightarrow> h \<noteq> [] \<and> last h = CHR ''t'' \<and> CHR ''.'' \<in> set h"
  by (auto simp: sandboxHost_def localSuffix_def dest!: hasSuffixE)

lemma not_both_hosts:
  "sandboxHost h \<Longrightarrow> h \<noteq> ''localhost'' \<and> h \<noteq> ''127.0.0.1'' \<and> h \<noteq> ''::1''"
  using sandboxHost_last [of h] by auto


definition sample_request :: "string \<Rightarrow> (string \<times> string list) list \<Rightarrow> http_request" where
  "sample_request h hs = \<lparr>r_Host = h, r_Header = hs\<rparr>"

lemmas authority_eval = canonicalAuthority_def splitAuthority_def SplitHostPort_def
  lastIndexOf_def bracketFree_def containsAny_def malformedChars_def hasPrefix_def isIP_def
  digitVal_def isDigit_def portInRange_def Atoi_def lowerChar_def char_of_def bit_Suc_0_iff
  trimSuffix_def hasSuffix_def Let_def

definition sample_url :: "string \<Rightarrow> url option" where
  "sample_url s = (if hasPrefix s ''http://''
     then Some \<lparr>u_Scheme = ''http'', u_User = False, u_Host = trimPrefix s ''http://'', u_Path = [],
       u_RawQuery = [], u_Fragment = []\<rparr> else None)"


lemma lowered_name_chars:
  assumes "map lowerChar h = name @ localSuffix" and "dnsLabel name" and "c \<in> set h"
  shows "(labelChar (lowerChar c) \<or> c = CHR ''.'') \<and> of_char c < (128 :: nat)"
proof -
  have "lowerChar c \<in> set (name @ localSuffix)" using assms(1,3) by (metis imageI list.set_map)
  then have l: "labelChar (lowerChar c) \<or> lowerChar c = CHR ''.''"
    using assms(2)
    by (auto simp: dnsLabel_def list_all_iff localSuffix_def labelChar_def isLower_def)
  have "of_char c < (128 :: nat)"
    using l by (cases "isUpper c")
      (auto simp: lowerChar_fix labelChar_def isLower_def isDigit_def digitVal_def isUpper_def Let_def
        split: if_splits)
  then show ?thesis using l lowerChar_eq [of "CHR ''.''" c] by auto
qed

lemma labelChar_punctuation:
  "labelChar c \<Longrightarrow> c \<notin> set malformedChars \<and> c \<notin> set '':[].''"
  by (auto simp: labelChar_def malformedChars_def isLower_def isDigit_def digitVal_def)

lemma two_dots_skip: "CHR ''.'' \<notin> set a \<Longrightarrow> containsStr (a @ b) ''..'' = containsStr b ''..''"
  by (induction a) (auto simp: hasPrefix_def)

lemma spelled_host:
  assumes low: "map lowerChar h = name @ localSuffix" and n: "dnsLabel name" and p: "portWf p"
  shows "canonicalAuthority (h @ '':'' @ p) = Inr (name @ localSuffix, p)"
proof -
  have chars: "c \<notin> set malformedChars \<and> c \<noteq> CHR '':'' \<and> c \<noteq> CHR ''['' \<and> c \<noteq> CHR '']''"
    if c: "c \<in> set h" for c
  proof (cases "c = CHR ''.''")
    case False
    then have l: "labelChar (lowerChar c)" using lowered_name_chars [OF low n c] by simp
    show ?thesis
    proof (cases "isUpper c")
      case True
      then show ?thesis by (auto simp: isUpper_def malformedChars_def)
    qed (use l labelChar_punctuation [of c] in \<open>simp add: lowerChar_fix\<close>)
  qed (simp add: malformedChars_def)
  have len: "h \<noteq> []" using low by (auto simp: localSuffix_def)
  have wf: "hostWf h" and colon: "CHR '':'' \<notin> set h"
    using chars len by (auto simp: hostWf_def hostText_def containsAny_iff)
  have asc: "ascii h"
    using lowered_name_chars [OF low n] by (simp add: ascii_def list_all_iff)
  have nodot: "CHR ''.'' \<notin> set name"
    using n by (auto simp: dnsLabel_def list_all_iff labelChar_def isLower_def isDigit_def digitVal_def)
  have "CHR ''l'' \<in> lowerChar ` set h"
    using low by (metis UnCI list.set_intros(1,2) list.set_map localSuffix_def set_append)
  then obtain c where c: "c \<in> set h" "lowerChar c = CHR ''l''" by auto
  have nip: "\<not> isIP h"
  proof
    assume ip: "isIP h"
    then have "ipv4Fields 0 0 0 h" by (rule isIP_no_colon [OF _ colon])
    from ipv4Fields_chars [OF this c(1)] c(2) show False
      by (auto simp: digitVal_def Let_def lowerChar_def split: if_splits)
  qed
  have h1: "trimSuffix (toLower h) ''.'' = name @ localSuffix"
    by (simp add: toLower_ascii [OF asc] low localSuffix_def trimSuffix_def hasSuffix_def)
  have "\<not> containsStr (name @ localSuffix) ''..''"
    unfolding two_dots_skip [OF nodot] by (simp add: localSuffix_def hasPrefix_def)
  moreover have "\<not> hasSuffix (name @ localSuffix) ''.''"
    by (simp add: localSuffix_def hasSuffix_def)
  moreover have "JoinHostPort h p = h @ '':'' @ p" using colon by (simp add: JoinHostPort_def)
  ultimately show ?thesis
    using canonical_Join [OF wf p] colon nip by (simp add: h1 Let_def localSuffix_def)
qed

text \<open>
  Every generated sandbox name is routed: for every name that the generator returns, a
  request for it on the daemon's port, in any mixture of upper and lower case, is given to the
  reverse proxy, which extracts exactly this name.
\<close>

theorem generated_name_is_routed:
  assumes "generateUniqueName fuel draw exists k s = Some (name, k', s')"
    and "map lowerChar h = name @ localSuffix" and "portWf p" and "SplitHostPort addr = Some (l, p)"
    and "r_Host r = h @ '':'' @ p"
  shows "LocalHandler parseURL addr r = Sandboxes \<and> extractSubdomain (r_Host r) = name"
proof -
  have n: "dnsLabel name" using generated_name_fresh [OF assms(1)] by simp
  have c: "canonicalAuthority (r_Host r) = Inr (name @ localSuffix, p)"
    unfolding assms(5) by (rule spelled_host [OF assms(2) n assms(3)])
  have s: "sandboxHost (name @ localSuffix)" using n by (simp add: sandboxHost_def)
  show ?thesis using c s not_both_hosts [OF s] assms(4)
    by (simp add: LocalHandler_def extractSubdomain_def)
qed

theorem generated_name_is_routed_witness:
  "\<exists>k' s'. generateUniqueName 1 (\<lambda>_ _. 5) (\<lambda>_ s. (False, s)) 0 () = Some (''angry-archimedes'', k', s') \<and>
     extractSubdomain ''ANGRY-Archimedes.localHOST:8080'' = ''angry-archimedes''"
proof -
  have n: "nameAt (\<lambda>_ _. 5) 0 = ''angry-archimedes''"
    by (simp add: nameAt_def adjectives_def surnames_def)
  then have g: "generateUniqueName 1 (\<lambda>_ _. 5) (\<lambda>_ s. (False, s)) 0 () = Some (''angry-archimedes'', 2, ())"
    by (simp add: generateUniqueName_def eval_nat_numeral)
  have "extractSubdomain (r_Host (sample_request ''ANGRY-Archimedes.localHOST:8080'' [])) = ''angry-archimedes''"
    by (rule generated_name_is_routed [OF g, where h = "''ANGRY-Archimedes.localHOST''" and p = "''8080''"
          and addr = "''127.0.0.1:8080''" and l = "''127.0.0.1''" and parseURL = sample_url, THEN conjunct2])
      (simp_all add: localSuffix_def lowerChar_def char_of_def bit_Suc_0_iff portWf_def isDigit_def
        digitVal_def portInRange_def Atoi_def SplitHostPort_def lastIndexOf_def bracketFree_def
        sample_request_def)
  then show ?thesis using g by (simp add: sample_request_def)
qed

section \<open>Properties of the proxy\<close>

definition canonicalPortText :: "string \<Rightarrow> bool" where
  "canonicalPortText p \<longleftrightarrow> (\<exists>n. 1 \<le> n \<and> n \<le> 65535 \<and> p = Itoa n)"

definition loopbackTarget :: "string \<Rightarrow> bool" where
  "loopbackTarget t \<longleftrightarrow> (\<exists>p. canonicalPortText p \<and> t = ''127.0.0.1:'' @ p)"

lemma checkedHostPort_published: "checkedHostPort hp = Inr p \<Longrightarrow> canonicalPortText p"
  by (cases "Atoi hp")
    (auto simp: checkedHostPort_def canonicalPortText_def split: if_splits intro!: exI [of _ "nat _"])

lemma resolveHostPort_published: "resolveHostPort sb = Inr p \<Longrightarrow> canonicalPortText p"
  unfolding resolveHostPort_def
  by (auto split: option.splits if_splits list.splits dest: checkedHostPort_published)

lemma resolve_db_effect:
  assumes "resolve_db F name s = (r, s')"
  shows "cache s' = cache s \<and> clock s' = clock s \<and> (case r of Inl _ \<Rightarrow> True | Inr t \<Rightarrow> loopbackTarget t)"
proof -
  obtain q d where q: "FindByName F False name (srv_db s) = (q, d)" by fastforce
  show ?thesis
  proof (cases q)
    case (Inl e)
    then show ?thesis using assms q by (auto simp: resolve_db_def prog_defs)
  next
    case (Inr sb)
    show ?thesis
    proof (cases sb)
      case None
      then show ?thesis using assms q Inr by (auto simp: resolve_db_def prog_defs)
    next
      case (Some row)
      then show ?thesis using assms q Inr resolveHostPort_published [of row]
        by (cases "resolveHostPort row") (auto simp: resolve_db_def prog_defs loopbackTarget_def split: sum.splits)
    qed
  qed
qed

lemma liveTarget_effect:
  assumes "liveTarget l name s = (r, s')"
  shows "cache s' = cache s \<and> (case r of Inl _ \<Rightarrow> True | Inr t \<Rightarrow> loopbackTarget t)"
proof (cases "l (clock s) name")
  case (Inl e)
  then show ?thesis using assms by (auto simp: liveTarget_def prog_defs split: sum.splits)
next
  case (Inr hp)
  then show ?thesis using assms checkedHostPort_published [of hp]
    by (cases "checkedHostPort hp")
      (auto simp: liveTarget_def prog_defs loopbackTarget_def JoinHostPort_def split: sum.splits)
qed

text \<open>A hit, a refused or a fresh look-up: the three ways \<open>resolve\<close> can end.\<close>

lemma resolve_cases:
  assumes "resolve time F name s = (r, s')"
  obtains (hit) e where "map_of (cache s) name = Some e" "time (clock s) \<le> ce_expiresAt e"
      "r = Inr (ce_target e)" "s' = s\<lparr>clock := Suc (clock s)\<rparr>"
  | (failed) err where "r = Inl err" "cache s' = cache s"
  | (fresh) t s1 s2 where "clock s1 \<in> {clock s, Suc (clock s)}" "srv_db s1 = srv_db s" "cache s1 = cache s"
      "resolve_db F name s1 = (Inr t, s2)" "r = Inr t"
      "s' = snd (cache_set time name t s2)"
proof -
  obtain h s1 where g: "cache_get time name s = (Inr h, s1)"
    by (cases "map_of (cache s) name") (auto simp: cache_get_def)
  show thesis
  proof (cases h)
    case (Some t)
    then show thesis using g assms hit
      by (auto simp: cache_get_def resolve_def prog_defs split: option.splits if_splits)
  next
    case None
    have s1: "clock s1 \<in> {clock s, Suc (clock s)}" "srv_db s1 = srv_db s" "cache s1 = cache s"
      using g by (auto simp: cache_get_def split: option.splits)
    obtain q s2 where q: "resolve_db F name s1 = (q, s2)" by fastforce
    show thesis
    proof (cases q)
      case (Inl e)
      then show thesis using failed g None q assms s1 resolve_db_effect [OF q]
        by (auto simp: resolve_def prog_defs)
    next
      case (Inr t)
      then show thesis using fresh [OF s1, of t s2] g None q assms
        by (auto simp: resolve_def prog_defs cache_set_def)
    qed
  qed
qed

definition cache_loopback :: "server \<Rightarrow> bool" where
  "cache_loopback s \<longleftrightarrow> (\<forall>e \<in> snd ` set (cache s). loopbackTarget (ce_target e))"

lemma cached_loopback: "cache_loopback s \<Longrightarrow> map_of (cache s) n = Some e \<Longrightarrow> loopbackTarget (ce_target e)"
  by (force simp: cache_loopback_def dest: map_of_SomeD)

lemma resolve_loopback:
  assumes "cache_loopback s" and "resolve time F name s = (r, s')"
  shows "cache_loopback s' \<and> (case r of Inl _ \<Rightarrow> True | Inr t \<Rightarrow> loopbackTarget t)"
  using assms(2)
proof (cases rule: resolve_cases)
  case (hit e)
  show ?thesis using cached_loopback [OF assms(1) hit(1)] assms(1)
    by (simp add: hit(3,4) cache_loopback_def)
next
  case (failed err)
  then show ?thesis using assms(1) by (simp add: cache_loopback_def)
next
  case (fresh t s1 s2)
  have "loopbackTarget t" "cache s2 = cache s"
    using fresh(3) resolve_db_effect [OF fresh(4)] by simp_all
  moreover have "set (cache s') \<subseteq> insert (name, \<lparr>ce_target = t, ce_expiresAt = time (clock s2) + routeTTL\<rparr>)
      (set (cache s2))"
    unfolding fresh(6) cache_set_def modify_def by auto
  ultimately show ?thesis using assms(1) fresh(5) by (fastforce simp: cache_loopback_def)
qed


definition sample_server :: server where
  "sample_server = \<lparr>srv_db = \<lparr>sandboxes = [\<lparr>sb_ID = ''sbx-1'', sb_NativeID = Some ''c1'',
       sb_ImageRoot = [], sb_ImageManifest = [], sb_NativeImage = [], sb_CacheVersion = [],
       sb_RecoveryError = [], sb_RuntimeKind = ''docker'', sb_AttemptToken = [], sb_ExpiresAt = None,
       sb_Name = ''web'', sb_Image = [], sb_Ports = [(''80/tcp'', ''032768'')], sb_Port = ''80/tcp''\<rparr>],
     operations = [], commands = [], stmts = 0\<rparr>, cache = [], clock = 0\<rparr>"

lemma sample_resolve:
  "resolve (\<lambda>_. 0) (\<lambda>_. None) ''web'' sample_server =
     (Inr ''127.0.0.1:32768'', sample_server\<lparr>srv_db := (srv_db sample_server)\<lparr>stmts := 1\<rparr>,
        cache := [(''web'', \<lparr>ce_target = ''127.0.0.1:32768'', ce_expiresAt = routeTTL\<rparr>)], clock := 1\<rparr>)"
  by (simp add: resolve_def cache_get_def sample_server_def prog_defs resolve_db_def FindByName_def
      query_def stmt_def first_row_def nativeRow_def resolveHostPort_def checkedHostPort_def
      cache_set_def hasSuffix_def decimal_eval store_def)


section \<open>The route cache\<close>

text \<open>
  What can happen to the proxy: a request for a name, an invalidation by the runtime adapter,
  and a commit that replaces the tables.
\<close>

datatype proxy_event = Request string | Invalidate string | Commit db

fun proxy_step :: "(nat \<Rightarrow> int) \<Rightarrow> faults \<Rightarrow> proxy_event \<Rightarrow> server \<Rightarrow> server" where
  "proxy_step time F (Request name) s = snd (resolve time F name s)"
| "proxy_step time F (Invalidate name) s = cache_Invalidate name s"
| "proxy_step time F (Commit d) s = s\<lparr>srv_db := d\<rparr>"

definition proxy_run :: "(nat \<Rightarrow> int) \<Rightarrow> faults \<Rightarrow> proxy_event list \<Rightarrow> server \<Rightarrow> server" where
  "proxy_run time F es s = fold (proxy_step time F) es s"

text \<open>
  A target \<open>t\<close> of \<open>name\<close> is justified at \<open>deadline\<close> when some earlier request found it in the
  table, no invalidation of the name came after that request, and it ended at most one time to
  live before the deadline.
\<close>

definition justified ::
    "(nat \<Rightarrow> int) \<Rightarrow> faults \<Rightarrow> server \<Rightarrow> proxy_event list \<Rightarrow> string \<Rightarrow> string \<Rightarrow> int \<Rightarrow> bool" where
  "justified time F s0 es name t deadline \<longleftrightarrow>
     (\<exists>es1 es2. es = es1 @ Request name # es2 \<and> Invalidate name \<notin> set es2 \<and>
        fst (resolve_db F name (proxy_run time F es1 s0)) = Inr t \<and>
        deadline \<le> time (clock (proxy_run time F (es1 @ [Request name]) s0)) + routeTTL)"

lemma justified_snoc:
  "justified time F s0 es name t dl \<Longrightarrow> e \<noteq> Invalidate name \<Longrightarrow>
     justified time F s0 (es @ [e]) name t dl"
  unfolding justified_def by (metis Cons_eq_appendI UnE append_assoc empty_iff list.set(1) set_ConsD set_append)

lemma resolve_db_same:
  assumes "srv_db s1 = srv_db s"
  shows "fst (resolve_db F name s1) = fst (resolve_db F name s)"
proof -
  obtain q d where "FindByName F False name (srv_db s) = (q, d)" by fastforce
  then show ?thesis using assms
    by (cases q) (auto simp: resolve_db_def prog_defs split: option.split sum.split)
qed

lemma cache_justified:
  assumes mono: "\<And>i. time i \<le> time (Suc i)" and empty: "cache s0 = []"
  shows "map_of (cache (proxy_run time F es s0)) name = Some e \<Longrightarrow>
    justified time F s0 es name (ce_target e) (ce_expiresAt e)"
proof (induction es arbitrary: e rule: rev_induct)
  case Nil
  then show ?case by (simp add: proxy_run_def empty)
next
  case (snoc ev es)
  let ?s = "proxy_run time F es s0"
  have step: "proxy_run time F (es @ [ev]) s0 = proxy_step time F ev ?s" by (simp add: proxy_run_def)
  have old: ?case if "map_of (cache ?s) name = Some e" "ev \<noteq> Invalidate name"
    using justified_snoc [OF snoc.IH [OF that(1)] that(2)] .
  show ?case
  proof (cases ev)
    case (Request n)
    obtain r s' where r: "resolve time F n ?s = (r, s')" by fastforce
    then have s': "proxy_run time F (es @ [Request n]) s0 = s'" using step Request by simp
    from r show ?thesis
    proof (cases rule: resolve_cases)
      case (hit e1)
      then show ?thesis using old snoc.prems s' Request by simp
    next
      case (failed err)
      then show ?thesis using old snoc.prems s' Request by simp
    next
      case (fresh t s1 s2)
      let ?e = "\<lparr>ce_target = t, ce_expiresAt = time (clock s2) + routeTTL\<rparr>"
      have c: "cache s' = store n ?e (cache ?s)" "clock s' = Suc (clock s2)"
        using fresh(3,6) resolve_db_effect [OF fresh(4)] by (simp_all add: cache_set_def modify_def)
      have cur: "fst (resolve_db F n ?s) = Inr t"
        using resolve_db_same [OF fresh(2), of F n] fresh(4) by simp
      show ?thesis
      proof (cases "n = name")
        case True
        then have e: "e = ?e" using snoc.prems s' Request c by simp
        show ?thesis
          unfolding justified_def e Request True
          using cur s' c mono [of "clock s2"] True
          by (intro exI [of _ es] exI [of _ "[]"]) auto
      next
        case False
        then have "map_of (cache ?s) name = Some e"
          using snoc.prems s' Request c by simp
        then show ?thesis using old Request by simp
      qed
    qed
  next
    case (Invalidate n)
    have "map_of (cache ?s) name = Some e \<and> n \<noteq> name"
      using snoc.prems Invalidate step by (auto simp: cache_Invalidate_def split: if_splits)
    then show ?thesis using old Invalidate by simp
  next
    case (Commit d)
    then show ?thesis using old snoc.prems step by simp
  qed
qed



end
