(* ===== verification/Recovery_Queue.thy ===== *)
theory Recovery_Queue
  imports Prelude
begin

text \<open>
  \<open>src/internal/runtimeio/recovery.go\<close>: the queue of deferred recovery work under concurrency.
  Every goroutine inside \<open>Run\<close> is a worker; what it does between two releases of the queue's
  mutex is one step, and a step is chosen by an event, so every interleaving is a list of
  events. The work itself is the library client's: an attempt may end at any later moment with
  any result. The ghost field \<open>qlog\<close> records when attempts began and ended.

  The atomic view of the queue that the Docker adapter's handlers use (\<open>Schedule\<close> and \<open>runJob\<close>
  of \<open>Docker_World\<close> and \<open>Docker_Recovery\<close>) rests on what is proved here: attempts never
  overlap, and a job stays registered until an attempt succeeds or the queue is stopped.
\<close>

section \<open>State\<close>

text \<open>
  A job has an address; \<open>qj_active\<close> is the worker that runs it (\<open>job.cancel != nil\<close>). A worker is
  on its way to the mutex, or sleeps in the \<open>select\<close>, or runs the work with a context that may
  have been canceled.
\<close>

record qjob =
  qj_addr :: nat
  qj_timer :: bool
  qj_active :: "nat option"

datatype worker =
    Entering string
  | Waiting string nat
  | Working string nat bool

datatype attempt = Begin string int | End string int

record queue =
  qjobs :: "(string \<times> qjob) list"
  qclosed :: bool
  qrunning :: bool
  nextAttempt :: int
  qclock :: int
  workers :: "(nat \<times> worker) list"
  nextAddr :: nat
  returned :: "(nat \<times> err option) list"
  qlog :: "attempt list"

definition emptyQueue :: "int \<Rightarrow> queue" where
  "emptyQueue t = \<lparr>qjobs = [], qclosed = False, qrunning = False, nextAttempt = t, qclock = t,
     workers = [], nextAddr = 0, returned = [], qlog = []\<rparr>"

definition recoveryYield :: int where
  "recoveryYield = 100000000"

section \<open>Operations\<close>

definition q_Schedule :: "string \<Rightarrow> queue \<Rightarrow> queue" where
  "q_Schedule key q =
     (if qclosed q then q
      else if map_of (qjobs q) key \<noteq> None then q
      else q\<lparr>qjobs := store key \<lparr>qj_addr = nextAddr q, qj_timer = True, qj_active = None\<rparr> (qjobs q),
             nextAddr := Suc (nextAddr q)\<rparr>)"

definition finish_worker :: "nat \<Rightarrow> err option \<Rightarrow> queue \<Rightarrow> queue" where
  "finish_worker w e q = q\<lparr>workers := remove_key w (workers q), returned := (w, e) # returned q\<rparr>"

text \<open>The head of the loop in \<open>Run\<close>, under the mutex.\<close>

definition run_locked :: "nat \<Rightarrow> string \<Rightarrow> queue \<Rightarrow> queue" where
  "run_locked w key q =
     (case map_of (qjobs q) key of
        None \<Rightarrow> finish_worker w None q
      | Some job \<Rightarrow>
          if qclosed q \<or> qj_active job \<noteq> None then finish_worker w None q
          else
            let stopped = job\<lparr>qj_timer := False\<rparr> in
            if qrunning q \<or> qclock q < nextAttempt q then
              q\<lparr>qjobs := store key stopped (qjobs q),
                workers := store w (Waiting key (qj_addr job)) (workers q)\<rparr>
            else
              q\<lparr>qjobs := store key (stopped\<lparr>qj_active := Some w\<rparr>) (qjobs q), qrunning := True,
                workers := store w (Working key (qj_addr job) False) (workers q),
                qlog := Begin key (qclock q) # qlog q\<rparr>)"

text \<open>The \<open>parent.Done\<close> branch of the \<open>select\<close>.\<close>

definition parent_done :: "nat \<Rightarrow> string \<Rightarrow> nat \<Rightarrow> err \<Rightarrow> queue \<Rightarrow> queue" where
  "parent_done w key addr e q =
     finish_worker w (Some e)
       (case map_of (qjobs q) key of
          None \<Rightarrow> q
        | Some job \<Rightarrow>
            if \<not> qclosed q \<and> qj_addr job = addr \<and> qj_active job = None
            then q\<lparr>qjobs := store key (job\<lparr>qj_timer := True\<rparr>) (qjobs q)\<rparr>
            else q)"

text \<open>After the work has returned \<open>e\<close>.\<close>

definition work_done :: "nat \<Rightarrow> string \<Rightarrow> nat \<Rightarrow> err option \<Rightarrow> queue \<Rightarrow> queue" where
  "work_done w key addr e q =
     (let q1 = q\<lparr>qrunning := False, nextAttempt := qclock q + recoveryYield,
                 qlog := End key (qclock q) # qlog q\<rparr> in
      finish_worker w e
        (case map_of (qjobs q) key of
           None \<Rightarrow> q1
         | Some job \<Rightarrow>
             if qclosed q \<or> qj_addr job \<noteq> addr then q1
             else if e = None then q1\<lparr>qjobs := remove_key key (qjobs q)\<rparr>
             else q1\<lparr>qjobs := store key (job\<lparr>qj_active := None, qj_timer := True\<rparr>) (qjobs q)\<rparr>))"

definition cancel_worker :: "(string \<times> qjob) list \<Rightarrow> nat \<times> worker \<Rightarrow> nat \<times> worker" where
  "cancel_worker js wk = (case wk of
     (w, Working key addr c) \<Rightarrow>
       (w, Working key addr (c \<or> (case map_of js key of None \<Rightarrow> False | Some j \<Rightarrow> qj_active j = Some w)))
   | _ \<Rightarrow> wk)"

definition q_Stop :: "queue \<Rightarrow> queue" where
  "q_Stop q = q\<lparr>qclosed := True, workers := map (cancel_worker (qjobs q)) (workers q), qjobs := []\<rparr>"

section \<open>Events\<close>

text \<open>
  \<open>Fire\<close>: the timer of a job starts a goroutine. \<open>Call\<close>: \<open>Run\<close> is called directly. \<open>Proceed\<close>: a worker
  gets the mutex. \<open>Abandon\<close>: the parent context of a sleeping worker is done. \<open>Return\<close>: the work
  of a worker returns. \<open>Elapse\<close>: time passes.
\<close>

datatype qevent =
    Register string
  | Fire nat string
  | Call nat string
  | Proceed nat
  | Abandon nat err
  | Return nat "err option"
  | StopQueue
  | Elapse nat

definition spawn :: "nat \<Rightarrow> string \<Rightarrow> queue \<Rightarrow> queue option" where
  "spawn w key q =
     (if map_of (workers q) w = None then Some (q\<lparr>workers := store w (Entering key) (workers q)\<rparr>)
      else None)"

fun qstep :: "qevent \<Rightarrow> queue \<Rightarrow> queue option" where
  "qstep (Register key) q = Some (q_Schedule key q)"
| "qstep (Fire w key) q =
     (case map_of (qjobs q) key of
        None \<Rightarrow> None
      | Some job \<Rightarrow>
          if qj_timer job
          then spawn w key (q\<lparr>qjobs := store key (job\<lparr>qj_timer := False\<rparr>) (qjobs q)\<rparr>)
          else None)"
| "qstep (Call w key) q = spawn w key q"
| "qstep (Proceed w) q =
     (case map_of (workers q) w of
        Some (Entering key) \<Rightarrow> Some (run_locked w key q)
      | Some (Waiting key _) \<Rightarrow> Some (run_locked w key q)
      | _ \<Rightarrow> None)"
| "qstep (Abandon w e) q =
     (case map_of (workers q) w of
        Some (Waiting key addr) \<Rightarrow> Some (parent_done w key addr e q)
      | _ \<Rightarrow> None)"
| "qstep (Return w e) q =
     (case map_of (workers q) w of
        Some (Working key addr _) \<Rightarrow> Some (work_done w key addr e q)
      | _ \<Rightarrow> None)"
| "qstep StopQueue q = Some (q_Stop q)"
| "qstep (Elapse n) q = Some (q\<lparr>qclock := qclock q + int n\<rparr>)"

inductive q_reachable :: "queue \<Rightarrow> bool" where
  start: "q_reachable (emptyQueue t)"
| step: "q_reachable q \<Longrightarrow> qstep ev q = Some q' \<Longrightarrow> q_reachable q'"

section \<open>The invariant\<close>

text \<open>
  At any moment there is at most one attempt in progress, \<open>b\<close>: its worker, key and job. Every
  registered job is attended: its timer is armed, or a worker is on its way to it, waits for
  it or runs it.
\<close>

type_synonym busy = "(nat \<times> string \<times> nat) option"

definition visits :: "queue \<Rightarrow> nat \<Rightarrow> string \<Rightarrow> nat \<Rightarrow> bool" where
  "visits q w key addr \<longleftrightarrow>
     map_of (workers q) w = Some (Entering key) \<or> map_of (workers q) w = Some (Waiting key addr)"

definition attended :: "queue \<Rightarrow> string \<Rightarrow> qjob \<Rightarrow> bool" where
  "attended q key job \<longleftrightarrow>
     qj_timer job \<or> qj_active job \<noteq> None \<or> (\<exists>w. visits q w key (qj_addr job))"

fun spaced :: "attempt list \<Rightarrow> bool" where
  "spaced [] = True"
| "spaced [Begin k t] = True"
| "spaced (Begin k t # End k' t' # l) = (t' + recoveryYield \<le> t \<and> spaced (End k' t' # l))"
| "spaced (End k t # Begin k' t' # l) = (k = k' \<and> t' \<le> t \<and> spaced (Begin k' t' # l))"
| "spaced _ = False"

definition working_inv :: "busy \<Rightarrow> queue \<Rightarrow> bool" where
  "working_inv b q \<longleftrightarrow>
     (\<forall>w k a c. map_of (workers q) w = Some (Working k a c) \<longrightarrow> b = Some (w, k, a) \<and> (qclosed q \<longrightarrow> c)) \<and>
     (\<forall>w k a. b = Some (w, k, a) \<longrightarrow> (\<exists>c. map_of (workers q) w = Some (Working k a c)))"

definition jobs_inv :: "busy \<Rightarrow> queue \<Rightarrow> bool" where
  "jobs_inv b q \<longleftrightarrow>
     (qclosed q \<longrightarrow> qjobs q = []) \<and>
     (\<forall>k j w. map_of (qjobs q) k = Some j \<longrightarrow> (qj_active j = Some w \<longleftrightarrow> b = Some (w, k, qj_addr j))) \<and>
     (\<forall>w k a. b = Some (w, k, a) \<longrightarrow> \<not> qclosed q \<longrightarrow> (\<exists>j. map_of (qjobs q) k = Some j \<and> qj_addr j = a))"

definition attended_inv :: "queue \<Rightarrow> bool" where
  "attended_inv q \<longleftrightarrow> (\<forall>k j. map_of (qjobs q) k = Some j \<longrightarrow> attended q k j)"

definition rested :: "int \<Rightarrow> attempt list \<Rightarrow> bool" where
  "rested n l \<longleftrightarrow> (case l of End k t # _ \<Rightarrow> n = t + recoveryYield | [] \<Rightarrow> True | _ \<Rightarrow> False)"

definition begun :: "string \<Rightarrow> int \<Rightarrow> attempt list \<Rightarrow> bool" where
  "begun k t l \<longleftrightarrow> (\<exists>t0 l0. l = Begin k t0 # l0 \<and> t0 \<le> t)"

definition log_inv :: "busy \<Rightarrow> queue \<Rightarrow> bool" where
  "log_inv b q \<longleftrightarrow> spaced (qlog q) \<and> qrunning q = (b \<noteq> None) \<and>
     (b = None \<longrightarrow> rested (nextAttempt q) (qlog q)) \<and>
     (\<forall>w k a. b = Some (w, k, a) \<longrightarrow> begun k (qclock q) (qlog q))"

definition q_inv :: "queue \<Rightarrow> bool" where
  "q_inv q \<longleftrightarrow> (\<exists>b. working_inv b q \<and> jobs_inv b q \<and> attended_inv q \<and> log_inv b q)"

lemma map_of_cancel:
  "map_of (map (cancel_worker js) ws) w = map_option (\<lambda>x. snd (cancel_worker js (w, x))) (map_of ws w)"
  by (induction ws) (auto simp: cancel_worker_def split: worker.splits prod.splits)

lemma inv_start: "q_inv (emptyQueue t)"
  unfolding q_inv_def
  by (rule exI [of _ None])
    (simp add: working_inv_def jobs_inv_def attended_inv_def log_inv_def rested_def emptyQueue_def)

lemma attended_transfer:
  assumes "attended_inv q"
    and jobs: "\<And>k j'. map_of (qjobs q') k = Some j' \<Longrightarrow> attended q' k j' \<or>
      (\<exists>j. map_of (qjobs q) k = Some j \<and> qj_addr j = qj_addr j' \<and> \<not> qj_timer j \<and> qj_active j = None)"
    and visits: "\<And>w k j'. map_of (qjobs q') k = Some j' \<Longrightarrow> visits q w k (qj_addr j') \<Longrightarrow>
      \<not> qj_timer j' \<Longrightarrow> qj_active j' = None \<Longrightarrow> visits q' w k (qj_addr j')"
  shows "attended_inv q'"
  unfolding attended_inv_def
proof (intro allI impI)
  fix k j' assume j': "map_of (qjobs q') k = Some j'"
  show "attended q' k j'"
  proof (rule ccontr)
    assume no: "\<not> attended q' k j'"
    then obtain j where j: "map_of (qjobs q) k = Some j" "qj_addr j = qj_addr j'" "\<not> qj_timer j"
        "qj_active j = None"
      using jobs [OF j'] by blast
    then obtain w where "visits q w k (qj_addr j')"
      using assms(1) [unfolded attended_inv_def, rule_format, OF j(1)] by (auto simp: attended_def)
    then have "visits q' w k (qj_addr j')" using visits [OF j'] no by (auto simp: attended_def)
    then show False using no by (auto simp: attended_def)
  qed
qed

lemma spaced_Begin:
  "spaced l \<Longrightarrow> rested n l \<Longrightarrow> n \<le> t \<Longrightarrow> spaced (Begin k t # l)"
  by (cases l) (auto simp: rested_def split: attempt.splits)

text \<open>Steps that change neither the attempt in progress nor the workers that run.\<close>

lemma inv_Register:
  assumes "q_inv q"
  shows "q_inv (q_Schedule key q)"
proof -
  obtain b where b: "working_inv b q" "jobs_inv b q" "attended_inv q" "log_inv b q"
    using assms by (auto simp: q_inv_def)
  have "working_inv b (q_Schedule key q)" "log_inv b (q_Schedule key q)"
    using b(1,4) by (auto simp: working_inv_def log_inv_def q_Schedule_def)
  moreover have "attended_inv (q_Schedule key q)"
    using b(3) by (auto simp: attended_inv_def attended_def visits_def q_Schedule_def)
  moreover have "jobs_inv b (q_Schedule key q)"
    using b(2) by (auto simp: jobs_inv_def q_Schedule_def)
  ultimately show ?thesis by (auto simp: q_inv_def)
qed

definition same_busy :: "queue \<Rightarrow> queue \<Rightarrow> bool" where
  "same_busy q q' \<longleftrightarrow> qclosed q' = qclosed q \<and> qlog q' = qlog q \<and> qrunning q' = qrunning q \<and>
     qclock q' = qclock q \<and> nextAttempt q' = nextAttempt q \<and>
     (\<forall>w k a c. map_of (workers q') w = Some (Working k a c) \<longleftrightarrow>
        map_of (workers q) w = Some (Working k a c)) \<and>
     (\<forall>k. map_option (\<lambda>j. (qj_addr j, qj_active j)) (map_of (qjobs q') k) =
          map_option (\<lambda>j. (qj_addr j, qj_active j)) (map_of (qjobs q) k))"

lemma inv_same_busy:
  assumes "q_inv q" and same: "same_busy q q'" and att: "attended_inv q'"
  shows "q_inv q'"
proof -
  obtain b where b: "working_inv b q" "jobs_inv b q" "log_inv b q"
    using assms by (auto simp: q_inv_def)
  have "working_inv b q'" using b(1) same by (auto simp: working_inv_def same_busy_def)
  moreover have "log_inv b q'" using b(3) same by (simp add: log_inv_def same_busy_def)
  moreover have "jobs_inv b q'"
  proof -
    have e: "map_option (\<lambda>j. (qj_addr j, qj_active j)) (map_of (qjobs q') k) =
        map_option (\<lambda>j. (qj_addr j, qj_active j)) (map_of (qjobs q) k)" for k
      using same by (simp add: same_busy_def)
    have fwd: "\<exists>j0. map_of (qjobs q) k = Some j0 \<and> qj_addr j0 = qj_addr j \<and> qj_active j0 = qj_active j"
      if "map_of (qjobs q') k = Some j" for k j
      using e [of k] that by (cases "map_of (qjobs q) k") auto
    have "qclosed q' \<longrightarrow> qjobs q' = []"
    proof
      assume "qclosed q'"
      then have "qjobs q = []" using same b(2) by (simp add: same_busy_def jobs_inv_def)
      then have "map_of (qjobs q') k = None" for k using fwd [of k] by (cases "map_of (qjobs q') k") auto
      then show "qjobs q' = []" by (metis map_of_eq_None_iff image_is_empty equals0I set_empty)
    qed
    moreover note fwd
    moreover have "\<exists>j. map_of (qjobs q') k = Some j \<and> qj_addr j = qj_addr j0"
      if "map_of (qjobs q) k = Some j0" for k j0
      using e [of k] that by (cases "map_of (qjobs q') k") auto
    moreover have "qclosed q' = qclosed q" using same by (simp add: same_busy_def)
    ultimately show ?thesis using b(2) unfolding jobs_inv_def
      by (intro conjI allI impI; simp?) (metis (no_types, lifting))+
  qed
  ultimately show ?thesis using att by (auto simp: q_inv_def)
qed

lemma inv_spawn:
  assumes "q_inv q" and "spawn w key q = Some q'"
  shows "q_inv q'"
proof (rule inv_same_busy [OF assms(1)])
  show "same_busy q q'" using assms(2) by (auto simp: spawn_def same_busy_def split: if_splits)
  have att: "attended_inv q" using assms(1) by (auto simp: q_inv_def)
  show "attended_inv q'"
    by (rule attended_transfer [OF att])
      (use assms(2) att in \<open>auto simp: spawn_def visits_def attended_inv_def attended_def split: if_splits\<close>)
qed

lemma inv_Fire:
  assumes "q_inv q" and "qstep (Fire w key) q = Some q'"
  shows "q_inv q'"
proof (rule inv_same_busy [OF assms(1)])
  obtain j where j: "map_of (qjobs q) key = Some j"
    and q': "spawn w key (q\<lparr>qjobs := store key (j\<lparr>qj_timer := False\<rparr>) (qjobs q)\<rparr>) = Some q'"
    using assms(2) by (auto split: option.splits if_splits)
  then show "same_busy q q'" by (auto simp: spawn_def same_busy_def split: if_splits)
  have att: "attended_inv q" using assms(1) by (auto simp: q_inv_def)
  have w: "map_of (workers q) w = None" and q'': "qjobs q' = store key (j\<lparr>qj_timer := False\<rparr>) (qjobs q)"
      "workers q' = store w (Entering key) (workers q)"
    using q' by (auto simp: spawn_def split: if_splits)
  show "attended_inv q'"
  proof (rule attended_transfer [OF att])
    fix k j' assume "map_of (qjobs q') k = Some j'"
    then show "attended q' k j' \<or> (\<exists>j. map_of (qjobs q) k = Some j \<and> qj_addr j = qj_addr j' \<and>
        \<not> qj_timer j \<and> qj_active j = None)"
      using q'' by (cases "k = key") (auto simp: attended_def visits_def)
  qed (use w q'' in \<open>auto simp: visits_def\<close>)
qed

text \<open>A worker that leaves attends to nothing that is registered and idle.\<close>

lemma attended_leave:
  assumes "attended_inv q"
    and "\<And>k j. map_of (qjobs q) k = Some j \<Longrightarrow> qj_timer j \<or> qj_active j \<noteq> None \<or> \<not> visits q w k (qj_addr j)"
  shows "attended_inv (finish_worker w e q)"
proof (rule attended_transfer [OF assms(1)])
  show "attended (finish_worker w e q) k j' \<or> (\<exists>j. map_of (qjobs q) k = Some j \<and> qj_addr j = qj_addr j' \<and>
      \<not> qj_timer j \<and> qj_active j = None)" if "map_of (qjobs (finish_worker w e q)) k = Some j'" for k j'
    using that by (auto simp: finish_worker_def attended_def)
  show "visits (finish_worker w e q) v k (qj_addr j')"
    if "map_of (qjobs (finish_worker w e q)) k = Some j'" "visits q v k (qj_addr j')"
      "\<not> qj_timer j'" "qj_active j' = None" for v k j'
    using assms(2) [of k j'] that by (cases "v = w") (auto simp: finish_worker_def visits_def)
qed

definition sleeps :: "queue \<Rightarrow> nat \<Rightarrow> string \<Rightarrow> bool" where
  "sleeps q w key \<longleftrightarrow> (map_of (workers q) w = Some (Entering key) \<or>
     (\<exists>a. map_of (workers q) w = Some (Waiting key a)))"

lemma same_busy_leave:
  "sleeps q w key \<Longrightarrow> same_busy q (finish_worker w e q)"
  by (auto simp: same_busy_def finish_worker_def sleeps_def)

text \<open>The head of the loop.\<close>

lemma inv_run:
  assumes inv: "q_inv q" and w: "sleeps q w key"
  shows "q_inv (run_locked w key q)"
proof -
  obtain b where b: "working_inv b q" "jobs_inv b q" "attended_inv q" "log_inv b q"
    using inv by (auto simp: q_inv_def)
  have leave: "q_inv (finish_worker w None q)"
    if "\<And>j. map_of (qjobs q) key = Some j \<Longrightarrow> qj_active j \<noteq> None"
  proof (rule inv_same_busy [OF inv same_busy_leave [OF w] attended_leave [OF b(3)]])
    fix k j assume "map_of (qjobs q) k = Some j"
    then show "qj_timer j \<or> qj_active j \<noteq> None \<or> \<not> visits q w k (qj_addr j)"
      using that w by (cases "k = key") (auto simp: sleeps_def visits_def)
  qed
  show ?thesis
  proof (cases "map_of (qjobs q) key")
    case None
    then show ?thesis using leave by (simp add: run_locked_def)
  next
    case (Some j)
    then have opn: "\<not> qclosed q" using b(2) by (auto simp: jobs_inv_def)
    show ?thesis
    proof (cases "qj_active j = None")
      case False
      then show ?thesis using leave Some by (simp add: run_locked_def)
    next
      case idle: True
      show ?thesis
      proof (cases "qrunning q \<or> qclock q < nextAttempt q")
        case True
        let ?q = "q\<lparr>qjobs := store key (j\<lparr>qj_timer := False\<rparr>) (qjobs q),
                workers := store w (Waiting key (qj_addr j)) (workers q)\<rparr>"
        have "q_inv ?q"
        proof (rule inv_same_busy [OF inv])
          show "same_busy q ?q" using w Some by (auto simp: same_busy_def sleeps_def)
          show "attended_inv ?q"
          proof (rule attended_transfer [OF b(3)])
            fix k j' assume "map_of (qjobs ?q) k = Some j'"
            then show "attended ?q k j' \<or> (\<exists>j. map_of (qjobs q) k = Some j \<and>
                qj_addr j = qj_addr j' \<and> \<not> qj_timer j \<and> qj_active j = None)"
              by (cases "k = key") (auto simp: attended_def visits_def)
          qed (use w Some in \<open>auto simp: visits_def sleeps_def split: if_splits\<close>)
        qed
        then show ?thesis using Some idle opn True by (simp add: run_locked_def Let_def)
      next
        case False
        let ?q = "q\<lparr>qjobs := store key (j\<lparr>qj_timer := False, qj_active := Some w\<rparr>) (qjobs q),
                qrunning := True, workers := store w (Working key (qj_addr j) False) (workers q),
                qlog := Begin key (qclock q) # qlog q\<rparr>"
        let ?b = "Some (w, key, qj_addr j)"
        have nb: "b = None" using False b(4) by (cases b) (auto simp: log_inv_def)
        have "working_inv ?b ?q" using b(1) nb opn by (auto simp: working_inv_def)
        moreover have "jobs_inv ?b ?q" using b(2) nb opn by (auto simp: jobs_inv_def)
        moreover have "log_inv ?b ?q"
          using b(4) nb False spaced_Begin [of "qlog q" "nextAttempt q" "qclock q" key]
          by (auto simp: log_inv_def begun_def)
        moreover have "attended_inv ?q"
        proof (rule attended_transfer [OF b(3)])
          fix k j' assume "map_of (qjobs ?q) k = Some j'"
          then show "attended ?q k j' \<or> (\<exists>j. map_of (qjobs q) k = Some j \<and>
              qj_addr j = qj_addr j' \<and> \<not> qj_timer j \<and> qj_active j = None)"
            by (cases "k = key") (auto simp: attended_def)
        qed (use w in \<open>auto simp: visits_def sleeps_def split: if_splits\<close>)
        ultimately have "q_inv ?q" unfolding q_inv_def by blast
        then show ?thesis using Some idle opn False by (simp add: run_locked_def Let_def)
      qed
    qed
  qed
qed

lemma inv_Abandon:
  assumes inv: "q_inv q" and w: "map_of (workers q) w = Some (Waiting key addr)"
  shows "q_inv (parent_done w key addr e q)"
proof -
  let ?rearm = "\<lambda>j. q\<lparr>qjobs := store key (j\<lparr>qj_timer := True\<rparr>) (qjobs q)\<rparr>"
  have att: "attended_inv q" using inv by (auto simp: q_inv_def)
  have leave: "q_inv (finish_worker w (Some e) q)"
    if "\<And>j. map_of (qjobs q) key = Some j \<Longrightarrow> qj_active j \<noteq> None \<or> qj_addr j \<noteq> addr"
    by (rule inv_same_busy [OF inv same_busy_leave attended_leave [OF att]])
      (use w that in \<open>auto simp: sleeps_def visits_def\<close>)
  have rearm: "q_inv (finish_worker w (Some e) (?rearm j))" if j: "map_of (qjobs q) key = Some j" for j
  proof (rule inv_same_busy [OF inv])
    show "same_busy q (finish_worker w (Some e) (?rearm j))"
      using w j by (auto simp: same_busy_def finish_worker_def)
    show "attended_inv (finish_worker w (Some e) (?rearm j))"
      by (rule attended_leave, rule attended_transfer [OF att])
        (use w in \<open>auto simp: attended_def visits_def split: if_splits\<close>)
  qed
  have opn: "qclosed q \<Longrightarrow> map_of (qjobs q) key = None"
    using inv by (auto simp: q_inv_def jobs_inv_def)
  show ?thesis
    using leave rearm opn by (auto simp: parent_done_def split: option.split)
qed

lemma inv_Return:
  assumes inv: "q_inv q" and w: "map_of (workers q) w = Some (Working key addr c)"
  shows "q_inv (work_done w key addr e q)"
proof -
  obtain b where b: "working_inv b q" "jobs_inv b q" "attended_inv q" "log_inv b q"
    using inv by (auto simp: q_inv_def)
  have busy: "b = Some (w, key, addr)" using b(1) w by (auto simp: working_inv_def)
  obtain t l where log: "qlog q = Begin key t # l" "t \<le> qclock q" "spaced (qlog q)"
    using b(4) busy by (auto simp: log_inv_def begun_def)
  let ?q1 = "q\<lparr>qrunning := False, nextAttempt := qclock q + recoveryYield,
                 qlog := End key (qclock q) # qlog q\<rparr>"
  have step: "q_inv (finish_worker w e (?q1\<lparr>qjobs := js\<rparr>))"
    if closed: "qclosed q \<Longrightarrow> js = []"
      and idle: "\<And>k j. map_of js k = Some j \<Longrightarrow> qj_active j = None"
      and same: "\<And>k j. map_of js k = Some j \<Longrightarrow> qj_timer j \<or> map_of (qjobs q) k = Some j"
    for js
  proof -
    let ?q = "finish_worker w e (?q1\<lparr>qjobs := js\<rparr>)"
    have "working_inv None ?q" using b(1) busy by (auto simp: working_inv_def finish_worker_def)
    moreover have "jobs_inv None ?q" using closed idle by (auto simp: jobs_inv_def finish_worker_def)
    moreover have "log_inv None ?q" using log by (auto simp: log_inv_def rested_def finish_worker_def)
    moreover have "attended_inv ?q"
    proof (rule attended_leave)
      show "attended_inv (?q1\<lparr>qjobs := js\<rparr>)"
      proof (rule attended_transfer [OF b(3)])
        fix k j' assume "map_of (qjobs (?q1\<lparr>qjobs := js\<rparr>)) k = Some j'"
        then have "qj_timer j' \<or> map_of (qjobs q) k = Some j'" "qj_active j' = None"
          using same [of k j'] idle [of k j'] by simp_all
        then show "attended (?q1\<lparr>qjobs := js\<rparr>) k j' \<or> (\<exists>j. map_of (qjobs q) k = Some j \<and>
            qj_addr j = qj_addr j' \<and> \<not> qj_timer j \<and> qj_active j = None)"
          by (cases "qj_timer j'") (simp_all add: attended_def)
      qed (simp add: visits_def)
    qed (use w in \<open>auto simp: visits_def\<close>)
    ultimately show ?thesis unfolding q_inv_def by blast
  qed
  have others: "qj_active j = None" if "map_of (qjobs q) k = Some j" "k \<noteq> key" for k j
    using b(2) busy that by (cases "qj_active j") (auto simp: jobs_inv_def)
  show ?thesis
  proof (cases "qclosed q")
    case True
    then have none: "qjobs q = []" using b(2) by (simp add: jobs_inv_def)
    have "r\<lparr>qjobs := []\<rparr> = r" if "qjobs r = []" for r :: queue using that by (cases r) simp
    then have "?q1\<lparr>qjobs := []\<rparr> = ?q1" using none by simp
    then have "q_inv (finish_worker w e ?q1)" using step [of "[]"] by simp
    then show ?thesis using none by (simp add: work_done_def Let_def)
  next
    case False
    then obtain j where j: "map_of (qjobs q) key = Some j" "qj_addr j = addr"
      using b(2) busy by (auto simp: jobs_inv_def)
    have "q_inv (finish_worker w e (?q1\<lparr>qjobs := remove_key key (qjobs q)\<rparr>))"
      by (rule step) (use False others in \<open>auto split: if_splits\<close>)
    moreover have "q_inv (finish_worker w e
        (?q1\<lparr>qjobs := store key (j\<lparr>qj_active := None, qj_timer := True\<rparr>) (qjobs q)\<rparr>))"
      by (rule step) (use False others in \<open>auto split: if_splits\<close>)
    ultimately show ?thesis using False j by (cases e) (simp_all add: work_done_def Let_def)
  qed
qed

lemma inv_Stop:
  assumes inv: "q_inv q"
  shows "q_inv (q_Stop q)"
proof -
  obtain b where b: "working_inv b q" "jobs_inv b q" "attended_inv q" "log_inv b q"
    using inv by (auto simp: q_inv_def)
  have "working_inv b (q_Stop q)"
    unfolding working_inv_def
  proof (intro conjI allI impI)
    fix w k a c assume "map_of (workers (q_Stop q)) w = Some (Working k a c)"
    then obtain c0 where c0: "map_of (workers q) w = Some (Working k a c0)"
      and c: "c = (c0 \<or> (case map_of (qjobs q) k of None \<Rightarrow> False | Some j \<Rightarrow> qj_active j = Some w))"
    proof -
      obtain z where z: "map_of (workers q) w = Some z"
        "snd (cancel_worker (qjobs q) (w, z)) = Working k a c"
        using \<open>map_of (workers (q_Stop q)) w = Some (Working k a c)\<close>
        by (auto simp: q_Stop_def map_of_cancel)
      then show thesis using that by (cases z) (auto simp: cancel_worker_def)
    qed
    show busy: "b = Some (w, k, a)" using b(1) c0 by (auto simp: working_inv_def)
    show c
    proof (cases "qclosed q")
      case True
      then show ?thesis using b(1) c0 c by (auto simp: working_inv_def)
    next
      case False
      then obtain j where "map_of (qjobs q) k = Some j" "qj_addr j = a"
        using b(2) busy by (auto simp: jobs_inv_def)
      then show ?thesis using b(2) busy c by (auto simp: jobs_inv_def)
    qed
  next
    fix w k a assume "b = Some (w, k, a)"
    then obtain c0 where "map_of (workers q) w = Some (Working k a c0)"
      using b(1) unfolding working_inv_def by blast
    then show "\<exists>c. map_of (workers (q_Stop q)) w = Some (Working k a c)"
      by (simp add: q_Stop_def map_of_cancel cancel_worker_def)
  qed
  moreover have "jobs_inv b (q_Stop q)" "attended_inv (q_Stop q)" "log_inv b (q_Stop q)"
    using b(4) by (auto simp: jobs_inv_def attended_inv_def log_inv_def q_Stop_def)
  ultimately show ?thesis by (auto simp: q_inv_def)
qed

lemma inv_Elapse:
  assumes "q_inv q"
  shows "q_inv (q\<lparr>qclock := qclock q + int n\<rparr>)"
proof -
  let ?q = "q\<lparr>qclock := qclock q + int n\<rparr>"
  obtain b where b: "working_inv b q" "jobs_inv b q" "attended_inv q" "log_inv b q"
    using assms by (auto simp: q_inv_def)
  have "begun k (qclock q) l \<Longrightarrow> begun k (qclock q + int n) l" for k l by (auto simp: begun_def)
  then have "log_inv b ?q" using b(4) by (auto simp: log_inv_def)
  moreover have "working_inv b ?q = working_inv b q" "jobs_inv b ?q = jobs_inv b q"
      "attended_inv ?q = attended_inv q"
    by (simp_all add: working_inv_def jobs_inv_def attended_inv_def attended_def visits_def)
  ultimately show ?thesis using b unfolding q_inv_def by blast
qed

lemma inv_step: "q_inv q \<Longrightarrow> qstep ev q = Some q' \<Longrightarrow> q_inv q'"
proof (induction ev q rule: qstep.induct)
  case (2 w key q)
  then show ?case using inv_Fire by blast
qed (auto intro: inv_Register inv_spawn inv_run inv_Abandon inv_Return inv_Stop inv_Elapse
    simp: sleeps_def split: option.splits worker.splits)

lemma reachable_inv: "q_reachable q \<Longrightarrow> q_inv q"
  by (induction rule: q_reachable.induct) (auto intro: inv_start inv_step)

section \<open>The properties\<close>

text \<open>
  C16: The queue dispatches one attempt at a time: in every interleaving, attempts begin and end
  alternately, each begins at least the yield interval of 100 ms after the previous one ended,
  and no two workers run work at the same moment.
\<close>

theorem attempts_never_overlap:
  assumes "q_reachable q" and "map_of (workers q) w = Some (Working k a c)"
    and "map_of (workers q) w' = Some (Working k' a' c')"
  shows "spaced (qlog q) \<and> w = w' \<and> (\<exists>t l. qlog q = Begin k t # l \<and> t \<le> qclock q)"
proof -
  obtain b where b: "working_inv b q" "log_inv b q"
    using reachable_inv [OF assms(1)] by (auto simp: q_inv_def)
  then have "b = Some (w, k, a)" "b = Some (w', k', a')"
    using assms(2,3) unfolding working_inv_def by blast+
  with b(2) show ?thesis by (auto simp: log_inv_def begun_def)
qed

text \<open>
  C17: Registered recovery work is never forgotten. In every interleaving a registered job has an
  armed timer, or a goroutine that is on its way to it, waits for it or runs it; and a step
  removes it only when an attempt at exactly this job returned success, or when the queue is
  stopped.
\<close>

theorem registered_job_is_never_forgotten:
  assumes "q_reachable q" and "map_of (qjobs q) k = Some j" and "qstep ev q = Some q'"
  shows "(qj_timer j \<or> (\<exists>w. visits q w k (qj_addr j)) \<or>
      (\<exists>w c. map_of (workers q) w = Some (Working k (qj_addr j) c))) \<and>
    ((\<exists>j'. map_of (qjobs q') k = Some j' \<and> qj_addr j' = qj_addr j) \<or> ev = StopQueue \<or>
     (\<exists>w c. ev = Return w None \<and> map_of (workers q) w = Some (Working k (qj_addr j) c)))"
proof
  obtain b where b: "working_inv b q" "jobs_inv b q" "attended_inv q"
    using reachable_inv [OF assms(1)] by (auto simp: q_inv_def)
  have "\<exists>c. map_of (workers q) w = Some (Working k (qj_addr j) c)" if "qj_active j = Some w" for w
    using b(1,2) assms(2) that unfolding working_inv_def jobs_inv_def by blast
  then show "qj_timer j \<or> (\<exists>w. visits q w k (qj_addr j)) \<or>
      (\<exists>w c. map_of (workers q) w = Some (Working k (qj_addr j) c))"
    using b(3) assms(2) by (fastforce simp: attended_inv_def attended_def)
  have kept: "\<exists>j'. map_of (qjobs (run_locked w key q)) k = Some j' \<and> qj_addr j' = qj_addr j" for w key
    using assms(2) by (auto simp: run_locked_def finish_worker_def Let_def split: option.split)
  show "(\<exists>j'. map_of (qjobs q') k = Some j' \<and> qj_addr j' = qj_addr j) \<or> ev = StopQueue \<or>
     (\<exists>w c. ev = Return w None \<and> map_of (workers q) w = Some (Working k (qj_addr j) c))"
  proof (cases ev)
    case (Return w e)
    obtain key addr c where w: "map_of (workers q) w = Some (Working key addr c)"
      and q': "q' = work_done w key addr e q"
      using assms(3) Return by (auto split: option.splits worker.splits)
    show ?thesis
    proof (cases "e = None \<and> k = key \<and> qj_addr j = addr")
      case True
      then show ?thesis using w Return by auto
    next
      case False
      then show ?thesis using assms(2)
        by (auto simp: q' work_done_def finish_worker_def Let_def split: option.split)
    qed
  next
    case (Register key)
    then show ?thesis using assms(2,3) by (auto simp: q_Schedule_def)
  next
    case (Proceed w)
    then show ?thesis using kept assms(3) by (auto split: option.splits worker.splits)
  next
    case (Abandon w e)
    then show ?thesis using assms(2,3)
      by (auto simp: parent_done_def finish_worker_def split: option.splits worker.splits)
  qed (use assms(2,3) in \<open>auto simp: spawn_def split: option.splits if_splits\<close>)
qed

text \<open>
  A stopped queue stays quiet: it holds no job, no further step begins an attempt, nothing
  is registered again, and every attempt still running has had its context canceled.
\<close>

theorem stopped_queue_is_quiet:
  assumes "q_reachable q" and "qclosed q" and "qstep ev q = Some q'"
  shows "qclosed q' \<and> qjobs q' = [] \<and> length (filter (\<lambda>x. case x of Begin _ _ \<Rightarrow> True | _ \<Rightarrow> False) (qlog q')) =
      length (filter (\<lambda>x. case x of Begin _ _ \<Rightarrow> True | _ \<Rightarrow> False) (qlog q)) \<and>
    (map_of (workers q') w = Some (Working k a c) \<longrightarrow> c)"
proof -
  have none: "qjobs q = []" using reachable_inv [OF assms(1)] assms(2) by (auto simp: q_inv_def jobs_inv_def)
  have closed: "qclosed q'"
    using assms(2,3) none
    by (cases ev) (auto simp: q_Schedule_def spawn_def run_locked_def parent_done_def work_done_def
        finish_worker_def q_Stop_def Let_def split: option.splits worker.splits if_splits)
  have "q_reachable q'" using assms(1,3) by (rule q_reachable.step)
  from reachable_inv [OF this] closed have "qjobs q' = []"
    "map_of (workers q') w = Some (Working k a c) \<longrightarrow> c"
    by (auto simp: q_inv_def jobs_inv_def working_inv_def)
  moreover have "length (filter (\<lambda>x. case x of Begin _ _ \<Rightarrow> True | _ \<Rightarrow> False) (qlog q')) =
      length (filter (\<lambda>x. case x of Begin _ _ \<Rightarrow> True | _ \<Rightarrow> False) (qlog q))"
    using assms(2,3) none
    by (cases ev) (auto simp: q_Schedule_def spawn_def run_locked_def parent_done_def work_done_def
        finish_worker_def q_Stop_def Let_def split: option.splits worker.splits if_splits)
  ultimately show ?thesis using closed by blast
qed

section \<open>Sample runs\<close>

fun qrun :: "qevent list \<Rightarrow> queue \<Rightarrow> queue option" where
  "qrun [] q = Some q"
| "qrun (ev # evs) q = (case qstep ev q of None \<Rightarrow> None | Some q1 \<Rightarrow> qrun evs q1)"

lemma qrun_reachable: "q_reachable q \<Longrightarrow> qrun evs q = Some q' \<Longrightarrow> q_reachable q'"
  by (induction evs arbitrary: q) (auto split: option.splits intro: q_reachable.step)

lemmas qrun_eval = emptyQueue_def q_Schedule_def spawn_def run_locked_def finish_worker_def
  store_def remove_key_def work_done_def q_Stop_def cancel_worker_def Let_def

definition busy_events :: "qevent list" where
  "busy_events =
     [Register ''a'', Register ''b'', Fire 0 ''a'', Fire 1 ''b'', Proceed 0, Proceed 1]"

definition busy_queue :: queue where
  "busy_queue = the (qrun busy_events (emptyQueue 0))"

lemma busy_run: "q_reachable busy_queue"
  by (rule qrun_reachable [OF q_reachable.start [of 0], of busy_events])
    (simp add: busy_queue_def busy_events_def qrun_eval)

theorem attempts_never_overlap_witness:
  "spaced (qlog busy_queue) \<and> map_of (workers busy_queue) 0 = Some (Working ''a'' 0 False) \<and>
   map_of (workers busy_queue) 1 = Some (Waiting ''b'' 1)"
proof -
  have w: "map_of (workers busy_queue) 0 = Some (Working ''a'' 0 False)"
    "map_of (workers busy_queue) 1 = Some (Waiting ''b'' 1)"
    by (simp_all add: busy_queue_def busy_events_def qrun_eval)
  show ?thesis using attempts_never_overlap [OF busy_run w(1) w(1)] w by simp
qed

theorem registered_job_is_never_forgotten_witness:
  "map_of (qjobs (the (qstep (Return 0 (Some (Msg ''busy''))) busy_queue))) ''a'' \<noteq> None"
proof -
  let ?ev = "Return 0 (Some (Msg ''busy''))"
  obtain q' where q': "qstep ?ev busy_queue = Some q'" by (simp add: busy_queue_def busy_events_def qrun_eval)
  obtain j where j: "map_of (qjobs busy_queue) ''a'' = Some j" by (simp add: busy_queue_def busy_events_def qrun_eval)
  show ?thesis using registered_job_is_never_forgotten [OF busy_run j q'] q' by auto
qed

theorem stopped_queue_is_quiet_witness:
  "workers (q_Stop busy_queue) \<noteq> [] \<and> qclosed (q_Schedule ''c'' (q_Stop busy_queue)) \<and>
   qjobs (q_Schedule ''c'' (q_Stop busy_queue)) = []"
proof -
  have r: "q_reachable (q_Stop busy_queue)" by (rule q_reachable.step [OF busy_run, of StopQueue]) simp
  have "qstep (Register ''c'') (q_Stop busy_queue) = Some (q_Schedule ''c'' (q_Stop busy_queue))" by simp
  from stopped_queue_is_quiet [OF r _ this] show ?thesis
    by (simp add: q_Stop_def busy_queue_def busy_events_def qrun_eval)
qed

end
