(* ===== verification/Cache_Lock.thy ===== *)
theory Cache_Lock
  imports Prelude
begin

text \<open>
  \<open>src/internal/docker/cache_lock.go\<close>: one lock per private image reference, with entries that
  are created on demand and dropped with the last owner or waiter. A lock entry is an object
  with an address; the channel of capacity one is the flag \<open>held\<close>. Each goroutine inside
  \<open>acquire\<close> or between \<open>acquire\<close> and its release is a client; a step is what one client does
  under the mutex or on the channel, so a list of steps is any interleaving.
\<close>

section \<open>State and operations\<close>

record lock_entry =
  held :: bool
  refs :: nat

text \<open>
  A client waits in the \<open>select\<close>, has sent on the channel and is about to look at its context
  again, or owns the lock. \<open>results\<close> are the returns of \<open>acquire\<close>.
\<close>

datatype client =
    Selecting string nat
  | Acquired string nat
  | Owning string nat

record cache_locks =
  entries :: "(string \<times> nat) list"
  heap :: "(nat \<times> lock_entry) list"
  clients :: "(nat \<times> client) list"
  nextEntry :: nat
  results :: "(nat \<times> err option) list"

definition newLocks :: cache_locks where
  "newLocks = \<lparr>entries = [], heap = [], clients = [], nextEntry = 0, results = []\<rparr>"

text \<open>Registration in \<open>acquire\<close>, after the first test of the context.\<close>

definition register_client :: "nat \<Rightarrow> string \<Rightarrow> cache_locks \<Rightarrow> cache_locks" where
  "register_client c ref l =
     (let (a, l1) = (case map_of (entries l) ref of
          Some a \<Rightarrow> (a, l)
        | None \<Rightarrow>
            (nextEntry l, l\<lparr>entries := store ref (nextEntry l) (entries l),
               heap := store (nextEntry l) \<lparr>held = False, refs = 0\<rparr> (heap l),
               nextEntry := Suc (nextEntry l)\<rparr>));
          e = the (map_of (heap l1) a) in
      l1\<lparr>heap := store a (e\<lparr>refs := Suc (refs e)\<rparr>) (heap l1),
         clients := store c (Selecting ref a) (clients l1)\<rparr>)"

text \<open>
  \<open>drop\<close>: the receive from the channel cannot block, since the caller owns it; \<open>refs\<close> is a Go
  \<open>int\<close> that never goes below zero.
\<close>

definition drop_entry :: "string \<Rightarrow> nat \<Rightarrow> bool \<Rightarrow> cache_locks \<Rightarrow> cache_locks" where
  "drop_entry ref a owned l =
     (let e = the (map_of (heap l) a);
          e1 = e\<lparr>held := (if owned then False else held e), refs := refs e - 1\<rparr>;
          l1 = l\<lparr>heap := store a e1 (heap l)\<rparr> in
      if refs e1 = 0 then l1\<lparr>entries := remove_key ref (entries l1)\<rparr> else l1)"

definition leave :: "nat \<Rightarrow> err option \<Rightarrow> cache_locks \<Rightarrow> cache_locks" where
  "leave c r l = l\<lparr>clients := remove_key c (clients l), results := (c, r) # results l\<rparr>"

section \<open>Steps\<close>

text \<open>
  \<open>Acquire\<close> with what the first \<open>ctx.Err()\<close> says; \<open>Send\<close> on a free channel; \<open>Cancel\<close>, the \<open>Done\<close>
  branch; \<open>Check\<close>, the second \<open>ctx.Err()\<close>; \<open>Release\<close>, the function that \<open>acquire\<close> returned.
\<close>

datatype lock_event =
    Acquire nat string "err option"
  | Send nat
  | Cancel nat err
  | Check nat "err option"
  | Release nat

fun lock_step :: "lock_event \<Rightarrow> cache_locks \<Rightarrow> cache_locks option" where
  "lock_step (Acquire c ref x) l =
     (if map_of (clients l) c \<noteq> None then None
      else case x of
        Some e \<Rightarrow> Some (leave c (Some e) l)
      | None \<Rightarrow> Some (register_client c ref l))"
| "lock_step (Send c) l =
     (case map_of (clients l) c of
        Some (Selecting ref a) \<Rightarrow>
          (case map_of (heap l) a of
             None \<Rightarrow> None
           | Some e \<Rightarrow>
               if held e then None
               else Some (l\<lparr>heap := store a (e\<lparr>held := True\<rparr>) (heap l),
                            clients := store c (Acquired ref a) (clients l)\<rparr>))
      | _ \<Rightarrow> None)"
| "lock_step (Cancel c e) l =
     (case map_of (clients l) c of
        Some (Selecting ref a) \<Rightarrow> Some (leave c (Some e) (drop_entry ref a False l))
      | _ \<Rightarrow> None)"
| "lock_step (Check c x) l =
     (case map_of (clients l) c of
        Some (Acquired ref a) \<Rightarrow>
          (case x of
             Some e \<Rightarrow> Some (leave c (Some e) (drop_entry ref a True l))
           | None \<Rightarrow> Some (l\<lparr>clients := store c (Owning ref a) (clients l), results := (c, None) # results l\<rparr>))
      | _ \<Rightarrow> None)"
| "lock_step (Release c) l =
     (case map_of (clients l) c of
        Some (Owning ref a) \<Rightarrow> Some ((drop_entry ref a True l)\<lparr>clients := remove_key c (clients l)\<rparr>)
      | _ \<Rightarrow> None)"

inductive lock_reachable :: "cache_locks \<Rightarrow> bool" where
  start: "lock_reachable newLocks"
| step: "lock_reachable l \<Longrightarrow> lock_step ev l = Some l' \<Longrightarrow> lock_reachable l'"

inductive_cases lock_reachable_cases: "lock_reachable l"

section \<open>The invariant\<close>

text \<open>
  Every client refers to the entry that is in the table for its reference; an entry counts its
  clients; its channel is full exactly when one of them has sent on it.
\<close>

fun client_ref :: "client \<Rightarrow> string \<times> nat" where
  "client_ref (Selecting ref a) = (ref, a)"
| "client_ref (Acquired ref a) = (ref, a)"
| "client_ref (Owning ref a) = (ref, a)"

fun holds :: "client \<Rightarrow> bool" where
  "holds (Selecting ref a) = False"
| "holds (Acquired ref a) = True"
| "holds (Owning ref a) = True"

type_synonym client_map = "nat \<Rightarrow> client option"

definition users :: "client_map \<Rightarrow> string \<Rightarrow> nat \<Rightarrow> nat set" where
  "users h ref a = {c. \<exists>k. h c = Some k \<and> client_ref k = (ref, a)}"

definition holders :: "client_map \<Rightarrow> nat \<Rightarrow> nat set" where
  "holders h a = {c. \<exists>k. h c = Some k \<and> snd (client_ref k) = a \<and> holds k}"

definition entry_ok :: "client_map \<Rightarrow> string \<Rightarrow> nat \<Rightarrow> lock_entry \<Rightarrow> bool" where
  "entry_ok h ref a e \<longleftrightarrow> refs e = card (users h ref a) \<and> 0 < refs e \<and>
     (if held e then \<exists>c. holders h a = {c} else holders h a = {})"

definition locks_ok ::
    "(string \<Rightarrow> nat option) \<Rightarrow> (nat \<Rightarrow> lock_entry option) \<Rightarrow> client_map \<Rightarrow> nat \<Rightarrow> bool" where
  "locks_ok f g h n \<longleftrightarrow> finite (dom h) \<and>
     (\<forall>c k. h c = Some k \<longrightarrow> f (fst (client_ref k)) = Some (snd (client_ref k))) \<and>
     (\<forall>ref a. f ref = Some a \<longrightarrow> a < n \<and> (\<exists>e. g a = Some e \<and> entry_ok h ref a e)) \<and>
     (\<forall>ref ref' a. f ref = Some a \<longrightarrow> f ref' = Some a \<longrightarrow> ref = ref')"

lemma users_upd [simp]: "users (h(c \<mapsto> k)) ref a =
    (if client_ref k = (ref, a) then insert c (users h ref a) else users h ref a - {c})"
  by (auto simp: users_def)

lemma users_del [simp]: "users (h(c := None)) ref a = users h ref a - {c}"
  by (auto simp: users_def)

lemma holders_upd [simp]: "holders (h(c \<mapsto> k)) a =
    (if snd (client_ref k) = a \<and> holds k then insert c (holders h a) else holders h a - {c})"
  by (auto simp: holders_def)

lemma holders_del [simp]: "holders (h(c := None)) a = holders h a - {c}"
  by (auto simp: holders_def)

lemma finite_users: "locks_ok f g h n \<Longrightarrow> finite (users h ref a)"
  by (rule finite_subset [of _ "dom h"]) (auto simp: users_def locks_ok_def)

lemma locks_okD:
  assumes "locks_ok f g h n"
  shows "h c = Some k \<Longrightarrow> f (fst (client_ref k)) = Some (snd (client_ref k))"
    and "f ref = Some a \<Longrightarrow> a < n \<and> (\<exists>e. g a = Some e \<and> entry_ok h ref a e)"
    and "f ref = Some a \<Longrightarrow> f ref' = Some a \<Longrightarrow> ref = ref'"
  using assms unfolding locks_ok_def by blast+

text \<open>A client whose reference and address are fixed leaves every other entry as it was.\<close>

lemma entry_ok_other:
  assumes "entry_ok h ref' a' e" and "a' \<noteq> a"
    and "\<And>k0. h c = Some k0 \<Longrightarrow> client_ref k0 = (ref, a)" and "client_ref k = (ref, a)"
  shows "entry_ok (h(c \<mapsto> k)) ref' a' e" "entry_ok (h(c := None)) ref' a' e"
proof -
  have "c \<notin> users h ref' a'" "c \<notin> holders h a'"
    using assms(2,3) by (auto simp: users_def holders_def)
  then show "entry_ok (h(c \<mapsto> k)) ref' a' e" "entry_ok (h(c := None)) ref' a' e"
    using assms(1,2,4) by (auto simp: entry_ok_def)
qed

text \<open>One client enters or changes its place, and the entry it refers to changes with it.\<close>

lemma locks_ok_update:
  assumes ok: "locks_ok f g h n"
    and f': "f' ref = Some a" "\<And>r. r \<noteq> ref \<Longrightarrow> f' r = f r" "\<And>b. f ref = Some b \<Longrightarrow> b = a"
    and fresh: "f ref = None \<Longrightarrow> n \<le> a" "a < n'" "n \<le> n'"
    and k: "client_ref k = (ref, a)" "\<And>k0. h c = Some k0 \<Longrightarrow> client_ref k0 = (ref, a)"
    and e: "entry_ok (h(c \<mapsto> k)) ref a e"
  shows "locks_ok f' (g(a \<mapsto> e)) (h(c \<mapsto> k)) n'"
  unfolding locks_ok_def
proof (intro conjI allI impI)
  show "finite (dom (h(c \<mapsto> k)))" using ok by (simp add: locks_ok_def)
  have addr: "b \<noteq> a" if "f r = Some b" "r \<noteq> ref" for r b
  proof (cases "f ref")
    case None
    then show ?thesis using fresh(1) locks_okD(2) [OF ok that(1)] by auto
  next
    case (Some b')
    then show ?thesis using f'(3) [OF Some] locks_okD(3) [OF ok that(1), of ref] that(2) by auto
  qed
  { fix c' k' assume h: "(h(c \<mapsto> k)) c' = Some k'"
    show "f' (fst (client_ref k')) = Some (snd (client_ref k'))"
    proof (cases "c' = c")
      case True
      then show ?thesis using h k(1) f'(1) by simp
    next
      case False
      then have f: "f (fst (client_ref k')) = Some (snd (client_ref k'))"
        using h locks_okD(1) [OF ok] by simp
      show ?thesis
      proof (cases "fst (client_ref k') = ref")
        case True
        then show ?thesis using f'(3) [of "snd (client_ref k')"] f'(1) f by simp
      next
        case False
        then show ?thesis using f'(2) f by simp
      qed
    qed }
  { fix r b assume r: "f' r = Some b"
    show "b < n'"
    proof (cases "r = ref")
      case True
      then show ?thesis using r f'(1) fresh(2) by simp
    next
      case False
      then have "b < n" using r f'(2) locks_okD(2) [OF ok, of r b] by simp
      then show ?thesis using fresh(3) by simp
    qed
    show "\<exists>e'. (g(a \<mapsto> e)) b = Some e' \<and> entry_ok (h(c \<mapsto> k)) r b e'"
    proof (cases "r = ref")
      case True
      then show ?thesis using r f'(1) e by simp
    next
      case False
      then have fr: "f r = Some b" using r f'(2) by simp
      obtain e' where "g b = Some e'" "entry_ok h r b e'" using locks_okD(2) [OF ok fr] by blast
      then show ?thesis
        using entry_ok_other(1) [OF _ addr [OF fr False] k(2,1)] addr [OF fr False] by auto
    qed }
  fix r r' b assume "f' r = Some b" "f' r' = Some b"
  then have "(if r = ref then b = a else f r = Some b)" "(if r' = ref then b = a else f r' = Some b)"
    using f'(1,2) by (auto split: if_splits)
  then show "r = r'" using addr [of r b] addr [of r' b] locks_okD(3) [OF ok, of r b r']
    by (cases "r = ref"; cases "r' = ref") simp_all
qed

text \<open>One client leaves, and the entry goes with its last one.\<close>

lemma locks_ok_remove:
  assumes ok: "locks_ok f g h n" and k: "h c = Some k" "client_ref k = (ref, a)"
    and e: "0 < refs e \<Longrightarrow> entry_ok (h(c := None)) ref a e" "refs e = card (users h ref a - {c})"
  shows "locks_ok (if refs e = 0 then f(ref := None) else f) (g(a \<mapsto> e)) (h(c := None)) n"
  unfolding locks_ok_def
proof (intro conjI allI impI)
  let ?f = "if refs e = 0 then f(ref := None) else f"
  have fr: "f ref = Some a" using locks_okD(1) [OF ok k(1)] k(2) by simp
  show "finite (dom (h(c := None)))" using ok by (simp add: locks_ok_def)
  { fix c' k' assume h: "(h(c := None)) c' = Some k'"
    then have f: "f (fst (client_ref k')) = Some (snd (client_ref k'))" and "c' \<noteq> c"
      using locks_okD(1) [OF ok, of c' k'] by (auto split: if_splits)
    have "fst (client_ref k') \<noteq> ref" if z: "refs e = 0"
    proof
      assume "fst (client_ref k') = ref"
      then have "c' \<in> users h ref a" using h f fr by (auto simp: users_def prod_eq_iff split: if_splits)
      then have "0 < card (users h ref a - {c})"
        using \<open>c' \<noteq> c\<close> finite_users [OF ok] by (auto simp: card_gt_0_iff)
      with e(2) z show False by simp
    qed
    with f show "?f (fst (client_ref k')) = Some (snd (client_ref k'))" by auto }
  { fix r b assume r: "?f r = Some b"
    then have f: "f r = Some b" by (auto split: if_splits)
    then show "b < n" using locks_okD(2) [OF ok] by blast
    show "\<exists>e'. (g(a \<mapsto> e)) b = Some e' \<and> entry_ok (h(c := None)) r b e'"
    proof (cases "b = a")
      case True
      then have "r = ref" using locks_okD(3) [OF ok f] fr by simp
      then show ?thesis using r e(1) True by (cases "refs e = 0") auto
    next
      case False
      obtain e' where "g b = Some e'" "entry_ok h r b e'" using locks_okD(2) [OF ok f] by blast
      then show ?thesis using entry_ok_other(2) [OF _ False, of h r e' c ref k] k False by auto
    qed }
  fix r r' b assume "?f r = Some b" "?f r' = Some b"
  then show "r = r'" using locks_okD(3) [OF ok, of r b r'] by (auto split: if_splits)
qed

definition lock_inv :: "cache_locks \<Rightarrow> bool" where
  "lock_inv l \<longleftrightarrow> locks_ok (map_of (entries l)) (map_of (heap l)) (map_of (clients l)) (nextEntry l)"

lemma inv_new: "lock_inv newLocks"
  by (simp add: lock_inv_def locks_ok_def newLocks_def)

lemma inv_register:
  assumes inv: "lock_inv l" and c: "map_of (clients l) c = None"
  shows "lock_inv (register_client c ref l)"
proof (cases "map_of (entries l) ref")
  case None
  let ?h = "map_of (clients l)"
  note ok = inv [unfolded lock_inv_def]
  have none: "users ?h ref (nextEntry l) = {}" "holders ?h (nextEntry l) = {}"
    using locks_okD(1,2) [OF ok] None
    by (fastforce simp: users_def holders_def dest: locks_okD(1) [OF ok])+
  have "locks_ok ((map_of (entries l))(ref \<mapsto> nextEntry l))
      ((map_of (heap l))(nextEntry l \<mapsto> \<lparr>held = False, refs = 1\<rparr>))
      (?h(c \<mapsto> Selecting ref (nextEntry l))) (Suc (nextEntry l))"
    by (rule locks_ok_update [OF ok]) (use None c none in \<open>auto simp: entry_ok_def\<close>)
  then show ?thesis using None by (simp add: lock_inv_def register_client_def Let_def)
next
  case (Some a)
  let ?h = "map_of (clients l)"
  note ok = inv [unfolded lock_inv_def]
  obtain e where e: "map_of (heap l) a = Some e" "entry_ok ?h ref a e" "a < nextEntry l"
    using locks_okD(2) [OF ok Some] by blast
  have nc: "c \<notin> users ?h ref a" "c \<notin> holders ?h a" using c by (auto simp: users_def holders_def)
  have "locks_ok (map_of (entries l)) ((map_of (heap l))(a \<mapsto> e\<lparr>refs := Suc (refs e)\<rparr>))
      (?h(c \<mapsto> Selecting ref a)) (nextEntry l)"
    by (rule locks_ok_update [OF ok])
      (use Some c e nc finite_users [OF ok] in \<open>auto simp: entry_ok_def\<close>)
  then show ?thesis using Some e(1) by (simp add: lock_inv_def register_client_def Let_def)
qed

lemma inv_send:
  assumes inv: "lock_inv l" and c: "map_of (clients l) c = Some (Selecting ref a)"
    and e: "map_of (heap l) a = Some e" "\<not> held e"
  shows "lock_inv (l\<lparr>heap := store a (e\<lparr>held := True\<rparr>) (heap l), clients := store c (Acquired ref a) (clients l)\<rparr>)"
proof -
  let ?h = "map_of (clients l)"
  note ok = inv [unfolded lock_inv_def]
  have f: "map_of (entries l) ref = Some a" using locks_okD(1) [OF ok c] by simp
  then have e': "entry_ok ?h ref a e" "a < nextEntry l" using locks_okD(2) [OF ok f] e(1) by auto
  have "c \<in> users ?h ref a" using c by (auto simp: users_def)
  then have "entry_ok (?h(c \<mapsto> Acquired ref a)) ref a (e\<lparr>held := True\<rparr>)"
    using e' e(2) by (auto simp: entry_ok_def insert_absorb)
  then have "locks_ok (map_of (entries l)) ((map_of (heap l))(a \<mapsto> e\<lparr>held := True\<rparr>))
      (?h(c \<mapsto> Acquired ref a)) (nextEntry l)"
    by (intro locks_ok_update [OF ok]) (use f e' c in auto)
  then show ?thesis by (simp add: lock_inv_def)
qed

lemma inv_own:
  assumes inv: "lock_inv l" and c: "map_of (clients l) c = Some (Acquired ref a)"
  shows "lock_inv (l\<lparr>clients := store c (Owning ref a) (clients l), results := rs\<rparr>)"
proof -
  let ?h = "map_of (clients l)"
  note ok = inv [unfolded lock_inv_def]
  have f: "map_of (entries l) ref = Some a" using locks_okD(1) [OF ok c] by simp
  then obtain e where e: "map_of (heap l) a = Some e" "entry_ok ?h ref a e" "a < nextEntry l"
    using locks_okD(2) [OF ok f] by auto
  have "c \<in> users ?h ref a" "c \<in> holders ?h a" using c by (auto simp: users_def holders_def)
  then have "entry_ok (?h(c \<mapsto> Owning ref a)) ref a e"
    using e(2) by (auto simp: entry_ok_def insert_absorb split: if_splits)
  then have "locks_ok (map_of (entries l)) ((map_of (heap l))(a \<mapsto> e)) (?h(c \<mapsto> Owning ref a)) (nextEntry l)"
    by (intro locks_ok_update [OF ok]) (use f e c in auto)
  then show ?thesis using e(1) by (simp add: lock_inv_def fun_upd_idem)
qed

lemma inv_drop:
  assumes inv: "lock_inv l" and c: "map_of (clients l) c = Some k" "client_ref k = (ref, a)"
    and owned: "owned = holds k"
  shows "lock_inv (drop_entry ref a owned l\<lparr>clients := remove_key c (clients l)\<rparr>)"
proof -
  let ?h = "map_of (clients l)"
  note ok = inv [unfolded lock_inv_def]
  have f: "map_of (entries l) ref = Some a" using locks_okD(1) [OF ok c(1)] c(2) by simp
  then obtain e where e: "map_of (heap l) a = Some e" "entry_ok ?h ref a e"
    using locks_okD(2) [OF ok f] by auto
  let ?e = "e\<lparr>held := (if owned then False else held e), refs := refs e - 1\<rparr>"
  have u: "c \<in> users ?h ref a" using c by (auto simp: users_def)
  have n: "refs ?e = card (users ?h ref a - {c})"
    using e(2) u finite_users [OF ok] by (simp add: entry_ok_def)
  have h: "c \<in> holders ?h a \<longleftrightarrow> holds k" using c by (auto simp: holders_def)
  have "entry_ok (?h(c := None)) ref a ?e" if "0 < refs ?e"
    using e(2) n that h owned u by (auto simp: entry_ok_def split: if_splits)
  then have "locks_ok (if refs ?e = 0 then (map_of (entries l))(ref := None) else map_of (entries l))
      ((map_of (heap l))(a \<mapsto> ?e)) (?h(c := None)) (nextEntry l)"
    by (rule locks_ok_remove [OF ok c]) (use n in auto)
  then show ?thesis using e(1)
    by (auto simp: lock_inv_def drop_entry_def Let_def split: if_splits)
qed

lemma leave_eq: "leave c r l = l\<lparr>clients := remove_key c (clients l), results := (c, r) # results l\<rparr>"
  by (simp add: leave_def)

lemma inv_results: "lock_inv (l\<lparr>results := rs\<rparr>) = lock_inv l"
  by (simp add: lock_inv_def)

lemma remove_absent: "map_of m k = None \<Longrightarrow> remove_key k m = m"
  by (force simp: remove_key_def map_of_eq_None_iff intro!: filter_True)

lemma inv_lock_step: "lock_inv l \<Longrightarrow> lock_step ev l = Some l' \<Longrightarrow> lock_inv l'"
proof (induction ev l rule: lock_step.induct)
  case (1 c ref x l)
  then show ?case
    using inv_register [of l c ref]
    by (auto simp: leave_def lock_inv_def remove_absent split: option.splits if_splits)
next
  case (2 c l)
  then show ?case using inv_send by (auto split: option.splits client.splits if_splits)
next
  case (3 c e l)
  then obtain ref a where c: "map_of (clients l) c = Some (Selecting ref a)"
    and l': "l' = leave c (Some e) (drop_entry ref a False l)"
    by (auto split: option.splits client.splits)
  have "clients (drop_entry ref a False l) = clients l" by (simp add: drop_entry_def Let_def)
  then show ?case using inv_drop [OF 3(1) c, of ref a False] l'
    by (simp add: leave_def lock_inv_def)
next
  case (4 c x l)
  then obtain ref a where c: "map_of (clients l) c = Some (Acquired ref a)"
    by (auto split: option.splits client.splits)
  have "clients (drop_entry ref a True l) = clients l" by (simp add: drop_entry_def Let_def)
  then show ?case using inv_drop [OF 4(1) c, of ref a True] inv_own [OF 4(1) c] 4(2) c
    by (auto simp: leave_def lock_inv_def split: option.splits)
next
  case (5 c l)
  then obtain ref a where c: "map_of (clients l) c = Some (Owning ref a)"
    and l': "l' = (drop_entry ref a True l)\<lparr>clients := remove_key c (clients l)\<rparr>"
    by (auto split: option.splits client.splits)
  then show ?case using inv_drop [OF 5(1) c, of ref a True] by simp
qed

lemma reachable_lock_inv: "lock_reachable l \<Longrightarrow> lock_inv l"
  by (induction rule: lock_reachable.induct) (auto intro: inv_new inv_lock_step)

section \<open>The properties\<close>

text \<open>
  C32: Mutual exclusion per reference: in every interleaving of acquisitions, cancellations and
  releases, two clients that own the lock of the same reference are the same client, also when
  entries have been dropped and created anew in between; and an owner's entry stays in the
  table, so that later clients meet it.
\<close>

theorem cache_lock_excludes:
  assumes "lock_reachable l" and "map_of (clients l) c = Some (Owning ref a)"
    and "map_of (clients l) c' = Some (Owning ref a')"
  shows "c = c' \<and> a = a' \<and> map_of (entries l) ref = Some a"
proof -
  note ok = reachable_lock_inv [OF assms(1), unfolded lock_inv_def]
  have f: "map_of (entries l) ref = Some a" "map_of (entries l) ref = Some a'"
    using locks_okD(1) [OF ok assms(2)] locks_okD(1) [OF ok assms(3)] by simp_all
  then obtain e where "entry_ok (map_of (clients l)) ref a e" using locks_okD(2) [OF ok] by blast
  moreover have "c \<in> holders (map_of (clients l)) a" "c' \<in> holders (map_of (clients l)) a"
    using assms(2,3) f by (auto simp: holders_def)
  ultimately show ?thesis using f by (auto simp: entry_ok_def split: if_splits)
qed

text \<open>
  No entry leaks and none is lost: the table of locks has an entry for a reference exactly
  when some client waits for its lock or holds it, so it is empty again when all have left.
\<close>

theorem cache_lock_table_is_exact:
  assumes "lock_reachable l"
  shows "map_of (entries l) ref \<noteq> None \<longleftrightarrow>
    (\<exists>c k. map_of (clients l) c = Some k \<and> fst (client_ref k) = ref)"
proof
  note ok = reachable_lock_inv [OF assms, unfolded lock_inv_def]
  assume "map_of (entries l) ref \<noteq> None"
  then obtain a where "map_of (entries l) ref = Some a" by auto
  then obtain e where "entry_ok (map_of (clients l)) ref a e" using locks_okD(2) [OF ok] by blast
  then have "users (map_of (clients l)) ref a \<noteq> {}" by (auto simp: entry_ok_def)
  then show "\<exists>c k. map_of (clients l) c = Some k \<and> fst (client_ref k) = ref"
    by (auto simp: users_def) (metis fst_conv)
next
  note ok = reachable_lock_inv [OF assms, unfolded lock_inv_def]
  assume "\<exists>c k. map_of (clients l) c = Some k \<and> fst (client_ref k) = ref"
  then show "map_of (entries l) ref \<noteq> None" using locks_okD(1) [OF ok] by auto
qed

section \<open>A sample run\<close>

fun lock_run :: "lock_event list \<Rightarrow> cache_locks \<Rightarrow> cache_locks option" where
  "lock_run [] l = Some l"
| "lock_run (ev # evs) l = (case lock_step ev l of None \<Rightarrow> None | Some l1 \<Rightarrow> lock_run evs l1)"

lemma lock_run_reachable: "lock_reachable l \<Longrightarrow> lock_run evs l = Some l' \<Longrightarrow> lock_reachable l'"
  by (induction evs arbitrary: l) (auto split: option.splits intro: lock_reachable.step)

lemmas lock_eval = newLocks_def register_client_def drop_entry_def leave_def store_def
  remove_key_def Let_def

definition sample_events :: "lock_event list" where
  "sample_events = [Acquire 0 ''img'' None, Acquire 1 ''img'' None, Send 0, Check 0 None,
     Cancel 1 Canceled, Release 0, Acquire 2 ''img'' None, Send 2, Check 2 None]"

definition sample_locks :: cache_locks where
  "sample_locks = the (lock_run sample_events newLocks)"

lemma sample_locks_reachable: "lock_reachable sample_locks"
  by (rule lock_run_reachable [OF lock_reachable.start, of sample_events])
    (simp add: sample_locks_def sample_events_def lock_eval)

theorem cache_lock_excludes_witness:
  "map_of (clients sample_locks) 2 = Some (Owning ''img'' 1) \<and>
   map_of (entries sample_locks) ''img'' = Some 1"
proof -
  have "map_of (clients sample_locks) 2 = Some (Owning ''img'' 1)"
    by (simp add: sample_locks_def sample_events_def lock_eval)
  with cache_lock_excludes [OF sample_locks_reachable this this] show ?thesis by simp
qed

theorem cache_lock_table_is_exact_witness:
  "map_of (entries sample_locks) ''img'' \<noteq> None \<and> map_of (entries sample_locks) ''other'' = None"
  using cache_lock_table_is_exact [OF sample_locks_reachable, of "''img''"]
    cache_lock_table_is_exact [OF sample_locks_reachable, of "''other''"]
  by (auto simp: sample_locks_def sample_events_def lock_eval)

end
