(* ===== verification/Guest_Identity.thy ===== *)
theory Guest_Identity
  imports Docker_World
begin

text \<open>
  \<open>src/internal/docker/command_identity.go\<close>: how a command that runs in a sandbox is identified
  for signalling. A wrapper shell prints one record with the guest process ID and its start
  time as the first line of stderr; the adapter filters exactly this line out, checks it, and
  publishes the identity once. The environment of the wrapper is restored from data. The shell
  scripts are run by the guest: they are data here, transcribed but not interpreted.
\<close>

section \<open>The scripts\<close>

definition newline :: char where
  "newline = CHR 0x0A"

fun joinLines :: "string list \<Rightarrow> string" where
  "joinLines [] = []"
| "joinLines [x] = x"
| "joinLines (x # xs) = x @ [newline] @ joinLines xs"

definition identityBuiltinsScript :: string where
  \<open>identityBuiltinsScript = joinLines [
     [],
     ''set -f'',
     ''IFS='' @ [CHR 0x27] @ '' '' @ [CHR 0x27],
     ''for builtin in read printf kill set shift export unset exec '' @ [CHR 0x27] @ ''['' @ [CHR 0x27] @ ''; do'',
     ''  case "$(command -v "$builtin")" in "$builtin") ;; *) exit 125;; esac'',
     ''done'',
     []]\<close>

definition selfIdentityScript :: string where
  \<open>selfIdentityScript = identityBuiltinsScript @
   joinLines [
     [],
     ''(exec --) || exit 125'',
     ''IFS= read -r stat < "/proc/$$/stat" || exit 125'',
     ''rest=${stat##*) }'',
     ''start=$(set -- $rest; [ "$#" -ge 20 ] || exit 125; shift 19; printf '' @ [CHR 0x27] @ ''%s'' @ [CHR 0x27] @ '' "$1") || exit 125'',
     ''case "$start" in '' @ [CHR 0x27] @ [CHR 0x27] @ ''|0|*[!0-9]*) exit 125;; esac'',
     ''[ "$$" -gt 1 ] || exit 125'',
     []]\<close>

definition identityProbeScript :: string where
  \<open>identityProbeScript = ''('' @
   selfIdentityScript @
   joinLines [
     [],
     ''printf '' @ [CHR 0x27] @ ''OPENSBX_PROBE %s %s %s'' @ [CHR 0x5C] @ ''n'' @ [CHR 0x27] @ '' "$1" "$$" "$start"'',
     '')'']\<close>

definition identityWrapperScript :: string where
  \<open>identityWrapperScript = ''('' @
   selfIdentityScript @
   joinLines [
     [],
     ''printf '' @ [CHR 0x27] @ ''OPENSBX_EXEC %s %s %s'' @ [CHR 0x5C] @ ''n'' @ [CHR 0x27] @ '' "$1" "$$" "$start" >&2'',
     '') || exit 125'',
     ''shift'',
     ''unset ENV BASH_ENV PWD OLDPWD SHLVL _'',
     ''while [ "$1" != '' @ [CHR 0x27] @ ''--'' @ [CHR 0x27] @ '' ]; do'',
     ''  export "$1" || exit 125'',
     ''  shift'',
     ''done'',
     ''shift'',
     ''exec -- "$@"'',
     []]\<close>

definition identitySignalScript :: string where
  \<open>identitySignalScript = ''('' @
   identityBuiltinsScript @
   joinLines [
     [],
     ''case "$1:$2:$3" in *[!0-9:]*) exit 125;; esac'',
     ''[ "$1" -gt 1 ] || exit 125'',
     ''IFS= read -r stat < "/proc/$1/stat" || exit 124'',
     ''rest=${stat##*) }'',
     ''start=$(set -- $rest; [ "$#" -ge 20 ] || exit 124; shift 19; printf '' @ [CHR 0x27] @ ''%s'' @ [CHR 0x27] @ '' "$1") || exit 124'',
     ''[ "$start" = "$2" ] || exit 124'',
     ''kill -"$3" "$1" || exit "$?"'',
     ''printf '' @ [CHR 0x27] @ ''OPENSBX_SIGNAL %s %s %s'' @ [CHR 0x5C] @ ''n'' @ [CHR 0x27] @ '' "$1" "$2" "$3"'',
     '')'',
     []]\<close>

section \<open>Environments\<close>

definition sensitiveKeys :: "string list" where
  "sensitiveKeys = [''PWD'', ''SHLVL'', ''_'', ''SHELLOPTS'', ''UID'', ''EUID'', ''PPID'', ''RANDOM'',
     ''SECONDS'', ''LINENO'', ''OPTIND'', ''OPTARG'', ''DIRSTACK'', ''FUNCNAME'', ''GROUPS'', ''HISTCMD'',
     ''PIPESTATUS'']"

definition shellSensitiveKey :: "string \<Rightarrow> bool" where
  "shellSensitiveKey key \<longleftrightarrow>
     (hasPrefix key ''BASH'' \<and> key \<noteq> ''BASH_ENV'') \<or> hasPrefix key ''ZSH'' \<or> hasPrefix key ''KSH'' \<or>
     key \<in> set sensitiveKeys"

definition keyStart :: "char \<Rightarrow> bool" where
  "keyStart c \<longleftrightarrow> c = CHR ''_'' \<or> isLower c \<or> isUpper c"

definition exportableKey :: "string \<Rightarrow> bool" where
  "exportableKey key \<longleftrightarrow> (case key of [] \<Rightarrow> False
     | c # s \<Rightarrow> keyStart c \<and> list_all (\<lambda>x. keyStart x \<or> isDigit x) s)"

fun imageEnvironment :: "string list \<Rightarrow> (string \<times> string) list \<Rightarrow> (string \<times> string) list option" where
  "imageEnvironment [] m = Some m"
| "imageEnvironment (entry # entries) m =
     (case cutAt (CHR ''='') entry of
        (key, val, found) \<Rightarrow>
          if \<not> found then None else imageEnvironment entries (store key val m))"

definition identityEnvironment :: "string list \<Rightarrow> (string \<times> string) list \<Rightarrow> string list \<times> bool" where
  "identityEnvironment imageEnv overrides =
     (case imageEnvironment imageEnv [] of
        None \<Rightarrow> ([], False)
      | Some m \<Rightarrow>
          let effective = fold (\<lambda>(key, val) m. store key val m) overrides m;
              keys = map fst effective in
          if list_ex (\<lambda>key. \<not> exportableKey key \<or> shellSensitiveKey key) keys then ([], False)
          else (map (\<lambda>key. key @ ''='' @ the (map_of effective key)) (sort keys), True))"

definition internalShellEnv :: "string list \<Rightarrow> string list" where
  "internalShellEnv overrides =
     filter (\<lambda>entry. let key = fst (cutAt (CHR ''='') entry) in key \<noteq> ''ENV'' \<and> key \<noteq> ''BASH_ENV'')
       overrides @ [''ENV='', ''BASH_ENV='']"

section \<open>Identity records\<close>

definition identityPreambleLimit :: nat where
  "identityPreambleLimit = 256"

definition invalidPreamble :: err where
  "invalidPreamble = Msg ''invalid Docker guest identity preamble''"

definition parseIdentity :: "string \<Rightarrow> string \<Rightarrow> string \<Rightarrow> err + nat \<times> nat" where
  "parseIdentity rec tag nonce =
     (if rec = [] \<or> length rec > identityPreambleLimit \<or> last rec \<noteq> newline then Inl invalidPreamble
      else
        let fields = splitOn (CHR '' '') (butlast rec) in
        if length fields \<noteq> 4 \<or> fields ! 0 \<noteq> tag \<or> fields ! 1 \<noteq> nonce then Inl invalidPreamble
        else case (ParseUint 31 (fields ! 2), ParseUint 64 (fields ! 3)) of
          (Some pid, Some start) \<Rightarrow>
            if pid \<le> 1 \<or> start = 0 \<or> Itoa pid \<noteq> fields ! 2 \<or> Itoa start \<noteq> fields ! 3
            then Inl invalidPreamble
            else Inr (pid, start)
        | _ \<Rightarrow> Inl invalidPreamble)"

text \<open>A bounded buffer: \<open>helperBuffer\<close> and \<open>synchronousBuffer\<close> refuse a write that would exceed it.\<close>

definition boundedWrite :: "nat \<Rightarrow> err \<Rightarrow> string \<Rightarrow> string \<Rightarrow> err + string" where
  "boundedWrite limit e b p = (if length p > limit - length b then Inl e else Inr (b @ p))"

section \<open>Publication and the stderr filter\<close>

definition publishIdentity :: "nat \<Rightarrow> nat \<Rightarrow> err option \<Rightarrow> runningCommand \<Rightarrow> runningCommand" where
  "publishIdentity pid start e rc =
     (if rc_identity rc = None then rc\<lparr>rc_identity := Some (int pid, start, e)\<rparr> else rc)"

record identityStderr =
  preamble :: string
  complete :: bool

definition newFilter :: identityStderr where
  "newFilter = \<lparr>preamble = [], complete = False\<rparr>"

definition preambleTooLong :: err where
  "preambleTooLong = Msg ''runtime: Docker guest identity preamble exceeded its bounded size''"

definition stderrWrite :: "string \<Rightarrow> runningCommand \<Rightarrow> runningCommand" where
  "stderrWrite p rc = rc\<lparr>rc_stderr := ring_write (rc_stderr rc) p\<rparr>"

text \<open>\<open>identityStderr.Write\<close>: the error of the write, and the filter and command after it.\<close>

definition filter_write ::
    "string \<Rightarrow> string \<Rightarrow> identityStderr \<times> runningCommand \<Rightarrow>
     err option \<times> identityStderr \<times> runningCommand" where
  "filter_write nonce p wr =
     (case wr of (w, rc) \<Rightarrow>
      if complete w then (None, w, stderrWrite p rc)
      else
        let room = identityPreambleLimit - length (preamble w) in
        case indexOf newline p of
          None \<Rightarrow>
            if length p > room \<or> length p = room
            then (Some preambleTooLong, w, publishIdentity 0 0 (Some preambleTooLong) rc)
            else (None, w\<lparr>preamble := preamble w @ p\<rparr>, rc)
        | Some i \<Rightarrow>
            if Suc i > room
            then (Some preambleTooLong, w, publishIdentity 0 0 (Some preambleTooLong) rc)
            else
              let line = preamble w @ take (Suc i) p in
              case parseIdentity line ''OPENSBX_EXEC'' nonce of
                Inl e \<Rightarrow> (Some e, w\<lparr>preamble := line\<rparr>, publishIdentity 0 0 (Some e) rc)
              | Inr (pid, start) \<Rightarrow>
                  (None, \<lparr>preamble = [], complete = True\<rparr>,
                   stderrWrite (drop (Suc i) p) (publishIdentity pid start None rc)))"

definition preambleMissing :: err where
  "preambleMissing = Msg ''runtime: Docker guest identity preamble was not received before stderr closed''"

definition filter_finish ::
    "err option \<Rightarrow> identityStderr \<times> runningCommand \<Rightarrow> err option \<times> runningCommand" where
  "filter_finish e wr =
     (case wr of (w, rc) \<Rightarrow>
      if complete w then (e, rc)
      else let e1 = (case e of None \<Rightarrow> preambleMissing | Some x \<Rightarrow> x) in
        (Some e1, publishIdentity 0 0 (Some e1) rc))"

text \<open>The demultiplexer writes one payload after the other and stops at the first error.\<close>

fun feed ::
    "string \<Rightarrow> string list \<Rightarrow> identityStderr \<times> runningCommand \<Rightarrow>
     err option \<times> identityStderr \<times> runningCommand" where
  "feed nonce [] wr = (None, wr)"
| "feed nonce (p # ps) wr =
     (case filter_write nonce p wr of
        (Some e, wr') \<Rightarrow> (Some e, wr')
      | (None, wr') \<Rightarrow> feed nonce ps wr')"

section \<open>Missing shells\<close>

text \<open>\<open>err.Error()\<close>; the text of an engine error is what the engine gave.\<close>

fun errText :: "err \<Rightarrow> string" where
  "errText ErrNotFound = ''sandbox not found''"
| "errText ErrImageNotFound = ''image not found locally''"
| "errText ErrAlreadyRunning = ''sandbox is already running''"
| "errText ErrAlreadyStopped = ''sandbox is already stopped''"
| "errText ErrAlreadyPaused = ''sandbox is already paused''"
| "errText ErrNotPaused = ''sandbox is not paused''"
| "errText ErrNotRunning = ''sandbox is not running''"
| "errText ErrCommandNotFound = ''command not found''"
| "errText ErrCommandFinished = ''command has already finished''"
| "errText ErrLogTruncated = ''command logs truncated: retained output was overwritten''"
| "errText ErrUnsupported = ''runtime capability is unsupported''"
| "errText ErrInvalidInput = ''invalid input''"
| "errText Canceled = ''context canceled''"
| "errText DeadlineExceeded = ''context deadline exceeded''"
| "errText EOF = ''EOF''"
| "errText (Native b s) = s"
| "errText (Db s) = s"
| "errText (Msg s) = s"
| "errText (Wrap s e) = s @ '': '' @ errText e"
| "errText (Join es) = joinLines (map errText es)"
| "errText (Deferred e) = errText e"

definition missingIdentityShell :: "err \<Rightarrow> bool" where
  "missingIdentityShell e \<longleftrightarrow> \<not> (errors_is e Canceled \<or> errors_is e DeadlineExceeded) \<and>
     ((containsStr (errText e) ''exec: \"/bin/sh\":'' \<and>
        (containsStr (errText e) ''no such file or directory'' \<or>
         containsStr (errText e) ''executable file not found'')) \<or>
      containsStr (errText e) ''exec /bin/sh: no such file or directory'')"

section \<open>Records read back\<close>

lemma splitOn_sep: "c \<notin> set a \<Longrightarrow> splitOn c (a @ [c] @ b) = a # splitOn c b"
  using splitOn_append [of c a b] by simp

lemma splitOn_inverse: "s = concat (map (\<lambda>p. p @ [c]) (butlast (splitOn c s))) @ last (splitOn c s)"
proof (induction s)
  case (Cons x s)
  show ?case
  proof (cases "splitOn c s")
    case Nil
    then show ?thesis by simp
  next
    case (Cons p ps)
    then show ?thesis using Cons.IH by (cases "x = c"; cases ps) auto
  qed
qed simp

lemma four_fields:
  assumes "length (splitOn c s) = 4"
  shows "s = splitOn c s ! 0 @ [c] @ splitOn c s ! 1 @ [c] @ splitOn c s ! 2 @ [c] @ splitOn c s ! 3"
proof -
  obtain a b d e where f: "splitOn c s = [a, b, d, e]"
    using assms by (auto simp: length_Suc_conv eval_nat_numeral)
  have "s = a @ [c] @ b @ [c] @ d @ [c] @ e" using splitOn_inverse [of s c] f by simp
  moreover have "splitOn c s ! 0 = a" "splitOn c s ! 1 = b" "splitOn c s ! 2 = d" "splitOn c s ! 3 = e"
    by (simp_all add: f)
  ultimately show ?thesis by metis
qed

definition identityRecord :: "string \<Rightarrow> string \<Rightarrow> nat \<Rightarrow> nat \<Rightarrow> string" where
  "identityRecord tag nonce pid start =
     tag @ '' '' @ nonce @ '' '' @ Itoa pid @ '' '' @ Itoa start @ [newline]"

definition plain :: "string \<Rightarrow> bool" where
  "plain s \<longleftrightarrow> CHR '' '' \<notin> set s"

lemma plain_Itoa [simp]: "plain (Itoa n)"
  by (simp add: plain_def digitVal_def)

lemma record_fields:
  "plain tag \<Longrightarrow> plain nonce \<Longrightarrow>
     splitOn (CHR '' '') (butlast (identityRecord tag nonce pid start)) = [tag, nonce, Itoa pid, Itoa start]"
  using plain_Itoa [of start]
  by (simp add: identityRecord_def butlast_append splitOn_append splitOn_absent plain_def digitVal_def)

text \<open>
  C23: Identity records round-trip and nothing else is accepted: the parser returns a process ID
  and start time exactly for the one text that prints them for this tag and nonce, with a
  process ID above 1 that fits 31 bits, a positive start time that fits 64 bits, and at most
  256 bytes in all.
\<close>

theorem identity_record_exact:
  assumes "plain tag" and "plain nonce"
  shows "parseIdentity rec tag nonce = Inr (pid, start) \<longleftrightarrow>
    rec = identityRecord tag nonce pid start \<and> 1 < pid \<and> pid < 2 ^ 31 \<and> 0 < start \<and> start < 2 ^ 64 \<and>
    length rec \<le> 256"
proof
  assume p: "parseIdentity rec tag nonce = Inr (pid, start)"
  let ?f = "splitOn (CHR '' '') (butlast rec)"
  have r: "rec \<noteq> []" "length rec \<le> 256" "last rec = newline"
    using p by (auto simp: parseIdentity_def identityPreambleLimit_def split: if_splits)
  have f: "length ?f = 4" "?f ! 0 = tag" "?f ! 1 = nonce"
    using p by (auto simp: parseIdentity_def Let_def split: if_splits)
  have n: "ParseUint 31 (?f ! 2) = Some pid" "ParseUint 64 (?f ! 3) = Some start"
      "1 < pid" "0 < start" "Itoa pid = ?f ! 2" "Itoa start = ?f ! 3"
    using p by (auto simp: parseIdentity_def Let_def split: if_splits option.splits)
  have "butlast rec = tag @ '' '' @ nonce @ '' '' @ Itoa pid @ '' '' @ Itoa start"
    using four_fields [OF f(1)] f n(5,6) by simp
  then have "rec = identityRecord tag nonce pid start"
    using append_butlast_last_id [OF r(1)] r(3) by (simp add: identityRecord_def)
  then show "rec = identityRecord tag nonce pid start \<and> 1 < pid \<and> pid < 2 ^ 31 \<and> 0 < start \<and>
      start < 2 ^ 64 \<and> length rec \<le> 256"
    using n r(2) ParseUint_less [OF n(1)] ParseUint_less [OF n(2)] by simp
next
  assume r: "rec = identityRecord tag nonce pid start \<and> 1 < pid \<and> pid < 2 ^ 31 \<and> 0 < start \<and>
      start < 2 ^ 64 \<and> length rec \<le> 256"
  then have "rec \<noteq> []" "last rec = newline" by (auto simp: identityRecord_def)
  then show "parseIdentity rec tag nonce = Inr (pid, start)"
    using r record_fields [OF assms, of pid start]
    by (auto simp: parseIdentity_def identityPreambleLimit_def Let_def)
qed

theorem identity_record_exact_witness:
  "parseIdentity (identityRecord ''OPENSBX_EXEC'' ''cmd_1'' 42 1700) ''OPENSBX_EXEC'' ''cmd_1'' = Inr (42, 1700)"
proof -
  have "plain ''OPENSBX_EXEC''" "plain ''cmd_1''" by (simp_all add: plain_def)
  moreover have "length (identityRecord ''OPENSBX_EXEC'' ''cmd_1'' 42 1700) \<le> 256"
    by (simp add: identityRecord_def decimal_eval)
  ultimately show ?thesis
    using identity_record_exact [of "''OPENSBX_EXEC''" "''cmd_1''"
        "identityRecord ''OPENSBX_EXEC'' ''cmd_1'' 42 1700" 42 1700] by simp
qed

section \<open>The filter is independent of chunking\<close>

datatype preamble_result = Incomplete | Refused err | Accepted nat nat string

text \<open>What the whole of stderr says, without chunks.\<close>

definition preamble_spec :: "string \<Rightarrow> string \<Rightarrow> preamble_result" where
  "preamble_spec nonce s =
     (case indexOf newline s of
        None \<Rightarrow> if length s < identityPreambleLimit then Incomplete else Refused preambleTooLong
      | Some i \<Rightarrow>
          if Suc i > identityPreambleLimit then Refused preambleTooLong
          else case parseIdentity (take (Suc i) s) ''OPENSBX_EXEC'' nonce of
            Inl e \<Rightarrow> Refused e
          | Inr (pid, start) \<Rightarrow> Accepted pid start (drop (Suc i) s))"

definition filtered :: "runningCommand \<Rightarrow> preamble_result \<Rightarrow> err option \<times> runningCommand \<Rightarrow> bool" where
  "filtered rc res out \<longleftrightarrow> (case res of
     Incomplete \<Rightarrow> out = (None, rc)
   | Refused e \<Rightarrow> out = (Some e, publishIdentity 0 0 (Some e) rc)
   | Accepted pid start rest \<Rightarrow> \<exists>r. ring_hist r rest \<and> rsize r = rsize (rc_stderr rc) \<and>
       out = (None, (publishIdentity pid start None rc)\<lparr>rc_stderr := r\<rparr>))"

definition dropFilter :: "err option \<times> identityStderr \<times> runningCommand \<Rightarrow> err option \<times> runningCommand" where
  "dropFilter x = (case x of (e, w, rc) \<Rightarrow> (e, rc))"

lemma feed_complete:
  assumes "ring_hist (rc_stderr rc) h" and "complete w"
  shows "\<exists>r. ring_hist r (h @ concat ps) \<and> rsize r = rsize (rc_stderr rc) \<and> feed nonce ps (w, rc) = (None, w, rc\<lparr>rc_stderr := r\<rparr>)"
  using assms(1)
proof (induction ps arbitrary: rc h)
  case Nil
  then show ?case by (intro exI [of _ "rc_stderr rc"]) simp
next
  case (Cons p ps)
  have "ring_hist (rc_stderr (stderrWrite p rc)) (h @ p)"
    using ring_hist_write [OF Cons.prems] by (simp add: stderrWrite_def)
  from Cons.IH [OF this] show ?case using assms(2)
    by (auto simp: filter_write_def stderrWrite_def)
qed

declare indexOf_None [simp del]

lemma indexOf_absent [simp]: "c \<notin> set s \<Longrightarrow> indexOf c s = None"
  by (simp add: indexOf_None)

lemma indexOf_append_None: "c \<notin> set a \<Longrightarrow> indexOf c (a @ b) = map_option ((+) (length a)) (indexOf c b)"
proof (induction a)
  case Nil
  then show ?case by (cases "indexOf c b") simp_all
next
  case (Cons x a)
  then show ?case by (cases "indexOf c b") auto
qed

lemma indexOf_append_Some: "indexOf c b = Some i \<Longrightarrow> indexOf c (b @ d) = Some i"
  by (induction b arbitrary: i) (auto split: if_splits)

lemma publish_stderr [simp]: "rc_stderr (publishIdentity pid start e rc) = rc_stderr rc"
  by (simp add: publishIdentity_def)

lemma feed_spec:
  assumes "ring_hist (rc_stderr rc) []" and "newline \<notin> set a" and "length a < identityPreambleLimit"
  shows "filtered rc (preamble_spec nonce (a @ concat ps))
    (dropFilter (feed nonce ps (\<lparr>preamble = a, complete = False\<rparr>, rc)))"
  using assms(2,3)
proof (induction ps arbitrary: a)
  case Nil
  then show ?case by (simp add: indexOf_absent preamble_spec_def filtered_def dropFilter_def)
next
  case (Cons p ps)
  let ?w = "\<lparr>preamble = a, complete = False\<rparr>"
  let ?s = "a @ concat (p # ps)"
  show ?case
  proof (cases "indexOf newline p")
    case None
    then have np: "newline \<notin> set p" by (simp add: indexOf_None)
    show ?thesis
    proof (cases "length a + length p < identityPreambleLimit")
      case True
      have "feed nonce (p # ps) (?w, rc) = feed nonce ps (\<lparr>preamble = a @ p, complete = False\<rparr>, rc)"
        using None True by (auto simp: filter_write_def Let_def)
      then show ?thesis using Cons.IH [of "a @ p"] Cons.prems np True by simp
    next
      case False
      have "preamble_spec nonce ?s = Refused preambleTooLong"
        using indexOf_append_None [of newline "a @ p" "concat ps"] Cons.prems(1) np False
        by (auto simp: preamble_spec_def split: option.split)
      moreover have "feed nonce (p # ps) (?w, rc) =
          (Some preambleTooLong, ?w, publishIdentity 0 0 (Some preambleTooLong) rc)"
        using None False Cons.prems(2) by (auto simp: filter_write_def Let_def)
      ultimately show ?thesis by (simp add: filtered_def dropFilter_def)
    qed
  next
    case (Some i)
    have "indexOf newline (p @ concat ps) = Some i" by (rule indexOf_append_Some [OF Some])
    then have ix: "indexOf newline ?s = Some (length a + i)"
      using indexOf_append_None [OF Cons.prems(1), of "p @ concat ps"] by simp
    have i: "i < length p" using indexOf_Some [OF Some] by auto
    have line: "take (Suc (length a + i)) ?s = a @ take (Suc i) p"
      "drop (Suc (length a + i)) ?s = drop (Suc i) p @ concat ps"
      using i by simp_all
    show ?thesis
    proof (cases "length a + Suc i > identityPreambleLimit")
      case True
      then show ?thesis using Some ix Cons.prems(2)
        by (auto simp: preamble_spec_def filtered_def dropFilter_def filter_write_def Let_def)
    next
      case False
      then have room: "\<not> Suc i > identityPreambleLimit - length a" by simp
      have spec: "preamble_spec nonce ?s =
          (case parseIdentity (a @ take (Suc i) p) ''OPENSBX_EXEC'' nonce of
             Inl e \<Rightarrow> Refused e
           | Inr (pid, start) \<Rightarrow> Accepted pid start (drop (Suc i) p @ concat ps))"
        unfolding preamble_spec_def ix option.case line using False by simp
      show ?thesis
      proof (cases "parseIdentity (a @ take (Suc i) p) ''OPENSBX_EXEC'' nonce")
        case (Inl e)
        then show ?thesis using Some room
          by (simp add: spec [simplified] filtered_def dropFilter_def filter_write_def Let_def)
      next
        case (Inr ps')
        obtain pid start where ps': "ps' = (pid, start)" by fastforce
        let ?rc = "stderrWrite (drop (Suc i) p) (publishIdentity pid start None rc)"
        have "ring_hist (rc_stderr ?rc) ([] @ drop (Suc i) p)"
          using ring_hist_write [OF assms(1)] by (simp add: stderrWrite_def)
        from feed_complete [OF this, of "\<lparr>preamble = [], complete = True\<rparr>" ps nonce]
        obtain r where r: "ring_hist r (drop (Suc i) p @ concat ps)" "rsize r = rsize (rc_stderr rc)"
          "feed nonce ps (\<lparr>preamble = [], complete = True\<rparr>, ?rc) =
             (None, \<lparr>preamble = [], complete = True\<rparr>, ?rc\<lparr>rc_stderr := r\<rparr>)"
          by (auto simp: stderrWrite_def)
        show ?thesis using Some room Inr ps' r
          by (auto simp: spec [simplified] filtered_def dropFilter_def filter_write_def Let_def stderrWrite_def)
      qed
    qed
  qed
qed

text \<open>
  C22: The filter sees through chunking: however the engine cuts the command's stderr into
  writes, the outcome is that of the whole stream. The first line, if it is complete within
  256 bytes and parses, is published as the identity and never reaches the command's log; the
  log receives exactly what follows it; any other start of the stream ends it with the same
  error, publishes that error, and leaves the log empty.
\<close>

theorem stderr_filter_ignores_chunking:
  assumes "ring_hist (rc_stderr rc) []"
  shows "filtered rc (preamble_spec nonce (concat chunks)) (dropFilter (feed nonce chunks (newFilter, rc)))"
  using feed_spec [OF assms, of "[]" nonce chunks] by (simp add: newFilter_def identityPreambleLimit_def)

definition idle_command :: "string \<Rightarrow> string \<Rightarrow> string list \<Rightarrow> runningCommand" where
  "idle_command execID sandboxID argv = \<lparr>rc_execID = execID, rc_sandboxID = sandboxID, rc_cmd = argv,
     rc_canceled = False, rc_stdout = newRingBuffer defaultRingSize,
     rc_stderr = newRingBuffer defaultRingSize, rc_done = False, rc_attached = False,
     rc_startErr = None, rc_exitCode = 0, rc_finished = False, rc_identity = None, rc_streamErr = None\<rparr>"

theorem stderr_filter_ignores_chunking_witness:
  "\<exists>r. ring_hist r ''warn'' \<and>
     dropFilter (feed ''n'' [''OPENSBX_EX'', ''EC n 7 9'' @ [newline] @ ''wa'', ''rn'']
       (newFilter, idle_command ''e1'' ''c1'' [])) =
     (None, (publishIdentity 7 9 None (idle_command ''e1'' ''c1'' []))\<lparr>rc_stderr := r\<rparr>)"
proof -
  let ?rc = "idle_command ''e1'' ''c1'' []"
  have h: "ring_hist (rc_stderr ?rc) []"
    by (simp add: idle_command_def defaultRingSize_def ring_hist_new)
  let ?chunks = "[''OPENSBX_EX'', ''EC n 7 9'' @ [newline] @ ''wa'', ''rn'']"
  have spec: "preamble_spec ''n'' (concat ?chunks) = Accepted 7 9 ''warn''"
    by (simp add: preamble_spec_def newline_def identityPreambleLimit_def parseIdentity_def decimal_eval)
  have "filtered ?rc (Accepted 7 9 ''warn'') (dropFilter (feed ''n'' ?chunks (newFilter, ?rc)))"
    by (rule stderr_filter_ignores_chunking [OF h, of "''n''" ?chunks, unfolded spec])
  then obtain r where "ring_hist r ''warn''"
      "dropFilter (feed ''n'' ?chunks (newFilter, ?rc)) = (None, (publishIdentity 7 9 None ?rc)\<lparr>rc_stderr := r\<rparr>)"
    unfolding filtered_def preamble_result.case by (elim exE conjE)
  then show ?thesis by (intro exI conjI)
qed

end
