(* ===== verification/Docker_Commands.thy ===== *)
theory Docker_Commands
  imports Guest_Identity Docker_Lifecycle
begin

text \<open>
  \<open>src/internal/docker/commands.go\<close> with the helpers of \<open>command_identity.go\<close> that talk to the
  engine: starting a command in a sandbox, the goroutine that follows its output, looking it
  up, its logs, waiting for it and signalling it, and the synchronous execs of file operations.

  The state adds to the adapter's the calls to the engine's exec interface and the stderr
  filters of the running goroutines. The engine's answers may depend on all earlier calls. The
  goroutine of a command is a sequence of \<open>command_event\<close>s. What a blocked handler finds when it
  looks at a command again is the function \<open>x_view\<close>: other goroutines may have changed the command
  object meanwhile; \<open>encoding/json\<close> is the pair \<open>x_marshal\<close>, \<open>x_unmarshal\<close>.
\<close>

section \<open>The engine's exec interface\<close>

record exec_opts =
  xo_Cmd :: "string list"
  xo_Env :: "string list"
  xo_Dir :: string
  xo_Stdin :: bool
  xo_Output :: bool

record exec_state =
  es_Running :: bool
  es_ExitCode :: int
  es_PID :: int

datatype exec_event =
    ExecCreated string exec_opts "err + string"
  | ExecAttached string
  | ExecInspected string

text \<open>A stream: the payloads in order with the flag for stderr, and how it ended.\<close>

type_synonym exec_stream = "(bool \<times> string) list \<times> err option"

record exec_env =
  x_en :: env
  x_create :: "exec_event list \<Rightarrow> string \<Rightarrow> exec_opts \<Rightarrow> err + string"
  x_attach :: "exec_event list \<Rightarrow> string \<Rightarrow> err + exec_stream"
  x_stdin :: "exec_event list \<Rightarrow> string \<Rightarrow> string \<Rightarrow> err option"
  x_inspect :: "exec_event list \<Rightarrow> string \<Rightarrow> err + exec_state"
  x_expired :: "nat \<Rightarrow> bool"
  x_pick :: "nat \<Rightarrow> nat"
  x_view :: "nat \<Rightarrow> runningCommand \<Rightarrow> runningCommand"
  x_marshal :: "string list \<Rightarrow> string"
  x_unmarshal :: "string \<Rightarrow> string list"
  x_fuel :: nat
  x_blocked :: err

record shell =
  sh_world :: world
  sh_execs :: "exec_event list"
  sh_filters :: "(string \<times> identityStderr) list"

type_synonym 'a sh = "(shell, 'a) prog"

definition lift :: "'a act \<Rightarrow> 'a sh" where
  "lift m = zoom sh_world (\<lambda>w s. s\<lparr>sh_world := w\<rparr>) m"

definition ExecCreate :: "exec_env \<Rightarrow> string \<Rightarrow> exec_opts \<Rightarrow> string sh" where
  "ExecCreate xe i opts = (\<lambda>s. let r = x_create xe (sh_execs s) i opts in
     (r, s\<lparr>sh_execs := sh_execs s @ [ExecCreated i opts r]\<rparr>))"

definition ExecAttach :: "exec_env \<Rightarrow> string \<Rightarrow> exec_stream sh" where
  "ExecAttach xe i = (\<lambda>s. (x_attach xe (sh_execs s) i, s\<lparr>sh_execs := sh_execs s @ [ExecAttached i]\<rparr>))"

definition ExecInspect :: "exec_env \<Rightarrow> string \<Rightarrow> exec_state sh" where
  "ExecInspect xe i = (\<lambda>s. (x_inspect xe (sh_execs s) i, s\<lparr>sh_execs := sh_execs s @ [ExecInspected i]\<rparr>))"

text \<open>\<open>context.WithTimeout\<close>: the parent's error, or the deadline's once it has passed.\<close>

definition withTimeout :: "exec_env \<Rightarrow> ctx \<Rightarrow> ctx" where
  "withTimeout xe cx = cx\<lparr>cx_Err := (\<lambda>n. case cx_Err cx n of
     Some e \<Rightarrow> Some e | None \<Rightarrow> if x_expired xe n then Some DeadlineExceeded else None)\<rparr>"

definition checkCtx :: "ctx \<Rightarrow> unit sh" where
  "checkCtx cx = andThen (lift (ctxErr cx)) (\<lambda>e. case e of None \<Rightarrow> ret () | Some x \<Rightarrow> throw x)"

definition throwIf :: "err option \<Rightarrow> unit sh" where
  "throwIf e = (case e of None \<Rightarrow> ret () | Some x \<Rightarrow> throw x)"

section \<open>Synchronous execs\<close>

record execResult =
  er_stdout :: string
  er_stderr :: string
  er_exitCode :: int

text \<open>\<open>stdcopy.StdCopy\<close> into two bounded buffers: the first refused write ends it.\<close>

fun copyFrames :: "nat \<Rightarrow> err \<Rightarrow> (bool \<times> string) list \<Rightarrow> string \<times> string \<Rightarrow> err option \<times> string \<times> string" where
  "copyFrames limit e [] b = (None, b)"
| "copyFrames limit e ((isErr, p) # fs) (out, er) =
     (case boundedWrite limit e (if isErr then er else out) p of
        Inl x \<Rightarrow> (Some x, out, er)
      | Inr b \<Rightarrow> copyFrames limit e fs (if isErr then (out, b) else (b, er)))"

definition copyStream :: "nat \<Rightarrow> err \<Rightarrow> exec_stream \<Rightarrow> err option \<times> string \<times> string" where
  "copyStream limit e st = (case copyFrames limit e (fst st) ([], []) of
     (Some x, b) \<Rightarrow> (Some x, b) | (None, b) \<Rightarrow> (snd st, b))"

definition helperLimitErr :: err where
  "helperLimitErr = Msg ''runtime: Docker identity helper exceeded its bounded output limit''"

definition runIdentityHelper :: "exec_env \<Rightarrow> ctx \<Rightarrow> string \<Rightarrow> exec_opts \<Rightarrow> execResult sh" where
  "runIdentityHelper xe cx0 sandboxID opts = (let cx = withTimeout xe cx0 in
     andThen (ExecCreate xe sandboxID (opts\<lparr>xo_Output := True\<rparr>)) (\<lambda>native.
     andThen (ExecAttach xe native) (\<lambda>attached.
     case copyStream identityPreambleLimit helperLimitErr attached of (copyErr, out, er) \<Rightarrow>
     andThen (checkCtx cx) (\<lambda>_.
     andThen (throwIf copyErr) (\<lambda>_.
     andThen (ExecInspect xe native) (\<lambda>st.
     andThen (checkCtx cx) (\<lambda>_.
     if es_Running st
     then throw (Msg ''runtime: Docker identity helper observation ended before confirmed completion'')
     else ret \<lparr>er_stdout = out, er_stderr = er, er_exitCode = es_ExitCode st\<rparr>)))))))"

definition synchronousOutputLimit :: nat where
  "synchronousOutputLimit = 4 * 2 ^ 20"

definition syncLimitErr :: err where
  "syncLimitErr = Msg ''docker synchronous exec output exceeds 4 MiB''"

definition execWithStdin :: "exec_env \<Rightarrow> ctx \<Rightarrow> string \<Rightarrow> string list \<Rightarrow> string option \<Rightarrow> execResult sh" where
  "execWithStdin xe cx0 i cmd stdin = (let cx = withTimeout xe cx0 in
     andThen (mapErr wrapNotFound (ExecCreate xe i \<lparr>xo_Cmd = cmd, xo_Env = [], xo_Dir = [],
         xo_Stdin = (stdin \<noteq> None), xo_Output = True\<rparr>)) (\<lambda>native.
     andThen (ExecAttach xe native) (\<lambda>attached.
     andThen
       (case stdin of
          None \<Rightarrow> ret ()
        | Some text \<Rightarrow>
            andThen (reads (\<lambda>s. x_stdin xe (sh_execs s) native text)) (\<lambda>e.
            case e of
              None \<Rightarrow> ret ()
            | Some x \<Rightarrow> andThen (checkCtx cx) (\<lambda>_. throw x))) (\<lambda>_.
     case copyStream synchronousOutputLimit syncLimitErr attached of (copyErr, out, er) \<Rightarrow>
     andThen
       (case copyErr of
          None \<Rightarrow> ret ()
        | Some x \<Rightarrow> if x = EOF then ret () else andThen (checkCtx cx) (\<lambda>_. throw x)) (\<lambda>_.
     andThen (checkCtx cx) (\<lambda>_.
     andThen (ExecInspect xe native) (\<lambda>st.
     andThen (checkCtx cx) (\<lambda>_.
     if es_Running st
     then throw (Msg ''docker synchronous exec ended before confirmed completion'')
     else ret \<lparr>er_stdout = out, er_stderr = er, er_exitCode = es_ExitCode st\<rparr>))))))))"

section \<open>Identity helpers\<close>

definition probeIdentity :: "exec_env \<Rightarrow> ctx \<Rightarrow> string \<Rightarrow> string \<Rightarrow> string \<Rightarrow> string list \<Rightarrow> bool sh" where
  "probeIdentity xe cx sandboxID nonce cwd envs =
     andThen (attempt (runIdentityHelper xe cx sandboxID
         \<lparr>xo_Cmd = [''/bin/sh'', ''-c'', identityProbeScript, ''opensbx-probe'', nonce],
          xo_Env = internalShellEnv envs, xo_Dir = cwd, xo_Stdin = False, xo_Output = False\<rparr>)) (\<lambda>r.
     case r of
       Inl e \<Rightarrow> if missingIdentityShell e then ret False else throw e
     | Inr result \<Rightarrow>
         if er_exitCode result = 125 then ret False
         else if er_exitCode result \<noteq> 0 \<or> er_stderr result \<noteq> []
         then throw (Msg ''runtime: Docker guest identity capability probe failed'')
         else case parseIdentity (er_stdout result) ''OPENSBX_PROBE'' nonce of
           Inl e \<Rightarrow> throw e
         | Inr _ \<Rightarrow> ret True)"

section \<open>Starting a command\<close>

record exec_request =
  eq_Command :: string
  eq_Args :: "string list"
  eq_Cwd :: string
  eq_Env :: "(string \<times> string) list"

record command_detail =
  cd_ID :: string
  cd_Name :: string
  cd_Args :: "string list"
  cd_Cwd :: string
  cd_SandboxID :: string
  cd_ExitCode :: "int option"
  cd_StartedAt :: int
  cd_FinishedAt :: "int option"

definition envSlice :: "(string \<times> string) list \<Rightarrow> string list" where
  "envSlice e = map (\<lambda>key. key @ ''='' @ the (map_of e key)) (sort (map fst e))"

definition unixMilli :: "int \<Rightarrow> int" where
  "unixMilli t = t div 1000000"

definition newCommand :: "string \<Rightarrow> string \<Rightarrow> string list \<Rightarrow> bool \<Rightarrow> string \<Rightarrow> runningCommand" where
  "newCommand execID sandboxID argv wrapped unavailable =
     (let rc = idle_command execID sandboxID argv in
      if wrapped then rc else publishIdentity 0 0 (Some (Wrap unavailable ErrUnsupported)) rc)"

definition wrapperOpts :: "exec_opts \<Rightarrow> string \<Rightarrow> string list \<Rightarrow> string list \<Rightarrow> string list \<Rightarrow> exec_opts" where
  "wrapperOpts opts cmdID restoreEnv envs fullCmd = opts\<lparr>
     xo_Cmd := [''/bin/sh'', ''-c'', identityWrapperScript, ''opensbx-command'', cmdID] @ restoreEnv @ [''--''] @ fullCmd,
     xo_Env := internalShellEnv envs\<rparr>"

text \<open>The second half of \<open>ExecCommand\<close>: the exec, the row and the object of the command.\<close>

definition startCommand ::
    "exec_env \<Rightarrow> string \<Rightarrow> exec_request \<Rightarrow> string \<Rightarrow> int \<Rightarrow> string list \<Rightarrow> string \<Rightarrow> bool \<Rightarrow> command_detail sh" where
  "startCommand xe sandboxID req cmdID t restoreEnv unavailable wrapped =
     (let fullCmd = eq_Command req # eq_Args req;
          envs = envSlice (eq_Env req);
          opts = \<lparr>xo_Cmd = fullCmd, xo_Env = envs, xo_Dir = eq_Cwd req, xo_Stdin = False, xo_Output = True\<rparr>;
          opts1 = (if wrapped then wrapperOpts opts cmdID restoreEnv envs fullCmd else opts) in
      andThen (mapErr wrapNotFound (ExecCreate xe sandboxID opts1)) (\<lambda>execID.
      andThen (mapErr (Wrap ''save command'') (lift (repo (SaveCommand (en_F (x_en xe)) True
          \<lparr>cmd_ID = cmdID, cmd_SandboxID = sandboxID, cmd_Name = eq_Command req,
           cmd_Args = x_marshal xe (eq_Args req), cmd_Cwd = eq_Cwd req, cmd_ExitCode = None,
           cmd_StartedAt = unixMilli t, cmd_FinishedAt = None\<rparr>)))) (\<lambda>_.
      andThen (modify (\<lambda>s. s\<lparr>
          sh_world := (sh_world s)\<lparr>running :=
            store cmdID (newCommand execID sandboxID fullCmd wrapped unavailable) (running (sh_world s))\<rparr>,
          sh_filters := (if wrapped then store cmdID newFilter (sh_filters s) else sh_filters s)\<rparr>)) (\<lambda>_.
      ret \<lparr>cd_ID = cmdID, cd_Name = eq_Command req, cd_Args = eq_Args req, cd_Cwd = eq_Cwd req,
           cd_SandboxID = sandboxID, cd_ExitCode = None, cd_StartedAt = unixMilli t,
           cd_FinishedAt = None\<rparr>))))"

definition ExecCommand :: "exec_env \<Rightarrow> ctx \<Rightarrow> string \<Rightarrow> exec_request \<Rightarrow> command_detail sh" where
  "ExecCommand xe cx sandboxID req = (let en = x_en xe in
     andThen (lift (lockLifecycle cx)) (\<lambda>_.
     andThen (lift (repo (RequireIdle (en_F en) ''docker'' sandboxID))) (\<lambda>_.
     andThen (mapErr wrapNotFound (lift (ContainerInspect en sandboxID))) (\<lambda>info.
     andThen (lift (deref (ct_State info))) (\<lambda>st.
     if \<not> st_Running st then throw ErrNotRunning
     else
     andThen (lift (generateCmdID en)) (\<lambda>cmdID.
     andThen (lift (now en)) (\<lambda>t.
     case ct_Config info of
       None \<Rightarrow> throw (Msg ''runtime: Docker inspect did not return the original command environment'')
     | Some cfg \<Rightarrow>
         (case identityEnvironment (cc_Env cfg) (eq_Env req) of (restoreEnv, compatible) \<Rightarrow>
          if compatible then
            andThen (mapErr (Wrap ''runtime: Docker command identity probe'')
              (probeIdentity xe cx sandboxID cmdID (eq_Cwd req) (envSlice (eq_Env req)))) (\<lambda>wrapped.
            startCommand xe sandboxID req cmdID t restoreEnv
              ''guest /bin/sh, builtin kill/printf or readable /proc identity is unavailable; command signals are unsupported''
              wrapped)
          else
            startCommand xe sandboxID req cmdID t restoreEnv
              ''shell-sensitive environment requires direct execution; command signals are unavailable''
              False))))))))"

section \<open>The goroutine of a command\<close>

text \<open>
  A command that has been removed from the map lives on in its goroutine, which then changes
  nothing that anyone sees but the command table.
\<close>

definition onCommand :: "string \<Rightarrow> (runningCommand \<Rightarrow> runningCommand) \<Rightarrow> unit sh" where
  "onCommand cmdID f = modify (\<lambda>s. s\<lparr>sh_world := (sh_world s)\<lparr>
     running := map (\<lambda>(k, rc). if k = cmdID then (k, f rc) else (k, rc)) (running (sh_world s))\<rparr>\<rparr>)"

definition closeBuffers :: "err option \<Rightarrow> runningCommand \<Rightarrow> runningCommand" where
  "closeBuffers e rc = rc\<lparr>rc_stdout := closeWithError (rc_stdout rc) e,
     rc_stderr := closeWithError (rc_stderr rc) e\<rparr>"

text \<open>The deferred calls of the goroutine: \<open>cancel\<close> comes last.\<close>

definition leaveCommand :: "runningCommand \<Rightarrow> runningCommand" where
  "leaveCommand rc = (closeBuffers (rc_streamErr rc) rc)\<lparr>rc_done := True, rc_canceled := True\<rparr>"

definition recordFinished :: "exec_env \<Rightarrow> string \<Rightarrow> int \<Rightarrow> int \<Rightarrow> unit sh" where
  "recordFinished xe cmdID code t =
     andThen (attempt (lift (repo (UpdateCommandFinished (en_F (x_en xe)) cmdID code t)))) (\<lambda>_. ret ())"

definition attachFailed :: "exec_env \<Rightarrow> string \<Rightarrow> err \<Rightarrow> unit sh" where
  "attachFailed xe cmdID e =
     andThen (onCommand cmdID (\<lambda>rc. publishIdentity 0 0 (Some e)
         (rc\<lparr>rc_startErr := Some e, rc_exitCode := -1, rc_finished := True\<rparr>)\<lparr>rc_attached := True\<rparr>)) (\<lambda>_.
     andThen (lift (now (x_en xe))) (\<lambda>t.
     andThen (recordFinished xe cmdID (-1) (unixMilli t)) (\<lambda>_.
     onCommand cmdID leaveCommand)))"

definition confirmedExit :: "err + exec_state \<Rightarrow> int option" where
  "confirmedExit r = (case r of Inl _ \<Rightarrow> None
     | Inr st \<Rightarrow> if es_Running st then None else Some (es_ExitCode st))"

definition unconfirmed :: err where
  "unconfirmed = Msg ''runtime: Docker command observation ended without confirmed termination''"

definition streamEnded :: "exec_env \<Rightarrow> string \<Rightarrow> string \<Rightarrow> err option \<Rightarrow> unit sh" where
  "streamEnded xe cmdID execID e0 =
     andThen (reads (\<lambda>s. map_of (sh_filters s) cmdID)) (\<lambda>w.
     let e = (case w of Some f \<Rightarrow> if complete f then e0
           else Some (case e0 of None \<Rightarrow> preambleMissing | Some x \<Rightarrow> x) | None \<Rightarrow> e0) in
     andThen
       (if e = None then ret ()
        else onCommand cmdID (\<lambda>rc. closeBuffers e ((publishIdentity 0 0 e rc)\<lparr>rc_streamErr := e\<rparr>))) (\<lambda>_.
     andThen (attempt (ExecInspect xe execID)) (\<lambda>r.
     let confirmed = confirmedExit r;
         e1 = (if confirmed = None \<and> e = None then Some unconfirmed else e) in
     andThen (lift (now (x_en xe))) (\<lambda>t.
     andThen (onCommand cmdID (\<lambda>rc. rc\<lparr>
         rc_exitCode := (case confirmed of None \<Rightarrow> -1 | Some c \<Rightarrow> c),
         rc_finished := (confirmed \<noteq> None), rc_streamErr := e1\<rparr>)) (\<lambda>_.
     andThen (case confirmed of None \<Rightarrow> ret () | Some c \<Rightarrow> recordFinished xe cmdID c (unixMilli t)) (\<lambda>_.
     onCommand cmdID leaveCommand))))))"

text \<open>One payload of the demultiplexer; the error of a filter write ends the stream.\<close>

definition commandOutput :: "exec_env \<Rightarrow> string \<Rightarrow> string \<Rightarrow> bool \<Rightarrow> string \<Rightarrow> unit sh" where
  "commandOutput xe cmdID execID isErr p = (\<lambda>s.
     if \<not> isErr then
       onCommand cmdID (\<lambda>rc. rc\<lparr>rc_stdout := ring_write (rc_stdout rc) p\<rparr>) s
     else case map_of (sh_filters s) cmdID of
       None \<Rightarrow> onCommand cmdID (stderrWrite p) s
     | Some w \<Rightarrow>
         (case map_of (running (sh_world s)) cmdID of
            None \<Rightarrow> (Inr (), s)
          | Some rc \<Rightarrow>
              (case filter_write cmdID p (w, rc) of (e, w', rc') \<Rightarrow>
                 (case onCommand cmdID (\<lambda>_. rc') (s\<lparr>sh_filters := store cmdID w' (sh_filters s)\<rparr>) of
                    (_, s1) \<Rightarrow>
                      if e = None then (Inr (), s1) else streamEnded xe cmdID execID e s1))))"

datatype command_event =
    AttachFailed err
  | AttachDone
  | Output bool string
  | StreamEnd "err option"
  | Cleanup

definition command_step :: "exec_env \<Rightarrow> string \<Rightarrow> string \<Rightarrow> command_event \<Rightarrow> unit sh" where
  "command_step xe cmdID execID ev = (case ev of
     AttachFailed e \<Rightarrow> attachFailed xe cmdID e
   | AttachDone \<Rightarrow> onCommand cmdID (\<lambda>rc. rc\<lparr>rc_attached := True\<rparr>)
   | Output isErr p \<Rightarrow> commandOutput xe cmdID execID isErr p
   | StreamEnd e \<Rightarrow> streamEnded xe cmdID execID e
   | Cleanup \<Rightarrow> modify (\<lambda>s. s\<lparr>sh_world := (sh_world s)\<lparr>running := remove_key cmdID (running (sh_world s))\<rparr>\<rparr>))"

section \<open>Looking a command up\<close>

definition loadCommand :: "string \<Rightarrow> runningCommand option sh" where
  "loadCommand cmdID = reads (\<lambda>s. map_of (running (sh_world s)) cmdID)"

definition dbCommandToDetail :: "exec_env \<Rightarrow> command_row \<Rightarrow> command_detail sh" where
  "dbCommandToDetail xe cmd =
     andThen (loadCommand (cmd_ID cmd)) (\<lambda>v.
     ret \<lparr>cd_ID = cmd_ID cmd, cd_Name = cmd_Name cmd,
       cd_Args = (if cmd_Args cmd = [] then [] else x_unmarshal xe (cmd_Args cmd)),
       cd_Cwd = cmd_Cwd cmd, cd_SandboxID = cmd_SandboxID cmd,
       cd_ExitCode = (case v of Some rc \<Rightarrow> if rc_finished rc then Some (rc_exitCode rc) else cmd_ExitCode cmd
                      | None \<Rightarrow> cmd_ExitCode cmd),
       cd_StartedAt = cmd_StartedAt cmd, cd_FinishedAt = cmd_FinishedAt cmd\<rparr>)"

definition findCommand :: "exec_env \<Rightarrow> string \<Rightarrow> command_row option sh" where
  "findCommand xe cmdID = lift (repo (FindCommandByID (en_F (x_en xe)) True cmdID))"

definition GetCommand :: "exec_env \<Rightarrow> string \<Rightarrow> string \<Rightarrow> command_detail sh" where
  "GetCommand xe sandboxID cmdID =
     andThen (findCommand xe cmdID) (\<lambda>dbCmd.
     case dbCmd of
       None \<Rightarrow> throw ErrCommandNotFound
     | Some cmd \<Rightarrow>
         if cmd_SandboxID cmd \<noteq> sandboxID then throw ErrCommandNotFound
         else dbCommandToDetail xe cmd)"

fun commandDetails :: "exec_env \<Rightarrow> command_row list \<Rightarrow> command_detail list sh" where
  "commandDetails xe [] = ret []"
| "commandDetails xe (cmd # cmds) =
     andThen (dbCommandToDetail xe cmd) (\<lambda>d.
     andThen (commandDetails xe cmds) (\<lambda>ds. ret (d # ds)))"

definition ListCommands :: "exec_env \<Rightarrow> string \<Rightarrow> command_detail list sh" where
  "ListCommands xe sandboxID =
     andThen (mapErr wrapNotFound (lift (ContainerInspect (x_en xe) sandboxID))) (\<lambda>_.
     andThen (lift (repo (FindCommandsBySandbox (en_F (x_en xe)) True sandboxID))) (\<lambda>cmds.
     commandDetails xe cmds))"

section \<open>Logs\<close>

definition StreamCommandLogs :: "string \<Rightarrow> string \<Rightarrow> (ring_reader \<times> ring_reader) sh" where
  "StreamCommandLogs sandboxID cmdID =
     andThen (loadCommand cmdID) (\<lambda>v.
     case v of
       None \<Rightarrow> throw ErrCommandNotFound
     | Some rc \<Rightarrow>
         if rc_sandboxID rc \<noteq> sandboxID then throw ErrCommandNotFound else ret (newReader, newReader))"

record logs_response =
  lg_Stdout :: string
  lg_Stderr :: string
  lg_ExitCode :: "int option"

definition GetCommandLogs :: "string \<Rightarrow> string \<Rightarrow> logs_response sh" where
  "GetCommandLogs sandboxID cmdID =
     andThen (loadCommand cmdID) (\<lambda>v.
     case v of
       None \<Rightarrow> throw ErrCommandNotFound
     | Some rc \<Rightarrow>
         if rc_sandboxID rc \<noteq> sandboxID then throw ErrCommandNotFound
         else case rc_streamErr rc of
           Some e \<Rightarrow> throw e
         | None \<Rightarrow> ret \<lparr>lg_Stdout = ring_bytes (rc_stdout rc), lg_Stderr = ring_bytes (rc_stderr rc),
             lg_ExitCode = (if rc_finished rc then Some (rc_exitCode rc) else None)\<rparr>)"

section \<open>Waiting\<close>

text \<open>
  A blocked handler looks again at every tick. \<open>awaitReady\<close> is a \<open>select\<close>: of the channels that
  are ready Go picks any. It is given fuel; a handler that is still blocked then has the error
  \<open>x_blocked\<close>.
\<close>

datatype channel = CtxDone | CommandDone | Attached | IdentityReady | TimerDone

definition channelReady :: "ctx \<Rightarrow> nat \<Rightarrow> runningCommand \<Rightarrow> channel \<Rightarrow> bool" where
  "channelReady cx n rc ch = (case ch of
     CtxDone \<Rightarrow> cx_Err cx n \<noteq> None
   | CommandDone \<Rightarrow> rc_done rc
   | Attached \<Rightarrow> rc_attached rc
   | IdentityReady \<Rightarrow> rc_identity rc \<noteq> None
   | TimerDone \<Rightarrow> True)"

fun awaitReady :: "exec_env \<Rightarrow> nat \<Rightarrow> ctx \<Rightarrow> runningCommand \<Rightarrow> channel list \<Rightarrow> channel sh" where
  "awaitReady xe 0 cx rc chs = throw (x_blocked xe)"
| "awaitReady xe (Suc fuel) cx rc chs =
     andThen (reads (\<lambda>s. tick (sh_world s))) (\<lambda>n.
     let ready = filter (channelReady cx n (x_view xe n rc)) chs in
     andThen (modify (\<lambda>s. s\<lparr>sh_world := (sh_world s)\<lparr>tick := Suc n\<rparr>\<rparr>)) (\<lambda>_.
     if ready = [] then awaitReady xe fuel cx rc chs
     else ret (ready ! (x_pick xe n mod length ready))))"

definition look :: "exec_env \<Rightarrow> runningCommand \<Rightarrow> runningCommand sh" where
  "look xe rc = reads (\<lambda>s. x_view xe (tick (sh_world s)) rc)"

text \<open>The closure \<open>terminal\<close> of \<open>waitCommandRunning\<close>.\<close>

definition terminalErr :: "runningCommand \<Rightarrow> err option" where
  "terminalErr rc = (case rc_startErr rc of Some e \<Rightarrow> Some e
     | None \<Rightarrow> (case rc_streamErr rc of Some e \<Rightarrow> Some e
       | None \<Rightarrow> if rc_finished rc then Some ErrCommandFinished else None))"

definition terminal :: "exec_env \<Rightarrow> runningCommand \<Rightarrow> unit sh" where
  "terminal xe rc = andThen (look xe rc) (\<lambda>r. throwIf (terminalErr r))"

definition finishedErr :: "exec_env \<Rightarrow> runningCommand \<Rightarrow> 'a sh" where
  "finishedErr xe rc = andThen (terminal xe rc) (\<lambda>_. throw ErrCommandFinished)"

definition ctxFailure :: "ctx \<Rightarrow> 'a sh" where
  "ctxFailure cx = andThen (lift (ctxErr cx)) (\<lambda>e. throw (case e of None \<Rightarrow> Canceled | Some x \<Rightarrow> x))"

fun pollRunning :: "exec_env \<Rightarrow> nat \<Rightarrow> ctx \<Rightarrow> runningCommand \<Rightarrow> unit sh" where
  "pollRunning xe 0 cx rc = throw (x_blocked xe)"
| "pollRunning xe (Suc fuel) cx rc =
     andThen (checkCtx cx) (\<lambda>_.
     andThen (terminal xe rc) (\<lambda>_.
     andThen (ExecInspect xe (rc_execID rc)) (\<lambda>st.
     andThen (checkCtx cx) (\<lambda>_.
     andThen (terminal xe rc) (\<lambda>_.
     if es_Running st \<and> es_PID st > 0 then ret ()
     else andThen (awaitReady xe 1 cx rc [CtxDone, CommandDone, TimerDone]) (\<lambda>ch.
       case ch of
         CtxDone \<Rightarrow> ctxFailure cx
       | CommandDone \<Rightarrow> finishedErr xe rc
       | _ \<Rightarrow> pollRunning xe fuel cx rc))))))"

definition waitCommandRunning :: "exec_env \<Rightarrow> ctx \<Rightarrow> runningCommand \<Rightarrow> unit sh" where
  "waitCommandRunning xe cx0 rc = (let cx = withTimeout xe cx0 in
     andThen (checkCtx cx) (\<lambda>_.
     andThen (terminal xe rc) (\<lambda>_.
     andThen (awaitReady xe (x_fuel xe) cx rc [CtxDone, CommandDone, Attached]) (\<lambda>ch.
     case ch of
       CtxDone \<Rightarrow> ctxFailure cx
     | CommandDone \<Rightarrow> finishedErr xe rc
     | _ \<Rightarrow> pollRunning xe (x_fuel xe) cx rc))))"

definition identityOf :: "runningCommand \<Rightarrow> err + int \<times> nat" where
  "identityOf rc =
     (let (pid, start, e) = (case rc_identity rc of None \<Rightarrow> (0, 0, None) | Some i \<Rightarrow> i) in
      case e of
        Some x \<Rightarrow> Inl x
      | None \<Rightarrow>
          (case rc_streamErr rc of
             Some x \<Rightarrow> Inl x
           | None \<Rightarrow>
               if rc_finished rc then Inl ErrCommandFinished
               else if pid \<le> 1 \<or> start = 0
               then Inl (Msg ''runtime: Docker guest command identity is not ready'')
               else Inr (pid, start)))"

definition waitGuestIdentity :: "exec_env \<Rightarrow> ctx \<Rightarrow> runningCommand \<Rightarrow> (int \<times> nat) sh" where
  "waitGuestIdentity xe cx0 rc = (let cx = withTimeout xe cx0 in
     andThen (awaitReady xe (x_fuel xe) cx rc [CtxDone, IdentityReady, CommandDone]) (\<lambda>ch.
     if ch = CtxDone then ctxFailure cx
     else
       andThen (checkCtx cx) (\<lambda>_.
       andThen (look xe rc) (\<lambda>r. case identityOf r of Inl e \<Rightarrow> throw e | Inr i \<Rightarrow> ret i))))"

section \<open>Signals\<close>

definition signalOpts :: "int \<Rightarrow> nat \<Rightarrow> nat \<Rightarrow> exec_opts" where
  "signalOpts pid start signal =
     \<lparr>xo_Cmd = [''/bin/sh'', ''-c'', identitySignalScript, ''opensbx-signal'', Itoa (nat pid), Itoa start, Itoa signal],
      xo_Env = internalShellEnv [], xo_Dir = [], xo_Stdin = False, xo_Output = False\<rparr>"

definition signalAck :: "int \<Rightarrow> nat \<Rightarrow> nat \<Rightarrow> string" where
  "signalAck pid start signal =
     ''OPENSBX_SIGNAL '' @ Itoa (nat pid) @ '' '' @ Itoa start @ '' '' @ Itoa signal @ [newline]"

definition notConfirmed :: "err \<Rightarrow> err" where
  "notConfirmed e = Wrap ''guest command signal was not confirmed'' e"

definition sendSignal :: "exec_env \<Rightarrow> ctx \<Rightarrow> string \<Rightarrow> int \<Rightarrow> nat \<Rightarrow> nat \<Rightarrow> unit sh" where
  "sendSignal xe cx sandboxID pid start signal =
     andThen (mapErr notConfirmed (runIdentityHelper xe cx sandboxID (signalOpts pid start signal))) (\<lambda>result.
     andThen (checkCtx cx) (\<lambda>_.
     if er_exitCode result \<noteq> 0 then throw (Msg ''guest command signal was not confirmed'')
     else if er_stdout result \<noteq> signalAck pid start signal \<or> er_stderr result \<noteq> []
     then throw (Msg ''guest command signal was not confirmed: invalid helper acknowledgment'')
     else ret ()))"

text \<open>A command that is not tracked, and one that is.\<close>

definition killUntracked :: "exec_env \<Rightarrow> string \<Rightarrow> string \<Rightarrow> command_detail sh" where
  "killUntracked xe sandboxID cmdID =
     andThen (findCommand xe cmdID) (\<lambda>dbCmd.
     case dbCmd of
       None \<Rightarrow> throw ErrCommandNotFound
     | Some cmd \<Rightarrow>
         if cmd_SandboxID cmd \<noteq> sandboxID then throw ErrCommandNotFound else throw ErrCommandFinished)"

definition afterSignal :: "exec_env \<Rightarrow> ctx \<Rightarrow> string \<Rightarrow> string \<Rightarrow> runningCommand \<Rightarrow> command_detail sh" where
  "afterSignal xe cx sandboxID cmdID rc =
     andThen (awaitReady xe 1 cx rc [CommandDone, TimerDone, CtxDone]) (\<lambda>ch.
     if ch = CtxDone then ctxFailure cx
     else andThen (checkCtx cx) (\<lambda>_. GetCommand xe sandboxID cmdID))"

definition killTracked ::
    "exec_env \<Rightarrow> ctx \<Rightarrow> string \<Rightarrow> string \<Rightarrow> runningCommand \<Rightarrow> int \<Rightarrow> command_detail sh" where
  "killTracked xe cx sandboxID cmdID rc signal =
     (if rc_sandboxID rc \<noteq> sandboxID then throw ErrCommandNotFound
      else
        andThen (waitCommandRunning xe cx rc) (\<lambda>_.
        andThen (checkCtx cx) (\<lambda>_.
        andThen (waitGuestIdentity xe cx rc) (\<lambda>i.
        andThen (sendSignal xe cx sandboxID (fst i) (snd i) (nat signal)) (\<lambda>_.
        afterSignal xe cx sandboxID cmdID rc)))))"

definition KillCommand :: "exec_env \<Rightarrow> ctx \<Rightarrow> string \<Rightarrow> string \<Rightarrow> int \<Rightarrow> command_detail sh" where
  "KillCommand xe cx sandboxID cmdID signal =
     andThen (checkCtx cx) (\<lambda>_.
     if signal < 1 \<or> signal > 64 then throw (Wrap ''Linux signal must be between 1 and 64'' ErrInvalidInput)
     else andThen (loadCommand cmdID) (\<lambda>v.
       case v of
         None \<Rightarrow> killUntracked xe sandboxID cmdID
       | Some rc \<Rightarrow> killTracked xe cx sandboxID cmdID rc signal))"

definition WaitCommand :: "exec_env \<Rightarrow> ctx \<Rightarrow> string \<Rightarrow> string \<Rightarrow> command_detail sh" where
  "WaitCommand xe cx sandboxID cmdID =
     andThen (loadCommand cmdID) (\<lambda>v.
     case v of
       None \<Rightarrow> GetCommand xe sandboxID cmdID
     | Some rc \<Rightarrow>
         andThen (awaitReady xe (x_fuel xe) cx rc [CommandDone, CtxDone]) (\<lambda>ch.
         if ch = CtxDone then ctxFailure cx
         else
           andThen (look xe rc) (\<lambda>r.
           andThen (throwIf (rc_streamErr r)) (\<lambda>_.
           GetCommand xe sandboxID cmdID))))"

section \<open>Files\<close>

definition guestPathPrefix :: string where
  "guestPathPrefix = ''case \"$1\" in /*) ;; *) set -- \"./$1\";; esac; ''"

definition file_op :: "exec_env \<Rightarrow> ctx \<Rightarrow> string \<Rightarrow> string \<Rightarrow> string \<Rightarrow> string option \<Rightarrow> string sh" where
  "file_op xe cx i path script stdin =
     (if path = [] \<or> CHR 0x00 \<in> set path
      then throw (Msg ''guest path must be nonempty and contain no NUL'')
      else
        andThen (execWithStdin xe cx i
          [''/bin/sh'', ''-c'', guestPathPrefix @ script, ''opensbx-file'', path] stdin) (\<lambda>result.
        if er_exitCode result \<noteq> 0 then throw (Msg ''docker file operation exited'')
        else ret (er_stdout result)))"

definition ReadFile :: "exec_env \<Rightarrow> ctx \<Rightarrow> string \<Rightarrow> string \<Rightarrow> string sh" where
  "ReadFile xe cx i path = file_op xe cx i path ''exec cat \"$1\"'' None"

definition WriteFile :: "exec_env \<Rightarrow> ctx \<Rightarrow> string \<Rightarrow> string \<Rightarrow> string \<Rightarrow> unit sh" where
  "WriteFile xe cx i path content =
     andThen (file_op xe cx i path ''mkdir -p \"$(dirname \"$1\")\"'' None) (\<lambda>_.
     andThen (file_op xe cx i path ''cat > \"$1\"'' (Some content)) (\<lambda>_. ret ()))"

definition DeleteFile :: "exec_env \<Rightarrow> ctx \<Rightarrow> string \<Rightarrow> string \<Rightarrow> unit sh" where
  "DeleteFile xe cx i path = andThen (file_op xe cx i path ''exec rm -rf -- \"$1\"'' None) (\<lambda>_. ret ())"

definition ListDir :: "exec_env \<Rightarrow> ctx \<Rightarrow> string \<Rightarrow> string \<Rightarrow> string sh" where
  "ListDir xe cx i path = file_op xe cx i path ''exec ls -la \"$1\"'' None"

end
