(* ===== verification/Docker_Queries.thy ===== *)
theory Docker_Queries
  imports Docker_Commands Docker_Recovery "HOL-Library.Signed_Division"
begin

text \<open>
  \<open>src/internal/docker/sandbox_queries.go\<close> and \<open>routing.go\<close>: the views of a sandbox, read from the
  database and the engine. The engine's list of containers is the function \<open>dk_list\<close>; the
  statistics, which are computed in floating point, are not modelled.
\<close>

section \<open>Records\<close>

record list_port =
  lp_Private :: nat
  lp_Public :: nat
  lp_Type :: string

record list_item =
  li_ID :: string
  li_Names :: "string list"
  li_Image :: string
  li_Status :: string
  li_State :: string
  li_Ports :: "list_port list"

record docker =
  dk_x :: exec_env
  dk_list :: "nat \<Rightarrow> err + list_item list"
  dk_ping :: "nat \<Rightarrow> err option"

record sandbox_summary =
  ss_ID :: string
  ss_Name :: string
  ss_Image :: string
  ss_Status :: string
  ss_State :: string
  ss_Ports :: "string list"
  ss_ExpiresAt :: "int option"

record sandbox_detail =
  sd_ID :: string
  sd_Name :: string
  sd_Image :: string
  sd_Status :: string
  sd_Running :: bool
  sd_Ports :: "string list"
  sd_Memory :: int
  sd_CPUs :: real
  sd_StartedAt :: string
  sd_FinishedAt :: string
  sd_ExpiresAt :: "int option"

record sandbox_network =
  sn_MainPort :: string
  sn_PortsMap :: "(string \<times> string) list"

record routing_state =
  rt_Running :: bool
  rt_Network :: sandbox_network

section \<open>Listing\<close>

definition containerName :: "string list \<Rightarrow> string" where
  "containerName names = (case names of [] \<Rightarrow> [] | n # _ \<Rightarrow> trimPrefix n ''/'')"

definition itemPorts :: "list_port list \<Rightarrow> (string \<times> string) list" where
  "itemPorts ps = fold (\<lambda>p m.
     if lp_Public p > 0 then store (portKey (lp_Private p) (lp_Type p)) (portValue (lp_Public p)) m else m) ps []"

definition lookupItem :: "list_item list \<Rightarrow> string \<Rightarrow> list_item option" where
  "lookupItem items i = find (\<lambda>it. li_ID it = i) (rev items)"

definition summaryOf :: "list_item list \<Rightarrow> world \<Rightarrow> sandbox_row \<Rightarrow> sandbox_summary" where
  "summaryOf items w row =
     (let expires = map_option te_expiresAt (getTimerEntry (sb_ID row) w) in
      case lookupItem items (sb_ID row) of
        None \<Rightarrow> \<lparr>ss_ID = sb_ID row, ss_Name = sb_Name row, ss_Image = sb_Image row,
          ss_Status = ''removed'', ss_State = ''removed'', ss_Ports = portKeys (sb_Ports row),
          ss_ExpiresAt = expires\<rparr>
      | Some it \<Rightarrow> \<lparr>ss_ID = sb_ID row, ss_Name = containerName (li_Names it), ss_Image = li_Image it,
          ss_Status = li_Status it, ss_State = li_State it,
          ss_Ports = portKeys (if itemPorts (li_Ports it) = [] then sb_Ports row else itemPorts (li_Ports it)),
          ss_ExpiresAt = expires\<rparr>)"

definition ContainerList :: "docker \<Rightarrow> list_item list sh" where
  "ContainerList dk = (\<lambda>s. (dk_list dk (tick (sh_world s)), s))"

definition ListSandboxes :: "docker \<Rightarrow> sandbox_summary list sh" where
  "ListSandboxes dk =
     andThen (lift (repo (FindAll (en_F (x_en (dk_x dk))) True))) (\<lambda>rows.
     if rows = [] then ret []
     else
       andThen (ContainerList dk) (\<lambda>items.
       andThen (reads sh_world) (\<lambda>w. ret (map (summaryOf items w) rows))))"

section \<open>Inspection\<close>

definition InspectSandbox :: "docker \<Rightarrow> string \<Rightarrow> sandbox_detail sh" where
  "InspectSandbox dk i = (let en = x_en (dk_x dk) in
     andThen (mapErr wrapNotFound (lift (ContainerInspect en i))) (\<lambda>info.
     andThen (lift (deref (ct_Config info))) (\<lambda>cfg.
     andThen (lift (deref (ct_State info))) (\<lambda>st.
     andThen (lift (deref (ct_Ports info))) (\<lambda>pm.
     andThen (reads (\<lambda>s. getTimerEntry i (sh_world s))) (\<lambda>entry.
     ret \<lparr>sd_ID = ct_ID info, sd_Name = trimPrefix (ct_Name info) ''/'', sd_Image = cc_Image cfg,
       sd_Status = st_Status st, sd_Running = st_Running st,
       sd_Ports = portKeys (extractPorts (en_portString en) pm),
       sd_Memory = ct_Memory info sdiv (1024 * 1024), sd_CPUs = real_of_int (ct_NanoCPUs info) / 10 ^ 9,
       sd_StartedAt = st_StartedAt st, sd_FinishedAt = st_FinishedAt st,
       sd_ExpiresAt = map_option te_expiresAt entry\<rparr>))))))"

section \<open>Routing\<close>

text \<open>The port of a sandbox that has none recorded but publishes exactly one.\<close>

definition mainPortOf :: "string \<Rightarrow> (string \<times> string) list \<Rightarrow> string" where
  "mainPortOf recorded ports = (if recorded = [] \<and> length ports = 1 then fst (hd ports) else recorded)"

definition sandboxRouting :: "docker \<Rightarrow> string \<Rightarrow> routing_state sh" where
  "sandboxRouting dk i = (let en = x_en (dk_x dk) in
     andThen (lift (repo (FindByID (en_F en) True i))) (\<lambda>row.
     case row of
       None \<Rightarrow> throw ErrNotFound
     | Some r \<Rightarrow>
         andThen (mapErr wrapNotFound (lift (ContainerInspect en i))) (\<lambda>info.
         andThen (lift (deref (ct_Ports info))) (\<lambda>pm.
         andThen (lift (deref (ct_State info))) (\<lambda>st.
         let ports = extractPorts (en_portString en) pm in
         ret \<lparr>rt_Running = st_Running st,
              rt_Network = \<lparr>sn_MainPort = mainPortOf (sb_Port r) ports, sn_PortsMap = ports\<rparr>\<rparr>)))))"

definition sandboxNetwork :: "docker \<Rightarrow> string \<Rightarrow> sandbox_network sh" where
  "sandboxNetwork dk i = (let en = x_en (dk_x dk) in
     andThen (lift (repo (FindByID (en_F en) True i))) (\<lambda>row.
     case row of
       None \<Rightarrow> throw ErrNotFound
     | Some r \<Rightarrow>
         andThen (mapErr wrapNotFound (lift (ContainerInspect en i))) (\<lambda>info.
         andThen (lift (deref (ct_Ports info))) (\<lambda>pm.
         let ports = extractPorts (en_portString en) pm in
         ret \<lparr>sn_MainPort = mainPortOf (sb_Port r) ports, sn_PortsMap = ports\<rparr>))))"

end
