(* ===== verification/Adapter.thy ===== *)
theory Adapter
  imports Docker_Queries
begin

text \<open>
  \<open>src/internal/runtimeio/adapter.go\<close>, \<open>provision.go\<close> and \<open>process.go\<close>: the boundary between the
  service, which knows public sandbox identities, and a runtime engine, which knows native ones.
  The engine interface is the record \<open>engine\<close>; \<open>dockerEngine\<close> fills it with the operations of
  the Docker adapter, each the model of its Go function. The statistics operation, computed in
  floating point, is left out.
\<close>

section \<open>The engine interface\<close>

record engine =
  e_Ping :: "unit sh"
  e_Create :: "ctx \<Rightarrow> create_request \<Rightarrow> create_response sh"
  e_DiscardCreated :: "ctx \<Rightarrow> string \<Rightarrow> unit sh"
  e_AdoptCreation :: "(ctx \<Rightarrow> sandbox_row \<Rightarrow> unit sh) option"
  e_CreationFailed :: "(string \<Rightarrow> unit sh) option"
  e_List :: "sandbox_summary list sh"
  e_Inspect :: "string \<Rightarrow> sandbox_detail sh"
  e_Start :: "ctx \<Rightarrow> string \<Rightarrow> restart_response sh"
  e_Stop :: "ctx \<Rightarrow> string \<Rightarrow> unit sh"
  e_Restart :: "ctx \<Rightarrow> string \<Rightarrow> restart_response sh"
  e_GetNetwork :: "string \<Rightarrow> sandbox_network sh"
  e_Routing :: "string \<Rightarrow> routing_state sh"
  e_Remove :: "ctx \<Rightarrow> string \<Rightarrow> unit sh"
  e_Pause :: "ctx \<Rightarrow> string \<Rightarrow> unit sh"
  e_Resume :: "ctx \<Rightarrow> string \<Rightarrow> unit sh"
  e_RenewExpiration :: "ctx \<Rightarrow> string \<Rightarrow> int \<Rightarrow> unit sh"
  e_ExecCommand :: "ctx \<Rightarrow> string \<Rightarrow> exec_request \<Rightarrow> command_detail sh"
  e_GetCommand :: "string \<Rightarrow> string \<Rightarrow> command_detail sh"
  e_ListCommands :: "string \<Rightarrow> command_detail list sh"
  e_KillCommand :: "ctx \<Rightarrow> string \<Rightarrow> string \<Rightarrow> int \<Rightarrow> command_detail sh"
  e_WaitCommand :: "ctx \<Rightarrow> string \<Rightarrow> string \<Rightarrow> command_detail sh"
  e_StreamLogs :: "string \<Rightarrow> string \<Rightarrow> (ring_reader \<times> ring_reader) sh"
  e_GetLogs :: "string \<Rightarrow> string \<Rightarrow> logs_response sh"
  e_ReadFile :: "ctx \<Rightarrow> string \<Rightarrow> string \<Rightarrow> string sh"
  e_WriteFile :: "ctx \<Rightarrow> string \<Rightarrow> string \<Rightarrow> string \<Rightarrow> unit sh"
  e_DeleteFile :: "ctx \<Rightarrow> string \<Rightarrow> string \<Rightarrow> unit sh"
  e_ListDir :: "ctx \<Rightarrow> string \<Rightarrow> string \<Rightarrow> string sh"

definition dockerPing :: "docker \<Rightarrow> unit sh" where
  "dockerPing dk = andThen (reads (\<lambda>s. dk_ping dk (tick (sh_world s)))) (\<lambda>e. throwIf e)"

definition dockerEngine :: "docker \<Rightarrow> engine" where
  "dockerEngine dk = (let xe = dk_x dk; en = x_en xe in
     \<lparr>e_Ping = dockerPing dk,
      e_Create = (\<lambda>cx req. lift (Create en cx req)),
      e_DiscardCreated = (\<lambda>cx i. lift (DiscardCreated en cx i)),
      e_AdoptCreation = Some (\<lambda>cx row. lift (AdoptCreation en cx row)),
      e_CreationFailed = Some (\<lambda>i. lift (CreationFailed i)),
      e_List = ListSandboxes dk,
      e_Inspect = InspectSandbox dk,
      e_Start = (\<lambda>cx i. lift (Start en cx i)),
      e_Stop = (\<lambda>cx i. lift (Stop en cx i)),
      e_Restart = (\<lambda>cx i. lift (Restart en cx i)),
      e_GetNetwork = sandboxNetwork dk,
      e_Routing = sandboxRouting dk,
      e_Remove = (\<lambda>cx i. lift (Remove en cx i)),
      e_Pause = (\<lambda>cx i. lift (Pause en cx i)),
      e_Resume = (\<lambda>cx i. lift (Resume en cx i)),
      e_RenewExpiration = (\<lambda>cx i t. lift (RenewExpiration en cx i t)),
      e_ExecCommand = ExecCommand xe,
      e_GetCommand = GetCommand xe,
      e_ListCommands = ListCommands xe,
      e_KillCommand = KillCommand xe,
      e_WaitCommand = WaitCommand xe,
      e_StreamLogs = StreamCommandLogs,
      e_GetLogs = GetCommandLogs,
      e_ReadFile = ReadFile xe,
      e_WriteFile = WriteFile xe,
      e_DeleteFile = DeleteFile xe,
      e_ListDir = ListDir xe\<rparr>)"

section \<open>Domain records\<close>

record platform =
  pf_OS :: string
  pf_Architecture :: string
  pf_Variant :: string

record capabilities =
  cap_Runtime :: string
  cap_Version :: string
  cap_Platform :: platform
  cap_Pause :: bool
  cap_FractionalCPU :: bool

record provenance =
  pv_Root :: string
  pv_Manifest :: string
  pv_CacheVersion :: string

record content_image =
  im_Root :: string
  im_Manifest :: string
  im_Config :: string
  im_Platform :: platform
  im_Validate :: "(nat \<Rightarrow> err option) option"

record created =
  cre_ID :: string
  cre_Name :: string
  cre_Ports :: "port list"
  cre_URL :: string

record summary =
  su_ID :: string
  su_Name :: string
  su_Image :: string
  su_Status :: string
  su_State :: string
  su_Ports :: "port list"
  su_ExpiresAt :: "int option"
  su_URL :: string

record detail = summary +
  de_Running :: bool
  de_Memory :: int
  de_CPUs :: real
  de_StartedAt :: string
  de_FinishedAt :: string

record started =
  sta_Status :: string
  sta_Ports :: "port list"
  sta_ExpiresAt :: "int option"

record published_port =
  pp_Guest :: port
  pp_Host :: nat

record network =
  nw_Main :: port
  nw_Ports :: "published_port list"

record route =
  rte_Running :: bool
  rte_Network :: network

text \<open>
  The adapter: an engine, the native image cache (its answers may differ from moment to moment)
  and the faults of the database. \<open>ad_deadline\<close> is a fresh context with a thirty second timeout.
\<close>

record adapter =
  ad_engine :: engine
  ad_F :: faults
  ad_caps :: "nat \<Rightarrow> err + capabilities"
  ad_cache :: "nat \<Rightarrow> content_image \<Rightarrow> err + string"
  ad_cleanup :: ctx

text \<open>A prepared image; \<open>pr_Owned\<close>: it is the adapter's own handle.\<close>

record prepared =
  pr_Owned :: bool
  pr_Ref :: string
  pr_Identity :: provenance

definition atTick :: "(nat \<Rightarrow> err + 'a) \<Rightarrow> 'a sh" where
  "atTick f = andThen (reads (\<lambda>s. f (tick (sh_world s)))) (\<lambda>r. case r of Inl e \<Rightarrow> throw e | Inr x \<Rightarrow> ret x)"

section \<open>Identities\<close>

definition ownerOf :: "adapter \<Rightarrow> string \<Rightarrow> sandbox_row sh" where
  "ownerOf a i =
     andThen (lift (repo (FindByID (ad_F a) False i))) (\<lambda>row.
     case row of None \<Rightarrow> throw ErrNotFound | Some r \<Rightarrow> ret r)"

definition imageRoot :: "sandbox_row \<Rightarrow> string" where
  "imageRoot row = (if sb_ImageRoot row \<noteq> [] then sb_ImageRoot row else sb_Image row)"

definition Ping :: "adapter \<Rightarrow> unit sh" where
  "Ping a = e_Ping (ad_engine a)"

definition Capabilities :: "adapter \<Rightarrow> capabilities sh" where
  "Capabilities a = atTick (ad_caps a)"

definition Materialize :: "adapter \<Rightarrow> content_image \<Rightarrow> prepared sh" where
  "Materialize a img =
     andThen (case im_Validate img of None \<Rightarrow> ret ()
       | Some v \<Rightarrow> andThen (reads (\<lambda>s. v (tick (sh_world s)))) throwIf) (\<lambda>_.
     andThen (atTick (\<lambda>n. ad_cache a n img)) (\<lambda>ref.
     ret \<lparr>pr_Owned = True, pr_Ref = ref,
       pr_Identity = \<lparr>pv_Root = im_Root img, pv_Manifest = im_Manifest img, pv_CacheVersion = []\<rparr>\<rparr>))"

section \<open>The creation transaction\<close>

record provisioned =
  pn_Public :: string
  pn_Native :: string
  pn_Image :: prepared
  pn_Created :: created

text \<open>A deferred closure that acts only when an error is returned.\<close>

definition onFailure :: "'a sh \<Rightarrow> (err \<Rightarrow> 'a sh) \<Rightarrow> 'a sh" where
  "onFailure m h = andThen (attempt m) (\<lambda>r. case r of Inl e \<Rightarrow> h e | Inr x \<Rightarrow> ret x)"

definition creationFailed :: "adapter \<Rightarrow> string \<Rightarrow> unit sh" where
  "creationFailed a i = (case e_CreationFailed (ad_engine a) of None \<Rightarrow> ret () | Some f \<Rightarrow> f i)"

definition adoptedRow :: "sandbox_row \<Rightarrow> provisioned \<Rightarrow> provenance \<Rightarrow> sandbox_row" where
  "adoptedRow row p pv = row\<lparr>sb_ImageRoot := pv_Root pv, sb_ImageManifest := pv_Manifest pv,
     sb_Image := pv_Root pv, sb_NativeImage := pr_Ref (pn_Image p), sb_CacheVersion := pv_CacheVersion pv\<rparr>"

definition adoptRow :: "adapter \<Rightarrow> ctx \<Rightarrow> provisioned \<Rightarrow> provenance \<Rightarrow> sandbox_row \<Rightarrow> unit sh" where
  "adoptRow a cx p pv r =
     (if nstr (sb_NativeID r) \<noteq> pn_Native p then throw (Msg ''native identity mismatch'')
      else if pv_Root pv \<noteq> pv_Root (pr_Identity (pn_Image p)) \<or>
              pv_Manifest pv \<noteq> pv_Manifest (pr_Identity (pn_Image p))
      then throw (Msg ''sandbox image identity mismatch'')
      else
        case e_AdoptCreation (ad_engine a) of
          Some f \<Rightarrow> f cx (adoptedRow r p pv)
        | None \<Rightarrow> lift (repo (UpdateProvenance (ad_F a) (adoptedRow r p pv) True)))"

definition Adopt :: "adapter \<Rightarrow> ctx \<Rightarrow> provisioned \<Rightarrow> provenance \<Rightarrow> unit sh" where
  "Adopt a cx p pv =
     onFailure
       (andThen (checkCtx cx) (\<lambda>_.
        andThen (lift (repo (FindByID (ad_F a) False (pn_Public p)))) (\<lambda>row.
        case row of
          None \<Rightarrow> throw (Msg ''created sandbox lacks ownership metadata'')
        | Some r \<Rightarrow> adoptRow a cx p pv r)))
       (\<lambda>e. andThen (creationFailed a (pn_Native p)) (\<lambda>_. throw e))"

definition Rollback :: "adapter \<Rightarrow> ctx \<Rightarrow> provisioned \<Rightarrow> unit sh" where
  "Rollback a cx p = e_DiscardCreated (ad_engine a) cx (pn_Native p)"

definition RecoverCreation :: "adapter \<Rightarrow> ctx \<Rightarrow> provisioned \<Rightarrow> provenance \<Rightarrow> err \<Rightarrow> unit sh" where
  "RecoverCreation a cx p pv cause =
     andThen (checkCtx cx) (\<lambda>_.
     andThen (lift (repo (FindByID (ad_F a) False (pn_Public p)))) (\<lambda>row.
     case row of
       None \<Rightarrow> throw (Msg ''ownership disappeared during recovery'')
     | Some r \<Rightarrow>
         lift (repo (UpdateProvenance (ad_F a)
           ((adoptedRow r p pv)\<lparr>sb_NativeID := Some (pn_Native p), sb_RecoveryError := errText cause\<rparr>) False))))"

text \<open>\<open>errors.Join\<close>: absent errors are dropped; none at all is no error.\<close>

definition joinErr :: "err option list \<Rightarrow> err option" where
  "joinErr es = (case filter (\<lambda>e. e \<noteq> None) es of [] \<Rightarrow> None | xs \<Rightarrow> Some (Join (map the xs)))"

definition asErr :: "err + 'a \<Rightarrow> err option" where
  "asErr r = (case r of Inl e \<Rightarrow> Some e | Inr _ \<Rightarrow> None)"

text \<open>Compensation of a creation that failed with \<open>e\<close> after the engine had succeeded.\<close>

definition compensate :: "adapter \<Rightarrow> provisioned \<Rightarrow> provenance \<Rightarrow> err \<Rightarrow> 'a sh" where
  "compensate a p pv e =
     andThen (attempt (Rollback a (ad_cleanup a) p)) (\<lambda>r.
     case r of
       Inr _ \<Rightarrow> throw e
     | Inl x \<Rightarrow>
         let cause = Join [e, x] in
         andThen (attempt (RecoverCreation a (ad_cleanup a) p pv cause)) (\<lambda>q.
         throw (case joinErr [Some cause, asErr q] of Some y \<Rightarrow> y | None \<Rightarrow> cause)))"

record run_options =
  ro_ID :: string
  ro_Image :: prepared
  ro_Ports :: "port list"
  ro_Timeout :: int
  ro_Memory :: int
  ro_CPUs :: real
  ro_Env :: "string list"

definition engineRequest :: "run_options \<Rightarrow> create_request" where
  "engineRequest opts = \<lparr>rq_Image = pr_Ref (ro_Image opts), rq_Ports = PortStrings (ro_Ports opts),
     rq_Timeout = ro_Timeout opts sdiv Second,
     rq_Resources = Some \<lparr>rl_Memory = ro_Memory opts, rl_CPUs = ro_CPUs opts\<rparr>, rq_Env = ro_Env opts\<rparr>"

definition creationCtx :: "ctx \<Rightarrow> run_options \<Rightarrow> ctx" where
  "creationCtx cx opts =
     (WithCreationImage (WithCreationID cx (ro_ID opts)) (pv_Root (pr_Identity (ro_Image opts))))\<lparr>cx_Await := True\<rparr>"

definition lease :: "run_options \<Rightarrow> create_response \<Rightarrow> port list \<Rightarrow> provisioned" where
  "lease opts result ports = \<lparr>pn_Public = ro_ID opts, pn_Native = rs_ID result, pn_Image = ro_Image opts,
     pn_Created = \<lparr>cre_ID = ro_ID opts,
       cre_Name = (if rs_Name result = rs_ID result then ro_ID opts else rs_Name result),
       cre_Ports = ports, cre_URL = []\<rparr>\<rparr>"

definition CreateSandbox :: "adapter \<Rightarrow> ctx \<Rightarrow> run_options \<Rightarrow> provisioned sh" where
  "CreateSandbox a cx opts =
     (if ro_ID opts = [] then throw (Wrap ''public sandbox identity is required'' ErrInvalidInput)
      else
        andThen (lift (repo (FindByID (ad_F a) False (ro_ID opts)))) (\<lambda>row.
        if row \<noteq> None then throw (Msg ''sandbox identity already exists'')
        else if \<not> pr_Owned (ro_Image opts) then throw (Msg ''image was not prepared by this adapter'')
        else
          andThen (e_Create (ad_engine a) (creationCtx cx opts) (engineRequest opts)) (\<lambda>result.
          case ParsePorts (rs_Ports result) of
            Inl e \<Rightarrow> compensate a (lease opts result []) (pr_Identity (ro_Image opts)) e
          | Inr ports \<Rightarrow> ret (lease opts result ports))))"

section \<open>Views\<close>

fun ownersOf :: "sandbox_row list \<Rightarrow> (string \<times> sandbox_row) list \<Rightarrow> (string \<times> sandbox_row) list" where
  "ownersOf [] m = m"
| "ownersOf (row # rows) m = ownersOf rows (store (RuntimeID row) row m)"

fun translateItems ::
    "(string \<times> sandbox_row) list \<Rightarrow> sandbox_summary list \<Rightarrow> err + summary list" where
  "translateItems owners [] = Inr []"
| "translateItems owners (item # items) =
     (case map_of owners (ss_ID item) of
        None \<Rightarrow> Inl ErrNotFound
      | Some row \<Rightarrow>
          (case ParsePorts (ss_Ports item) of
             Inl e \<Rightarrow> Inl e
           | Inr ports \<Rightarrow>
               (case translateItems owners items of
                  Inl e \<Rightarrow> Inl e
                | Inr out \<Rightarrow> Inr (\<lparr>su_ID = sb_ID row, su_Name = sb_Name row, su_Image = imageRoot row,
                    su_Status = ss_Status item, su_State = ss_State item, su_Ports = ports,
                    su_ExpiresAt = ss_ExpiresAt item, su_URL = []\<rparr> # out))))"

definition fromSum :: "err + 'a \<Rightarrow> 'a sh" where
  "fromSum r = (case r of Inl e \<Rightarrow> throw e | Inr x \<Rightarrow> ret x)"

definition AdapterList :: "adapter \<Rightarrow> summary list sh" where
  "AdapterList a =
     andThen (e_List (ad_engine a)) (\<lambda>items.
     andThen (lift (repo (FindAll (ad_F a) False))) (\<lambda>rows.
     fromSum (translateItems (ownersOf rows []) items)))"

definition AdapterInspect :: "adapter \<Rightarrow> string \<Rightarrow> detail sh" where
  "AdapterInspect a i =
     andThen (ownerOf a i) (\<lambda>row.
     andThen (e_Inspect (ad_engine a) (RuntimeID row)) (\<lambda>item.
     andThen (fromSum (ParsePorts (sd_Ports item))) (\<lambda>ports.
     ret \<lparr>su_ID = i, su_Name = sb_Name row, su_Image = imageRoot row, su_Status = sd_Status item,
       su_State = sd_Status item, su_Ports = ports, su_ExpiresAt = sd_ExpiresAt item, su_URL = [],
       de_Running = sd_Running item, de_Memory = sd_Memory item, de_CPUs = sd_CPUs item,
       de_StartedAt = sd_StartedAt item, de_FinishedAt = sd_FinishedAt item\<rparr>)))"

section \<open>Lifecycle\<close>

definition startedResult :: "restart_response \<Rightarrow> started sh" where
  "startedResult item =
     andThen (fromSum (ParsePorts (rr_Ports item))) (\<lambda>ports.
     ret \<lparr>sta_Status = rr_Status item, sta_Ports = ports, sta_ExpiresAt = rr_ExpiresAt item\<rparr>)"

definition AdapterStart :: "adapter \<Rightarrow> ctx \<Rightarrow> string \<Rightarrow> started sh" where
  "AdapterStart a cx i = andThen (ownerOf a i) (\<lambda>row.
     andThen (e_Start (ad_engine a) cx (RuntimeID row)) startedResult)"

definition AdapterRestart :: "adapter \<Rightarrow> ctx \<Rightarrow> string \<Rightarrow> started sh" where
  "AdapterRestart a cx i = andThen (ownerOf a i) (\<lambda>row.
     andThen (e_Restart (ad_engine a) cx (RuntimeID row)) startedResult)"

definition AdapterStop :: "adapter \<Rightarrow> ctx \<Rightarrow> string \<Rightarrow> unit sh" where
  "AdapterStop a cx i = andThen (ownerOf a i) (\<lambda>row. e_Stop (ad_engine a) cx (RuntimeID row))"

definition AdapterRemove :: "adapter \<Rightarrow> ctx \<Rightarrow> string \<Rightarrow> unit sh" where
  "AdapterRemove a cx i = andThen (ownerOf a i) (\<lambda>row. e_Remove (ad_engine a) cx (RuntimeID row))"

definition AdapterPause :: "adapter \<Rightarrow> ctx \<Rightarrow> string \<Rightarrow> unit sh" where
  "AdapterPause a cx i = andThen (ownerOf a i) (\<lambda>row. e_Pause (ad_engine a) cx (RuntimeID row))"

definition AdapterResume :: "adapter \<Rightarrow> ctx \<Rightarrow> string \<Rightarrow> unit sh" where
  "AdapterResume a cx i = andThen (ownerOf a i) (\<lambda>row. e_Resume (ad_engine a) cx (RuntimeID row))"

definition AdapterRenew :: "adapter \<Rightarrow> ctx \<Rightarrow> string \<Rightarrow> int \<Rightarrow> unit sh" where
  "AdapterRenew a cx i timeout =
     (if timeout \<le> 0 \<or> timeout smod Second \<noteq> 0
      then throw (Wrap ''timeout must be positive whole seconds'' ErrInvalidInput)
      else andThen (ownerOf a i) (\<lambda>row.
        e_RenewExpiration (ad_engine a) cx (RuntimeID row) (timeout sdiv Second)))"

section \<open>Networks\<close>

definition noPort :: port where
  "noPort = \<lparr>Number = 0, Protocol = []\<rparr>"

definition publishedPort :: "string \<times> string \<Rightarrow> err + published_port" where
  "publishedPort rh = (case rh of (raw, host) \<Rightarrow>
     (case ParsePort raw of
        Inl e \<Rightarrow> Inl e
      | Inr p \<Rightarrow>
          (case ParseUint 16 host of
             None \<Rightarrow> Inl (Msg ''invalid published port'')
           | Some n \<Rightarrow> if n = 0 then Inl (Msg ''invalid published port'')
                       else Inr \<lparr>pp_Guest = p, pp_Host = n\<rparr>)))"

definition networkOf :: "sandbox_network \<Rightarrow> err + network" where
  "networkOf item =
     (case (if sn_MainPort item = [] then Inr noPort else ParsePort (sn_MainPort item)) of
        Inl e \<Rightarrow> Inl e
      | Inr p \<Rightarrow>
          (case map_err publishedPort (sn_PortsMap item) of
             Inl e \<Rightarrow> Inl e
           | Inr ps \<Rightarrow> Inr \<lparr>nw_Main = p, nw_Ports = ps\<rparr>))"

definition AdapterGetNetwork :: "adapter \<Rightarrow> string \<Rightarrow> network sh" where
  "AdapterGetNetwork a i = andThen (ownerOf a i) (\<lambda>row.
     andThen (e_GetNetwork (ad_engine a) (RuntimeID row)) (\<lambda>item. fromSum (networkOf item)))"

definition AdapterRouting :: "adapter \<Rightarrow> string \<Rightarrow> route sh" where
  "AdapterRouting a i = andThen (ownerOf a i) (\<lambda>row.
     andThen (e_Routing (ad_engine a) (RuntimeID row)) (\<lambda>item.
     andThen (fromSum (networkOf (rt_Network item))) (\<lambda>n.
     ret \<lparr>rte_Running = rt_Running item, rte_Network = n\<rparr>)))"

section \<open>Commands and files\<close>

text \<open>A command record of the engine, under the public identity.\<close>

definition publicCommand :: "string \<Rightarrow> command_detail \<Rightarrow> command_detail" where
  "publicCommand i item = item\<lparr>cd_SandboxID := i\<rparr>"

definition AdapterExec :: "adapter \<Rightarrow> ctx \<Rightarrow> string \<Rightarrow> exec_request \<Rightarrow> command_detail sh" where
  "AdapterExec a cx i req = andThen (ownerOf a i) (\<lambda>row.
     andThen (e_ExecCommand (ad_engine a) cx (RuntimeID row) req) (\<lambda>item. ret (publicCommand i item)))"

definition AdapterGetCommand :: "adapter \<Rightarrow> string \<Rightarrow> string \<Rightarrow> command_detail sh" where
  "AdapterGetCommand a i c = andThen (ownerOf a i) (\<lambda>row.
     andThen (e_GetCommand (ad_engine a) (RuntimeID row) c) (\<lambda>item. ret (publicCommand i item)))"

definition AdapterListCommands :: "adapter \<Rightarrow> string \<Rightarrow> command_detail list sh" where
  "AdapterListCommands a i = andThen (ownerOf a i) (\<lambda>row.
     andThen (e_ListCommands (ad_engine a) (RuntimeID row)) (\<lambda>items. ret (map (publicCommand i) items)))"

definition AdapterKill :: "adapter \<Rightarrow> ctx \<Rightarrow> string \<Rightarrow> string \<Rightarrow> int \<Rightarrow> command_detail sh" where
  "AdapterKill a cx i c signal = andThen (ownerOf a i) (\<lambda>row.
     andThen (e_KillCommand (ad_engine a) cx (RuntimeID row) c signal) (\<lambda>item. ret (publicCommand i item)))"

definition AdapterWait :: "adapter \<Rightarrow> ctx \<Rightarrow> string \<Rightarrow> string \<Rightarrow> command_detail sh" where
  "AdapterWait a cx i c = andThen (ownerOf a i) (\<lambda>row.
     andThen (e_WaitCommand (ad_engine a) cx (RuntimeID row) c) (\<lambda>item. ret (publicCommand i item)))"

definition AdapterLogs :: "adapter \<Rightarrow> string \<Rightarrow> string \<Rightarrow> logs_response sh" where
  "AdapterLogs a i c = andThen (ownerOf a i) (\<lambda>row. e_GetLogs (ad_engine a) (RuntimeID row) c)"

definition AdapterStreamLogs :: "adapter \<Rightarrow> string \<Rightarrow> string \<Rightarrow> (ring_reader \<times> ring_reader) sh" where
  "AdapterStreamLogs a i c = andThen (ownerOf a i) (\<lambda>row. e_StreamLogs (ad_engine a) (RuntimeID row) c)"

definition AdapterReadFile :: "adapter \<Rightarrow> ctx \<Rightarrow> string \<Rightarrow> string \<Rightarrow> string sh" where
  "AdapterReadFile a cx i path = andThen (ownerOf a i) (\<lambda>row. e_ReadFile (ad_engine a) cx (RuntimeID row) path)"

definition AdapterWriteFile :: "adapter \<Rightarrow> ctx \<Rightarrow> string \<Rightarrow> string \<Rightarrow> string \<Rightarrow> unit sh" where
  "AdapterWriteFile a cx i path content =
     andThen (ownerOf a i) (\<lambda>row. e_WriteFile (ad_engine a) cx (RuntimeID row) path content)"

definition AdapterDeleteFile :: "adapter \<Rightarrow> ctx \<Rightarrow> string \<Rightarrow> string \<Rightarrow> unit sh" where
  "AdapterDeleteFile a cx i path = andThen (ownerOf a i) (\<lambda>row. e_DeleteFile (ad_engine a) cx (RuntimeID row) path)"

definition AdapterListDir :: "adapter \<Rightarrow> ctx \<Rightarrow> string \<Rightarrow> string \<Rightarrow> string sh" where
  "AdapterListDir a cx i path = andThen (ownerOf a i) (\<lambda>row. e_ListDir (ad_engine a) cx (RuntimeID row) path)"

end
