(* ===== verification/Service.thy ===== *)
theory Service
  imports Adapter
begin

text \<open>
  \<open>src/internal/service/service.go\<close>: the operations the daemon offers, composed from the image
  store, the native cache, the runtime adapter and the database. The image store is the function
  \<open>sv_resolve\<close>. While a handler waits other goroutines may run: \<open>sv_others\<close> is what they do to
  the state. \<open>sv_joined\<close> is \<open>singleflight\<close>: if a read of the same key is in flight the handler
  takes its result, and the function gives the state in which that read was made.
\<close>

section \<open>Records\<close>

text \<open>A \<open>float64\<close>: an infinity or a NaN, or else a real number.\<close>

datatype float64 = NaN | Infinite | Finite real

record create_opts =
  co_Image :: string
  co_Ports :: "port list"
  co_Timeout :: int
  co_Memory :: int
  co_CPUs :: float64
  co_Env :: "string list"

record service =
  sv_adapter :: adapter
  sv_caps :: capabilities
  sv_port :: string
  sv_resolve :: "nat \<Rightarrow> string \<Rightarrow> platform \<Rightarrow> err + content_image"
  sv_hex :: "nat \<Rightarrow> err + string"
  sv_now :: "nat \<Rightarrow> int"
  sv_others :: "nat \<Rightarrow> shell \<Rightarrow> shell"
  sv_joined :: "nat \<Rightarrow> shell option"

section \<open>Creating a sandbox\<close>

definition invalidLimits :: "create_opts \<Rightarrow> bool" where
  "invalidLimits opts \<longleftrightarrow>
     (case co_CPUs opts of NaN \<Rightarrow> True | Infinite \<Rightarrow> True | Finite c \<Rightarrow> c < 0 \<or> c > 4) \<or>
     co_Memory opts < 0 \<or> co_Memory opts > 8192 \<or> co_Timeout opts < 0"

definition cpusOf :: "create_opts \<Rightarrow> real" where
  "cpusOf opts = (case co_CPUs opts of Finite c \<Rightarrow> c | _ \<Rightarrow> 0)"

definition checkOptions :: "capabilities \<Rightarrow> create_opts \<Rightarrow> err option" where
  "checkOptions caps opts =
     (if invalidLimits opts then Some (Wrap ''invalid sandbox limits'' ErrInvalidInput)
      else if co_Timeout opts smod Second \<noteq> 0
      then Some (Wrap ''timeout must use whole seconds'' ErrInvalidInput)
      else if \<exists>p \<in> set (co_Ports opts). \<exists>e. ParsePort (portString p) = Inl e
      then Some (Wrap ''invalid port'' ErrInvalidInput)
      else if \<not> cap_FractionalCPU caps \<and> real_of_int \<lfloor>cpusOf opts\<rfloor> \<noteq> cpusOf opts
      then Some (Wrap ''fractional CPUs'' ErrUnsupported)
      else None)"

definition hostPortOf :: "sandbox_row \<Rightarrow> string \<Rightarrow> string" where
  "hostPortOf row key = (case map_of (sb_Ports row) key of None \<Rightarrow> [] | Some h \<Rightarrow> h)"

definition sandboxURL :: "service \<Rightarrow> sandbox_row \<Rightarrow> string" where
  "sandboxURL sv row =
     (let p = (if sb_Port row = [] \<and> length (sb_Ports row) = 1 then fst (hd (sb_Ports row)) else sb_Port row) in
      if sv_port sv = [] \<or> sb_Name row = [] \<or> \<not> hasSuffix p ''/tcp'' then []
      else case Atoi (hostPortOf row p) of
        None \<Rightarrow> []
      | Some n \<Rightarrow> if n < 1 \<or> n > 65535 then []
                 else ''http://'' @ sb_Name row @ ''.localhost:'' @ sv_port sv)"

definition newID :: "service \<Rightarrow> string sh" where
  "newID sv = andThen (atTick (sv_hex sv)) (\<lambda>h. ret (''sbx-'' @ h))"

definition runOptions :: "string \<Rightarrow> prepared \<Rightarrow> create_opts \<Rightarrow> run_options" where
  "runOptions i p opts = \<lparr>ro_ID = i, ro_Image = p, ro_Ports = co_Ports opts, ro_Timeout = co_Timeout opts,
     ro_Memory = co_Memory opts, ro_CPUs = cpusOf opts, ro_Env = co_Env opts\<rparr>"

definition serviceFind :: "service \<Rightarrow> string \<Rightarrow> sandbox_row option sh" where
  "serviceFind sv i = lift (repo (FindByID (ad_F (sv_adapter sv)) False i))"

text \<open>From the creation transaction to the answer: adopt, check, name it, or compensate.\<close>

definition adoptOrFail :: "service \<Rightarrow> ctx \<Rightarrow> string \<Rightarrow> provisioned \<Rightarrow> provenance \<Rightarrow> sandbox_row sh" where
  "adoptOrFail sv cx i p identity =
     andThen (attempt (Adopt (sv_adapter sv) cx p identity)) (\<lambda>r.
     let mismatch = cre_ID (pn_Created p) \<noteq> i in
     case (if mismatch then joinErr [asErr r, Some (Msg ''created sandbox public identity mismatch'')] else asErr r) of
       Some e \<Rightarrow> throw e
     | None \<Rightarrow>
         andThen (serviceFind sv i) (\<lambda>row.
         case row of
           None \<Rightarrow> throw (Msg ''created sandbox lacks ownership metadata'')
         | Some r \<Rightarrow> ret r))"

definition finishCreate :: "service \<Rightarrow> ctx \<Rightarrow> string \<Rightarrow> provisioned \<Rightarrow> provenance \<Rightarrow> created sh" where
  "finishCreate sv cx i p identity =
     andThen (attempt (adoptOrFail sv cx i p identity)) (\<lambda>r.
     case r of
       Inl e \<Rightarrow> compensate (sv_adapter sv) p identity e
     | Inr row \<Rightarrow> ret ((pn_Created p)\<lparr>cre_Name := sb_Name row, cre_URL := sandboxURL sv row\<rparr>))"

definition imageIdentity :: "service \<Rightarrow> content_image \<Rightarrow> provenance" where
  "imageIdentity sv img = \<lparr>pv_Root = im_Root img, pv_Manifest = im_Manifest img,
     pv_CacheVersion = cap_Runtime (sv_caps sv) @ '':'' @ cap_Version (sv_caps sv)\<rparr>"

definition ServiceCreate :: "service \<Rightarrow> ctx \<Rightarrow> create_opts \<Rightarrow> created sh" where
  "ServiceCreate sv cx opts = (let a = sv_adapter sv; caps = sv_caps sv in
     case checkOptions caps opts of
       Some e \<Rightarrow> throw e
     | None \<Rightarrow>
         andThen (atTick (\<lambda>n. sv_resolve sv n (co_Image opts) (cap_Platform caps))) (\<lambda>img.
         andThen (Materialize a img) (\<lambda>prepared.
         let identity = imageIdentity sv img in
         if pv_Root (pr_Identity prepared) \<noteq> pv_Root identity \<or>
            pv_Manifest (pr_Identity prepared) \<noteq> pv_Manifest identity
         then throw (Msg ''prepared image identity mismatch'')
         else
           andThen (newID sv) (\<lambda>i.
           andThen (CreateSandbox a cx (runOptions i prepared opts)) (\<lambda>p.
           finishCreate sv cx i p identity)))))"

section \<open>Routing\<close>

definition routeOwner :: "service \<Rightarrow> string \<Rightarrow> sandbox_row sh" where
  "routeOwner sv name = (let runtime = cap_Runtime (sv_caps sv) in
     andThen (lift (repo (FindRoutingState (ad_F (sv_adapter sv)) name runtime))) (\<lambda>found.
     case found of (row, pending) \<Rightarrow>
     (case row of
        None \<Rightarrow> throw ErrNotFound
      | Some r \<Rightarrow>
          if sb_RuntimeKind r \<noteq> [] \<and> sb_RuntimeKind r \<noteq> runtime then throw ErrNotFound
          else
            andThen (reads (\<lambda>s. sv_now sv (tick (sh_world s)))) (\<lambda>t.
            if pending \<or> (case sb_ExpiresAt r of None \<Rightarrow> False | Some dl \<Rightarrow> \<not> dl > t)
            then throw ErrNotRunning
            else ret r))))"

definition others :: "service \<Rightarrow> unit sh" where
  "others sv = modify (\<lambda>s. sv_others sv (tick (sh_world s)) s)"

definition flight :: "service \<Rightarrow> string \<Rightarrow> (err + route) sh" where
  "flight sv i =
     andThen (reads (\<lambda>s. sv_joined sv (tick (sh_world s)))) (\<lambda>j.
     case j of
       None \<Rightarrow> attempt (AdapterRouting (sv_adapter sv) i)
     | Some s0 \<Rightarrow> ret (fst (AdapterRouting (sv_adapter sv) i s0)))"

definition sameOwner :: "sandbox_row \<Rightarrow> sandbox_row \<Rightarrow> bool" where
  "sameOwner r q \<longleftrightarrow> sb_ID q = sb_ID r \<and> RuntimeID q = RuntimeID r \<and>
     sb_RuntimeKind q = sb_RuntimeKind r \<and> sb_AttemptToken q = sb_AttemptToken r"

definition routedPort :: "route \<Rightarrow> string sh" where
  "routedPort r =
     (if \<not> rte_Running r then throw ErrNotRunning
      else if Protocol (nw_Main (rte_Network r)) \<noteq> ''tcp'' then throw (Msg ''sandbox main port is not TCP'')
      else case find (\<lambda>p. pp_Guest p = nw_Main (rte_Network r)) (nw_Ports (rte_Network r)) of
        Some p \<Rightarrow> ret (Itoa (pp_Host p))
      | None \<Rightarrow> ret [])"

definition ServiceRoute :: "service \<Rightarrow> ctx \<Rightarrow> string \<Rightarrow> string sh" where
  "ServiceRoute sv cx name =
     andThen (routeOwner sv name) (\<lambda>row.
     andThen (others sv) (\<lambda>_.
     andThen (flight sv (sb_ID row)) (\<lambda>result.
     andThen (others sv) (\<lambda>_.
     andThen (checkCtx cx) (\<lambda>_.
     andThen (fromSum result) (\<lambda>r.
     andThen (routeOwner sv name) (\<lambda>current.
     if \<not> sameOwner row current then throw ErrNotFound else routedPort r)))))))"

section \<open>Views and the remaining operations\<close>

fun withURLs :: "service \<Rightarrow> (string \<times> sandbox_row) list \<Rightarrow> summary list \<Rightarrow> err + summary list" where
  "withURLs sv byID [] = Inr []"
| "withURLs sv byID (item # items) =
     (case map_of byID (su_ID item) of
        None \<Rightarrow> Inl ErrNotFound
      | Some row \<Rightarrow>
          (case withURLs sv byID items of
             Inl e \<Rightarrow> Inl e
           | Inr out \<Rightarrow> Inr (item\<lparr>su_URL := sandboxURL sv row\<rparr> # out)))"

definition ServiceList :: "service \<Rightarrow> summary list sh" where
  "ServiceList sv =
     andThen (AdapterList (sv_adapter sv)) (\<lambda>items.
     andThen (lift (repo (FindAll (ad_F (sv_adapter sv)) False))) (\<lambda>rows.
     fromSum (withURLs sv (rev (map (\<lambda>row. (sb_ID row, row)) rows)) items)))"

definition ServiceInspect :: "service \<Rightarrow> string \<Rightarrow> detail sh" where
  "ServiceInspect sv i =
     andThen (AdapterInspect (sv_adapter sv) i) (\<lambda>item.
     andThen (serviceFind sv i) (\<lambda>row.
     case row of None \<Rightarrow> throw ErrNotFound
     | Some r \<Rightarrow> ret (item\<lparr>su_URL := sandboxURL sv r\<rparr>)))"

definition ServicePause :: "service \<Rightarrow> ctx \<Rightarrow> string \<Rightarrow> unit sh" where
  "ServicePause sv cx i =
     (if \<not> cap_Pause (sv_caps sv) then throw (Wrap ''pause'' ErrUnsupported)
      else AdapterPause (sv_adapter sv) cx i)"

definition ServiceResume :: "service \<Rightarrow> ctx \<Rightarrow> string \<Rightarrow> unit sh" where
  "ServiceResume sv cx i =
     (if \<not> cap_Pause (sv_caps sv) then throw (Wrap ''resume'' ErrUnsupported)
      else AdapterResume (sv_adapter sv) cx i)"

text \<open>\<open>New\<close>: only Linux platforms are served.\<close>

definition newService :: "service \<Rightarrow> service sh" where
  "newService sv =
     andThen (Capabilities (sv_adapter sv)) (\<lambda>caps.
     if pf_OS (cap_Platform caps) \<noteq> ''linux''
     then throw (Wrap ''only native Linux images are supported'' ErrUnsupported)
     else ret (sv\<lparr>sv_caps := caps\<rparr>))"

end
