(* ===== verification/Command_Props.thy ===== *)
theory Command_Props
  imports Docker_Commands Docker_Tracking
begin

text \<open>
  Properties of the commands of \<open>src/internal/docker/commands.go\<close>: which execs a signal may
  create, and what becomes of the output of a command between the engine's stream and its logs.
\<close>

section \<open>What a command operation leaves alone\<close>

text \<open>
  From the calls \<open>e0\<close> on, only calls that satisfy \<open>ok\<close> were made, and the tracked object of the
  command is the one it was.
\<close>

definition traced ::
    "exec_event list \<Rightarrow> (exec_event \<Rightarrow> bool) \<Rightarrow> string \<Rightarrow> runningCommand option \<Rightarrow> shell \<Rightarrow> bool" where
  "traced e0 ok cmdID r0 s \<longleftrightarrow> (\<exists>new. sh_execs s = e0 @ new \<and> (\<forall>e \<in> set new. ok e)) \<and>
     map_of (running (sh_world s)) cmdID = r0"

definition idleRunning :: "'a act \<Rightarrow> bool" where
  "idleRunning m \<longleftrightarrow> (\<forall>w. running (snd (m w)) = running w)"

lemma keeps_lift:
  assumes "idleRunning m"
  shows "keeps (traced e0 ok c r0) (lift m)"
  unfolding keeps_def
proof (intro allI impI)
  fix s assume t: "traced e0 ok c r0 s"
  obtain r w where w: "m (sh_world s) = (r, w)" by fastforce
  then have "running w = running (sh_world s)"
    using assms [unfolded idleRunning_def, rule_format, of "sh_world s"] by simp
  then show "traced e0 ok c r0 (snd (lift m s))" using t w by (simp add: traced_def lift_def zoom_def)
qed

lemma idleRunning_basic [simp]:
  "idleRunning (ctxErr cx)" "idleRunning (now en)" "idleRunning (repo m)" "idleRunning (ContainerInspect en i)"
  by (simp_all add: idleRunning_def ctxErr_def now_def repo_def zoom_def ContainerInspect_def
      record_event_def split: prod.split sum.split)

lemma traced_execs:
  "traced e0 ok c r0 s \<Longrightarrow> ok e \<Longrightarrow> traced e0 ok c r0 (s\<lparr>sh_execs := sh_execs s @ [e]\<rparr>)"
  by (fastforce simp: traced_def)

lemma traced_tick: "traced e0 ok c r0 s \<Longrightarrow> traced e0 ok c r0 (s\<lparr>sh_world := (sh_world s)\<lparr>tick := n\<rparr>\<rparr>)"
  by (simp add: traced_def)

definition harmless :: "(exec_event \<Rightarrow> bool) \<Rightarrow> bool" where
  "harmless ok \<longleftrightarrow> (\<forall>i. ok (ExecAttached i) \<and> ok (ExecInspected i))"

lemma keeps_exec [keeps_rules]:
  "harmless ok \<Longrightarrow> keeps (traced e0 ok c r0) (ExecAttach xe i)"
  "harmless ok \<Longrightarrow> keeps (traced e0 ok c r0) (ExecInspect xe i)"
  by (auto simp: keeps_def ExecAttach_def ExecInspect_def harmless_def intro: traced_execs)

lemma keeps_ExecCreate:
  "(\<And>a. ok (ExecCreated i opts a)) \<Longrightarrow> keeps (traced e0 ok c r0) (ExecCreate xe i opts)"
  by (auto simp: keeps_def ExecCreate_def Let_def intro: traced_execs)

lemma keeps_simple [keeps_rules]:
  "keeps (traced e0 ok c r0) (checkCtx cx)" "keeps (traced e0 ok c r0) (ctxFailure cx)"
  "keeps (traced e0 ok c r0) (throwIf e)" "keeps (traced e0 ok c r0) (look xe rc)"
  "keeps (traced e0 ok c r0) (terminal xe rc)" "keeps (traced e0 ok c r0) (finishedErr xe rc)"
  "keeps (traced e0 ok c r0) (loadCommand i)" "keeps (traced e0 ok c r0) (findCommand xe i)"
  unfolding checkCtx_def ctxFailure_def throwIf_def look_def terminal_def finishedErr_def
    loadCommand_def findCommand_def
  by (intro keeps_rules keeps_lift idleRunning_basic)+

lemma keeps_await [keeps_rules]: "keeps (traced e0 ok c r0) (awaitReady xe fuel cx rc chs)"
  by (induction fuel) (auto simp: Let_def intro!: keeps_rules traced_tick)

lemma keeps_channel [keeps_rules]:
  "keeps I a \<Longrightarrow> keeps I b \<Longrightarrow> keeps I d \<Longrightarrow> keeps I e \<Longrightarrow> keeps I f \<Longrightarrow>
     keeps I (case ch of CtxDone \<Rightarrow> a | CommandDone \<Rightarrow> b | Attached \<Rightarrow> d | IdentityReady \<Rightarrow> e | TimerDone \<Rightarrow> f)"
  by (cases ch) auto

lemma keeps_poll [keeps_rules]:
  "harmless ok \<Longrightarrow> keeps (traced e0 ok c r0) (pollRunning xe fuel cx rc)"
proof (induction fuel)
  case (Suc fuel)
  show ?case unfolding pollRunning.simps by (intro keeps_rules Suc)
qed (simp add: keeps_throw)

lemma keeps_waitRunning [keeps_rules]:
  "harmless ok \<Longrightarrow> keeps (traced e0 ok c r0) (waitCommandRunning xe cx rc)"
  unfolding waitCommandRunning_def Let_def by (intro keeps_rules)

lemma keeps_copy: "(\<And>a b d. keeps I (f a b d)) \<Longrightarrow> keeps I (case x of (a, b, d) \<Rightarrow> f a b d)"
  by (cases x) auto

lemma keeps_helper:
  "harmless ok \<Longrightarrow> (\<And>a. ok (ExecCreated i (opts\<lparr>xo_Output := True\<rparr>) a)) \<Longrightarrow>
     keeps (traced e0 ok c r0) (runIdentityHelper xe cx i opts)"
  unfolding runIdentityHelper_def Let_def by (intro keeps_rules keeps_ExecCreate keeps_copy)

lemma keeps_Get [keeps_rules]: "keeps (traced e0 ok c r0) (GetCommand xe sid i)"
  unfolding GetCommand_def dbCommandToDetail_def by (intro keeps_rules)

lemma triple_ctxFailure: "triple (traced e0 ok c r0) (ctxFailure cx) Q (traced e0 ok c r0)"
proof (rule tripleI)
  fix s e s' assume "traced e0 ok c r0 s" "ctxFailure cx s = (Inl e, s')"
  then show "traced e0 ok c r0 s'" using keepsD [OF keeps_simple(2)] by blast
qed (simp add: ctxFailure_def ok_simps)

lemma waitGuestIdentity_result:
  "triple (traced e0 ok c r0) (waitGuestIdentity xe cx rc)
     (\<lambda>i s. traced e0 ok c r0 s \<and> (\<exists>n. identityOf (x_view xe n rc) = Inr i)) (traced e0 ok c r0)"
proof -
  let ?I = "traced e0 ok c r0"
  have k: "triple ?I m (\<lambda>_. ?I) ?I" if "keeps ?I m" for m :: "'b sh"
    using that by (simp add: keeps_triple)
  have l: "triple ?I (andThen (look xe rc) (\<lambda>r. case identityOf r of Inl e \<Rightarrow> throw e | Inr i \<Rightarrow> ret i))
      (\<lambda>i s. ?I s \<and> (\<exists>n. identityOf (x_view xe n rc) = Inr i)) ?I"
    by (auto simp: triple_def look_def prog_defs split: sum.split)
  show ?thesis
    unfolding waitGuestIdentity_def Let_def
    by (rule triple_andThen [OF k [OF keeps_await]], rule triple_if, rule triple_ctxFailure,
        rule triple_andThen [OF k [OF keeps_simple(1)]], rule l)
qed

section \<open>Signals reach only the command's own process\<close>

text \<open>
  The only exec a signal may create: in the command's own sandbox, with the process ID and
  start time that the command's object held when the handler looked at it.
\<close>

definition killExec :: "exec_env \<Rightarrow> string \<Rightarrow> runningCommand option \<Rightarrow> int \<Rightarrow> exec_event \<Rightarrow> bool" where
  "killExec xe sandboxID r0 signal ev = (case ev of
     ExecCreated i opts _ \<Rightarrow> i = sandboxID \<and> 1 \<le> signal \<and> signal \<le> 64 \<and>
       (\<exists>rc n pid start. r0 = Some rc \<and> rc_sandboxID rc = sandboxID \<and>
          identityOf (x_view xe n rc) = Inr (pid, start) \<and>
          opts = (signalOpts pid start (nat signal))\<lparr>xo_Output := True\<rparr>)
   | _ \<Rightarrow> True)"

lemma harmless_kill [simp]: "harmless (killExec xe sid r0 signal)"
  by (simp add: harmless_def killExec_def)

lemma identityOf_bounds: "identityOf rc = Inr (pid, start) \<Longrightarrow> 1 < pid \<and> 0 < start"
  by (auto simp: identityOf_def Let_def split: prod.splits option.splits if_splits)

lemma keeps_sendSignal:
  assumes "1 \<le> signal" and "signal \<le> 64" and "r0 = Some rc" and "rc_sandboxID rc = sid"
    and "identityOf (x_view xe n rc) = Inr (pid, start)"
  shows "keeps (traced e0 (killExec xe sid r0 signal) c r0) (sendSignal xe cx sid pid start (nat signal))"
  unfolding sendSignal_def
  by (intro keeps_rules keeps_helper) (use assms in \<open>auto simp: killExec_def\<close>)

lemma triple_traced: "keeps I m \<Longrightarrow> (\<And>s. P s \<Longrightarrow> I s) \<Longrightarrow> triple P m (\<lambda>_. I) I"
  unfolding keeps_triple by (rule triple_conseq)

lemma triple_killTracked:
  assumes "1 \<le> signal" and "signal \<le> 64"
  shows "triple (traced e0 (killExec xe sid (Some rc) signal) c (Some rc)) (killTracked xe cx sid c rc signal)
    (\<lambda>_. traced e0 (killExec xe sid (Some rc) signal) c (Some rc)) (traced e0 (killExec xe sid (Some rc) signal) c (Some rc))"
    (is "triple ?I _ _ _")
proof (cases "rc_sandboxID rc = sid")
  case True
  have tail: "triple (\<lambda>s. ?I s \<and> (\<exists>n. identityOf (x_view xe n rc) = Inr i))
      (andThen (sendSignal xe cx sid (fst i) (snd i) (nat signal)) (\<lambda>_. afterSignal xe cx sid c rc))
      (\<lambda>_. ?I) ?I" for i
  proof (cases "\<exists>n. identityOf (x_view xe n rc) = Inr i")
    case id: True
    then obtain n where "identityOf (x_view xe n rc) = Inr (fst i, snd i)" by auto
    then have "keeps ?I (andThen (sendSignal xe cx sid (fst i) (snd i) (nat signal)) (\<lambda>_. afterSignal xe cx sid c rc))"
      unfolding afterSignal_def by (intro keeps_rules keeps_sendSignal [OF assms refl True])
    then show ?thesis by (rule triple_traced) simp
  qed (simp add: triple_def)
  show ?thesis
    unfolding killTracked_def using True
    by (simp, intro triple_andThen [OF triple_traced [OF keeps_waitRunning [OF harmless_kill]]]
        triple_andThen [OF triple_traced [OF keeps_simple(1)]]
        triple_andThen [OF waitGuestIdentity_result] tail)
qed (simp add: killTracked_def triple_throw)

lemma keeps_Kill:
  "keeps (traced e0 (killExec xe sid r0 signal) c r0) (KillCommand xe cx sid c signal)" (is "keeps ?I _")
proof -
  have load: "triple ?I (loadCommand c) (\<lambda>v s. ?I s \<and> v = r0) ?I"
    by (auto simp: triple_def loadCommand_def reads_def traced_def)
  have none: "keeps ?I (killUntracked xe sid c)" unfolding killUntracked_def by (intro keeps_rules)
  have body: "triple (\<lambda>s. ?I s \<and> v = r0)
      (case v of None \<Rightarrow> killUntracked xe sid c | Some rc \<Rightarrow> killTracked xe cx sid c rc signal) (\<lambda>_. ?I) ?I"
    if "\<not> (signal < 1 \<or> 64 < signal)" for v
  proof (cases "v = r0")
    case True
    then show ?thesis using triple_traced [OF none] triple_killTracked [of signal e0 xe sid _ c cx] that
      by (cases r0) (auto intro: triple_conseq)
  qed (simp add: triple_def)
  show ?thesis
    unfolding keeps_triple KillCommand_def
    by (rule triple_andThen [OF triple_traced [OF keeps_simple(1)]], assumption, rule triple_if,
        rule triple_throw, assumption, rule triple_andThen [OF load], rule body)
qed

lemma FindCommandByID_ID:
  assumes "FindCommandByID F native i d = (Inr (Some cmd), d')"
  shows "cmd_ID cmd = i"
proof -
  obtain x d1 where q: "query F (\<lambda>d. first_row cmd_ID (\<lambda>c. cmd_ID c = i) (commands d)) d = (Inr x, d1)"
    and v: "(case x of None \<Rightarrow> ret None
      | Some y \<Rightarrow> andThen (commandView F native y) (\<lambda>cmd'. ret (Some cmd'))) d1 = (Inr (Some cmd), d')"
    using assms unfolding FindCommandByID_def ok_andThen by blast
  obtain y where y: "x = Some y" "commandView F native y d1 = (Inr cmd, d')"
    using v by (cases x) (auto simp: ok_ret ok_andThen)
  have "first_row cmd_ID (\<lambda>c. cmd_ID c = i) (commands d) = Some y"
    using q y(1) by (auto simp: query_def stmt_def Let_def split: option.splits)
  then have "cmd_ID y = i" by (auto dest: first_row_Some)
  moreover have "cmd_ID cmd = cmd_ID y"
    using y(2) by (cases native) (auto simp: commandView_def ok_ret ok_andThen split: option.splits)
  ultimately show ?thesis by simp
qed

lemma found_command: "findCommand xe c s = (Inr (Some cmd), s') \<Longrightarrow> cmd_ID cmd = c"
  unfolding findCommand_def lift_def repo_def ok_zoom by (auto dest: FindCommandByID_ID)

lemma detail_ids:
  "dbCommandToDetail xe cmd s = (Inr d, s') \<Longrightarrow> cd_ID d = cmd_ID cmd \<and> cd_SandboxID d = cmd_SandboxID cmd"
  unfolding dbCommandToDetail_def ok_andThen ok_ret by auto

lemma Get_scoped:
  assumes "GetCommand xe sid c s = (Inr d, s')"
  shows "cd_ID d = c \<and> cd_SandboxID d = sid"
proof -
  obtain x s1 where f: "findCommand xe c s = (Inr x, s1)"
    and r: "(case x of None \<Rightarrow> throw ErrCommandNotFound
      | Some cmd \<Rightarrow> if cmd_SandboxID cmd \<noteq> sid then throw ErrCommandNotFound
                   else dbCommandToDetail xe cmd) s1 = (Inr d, s')"
    using assms unfolding GetCommand_def ok_andThen by blast
  obtain cmd where x: "x = Some cmd" using r by (cases x) (simp_all add: ok_throw)
  then show ?thesis using r f found_command [of xe c s cmd s1] detail_ids [of xe cmd s1 d s']
    by (auto simp: ok_throw split: if_splits)
qed

lemma afterSignal_ok:
  "afterSignal xe cx sid c rc s = (Inr d, s') \<Longrightarrow> \<exists>s1. GetCommand xe sid c s1 = (Inr d, s')"
  unfolding afterSignal_def ok_andThen by (auto simp: ctxFailure_def ok_andThen ok_throw split: if_splits)

lemma Kill_scoped:
  assumes "KillCommand xe cx sid c signal s = (Inr d, s')"
  shows "cd_ID d = c \<and> cd_SandboxID d = sid"
proof -
  obtain v s1 where r: "(case v of None \<Rightarrow> killUntracked xe sid c
      | Some rc \<Rightarrow> killTracked xe cx sid c rc signal) s1 = (Inr d, s')"
    using assms unfolding KillCommand_def ok_andThen
    by (auto simp: ok_andThen ok_throw simp del: option.case_eq_if split: if_splits)
  show ?thesis
  proof (cases v)
    case None
    then show ?thesis using r unfolding killUntracked_def
      by (auto simp: ok_andThen ok_throw split: option.splits if_splits)
  next
    case (Some rc)
    then show ?thesis using r unfolding killTracked_def
      by (auto simp: ok_andThen ok_throw split: if_splits dest!: afterSignal_ok Get_scoped)
  qed
qed

text \<open>
  C20: A signal reaches only the process of the command it is for. Whatever the engine answers
  and whatever other goroutines do meanwhile, the only exec that \<open>KillCommand\<close> ever creates is the
  signal helper, in the sandbox that owns the tracked command, with a signal from 1 to 64 and
  the process ID (above 1) and start time that this command had published; nothing is executed
  for an untracked command or one of another sandbox, and a returned detail is of this command.
\<close>

theorem signal_reaches_own_process_only:
  assumes "KillCommand xe cx sandboxID cmdID signal s = (r, s')"
  shows "\<exists>new. sh_execs s' = sh_execs s @ new \<and>
    (\<forall>i opts a. ExecCreated i opts a \<in> set new \<longrightarrow> i = sandboxID \<and> 1 \<le> signal \<and> signal \<le> 64 \<and>
       (\<exists>rc n pid start. map_of (running (sh_world s)) cmdID = Some rc \<and> rc_sandboxID rc = sandboxID \<and>
          identityOf (x_view xe n rc) = Inr (pid, start) \<and> 1 < pid \<and> 0 < start \<and>
          opts = (signalOpts pid start (nat signal))\<lparr>xo_Output := True\<rparr>)) \<and>
    (\<forall>d. r = Inr d \<longrightarrow> cd_ID d = cmdID \<and> cd_SandboxID d = sandboxID)"
proof -
  let ?r0 = "map_of (running (sh_world s)) cmdID"
  have "traced (sh_execs s) (killExec xe sandboxID ?r0 signal) cmdID ?r0 s" by (simp add: traced_def)
  from keepsD [OF keeps_Kill this assms] obtain new
    where new: "sh_execs s' = sh_execs s @ new" "\<forall>e \<in> set new. killExec xe sandboxID ?r0 signal e"
    by (auto simp: traced_def)
  have "\<forall>d. r = Inr d \<longrightarrow> cd_ID d = cmdID \<and> cd_SandboxID d = sandboxID"
    using Kill_scoped assms by blast
  moreover have "i = sandboxID \<and> 1 \<le> signal \<and> signal \<le> 64 \<and>
       (\<exists>rc n pid start. ?r0 = Some rc \<and> rc_sandboxID rc = sandboxID \<and>
          identityOf (x_view xe n rc) = Inr (pid, start) \<and> 1 < pid \<and> 0 < start \<and>
          opts = (signalOpts pid start (nat signal))\<lparr>xo_Output := True\<rparr>)"
    if "ExecCreated i opts a \<in> set new" for i opts a
    using new(2) [rule_format, OF that] identityOf_bounds by (auto simp: killExec_def) blast+
  ultimately show ?thesis using new(1) by blast
qed

section \<open>From the engine's stream to the logs\<close>

fun commandOutputs :: "exec_env \<Rightarrow> string \<Rightarrow> string \<Rightarrow> (bool \<times> string) list \<Rightarrow> unit sh" where
  "commandOutputs xe c e [] = ret ()"
| "commandOutputs xe c e ((isErr, p) # fs) =
     andThen (commandOutput xe c e isErr p) (\<lambda>_. commandOutputs xe c e fs)"

definition stdoutOf :: "(bool \<times> string) list \<Rightarrow> string list" where
  "stdoutOf fs = map snd (filter (\<lambda>f. \<not> fst f) fs)"

definition stderrOf :: "(bool \<times> string) list \<Rightarrow> string list" where
  "stderrOf fs = map snd (filter fst fs)"

lemma map_of_onCommand:
  "map_of (map (\<lambda>(k, rc). if k = c then (k, f rc) else (k, rc)) m) c = map_option f (map_of m c)"
  by (induction m) auto

definition tracked_as :: "string \<Rightarrow> runningCommand \<Rightarrow> identityStderr \<Rightarrow> shell \<Rightarrow> bool" where
  "tracked_as c rc w s \<longleftrightarrow> map_of (running (sh_world s)) c = Some rc \<and> map_of (sh_filters s) c = Some w"

lemma onCommand_tracked:
  assumes "tracked_as c rc w s"
  shows "\<exists>s'. onCommand c f s = (Inr (), s') \<and> tracked_as c (f rc) w s' \<and> sh_execs s' = sh_execs s"
  using assms by (simp add: onCommand_def modify_def tracked_as_def map_of_onCommand)

lemma filter_write_stdout:
  "filter_write n p (w, rc\<lparr>rc_stdout := x\<rparr>) =
     (case filter_write n p (w, rc) of (e, w', rc') \<Rightarrow> (e, w', rc'\<lparr>rc_stdout := x\<rparr>))"
  by (auto simp: filter_write_def Let_def stderrWrite_def publishIdentity_def split: option.split sum.split)

lemma filter_write_keeps_stdout:
  "filter_write n p (w, rc) = (e, w', rc') \<Longrightarrow> rc_stdout rc' = rc_stdout rc \<and> rc_sandboxID rc' = rc_sandboxID rc \<and>
     rc_streamErr rc' = rc_streamErr rc"
  by (auto simp: filter_write_def Let_def stderrWrite_def publishIdentity_def
      split: option.splits sum.splits if_splits)

lemma outputs_run:
  assumes "tracked_as c rc w s" and "ring_hist (rc_stdout rc) h"
    and "feed c (stderrOf fs) (w, rc) = (None, w', rc')"
  shows "\<exists>s' r. commandOutputs xe c e fs s = (Inr (), s') \<and> ring_hist r (h @ concat (stdoutOf fs)) \<and>
    rsize r = rsize (rc_stdout rc) \<and> tracked_as c (rc'\<lparr>rc_stdout := r\<rparr>) w' s' \<and> sh_execs s' = sh_execs s"
  using assms
proof (induction fs arbitrary: s rc rc' w h)
  case Nil
  then have "rc' = rc" "w' = w" by (simp_all add: stderrOf_def)
  then show ?case using Nil by (auto simp: ret_def stdoutOf_def intro!: exI [of _ "rc_stdout rc"])
next
  case (Cons f fs)
  obtain isErr p where f: "f = (isErr, p)" by fastforce
  show ?case
  proof (cases isErr)
    case False
    let ?rc = "rc\<lparr>rc_stdout := ring_write (rc_stdout rc) p\<rparr>"
    obtain s1 where s1: "onCommand c (\<lambda>rc. rc\<lparr>rc_stdout := ring_write (rc_stdout rc) p\<rparr>) s = (Inr (), s1)"
      "tracked_as c ?rc w s1" "sh_execs s1 = sh_execs s"
      using onCommand_tracked [OF Cons.prems(1)] by blast
    have fd: "feed c (stderrOf fs) (w, ?rc) = (None, w', rc'\<lparr>rc_stdout := ring_write (rc_stdout rc) p\<rparr>)"
      if "feed c (stderrOf fs) (w, rc) = (None, w', rc')"
    proof -
      have "feed c ps (w, rc\<lparr>rc_stdout := x\<rparr>) =
          (case feed c ps (w, rc) of (e, w', rc') \<Rightarrow> (e, w', rc'\<lparr>rc_stdout := x\<rparr>))" for ps w rc x
      proof (induction ps arbitrary: w rc)
        case (Cons q ps)
        then show ?case by (auto simp: filter_write_stdout split: prod.split option.split)
      qed simp
      then show ?thesis using that by simp
    qed
    have h: "ring_hist (rc_stdout ?rc) (h @ p)" using ring_hist_write [OF Cons.prems(2)] by simp
    have "feed c (stderrOf fs) (w, rc) = (None, w', rc')"
      using Cons.prems(3) f False by (simp add: stderrOf_def)
    from Cons.IH [OF s1(2) h fd [OF this]] show ?thesis
      using f False s1(1,3) by (auto simp: andThen_def commandOutput_def stdoutOf_def)
  next
    case True
    obtain er w1 rc1 where fw: "filter_write c p (w, rc) = (er, w1, rc1)" by (metis prod_cases3)
    have er: "er = None" "feed c (stderrOf fs) (w1, rc1) = (None, w', rc')"
      using Cons.prems(3) f True fw by (auto simp: stderrOf_def split: option.splits)
    let ?s = "s\<lparr>sh_filters := store c w1 (sh_filters s)\<rparr>"
    have "tracked_as c rc w1 ?s" using Cons.prems(1) by (simp add: tracked_as_def)
    then obtain s1 where s1: "onCommand c (\<lambda>_. rc1) ?s = (Inr (), s1)" "tracked_as c rc1 w1 s1"
        "sh_execs s1 = sh_execs ?s"
      using onCommand_tracked by blast
    have o: "rc_stdout rc1 = rc_stdout rc" using filter_write_keeps_stdout [OF fw] by simp
    have "commandOutput xe c e isErr p s = (Inr (), s1)"
      using True Cons.prems(1) fw er(1) s1(1) by (simp add: commandOutput_def tracked_as_def)
    moreover have "ring_hist (rc_stdout rc1) h" using Cons.prems(2) o by simp
    ultimately show ?thesis
      using Cons.IH [OF s1(2) _ er(2)] s1(3) f True o by (auto simp: andThen_def stdoutOf_def)
  qed
qed

lemma filter_write_complete:
  assumes "filter_write n p (w, rc) = (None, w', rc')" and "rc_identity rc = None \<or> complete w"
  shows "rc_identity rc' = None \<or> complete w'"
  using assms
  by (auto simp: filter_write_def Let_def stderrWrite_def publishIdentity_def
      split: option.splits sum.splits if_splits)

lemma feed_complete_filter:
  "feed n ps (w, rc) = (None, w', rc') \<Longrightarrow> rc_identity rc = None \<or> complete w \<Longrightarrow>
     rc_identity rc' = None \<or> complete w'"
proof (induction ps arbitrary: w rc)
  case (Cons p ps)
  obtain er w1 rc1 where fw: "filter_write n p (w, rc) = (er, w1, rc1)" by (metis prod_cases3)
  then have er: "er = None" "feed n ps (w1, rc1) = (None, w', rc')"
    using Cons.prems(1) by (auto split: option.splits)
  show ?case by (rule Cons.IH [OF er(2)]) (rule filter_write_complete [OF fw [unfolded er(1)] Cons.prems(2)])
qed simp

lemma tracked_lift:
  assumes "tracked_as c rc w s" and "idleRunning m"
  shows "tracked_as c rc w (snd (lift m s)) \<and> sh_execs (snd (lift m s)) = sh_execs s"
  using assms by (auto simp: tracked_as_def idleRunning_def lift_def zoom_def split: prod.split) (metis snd_conv)

lemma recordFinished_tracked:
  assumes "tracked_as c rc w s"
  shows "\<exists>s'. recordFinished xe i code t s = (Inr (), s') \<and> tracked_as c rc w s'"
proof -
  let ?m = "lift (repo (UpdateCommandFinished (en_F (x_en xe)) i code t))"
  have "recordFinished xe i code t s = (Inr (), snd (?m s))"
    by (simp add: recordFinished_def andThen_def attempt_def ret_def split: prod.split)
  then show ?thesis using tracked_lift [OF assms idleRunning_basic(3)] by blast
qed

text \<open>The clean end: the engine confirms the exit and the filter has seen its line.\<close>

definition cleanExit :: "exec_state \<Rightarrow> runningCommand \<Rightarrow> runningCommand" where
  "cleanExit st rc = leaveCommand (rc\<lparr>rc_exitCode := es_ExitCode st, rc_finished := True, rc_streamErr := None\<rparr>)"

lemma streamEnded_clean:
  assumes "tracked_as c rc w s" and "complete w"
    and "x_inspect xe (sh_execs s) e = Inr st" and "\<not> es_Running st"
  shows "\<exists>s'. streamEnded xe c e None s = (Inr (), s') \<and> tracked_as c (cleanExit st rc) w s'"
proof -
  let ?f = "\<lambda>rc. rc\<lparr>rc_exitCode := es_ExitCode st, rc_finished := True, rc_streamErr := None\<rparr>"
  let ?s0 = "s\<lparr>sh_execs := sh_execs s @ [ExecInspected e]\<rparr>"
  have f: "map_of (sh_filters s) c = Some w" and t0: "tracked_as c rc w ?s0"
    using assms(1) by (simp_all add: tracked_as_def)
  obtain t s1 where now: "lift (now (x_en xe)) ?s0 = (Inr t, s1)"
    by (simp add: lift_def zoom_def now_def split: prod.split)
  have t1: "tracked_as c rc w s1" using tracked_lift [OF t0 idleRunning_basic(2), of "x_en xe"] now by simp
  obtain s2 where s2: "onCommand c ?f s1 = (Inr (), s2)" "tracked_as c (?f rc) w s2"
    using onCommand_tracked [OF t1] by blast
  obtain s3 where s3: "recordFinished xe c (es_ExitCode st) (unixMilli t) s2 = (Inr (), s3)"
    "tracked_as c (?f rc) w s3" using recordFinished_tracked [OF s2(2)] by blast
  obtain s4 where s4: "onCommand c leaveCommand s3 = (Inr (), s4)" "tracked_as c (cleanExit st rc) w s4"
    using onCommand_tracked [OF s3(2)] by (auto simp: cleanExit_def)
  have "streamEnded xe c e None s = (Inr (), s4)"
    unfolding streamEnded_def using f now s2(1) s3(1) s4(1) assms(2-4)
    by (simp add: andThen_def reads_def ret_def attempt_def ExecInspect_def confirmedExit_def Let_def)
  then show ?thesis using s4(2) by blast
qed

lemma GetCommandLogs_tracked:
  assumes "tracked_as c rc w s" and "rc_sandboxID rc = sid"
  shows "GetCommandLogs sid c s = (case rc_streamErr rc of Some e \<Rightarrow> (Inl e, s) | None \<Rightarrow>
    (Inr \<lparr>lg_Stdout = ring_bytes (rc_stdout rc), lg_Stderr = ring_bytes (rc_stderr rc),
       lg_ExitCode = (if rc_finished rc then Some (rc_exitCode rc) else None)\<rparr>, s))"
  using assms by (simp add: GetCommandLogs_def loadCommand_def tracked_as_def prog_defs split: option.split)

definition lastBytes :: "nat \<Rightarrow> string \<Rightarrow> string" where
  "lastBytes n h = drop (length h - n) h"

lemma ring_size_close [simp]: "rsize (closeWithError r e) = rsize r"
  by (simp add: closeWithError_def)

lemma command_logs:
  assumes "tracked_as c rc newFilter s" and "rc = newCommand e sid argv True u"
    and "preamble_spec c (concat (stderrOf fs)) = Accepted pid start errs"
    and "x_inspect xe (sh_execs s) e = Inr st" and "\<not> es_Running st"
  shows "\<exists>s1 s2. commandOutputs xe c e fs s = (Inr (), s1) \<and> streamEnded xe c e None s1 = (Inr (), s2) \<and>
    GetCommandLogs sid c s2 = (Inr \<lparr>lg_Stdout = lastBytes defaultRingSize (concat (stdoutOf fs)),
      lg_Stderr = lastBytes defaultRingSize errs, lg_ExitCode = Some (es_ExitCode st)\<rparr>, s2)"
proof -
  have new: "ring_hist (rc_stderr rc) []" "ring_hist (rc_stdout rc) []" "rc_sandboxID rc = sid"
    "rc_identity rc = None" "rsize (rc_stdout rc) = defaultRingSize" "rsize (rc_stderr rc) = defaultRingSize"
    using assms(2) by (auto simp: newCommand_def idle_command_def newRingBuffer_def defaultRingSize_def
        intro!: ring_hist_new [unfolded newRingBuffer_def, simplified])
  have "filtered rc (Accepted pid start errs) (dropFilter (feed c (stderrOf fs) (newFilter, rc)))"
    using feed_spec [OF new(1), of "[]" c "stderrOf fs"] assms(3)
    by (simp add: newFilter_def identityPreambleLimit_def)
  then obtain w r where r: "ring_hist r errs" "rsize r = defaultRingSize"
    "feed c (stderrOf fs) (newFilter, rc) = (None, w, (publishIdentity pid start None rc)\<lparr>rc_stderr := r\<rparr>)"
    using new(6) by (auto simp: filtered_def dropFilter_def split: prod.splits)
  let ?rc = "(publishIdentity pid start None rc)\<lparr>rc_stderr := r\<rparr>"
  have w: "complete w"
    using feed_complete_filter [OF r(3)] new(4) by (simp add: publishIdentity_def)
  obtain s1 ro where s1: "commandOutputs xe c e fs s = (Inr (), s1)" "ring_hist ro (concat (stdoutOf fs))"
    "rsize ro = defaultRingSize" "tracked_as c (?rc\<lparr>rc_stdout := ro\<rparr>) w s1" "sh_execs s1 = sh_execs s"
    using outputs_run [OF assms(1) new(2) r(3), of xe e] new(5) by auto
  obtain s2 where s2: "streamEnded xe c e None s1 = (Inr (), s2)"
    "tracked_as c (cleanExit st (?rc\<lparr>rc_stdout := ro\<rparr>)) w s2"
    using streamEnded_clean [OF s1(4) w _ assms(5), of xe e] assms(4) s1(5) by auto
  have "GetCommandLogs sid c s2 = (Inr \<lparr>lg_Stdout = lastBytes defaultRingSize (concat (stdoutOf fs)),
      lg_Stderr = lastBytes defaultRingSize errs, lg_ExitCode = Some (es_ExitCode st)\<rparr>, s2)"
    using GetCommandLogs_tracked [OF s2(2), of sid] new(3,4)
      ring_bytes_hist [OF ring_hist_close [OF s1(2)]] ring_bytes_hist [OF ring_hist_close [OF r(1)]] s1(3) r(2)
    by (simp add: cleanExit_def leaveCommand_def closeBuffers_def publishIdentity_def lastBytes_def)
  then show ?thesis using s1(1) s2(1) by blast
qed

section \<open>Registering a command\<close>

lemma SaveCommand_row:
  "SaveCommand F native cmd d = (Inr (), d') \<Longrightarrow> \<exists>row \<in> set (commands d'). cmd_ID row = cmd_ID cmd"
  by (auto simp: SaveCommand_def ok_andThen insert_stmt_def stmt_def Let_def ok_ret ok_reads prog_defs
      split: if_splits option.splits prod.splits sum.splits)

definition registered_command :: "string \<Rightarrow> string list \<Rightarrow> string \<Rightarrow> shell \<Rightarrow> bool" where
  "registered_command sid argv c s \<longleftrightarrow> (\<exists>e opts wrapped u before.
     sh_execs s = before @ [ExecCreated sid opts (Inr e)] \<and> suffix argv (xo_Cmd opts) \<and>
     map_of (running (sh_world s)) c = Some (newCommand e sid argv wrapped u) \<and>
     (if wrapped then map_of (sh_filters s) c = Some newFilter else xo_Cmd opts = argv) \<and>
     (\<exists>row \<in> set (commands (wdb (sh_world s))). cmd_ID row = c))"

text \<open>What holds of every result, whatever came before.\<close>

definition returns :: "('s, 'a) prog \<Rightarrow> ('a \<Rightarrow> 's \<Rightarrow> bool) \<Rightarrow> bool" where
  "returns m Q \<longleftrightarrow> (\<forall>s x s'. m s = (Inr x, s') \<longrightarrow> Q x s')"

lemma returnsD: "returns m Q \<Longrightarrow> m s = (Inr x, s') \<Longrightarrow> Q x s'"
  by (simp add: returns_def)

named_theorems returns_rules

lemma returns_andThen [returns_rules]: "(\<And>x. returns (f x) Q) \<Longrightarrow> returns (andThen m f) Q"
  by (auto simp: returns_def ok_andThen)

lemma returns_throw [returns_rules]: "returns (throw e) Q"
  by (simp add: returns_def ok_throw)

lemma returns_if [returns_rules]: "returns m Q \<Longrightarrow> returns n Q \<Longrightarrow> returns (if b then m else n) Q"
  by simp

lemma returns_case_option [returns_rules]:
  "returns m Q \<Longrightarrow> (\<And>x. returns (f x) Q) \<Longrightarrow> returns (case r of None \<Rightarrow> m | Some x \<Rightarrow> f x) Q"
  by (cases r) simp_all

lemma returns_case_prod [returns_rules]:
  "(\<And>x y. returns (f x y) Q) \<Longrightarrow> returns (case r of (x, y) \<Rightarrow> f x y) Q"
  by (cases r) simp

lemma start_registers:
  "returns (startCommand xe sid req c t restoreEnv u wrapped) (\<lambda>d s.
     cd_SandboxID d = sid \<and> registered_command sid (eq_Command req # eq_Args req) (cd_ID d) s)"
  unfolding returns_def
proof (intro allI impI)
  fix s d s'
  let ?argv = "eq_Command req # eq_Args req"
  assume "startCommand xe sid req c t restoreEnv u wrapped s = (Inr d, s')"
  then obtain opts e s1 s2 row where e: "ExecCreate xe sid opts s = (Inr e, s1)"
    and opts: "suffix ?argv (xo_Cmd opts)" "\<not> wrapped \<Longrightarrow> xo_Cmd opts = ?argv"
    and save: "lift (repo (SaveCommand (en_F (x_en xe)) True row)) s1 = (Inr (), s2)" "cmd_ID row = c"
    and s': "s' = s2\<lparr>sh_world := (sh_world s2)\<lparr>running :=
            store c (newCommand e sid ?argv wrapped u) (running (sh_world s2))\<rparr>,
          sh_filters := (if wrapped then store c newFilter (sh_filters s2) else sh_filters s2)\<rparr>"
    and d: "cd_ID d = c" "cd_SandboxID d = sid"
    unfolding startCommand_def Let_def
    by (cases wrapped) (auto simp: ok_simps wrapperOpts_def suffix_def)
  have "\<exists>r \<in> set (commands (wdb (sh_world s2))). cmd_ID r = c" "sh_execs s2 = sh_execs s1"
    using save SaveCommand_row by (auto simp: lift_def repo_def ok_zoom)
  moreover have "sh_execs s1 = sh_execs s @ [ExecCreated sid opts (Inr e)]"
    using e by (auto simp: ExecCreate_def Let_def)
  ultimately have "registered_command sid ?argv c s'"
    unfolding registered_command_def s' using opts
    by (intro exI [of _ e] exI [of _ opts] exI [of _ wrapped] exI [of _ u]) auto
  then show "cd_SandboxID d = sid \<and> registered_command sid ?argv (cd_ID d) s'" using d by simp
qed

lemma Exec_registers:
  "returns (ExecCommand xe cx sid req) (\<lambda>d s.
     cd_SandboxID d = sid \<and> registered_command sid (eq_Command req # eq_Args req) (cd_ID d) s)"
  unfolding ExecCommand_def Let_def by (intro returns_rules start_registers)

text \<open>
  C19: The output of a command reaches its logs. After a successful \<open>ExecCommand\<close> whose command
  was started under the identity wrapper, and whatever frames the engine then streams, if the
  command's stderr starts with a valid identity line and the engine confirms the exit, then the
  goroutine ends cleanly and \<open>GetCommandLogs\<close> returns the last mebibyte of stdout, the last
  mebibyte of what followed the identity line on stderr, and the confirmed exit code.
\<close>

theorem command_output_reaches_logs:
  assumes "ExecCommand xe cx sid req s = (Inr d, s0)"
    and "map_of (running (sh_world s0)) (cd_ID d) = Some rc" and "rc_identity rc = None"
    and "preamble_spec (cd_ID d) (concat (stderrOf fs)) = Accepted pid start errs"
    and "x_inspect xe (sh_execs s0) (rc_execID rc) = Inr st" and "\<not> es_Running st"
  shows "\<exists>s1 s2. commandOutputs xe (cd_ID d) (rc_execID rc) fs s0 = (Inr (), s1) \<and>
    streamEnded xe (cd_ID d) (rc_execID rc) None s1 = (Inr (), s2) \<and>
    GetCommandLogs sid (cd_ID d) s2 = (Inr \<lparr>lg_Stdout = lastBytes defaultRingSize (concat (stdoutOf fs)),
      lg_Stderr = lastBytes defaultRingSize errs, lg_ExitCode = Some (es_ExitCode st)\<rparr>, s2)"
proof -
  let ?argv = "eq_Command req # eq_Args req"
  obtain e wrapped u where rc: "rc = newCommand e sid ?argv wrapped u"
    and w: "wrapped \<Longrightarrow> map_of (sh_filters s0) (cd_ID d) = Some newFilter"
    using returnsD [OF Exec_registers assms(1)] assms(2) by (auto simp: registered_command_def split: if_splits)
  have wr: wrapped using rc assms(3) by (auto simp: newCommand_def publishIdentity_def idle_command_def Let_def split: if_splits)
  have "tracked_as (cd_ID d) rc newFilter s0" using assms(2) w [OF wr] by (simp add: tracked_as_def)
  moreover have "rc = newCommand (rc_execID rc) sid ?argv True u"
    using rc wr by (simp add: newCommand_def idle_command_def Let_def)
  ultimately show ?thesis using command_logs assms(4-6) by blast
qed

text \<open>A sandbox in which \<open>/bin/true\<close> is started: the probe answers, the command exits with 0.\<close>

definition demo_env :: exec_env where
  "demo_env = \<lparr>x_en = sample_env, x_create = (\<lambda>_ _ _. Inr ''e9''),
     x_attach = (\<lambda>_ _. Inr ([(False, identityRecord ''OPENSBX_PROBE'' ''cmd_1'' 7 9)], None)),
     x_stdin = (\<lambda>_ _ _. None), x_inspect = (\<lambda>_ _. Inr \<lparr>es_Running = False, es_ExitCode = 0, es_PID = 0\<rparr>),
     x_expired = (\<lambda>_. False), x_pick = (\<lambda>_. 0), x_view = (\<lambda>_ rc. rc), x_marshal = (\<lambda>_. ''[]''),
     x_unmarshal = (\<lambda>_. []), x_fuel = Suc (Suc 0), x_blocked = Msg ''blocked''\<rparr>"

definition demo_request :: exec_request where
  "demo_request = \<lparr>eq_Command = ''/bin/true'', eq_Args = [], eq_Cwd = [], eq_Env = []\<rparr>"

definition demo_shell :: shell where
  "demo_shell = \<lparr>sh_world = sample_world, sh_execs = [], sh_filters = []\<rparr>"

lemmas shell_eval = demo_env_def demo_request_def demo_shell_def lift_def Let_def

lemma demo_probe:
  "\<exists>s'. probeIdentity demo_env Background ''c1'' ''cmd_1'' [] [] s = (Inr True, s') \<and>
     wdb (sh_world s') = wdb (sh_world s)"
proof -
  have rec: "length (identityRecord ''OPENSBX_PROBE'' ''cmd_1'' 7 9) \<le> 256"
    "parseIdentity (identityRecord ''OPENSBX_PROBE'' ''cmd_1'' 7 9) ''OPENSBX_PROBE'' ''cmd_1'' = Inr (7, 9)"
    by (simp_all add: identityRecord_def decimal_eval parseIdentity_def newline_def identityPreambleLimit_def)
  show ?thesis using rec
    by (simp add: probeIdentity_def runIdentityHelper_def ExecCreate_def ExecAttach_def ExecInspect_def
        shell_eval prog_defs ctxErr_def Background_def copyStream_def boundedWrite_def
        identityPreambleLimit_def checkCtx_def withTimeout_def throwIf_def)
qed

lemma demo_start:
  "wdb (sh_world s) = sample_db\<lparr>stmts := n\<rparr> \<Longrightarrow>
   \<exists>d s0. startCommand demo_env ''c1'' demo_request ''cmd_1'' t [] u True s = (Inr d, s0) \<and> cd_ID d = ''cmd_1'' \<and>
     map_of (running (sh_world s0)) ''cmd_1'' = Some (newCommand ''e9'' ''c1'' [''/bin/true''] True u)"
  by (simp add: startCommand_def shell_eval ExecCreate_def SaveCommand_def storedID_def docker_eval)

lemma demo_exec:
  "\<exists>d s0 u. ExecCommand demo_env Background ''c1'' demo_request demo_shell = (Inr d, s0) \<and> cd_ID d = ''cmd_1'' \<and>
     map_of (running (sh_world s0)) ''cmd_1'' = Some (newCommand ''e9'' ''c1'' [''/bin/true''] True u)"
proof -
  have step: "andThen m f s = f x s'" if "m s = (Inr x, s')" for m :: "'b sh" and f :: "'b \<Rightarrow> 'c sh" and s x s'
    using that by (simp add: andThen_def)
  obtain s1 where s1: "lift (lockLifecycle Background) demo_shell = (Inr (), s1)" 
     "wdb (sh_world s1) = sample_db" "tick (sh_world s1) = 1"
    by (simp add: shell_eval docker_eval)
  obtain s2 n where s2: "lift (repo (RequireIdle (en_F sample_env) ''docker'' ''c1'')) s1 = (Inr (), s2)"
     "wdb (sh_world s2) = sample_db\<lparr>stmts := n\<rparr>" "tick (sh_world s2) = 1"
    using s1(2,3) by (simp add: shell_eval docker_eval RequireIdle_def)
  obtain s3 where s3: "mapErr wrapNotFound (lift (ContainerInspect sample_env ''c1'')) s2 = (Inr sample_container, s3)"
     "wdb (sh_world s3) = sample_db\<lparr>stmts := n\<rparr>" "tick (sh_world s3) = 1"
    using s2(2,3) by (simp add: shell_eval prog_defs ContainerInspect_def record_event_def sample_env_def)
  obtain s4 where s4: "lift (generateCmdID sample_env) s3 = (Inr ''cmd_1'', s4)"
     "wdb (sh_world s4) = sample_db\<lparr>stmts := n\<rparr>"
    using s3(2,3) by (simp add: shell_eval prog_defs generateCmdID_def randText_def sample_env_def decimal_eval)
  obtain s5 t where s5: "lift (now sample_env) s4 = (Inr t, s5)" "wdb (sh_world s5) = sample_db\<lparr>stmts := n\<rparr>"
    using s4(2) by (simp add: shell_eval prog_defs now_def)
  obtain s6 where s6: "probeIdentity demo_env Background ''c1'' ''cmd_1'' [] [] s5 = (Inr True, s6)"
     "wdb (sh_world s6) = sample_db\<lparr>stmts := n\<rparr>"
    using demo_probe [of s5] s5(2) by auto
  have "ExecCommand demo_env Background ''c1'' demo_request demo_shell = startCommand demo_env ''c1'' demo_request ''cmd_1'' t []
      ''guest /bin/sh, builtin kill/printf or readable /proc identity is unavailable; command signals are unsupported'' True s6"
    using s1(1) s2(1) s3(1) s4(1) s5(1) s6(1)
    by (simp add: ExecCommand_def step demo_env_def demo_request_def Let_def sample_container_def prog_defs
        deref_def identityEnvironment_def envSlice_def lift_def)
  then show ?thesis using demo_start [OF s6(2)] by (simp only:) blast
qed

theorem command_output_reaches_logs_witness:
  "\<exists>d s0 s1 s2. ExecCommand demo_env Background ''c1'' demo_request demo_shell = (Inr d, s0) \<and>
     commandOutputs demo_env ''cmd_1'' ''e9''
       [(True, ''OPENSBX_EX''), (False, ''hi''), (True, ''EC cmd_1 7 9'' @ [newline] @ ''warn'')] s0 = (Inr (), s1) \<and>
     streamEnded demo_env ''cmd_1'' ''e9'' None s1 = (Inr (), s2) \<and>
     GetCommandLogs ''c1'' ''cmd_1'' s2 = (Inr \<lparr>lg_Stdout = ''hi'', lg_Stderr = ''warn'', lg_ExitCode = Some 0\<rparr>, s2)"
proof -
  let ?fs = "[(True, ''OPENSBX_EX''), (False, ''hi''), (True, ''EC cmd_1 7 9'' @ [newline] @ ''warn'')]"
  obtain d s0 u where d: "ExecCommand demo_env Background ''c1'' demo_request demo_shell = (Inr d, s0)"
    "cd_ID d = ''cmd_1''"
    "map_of (running (sh_world s0)) ''cmd_1'' = Some (newCommand ''e9'' ''c1'' [''/bin/true''] True u)"
    using demo_exec by blast
  have rc: "rc_identity (newCommand ''e9'' ''c1'' [''/bin/true''] True u) = None"
    "rc_execID (newCommand ''e9'' ''c1'' [''/bin/true''] True u) = ''e9''"
    by (simp_all add: newCommand_def idle_command_def)
  have spec: "preamble_spec ''cmd_1'' (concat (stderrOf ?fs)) = Accepted 7 9 ''warn''"
    by (simp add: stderrOf_def preamble_spec_def newline_def identityPreambleLimit_def parseIdentity_def decimal_eval)
  have st: "x_inspect demo_env h i = Inr \<lparr>es_Running = False, es_ExitCode = 0, es_PID = 0\<rparr>" for h i
    by (simp add: demo_env_def)
  have logs: "lastBytes defaultRingSize (concat (stdoutOf ?fs)) = ''hi''" "lastBytes defaultRingSize ''warn'' = ''warn''"
    by (simp_all add: lastBytes_def stdoutOf_def defaultRingSize_def)
  show ?thesis
    using command_output_reaches_logs [OF d(1), unfolded d(2), OF d(3) rc(1) spec st, unfolded rc(2) logs]
      d(1) by auto
qed

text \<open>A running command that has published its identity, and a helper that confirms signal 9.\<close>

definition kill_env :: exec_env where
  "kill_env = demo_env\<lparr>
     x_attach := (\<lambda>_ _. Inr ([(False, signalAck 42 1700 9)], None)),
     x_inspect := (\<lambda>_ i. Inr \<lparr>es_Running = (i = ''e1''), es_ExitCode = 0, es_PID = 5\<rparr>),
     x_view := (\<lambda>_ rc. rc\<lparr>rc_attached := True, rc_identity := Some (42, 1700, None)\<rparr>)\<rparr>"

definition kill_shell :: shell where
  "kill_shell = demo_shell\<lparr>sh_world := sample_world\<lparr>
     wdb := sample_db\<lparr>commands := [\<lparr>cmd_ID = ''cmd_1'', cmd_SandboxID = ''sbx-1'', cmd_Name = ''sleep'',
       cmd_Args = [], cmd_Cwd = [], cmd_ExitCode = None, cmd_StartedAt = 0, cmd_FinishedAt = None\<rparr>]\<rparr>,
     running := [(''cmd_1'', idle_command ''e1'' ''c1'' [''sleep''])]\<rparr>\<rparr>"

lemmas kill_eval = KillCommand_def kill_shell_def kill_env_def shell_eval checkCtx_def loadCommand_def
  killTracked_def waitCommandRunning_def withTimeout_def terminal_def terminalErr_def look_def throwIf_def
  awaitReady.simps channelReady_def pollRunning.simps waitGuestIdentity_def identityOf_def idle_command_def
  sendSignal_def runIdentityHelper_def ExecCreate_def ExecAttach_def ExecInspect_def copyStream_def boundedWrite_def
  identityPreambleLimit_def afterSignal_def GetCommand_def findCommand_def FindCommandByID_def
  commandView_def dbCommandToDetail_def

lemma signal_confirmed:
  "\<exists>d s'. KillCommand kill_env Background ''c1'' ''cmd_1'' 9 kill_shell = (Inr d, s') \<and>
     sh_execs s' = [ExecInspected ''e1'', ExecCreated ''c1'' ((signalOpts 42 1700 9)\<lparr>xo_Output := True\<rparr>) (Inr ''e9''),
       ExecAttached ''e9'', ExecInspected ''e9'']"
proof -
  have "length (signalAck 42 1700 9) \<le> 256" by (simp add: signalAck_def decimal_eval)
  then show ?thesis by (simp add: kill_eval docker_eval)
qed

theorem signal_reaches_own_process_only_witness:
  "\<exists>d s'. KillCommand kill_env Background ''c1'' ''cmd_1'' 9 kill_shell = (Inr d, s') \<and>
     sh_execs s' = [ExecInspected ''e1'', ExecCreated ''c1'' ((signalOpts 42 1700 9)\<lparr>xo_Output := True\<rparr>) (Inr ''e9''),
       ExecAttached ''e9'', ExecInspected ''e9''] \<and> cd_ID d = ''cmd_1'' \<and> cd_SandboxID d = ''c1''"
proof -
  obtain d s' where d: "KillCommand kill_env Background ''c1'' ''cmd_1'' 9 kill_shell = (Inr d, s')"
    "sh_execs s' = [ExecInspected ''e1'', ExecCreated ''c1'' ((signalOpts 42 1700 9)\<lparr>xo_Output := True\<rparr>) (Inr ''e9''),
       ExecAttached ''e9'', ExecInspected ''e9'']"
    using signal_confirmed by blast
  with signal_reaches_own_process_only [OF d(1)] show ?thesis by blast
qed

section \<open>Waiting for a command of another sandbox\<close>

text \<open>
  \<open>WaitCommand\<close> does not look at the sandbox of a tracked command before it reports how that
  command's stream ended: a caller who names the wrong sandbox gets this error, and not that
  there is no such command, as the other handlers answer.
\<close>

definition broken_shell :: shell where
  "broken_shell = demo_shell\<lparr>sh_world := sample_world\<lparr>running :=
     [(''cmd_1'', (idle_command ''e1'' ''c1'' [''sleep''])\<lparr>rc_done := True, rc_streamErr := Some EOF\<rparr>)]\<rparr>\<rparr>"

theorem wait_ignores_sandbox:
  "fst (WaitCommand demo_env Background ''other'' ''cmd_1'' broken_shell) = Inl EOF"
  "fst (GetCommandLogs ''other'' ''cmd_1'' broken_shell) = Inl ErrCommandNotFound"
  "fst (KillCommand demo_env Background ''other'' ''cmd_1'' 9 broken_shell) = Inl ErrCommandNotFound"
  by (simp_all add: WaitCommand_def GetCommandLogs_def broken_shell_def kill_eval docker_eval)

section \<open>Signalling ends\<close>

text \<open>
  The waits of \<open>KillCommand\<close> have deadlines. If the deadline has passed at every moment from \<open>n\<close>
  on, fuel above \<open>n\<close> is never used up: neither the amount nor the error for a handler that is
  still blocked matters.
\<close>

definition expires :: "exec_env \<Rightarrow> nat \<Rightarrow> bool" where
  "expires xe n \<longleftrightarrow> (\<forall>m \<ge> n. x_expired xe m)"

definition fuelled :: "exec_env \<Rightarrow> nat \<Rightarrow> err \<Rightarrow> exec_env" where
  "fuelled xe f e = xe\<lparr>x_fuel := f, x_blocked := e\<rparr>"

lemma fuelled_simps [simp]:
  "x_fuel (fuelled xe f e) = f" "x_blocked (fuelled xe f e) = e" "x_en (fuelled xe f e) = x_en xe"
  "x_view (fuelled xe f e) = x_view xe" "x_pick (fuelled xe f e) = x_pick xe"
  "x_inspect (fuelled xe f e) = x_inspect xe" "x_create (fuelled xe f e) = x_create xe"
  "x_attach (fuelled xe f e) = x_attach xe" "x_expired (fuelled xe f e) = x_expired xe"
  "x_unmarshal (fuelled xe f e) = x_unmarshal xe"
  by (simp_all add: fuelled_def)

lemma fuelled_parts:
  "withTimeout (fuelled xe f e) cx = withTimeout xe cx" "look (fuelled xe f e) rc = look xe rc"
  "terminal (fuelled xe f e) rc = terminal xe rc" "finishedErr (fuelled xe f e) rc = finishedErr xe rc"
  "ExecInspect (fuelled xe f e) i = ExecInspect xe i" "ExecCreate (fuelled xe f e) i o1 = ExecCreate xe i o1"
  "ExecAttach (fuelled xe f e) i = ExecAttach xe i" "GetCommand (fuelled xe f e) sid c = GetCommand xe sid c"
  unfolding withTimeout_def finishedErr_def terminal_def look_def ExecInspect_def ExecCreate_def
      ExecAttach_def GetCommand_def findCommand_def dbCommandToDetail_def fuelled_simps by (rule refl)+

lemma fuelled_timer:
  "TimerDone \<in> set chs \<Longrightarrow> awaitReady (fuelled xe f e) (Suc 0) cx rc chs = awaitReady xe (Suc 0) cx rc chs"
proof (rule ext)
  fix s assume "TimerDone \<in> set chs"
  then have "filter (channelReady cx n r) chs \<noteq> []" for n r
    by (auto simp: filter_empty_conv channelReady_def intro!: bexI [of _ TimerDone])
  then show "awaitReady (fuelled xe f e) (Suc 0) cx rc chs s = awaitReady xe (Suc 0) cx rc chs s"
    by (simp add: prog_defs Let_def)
qed

lemma timeout_expired: "expires xe n \<Longrightarrow> n \<le> m \<Longrightarrow> cx_Err (withTimeout xe cx) m \<noteq> None"
  by (auto simp: withTimeout_def expires_def split: option.split)

lemma await_fuel:
  assumes "expires xe n" and "CtxDone \<in> set chs"
  shows "0 < f \<Longrightarrow> 0 < g \<Longrightarrow> n < tick (sh_world s) + f \<Longrightarrow> n < tick (sh_world s) + g \<Longrightarrow>
    awaitReady (fuelled xe F d) f (withTimeout xe cx) rc chs s =
    awaitReady (fuelled xe G e) g (withTimeout xe cx) rc chs s"
proof (induction f arbitrary: g s)
  case (Suc f)
  obtain g' where g: "g = Suc g'" using Suc.prems(2) by (cases g) simp_all
  let ?t = "tick (sh_world s)"
  let ?cx = "withTimeout xe cx"
  let ?ready = "filter (channelReady ?cx ?t (x_view xe ?t rc)) chs"
  let ?s = "s\<lparr>sh_world := (sh_world s)\<lparr>tick := Suc ?t\<rparr>\<rparr>"
  show ?case
  proof (cases "?ready = []")
    case True
    then have "cx_Err ?cx ?t = None" using assms(2) by (auto simp: channelReady_def filter_empty_conv)
    then have "?t < n" using timeout_expired [OF assms(1)] by (meson not_le)
    then have "awaitReady (fuelled xe F d) f ?cx rc chs ?s = awaitReady (fuelled xe G e) g' ?cx rc chs ?s"
      using Suc.prems g by (intro Suc.IH) simp_all
    then show ?thesis using True g by (simp add: prog_defs Let_def)
  qed (simp add: g prog_defs Let_def)
qed simp

lemma ticks_on: "checkCtx cx s = (Inr (), s') \<Longrightarrow> tick (sh_world s') = Suc (tick (sh_world s))"
  by (auto simp: checkCtx_def lift_def ctxErr_def prog_defs split: option.splits)

definition advances :: "'a sh \<Rightarrow> bool" where
  "advances m \<longleftrightarrow> (\<forall>s x s'. m s = (Inr x, s') \<longrightarrow> tick (sh_world s) \<le> tick (sh_world s'))"

lemma advances_parts:
  "advances (checkCtx cx)" "advances (terminal xe rc)" "advances (ExecInspect xe i)"
  by (auto simp: advances_def ticks_on terminal_def look_def throwIf_def ExecInspect_def prog_defs split: option.splits)

lemma advances_await: "advances (awaitReady xe f cx rc chs)"
proof (induction f)
  case (Suc f)
  then show ?case by (fastforce simp: advances_def ok_simps Let_def split: if_splits)
qed (simp add: advances_def ok_throw)

text \<open>Programs that agree on every state that is at least as late.\<close>

definition agree :: "nat \<Rightarrow> 'a sh \<Rightarrow> 'a sh \<Rightarrow> bool" where
  "agree t m k \<longleftrightarrow> (\<forall>s. t \<le> tick (sh_world s) \<longrightarrow> m s = k s)"

lemma agree_refl [simp]: "agree t m m"
  by (simp add: agree_def)

lemma agree_andThen:
  assumes m: "agree t m k" "advances m" and f: "\<And>x. agree t (f x) (g x)"
  shows "agree t (andThen m f) (andThen k g)"
proof -
  have "andThen m f s = andThen k g s" if s: "t \<le> tick (sh_world s)" for s
  proof (cases "m s")
    case (Pair r s1)
    have mk: "m s = k s" using m(1) s by (simp add: agree_def)
    show ?thesis
    proof (cases r)
      case (Inr x)
      then have "t \<le> tick (sh_world s1)" using Pair m(2) s unfolding advances_def by fastforce
      then show ?thesis using Pair Inr mk f [of x] by (simp add: andThen_def agree_def)
    qed (use Pair mk in \<open>simp add: andThen_def\<close>)
  qed
  then show ?thesis by (simp add: agree_def)
qed

lemma agree_checked:
  assumes "\<And>x. agree (Suc t) (f x) (g x)"
  shows "agree t (andThen (checkCtx cx) f) (andThen (checkCtx cx) g)"
  using assms by (auto simp: agree_def andThen_def split: prod.splits sum.splits dest: ticks_on)

lemma agree_if: "agree t m m' \<Longrightarrow> agree t k k' \<Longrightarrow> agree t (if b then m else k) (if b then m' else k')"
  by simp

lemma agree_channel:
  "agree t a a' \<Longrightarrow> agree t b b' \<Longrightarrow> agree t d d' \<Longrightarrow> agree t e e' \<Longrightarrow> agree t g g' \<Longrightarrow>
     agree t (case ch of CtxDone \<Rightarrow> a | CommandDone \<Rightarrow> b | Attached \<Rightarrow> d | IdentityReady \<Rightarrow> e | TimerDone \<Rightarrow> g)
       (case ch of CtxDone \<Rightarrow> a' | CommandDone \<Rightarrow> b' | Attached \<Rightarrow> d' | IdentityReady \<Rightarrow> e' | TimerDone \<Rightarrow> g')"
  by (cases ch) auto

lemma poll_fuel:
  assumes "expires xe n"
  shows "0 < f \<Longrightarrow> 0 < g \<Longrightarrow> n < t + f \<Longrightarrow> n < t + g \<Longrightarrow>
    agree t (pollRunning (fuelled xe F d) f (withTimeout xe cx) rc) (pollRunning (fuelled xe G e) g (withTimeout xe cx) rc)"
proof (induction f arbitrary: g t)
  case (Suc f)
  obtain g' where g: "g = Suc g'" using Suc.prems(2) by (cases g) simp_all
  have timer: "awaitReady (fuelled xe h b) 1 (withTimeout xe cx) rc [CtxDone, CommandDone, TimerDone] =
      awaitReady xe 1 (withTimeout xe cx) rc [CtxDone, CommandDone, TimerDone]" for h b
    using fuelled_timer [of "[CtxDone, CommandDone, TimerDone]" xe h b] by simp
  show ?case
  proof (cases "t < n")
    case True
    have "agree (Suc t) (pollRunning (fuelled xe F d) f (withTimeout xe cx) rc)
        (pollRunning (fuelled xe G e) g' (withTimeout xe cx) rc)"
      using Suc.prems g True by (intro Suc.IH) simp_all
    then show ?thesis unfolding g pollRunning.simps fuelled_parts timer
      by (intro agree_checked agree_andThen advances_parts advances_await agree_if agree_channel agree_refl)
  next
    case False
    have "\<exists>e s'. checkCtx (withTimeout xe cx) s = (Inl e, s')" if "t \<le> tick (sh_world s)" for s
      using timeout_expired [OF assms, of "tick (sh_world s)" cx] that False
      by (auto simp: checkCtx_def lift_def ctxErr_def prog_defs)
    then show ?thesis unfolding g pollRunning.simps agree_def andThen_def by fastforce
  qed
qed simp

lemma fuelled_more:
  "runIdentityHelper (fuelled xe f e) = runIdentityHelper xe" "sendSignal (fuelled xe f e) = sendSignal xe"
  "afterSignal (fuelled xe f e) = afterSignal xe" "killUntracked (fuelled xe f e) = killUntracked xe"
proof -
  show h: "runIdentityHelper (fuelled xe f e) = runIdentityHelper xe"
    by (intro ext) (unfold runIdentityHelper_def fuelled_parts, rule refl)
  show "sendSignal (fuelled xe f e) = sendSignal xe"
    by (intro ext) (unfold sendSignal_def h, rule refl)
  have timer: "awaitReady (fuelled xe f e) 1 cx rc [CommandDone, TimerDone, CtxDone] =
      awaitReady xe 1 cx rc [CommandDone, TimerDone, CtxDone]" for cx rc
    using fuelled_timer [of "[CommandDone, TimerDone, CtxDone]" xe f e] by simp
  show "afterSignal (fuelled xe f e) = afterSignal xe"
    by (intro ext) (unfold afterSignal_def fuelled_parts timer, rule refl)
  show "killUntracked (fuelled xe f e) = killUntracked xe"
    by (intro ext) (unfold killUntracked_def findCommand_def fuelled_simps, rule refl)
qed

lemma kill_fuel:
  assumes "expires xe n" and "n < f" and "n < g"
  shows "killTracked (fuelled xe f d) cx sid c rc signal = killTracked (fuelled xe g e) cx sid c rc signal"
proof -
  have await: "agree 0 (awaitReady (fuelled xe f d) f (withTimeout xe cx) rc chs)
      (awaitReady (fuelled xe g e) g (withTimeout xe cx) rc chs)" if "CtxDone \<in> set chs" for chs
    using await_fuel [OF assms(1) that, of f g] assms(2,3) by (simp add: agree_def)
  have poll: "agree 0 (pollRunning (fuelled xe f d) f (withTimeout xe cx) rc)
      (pollRunning (fuelled xe g e) g (withTimeout xe cx) rc)"
    using poll_fuel [OF assms(1), of f g 0] assms(2,3) by simp
  have "agree 0 (waitCommandRunning (fuelled xe f d) cx rc) (waitCommandRunning (fuelled xe g e) cx rc)"
    unfolding waitCommandRunning_def fuelled_parts fuelled_simps Let_def
    by (intro agree_andThen advances_parts advances_await agree_channel agree_refl await poll) simp_all
  moreover have "agree 0 (waitGuestIdentity (fuelled xe f d) cx rc) (waitGuestIdentity (fuelled xe g e) cx rc)"
    unfolding waitGuestIdentity_def fuelled_parts fuelled_simps Let_def
    by (intro agree_andThen advances_parts advances_await agree_if agree_refl await) simp_all
  ultimately have "waitCommandRunning (fuelled xe f d) cx rc = waitCommandRunning (fuelled xe g e) cx rc"
    "waitGuestIdentity (fuelled xe f d) cx rc = waitGuestIdentity (fuelled xe g e) cx rc"
    by (auto simp: agree_def)
  then show ?thesis unfolding killTracked_def fuelled_more by simp
qed

text \<open>
  C21: A request to signal a command ends. The waits of \<open>KillCommand\<close> for the command to run, for
  its identity and for the helper are bounded by deadlines: once the deadlines have passed for
  good, no handler is still blocked. In the model, a handler that is still blocked when its fuel
  is used up answers with \<open>x_blocked\<close>; this answer cannot be told apart from any other, and so is
  never given, for every fuel above the deadline and every behaviour of the engine, of the other
  goroutines and of the scheduler.
\<close>

theorem signal_request_ends:
  assumes "expires xe n" and "n < f" and "n < g"
  shows "KillCommand (fuelled xe f blocked) cx sandboxID cmdID signal s =
    KillCommand (fuelled xe g blocked') cx sandboxID cmdID signal s"
  unfolding KillCommand_def fuelled_more kill_fuel [OF assms, of blocked cx sandboxID cmdID _ signal blocked']
  by (rule refl)

definition patient_env :: exec_env where
  "patient_env = demo_env\<lparr>x_expired := (\<lambda>n. 3 \<le> n)\<rparr>"

theorem signal_request_ends_witness:
  "KillCommand (fuelled patient_env 4 EOF) Background ''c1'' ''cmd_1'' 9 kill_shell =
   KillCommand (fuelled patient_env 100 ErrUnsupported) Background ''c1'' ''cmd_1'' 9 kill_shell"
  by (rule signal_request_ends [of patient_env 3]) (simp_all add: expires_def patient_env_def)

end
