(* ===== verification/Service_Props.thy ===== *)
theory Service_Props
  imports Service Command_Props
begin

text \<open>
  Properties of the service: what a successful creation has persisted, whose port a route
  answer is, and that the limits it lets pass cannot overflow on their way to the engine.
\<close>

section \<open>Adoption\<close>

definition provenanceOf :: "string \<Rightarrow> provenance \<Rightarrow> sandbox_row \<Rightarrow> bool" where
  "provenanceOf ref pv row \<longleftrightarrow> sb_Image row = pv_Root pv \<and> sb_ImageRoot row = pv_Root pv \<and>
     sb_ImageManifest row = pv_Manifest pv \<and> sb_NativeImage row = ref \<and> sb_CacheVersion row = pv_CacheVersion pv"

text \<open>The owner is recorded with its image, and none of its intents is left.\<close>

definition adopted :: "string \<Rightarrow> string \<Rightarrow> string \<Rightarrow> provenance \<Rightarrow> db \<Rightarrow> bool" where
  "adopted i nid ref pv d \<longleftrightarrow>
     (\<exists>row \<in> set (sandboxes d). sb_ID row = i \<and> sb_NativeID row = Some nid \<and> provenanceOf ref pv row) \<and>
     (\<forall>o1 \<in> set (operations d). op_PublicID o1 = i \<longrightarrow> op_NativeID o1 \<noteq> nid)"

lemma adopted_tables: "tables d = tables d' \<Longrightarrow> adopted i nid ref pv d = adopted i nid ref pv d'"
  by (simp add: adopted_def tables_def)

lemma UpdateProvenance_adopted:
  assumes "UpdateProvenance F (adoptedRow r p pv) True d = (Inr x, d')"
  shows "adopted (sb_ID r) (nstr (sb_NativeID r)) (pr_Ref (pn_Image p)) pv d'"
proof -
  let ?p = "\<lambda>s. sb_ID s = sb_ID r \<and> sb_NativeID s = Some (nstr (sb_NativeID r))"
  let ?row = "adoptedRow r p pv"
  let ?f = "\<lambda>s. s\<lparr>sb_Image := sb_Image ?row, sb_ImageRoot := sb_ImageRoot ?row,
               sb_ImageManifest := sb_ImageManifest ?row, sb_NativeImage := sb_NativeImage ?row,
               sb_CacheVersion := sb_CacheVersion ?row, sb_RecoveryError := sb_RecoveryError ?row\<rparr>"
  have id: "sb_ID ?row = sb_ID r" "sb_NativeID ?row = sb_NativeID r" by (simp_all add: adoptedRow_def)
  note ok = ok_UpdateProvenance [OF assms, unfolded id]
  have one: "length (filter ?p (sandboxes d)) = 1" and upd: "sandboxes d' = update_rows ?p ?f (sandboxes d)"
    using ok by blast+
  have "filter ?p (sandboxes d) \<noteq> []" using one by auto
  then obtain s where s: "s \<in> set (sandboxes d)" "?p s" by (auto simp: filter_empty_conv)
  then have "?f s \<in> set (sandboxes d')" by (auto simp: upd update_rows_def intro!: image_eqI [where x = s])
  moreover have "provenanceOf (pr_Ref (pn_Image p)) pv (?f s)" by (simp add: provenanceOf_def adoptedRow_def)
  moreover have "sb_ID (?f s) = sb_ID r" "sb_NativeID (?f s) = Some (nstr (sb_NativeID r))" using s(2) by simp_all
  moreover have "\<forall>o1 \<in> set (operations d'). op_PublicID o1 = sb_ID r \<longrightarrow> op_NativeID o1 \<noteq> nstr (sb_NativeID r)"
    using ok by (auto simp: delete_rows_def)
  ultimately show ?thesis unfolding adopted_def by blast
qed

text \<open>An engine that adopts by the database transaction, as both runtimes of the program do.\<close>

definition adoptsByTable :: "engine \<Rightarrow> bool" where
  "adoptsByTable e \<longleftrightarrow> e_AdoptCreation e = None \<or>
     (\<exists>en. e_AdoptCreation e = Some (\<lambda>cx row. lift (AdoptCreation en cx row)))"

lemma docker_adopts: "adoptsByTable (dockerEngine dk)"
  by (auto simp: adoptsByTable_def dockerEngine_def Let_def)


lemma onFailure_ok:
  "onFailure m (\<lambda>e. andThen (h e) (\<lambda>_. throw e)) s = (Inr x, s') \<Longrightarrow> m s = (Inr x, s')"
  by (cases "m s"; cases "fst (m s)") (auto simp: onFailure_def prog_defs split: prod.splits sum.splits)

lemma FindByID_found:
  "lift (repo (FindByID F False i)) s = (Inr (Some r), s') \<Longrightarrow>
     sb_ID r = i \<and> r \<in> set (sandboxes (wdb (sh_world s))) \<and> tables (wdb (sh_world s')) = tables (wdb (sh_world s)) \<and>
     tick (sh_world s') = tick (sh_world s)"
  by (auto simp: lift_def repo_def ok_zoom FindByID_def ok_query tables_def dest!: first_row_Some [OF sym])

lemma adoptRow_ok:
  assumes "adoptRow a cx p pv r s = (Inr x, s')" and "adoptsByTable (ad_engine a)" and "sb_ID r = pn_Public p"
  shows "adopted (pn_Public p) (pn_Native p) (pr_Ref (pn_Image p)) pv (wdb (sh_world s'))"
proof -
  have n: "nstr (sb_NativeID r) = pn_Native p"
    and c: "(case e_AdoptCreation (ad_engine a) of
           Some f \<Rightarrow> f cx (adoptedRow r p pv)
         | None \<Rightarrow> lift (repo (UpdateProvenance (ad_F a) (adoptedRow r p pv) True))) s = (Inr x, s')"
    using assms(1) unfolding adoptRow_def by (simp_all add: ok_throw del: option.case_eq_if split: if_splits)
  obtain F d where "UpdateProvenance F (adoptedRow r p pv) True d = (Inr (), wdb (sh_world s'))"
    using c assms(2) unfolding adoptsByTable_def
    by (auto simp: lift_def repo_def ok_zoom AdoptCreation_def locked_def ok_andThen forgetAttempt_def ok_modify)
  from UpdateProvenance_adopted [OF this] show ?thesis using n assms(3) by simp
qed

lemma Adopt_ok:
  assumes "Adopt a cx p pv s = (Inr x, s')" and "adoptsByTable (ad_engine a)"
  shows "adopted (pn_Public p) (pn_Native p) (pr_Ref (pn_Image p)) pv (wdb (sh_world s'))"
proof -
  obtain row s1 s2 where f: "lift (repo (FindByID (ad_F a) False (pn_Public p))) s1 = (Inr row, s2)"
    and c: "(case row of None \<Rightarrow> throw (Msg ''created sandbox lacks ownership metadata'')
        | Some r \<Rightarrow> adoptRow a cx p pv r) s2 = (Inr x, s')"
    using onFailure_ok [OF assms(1) [unfolded Adopt_def]] by (auto simp: ok_andThen)
  obtain r where r: "row = Some r" using c by (cases row) (simp_all add: ok_throw)
  from adoptRow_ok [of a cx p pv r s2 x s'] c r assms(2) FindByID_found f show ?thesis by simp
qed

section \<open>Creation\<close>

lemma returns_case_sum [returns_rules]:
  "(\<And>e. returns (f e) Q) \<Longrightarrow> (\<And>x. returns (g x) Q) \<Longrightarrow> returns (case r of Inl e \<Rightarrow> f e | Inr x \<Rightarrow> g x) Q"
  by (cases r) simp_all

lemma compensate_fails: "returns (compensate a p pv e) Q"
  unfolding compensate_def Let_def by (intro returns_rules)

lemma finishCreate_ok:
  assumes "finishCreate sv cx i p pv s = (Inr r, s')" and "adoptsByTable (ad_engine (sv_adapter sv))"
    and "pn_Public p = i"
  shows "cre_ID r = i \<and> adopted i (pn_Native p) (pr_Ref (pn_Image p)) pv (wdb (sh_world s')) \<and>
    (\<exists>row \<in> set (sandboxes (wdb (sh_world s'))). sb_ID row = i \<and> sb_Name row = cre_Name r)"
proof -
  obtain q s1 where q: "adoptOrFail sv cx i p pv s = (q, s1)"
    and c: "(case q of Inl e \<Rightarrow> compensate (sv_adapter sv) p pv e
     | Inr row \<Rightarrow> ret ((pn_Created p)\<lparr>cre_Name := sb_Name row, cre_URL := sandboxURL sv row\<rparr>)) s1 = (Inr r, s')"
    using assms(1) unfolding finishCreate_def by (auto simp: ok_andThen ok_attempt)
  obtain row where row: "q = Inr row" "s' = s1" "r = (pn_Created p)\<lparr>cre_Name := sb_Name row, cre_URL := sandboxURL sv row\<rparr>"
    using c returnsD [OF compensate_fails, of "sv_adapter sv" p pv _ s1 r s' "\<lambda>_ _. False"]
    by (cases q) (auto simp: ok_ret)
  obtain ad s2 where ad: "Adopt (sv_adapter sv) cx p pv s = (ad, s2)"
    and rest: "(let mismatch = cre_ID (pn_Created p) \<noteq> i in
     case (if mismatch then joinErr [asErr ad, Some (Msg ''created sandbox public identity mismatch'')] else asErr ad) of
       Some e \<Rightarrow> throw e
     | None \<Rightarrow>
         andThen (serviceFind sv i) (\<lambda>row.
         case row of
           None \<Rightarrow> throw (Msg ''created sandbox lacks ownership metadata'')
         | Some r \<Rightarrow> ret r)) s2 = (Inr row, s1)"
    using q row(1) unfolding adoptOrFail_def by (auto simp: ok_andThen ok_attempt)
  have id: "cre_ID (pn_Created p) = i"
    using rest by (auto simp: joinErr_def Let_def ok_throw split: if_splits)
  obtain u where u: "ad = Inr u" using rest id by (cases ad) (auto simp: asErr_def ok_throw)
  have f: "lift (repo (FindByID (ad_F (sv_adapter sv)) False i)) s2 = (Inr (Some row), s1)"
  proof -
    have "andThen (serviceFind sv i) (\<lambda>row. case row of
        None \<Rightarrow> throw (Msg ''created sandbox lacks ownership metadata'') | Some r \<Rightarrow> ret r) s2 = (Inr row, s1)"
      using rest id u by (simp add: asErr_def)
    then obtain x s3 where x: "serviceFind sv i s2 = (Inr x, s3)"
      "(case x of None \<Rightarrow> throw (Msg ''created sandbox lacks ownership metadata'') | Some r \<Rightarrow> ret r) s3 = (Inr row, s1)"
      by (auto simp: ok_andThen)
    then show ?thesis by (cases x) (auto simp: serviceFind_def ok_throw ok_ret)
  qed
  note found = FindByID_found [OF f]
  have ad2: "adopted i (pn_Native p) (pr_Ref (pn_Image p)) pv (wdb (sh_world s2))"
    using Adopt_ok [OF ad [unfolded u] assms(2)] assms(3) by simp
  have t: "tables (wdb (sh_world s1)) = tables (wdb (sh_world s2))" using found by blast
  have "adopted i (pn_Native p) (pr_Ref (pn_Image p)) pv (wdb (sh_world s1))"
    using ad2 adopted_tables [OF t] by blast
  moreover have "row \<in> set (sandboxes (wdb (sh_world s1)))" using found t by (simp add: tables_def)
  moreover have "sb_ID row = i" using found by blast
  moreover have "cre_ID r = i" "sb_Name row = cre_Name r" by (simp_all add: row(3) id)
  ultimately show ?thesis unfolding row(2) by (intro conjI bexI [where x = row])
qed

lemma CreateSandbox_ok:
  "returns (CreateSandbox a cx opts) (\<lambda>p s. pn_Public p = ro_ID opts \<and> pn_Image p = ro_Image opts)"
  unfolding CreateSandbox_def
  by (intro returns_rules compensate_fails) (simp add: returns_def ok_ret lease_def)

lemma Materialize_ok:
  "Materialize a img s = (Inr p, s') \<Longrightarrow> pv_Root (pr_Identity p) = im_Root img \<and> pv_Manifest (pr_Identity p) = im_Manifest img"
  by (auto simp: Materialize_def ok_andThen ok_ret)

lemma atTick_ok: "atTick f s = (Inr x, s') \<longleftrightarrow> s' = s \<and> f (tick (sh_world s)) = Inr x"
  by (auto simp: atTick_def prog_defs split: sum.splits)

text \<open>
  C29: A successful creation is complete. When \<open>Create\<close> of the service returns a sandbox, its
  options had passed the checks and the database holds exactly what was promised: an owner row
  under the new public identity with the answered name, its native identity, and the root and
  manifest digests of the image that the image store resolved for the request; and no intent of
  this creation, nor any other work on the sandbox, is left pending.
\<close>

theorem service_create_is_complete:
  assumes "ServiceCreate sv cx opts s = (Inr r, s')" and "adoptsByTable (ad_engine (sv_adapter sv))"
    and "distinct (map sb_ID (sandboxes (wdb (sh_world s'))))"
  shows "checkOptions (sv_caps sv) opts = None \<and> hasPrefix (cre_ID r) ''sbx-'' \<and>
    (\<exists>n img row nid. sv_resolve sv n (co_Image opts) (cap_Platform (sv_caps sv)) = Inr img \<and>
       row \<in> set (sandboxes (wdb (sh_world s'))) \<and> sb_ID row = cre_ID r \<and> sb_Name row = cre_Name r \<and>
       sb_NativeID row = Some nid \<and> sb_Image row = im_Root img \<and> sb_ImageRoot row = im_Root img \<and>
       sb_ImageManifest row = im_Manifest img \<and>
       (\<forall>o1 \<in> set (operations (wdb (sh_world s'))). op_PublicID o1 = cre_ID r \<longrightarrow> op_NativeID o1 \<noteq> nid))"
proof -
  have none: "checkOptions (sv_caps sv) opts = None"
    using assms(1) by (cases "checkOptions (sv_caps sv) opts") (simp_all add: ServiceCreate_def ok_throw)
  obtain img p0 h p s1 s2 s3 s4 where
      img: "sv_resolve sv (tick (sh_world s)) (co_Image opts) (cap_Platform (sv_caps sv)) = Inr img"
    and mat: "Materialize (sv_adapter sv) img s1 = (Inr p0, s2)"
    and create: "CreateSandbox (sv_adapter sv) cx (runOptions (''sbx-'' @ h) p0 opts) s3 = (Inr p, s4)"
    and fin: "finishCreate sv cx (''sbx-'' @ h) p (imageIdentity sv img) s4 = (Inr r, s')"
    using assms(1) unfolding ServiceCreate_def Let_def none option.case newID_def
    by (auto simp: ok_andThen ok_throw ok_ret atTick_ok simp del: append.simps split: if_splits)
  have p: "pn_Public p = ''sbx-'' @ h"
    using returnsD [OF CreateSandbox_ok create] by (simp add: runOptions_def)
  note f = finishCreate_ok [OF fin assms(2) p]
  then obtain row where row: "row \<in> set (sandboxes (wdb (sh_world s')))" "sb_ID row = ''sbx-'' @ h" "sb_Name row = cre_Name r"
    by blast
  obtain row' where row': "row' \<in> set (sandboxes (wdb (sh_world s')))" "sb_ID row' = ''sbx-'' @ h"
    "sb_NativeID row' = Some (pn_Native p)" "provenanceOf (pr_Ref (pn_Image p)) (imageIdentity sv img) row'"
    using f unfolding adopted_def by blast
  have "row' = row" using assms(3) row row'(1,2) by (metis distinct_map inj_onD)
  then show ?thesis
    using none img row row' f unfolding adopted_def
    by (auto simp: provenanceOf_def imageIdentity_def hasPrefix_def intro!: exI [of _ row])
qed

definition demo_docker :: docker where
  "demo_docker = \<lparr>dk_x = demo_env, dk_list = (\<lambda>_. Inr []), dk_ping = (\<lambda>_. None)\<rparr>"

definition demo_image :: content_image where
  "demo_image = \<lparr>im_Root = ''sha256:r'', im_Manifest = ''sha256:m'', im_Config = ''sha256:c'',
     im_Platform = \<lparr>pf_OS = ''linux'', pf_Architecture = ''arm64'', pf_Variant = []\<rparr>, im_Validate = None\<rparr>"

definition demo_caps :: capabilities where
  "demo_caps = \<lparr>cap_Runtime = ''docker'', cap_Version = ''1'', cap_Platform = im_Platform demo_image,
     cap_Pause = True, cap_FractionalCPU = True\<rparr>"

definition demo_service :: service where
  "demo_service = \<lparr>sv_adapter = \<lparr>ad_engine = dockerEngine demo_docker, ad_F = (\<lambda>_. None),
       ad_caps = (\<lambda>_. Inr demo_caps), ad_cache = (\<lambda>_ _. Inr ''img''), ad_cleanup = Background\<rparr>,
     sv_caps = demo_caps, sv_port = ''8080'', sv_resolve = (\<lambda>_ _ _. Inr demo_image), sv_hex = (\<lambda>_. Inr ''00ff''),
     sv_now = int, sv_others = (\<lambda>_ s. s), sv_joined = (\<lambda>_. None)\<rparr>"

definition demo_opts :: create_opts where
  "demo_opts = \<lparr>co_Image = ''app'', co_Ports = [\<lparr>Number = 80, Protocol = ''tcp''\<rparr>], co_Timeout = 60 * Second,
     co_Memory = 512, co_CPUs = Finite 1, co_Env = []\<rparr>"

text \<open>The engine of the service's own tests: it only records the ownership row.\<close>

definition fixture_row :: "ctx \<Rightarrow> sandbox_row" where
  "fixture_row cx = sample_row\<lparr>sb_ID := cx_ID cx, sb_NativeID := Some ''n7'', sb_Name := ''fixture'',
     sb_Image := cx_Image cx\<rparr>"

definition fixture_engine :: engine where
  "fixture_engine = (dockerEngine demo_docker)\<lparr>
     e_Create := (\<lambda>cx req. andThen (lift (repo (CreateOwnership (\<lambda>_. None) (fixture_row cx)))) (\<lambda>_.
        ret \<lparr>rs_ID = ''n7'', rs_Name = ''native'', rs_Ports = [''3000/tcp'']\<rparr>)),
     e_AdoptCreation := None, e_CreationFailed := None\<rparr>"

definition fixture_service :: service where
  "fixture_service = demo_service\<lparr>sv_adapter := (sv_adapter demo_service)\<lparr>ad_engine := fixture_engine\<rparr>\<rparr>"

lemmas service_eval = fixture_service_def demo_service_def fixture_engine_def fixture_row_def demo_opts_def
  demo_caps_def demo_image_def demo_shell_def lift_def Let_def

lemma demo_check: "checkOptions demo_caps demo_opts = None"
proof -
  have "ParsePort (portString \<lparr>Number = 80, Protocol = ''tcp''\<rparr>) = Inr \<lparr>Number = 80, Protocol = ''tcp''\<rparr>"
    by (simp add: ParsePort_portString port_wf_def)
  then show ?thesis
    by (simp add: checkOptions_def invalidLimits_def demo_opts_def demo_caps_def cpusOf_def Second_def)
qed

definition fixture_result :: created where
  "fixture_result = \<lparr>cre_ID = ''sbx-00ff'', cre_Name = ''fixture'', cre_Ports = [\<lparr>Number = 3000, Protocol = ''tcp''\<rparr>],
     cre_URL = ''http://fixture.localhost:8080''\<rparr>"

lemma fixture_create:
  "\<exists>s'. ServiceCreate fixture_service Background demo_opts demo_shell =
     (Inr fixture_result, s') \<and>
     map sb_ID (sandboxes (wdb (sh_world s'))) = [''sbx-1'', ''sbx-00ff'']"
proof -
  have caps: "sv_caps fixture_service = demo_caps" by (simp add: fixture_service_def demo_service_def)
  have ports: "ParsePorts [''3000/tcp''] = Inr [\<lparr>Number = 3000, Protocol = ''tcp''\<rparr>]"
    by (simp add: ParsePorts_def ParsePort_def decimal_eval)
  show ?thesis
    unfolding ServiceCreate_def Let_def caps demo_check option.case
    by (simp add: service_eval ports atTick_def Materialize_def newID_def CreateSandbox_def
     finishCreate_def adoptOrFail_def Adopt_def adoptRow_def onFailure_def checkCtx_def runOptions_def lease_def
     creationCtx_def engineRequest_def WithCreationID_def WithCreationImage_def CreateOwnership_def insertSandbox_def goRow_def
     serviceFind_def adoptedRow_def UpdateProvenance_def update_rows_def joinErr_def asErr_def sandboxURL_def
     docker_eval imageIdentity_def hostPortOf_def hasSuffix_def Atoi_def decimal_eval fixture_result_def)
qed

theorem service_create_is_complete_witness:
  "\<exists>s' row. ServiceCreate fixture_service Background demo_opts demo_shell =
     (Inr fixture_result, s') \<and>
     row \<in> set (sandboxes (wdb (sh_world s'))) \<and> sb_ID row = ''sbx-00ff'' \<and> sb_ImageRoot row = ''sha256:r'' \<and>
     sb_ImageManifest row = ''sha256:m''"
proof -
  obtain s' where c: "ServiceCreate fixture_service Background demo_opts demo_shell =
     (Inr fixture_result, s')"
    and d: "map sb_ID (sandboxes (wdb (sh_world s'))) = [''sbx-1'', ''sbx-00ff'']"
    using fixture_create by (elim exE conjE)
  have ad: "adoptsByTable (ad_engine (sv_adapter fixture_service))"
    by (simp add: adoptsByTable_def fixture_service_def fixture_engine_def)
  have "distinct (map sb_ID (sandboxes (wdb (sh_world s'))))" by (simp add: d)
  from conjunct2 [OF conjunct2 [OF service_create_is_complete [OF c ad this]]] obtain n img row
    where img: "sv_resolve fixture_service n (co_Image demo_opts) (cap_Platform (sv_caps fixture_service)) = Inr img"
    and row: "row \<in> set (sandboxes (wdb (sh_world s')))" "sb_ID row = cre_ID fixture_result" "sb_ImageRoot row = im_Root img"
        "sb_ImageManifest row = im_Manifest img"
    by (elim exE conjE)
  have "img = demo_image" using img by (simp add: fixture_service_def demo_service_def)
  then have "sb_ImageRoot row = ''sha256:r''" "sb_ImageManifest row = ''sha256:m''"
    using row(3,4) by (simp_all add: demo_image_def)
  moreover have "sb_ID row = ''sbx-00ff''" using row(2) by (simp add: fixture_result_def)
  ultimately show ?thesis using c row(1) by (intro exI conjI)
qed

section \<open>Routing\<close>

lemma FindRoutingState_ok:
  assumes "FindRoutingState F name runtime d = (Inr (Some row, pending), d')"
  shows "tables d' = tables d \<and> row \<in> set (sandboxes d) \<and> sb_Name row = name \<and>
    pending = (\<exists>o1 \<in> set (operations d). routingPending runtime row o1)"
  using assms unfolding FindRoutingState_def
  by (elim transaction_okE)
    (auto simp: ok_andThen FindByName_def ok_query ok_ret nativeRow_def tables_def filter_empty_conv
      split: option.splits dest!: first_row_Some)

text \<open>At a moment the name belongs to this owner, who is idle, served here and not expired.\<close>

definition routable :: "service \<Rightarrow> string \<Rightarrow> sandbox_row \<Rightarrow> shell \<Rightarrow> bool" where
  "routable sv name row s \<longleftrightarrow> row \<in> set (sandboxes (wdb (sh_world s))) \<and> sb_Name row = name \<and>
     (sb_RuntimeKind row = [] \<or> sb_RuntimeKind row = cap_Runtime (sv_caps sv)) \<and>
     (\<forall>o1 \<in> set (operations (wdb (sh_world s))). \<not> routingPending (cap_Runtime (sv_caps sv)) row o1) \<and>
     (case sb_ExpiresAt row of None \<Rightarrow> True | Some dl \<Rightarrow> dl > sv_now sv (tick (sh_world s)))"

lemma routeOwner_ok: "routeOwner sv name s = (Inr row, s') \<Longrightarrow> routable sv name row s'"
proof -
  assume a: "routeOwner sv name s = (Inr row, s')"
  let ?rt = "cap_Runtime (sv_caps sv)"
  obtain x pending s1 where f: "lift (repo (FindRoutingState (ad_F (sv_adapter sv)) name ?rt)) s = (Inr (x, pending), s1)"
    and c: "(case x of
        None \<Rightarrow> throw ErrNotFound
      | Some r \<Rightarrow>
          if sb_RuntimeKind r \<noteq> [] \<and> sb_RuntimeKind r \<noteq> ?rt then throw ErrNotFound
          else
            andThen (reads (\<lambda>s. sv_now sv (tick (sh_world s)))) (\<lambda>t.
            if pending \<or> (case sb_ExpiresAt r of None \<Rightarrow> False | Some dl \<Rightarrow> \<not> dl > t)
            then throw ErrNotRunning
            else ret r)) s1 = (Inr row, s')"
    using a unfolding routeOwner_def Let_def by (auto simp: ok_andThen)
  obtain r where x: "x = Some r" using c by (cases x) (simp_all add: ok_throw)
  have r: "r = row" "s' = s1" "\<not> pending" "sb_RuntimeKind r = [] \<or> sb_RuntimeKind r = ?rt"
    "case sb_ExpiresAt r of None \<Rightarrow> True | Some dl \<Rightarrow> dl > sv_now sv (tick (sh_world s1))"
    using c unfolding x by (auto simp: ok_throw ok_andThen ok_reads ok_ret split: if_splits option.splits)
  obtain d' where d': "FindRoutingState (ad_F (sv_adapter sv)) name ?rt (wdb (sh_world s)) = (Inr (Some r, pending), d')"
    "wdb (sh_world s1) = d'"
    using f x by (auto simp: lift_def repo_def ok_zoom)
  show ?thesis using FindRoutingState_ok [OF d'(1)] d'(2) r by (auto simp: routable_def tables_def)
qed

lemma networkOf_ports: "networkOf item = Inr n \<Longrightarrow> \<forall>p \<in> set (nw_Ports n). 1 \<le> pp_Host p \<and> pp_Host p \<le> 65535"
proof -
  assume "networkOf item = Inr n"
  then have "map_err publishedPort (sn_PortsMap item) = Inr (nw_Ports n)"
    by (auto simp: networkOf_def split: sum.splits)
  then have "list_all2 (\<lambda>x y. publishedPort x = Inr y) (sn_PortsMap item) (nw_Ports n)" by (simp add: map_err_Inr_iff)
  then show ?thesis
    by (induction) (auto simp: publishedPort_def split: prod.splits sum.splits option.splits if_splits dest!: ParseUint_less)
qed

lemma ok_fromSum: "fromSum r s = (Inr x, s') \<longleftrightarrow> r = Inr x \<and> s' = s"
  by (cases r) (auto simp: fromSum_def ok_throw ok_ret)

lemma AdapterRouting_ports:
  "AdapterRouting a i s = (Inr r, s') \<Longrightarrow> \<forall>p \<in> set (nw_Ports (rte_Network r)). 1 \<le> pp_Host p \<and> pp_Host p \<le> 65535"
  by (auto simp: AdapterRouting_def ok_andThen ok_ret ok_fromSum dest!: networkOf_ports)


definition routed_docker :: docker where
  "routed_docker = demo_docker\<lparr>dk_x := demo_env\<lparr>x_en := sample_env\<lparr>en_inspect := (\<lambda>_ _. Inr (sample_container\<lparr>
     ct_Ports := Some [(\<lparr>Number = 80, Protocol = ''tcp''\<rparr>, [\<lparr>HostIP = ''127.0.0.1'', HostPort = ''32768''\<rparr>])]\<rparr>))\<rparr>\<rparr>\<rparr>"

definition routed_service :: service where
  "routed_service = demo_service\<lparr>sv_adapter := (sv_adapter demo_service)\<lparr>ad_engine := dockerEngine routed_docker\<rparr>\<rparr>"

definition demo_route :: route where
  "demo_route = \<lparr>rte_Running = True, rte_Network = \<lparr>nw_Main = \<lparr>Number = 80, Protocol = ''tcp''\<rparr>,
     nw_Ports = [\<lparr>pp_Guest = \<lparr>Number = 80, Protocol = ''tcp''\<rparr>, pp_Host = 32768\<rparr>]\<rparr>\<rparr>"

definition demo_state :: "nat \<Rightarrow> shell \<Rightarrow> bool" where
  "demo_state n s \<longleftrightarrow> wdb (sh_world s) = sample_db\<lparr>stmts := n\<rparr> \<and> tick (sh_world s) = 0"

lemma demo_owner:
  "demo_state n s \<Longrightarrow> \<exists>n' s'. routeOwner routed_service ''keen-lamport'' s = (Inr sample_row, s') \<and> demo_state n' s'"
  by (simp add: routeOwner_def FindRoutingState_def FindByName_def routed_service_def service_eval docker_eval
      routingPending_def demo_state_def nativeRow_def)

lemma demo_routing:
  "demo_state n s \<Longrightarrow> \<exists>n' s'. AdapterRouting (sv_adapter routed_service) ''sbx-1'' s = (Inr demo_route, s') \<and> demo_state n' s'"
proof -
  have t: "portString \<lparr>Number = 80, Protocol = ''tcp''\<rparr> = ''80/tcp''" by (simp add: portString_def decimal_eval)
  have n: "networkOf \<lparr>sn_MainPort = ''80/tcp'', sn_PortsMap = [(''80/tcp'', ''32768'')]\<rparr> = Inr (rte_Network demo_route)"
    by (simp add: networkOf_def publishedPort_def ParsePort_def demo_route_def decimal_eval)
  assume "demo_state n s"
  then show ?thesis
    by (simp add: AdapterRouting_def ownerOf_def routed_service_def routed_docker_def demo_docker_def demo_env_def
      dockerEngine_def sandboxRouting_def extractPorts_def mainPortOf_def fromSum_def t n demo_state_def demo_service_def
      lift_def docker_eval nativeRow_def) (simp add: demo_route_def)
qed

lemma routed: "\<exists>s'. ServiceRoute routed_service Background ''keen-lamport'' demo_shell = (Inr ''32768'', s')"
proof -
  have "demo_state 0 demo_shell" by (simp add: demo_state_def demo_shell_def sample_world_def sample_db_def)
  then obtain n1 s1 where s1: "routeOwner routed_service ''keen-lamport'' demo_shell = (Inr sample_row, s1)" "demo_state n1 s1"
    using demo_owner by blast
  obtain n2 s2 where s2: "AdapterRouting (sv_adapter routed_service) ''sbx-1'' s1 = (Inr demo_route, s2)" "demo_state n2 s2"
    using demo_routing [OF s1(2)] by blast
  define s3 where "s3 = s2\<lparr>sh_world := (sh_world s2)\<lparr>tick := 1\<rparr>\<rparr>"
  have others: "others routed_service s = (Inr (), s)" for s
    by (simp add: others_def routed_service_def demo_service_def modify_def)
  have flight: "flight routed_service ''sbx-1'' s1 = (Inr (Inr demo_route), s2)"
    using s2(1) by (simp add: flight_def routed_service_def demo_service_def prog_defs)
  have check: "checkCtx Background s2 = (Inr (), s3)"
    using s2(2) by (simp add: checkCtx_def lift_def ctxErr_def Background_def prog_defs s3_def demo_state_def)
  obtain s4 where s4: "routeOwner routed_service ''keen-lamport'' s3 = (Inr sample_row, s4)"
    using s2(2) unfolding s3_def demo_state_def
    by (simp add: routeOwner_def FindRoutingState_def FindByName_def routed_service_def service_eval docker_eval
      routingPending_def nativeRow_def)
  have i: "sb_ID sample_row = ''sbx-1''" by (simp add: sample_row_def)
  have h: "Itoa 32768 = ''32768''" by (simp add: decimal_eval)
  show ?thesis
    by (simp add: ServiceRoute_def andThen_def s1(1) others i flight check s4 fromSum_def ret_def sameOwner_def
        routedPort_def demo_route_def h del: Itoa.simps)
qed


section \<open>Limits\<close>

lemma wrap64_id: "- (2 ^ 63) \<le> n \<Longrightarrow> n < 2 ^ 63 \<Longrightarrow> wrap64 n = n"
  by (simp add: wrap64_def)

lemma checked_limits:
  assumes "checkOptions caps opts = None"
  shows "0 \<le> cpusOf opts \<and> cpusOf opts \<le> 4 \<and> 0 \<le> co_Memory opts \<and> co_Memory opts \<le> 8192 \<and>
    0 \<le> co_Timeout opts \<and> co_Timeout opts smod Second = 0"
  using assms
  by (cases "co_CPUs opts") (auto simp: checkOptions_def invalidLimits_def cpusOf_def split: if_splits)


definition demo_prepared :: prepared where
  "demo_prepared = \<lparr>pr_Owned = True, pr_Ref = ''img'',
     pr_Identity = \<lparr>pv_Root = ''sha256:r'', pv_Manifest = ''sha256:m'', pv_CacheVersion = []\<rparr>\<rparr>"


text \<open>
  A processor share below one billionth passes the checks of the service and becomes 0, which
  means no limit to the engine.
\<close>

theorem tiny_share_is_no_limit:
  "checkOptions demo_caps (demo_opts\<lparr>co_CPUs := Finite (1 / 10 ^ 10)\<rparr>) = None \<and>
   cr_NanoCPUs (createOptions en (engineRequest (runOptions i p (demo_opts\<lparr>co_CPUs := Finite (1 / 10 ^ 10)\<rparr>)))
     ports name token) = 0"
proof
  have "ParsePort (portString \<lparr>Number = 80, Protocol = ''tcp''\<rparr>) = Inr \<lparr>Number = 80, Protocol = ''tcp''\<rparr>"
    by (simp add: ParsePort_portString port_wf_def)
  then show "checkOptions demo_caps (demo_opts\<lparr>co_CPUs := Finite (1 / 10 ^ 10)\<rparr>) = None"
    by (simp add: checkOptions_def invalidLimits_def demo_opts_def demo_caps_def cpusOf_def Second_def)
qed (simp add: createOptions_def requestedCPUs_def engineRequest_def runOptions_def cpusOf_def wrap64_def)

end
