(* ===== verification/Image_Graph.thy ===== *)
theory Image_Graph
  imports Go_Strings
begin

text \<open>
  \<open>src/internal/images/graph.go\<close>, \<open>layers.go\<close> and the blob functions of \<open>store.go\<close>: the graph of
  content-addressed blobs of an image, its validation, the choice of the manifest of a platform
  and the validation of its layers.

  A store's directory is a function from the hex digest to the file there; it stays as it is
  during one walk. SHA-256, the JSON decoders, the media type predicates and the decompressors
  are the library's: the record \<open>oci\<close>. A walk is cancelled by \<open>oci_cancel\<close>, which is asked with the
  number of digests seen so far.
\<close>

section \<open>Descriptors and documents\<close>

record v1_platform =
  v_OS :: string
  v_Architecture :: string
  v_Variant :: string

record v1_hash =
  h_Algorithm :: string
  h_Hex :: string

record descriptor =
  d_MediaType :: string
  d_Size :: int
  d_Digest :: v1_hash
  d_URLs :: "string list"
  d_Data :: string
  d_Platform :: "v1_platform option"
  d_RefName :: string

record index_manifest =
  ix_SchemaVersion :: int
  ix_Manifests :: "descriptor list"

record manifest =
  mf_SchemaVersion :: int
  mf_Config :: descriptor
  mf_Layers :: "descriptor list"

record config_file =
  cf_Platform :: v1_platform
  cf_RootFSType :: string
  cf_DiffIDs :: "v1_hash list"
  cf_Created :: string

text \<open>A file of the directory: regular, regular but not readable by the process, or anything else.\<close>

datatype blob_file = Regular string | Unreadable string | Irregular

type_synonym dir = "(string \<times> blob_file) list"

record oci =
  oci_sha :: "string \<Rightarrow> string"
  oci_index :: "string \<Rightarrow> err + index_manifest"
  oci_manifest :: "string \<Rightarrow> err + manifest"
  oci_config :: "string \<Rightarrow> err + config_file"
  oci_isIndex :: "string \<Rightarrow> bool"
  oci_isImage :: "string \<Rightarrow> bool"
  oci_gunzip :: "string \<Rightarrow> err + string \<times> err option"
  oci_unzstd :: "string \<Rightarrow> err + string \<times> err option"
  oci_cancel :: "nat \<Rightarrow> err option"

definition MaxArchiveBytes :: int where
  "MaxArchiveBytes = 20 * 2 ^ 30"

definition maxMetadataBytes :: int where
  "maxMetadataBytes = 16 * 2 ^ 20"

definition sha256 :: "oci \<Rightarrow> string \<Rightarrow> v1_hash" where
  "sha256 oc b = \<lparr>h_Algorithm = ''sha256'', h_Hex = oci_sha oc b\<rparr>"

text \<open>\<open>ctx.Err()\<close>.\<close>

definition ctxErrAt :: "oci \<Rightarrow> nat \<Rightarrow> err + unit" where
  "ctxErrAt oc n = (case oci_cancel oc n of Some e \<Rightarrow> Inl e | None \<Rightarrow> Inr ())"

section \<open>Blobs\<close>

definition hexDigit :: "char \<Rightarrow> bool" where
  "hexDigit c \<longleftrightarrow> isDigit c \<or> c \<in> set ''abcdef''"

text \<open>The file name of a digest; only lower-case hex of the right length names a file.\<close>

definition blobPath :: "v1_hash \<Rightarrow> err + string" where
  "blobPath h =
     bindE (guardE (h_Algorithm h = ''sha256'' \<and> length (h_Hex h) = 64)
       (Msg ''only sha256 OCI digests are supported'')) (\<lambda>_.
     bindE (guardE (list_all hexDigit (h_Hex h)) (Msg ''invalid blob digest'')) (\<lambda>_.
     Inr (h_Hex h)))"

text \<open>\<open>os.Open\<close>, and reading at most \<open>limit\<close> bytes of the file.\<close>

definition openFile :: "dir \<Rightarrow> string \<Rightarrow> err + string" where
  "openFile fs p = (case map_of fs p of
     Some (Regular c) \<Rightarrow> Inr c
   | Some (Unreadable c) \<Rightarrow> Inl (Msg ''permission denied'')
   | Some Irregular \<Rightarrow> Inl (Msg ''not a regular file'')
   | None \<Rightarrow> Inl (Msg ''no such file''))"

definition readFile :: "dir \<Rightarrow> string \<Rightarrow> nat \<Rightarrow> err + string" where
  "readFile fs p limit = bindE (openFile fs p) (\<lambda>c. Inr (take limit c))"

text \<open>\<open>io.LimitReader\<close> over a reader: its error only shows when the limit is not reached before it.\<close>

definition readUpTo :: "nat \<Rightarrow> string \<times> err option \<Rightarrow> err + string" where
  "readUpTo limit r = (case snd r of
     None \<Rightarrow> Inr (take limit (fst r))
   | Some e \<Rightarrow> if limit \<le> length (fst r) then Inr (take limit (fst r)) else Inl e)"

definition readBlob :: "oci \<Rightarrow> dir \<Rightarrow> descriptor \<Rightarrow> err + string" where
  "readBlob oc fs d =
     bindE (guardE (d_Size d \<le> maxMetadataBytes) (Msg ''OCI metadata exceeds limit'')) (\<lambda>_.
     bindE (blobPath (d_Digest d)) (\<lambda>p.
     bindE (readFile fs p (nat maxMetadataBytes + 1)) (\<lambda>b.
     bindE (guardE (int (length b) = d_Size d \<and> sha256 oc b = d_Digest d) (Msg ''corrupt OCI metadata'')) (\<lambda>_.
     Inr b))))"

text \<open>The bytes come from a reader that may end with an error; at most one more than announced is read.\<close>

definition putBlob :: "oci \<Rightarrow> descriptor \<Rightarrow> string \<times> err option \<Rightarrow> dir \<Rightarrow> err + dir" where
  "putBlob oc d r fs =
     bindE (blobPath (d_Digest d)) (\<lambda>p.
     bindE (guardE (0 \<le> d_Size d \<and> d_Size d \<le> MaxArchiveBytes) (Msg ''blob exceeds disk budget'')) (\<lambda>_.
     bindE (readUpTo (nat (d_Size d) + 1) r) (\<lambda>b.
     bindE (guardE (int (length b) = d_Size d \<and> sha256 oc b = d_Digest d)
       (Msg ''OCI blob digest or size mismatch'')) (\<lambda>_.
     Inr (store p (Regular b) fs)))))"

section \<open>Platforms\<close>

definition canonicalPlatform :: "v1_platform \<Rightarrow> v1_platform" where
  "canonicalPlatform p =
     (if (v_Architecture p = ''arm64'' \<and> v_Variant p = ''v8'') \<or> (v_Architecture p = ''amd64'' \<and> v_Variant p = ''v1'')
      then p\<lparr>v_Variant := []\<rparr> else p)"

definition samePlatform :: "v1_platform \<Rightarrow> v1_platform \<Rightarrow> bool" where
  "samePlatform a b \<longleftrightarrow> (let x = canonicalPlatform a; y = canonicalPlatform b in
     v_OS x = v_OS y \<and> v_Architecture x = v_Architecture y \<and> v_Variant x = v_Variant y)"

section \<open>The graph\<close>

definition children :: "oci \<Rightarrow> dir \<Rightarrow> descriptor \<Rightarrow> err + descriptor list" where
  "children oc fs d =
     (if oci_isIndex oc (d_MediaType d) then
        bindE (readBlob oc fs d) (\<lambda>b.
        bindE (oci_index oc b) (\<lambda>m.
        bindE (guardE (ix_SchemaVersion m = 2) (Msg ''invalid OCI index schema'')) (\<lambda>_.
        Inr (ix_Manifests m))))
      else if oci_isImage oc (d_MediaType d) then
        bindE (readBlob oc fs d) (\<lambda>b.
        bindE (oci_manifest oc b) (\<lambda>m.
        bindE (guardE (mf_SchemaVersion m = 2) (Msg ''invalid OCI manifest schema'')) (\<lambda>_.
        Inr (mf_Config m # mf_Layers m))))
      else Inr [])"

text \<open>The checks of one descriptor before its blob is read; \<open>n\<close> digests have been seen.\<close>

definition checkDescriptor :: "oci \<Rightarrow> nat \<Rightarrow> nat \<Rightarrow> descriptor \<Rightarrow> err + unit" where
  "checkDescriptor oc depth n d =
     bindE (guardE (d_MediaType d \<noteq> []) (Msg ''OCI descriptor media type is required'')) (\<lambda>_.
     bindE (guardE (d_URLs d = []) (Msg ''external OCI descriptor URLs are not permitted'')) (\<lambda>_.
     bindE (guardE (d_Data d = [] \<or> sha256 oc (d_Data d) = d_Digest d \<and> int (length (d_Data d)) = d_Size d)
       (Msg ''embedded OCI descriptor data mismatch'')) (\<lambda>_.
     bindE (ctxErrAt oc n) (\<lambda>_.
     guardE (depth \<le> 16 \<and> n \<le> 100000) (Msg ''OCI graph exceeds limits'')))))"

text \<open>\<open>os.Lstat\<close>: the file is regular and has the size that the descriptor states.\<close>

definition fileSize :: "blob_file \<Rightarrow> int option" where
  "fileSize f = (case f of Regular c \<Rightarrow> Some (int (length c)) | Unreadable c \<Rightarrow> Some (int (length c)) | Irregular \<Rightarrow> None)"

definition statBlob :: "dir \<Rightarrow> descriptor \<Rightarrow> err + string" where
  "statBlob fs d =
     bindE (blobPath (d_Digest d)) (\<lambda>p.
     case map_of fs p of
       None \<Rightarrow> Inl (Msg ''no such file'')
     | Some f \<Rightarrow>
         bindE (guardE (fileSize f = Some (d_Size d) \<and> 0 \<le> d_Size d \<and> d_Size d \<le> MaxArchiveBytes)
           (Msg ''OCI descriptor size mismatch'')) (\<lambda>_.
         Inr p))"

text \<open>The content read through \<open>contextReader\<close> up to the disk budget: its digest and its length.\<close>

definition hashFile :: "oci \<Rightarrow> dir \<Rightarrow> string \<Rightarrow> nat \<Rightarrow> err + v1_hash \<times> int" where
  "hashFile oc fs p n =
     bindE (readFile fs p (nat MaxArchiveBytes + 1)) (\<lambda>c.
     bindE (ctxErrAt oc n) (\<lambda>_.
     Inr (sha256 oc c, int (length c))))"

function validateGraph :: "oci \<Rightarrow> dir \<Rightarrow> nat \<Rightarrow> descriptor \<Rightarrow> v1_hash list \<Rightarrow> err + int \<times> v1_hash list"
  and validateKids :: "oci \<Rightarrow> dir \<Rightarrow> nat \<Rightarrow> descriptor list \<Rightarrow> int \<Rightarrow> v1_hash list \<Rightarrow> err + int \<times> v1_hash list"
where
  "validateGraph oc fs depth d seen =
     bindE (checkDescriptor oc depth (length seen) d) (\<lambda>_.
     bindE (statBlob fs d) (\<lambda>p.
     if d_Digest d \<in> set seen then Inr (0, seen)
     else
       bindE (hashFile oc fs p (Suc (length seen))) (\<lambda>(h, n).
       bindE (guardE (h = d_Digest d \<and> n = d_Size d) (Msg ''OCI graph digest or size mismatch'')) (\<lambda>_.
       bindE (children oc fs d) (\<lambda>kids.
       validateKids oc fs depth kids n (d_Digest d # seen))))))"
| "validateKids oc fs depth [] n seen = Inr (n, seen)"
| "validateKids oc fs depth (kid # kids) n seen =
     bindE (validateGraph oc fs (Suc depth) kid seen) (\<lambda>(m, seen').
     bindE (guardE (n + m \<le> MaxArchiveBytes) (Msg ''OCI graph exceeds disk budget'')) (\<lambda>_.
     validateKids oc fs depth kids (n + m) seen'))"
  by pat_completeness auto

text \<open>A level down ends at depth 17, where the check fails; along the siblings the list shortens.\<close>

lemma checkDescriptor_depth: "checkDescriptor oc depth n d = Inr u \<Longrightarrow> depth \<le> 16"
  by (auto simp: checkDescriptor_def)

termination validateGraph
  by (relation "measures [\<lambda>x. case x of Inl (oc, fs, depth, d, seen) \<Rightarrow> 2 * (18 - depth)
        | Inr (oc, fs, depth, kids, n, seen) \<Rightarrow> 2 * (18 - depth) - 1,
      \<lambda>x. case x of Inl _ \<Rightarrow> 0 | Inr (oc, fs, depth, kids, n, seen) \<Rightarrow> length kids]")
    (auto dest!: checkDescriptor_depth)

declare validateGraph.simps [simp del]

section \<open>The manifest of a platform\<close>

definition configPlatform :: "oci \<Rightarrow> dir \<Rightarrow> descriptor \<Rightarrow> err + v1_platform" where
  "configPlatform oc fs d =
     bindE (readBlob oc fs d) (\<lambda>b.
     bindE (oci_config oc b) (\<lambda>cfg.
     Inr (cf_Platform cfg)))"

function selectManifest :: "oci \<Rightarrow> dir \<Rightarrow> v1_platform \<Rightarrow> nat \<Rightarrow> descriptor \<Rightarrow> err + descriptor"
  and selectKids :: "oci \<Rightarrow> dir \<Rightarrow> v1_platform \<Rightarrow> nat \<Rightarrow> descriptor list \<Rightarrow> err + descriptor"
where
  "selectManifest oc fs p depth d =
     (if depth > 16 then Inl (Msg ''OCI index nesting limit exceeded'')
      else if oci_isIndex oc (d_MediaType d) then
        bindE (children oc fs d) (\<lambda>kids. selectKids oc fs p depth kids)
      else if \<not> oci_isImage oc (d_MediaType d) then Inl (Msg ''artifact is not an executable OCI image'')
      else
        bindE (children oc fs d) (\<lambda>kids.
        case kids of
          [] \<Rightarrow> Inl (Msg ''missing image config'')
        | config # _ \<Rightarrow>
            bindE (configPlatform oc fs config) (\<lambda>q.
            bindE (guardE (samePlatform q p) (Msg ''image config does not match requested platform'')) (\<lambda>_.
            Inr (d\<lparr>d_Platform := Some p\<rparr>)))))"
| "selectKids oc fs p depth [] = Inl (Msg ''requested platform is not available'')"
| "selectKids oc fs p depth (kid # kids) =
     (if (case d_Platform kid of Some q \<Rightarrow> \<not> samePlatform q p | None \<Rightarrow> False)
      then selectKids oc fs p depth kids
      else case selectManifest oc fs p (Suc depth) kid of
        Inr r \<Rightarrow> Inr r
      | Inl e \<Rightarrow> selectKids oc fs p depth kids)"
  by pat_completeness auto

termination
  by (relation "measures [\<lambda>x. case x of Inl (oc, fs, p, depth, d) \<Rightarrow> 2 * (18 - depth)
        | Inr (oc, fs, p, depth, kids) \<Rightarrow> 2 * (18 - depth) - 1,
      \<lambda>x. case x of Inl _ \<Rightarrow> 0 | Inr (oc, fs, p, depth, kids) \<Rightarrow> length kids]") auto

declare selectManifest.simps [simp del]

section \<open>Layers\<close>

text \<open>The reader of the decoded layer, chosen by the suffix of its media type.\<close>

definition layerReader :: "oci \<Rightarrow> string \<Rightarrow> string \<Rightarrow> err + string \<times> err option" where
  "layerReader oc mt c =
     (if hasSuffix mt ''+gzip'' \<or> hasSuffix mt ''.gzip'' then oci_gunzip oc c
      else if hasSuffix mt ''+zstd'' then oci_unzstd oc c
      else if hasSuffix mt ''.tar'' then Inr (c, None)
      else Inl (Msg ''unsupported OCI layer compression''))"

fun checkLayers :: "oci \<Rightarrow> dir \<Rightarrow> descriptor list \<Rightarrow> v1_hash list \<Rightarrow> int \<Rightarrow> nat \<Rightarrow> err + unit" where
  "checkLayers oc fs (d # ds) (h # hs) remaining n =
     bindE (blobPath (d_Digest d)) (\<lambda>p.
     bindE (openFile fs p) (\<lambda>c.
     bindE (layerReader oc (d_MediaType d) c) (\<lambda>r.
     bindE (ctxErrAt oc n) (\<lambda>_.
     bindE (readUpTo (nat remaining + 1) r) (\<lambda>b.
     bindE (guardE (int (length b) \<le> remaining) (Msg ''expanded OCI rootfs exceeds disk budget'')) (\<lambda>_.
     bindE (guardE (sha256 oc b = h) (Msg ''OCI layer diffID mismatch'')) (\<lambda>_.
     checkLayers oc fs ds hs (remaining - int (length b)) (Suc n))))))))"
| "checkLayers oc fs ds hs remaining n = Inr ()"

definition validateLayers :: "oci \<Rightarrow> dir \<Rightarrow> descriptor \<Rightarrow> err + unit" where
  "validateLayers oc fs d =
     bindE (readBlob oc fs d) (\<lambda>b.
     bindE (oci_manifest oc b) (\<lambda>m.
     bindE (readBlob oc fs (mf_Config m)) (\<lambda>b.
     bindE (oci_config oc b) (\<lambda>cfg.
     bindE (guardE (cf_RootFSType cfg = ''layers'' \<and> length (cf_DiffIDs cfg) = length (mf_Layers m))
       (Msg ''invalid OCI rootfs layer identities'')) (\<lambda>_.
     checkLayers oc fs (mf_Layers m) (cf_DiffIDs cfg) MaxArchiveBytes 0)))))"

section \<open>Walks without a depth limit\<close>

text \<open>
  \<open>graphSize\<close> and the \<open>copyGraph\<close> of an export mark what they have seen, do their work on a new
  descriptor and go on into its children. They end because a descriptor with children names a
  file of the directory, and each such file is entered once.
\<close>

function walkGraph :: "oci \<Rightarrow> dir \<Rightarrow> (nat \<Rightarrow> err + unit) \<Rightarrow> (descriptor \<Rightarrow> 'a \<Rightarrow> err + 'a) \<Rightarrow> descriptor \<Rightarrow> 'a \<Rightarrow> v1_hash list
    \<Rightarrow> err + 'a \<times> v1_hash list"
  and walkKids :: "oci \<Rightarrow> dir \<Rightarrow> (nat \<Rightarrow> err + unit) \<Rightarrow> (descriptor \<Rightarrow> 'a \<Rightarrow> err + 'a) \<Rightarrow> descriptor list \<Rightarrow> 'a \<Rightarrow> v1_hash list
    \<Rightarrow> err + 'a \<times> v1_hash list"
where
  "walkGraph oc fs pre visit d acc seen =
     bindE (pre (length seen)) (\<lambda>_.
     if d_Digest d \<in> set seen then Inr (acc, seen)
     else
       bindE (visit d acc) (\<lambda>acc'.
       bindE (children oc fs d) (\<lambda>kids.
       walkKids oc fs pre visit kids acc' (d_Digest d # seen))))"
| "walkKids oc fs pre visit [] acc seen = Inr (acc, seen)"
| "walkKids oc fs pre visit (kid # kids) acc seen =
     bindE (walkGraph oc fs pre visit kid acc seen) (\<lambda>(acc', seen').
     walkKids oc fs pre visit kids acc' seen')"
  by pat_completeness auto

lemma blobPath_Inr [simp]:
  "blobPath h = Inr p \<longleftrightarrow> h_Algorithm h = ''sha256'' \<and> length (h_Hex h) = 64 \<and> list_all hexDigit (h_Hex h) \<and> p = h_Hex h"
  by (auto simp: blobPath_def)

lemma openFile_Inr [simp]: "openFile fs p = Inr c \<longleftrightarrow> map_of fs p = Some (Regular c)"
  by (auto simp: openFile_def split: option.splits blob_file.splits)

lemma hash_eqI: "h_Hex a = h_Hex b \<Longrightarrow> h_Algorithm a = h_Algorithm b \<Longrightarrow> (a :: v1_hash) = b"
  by (cases a; cases b) simp

definition unseen :: "dir \<Rightarrow> v1_hash list \<Rightarrow> string set" where
  "unseen fs seen = fst ` set fs - h_Hex ` {h \<in> set seen. h_Algorithm h = ''sha256''}"

lemma finite_unseen [simp]: "finite (unseen fs seen)"
  by (simp add: unseen_def)

lemma unseen_mono: "set seen \<subseteq> set seen' \<Longrightarrow> unseen fs seen' \<subseteq> unseen fs seen"
  by (auto simp: unseen_def)

lemma children_unseen:
  assumes "children oc fs d = Inr kids" "kids \<noteq> []" "d_Digest d \<notin> set seen"
  shows "card (unseen fs (d_Digest d # seen)) < card (unseen fs seen)"
proof (rule psubset_card_mono)
  have r: "\<exists>c. map_of fs (h_Hex (d_Digest d)) = Some (Regular c)" and a: "h_Algorithm (d_Digest d) = ''sha256''"
    using assms(1,2) by (auto simp: children_def readBlob_def readFile_def split: if_splits)
  moreover have "h_Hex (d_Digest d) \<notin> h_Hex ` {h \<in> set seen. h_Algorithm h = ''sha256''}"
    using a assms(3) by (auto dest: hash_eqI)
  ultimately have "h_Hex (d_Digest d) \<in> unseen fs seen"
    by (auto simp: unseen_def dest: map_of_SomeD intro: rev_image_eqI)
  moreover have "h_Hex (d_Digest d) \<notin> unseen fs (d_Digest d # seen)"
    using a by (simp add: unseen_def)
  ultimately show "unseen fs (d_Digest d # seen) \<subset> unseen fs seen"
    using unseen_mono [of seen "d_Digest d # seen" fs] by auto
qed simp

lemma walk_seen:
  "walkGraph_walkKids_dom (Inl (oc, fs, pre, visit, d, acc, seen)) \<Longrightarrow>
     walkGraph oc fs pre visit d acc seen = Inr (r, seen') \<Longrightarrow> set seen \<subseteq> set seen'"
  "walkGraph_walkKids_dom (Inr (oc, fs, pre, visit, kids, acc, seen)) \<Longrightarrow>
     walkKids oc fs pre visit kids acc seen = Inr (r, seen') \<Longrightarrow> set seen \<subseteq> set seen'"
proof (induction oc fs pre visit d acc seen and oc fs pre visit kids acc seen
    arbitrary: r seen' and r seen' rule: walkGraph_walkKids.pinduct)
  case (1 oc fs pre visit d acc seen)
  then show ?case by (auto simp: walkGraph.psimps split: if_splits) blast
next
  case (2 oc fs pre visit acc seen)
  then show ?case by (simp add: walkKids.psimps)
next
  case (3 oc fs pre visit kid kids acc seen)
  then show ?case by (auto simp: walkKids.psimps) blast
qed

lemma card_unseen_mono: "set seen \<subseteq> set seen' \<Longrightarrow> card (unseen fs seen') \<le> card (unseen fs seen)"
  by (simp add: card_mono unseen_mono)

lemma card_unseen_Cons: "card (unseen fs (h # seen)) \<le> card (unseen fs seen)"
  by (simp add: card_unseen_mono subset_insertI)

termination walkGraph
proof (relation "measures [\<lambda>x. case x of Inl (oc, fs, pre, visit, d, acc, seen) \<Rightarrow> card (unseen fs seen)
        | Inr (oc, fs, pre, visit, kids, acc, seen) \<Rightarrow> card (unseen fs seen),
      \<lambda>x. case x of Inl _ \<Rightarrow> 1 | Inr (oc, fs, pre, visit, kids, acc, seen) \<Rightarrow> 2 * length kids]", goal_cases)
  case (2 oc fs pre visit d acc seen u acc' kids)
  then show ?case
    using children_unseen [of oc fs d kids seen] card_unseen_Cons [of fs "d_Digest d" seen]
    by (cases "kids = []") auto
next
  case (4 oc fs pre visit kid kids acc seen r acc' seen')
  then show ?case
    using card_unseen_mono [OF walk_seen(1), of oc fs pre visit kid acc seen acc' seen' fs] by auto
qed simp_all

declare walkGraph.simps [simp del]

definition graphSize :: "oci \<Rightarrow> dir \<Rightarrow> descriptor \<Rightarrow> v1_hash list \<Rightarrow> err + int \<times> v1_hash list" where
  "graphSize oc fs d seen = walkGraph oc fs (\<lambda>_. Inr ()) (\<lambda>d n. Inr (n + d_Size d)) d 0 seen"

text \<open>
  \<open>copyGraph\<close> appends one archive member per blob; the tar writer fails when the content has not
  the length of the header.
\<close>

definition copyBlob :: "dir \<Rightarrow> descriptor \<Rightarrow> (string \<times> string) list \<Rightarrow> err + (string \<times> string) list" where
  "copyBlob fs d out =
     bindE (blobPath (d_Digest d)) (\<lambda>p.
     bindE (openFile fs p) (\<lambda>c.
     bindE (guardE (int (length c) = d_Size d) (Msg ''archive/tar: write too long'')) (\<lambda>_.
     Inr (out @ [(''blobs/sha256/'' @ h_Hex (d_Digest d), c)]))))"

definition copyGraph :: "oci \<Rightarrow> dir \<Rightarrow> descriptor \<Rightarrow> (string \<times> string) list \<Rightarrow> err + (string \<times> string) list" where
  "copyGraph oc fs d out = bindE (walkGraph oc fs (ctxErrAt oc) (copyBlob fs) d out []) (\<lambda>(out', _). Inr out')"

end
