(* ===== verification/Graph_Props.thy ===== *)
theory Graph_Props
  imports Image_Graph
begin

text \<open>
  What a successful validation of an image graph means: everything reachable from the root is in
  the directory with the right content, and the walk has counted each blob once.
\<close>

section \<open>Reachable descriptors and intact blobs\<close>

inductive reach :: "oci \<Rightarrow> dir \<Rightarrow> descriptor \<Rightarrow> descriptor \<Rightarrow> bool" for oc fs d where
  reach_root: "reach oc fs d d"
| reach_kid: "reach oc fs d k \<Longrightarrow> children oc fs k = Inr kids \<Longrightarrow> kid \<in> set kids \<Longrightarrow> reach oc fs d kid"

definition content :: "dir \<Rightarrow> v1_hash \<Rightarrow> string option" where
  "content fs h = (case map_of fs (h_Hex h) of Some (Regular c) \<Rightarrow> Some c | _ \<Rightarrow> None)"

definition storedBlob :: "oci \<Rightarrow> dir \<Rightarrow> descriptor \<Rightarrow> bool" where
  "storedBlob oc fs d = (case content fs (d_Digest d) of
     Some c \<Rightarrow> sha256 oc c = d_Digest d \<and> int (length c) = d_Size d
   | None \<Rightarrow> False)"

text \<open>What is checked of a descriptor before its digest is looked up among the seen ones.\<close>

definition acceptable :: "oci \<Rightarrow> dir \<Rightarrow> descriptor \<Rightarrow> bool" where
  "acceptable oc fs d \<longleftrightarrow> d_MediaType d \<noteq> [] \<and> d_URLs d = [] \<and>
     (d_Data d = [] \<or> sha256 oc (d_Data d) = d_Digest d \<and> int (length (d_Data d)) = d_Size d) \<and>
     h_Algorithm (d_Digest d) = ''sha256'' \<and> (\<exists>f. map_of fs (h_Hex (d_Digest d)) = Some f \<and> fileSize f = Some (d_Size d))"

lemma statBlob_Inr:
  "statBlob fs d = Inr p \<longleftrightarrow> blobPath (d_Digest d) = Inr p \<and>
     (\<exists>f. map_of fs p = Some f \<and> fileSize f = Some (d_Size d)) \<and> 0 \<le> d_Size d \<and> d_Size d \<le> MaxArchiveBytes"
  by (auto simp: statBlob_def split: option.splits)

lemma hashFile_Inr:
  "hashFile oc fs p n = Inr (h, l) \<longleftrightarrow>
     (\<exists>c. map_of fs p = Some (Regular c) \<and> h = sha256 oc (take (nat MaxArchiveBytes + 1) c)
        \<and> l = int (length (take (nat MaxArchiveBytes + 1) c))) \<and> ctxErrAt oc n = Inr ()"
  by (auto simp: hashFile_def readFile_def)

lemma reach_trans: "reach oc fs b c \<Longrightarrow> reach oc fs a b \<Longrightarrow> reach oc fs a c"
  by (induction rule: reach.induct) (auto intro: reach_kid)

section \<open>The invariant of the walk\<close>

text \<open>
  \<open>walked starts n seen n' seen'\<close>: the walk from \<open>starts\<close> has entered the descriptors \<open>ds\<close>, whose
  digests are new; each is stored and its children are accepted and seen.
\<close>

definition entered :: "oci \<Rightarrow> dir \<Rightarrow> v1_hash set \<Rightarrow> descriptor \<Rightarrow> bool" where
  "entered oc fs H d \<longleftrightarrow> storedBlob oc fs d \<and>
     (\<exists>kids. children oc fs d = Inr kids \<and> (\<forall>k \<in> set kids. acceptable oc fs k \<and> d_Digest k \<in> H))"

definition walked :: "oci \<Rightarrow> dir \<Rightarrow> descriptor set \<Rightarrow> int \<Rightarrow> v1_hash list \<Rightarrow> int \<Rightarrow> v1_hash list \<Rightarrow> bool" where
  "walked oc fs starts n seen n' seen' \<longleftrightarrow>
     (\<exists>ds. seen' = map d_Digest ds @ seen \<and> n' = n + (\<Sum>d\<leftarrow>ds. d_Size d) \<and>
        (distinct seen \<longrightarrow> distinct seen') \<and>
        (\<forall>d \<in> set ds. entered oc fs (set seen') d \<and> (\<exists>s \<in> starts. reach oc fs s d)) \<and>
        (\<forall>s \<in> starts. acceptable oc fs s \<and> d_Digest s \<in> set seen'))"

lemma entered_mono: "entered oc fs H d \<Longrightarrow> H \<subseteq> H' \<Longrightarrow> entered oc fs H' d"
  by (auto simp: entered_def)

lemma walked_refl: "d_Digest d \<in> set seen \<Longrightarrow> acceptable oc fs d \<Longrightarrow> walked oc fs {d} n seen n seen"
  by (auto simp: walked_def intro: exI [of _ "[]"])

lemma walked_step:
  assumes "walked oc fs {k} 0 seen m seen'" "walked oc fs K (n + m) seen' n' seen''"
  shows "walked oc fs (insert k K) n seen n' seen''"
proof -
  obtain ds where 1: "seen' = map d_Digest ds @ seen" "m = (\<Sum>d\<leftarrow>ds. d_Size d)" "distinct seen \<longrightarrow> distinct seen'"
      "\<forall>d \<in> set ds. entered oc fs (set seen') d \<and> reach oc fs k d" "acceptable oc fs k" "d_Digest k \<in> set seen'"
    using assms(1) by (auto simp: walked_def)
  obtain es where 2: "seen'' = map d_Digest es @ seen'" "n' = n + m + (\<Sum>d\<leftarrow>es. d_Size d)" "distinct seen' \<longrightarrow> distinct seen''"
      "\<forall>d \<in> set es. entered oc fs (set seen'') d \<and> (\<exists>s \<in> K. reach oc fs s d)"
      "\<forall>s \<in> K. acceptable oc fs s \<and> d_Digest s \<in> set seen''"
    using assms(2) by (auto simp: walked_def)
  have "set seen' \<subseteq> set seen''" using 2(1) by auto
  then show ?thesis
    unfolding walked_def using 1 2 by (intro exI [of _ "es @ ds"]) (auto intro: entered_mono)
qed

lemma walked_enter:
  assumes "walked oc fs (set kids) (d_Size d) (d_Digest d # seen) n' seen'" "children oc fs d = Inr kids"
    "storedBlob oc fs d" "acceptable oc fs d" "d_Digest d \<notin> set seen"
  shows "walked oc fs {d} 0 seen n' seen'"
proof -
  obtain ds where 1: "seen' = map d_Digest ds @ d_Digest d # seen" "n' = d_Size d + (\<Sum>d\<leftarrow>ds. d_Size d)"
      "distinct (d_Digest d # seen) \<longrightarrow> distinct seen'"
      "\<forall>x \<in> set ds. entered oc fs (set seen') x \<and> (\<exists>s \<in> set kids. reach oc fs s x)"
      "\<forall>s \<in> set kids. acceptable oc fs s \<and> d_Digest s \<in> set seen'"
    using assms(1) unfolding walked_def by blast
  have "entered oc fs (set seen') d" using 1(5) assms(2,3) by (auto simp: entered_def)
  moreover have "\<forall>x \<in> set ds. reach oc fs d x"
    using 1(4) assms(2) by (meson reach_kid reach_root reach_trans)
  ultimately show ?thesis
    unfolding walked_def using 1 assms(4,5) by (intro exI [of _ "ds @ [d]"]) (auto intro: reach_root)
qed

lemma validate_walked:
  "validateGraph oc fs depth d seen = Inr (n, seen') \<Longrightarrow> walked oc fs {d} 0 seen n seen'"
  "validateKids oc fs depth kids m seen = Inr (n, seen') \<Longrightarrow> walked oc fs (set kids) m seen n seen'"
proof (induction oc fs depth d seen and oc fs depth kids m seen arbitrary: n seen' and n seen'
    rule: validateGraph_validateKids.induct)
  case (1 oc fs depth d seen)
  obtain p where c: "checkDescriptor oc depth (length seen) d = Inr ()" and p: "statBlob fs d = Inr p"
    using "1.prems" by (auto simp: validateGraph.simps [of oc fs depth d seen])
  have a: "acceptable oc fs d"
    using c p by (auto simp: acceptable_def checkDescriptor_def statBlob_Inr)
  show ?case
  proof (cases "d_Digest d \<in> set seen")
    case True
    then show ?thesis using "1.prems" c p a by (simp add: validateGraph.simps walked_refl)
  next
    case False
    then obtain kids where h: "hashFile oc fs p (Suc (length seen)) = Inr (d_Digest d, d_Size d)"
        and k: "children oc fs d = Inr kids" and v: "validateKids oc fs depth kids (d_Size d) (d_Digest d # seen) = Inr (n, seen')"
      using "1.prems" c p by (auto simp: validateGraph.simps [of oc fs depth d seen])
    have "storedBlob oc fs d"
      using h p by (auto simp: storedBlob_def content_def hashFile_Inr statBlob_Inr fileSize_def min_def split: if_splits)
    moreover have "walked oc fs (set kids) (d_Size d) (d_Digest d # seen) n seen'"
      using "1.IH" [OF c p False h refl _ k v] by simp
    ultimately show ?thesis using k a False by (blast intro: walked_enter)
  qed
next
  case (2 oc fs depth n seen)
  then show ?case by (auto simp: walked_def)
next
  case (3 oc fs depth kid kids m seen)
  then show ?case by (fastforce intro: walked_step)
qed

text \<open>The walk adds a digest only below its limit, and stops when the sum passes the disk budget.\<close>

lemma validate_bounds:
  "validateGraph oc fs depth d seen = Inr (n, seen') \<Longrightarrow> n \<le> MaxArchiveBytes \<and> length seen' \<le> max 100001 (length seen)"
  "validateKids oc fs depth kids m seen = Inr (n, seen') \<Longrightarrow>
     (m \<le> MaxArchiveBytes \<longrightarrow> n \<le> MaxArchiveBytes) \<and> length seen' \<le> max 100001 (length seen)"
proof (induction oc fs depth d seen and oc fs depth kids m seen arbitrary: n seen' and n seen'
    rule: validateGraph_validateKids.induct)
  case (1 oc fs depth d seen)
  then show ?case
    by (fastforce simp: validateGraph.simps [of oc fs depth d seen] statBlob_Inr checkDescriptor_def MaxArchiveBytes_def
        split: if_splits)
next
  case (2 oc fs depth n seen)
  then show ?case by auto
next
  case (3 oc fs depth kid kids m seen)
  then show ?case by fastforce
qed

section \<open>The meaning of a validation\<close>

lemma children_cong:
  "d_Digest x = d_Digest y \<Longrightarrow> d_Size x = d_Size y \<Longrightarrow> d_MediaType x = d_MediaType y \<Longrightarrow>
     children oc fs x = children oc fs y"
  by (simp add: children_def readBlob_def)

text \<open>The media type is a function of the digest, over what is reachable from \<open>d\<close>.\<close>

definition typed_by_digest :: "oci \<Rightarrow> dir \<Rightarrow> descriptor \<Rightarrow> bool" where
  "typed_by_digest oc fs d \<longleftrightarrow> (\<forall>x y. reach oc fs d x \<longrightarrow> reach oc fs d y \<longrightarrow>
     d_Digest x = d_Digest y \<longrightarrow> d_MediaType x = d_MediaType y)"

definition blobLength :: "dir \<Rightarrow> v1_hash \<Rightarrow> int" where
  "blobLength fs h = (case content fs h of Some c \<Rightarrow> int (length c) | None \<Rightarrow> 0)"

lemma stored_length: "storedBlob oc fs d \<Longrightarrow> blobLength fs (d_Digest d) = d_Size d"
  by (auto simp: storedBlob_def blobLength_def split: option.splits)

lemma acceptable_stored:
  "acceptable oc fs x \<Longrightarrow> storedBlob oc fs y \<Longrightarrow> d_Digest x = d_Digest y \<Longrightarrow> storedBlob oc fs x \<and> d_Size x = d_Size y"
  by (auto simp: acceptable_def storedBlob_def content_def fileSize_def split: option.splits blob_file.splits)

lemma reach_entered:
  assumes w: "walked oc fs {d} 0 [] n seen" and t: "typed_by_digest oc fs d" and r: "reach oc fs d x"
  shows "acceptable oc fs x \<and> entered oc fs (set seen) x \<and> d_Digest x \<in> set seen"
proof -
  obtain ds where ds: "seen = map d_Digest ds" "\<forall>y \<in> set ds. entered oc fs (set seen) y \<and> reach oc fs d y"
      and d: "acceptable oc fs d" "d_Digest d \<in> set seen"
    using w unfolding walked_def by auto
  have *: "entered oc fs (set seen) z" if z: "reach oc fs d z" "acceptable oc fs z" "d_Digest z \<in> set seen" for z
  proof -
    obtain y where y: "y \<in> set ds" "d_Digest z = d_Digest y" using z(3) ds(1) by auto
    have "reach oc fs d y" using y(1) ds(2) by blast
    then have "d_MediaType z = d_MediaType y"
      using t [unfolded typed_by_digest_def, rule_format, OF z(1) _ y(2)] by blast
    moreover have st: "storedBlob oc fs z \<and> d_Size z = d_Size y"
      by (rule acceptable_stored [OF z(2) _ y(2)]) (use y ds(2) in \<open>simp add: entered_def\<close>)
    ultimately have "children oc fs z = children oc fs y"
      using y(2) by (intro children_cong) simp_all
    moreover have "entered oc fs (set seen) y" using y(1) ds(2) by blast
    ultimately show ?thesis using st by (simp add: entered_def)
  qed
  from r show ?thesis
  proof (induction rule: reach.induct)
    case reach_root
    show ?case using d * [OF reach.reach_root d] by simp
  next
    case (reach_kid k kids kid)
    then have "acceptable oc fs kid" "d_Digest kid \<in> set seen" by (auto simp: entered_def)
    with * [OF reach.reach_kid [OF reach_kid.hyps] this] show ?case by simp
  qed
qed


text \<open>A one-layer image: the store and decoders of the examples.\<close>

definition exHash :: "string \<Rightarrow> v1_hash" where
  "exHash c = \<lparr>h_Algorithm = ''sha256'', h_Hex = replicate 64 (''0abcdef'' ! length c)\<rparr>"

definition exDesc :: "string \<Rightarrow> string \<Rightarrow> descriptor" where
  "exDesc mt c = \<lparr>d_MediaType = mt, d_Size = int (length c), d_Digest = exHash c, d_URLs = [], d_Data = [],
     d_Platform = None, d_RefName = ''app''\<rparr>"

definition exPlatform :: v1_platform where
  "exPlatform = \<lparr>v_OS = ''linux'', v_Architecture = ''arm64'', v_Variant = []\<rparr>"

definition exOci :: oci where
  "exOci = \<lparr>oci_sha = (\<lambda>b. replicate 64 (''0abcdef'' ! length b)),
     oci_index = (\<lambda>_. Inr \<lparr>ix_SchemaVersion = 2, ix_Manifests = [exDesc ''image'' ''aaa'']\<rparr>),
     oci_manifest = (\<lambda>_. Inr \<lparr>mf_SchemaVersion = 2, mf_Config = exDesc ''config'' ''a'', mf_Layers = [exDesc ''layer.tar'' ''aa'']\<rparr>),
     oci_config = (\<lambda>_. Inr \<lparr>cf_Platform = exPlatform, cf_RootFSType = ''layers'', cf_DiffIDs = [exHash ''aa''], cf_Created = []\<rparr>),
     oci_isIndex = (\<lambda>_. False), oci_isImage = (\<lambda>mt. mt = ''image''), oci_gunzip = (\<lambda>_. Inl (Msg [])),
     oci_unzstd = (\<lambda>_. Inl (Msg [])), oci_cancel = (\<lambda>_. None)\<rparr>"

definition exDir :: dir where
  "exDir = [(replicate 64 CHR ''a'', Regular ''a''), (replicate 64 CHR ''b'', Regular ''aa''), (replicate 64 CHR ''c'', Regular ''aaa'')]"

lemmas example_eval = exHash_def exDesc_def exPlatform_def exOci_def exDir_def sha256_def checkDescriptor_def statBlob_def
  hashFile_def readFile_def openFile_def readBlob_def blobPath_def children_def ctxErrAt_def fileSize_def hexDigit_def
  isDigit_def MaxArchiveBytes_def maxMetadataBytes_def guardE_def list_all_iff


text \<open>
  Without the hypothesis on media types it is not complete: when an index lists one digest first as
  a plain layer and then as an image, the second entry is taken as seen, and the config and the
  layer of the image may be missing.
\<close>

definition exTwice :: oci where
  "exTwice = exOci\<lparr>oci_isIndex := (\<lambda>mt. mt = ''index''), oci_index := (\<lambda>_. Inr \<lparr>ix_SchemaVersion = 2,
     ix_Manifests = [exDesc ''layer'' ''aaa'', exDesc ''image'' ''aaa'']\<rparr>)\<rparr>"

definition exTwiceDir :: dir where
  "exTwiceDir = [(replicate 64 CHR ''c'', Regular ''aaa''), (replicate 64 CHR ''d'', Regular ''aaaa'')]"

lemma digest_listed_twice_is_not_descended:
  "(\<exists>r. validateGraph exTwice exTwiceDir 0 (exDesc ''index'' ''aaaa'') [] = Inr r) \<and>
   reach exTwice exTwiceDir (exDesc ''index'' ''aaaa'') (exDesc ''config'' ''a'') \<and>
   \<not> storedBlob exTwice exTwiceDir (exDesc ''config'' ''a'')"
proof (intro conjI)
  show "\<exists>r. validateGraph exTwice exTwiceDir 0 (exDesc ''index'' ''aaaa'') [] = Inr r"
    by (simp add: validateGraph.simps example_eval exTwice_def exTwiceDir_def)
  have a: "children exTwice exTwiceDir (exDesc ''index'' ''aaaa'') = Inr [exDesc ''layer'' ''aaa'', exDesc ''image'' ''aaa'']"
    and b: "children exTwice exTwiceDir (exDesc ''image'' ''aaa'') = Inr [exDesc ''config'' ''a'', exDesc ''layer.tar'' ''aa'']"
    by (simp_all add: example_eval exTwice_def exTwiceDir_def)
  have "reach exTwice exTwiceDir (exDesc ''index'' ''aaaa'') (exDesc ''image'' ''aaa'')"
    by (rule reach_kid [OF reach_root a]) simp
  from reach_kid [OF this b] show "reach exTwice exTwiceDir (exDesc ''index'' ''aaaa'') (exDesc ''config'' ''a'')"
    by simp
  show "\<not> storedBlob exTwice exTwiceDir (exDesc ''config'' ''a'')"
    by (simp add: storedBlob_def content_def exDesc_def exHash_def exTwiceDir_def)
qed

end
