(* ===== verification/Image_Store.thy ===== *)
theory Image_Store
  imports Image_Graph "HOL-Library.Product_Lexorder"
begin

text \<open>
  \<open>src/internal/images/store.go\<close>, \<open>verified.go\<close>, \<open>publish.go\<close>, \<open>content.go\<close> and \<open>artifact.go\<close>: the
  catalog of references, its transactions, verified content and the image queries.

  The state \<open>imgs\<close> is the disk that processes share (the blobs, the catalog, the layout's index and
  version file), the staging directory of the running operation and the process-local cache of
  verified graphs. Everything outside is the record \<open>image_env\<close>: the outcome of each file operation
  and of each look at the context by its tick, the order in which Go ranges over a map, the
  reference parser, and what other processes do to the disk while no lock is held.
\<close>

section \<open>State\<close>

record entry =
  e_Root :: descriptor
  e_Prepared :: "(string \<times> descriptor) list"

type_synonym catalog = "(string \<times> entry) list"

text \<open>\<open>catalog.json\<close>: missing, not JSON, JSON without references, or a catalog.\<close>

datatype catalog_file = Absent | Garbled err | NoReferences | References catalog

text \<open>What \<open>os.Lstat\<close> tells of a file besides its kind and size; \<open>st_Change\<close> is its change time.\<close>

record stat =
  st_File :: nat
  st_ModTime :: int
  st_Mode :: nat
  st_Change :: nat

record file_stamp = stat +
  st_Size :: int

record verified_graph =
  vg_files :: "(string \<times> file_stamp) list"
  vg_size :: int

type_synonym graph_key = "v1_hash \<times> int \<times> string"

record disk =
  dk_blobs :: dir
  dk_stat :: "string \<Rightarrow> stat"
  dk_catalog :: catalog_file
  dk_index :: "descriptor list option"
  dk_layout :: "string option"

record imgs =
  im_disk :: disk
  im_stage :: dir
  im_cache :: "(graph_key \<times> verified_graph) list"
  im_tick :: nat

type_synonym 'a ip = "(imgs, 'a) prog"

text \<open>A parsed reference: its full name, its repository and, for a reference by digest, the digest.\<close>

record ref_name =
  rn_Name :: string
  rn_Repository :: string
  rn_Digest :: "string option"

record image_env =
  ie_oci :: oci
  ie_io :: "nat \<Rightarrow> err option"
  ie_ctx :: "nat \<Rightarrow> nat \<Rightarrow> err option"
  ie_range :: "nat \<Rightarrow> string list \<Rightarrow> string list"
  ie_parse :: "string \<Rightarrow> err + ref_name"
  ie_layout :: "string \<Rightarrow> err + string"
  ie_platform :: "v1_platform \<Rightarrow> string"
  ie_outside :: "nat \<Rightarrow> disk \<Rightarrow> disk"

abbreviation im_blobs :: "imgs \<Rightarrow> dir" where
  "im_blobs s \<equiv> dk_blobs (im_disk s)"

definition onDisk :: "(disk \<Rightarrow> disk) \<Rightarrow> imgs \<Rightarrow> imgs" where
  "onDisk f s = s\<lparr>im_disk := f (im_disk s)\<rparr>"

definition tickI :: "imgs \<Rightarrow> imgs" where
  "tickI s = s\<lparr>im_tick := Suc (im_tick s)\<rparr>"

definition fromE :: "(imgs \<Rightarrow> err + 'a) \<Rightarrow> 'a ip" where
  "fromE f = andThen (reads f) (\<lambda>r. case r of Inl e \<Rightarrow> throw e | Inr x \<Rightarrow> ret x)"

text \<open>A file operation, a look at the context, and a moment at which other processes may run.\<close>

definition io :: "image_env \<Rightarrow> unit ip" where
  "io E = after (fromE (\<lambda>s. case ie_io E (im_tick s) of Some e \<Rightarrow> Inl e | None \<Rightarrow> Inr ())) tickI"

definition poll :: "image_env \<Rightarrow> unit ip" where
  "poll E = after (fromE (\<lambda>s. case ie_ctx E (im_tick s) 0 of Some e \<Rightarrow> Inl e | None \<Rightarrow> Inr ())) tickI"

definition outside :: "image_env \<Rightarrow> unit ip" where
  "outside E = modify (\<lambda>s. tickI (onDisk (ie_outside E (im_tick s)) s))"

definition walkOci :: "image_env \<Rightarrow> imgs \<Rightarrow> oci" where
  "walkOci E s = (ie_oci E)\<lparr>oci_cancel := ie_ctx E (im_tick s)\<rparr>"

text \<open>The pairs of a map in the order of one \<open>range\<close> statement.\<close>

definition range_map :: "image_env \<Rightarrow> nat \<Rightarrow> (string \<times> 'v) list \<Rightarrow> (string \<times> 'v) list" where
  "range_map E site m = List.map_filter (\<lambda>k. map_option (Pair k) (map_of m k)) (ie_range E site (remdups (map fst m)))"

definition digestString :: "v1_hash \<Rightarrow> string" where
  "digestString h = h_Algorithm h @ '':'' @ h_Hex h"

section \<open>Transactions\<close>

definition readCatalog :: "image_env \<Rightarrow> catalog ip" where
  "readCatalog E = andThen (io E) (\<lambda>_. fromE (\<lambda>s. case dk_catalog (im_disk s) of
      Absent \<Rightarrow> Inr []
    | Garbled e \<Rightarrow> Inl e
    | NoReferences \<Rightarrow> Inl (Msg ''invalid image catalog'')
    | References c \<Rightarrow> Inr c))"

fun addUntagged :: "descriptor list \<Rightarrow> descriptor list \<Rightarrow> descriptor list" where
  "addUntagged [] out = out"
| "addUntagged (d # ds) out =
     (if d_Digest d \<in> d_Digest ` set out then addUntagged ds out
      else addUntagged ds (out @ [d\<lparr>d_RefName := []\<rparr>]))"

text \<open>The manifests of \<open>index.json\<close>: every reference, then prepared manifests not yet named.\<close>

definition indexManifests :: "image_env \<Rightarrow> catalog \<Rightarrow> descriptor list" where
  "indexManifests E c =
     sort_key (\<lambda>d. (digestString (d_Digest d), d_RefName d))
       (addUntagged (concat (map (\<lambda>(ref, e). map snd (range_map E 2 (e_Prepared e))) (range_map E 1 c)))
         (map (\<lambda>(ref, e). (e_Root e)\<lparr>d_RefName := ref\<rparr>) (range_map E 0 c)))"

definition writeIndex :: "image_env \<Rightarrow> catalog \<Rightarrow> unit ip" where
  "writeIndex E c =
     andThen (io E) (\<lambda>_.
     andThen (reads (\<lambda>s. dk_index (im_disk s))) (\<lambda>previous.
     if previous = Some (indexManifests E c) then ret ()
     else andThen (io E) (\<lambda>_. modify (onDisk (dk_index_update (\<lambda>_. Some (indexManifests E c)))))))"

text \<open>Multiple tags for the same immutable root share platform availability.\<close>

definition preparedOf :: "image_env \<Rightarrow> catalog \<Rightarrow> v1_hash \<Rightarrow> (string \<times> descriptor) list" where
  "preparedOf E c h =
     fold (\<lambda>(p, d). store p d)
       (concat (map (\<lambda>(ref, e). if d_Digest (e_Root e) = h then range_map E 4 (e_Prepared e) else []) (range_map E 3 c))) []"

definition sharePrepared :: "image_env \<Rightarrow> catalog \<Rightarrow> catalog" where
  "sharePrepared E c = map (\<lambda>(ref, e). (ref, e\<lparr>e_Prepared := preparedOf E c (d_Digest (e_Root e))\<rparr>)) c"

definition commitCatalog :: "image_env \<Rightarrow> catalog \<Rightarrow> unit ip" where
  "commitCatalog E c =
     andThen (writeIndex E c) (\<lambda>_.
     andThen (io E) (\<lambda>_.
     modify (onDisk (dk_catalog_update (\<lambda>_. References c)))))"

text \<open>
  The two locks are one file operation; their wait ends with the lock or the context's error. Other
  processes run before the lock is held, not while it is.
\<close>

definition imageTransaction :: "image_env \<Rightarrow> (catalog \<Rightarrow> (catalog \<times> 'a) ip) \<Rightarrow> bool \<Rightarrow> 'a ip" where
  "imageTransaction E fn write =
     andThen (outside E) (\<lambda>_.
     andThen (io E) (\<lambda>_.
     andThen (readCatalog E) (\<lambda>c.
     andThen (writeIndex E c) (\<lambda>_.
     andThen (fn c) (\<lambda>(c', r).
     if \<not> write then ret r
     else andThen (commitCatalog E (sharePrepared E c')) (\<lambda>_. ret r))))))"

definition OpenStore :: "image_env \<Rightarrow> unit ip" where
  "OpenStore E =
     andThen (io E) (\<lambda>_.
     imageTransaction E (\<lambda>c.
       andThen (reads (\<lambda>s. dk_layout (im_disk s))) (\<lambda>layout.
       case layout of
         Some b \<Rightarrow> andThen (failIf (ie_layout E b \<noteq> Inr ''1.0.0'') (Msg ''invalid owned OCI layout version'')) (\<lambda>_. ret (c, ()))
       | None \<Rightarrow>
           andThen (io E) (\<lambda>_.
           andThen (modify (onDisk (dk_layout_update (\<lambda>_. Some ''{\"imageLayoutVersion\":\"1.0.0\"}'')))) (\<lambda>_.
           ret (c, ()))))) False)"

definition referenceKey :: "image_env \<Rightarrow> string \<Rightarrow> string option" where
  "referenceKey E ref = (case ie_parse E ref of Inr r \<Rightarrow> Some (rn_Name r) | Inl e \<Rightarrow> None)"

text \<open>A reference by name, or the first root that \<open>range\<close> meets with this digest.\<close>

definition lookupRef :: "image_env \<Rightarrow> catalog \<Rightarrow> string \<Rightarrow> err + entry" where
  "lookupRef E c ref =
     (case Option.bind (referenceKey E ref) (map_of c) of
        Some e \<Rightarrow> Inr e
      | None \<Rightarrow>
          (case find (\<lambda>(k, e). digestString (d_Digest (e_Root e)) = ref) (range_map E 5 c) of
             Some (k, e) \<Rightarrow> Inr e
           | None \<Rightarrow> Inl ErrImageNotFound))"

definition removeFrom :: "image_env \<Rightarrow> string \<Rightarrow> bool \<Rightarrow> catalog \<Rightarrow> err + catalog" where
  "removeFrom E ref force c =
     (case lookupRef E c ref of
        Inl e \<Rightarrow> if force \<and> errors_is e ErrImageNotFound then Inr c else Inl e
      | Inr e \<Rightarrow>
          (case referenceKey E ref of
             Some key \<Rightarrow>
               if key \<in> fst ` set c then Inr (remove_key key c)
               else Inr (filter (\<lambda>(k, item). d_Digest (e_Root item) \<noteq> d_Digest (e_Root e)) c)
           | None \<Rightarrow> Inr (filter (\<lambda>(k, item). d_Digest (e_Root item) \<noteq> d_Digest (e_Root e)) c)))"

definition RemoveImage :: "image_env \<Rightarrow> string \<Rightarrow> bool \<Rightarrow> unit ip" where
  "RemoveImage E ref force =
     imageTransaction E (\<lambda>c. fromE (\<lambda>_. bindE (removeFrom E ref force c) (\<lambda>c'. Inr (c', ())))) True"

section \<open>Verified content\<close>

text \<open>\<open>stamp\<close>: only a regular file has one.\<close>

definition stampOf :: "disk \<Rightarrow> string \<Rightarrow> err + file_stamp" where
  "stampOf dk p =
     (case map_of (dk_blobs dk) p of
        None \<Rightarrow> Inl (Msg ''no such file'')
      | Some f \<Rightarrow>
          (case fileSize f of
             None \<Rightarrow> Inl (Msg ''OCI blob is not a regular file'')
           | Some n \<Rightarrow> Inr (stat.extend (dk_stat dk p) \<lparr>st_Size = n\<rparr>)))"

text \<open>The stamps of the graph, by path; the walk takes the children of each new file.\<close>

function collectStamps :: "oci \<Rightarrow> disk \<Rightarrow> nat \<Rightarrow> descriptor \<Rightarrow> (string \<times> file_stamp) list \<Rightarrow> err + (string \<times> file_stamp) list"
  and collectKids :: "oci \<Rightarrow> disk \<Rightarrow> nat \<Rightarrow> descriptor list \<Rightarrow> (string \<times> file_stamp) list \<Rightarrow> err + (string \<times> file_stamp) list"
where
  "collectStamps oc dk depth d files =
     bindE (guardE (depth \<le> 16 \<and> length files \<le> 100000) (Msg ''OCI graph exceeds limits'')) (\<lambda>_.
     bindE (blobPath (d_Digest d)) (\<lambda>p.
     if p \<in> fst ` set files then Inr files
     else
       bindE (stampOf dk p) (\<lambda>st.
       bindE (children oc (dk_blobs dk) d) (\<lambda>kids.
       collectKids oc dk depth kids ((p, st) # files)))))"
| "collectKids oc dk depth [] files = Inr files"
| "collectKids oc dk depth (kid # kids) files =
     bindE (collectStamps oc dk (Suc depth) kid files) (\<lambda>files'. collectKids oc dk depth kids files')"
  by pat_completeness auto

termination
  by (relation "measures [\<lambda>x. case x of Inl (oc, dk, depth, d, files) \<Rightarrow> 2 * (18 - depth)
        | Inr (oc, dk, depth, kids, files) \<Rightarrow> 2 * (18 - depth) - 1,
      \<lambda>x. case x of Inl _ \<Rightarrow> 0 | Inr (oc, dk, depth, kids, files) \<Rightarrow> length kids]") auto

declare collectStamps.simps [simp del]

definition graphKey :: "descriptor \<Rightarrow> graph_key" where
  "graphKey d = (d_Digest d, d_Size d, d_MediaType d)"

text \<open>A cached graph counts while the stamp of each of its files is the recorded one.\<close>

fun stampsHold :: "image_env \<Rightarrow> (string \<times> file_stamp) list \<Rightarrow> bool ip" where
  "stampsHold E [] = ret True"
| "stampsHold E ((p, old) # files) =
     andThen (poll E) (\<lambda>_.
     andThen (reads (\<lambda>s. stampOf (im_disk s) p)) (\<lambda>now.
     if now = Inr old then stampsHold E files else ret False))"

definition sameStamps :: "disk \<Rightarrow> (string \<times> file_stamp) list \<Rightarrow> err + unit" where
  "sameStamps dk files =
     (if list_all (\<lambda>(p, old). stampOf dk p = Inr old) files then Inr ()
      else Inl (Msg ''OCI content changed during validation''))"

definition remember :: "descriptor \<Rightarrow> (string \<times> file_stamp) list \<Rightarrow> int \<Rightarrow> imgs \<Rightarrow> imgs" where
  "remember d files n s =
     (if length files \<le> 256
      then s\<lparr>im_cache := store (graphKey d) \<lparr>vg_files = files, vg_size = n\<rparr>
              (if length (im_cache s) \<ge> 64 then [] else im_cache s)\<rparr>
      else s)"

text \<open>The verification holds no lock: other processes may run between its phases.\<close>

definition verifyGraph :: "image_env \<Rightarrow> descriptor \<Rightarrow> int ip" where
  "verifyGraph E d =
     andThen (fromE (\<lambda>s. collectStamps (ie_oci E) (im_disk s) 0 d [])) (\<lambda>files.
     andThen (outside E) (\<lambda>_.
     andThen (fromE (\<lambda>s. validateGraph (walkOci E s) (im_blobs s) 0 d [])) (\<lambda>(n, seen).
     andThen (outside E) (\<lambda>_.
     andThen (fromE (\<lambda>s. validateLayers (walkOci E s) (im_blobs s) d)) (\<lambda>_.
     andThen (outside E) (\<lambda>_.
     andThen (fromE (\<lambda>s. sameStamps (im_disk s) files)) (\<lambda>_.
     andThen (modify (remember d files n)) (\<lambda>_.
     ret n))))))))"

definition verified :: "image_env \<Rightarrow> descriptor \<Rightarrow> int ip" where
  "verified E d =
     andThen (failIf (\<not> oci_isImage (ie_oci E) (d_MediaType d)) (Msg ''prepared artifact is not an image'')) (\<lambda>_.
     andThen (reads (\<lambda>s. map_of (im_cache s) (graphKey d))) (\<lambda>cached.
     case cached of
       None \<Rightarrow> verifyGraph E d
     | Some g \<Rightarrow>
         andThen (stampsHold E (vg_files g)) (\<lambda>hold.
         if hold then ret (vg_size g) else verifyGraph E d)))"

section \<open>Queries\<close>

text \<open>\<open>content.go\<close>: the image is built from a descriptor, not from a mutable tag.\<close>

record local_content =
  lc_descriptor :: descriptor
  lc_manifest :: manifest
  lc_raw :: string
  lc_config :: string

definition contentAt :: "oci \<Rightarrow> dir \<Rightarrow> descriptor \<Rightarrow> err + local_content" where
  "contentAt oc fs d =
     bindE (readBlob oc fs d) (\<lambda>raw.
     bindE (oci_manifest oc raw) (\<lambda>m.
     bindE (readBlob oc fs (mf_Config m)) (\<lambda>config.
     Inr \<lparr>lc_descriptor = d, lc_manifest = m, lc_raw = raw, lc_config = config\<rparr>)))"

definition LayerByDigest :: "local_content \<Rightarrow> v1_hash \<Rightarrow> err + descriptor" where
  "LayerByDigest i h =
     (case find (\<lambda>d. d_Digest d = h) (mf_Config (lc_manifest i) # mf_Layers (lc_manifest i)) of
        Some d \<Rightarrow> Inr d
      | None \<Rightarrow> Inl (Msg ''unknown OCI blob''))"

definition Compressed :: "dir \<Rightarrow> descriptor \<Rightarrow> err + string" where
  "Compressed fs d = bindE (blobPath (d_Digest d)) (\<lambda>p. openFile fs p)"

record artifact =
  ar_Root :: descriptor
  ar_Manifest :: descriptor
  ar_Image :: local_content

definition ResolveRef :: "image_env \<Rightarrow> string \<Rightarrow> v1_platform \<Rightarrow> artifact ip" where
  "ResolveRef E ref platform =
     andThen (imageTransaction E (\<lambda>c. fromE (\<lambda>_. bindE (lookupRef E c ref) (\<lambda>e. Inr (c, e)))) False) (\<lambda>e.
     andThen (outside E) (\<lambda>_.
     andThen (fromE (\<lambda>s. readBlob (ie_oci E) (im_blobs s) (e_Root e))) (\<lambda>_.
     case map_of (e_Prepared e) (ie_platform E (canonicalPlatform platform)) of
       None \<Rightarrow> throw (Wrap ''is not prepared; explicitly pull/import this platform'' ErrUnsupported)
     | Some d \<Rightarrow>
         andThen (verified E d) (\<lambda>_.
         andThen (fromE (\<lambda>s. contentAt (ie_oci E) (im_blobs s) d)) (\<lambda>img.
         ret \<lparr>ar_Root = e_Root e, ar_Manifest = d, ar_Image = img\<rparr>)))))"

text \<open>\<open>artifact.go\<close>: the digests handed to a runtime's cache; the config's name is its digest.\<close>

record image_handle =
  ih_RootDigest :: string
  ih_ManifestDigest :: string
  ih_ConfigDigest :: string
  ih_Platform :: v1_platform
  ih_Content :: local_content

definition ResolveImage :: "image_env \<Rightarrow> string \<Rightarrow> v1_platform \<Rightarrow> image_handle ip" where
  "ResolveImage E ref p =
     andThen (ResolveRef E ref p) (\<lambda>a.
     ret \<lparr>ih_RootDigest = digestString (d_Digest (ar_Root a)), ih_ManifestDigest = digestString (d_Digest (ar_Manifest a)),
       ih_ConfigDigest = digestString (sha256 (ie_oci E) (lc_config (ar_Image a))), ih_Platform = p, ih_Content = ar_Image a\<rparr>)"

definition ValidateHandle :: "image_env \<Rightarrow> artifact \<Rightarrow> unit ip" where
  "ValidateHandle E a = andThen (verified E (ar_Manifest a)) (\<lambda>_. ret ())"

record image_summary =
  is_ID :: string
  is_Tags :: "string list"
  is_Size :: int

text \<open>The size of an image: its prepared variants, blobs they share counted once.\<close>

fun preparedSize :: "image_env \<Rightarrow> descriptor list \<Rightarrow> int \<Rightarrow> v1_hash list \<Rightarrow> int ip" where
  "preparedSize E [] n seen = ret n"
| "preparedSize E (d # ds) n seen =
     andThen (verified E d) (\<lambda>_.
     andThen (fromE (\<lambda>s. graphSize (ie_oci E) (im_blobs s) d seen)) (\<lambda>(m, seen').
     preparedSize E ds (n + m) seen'))"

fun addTag :: "string \<Rightarrow> string \<Rightarrow> image_summary list \<Rightarrow> image_summary list" where
  "addTag i ref [] = []"
| "addTag i ref (x # xs) = (if is_ID x = i then x\<lparr>is_Tags := is_Tags x @ [ref]\<rparr> # xs else x # addTag i ref xs)"

fun summarise :: "image_env \<Rightarrow> catalog \<Rightarrow> image_summary list \<Rightarrow> image_summary list ip" where
  "summarise E [] out = ret out"
| "summarise E ((ref, e) # c) out =
     (let i = digestString (d_Digest (e_Root e)) in
      if i \<in> is_ID ` set out then summarise E c (addTag i ref out)
      else
        andThen (preparedSize E (map snd (range_map E 7 (e_Prepared e))) 0 []) (\<lambda>n.
        summarise E c (out @ [\<lparr>is_ID = i, is_Tags = [ref], is_Size = n\<rparr>])))"

definition ListImages :: "image_env \<Rightarrow> image_summary list ip" where
  "ListImages E =
     andThen (imageTransaction E (\<lambda>c. ret (c, c)) False) (\<lambda>entries.
     andThen (outside E) (\<lambda>_.
     andThen (summarise E (range_map E 6 entries) []) (\<lambda>items.
     ret (sort_key is_ID (map (\<lambda>x. x\<lparr>is_Tags := sort (is_Tags x)\<rparr>) items)))))"

record image_detail =
  im_Summary :: image_summary
  im_Created :: string
  im_OS :: string
  im_Architecture :: string

definition InspectImage :: "image_env \<Rightarrow> string \<Rightarrow> v1_platform \<Rightarrow> image_detail ip" where
  "InspectImage E ref p =
     andThen (ResolveRef E ref p) (\<lambda>a.
     andThen (fromE (\<lambda>_. oci_config (ie_oci E) (lc_config (ar_Image a)))) (\<lambda>cfg.
     andThen (ListImages E) (\<lambda>items.
     case find (\<lambda>x. is_ID x = digestString (d_Digest (ar_Root a))) items of
       Some x \<Rightarrow> ret \<lparr>im_Summary = x, im_Created = cf_Created cfg, im_OS = v_OS (cf_Platform cfg),
                   im_Architecture = v_Architecture (cf_Platform cfg)\<rparr>
     | None \<Rightarrow> throw ErrImageNotFound)))"

section \<open>Publication\<close>

text \<open>A rename puts the staged file in place of the stored one, with the status of a new file.\<close>

definition renameIn :: "string \<Rightarrow> blob_file \<Rightarrow> stat \<Rightarrow> imgs \<Rightarrow> imgs" where
  "renameIn p f st s = onDisk (\<lambda>dk. dk\<lparr>dk_blobs := store p f (dk_blobs dk), dk_stat := (dk_stat dk)(p := st)\<rparr>)
     (s\<lparr>im_stage := remove_key p (im_stage s)\<rparr>)"

fun moveBlobs :: "image_env \<Rightarrow> (string \<Rightarrow> stat) \<Rightarrow> dir \<Rightarrow> unit ip" where
  "moveBlobs E st [] = ret ()"
| "moveBlobs E st ((p, f) # files) =
     andThen (poll E) (\<lambda>_.
     andThen (io E) (\<lambda>_.
     andThen (modify (renameIn p f (st p))) (\<lambda>_.
     moveBlobs E st files)))"

text \<open>A republished root keeps the platforms that were prepared before.\<close>

definition mergeEntry :: "catalog \<Rightarrow> string \<Rightarrow> entry \<Rightarrow> entry" where
  "mergeEntry c key e =
     (case map_of c key of
        Some old \<Rightarrow>
          if d_Digest (e_Root old) = d_Digest (e_Root e)
          then e\<lparr>e_Prepared := fold (\<lambda>(p, d) m. if p \<in> fst ` set m then m else store p d m) (e_Prepared old) (e_Prepared e)\<rparr>
          else e
      | None \<Rightarrow> e)"

definition mergeEntries :: "image_env \<Rightarrow> catalog \<Rightarrow> catalog \<Rightarrow> catalog" where
  "mergeEntries E entries c = fold (\<lambda>(key, e) c. store key (mergeEntry c key e) c) (range_map E 8 entries) c"

definition publish :: "image_env \<Rightarrow> (string \<Rightarrow> stat) \<Rightarrow> catalog \<Rightarrow> unit ip" where
  "publish E st entries =
     andThen (io E) (\<lambda>_.
     andThen (reads im_stage) (\<lambda>files.
     imageTransaction E (\<lambda>c.
       andThen (poll E) (\<lambda>_.
       andThen (moveBlobs E st files) (\<lambda>_.
       ret (mergeEntries E entries c, ())))) True))"

end
