(* ===== verification/Image_Transfer.thy ===== *)
theory Image_Transfer
  imports Image_Store
begin

text \<open>
  \<open>src/internal/images/archive.go\<close> and \<open>pull.go\<close>: import and export of OCI archives and the pull of
  an image from a registry. All three work on private files and then publish, or publish nothing.

  The framing of tar, gzip and the registry protocol are libraries: an archive arrives as the
  members that the tar reader returns with the bytes consumed so far, a registry as the record
  \<open>registry\<close> of its answers.
\<close>

section \<open>Import\<close>

datatype tar_type = TypeReg | TypeDir | TypeOther

text \<open>\<open>tm_Read\<close> is what reading the member gives; \<open>tm_Consumed\<close> the bytes taken from the limited reader.\<close>

record tar_member =
  tm_Name :: string
  tm_Type :: tar_type
  tm_Size :: int
  tm_Read :: "string \<times> err option"
  tm_Consumed :: int

record tar_stream =
  ts_members :: "tar_member list"
  ts_end :: "err option"
  ts_consumed :: int

record import_state =
  imp_seen :: "string list"
  imp_index :: index_manifest
  imp_layoutOK :: bool

definition noIndex :: index_manifest where
  "noIndex = \<lparr>ix_SchemaVersion = 0, ix_Manifests = []\<rparr>"

text \<open>\<open>v1.NewHash\<close> of a sha256 digest: 64 hexadecimal digits of either case.\<close>

definition newHash :: "string \<Rightarrow> err + v1_hash" where
  "newHash hex =
     bindE (guardE (length hex = 64 \<and> list_all (\<lambda>c. hexDigit c \<or> c \<in> set ''ABCDEF'') hex) (Msg ''invalid hash'')) (\<lambda>_.
     Inr \<lparr>h_Algorithm = ''sha256'', h_Hex = hex\<rparr>)"

definition putStaged :: "image_env \<Rightarrow> descriptor \<Rightarrow> string \<times> err option \<Rightarrow> unit ip" where
  "putStaged E d r =
     andThen (io E) (\<lambda>_.
     andThen (fromE (\<lambda>s. putBlob (ie_oci E) d r (im_stage s))) (\<lambda>stage.
     modify (\<lambda>s. s\<lparr>im_stage := stage\<rparr>)))"

definition blobDescriptor :: "v1_hash \<Rightarrow> int \<Rightarrow> descriptor" where
  "blobDescriptor h n = \<lparr>d_MediaType = [], d_Size = n, d_Digest = h, d_URLs = [], d_Data = [], d_Platform = None, d_RefName = []\<rparr>"

definition readAll :: "string \<times> err option \<Rightarrow> err + string" where
  "readAll r = (case snd r of None \<Rightarrow> Inr (fst r) | Some e \<Rightarrow> Inl e)"

definition directoryEntry :: "string \<Rightarrow> bool" where
  "directoryEntry n \<longleftrightarrow> n \<in> {''blobs/'', ''blobs'', ''blobs/sha256/'', ''blobs/sha256'', '''', ''.''}"

text \<open>One member of the archive: its checks and what it contributes.\<close>

definition importMember :: "image_env \<Rightarrow> tar_member \<Rightarrow> import_state \<Rightarrow> import_state ip" where
  "importMember E h st =
     (let name = trimPrefix (tm_Name h) ''./'' in
      if tm_Type h = TypeDir \<and> directoryEntry name then ret st
      else
        andThen (failIf (tm_Type h \<noteq> TypeReg \<or> name \<in> set (imp_seen st) \<or> tm_Size h < 0)
          (Msg ''archive must contain unique regular OCI files, not links'')) (\<lambda>_.
        let st1 = st\<lparr>imp_seen := name # imp_seen st\<rparr> in
        if name = ''oci-layout'' \<or> name = ''index.json'' then
          andThen (failIf (tm_Size h > maxMetadataBytes) (Msg ''archive metadata exceeds limit'')) (\<lambda>_.
          andThen (fromE (\<lambda>_. readAll (tm_Read h))) (\<lambda>b.
          if name = ''index.json''
          then andThen (fromE (\<lambda>_. oci_index (ie_oci E) b)) (\<lambda>ix. ret (st1\<lparr>imp_index := ix\<rparr>))
          else andThen (fromE (\<lambda>_. ie_layout E b)) (\<lambda>v. ret (st1\<lparr>imp_layoutOK := (v = ''1.0.0'')\<rparr>))))
        else
          andThen (failIf (\<not> hasPrefix name ''blobs/sha256/'') (Msg ''unexpected OCI archive path'')) (\<lambda>_.
          andThen (fromE (\<lambda>_. newHash (trimPrefix name ''blobs/sha256/''))) (\<lambda>hash.
          andThen (putStaged E (blobDescriptor hash (tm_Size h)) (tm_Read h)) (\<lambda>_.
          ret st1)))))"

fun importMembers :: "image_env \<Rightarrow> nat \<Rightarrow> tar_member list \<Rightarrow> err option \<Rightarrow> import_state \<Rightarrow> import_state ip" where
  "importMembers E count [] fin st =
     andThen (poll E) (\<lambda>_.
     andThen (failIf (count > 100000) (Msg ''archive has too many entries'')) (\<lambda>_.
     case fin of None \<Rightarrow> ret st | Some e \<Rightarrow> throw e))"
| "importMembers E count (h # hs) fin st =
     andThen (poll E) (\<lambda>_.
     andThen (failIf (count > 100000) (Msg ''archive has too many entries'')) (\<lambda>_.
     andThen (failIf (tm_Consumed h > MaxArchiveBytes) (Msg ''archive exceeds disk budget'')) (\<lambda>_.
     andThen (importMember E h st) (\<lambda>st'.
     importMembers E (Suc count) hs fin st'))))"

text \<open>One root of the archive: a complete graph, a manifest of the platform, valid layers, a name.\<close>

definition importRoot :: "image_env \<Rightarrow> string \<Rightarrow> v1_platform \<Rightarrow> descriptor \<Rightarrow> catalog \<Rightarrow> catalog ip" where
  "importRoot E ref p r entries =
     andThen (fromE (\<lambda>s. validateGraph (walkOci E s) (im_stage s) 0 r [])) (\<lambda>_.
     andThen (fromE (\<lambda>s. selectManifest (ie_oci E) (im_stage s) p 0 r)) (\<lambda>d.
     andThen (fromE (\<lambda>s. validateLayers (walkOci E s) (im_stage s) d)) (\<lambda>_.
     let key0 = (if ref = [] then d_RefName r else ref) in
     andThen (failIf (key0 = []) (Msg ''archive needs a reference annotation or --reference'')) (\<lambda>_.
     andThen (fromE (\<lambda>_. ie_parse E key0)) (\<lambda>k.
     andThen (fromE (\<lambda>_. ie_parse E (rn_Name k))) (\<lambda>parsed.
     andThen (failIf (case rn_Digest parsed of Some g \<Rightarrow> g \<noteq> digestString (d_Digest r) | None \<Rightarrow> False)
       (Msg ''archive digest reference does not match its root descriptor'')) (\<lambda>_.
     ret (store (rn_Name k) \<lparr>e_Root = r, e_Prepared = [(ie_platform E p, d)]\<rparr> entries))))))))"

fun importRoots :: "image_env \<Rightarrow> string \<Rightarrow> v1_platform \<Rightarrow> descriptor list \<Rightarrow> catalog \<Rightarrow> catalog ip" where
  "importRoots E ref p [] entries = ret entries"
| "importRoots E ref p (r # rs) entries =
     andThen (importRoot E ref p r entries) (\<lambda>entries'. importRoots E ref p rs entries')"

text \<open>A private staging directory, removed when the operation returns.\<close>

definition staged :: "image_env \<Rightarrow> 'a ip \<Rightarrow> 'a ip" where
  "staged E body =
     andThen (io E) (\<lambda>_.
     after (andThen (modify (\<lambda>s. s\<lparr>im_stage := []\<rparr>)) (\<lambda>_. body)) (\<lambda>s. s\<lparr>im_stage := []\<rparr>))"

text \<open>The gzip magic of the file decides on decompression; \<open>untar\<close> frames what the limited reader gives.\<close>

definition archiveInput :: "oci \<Rightarrow> string \<Rightarrow> err + string \<times> err option" where
  "archiveInput oc f = (if take 2 f = [CHR 0x1f, CHR 0x8b] then oci_gunzip oc f else Inr (f, None))"

definition ImportImage :: "image_env \<Rightarrow> (string \<Rightarrow> stat) \<Rightarrow> (string \<times> err option \<Rightarrow> tar_stream) \<Rightarrow> (err + string) \<Rightarrow>
    string \<Rightarrow> v1_platform \<Rightarrow> unit ip" where
  "ImportImage E st untar file ref platform =
     (let p = canonicalPlatform platform in
      staged E (
        andThen (fromE (\<lambda>_. file)) (\<lambda>f.
        andThen (fromE (\<lambda>_. archiveInput (ie_oci E) f)) (\<lambda>input.
        let tr = untar input in
        andThen (importMembers E 0 (ts_members tr) (ts_end tr) \<lparr>imp_seen = [], imp_index = noIndex, imp_layoutOK = False\<rparr>) (\<lambda>imp.
        andThen (failIf (ts_consumed tr > MaxArchiveBytes) (Msg ''archive exceeds disk budget'')) (\<lambda>_.
        andThen (failIf (\<not> imp_layoutOK imp \<or> ix_SchemaVersion (imp_index imp) \<noteq> 2 \<or> ix_Manifests (imp_index imp) = [])
          (Msg ''invalid OCI archive layout/index'')) (\<lambda>_.
        andThen (failIf (ref \<noteq> [] \<and> length (ix_Manifests (imp_index imp)) \<noteq> 1)
          (Msg ''--reference requires a single archive root'')) (\<lambda>_.
        andThen (importRoots E ref p (ix_Manifests (imp_index imp)) []) (\<lambda>entries.
        publish E st entries)))))))))"

section \<open>Export\<close>

datatype archive_member =
    LayoutMember string
  | IndexMember index_manifest
  | BlobMember string string

text \<open>The reference written into an archive: a digest reference names the exported root.\<close>

definition exportRef :: "image_env \<Rightarrow> descriptor \<Rightarrow> string \<Rightarrow> err + string" where
  "exportRef E r archiveRef =
     (let raw = (if hasPrefix archiveRef ''sha256:'' then ''localhost/opensbx-export@'' @ digestString (d_Digest r) else archiveRef) in
      bindE (ie_parse E raw) (\<lambda>parsed.
      Inr (case rn_Digest parsed of
             Some g \<Rightarrow> rn_Repository parsed @ ''@'' @ digestString (d_Digest r)
           | None \<Rightarrow> raw)))"

text \<open>
  The archive is written to a temporary file and linked to its path, which must not exist;
  \<open>dest\<close> is what \<open>os.Lstat\<close> says of the path. No lock is held.
\<close>

definition exportDescriptor :: "image_env \<Rightarrow> descriptor \<Rightarrow> (err + bool) \<Rightarrow> string \<Rightarrow> archive_member list ip" where
  "exportDescriptor E r dest archiveRef =
     andThen (fromE (\<lambda>s. validateGraph (walkOci E s) (im_blobs s) 0 r [])) (\<lambda>_.
     andThen (fromE (\<lambda>_. dest)) (\<lambda>present.
     andThen (failIf present (Msg ''export destination already exists'')) (\<lambda>_.
     andThen (io E) (\<lambda>_.
     andThen (fromE (\<lambda>_. exportRef E r archiveRef)) (\<lambda>ref.
     andThen (outside E) (\<lambda>_.
     andThen (fromE (\<lambda>s. copyGraph (walkOci E s) (im_blobs s) r [])) (\<lambda>blobs.
     andThen (io E) (\<lambda>_.
     ret (LayoutMember ''{\"imageLayoutVersion\":\"1.0.0\"}''
        # IndexMember \<lparr>ix_SchemaVersion = 2, ix_Manifests = [r\<lparr>d_RefName := ref\<rparr>]\<rparr>
        # map (\<lambda>(n, c). BlobMember n c) blobs)))))))))"

definition exportRoot :: "image_env \<Rightarrow> string \<Rightarrow> v1_platform \<Rightarrow> bool \<Rightarrow> catalog \<Rightarrow> err + descriptor" where
  "exportRoot E ref p full c =
     bindE (lookupRef E c ref) (\<lambda>e.
     if full then Inr (e_Root e)
     else (case map_of (e_Prepared e) (ie_platform E p) of
             Some d \<Rightarrow> Inr d
           | None \<Rightarrow> Inl (Msg ''platform is not prepared'')))"

definition ExportImage :: "image_env \<Rightarrow> string \<Rightarrow> (err + bool) \<Rightarrow> v1_platform \<Rightarrow> bool \<Rightarrow> archive_member list ip" where
  "ExportImage E ref dest platform full =
     (let p = canonicalPlatform platform in
      andThen (imageTransaction E (\<lambda>c. fromE (\<lambda>_. bindE (exportRoot E ref p full c) (\<lambda>r. Inr (c, r)))) False) (\<lambda>r.
      andThen (outside E) (\<lambda>_.
      exportDescriptor E r dest ref)))"

section \<open>Pull\<close>

text \<open>
  What the registry client returns: a descriptor with its raw bytes for a reference or a digest,
  and for an image its manifest, its raw config and the reader of a layer.
\<close>

record remote_descriptor =
  rd_Descriptor :: descriptor
  rd_Manifest :: string

record registry =
  rg_get :: "nat \<Rightarrow> string \<Rightarrow> err + remote_descriptor"
  rg_manifest :: "remote_descriptor \<Rightarrow> err + manifest"
  rg_config :: "remote_descriptor \<Rightarrow> err + string"
  rg_layer :: "remote_descriptor \<Rightarrow> v1_hash \<Rightarrow> err + string \<times> err option"

record pull_state =
  pl_imgs :: imgs
  pl_budget :: int
  pl_visited :: "(v1_hash \<times> descriptor) list"
  pl_selected :: "descriptor option"

text \<open>A file operation or a look at the context within the walk.\<close>

definition runI :: "unit ip \<Rightarrow> pull_state \<Rightarrow> err + pull_state" where
  "runI m w = (case m (pl_imgs w) of (Inl e, _) \<Rightarrow> Inl e | (Inr _, s) \<Rightarrow> Inr (w\<lparr>pl_imgs := s\<rparr>))"

definition addBudget :: "int \<Rightarrow> pull_state \<Rightarrow> pull_state" where
  "addBudget n w = w\<lparr>pl_budget := wrap64 (pl_budget w + n)\<rparr>"

fun pullLayers :: "image_env \<Rightarrow> registry \<Rightarrow> remote_descriptor \<Rightarrow> descriptor list \<Rightarrow> pull_state \<Rightarrow> err + pull_state" where
  "pullLayers E R d [] w = Inr w"
| "pullLayers E R d (layer # ls) w =
     bindE (guardE (d_URLs layer = []) (Msg ''registry-controlled external layer URLs are not permitted'')) (\<lambda>_.
     let w1 = addBudget (d_Size layer) w in
     bindE (guardE (pl_budget w1 \<le> MaxArchiveBytes) (Msg ''pull exceeds disk budget'')) (\<lambda>_.
     bindE (rg_layer R d (d_Digest layer)) (\<lambda>r.
     bindE (runI (putStaged E layer r) w1) (\<lambda>w2.
     pullLayers E R d ls w2))))"

definition pullImage :: "image_env \<Rightarrow> registry \<Rightarrow> v1_platform \<Rightarrow> remote_descriptor \<Rightarrow> pull_state \<Rightarrow> err + pull_state" where
  "pullImage E R p d w =
     bindE (rg_manifest R d) (\<lambda>m.
     bindE (guardE (d_URLs (mf_Config m) = []) (Msg ''registry-controlled external config URLs are not permitted'')) (\<lambda>_.
     bindE (guardE (list_all (\<lambda>l. d_URLs l = []) (mf_Layers m)) (Msg ''registry-controlled external layer URLs are not permitted'')) (\<lambda>_.
     bindE (rg_config R d) (\<lambda>raw.
     bindE (oci_config (ie_oci E) raw) (\<lambda>cfg.
     bindE (guardE (samePlatform (cf_Platform cfg) p) (Msg ''image platform does not match'')) (\<lambda>_.
     bindE (runI (putStaged E (mf_Config m) (raw, None)) (addBudget (int (length raw)) w)) (\<lambda>w1.
     bindE (pullLayers E R d (mf_Layers m) w1) (\<lambda>w2.
     Inr (w2\<lparr>pl_selected := Some ((rd_Descriptor d)\<lparr>d_Platform := Some p\<rparr>)\<rparr>)))))))))"

text \<open>A digest seen before must come with the same size and media type.\<close>

definition sameVisited :: "descriptor \<Rightarrow> descriptor \<Rightarrow> err + unit" where
  "sameVisited old d = guardE (d_Size old = d_Size d \<and> d_MediaType old = d_MediaType d) (Msg ''registry descriptor mismatch'')"

text \<open>The checks of a descriptor's metadata, and its blob.\<close>

definition pullMetadata :: "image_env \<Rightarrow> nat \<Rightarrow> remote_descriptor \<Rightarrow> pull_state \<Rightarrow> err + pull_state" where
  "pullMetadata E depth rd w =
     (let d = rd_Descriptor rd; w1 = w\<lparr>pl_visited := (d_Digest d, d) # pl_visited w\<rparr> in
      bindE (runI (poll E) w1) (\<lambda>w2.
      bindE (guardE (0 \<le> d_Size d \<and> d_Size d \<le> maxMetadataBytes) (Msg ''registry metadata exceeds limit'')) (\<lambda>_.
      bindE (guardE (d_URLs d = []) (Msg ''registry-controlled external descriptor URLs are not permitted'')) (\<lambda>_.
      bindE (guardE (depth \<le> 16) (Msg ''OCI index nesting limit exceeded'')) (\<lambda>_.
      let w3 = addBudget (d_Size d) w2 in
      bindE (guardE (pl_budget w3 \<le> MaxArchiveBytes) (Msg ''pull exceeds disk budget'')) (\<lambda>_.
      runI (putStaged E d (rd_Manifest rd, None)) w3))))))"

definition skipChild :: "image_env \<Rightarrow> v1_platform \<Rightarrow> descriptor \<Rightarrow> pull_state \<Rightarrow> bool" where
  "skipChild E p child w \<longleftrightarrow> \<not> oci_isIndex (ie_oci E) (d_MediaType child) \<and>
     ((case d_Platform child of None \<Rightarrow> True | Some q \<Rightarrow> \<not> samePlatform q p) \<or> pl_selected w \<noteq> None)"

function pullVisit :: "image_env \<Rightarrow> registry \<Rightarrow> v1_platform \<Rightarrow> string \<Rightarrow> nat \<Rightarrow> remote_descriptor \<Rightarrow> pull_state \<Rightarrow> err + pull_state"
  and pullChildren :: "image_env \<Rightarrow> registry \<Rightarrow> v1_platform \<Rightarrow> string \<Rightarrow> nat \<Rightarrow> descriptor list \<Rightarrow> pull_state \<Rightarrow> err + pull_state"
where
  "pullVisit E R p repo depth rd w =
     (let d = rd_Descriptor rd in
      bindE (guardE (length (pl_visited w) < 100000) (Msg ''registry graph exceeds descriptor limit'')) (\<lambda>_.
      case map_of (pl_visited w) (d_Digest d) of
        Some old \<Rightarrow> bindE (sameVisited old d) (\<lambda>_. Inr w)
      | None \<Rightarrow>
          bindE (pullMetadata E depth rd w) (\<lambda>w1.
          if oci_isIndex (ie_oci E) (d_MediaType d) then
            bindE (oci_index (ie_oci E) (rd_Manifest rd)) (\<lambda>ix.
            bindE (guardE (ix_SchemaVersion ix = 2) (Msg ''invalid registry index schema'')) (\<lambda>_.
            pullChildren E R p repo depth (ix_Manifests ix) w1))
          else
            bindE (guardE (oci_isImage (ie_oci E) (d_MediaType d)) (Msg ''unsupported OCI artifact'')) (\<lambda>_.
            pullImage E R p rd w1))))"
| "pullChildren E R p repo depth [] w = Inr w"
| "pullChildren E R p repo depth (child # kids) w =
     bindE (guardE (d_URLs child = []) (Msg ''registry-controlled external descriptor URLs are not permitted'')) (\<lambda>_.
     if skipChild E p child w then pullChildren E R p repo depth kids w
     else
       (case map_of (pl_visited w) (d_Digest child) of
          Some old \<Rightarrow> bindE (sameVisited old child) (\<lambda>_. pullChildren E R p repo depth kids w)
        | None \<Rightarrow>
            bindE (rg_get R (im_tick (pl_imgs w)) (repo @ ''@'' @ digestString (d_Digest child))) (\<lambda>nxt.
            bindE (guardE (d_Digest (rd_Descriptor nxt) = d_Digest child \<and> d_Size (rd_Descriptor nxt) = d_Size child
                \<and> d_MediaType (rd_Descriptor nxt) = d_MediaType child) (Msg ''registry descriptor mismatch'')) (\<lambda>_.
            bindE (pullVisit E R p repo (Suc depth) nxt w) (\<lambda>w1.
            pullChildren E R p repo depth kids w1)))))"
  by pat_completeness auto

lemma runI_Inr: "runI m w = Inr w' \<longleftrightarrow> (\<exists>s. m (pl_imgs w) = (Inr (), s) \<and> w' = w\<lparr>pl_imgs := s\<rparr>)"
  by (auto simp: runI_def split: prod.splits sum.splits)

lemma pullMetadata_depth: "pullMetadata E depth rd w = Inr w' \<Longrightarrow> depth \<le> 16"
  by (auto simp: pullMetadata_def Let_def)

termination pullVisit
  by (relation "measures [\<lambda>x. case x of Inl (E, R, p, repo, depth, rd, w) \<Rightarrow> 2 * (18 - depth)
        | Inr (E, R, p, repo, depth, kids, w) \<Rightarrow> 2 * (18 - depth) - 1,
      \<lambda>x. case x of Inl _ \<Rightarrow> 0 | Inr (E, R, p, repo, depth, kids, w) \<Rightarrow> length kids]")
    (auto dest!: pullMetadata_depth)

declare pullVisit.simps [simp del]

definition pullWalk :: "image_env \<Rightarrow> registry \<Rightarrow> v1_platform \<Rightarrow> string \<Rightarrow> remote_descriptor \<Rightarrow> descriptor option ip" where
  "pullWalk E R p repo rd s =
     (case pullVisit E R p repo 0 rd \<lparr>pl_imgs = s, pl_budget = 0, pl_visited = [], pl_selected = None\<rparr> of
        Inl e \<Rightarrow> (Inl e, s)
      | Inr w \<Rightarrow> (Inr (pl_selected w), pl_imgs w))"

definition PullImage :: "image_env \<Rightarrow> (string \<Rightarrow> stat) \<Rightarrow> registry \<Rightarrow> string \<Rightarrow> v1_platform \<Rightarrow> unit ip" where
  "PullImage E st R ref platform =
     (let p = canonicalPlatform platform in
      andThen (fromE (\<lambda>_. ie_parse E ref)) (\<lambda>r.
      staged E (
        andThen (fromE (\<lambda>s. rg_get R (im_tick s) (rn_Name r))) (\<lambda>rd.
        andThen (failIf (case rn_Digest r of Some g \<Rightarrow> g \<noteq> digestString (d_Digest (rd_Descriptor rd)) | None \<Rightarrow> False)
          (Msg ''registry root does not match requested digest'')) (\<lambda>_.
        andThen (pullWalk E R p (rn_Repository r) rd) (\<lambda>selected.
        case selected of
          None \<Rightarrow> throw (Msg ''image has no variant of the platform; emulation is not enabled'')
        | Some d \<Rightarrow>
            andThen (fromE (\<lambda>s. validateGraph (walkOci E s) (im_stage s) 0 d [])) (\<lambda>_.
            andThen (fromE (\<lambda>s. validateLayers (walkOci E s) (im_stage s) d)) (\<lambda>_.
            publish E st [(rn_Name r, \<lparr>e_Root = rd_Descriptor rd, e_Prepared = [(ie_platform E p, d)]\<rparr>)]))))))))"

end
