(* ===== verification/Image_Props.thy ===== *)
theory Image_Props
  imports Graph_Props Image_Transfer
begin

text \<open>
  What the store promises across operations and processes: the catalog only names content that is
  complete in the store, and files once stored keep their content.
\<close>

section \<open>Directories that grow\<close>

text \<open>A walk that nobody cancels.\<close>

definition calm :: "oci \<Rightarrow> oci" where
  "calm oc = oc\<lparr>oci_cancel := \<lambda>_. None\<rparr>"

lemma calm_simps [simp]:
  "oci_sha (calm oc) = oci_sha oc" "oci_index (calm oc) = oci_index oc" "oci_manifest (calm oc) = oci_manifest oc"
  "oci_config (calm oc) = oci_config oc" "oci_isIndex (calm oc) = oci_isIndex oc" "oci_isImage (calm oc) = oci_isImage oc"
  "oci_gunzip (calm oc) = oci_gunzip oc" "oci_unzstd (calm oc) = oci_unzstd oc" "ctxErrAt (calm oc) n = Inr ()"
  "sha256 (calm oc) c = sha256 oc c" "calm (calm oc) = calm oc"
  by (simp_all add: calm_def ctxErrAt_def sha256_def)

lemma walkOci_simps [simp]:
  "oci_sha (walkOci E s) = oci_sha (ie_oci E)" "oci_isImage (walkOci E s) = oci_isImage (ie_oci E)"
  "calm (walkOci E s) = calm (ie_oci E)" "sha256 (walkOci E s) c = sha256 (ie_oci E) c"
  by (simp_all add: walkOci_def calm_def sha256_def)

lemma readBlob_calm [simp]: "readBlob (calm oc) = readBlob oc"
  by (simp add: readBlob_def fun_eq_iff)

lemma children_calm [simp]: "children (calm oc) = children oc"
  by (simp add: children_def fun_eq_iff)

lemma layerReader_calm [simp]: "layerReader (calm oc) = layerReader oc"
  by (simp add: layerReader_def fun_eq_iff)

lemma checkDescriptor_calm: "checkDescriptor oc depth n d = Inr u \<Longrightarrow> checkDescriptor (calm oc) depth n d = Inr u"
  by (auto simp: checkDescriptor_def)

lemma openFile_mono: "map_of fs \<subseteq>\<^sub>m map_of fs' \<Longrightarrow> openFile fs p = Inr c \<Longrightarrow> openFile fs' p = Inr c"
  by (auto simp: map_le_def dom_def)

lemma readFile_mono: "map_of fs \<subseteq>\<^sub>m map_of fs' \<Longrightarrow> readFile fs p n = Inr c \<Longrightarrow> readFile fs' p n = Inr c"
  by (auto simp: readFile_def map_le_def dom_def)

lemma readBlob_mono: "map_of fs \<subseteq>\<^sub>m map_of fs' \<Longrightarrow> readBlob oc fs d = Inr c \<Longrightarrow> readBlob oc fs' d = Inr c"
  by (auto simp: readBlob_def dest: readFile_mono)

lemma children_mono: "map_of fs \<subseteq>\<^sub>m map_of fs' \<Longrightarrow> children oc fs d = Inr ks \<Longrightarrow> children oc fs' d = Inr ks"
  by (auto simp: children_def dest: readBlob_mono split: if_splits)

lemma statBlob_mono: "map_of fs \<subseteq>\<^sub>m map_of fs' \<Longrightarrow> statBlob fs d = Inr p \<Longrightarrow> statBlob fs' d = Inr p"
  by (auto simp: statBlob_Inr map_le_def dom_def)

lemma hashFile_mono: "map_of fs \<subseteq>\<^sub>m map_of fs' \<Longrightarrow> hashFile oc fs p n = Inr x \<Longrightarrow> hashFile (calm oc) fs' p n = Inr x"
  by (auto simp: hashFile_def dest: readFile_mono)

lemma validate_mono:
  "validateGraph oc fs depth d seen = Inr r \<Longrightarrow> map_of fs \<subseteq>\<^sub>m map_of fs' \<Longrightarrow>
     validateGraph (calm oc) fs' depth d seen = Inr r"
  "validateKids oc fs depth kids m seen = Inr r \<Longrightarrow> map_of fs \<subseteq>\<^sub>m map_of fs' \<Longrightarrow>
     validateKids (calm oc) fs' depth kids m seen = Inr r"
proof (induction oc fs depth d seen and oc fs depth kids m seen arbitrary: r and r
    rule: validateGraph_validateKids.induct)
  case (1 oc fs depth d seen)
  from "1.prems"(1) obtain p where c: "checkDescriptor oc depth (length seen) d = Inr ()" and p: "statBlob fs d = Inr p"
    by (auto simp: validateGraph.simps [of oc fs depth d seen])
  note c' = checkDescriptor_calm [OF c] and p' = statBlob_mono [OF "1.prems"(2) p]
  show ?case
  proof (cases "d_Digest d \<in> set seen")
    case True
    then show ?thesis using "1.prems"(1) c p c' p' by (simp add: validateGraph.simps)
  next
    case False
    then obtain kids where h: "hashFile oc fs p (Suc (length seen)) = Inr (d_Digest d, d_Size d)"
        and k: "children oc fs d = Inr kids" and v: "validateKids oc fs depth kids (d_Size d) (d_Digest d # seen) = Inr r"
      using "1.prems"(1) c p by (auto simp: validateGraph.simps [of oc fs depth d seen])
    have "validateKids (calm oc) fs' depth kids (d_Size d) (d_Digest d # seen) = Inr r"
      using "1.IH" [OF c p False h refl _ k v "1.prems"(2)] by simp
    then show ?thesis
      using False c' p' hashFile_mono [OF "1.prems"(2) h] children_mono [OF "1.prems"(2) k]
      by (simp add: validateGraph.simps [of "calm oc"])
  qed
next
  case (2 oc fs depth n seen)
  then show ?case by simp
next
  case (3 oc fs depth kid kids m seen)
  from "3.prems"(1) obtain k seen1 where g: "validateGraph oc fs (Suc depth) kid seen = Inr (k, seen1)"
      and b: "m + k \<le> MaxArchiveBytes" and v: "validateKids oc fs depth kids (m + k) seen1 = Inr r"
    by auto
  show ?case
    using "3.IH"(1) [OF g "3.prems"(2)] "3.IH"(2) [OF g refl _ v "3.prems"(2)] b by simp
qed

lemma checkLayers_mono:
  "checkLayers oc fs ds hs remaining n = Inr u \<Longrightarrow> map_of fs \<subseteq>\<^sub>m map_of fs' \<Longrightarrow>
     checkLayers (calm oc) fs' ds hs remaining n = Inr u"
proof (induction oc fs ds hs remaining n rule: checkLayers.induct)
  case (1 oc fs d ds h hs remaining n)
  then show ?case by (fastforce simp: map_le_def dom_def)
qed auto

lemma validateLayers_mono:
  assumes "validateLayers oc fs d = Inr u" and m: "map_of fs \<subseteq>\<^sub>m map_of fs'"
  shows "validateLayers (calm oc) fs' d = Inr u"
proof -
  obtain b mf b' cfg where "readBlob oc fs d = Inr b" "oci_manifest oc b = Inr mf" "readBlob oc fs (mf_Config mf) = Inr b'"
      "oci_config oc b' = Inr cfg" "cf_RootFSType cfg = ''layers'' \<and> length (cf_DiffIDs cfg) = length (mf_Layers mf)"
      "checkLayers oc fs (mf_Layers mf) (cf_DiffIDs cfg) MaxArchiveBytes 0 = Inr u"
    using assms(1) by (auto simp: validateLayers_def)
  then show ?thesis
    using readBlob_mono [OF m, of oc] checkLayers_mono [OF _ m, of oc] by (simp add: validateLayers_def)
qed

section \<open>Sound disks\<close>

text \<open>
  Every blob is a regular file named by the digest of its content; \<open>U\<close> is the set of the contents
  considered, among which the digest is taken to be free of collisions.
\<close>

definition blobs_ok :: "oci \<Rightarrow> string set \<Rightarrow> dir \<Rightarrow> bool" where
  "blobs_ok oc U fs \<longleftrightarrow> (\<forall>p f. map_of fs p = Some f \<longrightarrow> (\<exists>c. f = Regular c \<and> oci_sha oc c = p \<and> c \<in> U))"

definition intact :: "oci \<Rightarrow> dir \<Rightarrow> descriptor \<Rightarrow> bool" where
  "intact oc fs d \<longleftrightarrow> oci_isImage oc (d_MediaType d) \<and>
     (\<exists>kids. children oc fs d = Inr kids) \<and> validateLayers (calm oc) fs d = Inr ()"

definition image_entry_ok :: "oci \<Rightarrow> dir \<Rightarrow> entry \<Rightarrow> bool" where
  "image_entry_ok oc fs e \<longleftrightarrow> (\<exists>b. readBlob oc fs (e_Root e) = Inr b) \<and> (\<forall>d \<in> snd ` set (e_Prepared e). intact oc fs d)"

definition cat_ok :: "oci \<Rightarrow> dir \<Rightarrow> catalog \<Rightarrow> bool" where
  "cat_ok oc fs c \<longleftrightarrow> (\<forall>e \<in> snd ` set c. image_entry_ok oc fs e)"

text \<open>References to one root have the same platforms prepared.\<close>

definition shared :: "catalog \<Rightarrow> bool" where
  "shared c \<longleftrightarrow> (\<forall>e \<in> snd ` set c. \<forall>e' \<in> snd ` set c. d_Digest (e_Root e) = d_Digest (e_Root e') \<longrightarrow> e_Prepared e = e_Prepared e')"

definition disk_ok :: "oci \<Rightarrow> string set \<Rightarrow> disk \<Rightarrow> bool" where
  "disk_ok oc U dk \<longleftrightarrow> blobs_ok oc U (dk_blobs dk) \<and>
     (case dk_catalog dk of References c \<Rightarrow> cat_ok oc (dk_blobs dk) c \<and> shared c \<and> distinct (map fst c) | _ \<Rightarrow> True)"

text \<open>What every process promises the others while it does not hold the lock, and relies on.\<close>

definition publishes :: "oci \<Rightarrow> string set \<Rightarrow> disk \<Rightarrow> disk \<Rightarrow> bool" where
  "publishes oc U dk dk' \<longleftrightarrow> (disk_ok oc U dk \<longrightarrow> disk_ok oc U dk' \<and> map_of (dk_blobs dk) \<subseteq>\<^sub>m map_of (dk_blobs dk'))"

definition trusted :: "image_env \<Rightarrow> string set \<Rightarrow> bool" where
  "trusted E U \<longleftrightarrow> inj_on (oci_sha (ie_oci E)) U \<and> (\<forall>n dk. publishes (ie_oci E) U dk (ie_outside E n dk))"

lemma blobs_ok_Nil [simp]: "blobs_ok oc U []"
  by (simp add: blobs_ok_def)

lemma intact_mono: "intact oc fs d \<Longrightarrow> map_of fs \<subseteq>\<^sub>m map_of fs' \<Longrightarrow> intact oc fs' d"
  by (auto simp: intact_def dest: children_mono validateLayers_mono)

lemma entry_ok_mono: "image_entry_ok oc fs e \<Longrightarrow> map_of fs \<subseteq>\<^sub>m map_of fs' \<Longrightarrow> image_entry_ok oc fs' e"
  unfolding image_entry_ok_def by (blast intro: intact_mono readBlob_mono)

lemma cat_ok_mono: "cat_ok oc fs c \<Longrightarrow> map_of fs \<subseteq>\<^sub>m map_of fs' \<Longrightarrow> cat_ok oc fs' c"
  unfolding cat_ok_def by (blast intro: entry_ok_mono)

lemma blobs_ok_agree:
  "blobs_ok oc U fs \<Longrightarrow> blobs_ok oc U fs' \<Longrightarrow> inj_on (oci_sha oc) U \<Longrightarrow> map_of fs p = Some f \<Longrightarrow> map_of fs' p = Some f' \<Longrightarrow> f = f'"
  by (fastforce simp: blobs_ok_def dest: inj_onD)

lemma store_grows:
  assumes "blobs_ok oc U fs" "inj_on (oci_sha oc) U" "f = Regular c" "oci_sha oc c = p" "c \<in> U"
  shows "blobs_ok oc U (store p f fs)" "map_of fs \<subseteq>\<^sub>m map_of (store p f fs)"
proof -
  have one: "blobs_ok oc U [(p, f)]" using assms(3-5) by (simp add: blobs_ok_def)
  have "g = f" if "map_of fs p = Some g" for g
    using blobs_ok_agree [OF assms(1) one assms(2) that, of f] by simp
  then show "map_of fs \<subseteq>\<^sub>m map_of (store p f fs)" by (auto simp: map_le_def)
  show "blobs_ok oc U (store p f fs)" using assms(1) one by (simp add: blobs_ok_def)
qed

lemma range_map_subset: "x \<in> set (range_map E n m) \<Longrightarrow> x \<in> set m"
  by (auto simp: range_map_def map_filter_def dest: map_of_SomeD)

section \<open>What the operations keep\<close>

text \<open>
  The invariant during an operation: the shared disk is sound and has grown from \<open>B\<close>, the staged
  files are content-addressed and have grown from \<open>S\<close>, and the catalog \<open>c\<close> in hand is sound.
\<close>

definition imv :: "image_env \<Rightarrow> string set \<Rightarrow> dir \<Rightarrow> dir \<Rightarrow> catalog \<Rightarrow> imgs \<Rightarrow> bool" where
  "imv E U B S c s \<longleftrightarrow> disk_ok (ie_oci E) U (im_disk s) \<and> map_of B \<subseteq>\<^sub>m map_of (im_blobs s) \<and>
     blobs_ok (ie_oci E) U (im_stage s) \<and> distinct (map fst (im_stage s)) \<and> map_of S \<subseteq>\<^sub>m map_of (im_stage s) \<and>
     cat_ok (ie_oci E) (im_blobs s) c"

lemma imv_tick [simp]: "imv E U B S c (tickI s) = imv E U B S c s"
  by (simp add: imv_def tickI_def)

lemma imv_stage: "imv E U B S c s \<Longrightarrow> imv E U B [] c (s\<lparr>im_stage := []\<rparr>)"
  by (simp add: imv_def blobs_ok_def)

lemma imv_weaken: "imv E U B S c s \<Longrightarrow> imv E U B [] [] s"
  by (simp add: imv_def cat_ok_def)

lemma imv_cache [simp]: "imv E U B S c (s\<lparr>im_cache := x\<rparr>) = imv E U B S c s"
  by (simp add: imv_def)

lemma disk_ok_other [simp]:
  "disk_ok oc U (dk_index_update f dk) = disk_ok oc U dk" "disk_ok oc U (dk_layout_update g dk) = disk_ok oc U dk"
  by (cases "dk_catalog dk"; simp add: disk_ok_def)+

lemma imv_other [simp]:
  "imv E U B S c (onDisk (dk_index_update f) s) = imv E U B S c s"
  "imv E U B S c (onDisk (dk_layout_update g) s) = imv E U B S c s"
  by (simp_all add: imv_def onDisk_def)

lemma keeps_fromE [keeps_rules]: "keeps I (fromE f)"
  by (simp add: fromE_def keeps_rules)

lemma keeps_io [keeps_rules]: "keeps (imv E U B S c) (io E')"
  unfolding io_def by (intro keeps_rules) simp

lemma keeps_pollImage [keeps_rules]: "keeps (imv E U B S c) (poll E')"
  unfolding poll_def by (intro keeps_rules) simp

lemma imv_outside: "trusted E U \<Longrightarrow> imv E U B S c s \<Longrightarrow> imv E U B S c (onDisk (ie_outside E n) s)"
  by (auto simp: imv_def trusted_def publishes_def onDisk_def intro: map_le_trans cat_ok_mono)

lemma keeps_outside [keeps_rules]: "trusted E U \<Longrightarrow> keeps (imv E U B S c) (outside E)"
  unfolding outside_def by (intro keeps_rules) (simp add: imv_outside)

lemma keeps_writeIndex [keeps_rules]: "keeps (imv E U B S c) (writeIndex E' c')"
  unfolding writeIndex_def by (intro keeps_rules) simp_all

lemma keeps_stampsHold [keeps_rules]: "keeps (imv E U B S c) (stampsHold E' files)"
  by (induction files) (auto intro!: keeps_rules)

lemma imv_remember [simp]: "imv E U B S c (remember d files n s) = imv E U B S c s"
  by (simp add: remember_def)

lemma keeps_case_prod [keeps_rules]: "(\<And>x y. keeps I (f x y)) \<Longrightarrow> keeps I (case r of (x, y) \<Rightarrow> f x y)"
  by (cases r) simp

lemma keeps_verified [keeps_rules]: "trusted E U \<Longrightarrow> keeps (imv E U B S c) (verified E d)"
  unfolding verified_def verifyGraph_def by (intro keeps_rules) simp_all

lemma keeps_preparedSize [keeps_rules]: "trusted E U \<Longrightarrow> keeps (imv E U B S c) (preparedSize E ds n seen)"
  by (induction E ds n seen rule: preparedSize.induct) (auto intro!: keeps_rules)

lemma keeps_summarise [keeps_rules]: "trusted E U \<Longrightarrow> keeps (imv E U B S c) (summarise E es out)"
  by (induction E es out rule: summarise.induct) (auto simp: Let_def intro!: keeps_rules)

text \<open>Staging a blob whose bytes are among the contents considered.\<close>

definition reader_in :: "string set \<Rightarrow> string \<times> err option \<Rightarrow> bool" where
  "reader_in U r \<longleftrightarrow> (\<forall>k. take k (fst r) \<in> U)"

lemma putBlob_stored:
  assumes "putBlob oc d r fs = Inr fs'"
  shows "\<exists>k. let c = take k (fst r) in fs' = store (oci_sha oc c) (Regular c) fs \<and> d_Digest d = sha256 oc c
      \<and> int (length c) = d_Size d \<and> blobPath (d_Digest d) = Inr (oci_sha oc c)"
proof -
  obtain p b where p: "blobPath (d_Digest d) = Inr p" "readUpTo (nat (d_Size d) + 1) r = Inr b"
      "int (length b) = d_Size d" "sha256 oc b = d_Digest d" "fs' = store p (Regular b) fs"
    using assms by (auto simp: putBlob_def)
  have "b = take (nat (d_Size d) + 1) (fst r)"
    using p(2) by (auto simp: readUpTo_def split: option.splits if_splits)
  moreover have "h_Hex (d_Digest d) = oci_sha oc b" "p = h_Hex (d_Digest d)"
    using p(1) arg_cong [OF p(4), of h_Hex] by (simp_all add: sha256_def)
  ultimately show ?thesis
    using p by (intro exI [of _ "nat (d_Size d) + 1"]) (simp add: Let_def)
qed

lemma putBlob_ok:
  assumes "putBlob oc d r fs = Inr fs'" "blobs_ok oc U fs" "inj_on (oci_sha oc) U" "reader_in U r"
  shows "blobs_ok oc U fs'" "map_of fs \<subseteq>\<^sub>m map_of fs'" "distinct (map fst fs) \<Longrightarrow> distinct (map fst fs')"
proof -
  obtain k where "let c = take k (fst r) in fs' = store (oci_sha oc c) (Regular c) fs \<and> d_Digest d = sha256 oc c
      \<and> int (length c) = d_Size d \<and> blobPath (d_Digest d) = Inr (oci_sha oc c)"
    using putBlob_stored [OF assms(1)] ..
  then have fs': "fs' = store (oci_sha oc (take k (fst r))) (Regular (take k (fst r))) fs" by (simp add: Let_def)
  have "take k (fst r) \<in> U" using assms(4) by (simp add: reader_in_def)
  with store_grows [OF assms(2,3) refl refl this] fs'
  show "blobs_ok oc U fs'" "map_of fs \<subseteq>\<^sub>m map_of fs'" "distinct (map fst fs) \<Longrightarrow> distinct (map fst fs')"
    by simp_all
qed

lemma keeps_modifyE:
  "(\<And>s x. I s \<Longrightarrow> f s = Inr x \<Longrightarrow> I (g x s)) \<Longrightarrow> keeps I (andThen (fromE f) (\<lambda>x. modify (g x)))"
  by (auto simp: keeps_def prog_defs fromE_def split: sum.splits)

lemma imv_put:
  assumes "trusted E U" "reader_in U r" "imv E U B S c s" "putBlob (ie_oci E) d r (im_stage s) = Inr x"
  shows "imv E U B S c (s\<lparr>im_stage := x\<rparr>)"
  using assms(3) putBlob_ok [OF assms(4), of U] assms(1,2)
  by (auto simp: imv_def trusted_def intro: map_le_trans)

lemma keeps_putStaged [keeps_rules]:
  "trusted E U \<Longrightarrow> reader_in U r \<Longrightarrow> keeps (imv E U B S c) (putStaged E d r)"
  unfolding putStaged_def by (intro keeps_andThen keeps_io keeps_modifyE) (rule imv_put)

lemma keeps_importMember [keeps_rules]:
  "trusted E U \<Longrightarrow> reader_in U (tm_Read h) \<Longrightarrow> keeps (imv E U B S c) (importMember E h st)"
  unfolding importMember_def Let_def by (intro keeps_rules)

lemma keeps_importMembers:
  "trusted E U \<Longrightarrow> (\<And>h. h \<in> set hs \<Longrightarrow> reader_in U (tm_Read h)) \<Longrightarrow>
     keeps (imv E U B S c) (importMembers E n hs fin st)"
  by (induction E n hs fin st rule: importMembers.induct) (auto intro!: keeps_rules)

section \<open>Transactions\<close>

lemma triple_keeps: "keeps I m \<Longrightarrow> triple I m (\<lambda>_. I) I"
  by (simp add: keeps_triple)

lemma triple_keeps_weak: "keeps I m \<Longrightarrow> (\<And>s. I s \<Longrightarrow> E s) \<Longrightarrow> triple I m (\<lambda>_. I) E"
  unfolding keeps_triple by (erule triple_conseq) auto

lemma triple_fromE: "(\<And>s x. P s \<Longrightarrow> f s = Inr x \<Longrightarrow> Q x s) \<Longrightarrow> (\<And>s. P s \<Longrightarrow> E s) \<Longrightarrow> triple P (fromE f) Q E"
  by (auto simp: triple_def fromE_def prog_defs split: sum.splits prod.splits)

lemma imv_cat: "imv E U B S c s \<Longrightarrow> cat_ok (ie_oci E) (im_blobs s) c' \<Longrightarrow> imv E U B S c' s"
  by (simp add: imv_def)

definition keyed :: "catalog \<Rightarrow> bool" where
  "keyed c \<longleftrightarrow> distinct (map fst c)"

lemma triple_readCatalog:
  "triple (imv E U B S []) (readCatalog E) (\<lambda>c s. imv E U B S c s \<and> keyed c) (imv E U B S [])"
  unfolding readCatalog_def
  by (rule triple_andThen [OF triple_keeps [OF keeps_io]], rule triple_fromE)
    (auto simp: imv_def disk_ok_def cat_ok_def keyed_def split: catalog_file.splits)

lemma preparedOf_subset:
  "x \<in> set (preparedOf E c h) \<Longrightarrow> \<exists>e \<in> snd ` set c. x \<in> set (e_Prepared e)"
proof -
  have *: "x \<in> set xs \<union> set m" if "x \<in> set (fold (\<lambda>(p, d). store p d) xs m)" for x :: "string \<times> descriptor" and xs m
    using that
  proof (induction xs arbitrary: m)
    case (Cons a xs)
    then show ?case using Cons.IH [of "store (fst a) (snd a) m"] by (auto simp: split_beta)
  qed simp
  show "x \<in> set (preparedOf E c h) \<Longrightarrow> \<exists>e \<in> snd ` set c. x \<in> set (e_Prepared e)"
    by (auto simp: preparedOf_def dest!: * range_map_subset split: if_splits) (metis image_eqI range_map_subset snd_conv)
qed

lemma share_ok: "cat_ok oc fs c \<Longrightarrow> cat_ok oc fs (sharePrepared E c)"
  unfolding cat_ok_def
proof (intro ballI)
  fix e assume c: "\<forall>e \<in> snd ` set c. image_entry_ok oc fs e" and "e \<in> snd ` set (sharePrepared E c)"
  then obtain e0 where e0: "e0 \<in> snd ` set c" "e = e0\<lparr>e_Prepared := preparedOf E c (d_Digest (e_Root e0))\<rparr>"
    by (force simp: sharePrepared_def)
  then show "image_entry_ok oc fs e"
    using c by (auto simp: image_entry_ok_def dest!: preparedOf_subset)
qed

lemma share_shared: "shared (sharePrepared E c)"
  by (auto simp: shared_def sharePrepared_def)

lemma share_keyed: "keyed (sharePrepared E c) = keyed c"
  by (simp add: keyed_def sharePrepared_def comp_def split_def)

lemma imv_commit:
  "imv E U B S c s \<Longrightarrow> shared c \<Longrightarrow> keyed c \<Longrightarrow> imv E U B [] [] (onDisk (dk_catalog_update (\<lambda>_. References c)) s)"
  by (auto simp: imv_def onDisk_def disk_ok_def keyed_def cat_ok_def)

lemma triple_case_prod: "(\<And>a b. x = (a, b) \<Longrightarrow> triple P (f a b) Q E) \<Longrightarrow> triple P (case x of (a, b) \<Rightarrow> f a b) Q E"
  by (cases x) simp

lemma triple_pre: "triple P m Q E \<Longrightarrow> (\<And>s. P' s \<Longrightarrow> P s) \<Longrightarrow> triple P' m Q E"
  by (erule triple_conseq) auto

lemma triple_fact: "(F \<Longrightarrow> triple P m Q E) \<Longrightarrow> triple (\<lambda>s. P s \<and> F) m Q E"
  by (cases F) (auto simp: triple_def)

lemma triple_commit:
  assumes "keyed c"
  shows "triple (imv E U B [] c) (commitCatalog E (sharePrepared E c)) (\<lambda>_. imv E U B [] []) (imv E U B [] [])"
proof -
  have J: "imv E U B [] c s \<Longrightarrow> imv E U B [] (sharePrepared E c) s" for s
    by (auto simp: imv_def share_ok)
  show ?thesis
    unfolding commitCatalog_def
    by (rule triple_pre [OF _ J], rule triple_andThen [OF triple_keeps_weak [OF keeps_writeIndex imv_weaken]], assumption,
        rule triple_andThen [OF triple_keeps_weak [OF keeps_io imv_weaken]], assumption, rule triple_modify)
      (auto intro: imv_commit simp: share_shared share_keyed assms)
qed

text \<open>
  A transaction whose body keeps the invariant and hands back a sound catalog keeps the invariant;
  what a reading one returns is what the body says of it.
\<close>

lemma triple_transaction:
  assumes tr: "trusted E U"
    and fn: "\<And>c. keyed c \<Longrightarrow> triple (imv E U B [] c) (fn c) (\<lambda>(c', r) s. imv E U B [] c' s \<and> keyed c' \<and> (\<not> write \<longrightarrow> Q r s)) (imv E U B [] [])"
  shows "triple (imv E U B [] []) (imageTransaction E fn write) (\<lambda>r s. imv E U B [] [] s \<and> (\<not> write \<longrightarrow> Q r s)) (imv E U B [] [])"
proof -
  have tail: "triple (\<lambda>s. case x of (c', r) \<Rightarrow> imv E U B [] c' s \<and> keyed c' \<and> (\<not> write \<longrightarrow> Q r s))
      (case x of (c', r) \<Rightarrow> if \<not> write then ret r else andThen (commitCatalog E (sharePrepared E c')) (\<lambda>_. ret r))
      (\<lambda>r s. imv E U B [] [] s \<and> (\<not> write \<longrightarrow> Q r s)) (imv E U B [] [])" for x
  proof (cases x, cases "write")
    fix c' r assume "x = (c', r)" "\<not> write"
    then show ?thesis by (auto intro!: triple_ret intro: imv_weaken)
  next
    fix c' r assume x: "x = (c', r)" "write"
    have "triple (\<lambda>s. imv E U B [] c' s \<and> keyed c') (andThen (commitCatalog E (sharePrepared E c')) (\<lambda>_. ret r))
        (\<lambda>r. imv E U B [] []) (imv E U B [] [])"
      by (rule triple_fact, rule triple_andThen [OF triple_commit]) (auto intro: triple_ret)
    then show ?thesis using x by (auto elim: triple_pre)
  qed
  have body: "triple (\<lambda>s. imv E U B [] c s \<and> keyed c) (andThen (writeIndex E c) (\<lambda>_. andThen (fn c) (\<lambda>x. case x of (c', r) \<Rightarrow>
      if \<not> write then ret r else andThen (commitCatalog E (sharePrepared E c')) (\<lambda>_. ret r))))
      (\<lambda>r s. imv E U B [] [] s \<and> (\<not> write \<longrightarrow> Q r s)) (imv E U B [] [])" for c
    by (rule triple_fact, rule triple_andThen [OF triple_keeps_weak [OF keeps_writeIndex imv_weaken]], assumption,
        rule triple_andThen [OF fn], assumption) (rule triple_pre [OF tail], auto split: prod.splits)
  show ?thesis
    unfolding imageTransaction_def
    by (rule triple_andThen [OF triple_keeps [OF keeps_outside [OF tr]]], rule triple_andThen [OF triple_keeps [OF keeps_io]],
        rule triple_andThen [OF triple_readCatalog], rule body)
qed

section \<open>Publication\<close>

definition files_ok :: "oci \<Rightarrow> string set \<Rightarrow> dir \<Rightarrow> bool" where
  "files_ok oc U files \<longleftrightarrow> (\<forall>(p, f) \<in> set files. \<exists>c. f = Regular c \<and> oci_sha oc c = p \<and> c \<in> U)"

lemma files_ok_dir: "blobs_ok oc U fs \<Longrightarrow> distinct (map fst fs) \<Longrightarrow> files_ok oc U fs"
  by (auto simp: blobs_ok_def files_ok_def)

lemma disk_ok_store:
  assumes "disk_ok oc U dk" "inj_on (oci_sha oc) U" "files_ok oc U [(p, f)]"
  shows "disk_ok oc U (dk\<lparr>dk_blobs := store p f (dk_blobs dk), dk_stat := x\<rparr>)"
    and "map_of (dk_blobs dk) \<subseteq>\<^sub>m map_of (store p f (dk_blobs dk))"
proof -
  have b: "blobs_ok oc U (dk_blobs dk)" using assms(1) by (simp add: disk_ok_def)
  obtain c where c: "f = Regular c" "oci_sha oc c = p" "c \<in> U" using assms(3) by (auto simp: files_ok_def)
  note g = store_grows [OF b assms(2) c]
  show "map_of (dk_blobs dk) \<subseteq>\<^sub>m map_of (store p f (dk_blobs dk))" by (rule g(2))
  show "disk_ok oc U (dk\<lparr>dk_blobs := store p f (dk_blobs dk), dk_stat := x\<rparr>)"
    using assms(1) g by (cases "dk_catalog dk") (auto simp: disk_ok_def intro: cat_ok_mono)
qed

text \<open>The files moved so far are in the store.\<close>

definition moved :: "dir \<Rightarrow> imgs \<Rightarrow> bool" where
  "moved done s \<longleftrightarrow> (\<forall>(p, f) \<in> set done. map_of (im_blobs s) p = Some f)"

lemma rename_step:
  assumes "trusted E U" "files_ok (ie_oci E) U [(p, f)]" "imv E U B S c s" "moved ps s"
  shows "imv E U B [] c (renameIn p f st s) \<and> moved ((p, f) # ps) (renameIn p f st s)"
proof -
  let ?oc = "ie_oci E"
  have d: "disk_ok ?oc U (im_disk s)" and c: "cat_ok ?oc (im_blobs s) c" and B: "map_of B \<subseteq>\<^sub>m map_of (im_blobs s)"
    and st: "blobs_ok ?oc U (im_stage s)" "distinct (map fst (im_stage s))"
    using assms(3) by (simp_all add: imv_def)
  have i: "inj_on (oci_sha ?oc) U" using assms(1) by (simp add: trusted_def)
  note k = disk_ok_store [OF d i assms(2)]
  have g: "map_of (im_blobs s) \<subseteq>\<^sub>m (map_of (im_blobs s))(p \<mapsto> f)" using k(2) by simp
  have b: "blobs_ok ?oc U (remove_key p (im_stage s))" using st(1) by (simp add: blobs_ok_def)
  have "distinct (map fst (remove_key p (im_stage s)))"
    using st(2) by (simp add: remove_key_def distinct_map_filter)
  moreover have "moved ((p, f) # ps) (renameIn p f st s)"
    using assms(4) g by (force simp: moved_def renameIn_def onDisk_def map_le_def dom_def)
  ultimately show ?thesis
    using k(1) b map_le_trans [OF B k(2)] cat_ok_mono [OF c k(2)] by (simp add: imv_def renameIn_def onDisk_def)
qed

lemma triple_moveBlobs:
  assumes "trusted E U"
  shows "files_ok (ie_oci E) U files \<Longrightarrow>
    triple (\<lambda>s. imv E U B [] c s \<and> moved ps s) (moveBlobs E st files)
      (\<lambda>_ s. imv E U B [] c s \<and> moved (rev files @ ps) s) (imv E U B [] [])"
proof (induction files arbitrary: ps)
  case Nil
  then show ?case by (simp add: triple_ret)
next
  case (Cons x files)
  obtain p f where x: "x = (p, f)" by (cases x)
  have f: "files_ok (ie_oci E) U [(p, f)]" "files_ok (ie_oci E) U files" using Cons.prems x by (auto simp: files_ok_def)
  have q: "keeps (\<lambda>s. imv E U B [] c s \<and> moved ps s) (poll E)" "keeps (\<lambda>s. imv E U B [] c s \<and> moved ps s) (io E)"
    unfolding poll_def io_def by (intro keeps_rules; simp add: moved_def tickI_def imv_def)+
  have w: "imv E U B [] c s \<and> moved ps s \<Longrightarrow> imv E U B [] [] s" for s by (auto intro: imv_weaken)
  show ?case
    unfolding x moveBlobs.simps
    by (rule triple_andThen [OF triple_keeps_weak [OF q(1) w]], assumption,
        rule triple_andThen [OF triple_keeps_weak [OF q(2) w]], assumption,
        rule triple_andThen [OF triple_modify])
      (use rename_step [OF assms f(1)] Cons.IH [OF f(2), of "(p, f) # ps"] in auto)
qed

lemma moved_le: "moved files s \<Longrightarrow> map_of files \<subseteq>\<^sub>m map_of (im_blobs s)"
proof (unfold map_le_def, intro ballI)
  fix a assume "moved files s" "a \<in> dom (map_of files)"
  then obtain y where "map_of files a = Some y" by auto
  with map_of_SomeD [OF this] \<open>moved files s\<close> show "map_of files a = map_of (im_blobs s) a"
    by (force simp: moved_def)
qed

lemma merge_prepared:
  "x \<in> set (fold (\<lambda>(p, d) m. if p \<in> fst ` set m then m else store p d m) xs m) \<Longrightarrow> x \<in> set xs \<union> set m"
proof (induction xs arbitrary: m)
  case (Cons a xs)
  show ?case
    using Cons.prems Cons.IH [of m] Cons.IH [of "store (fst a) (snd a) m"]
    by (cases "fst a \<in> fst ` set m") (auto simp: split_beta)
qed simp

lemma mergeEntry_ok:
  assumes "cat_ok oc fs c" "image_entry_ok oc fs e"
  shows "image_entry_ok oc fs (mergeEntry c key e)"
proof (cases "map_of c key")
  case (Some old)
  then have "image_entry_ok oc fs old" using assms(1) by (auto simp: cat_ok_def dest!: map_of_SomeD)
  then show ?thesis
    using Some assms(2) by (auto simp: mergeEntry_def image_entry_ok_def dest!: merge_prepared)
qed (simp add: mergeEntry_def assms)

lemma mergeEntries_ok:
  assumes "cat_ok oc fs entries" "cat_ok oc fs c" "keyed c"
  shows "cat_ok oc fs (mergeEntries E entries c) \<and> keyed (mergeEntries E entries c)"
proof -
  have "cat_ok oc fs (fold (\<lambda>(key, e) c. store key (mergeEntry c key e) c) xs c) \<and>
      keyed (fold (\<lambda>(key, e) c. store key (mergeEntry c key e) c) xs c)"
    if "cat_ok oc fs xs" "cat_ok oc fs c" "keyed c" for xs c
    using that
  proof (induction xs arbitrary: c)
    case (Cons x xs)
    obtain key e where x: "x = (key, e)" by (cases x)
    have "image_entry_ok oc fs (mergeEntry c key e)" using Cons.prems x by (intro mergeEntry_ok) (auto simp: cat_ok_def)
    then have "cat_ok oc fs (store key (mergeEntry c key e) c)" "keyed (store key (mergeEntry c key e) c)"
      using Cons.prems by (auto simp: cat_ok_def keyed_def)
    moreover have "cat_ok oc fs xs" using Cons.prems(1) x by (simp add: cat_ok_def)
    ultimately show ?case using Cons.IH [of "store key (mergeEntry c key e) c"] x by simp
  qed simp
  moreover have "cat_ok oc fs (range_map E 8 entries)"
    using assms(1) range_map_subset [of _ E 8 entries] by (fastforce simp: cat_ok_def)
  ultimately show ?thesis using assms by (simp add: mergeEntries_def)
qed

text \<open>What is complete in the staging directory is complete in the store once it is published.\<close>

lemma triple_publish:
  assumes tr: "trusted E U"
  shows "triple (\<lambda>s. imv E U B [] [] s \<and> cat_ok (ie_oci E) (im_stage s) entries) (publish E st entries)
    (\<lambda>_. imv E U B [] []) (imv E U B [] [])"
proof -
  let ?oc = "ie_oci E"
  have q: "keeps (\<lambda>s. imv E U B [] [] s \<and> cat_ok ?oc (im_stage s) entries) (io E)"
    unfolding io_def by (intro keeps_rules) (auto simp: tickI_def imv_def)
  have fn: "triple (imv E U B [] c) (andThen (poll E) (\<lambda>_. andThen (moveBlobs E st files) (\<lambda>_. ret (mergeEntries E entries c, ()))))
      (\<lambda>(c', r) s. imv E U B [] c' s \<and> keyed c' \<and> (\<not> True \<longrightarrow> True)) (imv E U B [] [])"
    if k: "keyed c" and f: "files_ok ?oc U files" and e: "cat_ok ?oc files entries" for c files
  proof -
    have "imv E U B [] (mergeEntries E entries c) s \<and> keyed (mergeEntries E entries c)"
      if s: "imv E U B [] c s" "moved (rev files @ []) s" for s
    proof -
      have "cat_ok ?oc (im_blobs s) entries"
        using e moved_le [of files s] s(2) by (auto simp: moved_def intro: cat_ok_mono)
      then show ?thesis using mergeEntries_ok [of ?oc "im_blobs s" entries c E] s(1) k by (simp add: imv_def)
    qed
    then have "triple (\<lambda>s. imv E U B [] c s \<and> moved (rev files @ []) s) (ret (mergeEntries E entries c, ()))
        (\<lambda>(c', r) s. imv E U B [] c' s \<and> keyed c' \<and> (\<not> True \<longrightarrow> True)) (imv E U B [] [])"
      by (intro triple_ret) auto
    then show ?thesis
      by (intro triple_andThen [OF triple_keeps_weak [OF keeps_pollImage imv_weaken]]
          triple_andThen [OF triple_pre [OF triple_moveBlobs [OF tr f, of _ _ "[]"]]]) (auto simp: moved_def)
  qed
  show ?thesis
    unfolding publish_def
    apply (rule triple_andThen [OF triple_keeps_weak [OF q]], simp)
    apply (rule triple_andThen [OF triple_reads [of _ "\<lambda>files s. imv E U B [] [] s \<and> files_ok ?oc U files \<and> cat_ok ?oc files entries"]])
     apply (auto simp: imv_def intro: files_ok_dir)[1]
    apply (rule triple_fact)
    apply (rule triple_conseq [OF triple_transaction [OF tr, of _ _ True "\<lambda>_ _. True"]])
    using fn by auto
qed

section \<open>The operations\<close>

lemma children_Platform [simp]: "children oc fs (d\<lparr>d_Platform := p\<rparr>) = children oc fs d"
  by (simp add: children_def readBlob_def)

lemma children_readBlob:
  "children oc fs d = Inr kids \<Longrightarrow> oci_isIndex oc (d_MediaType d) \<or> oci_isImage oc (d_MediaType d) \<Longrightarrow> \<exists>b. readBlob oc fs d = Inr b"
  by (auto simp: children_def split: if_splits)

lemma selected_image:
  "selectManifest oc fs p depth d = Inr r \<Longrightarrow>
     (\<exists>b. readBlob oc fs d = Inr b) \<and> oci_isImage oc (d_MediaType r) \<and> (\<exists>kids. children oc fs r = Inr kids)"
  "selectKids oc fs p depth ks = Inr r \<Longrightarrow> oci_isImage oc (d_MediaType r) \<and> (\<exists>kids. children oc fs r = Inr kids)"
proof (induction oc fs p depth d and oc fs p depth ks arbitrary: r and r rule: selectManifest_selectKids.induct)
  case (1 oc fs p depth d)
  obtain kids where k: "children oc fs d = Inr kids" and t: "oci_isIndex oc (d_MediaType d) \<or> oci_isImage oc (d_MediaType d)"
    using "1.prems" by (auto simp: selectManifest.simps [of oc fs p depth d] split: if_splits)
  have "oci_isImage oc (d_MediaType r) \<and> (\<exists>kids. children oc fs r = Inr kids)"
    using "1.prems" "1.IH" k by (cases kids) (auto simp: selectManifest.simps [of oc fs p depth d] split: if_splits)
  with children_readBlob [OF k t] show ?case by simp
next
  case (2 oc fs p depth)
  then show ?case by simp
next
  case (3 oc fs p depth kid kids)
  then show ?case by (auto split: if_splits sum.splits option.splits)
qed

text \<open>The invariant with a catalog that is complete in the staging directory.\<close>

definition staging :: "image_env \<Rightarrow> string set \<Rightarrow> dir \<Rightarrow> catalog \<Rightarrow> imgs \<Rightarrow> bool" where
  "staging E U B entries s \<longleftrightarrow> imv E U B [] [] s \<and> cat_ok (ie_oci E) (im_stage s) entries"

lemma walk_layers:
  "validateLayers (walkOci E s) fs d = Inr u \<Longrightarrow> validateLayers (calm (ie_oci E)) fs d = Inr ()"
  using validateLayers_mono [of "walkOci E s" fs d u fs] by simp

lemma staging_store:
  assumes "staging E U B entries s" "readBlob (ie_oci E) (im_stage s) r = Inr b" "intact (ie_oci E) (im_stage s) d"
  shows "staging E U B (store k \<lparr>e_Root = r, e_Prepared = [(p, d)]\<rparr> entries) s"
proof -
  have "image_entry_ok (ie_oci E) (im_stage s) \<lparr>e_Root = r, e_Prepared = [(p, d)]\<rparr>"
    using assms(2,3) by (simp add: image_entry_ok_def)
  then show ?thesis using assms(1) by (auto simp: staging_def cat_ok_def)
qed

lemma importRoot_staging:
  assumes "staging E U B entries s" "importRoot E ref p r entries s = (res, s')"
  shows "s' = s \<and> (\<forall>x. res = Inr x \<longrightarrow> staging E U B x s)"
proof -
  have "s' = s"
    using assms(2) by (auto simp: importRoot_def Let_def fromE_def prog_defs split: sum.splits prod.splits if_splits)
  moreover have "staging E U B x s" if x: "importRoot E ref p r entries s = (Inr x, s')" for x
  proof -
    obtain d and k :: ref_name where sel: "selectManifest (ie_oci E) (im_stage s) p 0 r = Inr d"
        and lay: "validateLayers (walkOci E s) (im_stage s) d = Inr ()"
        and out: "x = store (rn_Name k) \<lparr>e_Root = r, e_Prepared = [(ie_platform E p, d)]\<rparr> entries"
      using x by (auto simp: importRoot_def Let_def fromE_def prog_defs split: sum.splits prod.splits if_splits)
    have "intact (ie_oci E) (im_stage s) d"
      using selected_image(1) [OF sel] walk_layers [OF lay] by (simp add: intact_def)
    then show ?thesis unfolding out using selected_image(1) [OF sel] assms(1) by (auto intro: staging_store)
  qed
  ultimately show ?thesis using assms(2) by auto
qed

lemma triple_importRoots:
  "triple (staging E U B entries) (importRoots E ref p rs entries) (\<lambda>x. staging E U B x) (imv E U B [] [])"
proof (induction rs arbitrary: entries)
  case Nil
  then show ?case by (simp add: triple_ret)
next
  case (Cons r rs)
  have "triple (staging E U B entries) (importRoot E ref p r entries) (\<lambda>x. staging E U B x) (imv E U B [] [])"
    by (rule tripleI; frule (1) importRoot_staging; auto simp: staging_def)
  then show ?case using Cons.IH by (auto intro: triple_andThen)
qed

lemma triple_after: "triple P m (\<lambda>x s. Q x (f s)) (\<lambda>s. E (f s)) \<Longrightarrow> triple P (after m f) Q E"
  by (fastforce simp: triple_def prog_defs split: prod.splits sum.splits)

lemma imv_unstage [simp]: "imv E U B [] [] (s\<lparr>im_stage := []\<rparr>) = (disk_ok (ie_oci E) U (im_disk s) \<and> map_of B \<subseteq>\<^sub>m map_of (im_blobs s))"
  by (auto simp: imv_def blobs_ok_def cat_ok_def)

lemma triple_staged:
  assumes "triple (imv E U B [] []) body (\<lambda>_. imv E U B [] []) (imv E U B [] [])"
  shows "triple (imv E U B [] []) (staged E body) (\<lambda>_. imv E U B [] []) (imv E U B [] [])"
  unfolding staged_def
proof (rule triple_andThen [OF triple_keeps [OF keeps_io]], rule triple_after, rule triple_andThen [OF triple_modify])
  show "imv E U B [] [] s \<Longrightarrow> imv E U B [] [] (s\<lparr>im_stage := []\<rparr>)" for s
    by (simp add: imv_def)
  show "triple (imv E U B [] []) body (\<lambda>_ s. imv E U B [] [] (s\<lparr>im_stage := []\<rparr>)) (\<lambda>s. imv E U B [] [] (s\<lparr>im_stage := []\<rparr>))"
    by (rule triple_conseq [OF assms]) (auto simp: imv_def)
qed

text \<open>The bytes of an archive are among the contents considered.\<close>

definition archive_in :: "string set \<Rightarrow> (string \<times> err option \<Rightarrow> tar_stream) \<Rightarrow> bool" where
  "archive_in U untar \<longleftrightarrow> (\<forall>input. \<forall>h \<in> set (ts_members (untar input)). reader_in U (tm_Read h))"

lemma triple_Import:
  assumes "trusted E U" "archive_in U untar"
  shows "triple (imv E U B [] []) (ImportImage E st untar file ref platform) (\<lambda>_. imv E U B [] []) (imv E U B [] [])"
proof -
  have im: "keeps (imv E U B [] []) (importMembers E n (ts_members (untar i)) fin x)" for n i fin x
    by (rule keeps_importMembers [OF assms(1)]) (use assms(2) in \<open>unfold archive_in_def, blast\<close>)
  have st: "imv E U B [] [] s \<Longrightarrow> staging E U B [] s" for s by (simp add: staging_def cat_ok_def)
  show ?thesis
    unfolding ImportImage_def Let_def
    by (rule triple_staged)
      (intro triple_andThen [OF triple_keeps [OF keeps_fromE]] triple_andThen [OF triple_keeps [OF im]]
        triple_andThen [OF triple_keeps [OF keeps_failIf]]
        triple_andThen [OF triple_pre [OF triple_importRoots st]]
        triple_pre [OF triple_publish [OF assms(1)]]; simp add: staging_def)+
qed

section \<open>Pull\<close>

text \<open>All that the registry serves is among the contents considered.\<close>

definition registry_in :: "string set \<Rightarrow> registry \<Rightarrow> bool" where
  "registry_in U R \<longleftrightarrow> (\<forall>n ref rd. rg_get R n ref = Inr rd \<longrightarrow> reader_in U (rd_Manifest rd, None)) \<and>
     (\<forall>rd raw. rg_config R rd = Inr raw \<longrightarrow> reader_in U (raw, None)) \<and>
     (\<forall>rd h r. rg_layer R rd h = Inr r \<longrightarrow> reader_in U r)"

lemma runI_keeps: "keeps I m \<Longrightarrow> runI m w = Inr w' \<Longrightarrow> I (pl_imgs w) \<Longrightarrow> I (pl_imgs w') \<and> pl_selected w' = pl_selected w"
  by (auto simp: runI_Inr dest: keepsD)

lemma addBudget_simps [simp]:
  "pl_imgs (addBudget n w) = pl_imgs w" "pl_selected (addBudget n w) = pl_selected w" "pl_visited (addBudget n w) = pl_visited w"
  by (simp_all add: addBudget_def)

lemma stage_put:
  assumes "trusted E U" "reader_in U r" "runI (putStaged E d r) w = Inr w'" "imv E U B S [] (pl_imgs w)"
  shows "imv E U B S [] (pl_imgs w') \<and> pl_selected w' = pl_selected w"
  using runI_keeps [OF keeps_putStaged [OF assms(1,2)] assms(3,4)] .

lemma pullLayers_keeps:
  assumes "trusted E U" "registry_in U R"
  shows "pullLayers E R rd ls w = Inr w' \<Longrightarrow> imv E U B S [] (pl_imgs w) \<Longrightarrow>
    imv E U B S [] (pl_imgs w')"
proof (induction ls arbitrary: w)
  case (Cons l ls)
  obtain r w1 where r: "rg_layer R rd (d_Digest l) = Inr r" and p: "runI (putStaged E l r) (addBudget (d_Size l) w) = Inr w1"
      and ls: "pullLayers E R rd ls w1 = Inr w'"
    using Cons.prems(1) by (auto simp: Let_def)
  have "reader_in U r" using r assms(2) unfolding registry_in_def by blast
  from stage_put [OF assms(1) this p] Cons.prems(2) have "imv E U B S [] (pl_imgs w1)" by simp
  with ls show ?case by (rule Cons.IH)
qed simp

lemma pullImage_keeps:
  assumes "trusted E U" "registry_in U R" "pullImage E R p rd w = Inr w'" "imv E U B S [] (pl_imgs w)"
  shows "imv E U B S [] (pl_imgs w') \<and> pl_selected w' = Some ((rd_Descriptor rd)\<lparr>d_Platform := Some p\<rparr>)"
proof -
  obtain m :: manifest and raw w1 w2 where raw: "rg_config R rd = Inr raw"
      and p: "runI (putStaged E (mf_Config m) (raw, None)) (addBudget (int (length raw)) w) = Inr w1"
      and ls: "pullLayers E R rd (mf_Layers m) w1 = Inr w2" and w': "w' = w2\<lparr>pl_selected := Some ((rd_Descriptor rd)\<lparr>d_Platform := Some p\<rparr>)\<rparr>"
    using assms(3) by (auto simp: pullImage_def)
  have "reader_in U (raw, None)" using raw assms(2) unfolding registry_in_def by blast
  from stage_put [OF assms(1) this p] assms(4) have "imv E U B S [] (pl_imgs w1)" by simp
  from pullLayers_keeps [OF assms(1,2) ls this] show ?thesis unfolding w' by simp
qed

lemma pullMetadata_keeps:
  assumes "trusted E U" "reader_in U (rd_Manifest rd, None)" "pullMetadata E depth rd w = Inr w'" "imv E U B S [] (pl_imgs w)"
  shows "imv E U B S [] (pl_imgs w') \<and> pl_selected w' = pl_selected w \<and> (\<exists>b. readBlob (ie_oci E) (im_stage (pl_imgs w')) (rd_Descriptor rd) = Inr b)"
proof -
  let ?d = "rd_Descriptor rd" and ?w = "w\<lparr>pl_visited := (d_Digest (rd_Descriptor rd), rd_Descriptor rd) # pl_visited w\<rparr>"
  obtain w2 where p: "runI (poll E) ?w = Inr w2" and m: "d_Size ?d \<le> maxMetadataBytes"
      and put: "runI (putStaged E ?d (rd_Manifest rd, None)) (addBudget (d_Size ?d) w2) = Inr w'"
    using assms(3) by (auto simp: pullMetadata_def Let_def)
  have w2: "imv E U B S [] (pl_imgs w2) \<and> pl_selected w2 = pl_selected w"
    using runI_keeps [OF keeps_pollImage p] assms(4) by simp
  obtain s where s: "putBlob (ie_oci E) ?d (rd_Manifest rd, None) s = Inr (im_stage (pl_imgs w'))"
    using put by (auto simp: runI_Inr putStaged_def fromE_def prog_defs split: prod.splits sum.splits)
  obtain c where c: "im_stage (pl_imgs w') = store (oci_sha (ie_oci E) c) (Regular c) s" "d_Digest ?d = sha256 (ie_oci E) c"
      "int (length c) = d_Size ?d" "blobPath (d_Digest ?d) = Inr (oci_sha (ie_oci E) c)"
    using putBlob_stored [OF s] by (auto simp: Let_def)
  have "take (nat maxMetadataBytes + 1) c = c" using c(3) m by (simp add: maxMetadataBytes_def)
  then have "readBlob (ie_oci E) (im_stage (pl_imgs w')) ?d = Inr c"
    using c m by (simp add: readBlob_def readFile_def openFile_def)
  then show ?thesis using stage_put [OF assms(1,2) put] w2 by auto
qed

definition selected_ok :: "image_env \<Rightarrow> pull_state \<Rightarrow> bool" where
  "selected_ok E w \<longleftrightarrow> (\<forall>d. pl_selected w = Some d \<longrightarrow> oci_isImage (ie_oci E) (d_MediaType d))"

lemma pullVisit_keeps:
  "pullVisit E R p repo depth rd w = Inr w' \<Longrightarrow> trusted E U \<Longrightarrow> registry_in U R \<Longrightarrow> reader_in U (rd_Manifest rd, None) \<Longrightarrow>
     imv E U B S [] (pl_imgs w) \<Longrightarrow> selected_ok E w \<Longrightarrow> imv E U B S [] (pl_imgs w') \<and> selected_ok E w'"
  "pullChildren E R p repo depth kids w = Inr w' \<Longrightarrow> trusted E U \<Longrightarrow> registry_in U R \<Longrightarrow>
     imv E U B S [] (pl_imgs w) \<Longrightarrow> selected_ok E w \<Longrightarrow> imv E U B S [] (pl_imgs w') \<and> selected_ok E w'"
proof (induction E R p repo depth rd w and E R p repo depth kids w arbitrary: w' and w' rule: pullVisit_pullChildren.induct)
  case (1 E R p repo depth rd w)
  note g = "1.prems"(1) [unfolded pullVisit.simps [of E R p repo depth rd w] Let_def]
  show ?case
  proof (cases "map_of (pl_visited w) (d_Digest (rd_Descriptor rd))")
    case (Some old)
    then show ?thesis using g "1.prems" by (auto simp: sameVisited_def)
  next
    case None
    then obtain w1 where l: "length (pl_visited w) < 100000" and m: "pullMetadata E depth rd w = Inr w1"
      using g by auto
    have w1: "imv E U B S [] (pl_imgs w1)" "selected_ok E w1"
      using pullMetadata_keeps [OF "1.prems"(2,4) m "1.prems"(5)] "1.prems"(6) by (auto simp: selected_ok_def)
    show ?thesis
    proof (cases "oci_isIndex (ie_oci E) (d_MediaType (rd_Descriptor rd))")
      case True
      then obtain ix where ix: "oci_index (ie_oci E) (rd_Manifest rd) = Inr ix" "ix_SchemaVersion ix = 2"
          and k: "pullChildren E R p repo depth (ix_Manifests ix) w1 = Inr w'"
        using g None l m by auto
      show ?thesis
        using "1.IH" [OF refl _ None m True ix(1) _ k "1.prems"(2,3) w1] l ix(2) by simp
    next
      case False
      then have i: "oci_isImage (ie_oci E) (d_MediaType (rd_Descriptor rd))" and k: "pullImage E R p rd w1 = Inr w'"
        using g None l m by auto
      show ?thesis
        using pullImage_keeps [OF "1.prems"(2,3) k w1(1)] i by (simp add: selected_ok_def)
    qed
  qed
next
  case (2 E R p repo depth w)
  then show ?case by simp
next
  case (3 E R p repo depth child kids w)
  note g = "3.prems"(1) [unfolded pullChildren.simps]
  show ?case
  proof (cases "skipChild E p child w")
    case True
    then show ?thesis using g "3.IH"(1) [OF _ True _ "3.prems"(2-5)] by auto
  next
    case False
    show ?thesis
    proof (cases "map_of (pl_visited w) (d_Digest child)")
      case (Some old)
      then show ?thesis using g False "3.IH"(4) [OF _ False Some _ _ "3.prems"(2-5)] by (auto simp: sameVisited_def)
    next
      case None
      then obtain nxt w1 where n: "rg_get R (im_tick (pl_imgs w)) (repo @ ''@'' @ digestString (d_Digest child)) = Inr nxt"
          and e: "d_Digest (rd_Descriptor nxt) = d_Digest child \<and> d_Size (rd_Descriptor nxt) = d_Size child
                \<and> d_MediaType (rd_Descriptor nxt) = d_MediaType child"
          and v: "pullVisit E R p repo (Suc depth) nxt w = Inr w1" and k: "pullChildren E R p repo depth kids w1 = Inr w'"
          and u: "d_URLs child = []"
        using g False by auto
      have r: "reader_in U (rd_Manifest nxt, None)" using n "3.prems"(3) unfolding registry_in_def by blast
      have "imv E U B S [] (pl_imgs w1) \<and> selected_ok E w1"
        using "3.IH"(2) [OF _ False None n _ v "3.prems"(2,3) r "3.prems"(4,5)] e u by simp
      then show ?thesis using "3.IH"(3) [OF _ False None n _ v k "3.prems"(2,3)] e u by simp
    qed
  qed
qed

text \<open>The walk from the root also leaves the root's own blob in the staging directory.\<close>

lemma pullVisit_root:
  assumes v: "pullVisit E R p repo 0 rd w = Inr w'" and tr: "trusted E U" and R: "registry_in U R"
    and r: "reader_in U (rd_Manifest rd, None)" and w: "imv E U B [] [] (pl_imgs w)" "pl_visited w = []" "selected_ok E w"
  shows "imv E U B [] [] (pl_imgs w') \<and> selected_ok E w' \<and> (\<exists>b. readBlob (ie_oci E) (im_stage (pl_imgs w')) (rd_Descriptor rd) = Inr b)"
proof -
  note g = v [unfolded pullVisit.simps [of E R p repo 0 rd w] Let_def]
  obtain w1 where m: "pullMetadata E 0 rd w = Inr w1" using g w(2) by auto
  obtain b where w1: "imv E U B [] [] (pl_imgs w1)" "selected_ok E w1"
      and b: "readBlob (ie_oci E) (im_stage (pl_imgs w1)) (rd_Descriptor rd) = Inr b"
    using pullMetadata_keeps [OF tr r m w(1)] w(3) by (auto simp: selected_ok_def)
  have S: "imv E U B (im_stage (pl_imgs w1)) [] (pl_imgs w1)" using w1(1) by (simp add: imv_def)
  have "imv E U B (im_stage (pl_imgs w1)) [] (pl_imgs w') \<and> selected_ok E w'"
  proof (cases "oci_isIndex (ie_oci E) (d_MediaType (rd_Descriptor rd))")
    case True
    then obtain kids where "pullChildren E R p repo 0 kids w1 = Inr w'" using g w(2) m by auto
    then show ?thesis using pullVisit_keeps(2) tr R S w1(2) by blast
  next
    case False
    then have i: "oci_isImage (ie_oci E) (d_MediaType (rd_Descriptor rd))" and k: "pullImage E R p rd w1 = Inr w'"
      using g w(2) m by auto
    show ?thesis using pullImage_keeps [OF tr R k S] i by (simp add: selected_ok_def)
  qed
  then show ?thesis using readBlob_mono [OF _ b] by (auto simp: imv_def)
qed

lemma triple_pullWalk:
  assumes tr: "trusted E U" and R: "registry_in U R" and r: "reader_in U (rd_Manifest rd, None)"
  shows "triple (imv E U B [] []) (pullWalk E R p repo rd)
    (\<lambda>sel s. imv E U B [] [] s \<and> (\<exists>b. readBlob (ie_oci E) (im_stage s) (rd_Descriptor rd) = Inr b) \<and>
       (\<forall>d. sel = Some d \<longrightarrow> oci_isImage (ie_oci E) (d_MediaType d)))
    (imv E U B [] [])"
proof (rule tripleI)
  fix s e s' assume "imv E U B [] [] s" "pullWalk E R p repo rd s = (Inl e, s')"
  then show "imv E U B [] [] s'" by (auto simp: pullWalk_def split: sum.splits)
next
  fix s x s' assume s: "imv E U B [] [] s" and p: "pullWalk E R p repo rd s = (Inr x, s')"
  let ?w = "\<lparr>pl_imgs = s, pl_budget = 0, pl_visited = [], pl_selected = None\<rparr>"
  obtain w' where v: "pullVisit E R p repo 0 rd ?w = Inr w'" "x = pl_selected w'" "s' = pl_imgs w'"
    using p by (auto simp: pullWalk_def split: sum.splits)
  show "imv E U B [] [] s' \<and> (\<exists>b. readBlob (ie_oci E) (im_stage s') (rd_Descriptor rd) = Inr b) \<and>
       (\<forall>d. x = Some d \<longrightarrow> oci_isImage (ie_oci E) (d_MediaType d))"
    using pullVisit_root [OF v(1) tr R r, of B] s v(2,3) by (simp add: selected_ok_def)
qed

lemma validated_children: "validateGraph oc fs 0 d [] = Inr r \<Longrightarrow> \<exists>kids. children oc fs d = Inr kids"
  by (auto simp: validateGraph.simps [of oc fs 0 d])

lemma children_walkOci [simp]: "children (walkOci E s) = children (ie_oci E)"
  using children_calm [of "walkOci E s"] children_calm [of "ie_oci E"] by (simp del: children_calm)

lemma staging_selected:
  assumes "imv E U B [] [] s" "readBlob (ie_oci E) (im_stage s) r = Inr b" "oci_isImage (ie_oci E) (d_MediaType d)"
    "validateGraph (walkOci E s) (im_stage s) 0 d [] = Inr x" "validateLayers (walkOci E s) (im_stage s) d = Inr ()"
  shows "cat_ok (ie_oci E) (im_stage s) [(k, \<lparr>e_Root = r, e_Prepared = [(q, d)]\<rparr>)]"
  using assms validated_children [OF assms(4)] walk_layers [OF assms(5)]
  by (auto simp: cat_ok_def image_entry_ok_def intact_def)

lemma triple_Pull:
  assumes tr: "trusted E U" and R: "registry_in U R"
  shows "triple (imv E U B [] []) (PullImage E st R ref platform) (\<lambda>_. imv E U B [] []) (imv E U B [] [])"
proof -
  let ?has = "\<lambda>r s. \<exists>b. readBlob (ie_oci E) (im_stage s) r = Inr b"
  have tail: "triple (\<lambda>s. imv E U B [] [] s \<and> ?has r s \<and> (\<forall>d. Some d0 = Some d \<longrightarrow> oci_isImage (ie_oci E) (d_MediaType d)))
      (andThen (fromE (\<lambda>s. validateGraph (walkOci E s) (im_stage s) 0 d0 [])) (\<lambda>_.
       andThen (fromE (\<lambda>s. validateLayers (walkOci E s) (im_stage s) d0)) (\<lambda>_.
       publish E st [(k, \<lparr>e_Root = r, e_Prepared = [(q, d0)]\<rparr>)])))
      (\<lambda>_. imv E U B [] []) (imv E U B [] [])" for d0 r k q
    by (rule triple_andThen [OF triple_fromE [where Q = "\<lambda>x s. imv E U B [] [] s \<and> ?has r s \<and>
          oci_isImage (ie_oci E) (d_MediaType d0) \<and> validateGraph (walkOci E s) (im_stage s) 0 d0 [] = Inr x"]],
        simp, simp, rule triple_andThen [OF triple_fromE [where Q = "\<lambda>_ s. imv E U B [] [] s \<and>
          cat_ok (ie_oci E) (im_stage s) [(k, \<lparr>e_Root = r, e_Prepared = [(q, d0)]\<rparr>)]"]])
      (auto intro: staging_selected triple_publish [OF tr])
  show ?thesis
    unfolding PullImage_def Let_def
  proof (rule triple_andThen [OF triple_keeps [OF keeps_fromE]], rule triple_staged)
    fix r :: ref_name
    let ?p = "canonicalPlatform platform"
    have walk: "triple (\<lambda>s. imv E U B [] [] s \<and> reader_in U (rd_Manifest rd, None)) (pullWalk E R ?p (rn_Repository r) rd)
      (\<lambda>sel s. imv E U B [] [] s \<and> ?has (rd_Descriptor rd) s \<and> (\<forall>d. sel = Some d \<longrightarrow> oci_isImage (ie_oci E) (d_MediaType d)))
      (imv E U B [] [])" for rd
      by (rule triple_fact, rule triple_pullWalk [OF tr R])
    have get: "reader_in U (rd_Manifest rd, None)" if "rg_get R n (rn_Name r) = Inr rd" for n rd
      using R that unfolding registry_in_def by blast
    show "triple (imv E U B [] []) (andThen (fromE (\<lambda>s. rg_get R (im_tick s) (rn_Name r))) (\<lambda>rd.
        andThen (failIf (case rn_Digest r of Some g \<Rightarrow> g \<noteq> digestString (d_Digest (rd_Descriptor rd)) | None \<Rightarrow> False)
          (Msg ''registry root does not match requested digest'')) (\<lambda>_.
        andThen (pullWalk E R ?p (rn_Repository r) rd) (\<lambda>selected.
        case selected of
          None \<Rightarrow> throw (Msg ''image has no variant of the platform; emulation is not enabled'')
        | Some d \<Rightarrow>
            andThen (fromE (\<lambda>s. validateGraph (walkOci E s) (im_stage s) 0 d [])) (\<lambda>_.
            andThen (fromE (\<lambda>s. validateLayers (walkOci E s) (im_stage s) d)) (\<lambda>_.
            publish E st [(rn_Name r, \<lparr>e_Root = rd_Descriptor rd, e_Prepared = [(ie_platform E ?p, d)]\<rparr>)]))))))
        (\<lambda>_. imv E U B [] []) (imv E U B [] [])"
      by (rule triple_andThen [OF triple_fromE [where Q = "\<lambda>rd s. imv E U B [] [] s \<and> reader_in U (rd_Manifest rd, None)"]],
          use get in blast, simp, rule triple_andThen [OF triple_keeps_weak [OF keeps_failIf conjunct1]], assumption,
          rule triple_andThen [OF walk], rule triple_case_option, rule triple_throw, simp, simp only:, rule tail)
  qed
qed

section \<open>Every operation\<close>

definition discard :: "'a ip \<Rightarrow> unit ip" where
  "discard m = andThen m (\<lambda>_. ret ())"

text \<open>The calls of the store's interface and the moments at which other processes run.\<close>

inductive image_call :: "image_env \<Rightarrow> string set \<Rightarrow> unit ip \<Rightarrow> bool" for E U where
  call_import: "archive_in U untar \<Longrightarrow> image_call E U (ImportImage E st untar file ref p)"
| call_pull: "registry_in U R \<Longrightarrow> image_call E U (PullImage E st R ref p)"
| call_remove: "image_call E U (RemoveImage E ref force)"
| call_resolve: "image_call E U (discard (ResolveRef E ref p))"
| call_validate: "image_call E U (ValidateHandle E a)"
| call_list: "image_call E U (discard (ListImages E))"
| call_inspect: "image_call E U (discard (InspectImage E ref p))"
| call_export: "image_call E U (discard (ExportImage E ref dest p full))"
| call_open: "image_call E U (OpenStore E)"
| others: "image_call E U (outside E)"

inductive image_steps :: "image_env \<Rightarrow> string set \<Rightarrow> imgs \<Rightarrow> imgs \<Rightarrow> bool" for E U s where
  steps_none: "image_steps E U s s"
| steps_call: "image_steps E U s t \<Longrightarrow> image_call E U m \<Longrightarrow> m t = (r, t') \<Longrightarrow> image_steps E U s t'"

lemma keeps_reading:
  assumes "trusted E U"
  shows "keeps (imv E U B [] []) (imageTransaction E (\<lambda>c. fromE (\<lambda>_. bindE (f c) (\<lambda>x. Inr (c, x)))) False)"
  unfolding keeps_triple
  by (rule triple_conseq [OF triple_transaction [OF assms, where Q = "\<lambda>_ _. True"]])
    (auto intro!: triple_fromE intro: imv_weaken)

lemma keeps_Resolve [keeps_rules]: "trusted E U \<Longrightarrow> keeps (imv E U B [] []) (ResolveRef E ref p)"
  unfolding ResolveRef_def by (intro keeps_rules keeps_reading)

lemma keeps_List [keeps_rules]:
  assumes "trusted E U"
  shows "keeps (imv E U B [] []) (ListImages E)"
proof -
  have "keeps (imv E U B [] []) (imageTransaction E (\<lambda>c. ret (c, c)) False)"
    unfolding keeps_triple
    by (rule triple_conseq [OF triple_transaction [OF assms, where Q = "\<lambda>_ _. True"]])
      (auto intro!: triple_ret intro: imv_weaken)
  then show ?thesis unfolding ListImages_def by (intro keeps_rules assms)
qed

lemma removeFrom_subset: "removeFrom E ref force c = Inr c' \<Longrightarrow> \<exists>P. c' = filter P c"
  unfolding removeFrom_def remove_key_def
  by (auto split: sum.splits option.splits if_splits intro: exI [of _ "\<lambda>_. True"])

lemma cat_ok_filter: "cat_ok oc fs c \<Longrightarrow> cat_ok oc fs (filter P c)"
  by (force simp: cat_ok_def)

lemma keeps_RemoveImage:
  assumes "trusted E U"
  shows "keeps (imv E U B [] []) (RemoveImage E ref force)"
proof -
  have k: "keyed (filter P c)" if "keyed c" for P and c :: catalog
    using that by (simp add: keyed_def distinct_map_filter)
  show ?thesis
    unfolding keeps_triple RemoveImage_def
    by (rule triple_conseq [OF triple_transaction [OF assms, where Q = "\<lambda>_ _. True"]])
      (auto intro!: triple_fromE intro: imv_weaken k imv_cat cat_ok_filter dest!: removeFrom_subset simp: imv_def)
qed

lemma keeps_Open:
  assumes "trusted E U"
  shows "keeps (imv E U B [] []) (OpenStore E)"
proof -
  let ?m = "\<lambda>c. andThen (reads (\<lambda>s. dk_layout (im_disk s))) (\<lambda>layout. case layout of
         Some b \<Rightarrow> andThen (failIf (ie_layout E b \<noteq> Inr ''1.0.0'') (Msg ''invalid owned OCI layout version'')) (\<lambda>_. ret (c, ()))
       | None \<Rightarrow> andThen (io E) (\<lambda>_. andThen (modify (onDisk (dk_layout_update (\<lambda>_. Some ''{\"imageLayoutVersion\":\"1.0.0\"}'')))) (\<lambda>_. ret (c, ()))))"
  have body: "triple (imv E U B [] c) (?m c) (\<lambda>(c', r) s. imv E U B [] c' s \<and> keyed c') (imv E U B [] [])" if "keyed c" for c
    by (rule triple_andThen [OF triple_keeps_weak [OF keeps_reads imv_weaken]], assumption, rule triple_case_option,
        rule triple_andThen [OF triple_keeps_weak [OF keeps_io imv_weaken]], assumption,
        rule triple_andThen [OF triple_keeps_weak [OF keeps_modify imv_weaken]], simp, assumption, rule triple_ret, simp add: that,
        rule triple_andThen [OF triple_keeps_weak [OF keeps_failIf imv_weaken]], assumption, rule triple_ret, simp add: that)
  have "keeps (imv E U B [] []) (imageTransaction E ?m False)"
    unfolding keeps_triple
    by (rule triple_conseq [OF triple_transaction [OF assms, where Q = "\<lambda>_ _. True"]]) (use body in \<open>auto simp: case_prod_beta\<close>)
  then show ?thesis unfolding OpenStore_def by (intro keeps_rules)
qed

lemma keeps_Export [keeps_rules]: "trusted E U \<Longrightarrow> keeps (imv E U B [] []) (ExportImage E ref dest p full)"
  unfolding ExportImage_def exportDescriptor_def Let_def by (intro keeps_rules keeps_reading)

lemma keeps_Inspect [keeps_rules]: "trusted E U \<Longrightarrow> keeps (imv E U B [] []) (InspectImage E ref p)"
  unfolding InspectImage_def by (intro keeps_rules)

lemma keeps_discard [keeps_rules]: "keeps I m \<Longrightarrow> keeps I (discard m)"
  unfolding discard_def by (intro keeps_rules)

lemma keeps_call: "trusted E U \<Longrightarrow> image_call E U m \<Longrightarrow> keeps (imv E U B [] []) m"
  by (erule image_call.cases)
    (auto simp: keeps_triple [symmetric] ValidateHandle_def intro!: keeps_rules keeps_RemoveImage keeps_Open
      triple_Import [folded keeps_triple] triple_Pull [folded keeps_triple])

lemma keeps_steps: "image_steps E U s t \<Longrightarrow> trusted E U \<Longrightarrow> imv E U B [] [] s \<Longrightarrow> imv E U B [] [] t"
  by (induction rule: image_steps.induct) (auto dest: keeps_call keepsD)

section \<open>Complete images\<close>

text \<open>
  The layer's blob is in the store under its digest, and its decoding ends without an error in
  content with the identity that the config announces.
\<close>

definition layer_ok :: "oci \<Rightarrow> dir \<Rightarrow> descriptor \<Rightarrow> v1_hash \<Rightarrow> bool" where
  "layer_ok oc fs l h \<longleftrightarrow> (\<exists>c out. content fs (d_Digest l) = Some c \<and> sha256 oc c = d_Digest l \<and>
     layerReader oc (d_MediaType l) c = Inr (out, None) \<and> sha256 oc out = h)"

definition complete_image :: "oci \<Rightarrow> dir \<Rightarrow> descriptor \<Rightarrow> bool" where
  "complete_image oc fs d \<longleftrightarrow> oci_isImage oc (d_MediaType d) \<and>
     (\<exists>b m cb cfg. content fs (d_Digest d) = Some b \<and> sha256 oc b = d_Digest d \<and> oci_manifest oc b = Inr m \<and>
        content fs (d_Digest (mf_Config m)) = Some cb \<and> sha256 oc cb = d_Digest (mf_Config m) \<and>
        oci_config oc cb = Inr cfg \<and> list_all2 (layer_ok oc fs) (mf_Layers m) (cf_DiffIDs cfg))"

lemma readBlob_content:
  assumes "readBlob oc fs d = Inr b"
  shows "content fs (d_Digest d) = Some b \<and> sha256 oc b = d_Digest d"
proof -
  obtain c where c: "map_of fs (h_Hex (d_Digest d)) = Some (Regular c)" "b = take (nat maxMetadataBytes + 1) c"
      "int (length b) = d_Size d" "d_Size d \<le> maxMetadataBytes" "sha256 oc b = d_Digest d"
    using assms by (auto simp: readBlob_def readFile_def)
  then have "b = c" by (auto simp: maxMetadataBytes_def min_def split: if_splits)
  with c show ?thesis by (simp add: content_def)
qed

lemma readUpTo_all: "readUpTo n r = Inr b \<Longrightarrow> length b < n \<Longrightarrow> r = (b, None)"
  by (cases r) (auto simp: readUpTo_def min_def split: option.splits if_splits)

lemma checkLayers_ok:
  "checkLayers oc fs ds hs remaining n = Inr () \<Longrightarrow> blobs_ok oc U fs \<Longrightarrow> length ds = length hs \<Longrightarrow> 0 \<le> remaining \<Longrightarrow>
     list_all2 (layer_ok oc fs) ds hs"
proof (induction oc fs ds hs remaining n rule: checkLayers.induct)
  case (1 oc fs d ds h hs remaining n)
  obtain p c r b where g: "blobPath (d_Digest d) = Inr p" "openFile fs p = Inr c" "layerReader oc (d_MediaType d) c = Inr r"
      "ctxErrAt oc n = Inr ()" "readUpTo (nat remaining + 1) r = Inr b" "int (length b) \<le> remaining" "sha256 oc b = h"
      "checkLayers oc fs ds hs (remaining - int (length b)) (Suc n) = Inr ()"
    using "1.prems"(1) by auto
  have "r = (b, None)" using readUpTo_all [OF g(5)] g(6) by simp
  moreover have "sha256 oc c = d_Digest d"
    using g(1,2) "1.prems"(2) by (cases "d_Digest d") (auto simp: sha256_def blobs_ok_def)
  ultimately have "layer_ok oc fs d h"
    using g by (auto simp: layer_ok_def content_def)
  moreover have "list_all2 (layer_ok oc fs) ds hs"
    using "1.IH" [OF g(1-5) _ _ g(8)] g(6,7) "1.prems"(2-4) by simp
  ultimately show ?case by simp
qed auto

lemma intact_complete:
  assumes "intact oc fs d" "blobs_ok oc U fs"
  shows "complete_image oc fs d"
proof -
  obtain b m cb cfg where g: "readBlob oc fs d = Inr b" "oci_manifest oc b = Inr m" "readBlob oc fs (mf_Config m) = Inr cb"
      "oci_config oc cb = Inr cfg" "length (cf_DiffIDs cfg) = length (mf_Layers m)"
      "checkLayers (calm oc) fs (mf_Layers m) (cf_DiffIDs cfg) MaxArchiveBytes 0 = Inr ()"
    using assms(1) by (auto simp: intact_def validateLayers_def)
  have "blobs_ok (calm oc) U fs" using assms(2) by (simp add: blobs_ok_def)
  then have "list_all2 (layer_ok (calm oc) fs) (mf_Layers m) (cf_DiffIDs cfg)"
    using checkLayers_ok [OF g(6)] g(5) by (simp add: MaxArchiveBytes_def)
  moreover have "layer_ok (calm oc) fs = layer_ok oc fs" by (simp add: layer_ok_def fun_eq_iff)
  ultimately show ?thesis
    using readBlob_content [OF g(1)] readBlob_content [OF g(3)] g(2,4) assms(1)
    unfolding complete_image_def intact_def by auto
qed

text \<open>
  C39: Whatever sequence of imports, pulls, removals, queries and exports this process runs, with the
  moments at which other processes publish in between, every platform that the catalog lists as
  prepared is a complete image in the store: manifest, config and layers are there under their
  digests and every layer decodes to the content the config names; references to one root list the
  same platforms, and a stored blob keeps its content. This holds on every error path too. The
  digest is taken to be free of collisions on the contents \<open>U\<close> that occur.
\<close>

theorem published_images_are_complete:
  assumes "image_steps E U s t" "trusted E U" "disk_ok (ie_oci E) U (im_disk s)" "im_stage s = []"
  shows "map_of (im_blobs s) \<subseteq>\<^sub>m map_of (im_blobs t) \<and>
    (\<forall>c. dk_catalog (im_disk t) = References c \<longrightarrow> shared c \<and>
      (\<forall>e \<in> snd ` set c. \<forall>d \<in> snd ` set (e_Prepared e). complete_image (ie_oci E) (im_blobs t) d))"
proof -
  have "imv E U (im_blobs s) [] [] s" using assms(3,4) by (simp add: imv_def cat_ok_def)
  then have "imv E U (im_blobs s) [] [] t" using keeps_steps [OF assms(1,2)] by blast
  then have m: "map_of (im_blobs s) \<subseteq>\<^sub>m map_of (im_blobs t)" and d: "disk_ok (ie_oci E) U (im_disk t)"
    by (simp_all add: imv_def)
  have "complete_image (ie_oci E) (im_blobs t) x"
    if "dk_catalog (im_disk t) = References c" "e \<in> snd ` set c" "x \<in> snd ` set (e_Prepared e)" for c e x
  proof (rule intact_complete)
    show "blobs_ok (ie_oci E) U (im_blobs t)" using d by (simp add: disk_ok_def)
    have "cat_ok (ie_oci E) (im_blobs t) c" using d that(1) by (simp add: disk_ok_def)
    then show "intact (ie_oci E) (im_blobs t) x" using that(2,3) unfolding cat_ok_def image_entry_ok_def by blast
  qed
  moreover have "shared c" if "dk_catalog (im_disk t) = References c" for c
    using d that by (simp add: disk_ok_def)
  ultimately show ?thesis using m by blast
qed

definition exEnv :: image_env where
  "exEnv = \<lparr>ie_oci = exOci, ie_io = (\<lambda>_. None), ie_ctx = (\<lambda>_ _. None), ie_range = (\<lambda>_ ks. ks),
     ie_parse = (\<lambda>r. Inr \<lparr>rn_Name = r, rn_Repository = r, rn_Digest = None\<rparr>), ie_layout = (\<lambda>_. Inr ''1.0.0''),
     ie_platform = (\<lambda>_. ''linux/arm64''), ie_outside = (\<lambda>_ dk. dk)\<rparr>"

definition exMember :: "string \<Rightarrow> string \<Rightarrow> tar_member" where
  "exMember n c = \<lparr>tm_Name = n, tm_Type = TypeReg, tm_Size = int (length c), tm_Read = (c, None), tm_Consumed = 1\<rparr>"

definition exArchive :: "string \<times> err option \<Rightarrow> tar_stream" where
  "exArchive input = \<lparr>ts_members = [exMember ''oci-layout'' ''aaaa'', exMember ''./index.json'' ''aaaaa'',
       exMember (''blobs/sha256/'' @ replicate 64 CHR ''a'') ''a'', exMember (''blobs/sha256/'' @ replicate 64 CHR ''b'') ''aa'',
       exMember (''blobs/sha256/'' @ replicate 64 CHR ''c'') ''aaa''], ts_end = None, ts_consumed = 1\<rparr>"

definition exStat :: "string \<Rightarrow> stat" where
  "exStat p = \<lparr>st_File = 0, st_ModTime = 0, st_Mode = 0, st_Change = 0\<rparr>"

definition exEmpty :: imgs where
  "exEmpty = \<lparr>im_disk = \<lparr>dk_blobs = [], dk_stat = exStat, dk_catalog = Absent, dk_index = None, dk_layout = None\<rparr>,
     im_stage = [], im_cache = [], im_tick = 0\<rparr>"

definition exIndex :: index_manifest where
  "exIndex = \<lparr>ix_SchemaVersion = 2, ix_Manifests = [exDesc ''image'' ''aaa'']\<rparr>"

definition exSeen :: "string list" where
  "exSeen = rev [''oci-layout'', ''index.json'', ''blobs/sha256/'' @ replicate 64 CHR ''a'',
     ''blobs/sha256/'' @ replicate 64 CHR ''b'', ''blobs/sha256/'' @ replicate 64 CHR ''c'']"

definition exStaged :: dir where
  "exStaged = [(replicate 64 CHR ''a'', Regular ''a''), (replicate 64 CHR ''b'', Regular ''aa''), (replicate 64 CHR ''c'', Regular ''aaa'')]"

lemma exMembers:
  "\<exists>n. importMembers exEnv 0 (ts_members (exArchive x)) None \<lparr>imp_seen = [], imp_index = noIndex, imp_layoutOK = False\<rparr> (exEmpty\<lparr>im_tick := 1\<rparr>)
     = (Inr \<lparr>imp_seen = exSeen, imp_index = exIndex, imp_layoutOK = True\<rparr>, exEmpty\<lparr>im_tick := n, im_stage := exStaged\<rparr>)"
  by (simp add: exEnv_def exArchive_def exMember_def exEmpty_def importMember_def Let_def io_def poll_def
      prog_defs fromE_def tickI_def example_eval trimPrefix_def hasPrefix_def hasSuffix_def putStaged_def putBlob_def newHash_def readUpTo_def
      blobDescriptor_def readAll_def after_def withDefer_def exIndex_def exSeen_def exStaged_def store_def)

definition exEntries :: catalog where
  "exEntries = [(''app'', \<lparr>e_Root = exDesc ''image'' ''aaa'', e_Prepared = [(''linux/arm64'', (exDesc ''image'' ''aaa'')\<lparr>d_Platform := Some exPlatform\<rparr>)]\<rparr>)]"

lemma exWalk [simp]: "walkOci exEnv s = exOci" "ie_oci exEnv = exOci" "ie_platform exEnv p = ''linux/arm64''"
    "ie_parse exEnv r = Inr \<lparr>rn_Name = r, rn_Repository = r, rn_Digest = None\<rparr>" "d_RefName (exDesc mt c) = ''app''" "ie_outside exEnv n dk = dk"
  by (simp_all add: walkOci_def exEnv_def exOci_def exDesc_def)

lemma exValidate: "\<exists>r. validateGraph exOci exStaged 0 (exDesc ''image'' ''aaa'') [] = Inr r"
  by (simp add: validateGraph.simps example_eval exStaged_def)

lemma exSelect: "selectManifest exOci exStaged exPlatform 0 (exDesc ''image'' ''aaa'') =
    Inr ((exDesc ''image'' ''aaa'')\<lparr>d_Platform := Some exPlatform\<rparr>)"
  by (simp add: selectManifest.simps configPlatform_def example_eval exStaged_def samePlatform_def canonicalPlatform_def)

lemma exLayers: "validateLayers exOci exStaged ((exDesc ''image'' ''aaa'')\<lparr>d_Platform := p\<rparr>) = Inr ()"
  by (simp add: validateLayers_def example_eval exStaged_def layerReader_def hasSuffix_def readUpTo_def)

lemma exRoots:
  "importRoots exEnv [] exPlatform [exDesc ''image'' ''aaa''] [] (s\<lparr>im_stage := exStaged\<rparr>) = (Inr exEntries, s\<lparr>im_stage := exStaged\<rparr>)"
proof -
  obtain r where "validateGraph exOci exStaged 0 (exDesc ''image'' ''aaa'') [] = Inr r" using exValidate ..
  then show ?thesis
    by (simp add: importRoot_def Let_def prog_defs fromE_def exSelect exLayers exEntries_def store_def)
qed

lemma exPublish:
  "\<exists>t. publish exEnv exStat exEntries (exEmpty\<lparr>im_tick := n, im_stage := exStaged\<rparr>) = (Inr (), t) \<and> dk_catalog (im_disk t) = References exEntries"
  by (simp add: publish_def prog_defs io_def poll_def fromE_def outside_def imageTransaction_def readCatalog_def writeIndex_def
      commitCatalog_def exEnv_def exEmpty_def tickI_def onDisk_def exStaged_def renameIn_def mergeEntries_def mergeEntry_def
      sharePrepared_def preparedOf_def range_map_def map_filter_def exEntries_def store_def remove_key_def)

lemma exImport:
  "\<exists>t. ImportImage exEnv exStat exArchive (Inr ''file'') [] exPlatform exEmpty = (Inr (), t) \<and> dk_catalog (im_disk t) = References exEntries"
proof -
  obtain n where m: "importMembers exEnv 0 (ts_members (exArchive (''file'', None))) None \<lparr>imp_seen = [], imp_index = noIndex, imp_layoutOK = False\<rparr>
      (exEmpty\<lparr>im_tick := 1\<rparr>) = (Inr \<lparr>imp_seen = exSeen, imp_index = exIndex, imp_layoutOK = True\<rparr>, exEmpty\<lparr>im_tick := n, im_stage := exStaged\<rparr>)"
    using exMembers ..
  obtain t where p: "publish exEnv exStat exEntries (exEmpty\<lparr>im_tick := n, im_stage := exStaged\<rparr>) = (Inr (), t)"
      "dk_catalog (im_disk t) = References exEntries"
    using exPublish by blast
  have io: "io exEnv exEmpty = (Inr (), exEmpty\<lparr>im_tick := 1\<rparr>)" and st: "exEmpty\<lparr>im_tick := Suc 0, im_stage := []\<rparr> = exEmpty\<lparr>im_tick := Suc 0\<rparr>"
    by (simp_all add: io_def prog_defs fromE_def exEnv_def exEmpty_def tickI_def)
  have ix: "ix_SchemaVersion exIndex = 2" "ix_Manifests exIndex = [exDesc ''image'' ''aaa'']" by (simp_all add: exIndex_def)
  have arch: "ts_end (exArchive x) = None" "ts_consumed (exArchive x) = 1" "archiveInput exOci ''file'' = Inr (''file'', None)"
      "canonicalPlatform exPlatform = exPlatform" for x
    by (simp_all add: exArchive_def archiveInput_def canonicalPlatform_def exPlatform_def)
  show ?thesis
    using m p exRoots [of "exEmpty\<lparr>im_tick := n\<rparr>"]
    by (simp add: ImportImage_def staged_def Let_def prog_defs fromE_def io st arch ix MaxArchiveBytes_def del: importRoots.simps importMembers.simps)
qed

definition exContents :: "string set" where
  "exContents = (\<lambda>n. replicate n CHR ''a'') ` {..5}"

lemma published_images_are_complete_witness:
  "\<exists>t. image_steps exEnv exContents exEmpty t \<and> dk_catalog (im_disk t) = References exEntries \<and>
     (\<forall>e \<in> snd ` set exEntries. \<forall>d \<in> snd ` set (e_Prepared e). complete_image exOci (im_blobs t) d)"
proof -
  obtain t where t: "ImportImage exEnv exStat exArchive (Inr ''file'') [] exPlatform exEmpty = (Inr (), t)"
      "dk_catalog (im_disk t) = References exEntries"
    using exImport by blast
  have r: "reader_in exContents (replicate m CHR ''a'', None)" if "m \<le> 5" for m
    using that by (auto simp: reader_in_def exContents_def intro!: image_eqI)
  have "archive_in exContents exArchive"
    using r [of 1] r [of 2] r [of 3] r [of 4] r [of 5]
    by (auto simp: archive_in_def exArchive_def exMember_def numeral_eq_Suc)
  then have s: "image_steps exEnv exContents exEmpty t"
    using steps_call [OF steps_none call_import t(1)] by blast
  have "inj_on (oci_sha exOci) exContents"
    by (auto simp: inj_on_def exContents_def exOci_def atMost_def le_Suc_eq numeral_eq_Suc)
  then have "trusted exEnv exContents"
    by (simp add: trusted_def publishes_def)
  then show ?thesis
    using published_images_are_complete [OF s] s t(2) by (auto simp: exEmpty_def disk_ok_def)
qed

end
