(* ===== verification/Registry_Policy.thy ===== *)
theory Registry_Policy
  imports Net_Address "HOL-Library.Word"
begin

text \<open>
  \<open>src/internal/images/registry.go\<close> and \<open>registry_diagnostic.go\<close>: the round tripper that all requests
  of a pull go through, the addresses it may connect to and the bounded diagnostics of its errors.

  The transport below is a function of the number of the request and the request; an error of it is
  what \<open>errors.Is\<close> and \<open>errors.As\<close> find in it (\<open>base_error\<close>). \<open>url.Parse\<close> is a parameter. The state keeps
  the realms learnt from bearer challenges and the requests handed to the transport.
\<close>

section \<open>Requests and responses\<close>

record reg_url =
  ru_Scheme :: string
  ru_Hostname :: string
  ru_Port :: string
  ru_User :: bool
  ru_Fragment :: string
  ru_Path :: string
  ru_EscapedPath :: string

record reg_request =
  rr_Method :: string
  rr_URL :: reg_url
  rr_Header :: "(string \<times> string list) list"
  rr_Stage :: "string option"

record registry_failure =
  rf_category :: string
  rf_stage :: string
  rf_status :: int

record reg_response =
  rp_Status :: int
  rp_Challenges :: "string list"
  rp_Request :: "reg_request option"
  rp_Stage :: string

record base_error =
  be_canceled :: bool
  be_deadline :: bool
  be_response :: "registry_failure option"
  be_transport :: "(int \<times> reg_request option) option"
  be_diagnostic :: "registry_failure option"
  be_dns :: bool
  be_timeout :: bool

datatype reg_error = RegCanceled | RegDeadline | RegFailure registry_failure

section \<open>Authorities\<close>

definition registryAuthority :: "reg_url \<Rightarrow> string" where
  "registryAuthority u =
     (let host = toLower (ru_Hostname u);
          port = (if ru_Scheme u = ''https'' \<and> ru_Port u = ''443'' \<or> ru_Scheme u = ''http'' \<and> ru_Port u = ''80''
                  then [] else ru_Port u) in
      if port \<noteq> [] then JoinHostPort host port
      else if CHR '':'' \<in> set host then ''['' @ host @ '']''
      else host)"

record registry_policy =
  po_primary :: string
  po_hub :: bool
  po_insecure :: bool

definition registryHost :: "registry_policy \<Rightarrow> string \<Rightarrow> bool" where
  "registryHost p host \<longleftrightarrow> host = po_primary p \<or> po_hub p \<and> (host = ''registry-1.docker.io'' \<or> host = ''index.docker.io'')"

definition tokenHost :: "registry_policy \<Rightarrow> string \<Rightarrow> bool" where
  "tokenHost p host \<longleftrightarrow> registryHost p host \<or> po_hub p \<and> host = ''auth.docker.io''"

definition cdnHost :: "registry_policy \<Rightarrow> string \<Rightarrow> bool" where
  "cdnHost p host \<longleftrightarrow>
     po_hub p \<and> (host = ''production.cloudflare.docker.com'' \<or> host = ''production.cloudfront.docker.com''
       \<or> hasSuffix host ''.r2.cloudflarestorage.com'')
     \<or> po_primary p = ''ghcr.io'' \<and> (host = ''pkg-containers.githubusercontent.com''
       \<or> hasSuffix host ''.pkg-containers.githubusercontent.com'')"

text \<open>The policy of one pull, from the scheme and the registry of the reference.\<close>

definition policyFor :: "reg_url \<Rightarrow> registry_policy" where
  "policyFor registry =
     (let primary = registryAuthority registry in
      \<lparr>po_primary = primary, po_hub = (primary = ''index.docker.io'' \<or> primary = ''registry-1.docker.io'' \<or> primary = ''docker.io''),
       po_insecure = (ru_Scheme registry = ''http'')\<rparr>)"

section \<open>Diagnostics\<close>

definition boundedRegistryFailure :: "string \<Rightarrow> string \<Rightarrow> int \<Rightarrow> registry_failure" where
  "boundedRegistryFailure category stage status =
     \<lparr>rf_category = (if category \<in> {''upstream_status'', ''authentication'', ''dns'', ''timeout'', ''read'', ''policy''} then category else ''unknown''),
      rf_stage = (if stage \<in> {''registry-ping'', ''auth'', ''manifest'', ''blob'', ''transport''} then stage else ''unknown''),
      rf_status = (if status < 100 \<or> status > 599 then 0 else status)\<rparr>"

definition rebound :: "registry_failure \<Rightarrow> registry_failure" where
  "rebound f = boundedRegistryFailure (rf_category f) (rf_stage f) (rf_status f)"

definition registryRequestStage :: "reg_request option \<Rightarrow> string" where
  "registryRequestStage req =
     (case req of
        None \<Rightarrow> ''unknown''
      | Some r \<Rightarrow>
          (case rr_Stage r of
             Some stage \<Rightarrow> rf_stage (boundedRegistryFailure ''unknown'' stage 0)
           | None \<Rightarrow>
               let path = ru_Path (rr_URL r); parts = splitOn (CHR ''/'') path; n = length parts in
               if path = ''/v2/'' then ''registry-ping''
               else if registryAuthority (rr_URL r) = ''auth.docker.io'' \<and> path = ''/token'' then ''auth''
               else if n \<ge> 5 \<and> parts ! 0 = [] \<and> parts ! 1 = ''v2'' \<and> parts ! (n - 1) \<noteq> [] then
                 (if parts ! (n - 2) = ''manifests'' then ''manifest''
                  else if parts ! (n - 2) = ''blobs'' then ''blob'' else ''unknown'')
               else ''unknown''))"

definition statusStage :: "reg_request option \<Rightarrow> string" where
  "statusStage req =
     (let stage = registryRequestStage req in
      case req of
        Some r \<Rightarrow> if stage = ''unknown'' \<and> cdnHost \<lparr>po_primary = ''ghcr.io'', po_hub = True, po_insecure = False\<rparr> (registryAuthority (rr_URL r))
                  then ''blob'' else stage
      | None \<Rightarrow> stage)"

definition registryErrorDiagnostic :: "base_error \<Rightarrow> registry_failure" where
  "registryErrorDiagnostic e =
     (case be_response e of
        Some f \<Rightarrow> rebound f
      | None \<Rightarrow>
          (case be_transport e of
             Some (status, req) \<Rightarrow>
               boundedRegistryFailure (if status = 401 \<or> status = 403 then ''authentication'' else ''upstream_status'')
                 (statusStage req) status
           | None \<Rightarrow>
               (case be_diagnostic e of
                  Some f \<Rightarrow> rebound f
                | None \<Rightarrow>
                    if be_dns e then boundedRegistryFailure ''dns'' ''transport'' 0
                    else if be_deadline e \<or> be_timeout e then boundedRegistryFailure ''timeout'' ''transport'' 0
                    else boundedRegistryFailure ''unknown'' ''unknown'' 0)))"

definition safeRegistryError :: "base_error \<Rightarrow> reg_error" where
  "safeRegistryError e =
     (if be_canceled e then RegCanceled
      else if be_deadline e then RegDeadline
      else RegFailure (registryErrorDiagnostic e))"

text \<open>The error of reading a response's body.\<close>

definition bodyReadError :: "string \<Rightarrow> int \<Rightarrow> base_error \<Rightarrow> reg_error" where
  "bodyReadError stage status e =
     (if be_canceled e \<or> be_deadline e then safeRegistryError e
      else
        let category = rf_category (registryErrorDiagnostic e) in
        RegFailure (boundedRegistryFailure (if category = ''unknown'' then ''read'' else category) stage status))"

definition policyFailureStage :: "string \<Rightarrow> string" where
  "policyFailureStage stage = (if stage = ''unknown'' then ''transport'' else stage)"

section \<open>Bearer challenges\<close>

text \<open>
  \<open>realmPattern\<close>: the first \<open>realm\<close>, in any case and at a word boundary, followed by an equals sign
  and a quoted text or a text up to a comma or white space. \<open>w\<close> says whether the character before is
  a word character.
\<close>

definition wordChar :: "char \<Rightarrow> bool" where
  "wordChar c \<longleftrightarrow> isLower c \<or> isUpper c \<or> isDigit c \<or> c = CHR ''_''"

definition spaceChar :: "char \<Rightarrow> bool" where
  "spaceChar c \<longleftrightarrow> c \<in> {CHR '' '', CHR 0x09, CHR 0x0A, CHR 0x0C, CHR 0x0D}"

definition realmValue :: "string \<Rightarrow> string option" where
  "realmValue s =
     (let bare = takeWhile (\<lambda>c. c \<noteq> CHR '','' \<and> \<not> spaceChar c) s;
          quoted = takeWhile (\<lambda>c. c \<noteq> CHR 0x22) (tl s) in
      if s \<noteq> [] \<and> hd s = CHR 0x22 \<and> quoted \<noteq> [] \<and> length quoted < length (tl s) then Some quoted
      else if bare \<noteq> [] then Some bare
      else None)"

definition realmAt :: "string \<Rightarrow> string option" where
  "realmAt s =
     (if map lowerChar (take 5 s) = ''realm'' then
        (case dropWhile spaceChar (drop 5 s) of
           c # rest \<Rightarrow> if c = CHR ''='' then realmValue (dropWhile spaceChar rest) else None
         | [] \<Rightarrow> None)
      else None)"

fun findRealm :: "bool \<Rightarrow> string \<Rightarrow> string option" where
  "findRealm w [] = None"
| "findRealm w (c # s) =
     (case (if w then None else realmAt (c # s)) of
        Some v \<Rightarrow> Some v
      | None \<Rightarrow> findRealm (wordChar c) s)"

definition bearerChallenge :: "string \<Rightarrow> bool" where
  "bearerChallenge c \<longleftrightarrow> hasPrefix (toLower (trimSpace c)) ''bearer ''"

definition trustedRealm :: "registry_policy \<Rightarrow> reg_url \<Rightarrow> bool" where
  "trustedRealm p u \<longleftrightarrow> \<not> ru_User u \<and> ru_Fragment u = [] \<and> tokenHost p (registryAuthority u) \<and>
     (ru_Scheme u = ''https'' \<or> po_insecure p \<and> ru_Scheme u = ''http'' \<and> registryHost p (registryAuthority u))"

section \<open>The round tripper\<close>

type_synonym realm = "string \<times> string \<times> string"

record policy_state =
  ps_realms :: "realm set"
  ps_sent :: "reg_request list"

definition registryRealm :: "reg_url \<Rightarrow> realm" where
  "registryRealm u = (ru_Scheme u, registryAuthority u, ru_EscapedPath u)"

definition requestStage :: "registry_policy \<Rightarrow> realm set \<Rightarrow> reg_request \<Rightarrow> string" where
  "requestStage p realms r =
     (let host = registryAuthority (rr_URL r) in
      if cdnHost p host \<and> \<not> tokenHost p host then ''blob''
      else if registryRealm (rr_URL r) \<in> realms then ''auth''
      else registryRequestStage (Some r))"

text \<open>The request that may be sent: sensitive headers only go to hosts that may see a token.\<close>

definition admitRequest :: "registry_policy \<Rightarrow> string \<Rightarrow> reg_request \<Rightarrow> reg_error + reg_request" where
  "admitRequest p stage r =
     (let u = rr_URL r; host = registryAuthority u;
          deny = RegFailure (boundedRegistryFailure ''policy'' (policyFailureStage stage) 0) in
      bindE (guardE (\<not> ru_User u \<and> ru_Fragment u = [] \<and>
          (ru_Scheme u = ''https'' \<or> po_insecure p \<and> registryHost p host \<and> ru_Scheme u = ''http'')) deny) (\<lambda>_.
      bindE (guardE (tokenHost p host \<or> cdnHost p host) deny) (\<lambda>_.
      if tokenHost p host then Inr r
      else bindE (guardE (rr_Method r = ''GET'' \<or> rr_Method r = ''HEAD'') deny) (\<lambda>_.
        Inr (r\<lparr>rr_Header := remove_key ''Proxy-Authorization'' (remove_key ''Cookie'' (remove_key ''Authorization'' (rr_Header r)))\<rparr>)))))"

text \<open>Every bearer challenge of a response must name a trusted realm, which is then remembered.\<close>

fun checkChallenges :: "registry_policy \<Rightarrow> (string \<Rightarrow> reg_url option) \<Rightarrow> string \<Rightarrow> int \<Rightarrow> string list \<Rightarrow> realm set
    \<Rightarrow> (reg_error + unit) \<times> realm set" where
  "checkChallenges p parse stage status [] realms = (Inr (), realms)"
| "checkChallenges p parse stage status (c # cs) realms =
     (if \<not> bearerChallenge c then checkChallenges p parse stage status cs realms
      else
        case Option.bind (findRealm False c) parse of
          Some u \<Rightarrow>
            if trustedRealm p u then checkChallenges p parse stage status cs (insert (registryRealm u) realms)
            else (Inl (RegFailure (boundedRegistryFailure ''policy'' stage status)), realms)
        | None \<Rightarrow> (Inl (RegFailure (boundedRegistryFailure ''policy'' stage status)), realms))"

definition RoundTrip :: "registry_policy \<Rightarrow> (nat \<Rightarrow> reg_request \<Rightarrow> base_error + reg_response) \<Rightarrow> (string \<Rightarrow> reg_url option) \<Rightarrow> reg_request
    \<Rightarrow> policy_state \<Rightarrow> (reg_error + reg_response) \<times> policy_state" where
  "RoundTrip p base parse r s =
     (let stage = requestStage p (ps_realms s) r in
      case admitRequest p stage r of
        Inl e \<Rightarrow> (Inl e, s)
      | Inr r' \<Rightarrow>
          let s1 = s\<lparr>ps_sent := ps_sent s @ [r']\<rparr> in
          (case base (length (ps_sent s)) r' of
             Inl e \<Rightarrow>
               (Inl (if be_canceled e \<or> be_deadline e then safeRegistryError e
                     else let d = registryErrorDiagnostic e in RegFailure (boundedRegistryFailure (rf_category d) stage (rf_status d))), s1)
           | Inr resp \<Rightarrow>
               (case checkChallenges p parse stage (rp_Status resp) (rp_Challenges resp) (ps_realms s1) of
                  (Inl e, realms) \<Rightarrow> (Inl e, s1\<lparr>ps_realms := realms\<rparr>)
                | (Inr _, realms) \<Rightarrow>
                    (Inr (resp\<lparr>rp_Stage := stage,
                       rp_Request := Some ((case rp_Request resp of Some q \<Rightarrow> q | None \<Rightarrow> r')\<lparr>rr_Stage := Some stage\<rparr>)\<rparr>),
                     s1\<lparr>ps_realms := realms\<rparr>))))"

section \<open>Addresses\<close>

text \<open>A \<open>net.IP\<close> is 4 or 16 bytes.\<close>

type_synonym ip_addr = "8 word list"

definition v4Prefix :: ip_addr where
  "v4Prefix = replicate 10 0 @ [0xFF, 0xFF]"

definition to4 :: "ip_addr \<Rightarrow> ip_addr option" where
  "to4 a = (if length a = 4 then Some a
     else if length a = 16 \<and> take 12 a = v4Prefix then Some (drop 12 a) else None)"

definition isLoopback :: "ip_addr \<Rightarrow> bool" where
  "isLoopback a = (case to4 a of Some b \<Rightarrow> b ! 0 = 127 | None \<Rightarrow> a = replicate 15 0 @ [1])"

definition isUnspecified :: "ip_addr \<Rightarrow> bool" where
  "isUnspecified a = (case to4 a of Some b \<Rightarrow> b = replicate 4 0 | None \<Rightarrow> a = replicate 16 0)"

definition isMulticast :: "ip_addr \<Rightarrow> bool" where
  "isMulticast a = (case to4 a of Some b \<Rightarrow> and (b ! 0) 0xF0 = 0xE0 | None \<Rightarrow> length a = 16 \<and> a ! 0 = 0xFF)"

definition isLinkLocal :: "ip_addr \<Rightarrow> bool" where
  "isLinkLocal a = (case to4 a of Some b \<Rightarrow> b ! 0 = 169 \<and> b ! 1 = 254
     | None \<Rightarrow> length a = 16 \<and> a ! 0 = 0xFE \<and> and (a ! 1) 0xC0 = 0x80)"

definition isPrivate :: "ip_addr \<Rightarrow> bool" where
  "isPrivate a = (case to4 a of
     Some b \<Rightarrow> b ! 0 = 10 \<or> b ! 0 = 172 \<and> and (b ! 1) 0xF0 = 16 \<or> b ! 0 = 192 \<and> b ! 1 = 168
   | None \<Rightarrow> length a = 16 \<and> and (a ! 0) 0xFE = 0xFC)"

definition isGlobalUnicast :: "ip_addr \<Rightarrow> bool" where
  "isGlobalUnicast a \<longleftrightarrow> (length a = 4 \<or> length a = 16) \<and> to4 a \<noteq> Some (replicate 4 255) \<and>
     \<not> isUnspecified a \<and> \<not> isLoopback a \<and> \<not> isMulticast a \<and> \<not> isLinkLocal a"

definition publicRegistryIP :: "ip_addr \<Rightarrow> bool" where
  "publicRegistryIP a \<longleftrightarrow> \<not> (\<not> isGlobalUnicast a \<or> isPrivate a \<or> isLoopback a \<or> isLinkLocal a) \<and>
     (case to4 a of
        Some b \<Rightarrow> \<not> (b ! 0 = 0 \<or> b ! 0 \<ge> 224 \<or> b ! 0 = 100 \<and> b ! 1 \<ge> 64 \<and> b ! 1 \<le> 127 \<or> b ! 0 = 198 \<and> (b ! 1 = 18 \<or> b ! 1 = 19))
      | None \<Rightarrow> True)"

text \<open>The dialer tries the addresses it has checked, IPv4 first, and does not look the name up again.\<close>

fun tryDial :: "(ip_addr \<Rightarrow> 'c option) \<Rightarrow> ip_addr list \<Rightarrow> ip_addr list \<Rightarrow> 'c option \<times> ip_addr list" where
  "tryDial connect [] tried = (None, tried)"
| "tryDial connect (a # as) tried =
     (case connect a of Some c \<Rightarrow> (Some c, tried @ [a]) | None \<Rightarrow> tryDial connect as (tried @ [a]))"

text \<open>An \<open>Inl None\<close> is the error of the last connection, or of a host without addresses.\<close>

definition dialRegistry :: "registry_policy \<Rightarrow> string \<Rightarrow> ip_addr list \<Rightarrow> (ip_addr \<Rightarrow> 'c option) \<Rightarrow> (reg_error option + 'c) \<times> ip_addr list" where
  "dialRegistry p host ips connect =
     (let allowPrivate = registryHost p host \<and> \<not> (po_hub p \<or> po_primary p = ''ghcr.io'') in
      if \<not> allowPrivate \<and> \<not> list_all publicRegistryIP ips
      then (Inl (Some (RegFailure (boundedRegistryFailure ''policy'' ''transport'' 0))), [])
      else
        (case tryDial connect (filter (\<lambda>a. to4 a \<noteq> None) ips @ filter (\<lambda>a. to4 a = None) ips) [] of
           (Some c, tried) \<Rightarrow> (Inr c, tried)
         | (None, tried) \<Rightarrow> (Inl None, tried)))"

section \<open>What leaves the process\<close>

text \<open>The requests of a pull, whatever the client makes of the answers.\<close>

fun roundTrips :: "registry_policy \<Rightarrow> (nat \<Rightarrow> reg_request \<Rightarrow> base_error + reg_response) \<Rightarrow> (string \<Rightarrow> reg_url option) \<Rightarrow> reg_request list
    \<Rightarrow> policy_state \<Rightarrow> policy_state" where
  "roundTrips p base parse [] s = s"
| "roundTrips p base parse (r # rs) s = roundTrips p base parse rs (snd (RoundTrip p base parse r s))"

definition sensitiveHeaders :: "string set" where
  "sensitiveHeaders = {''Authorization'', ''Cookie'', ''Proxy-Authorization''}"

definition confined :: "registry_policy \<Rightarrow> reg_request \<Rightarrow> bool" where
  "confined p r \<longleftrightarrow> (let u = rr_URL r; host = registryAuthority u in
     \<not> ru_User u \<and> ru_Fragment u = [] \<and>
     (ru_Scheme u = ''https'' \<or> po_insecure p \<and> registryHost p host \<and> ru_Scheme u = ''http'') \<and>
     (tokenHost p host \<or> cdnHost p host \<and> rr_Method r \<in> {''GET'', ''HEAD''} \<and> sensitiveHeaders \<inter> fst ` set (rr_Header r) = {}))"

lemma admitRequest_confined: "admitRequest p stage r = Inr r' \<Longrightarrow> confined p r'"
  by (auto simp: admitRequest_def confined_def sensitiveHeaders_def Let_def split: if_splits)

definition realm_ok :: "registry_policy \<Rightarrow> realm \<Rightarrow> bool" where
  "realm_ok p x \<longleftrightarrow> (case x of (scheme, host, path) \<Rightarrow>
     tokenHost p host \<and> (scheme = ''https'' \<or> po_insecure p \<and> scheme = ''http'' \<and> registryHost p host))"

lemma checkChallenges_ok:
  "checkChallenges p parse stage status cs realms = (res, realms') \<Longrightarrow>
     (\<forall>x \<in> realms'. x \<in> realms \<or> realm_ok p x) \<and>
     (\<forall>u. res = Inr u \<longrightarrow> (\<forall>c \<in> set cs. bearerChallenge c \<longrightarrow> (\<exists>v. Option.bind (findRealm False c) parse = Some v \<and> trustedRealm p v)))"
proof (induction p parse stage status cs realms rule: checkChallenges.induct)
  case (2 p parse stage status c cs realms)
  show ?case
  proof (cases "bearerChallenge c")
    case False
    then show ?thesis using 2 by simp
  next
    case True
    show ?thesis
    proof (cases "Option.bind (findRealm False c) parse")
      case None
      then show ?thesis using True "2.prems" by auto
    next
      case (Some v)
      show ?thesis
      proof (cases "trustedRealm p v")
        case t: True
        have "realm_ok p (registryRealm v)" using t by (auto simp: trustedRealm_def realm_ok_def registryRealm_def)
        then show ?thesis using "2.IH"(2) [OF _ Some t] "2.prems" True Some t by auto
      next
        case False
        then show ?thesis using True Some "2.prems" by auto
      qed
    qed
  qed
qed auto

lemma RoundTrip_ok:
  assumes "RoundTrip p base parse r s = (res, s')" "\<forall>q \<in> set (ps_sent s). confined p q" "\<forall>x \<in> ps_realms s. realm_ok p x"
  shows "(\<forall>q \<in> set (ps_sent s'). confined p q) \<and> (\<forall>x \<in> ps_realms s'. realm_ok p x)"
proof (cases "admitRequest p (requestStage p (ps_realms s) r) r")
  case (Inl e)
  then show ?thesis using assms by (simp add: RoundTrip_def)
next
  case (Inr r')
  have c: "confined p r'" by (rule admitRequest_confined [OF Inr])
  show ?thesis
    using assms c Inr
    by (auto simp: RoundTrip_def Let_def dest!: checkChallenges_ok split: sum.splits prod.splits)
qed

lemma roundTrips_ok:
  "\<forall>q \<in> set (ps_sent s). confined p q \<Longrightarrow> \<forall>x \<in> ps_realms s. realm_ok p x \<Longrightarrow>
     (\<forall>q \<in> set (ps_sent (roundTrips p base parse rs s)). confined p q) \<and> (\<forall>x \<in> ps_realms (roundTrips p base parse rs s). realm_ok p x)"
proof (induction rs arbitrary: s)
  case (Cons r rs)
  obtain res s1 where r: "RoundTrip p base parse r s = (res, s1)" by fastforce
  show ?case using Cons.IH [of s1] RoundTrip_ok [OF r Cons.prems] r by simp
qed simp

text \<open>A host that is not trusted with private addresses is only reached at public ones.\<close>

lemma tryDial_tried: "set (snd (tryDial connect as tried)) \<subseteq> set as \<union> set tried"
  by (induction connect as tried rule: tryDial.induct) (auto split: option.splits)

lemma dialled_public:
  assumes "a \<in> set (snd (dialRegistry p host ips connect))" "\<not> registryHost p host \<or> po_hub p \<or> po_primary p = ''ghcr.io''"
  shows "publicRegistryIP a"
proof -
  have "a \<in> set ips \<and> list_all publicRegistryIP ips"
    using assms tryDial_tried [of connect "filter (\<lambda>a. to4 a \<noteq> None) ips @ filter (\<lambda>a. to4 a = None) ips" "[]"]
    by (auto simp: dialRegistry_def Let_def split: if_splits prod.splits option.splits)
  then show ?thesis by (simp add: list_all_iff)
qed

lemma public_not_private:
  assumes "publicRegistryIP a"
  shows "\<not> isLoopback a \<and> \<not> isPrivate a \<and> \<not> isLinkLocal a \<and> \<not> isMulticast a \<and> \<not> isUnspecified a \<and> (length a = 4 \<or> length a = 16)"
  using assms by (auto simp: publicRegistryIP_def isGlobalUnicast_def)

lemma RoundTrip_realms:
  "RoundTrip p base parse r s = (Inr resp, s') \<Longrightarrow> c \<in> set (rp_Challenges resp) \<Longrightarrow> bearerChallenge c \<Longrightarrow>
     \<exists>v. Option.bind (findRealm False c) parse = Some v \<and> trustedRealm p v"
  by (auto simp: RoundTrip_def Let_def dest!: checkChallenges_ok split: sum.splits prod.splits)

text \<open>
  C40: Whatever requests the registry client makes of a pull and whatever the servers answer, every
  request that leaves the process goes over TLS (or in clear to the one registry named with http),
  without user information, to a host of the registry or of its content delivery networks; one that
  carries an \<open>Authorization\<close>, \<open>Cookie\<close> or \<open>Proxy-Authorization\<close> header, or is not a GET or HEAD, only
  goes to the registry that was asked for or, for Docker Hub, to its two aliases and its token
  server. An answer reaches the client only if each of its bearer challenges names such a host.
\<close>

theorem registry_policy_confines_credentials:
  assumes "q \<in> set (ps_sent (roundTrips (policyFor registry) base parse rs \<lparr>ps_realms = {}, ps_sent = []\<rparr>))"
  shows "(let p = policyFor registry; u = rr_URL q; host = registryAuthority u in
      \<not> ru_User u \<and> ru_Fragment u = [] \<and>
      (ru_Scheme u = ''https'' \<or> ru_Scheme u = ''http'' \<and> ru_Scheme registry = ''http'' \<and> registryHost p host) \<and>
      (tokenHost p host \<or> cdnHost p host) \<and>
      (sensitiveHeaders \<inter> fst ` set (rr_Header q) \<noteq> {} \<or> rr_Method q \<notin> {''GET'', ''HEAD''} \<longrightarrow>
         host = registryAuthority registry \<or>
         registryAuthority registry \<in> {''index.docker.io'', ''registry-1.docker.io'', ''docker.io''} \<and>
           host \<in> {''registry-1.docker.io'', ''index.docker.io'', ''auth.docker.io''})) \<and>
    (\<forall>r s resp s' c. RoundTrip (policyFor registry) base parse r s = (Inr resp, s') \<and> c \<in> set (rp_Challenges resp) \<and> bearerChallenge c \<longrightarrow>
      (\<exists>v. Option.bind (findRealm False c) parse = Some v \<and> trustedRealm (policyFor registry) v))"
proof -
  have "confined (policyFor registry) q"
    using assms roundTrips_ok [of "\<lparr>ps_realms = {}, ps_sent = []\<rparr>" "policyFor registry" base parse rs] by simp
  then have "let p = policyFor registry; u = rr_URL q; host = registryAuthority u in
      \<not> ru_User u \<and> ru_Fragment u = [] \<and>
      (ru_Scheme u = ''https'' \<or> ru_Scheme u = ''http'' \<and> ru_Scheme registry = ''http'' \<and> registryHost p host) \<and>
      (tokenHost p host \<or> cdnHost p host) \<and>
      (sensitiveHeaders \<inter> fst ` set (rr_Header q) \<noteq> {} \<or> rr_Method q \<notin> {''GET'', ''HEAD''} \<longrightarrow>
         host = registryAuthority registry \<or>
         registryAuthority registry \<in> {''index.docker.io'', ''registry-1.docker.io'', ''docker.io''} \<and>
           host \<in> {''registry-1.docker.io'', ''index.docker.io'', ''auth.docker.io''})"
    unfolding confined_def Let_def by (auto simp: policyFor_def tokenHost_def registryHost_def Let_def)
  then show ?thesis using RoundTrip_realms by blast
qed

definition hubRegistry :: reg_url where
  "hubRegistry = \<lparr>ru_Scheme = ''https'', ru_Hostname = ''index.docker.io'', ru_Port = [], ru_User = False, ru_Fragment = [],
     ru_Path = ''/v2/app/blobs/x'', ru_EscapedPath = ''/v2/app/blobs/x''\<rparr>"

definition hubRequest :: "string \<Rightarrow> reg_request" where
  "hubRequest host = \<lparr>rr_Method = ''GET'', rr_URL = hubRegistry\<lparr>ru_Hostname := host\<rparr>, rr_Header = [(''Authorization'', [''secret'']), (''Accept'', [''x''])],
     rr_Stage = None\<rparr>"

definition okResponse :: reg_response where
  "okResponse = \<lparr>rp_Status = 200, rp_Challenges = [], rp_Request = None, rp_Stage = []\<rparr>"

lemma hub_hosts:
  "registryAuthority hubRegistry = ''index.docker.io''"
  "registryAuthority (rr_URL (hubRequest ''index.docker.io'')) = ''index.docker.io''"
  "registryAuthority (rr_URL (hubRequest ''production.cloudflare.docker.com'')) = ''production.cloudflare.docker.com''"
  "registryAuthority (rr_URL (hubRequest ''evil.example'')) = ''evil.example''"
  by (simp_all add: registryAuthority_def hubRegistry_def hubRequest_def lowerChar_def isUpper_def Let_def)

definition cdnRequest :: reg_request where
  "cdnRequest = (hubRequest ''production.cloudflare.docker.com'')\<lparr>rr_Header := [(''Accept'', [''x''])]\<rparr>"

lemma hub_policy: "policyFor hubRegistry = \<lparr>po_primary = ''index.docker.io'', po_hub = True, po_insecure = False\<rparr>"
  by (simp add: policyFor_def hub_hosts Let_def) (simp add: hubRegistry_def)

lemma hub_fields:
  "rr_Method (hubRequest h) = ''GET''" "ru_Scheme (rr_URL (hubRequest h)) = ''https''" "\<not> ru_User (rr_URL (hubRequest h))"
  "ru_Fragment (rr_URL (hubRequest h)) = []" "rr_Header (hubRequest h) = [(''Authorization'', [''secret'']), (''Accept'', [''x''])]"
  by (simp_all add: hubRequest_def hubRegistry_def)

lemma hub_sent:
  "ps_sent (roundTrips (policyFor hubRegistry) (\<lambda>_ _. Inr okResponse) (\<lambda>_. None)
      [hubRequest ''index.docker.io'', hubRequest ''production.cloudflare.docker.com'', hubRequest ''evil.example''] \<lparr>ps_realms = {}, ps_sent = []\<rparr>)
    = [hubRequest ''index.docker.io'', cdnRequest]"
  by (simp add: hub_policy RoundTrip_def admitRequest_def Let_def hub_hosts hub_fields tokenHost_def registryHost_def cdnHost_def
      remove_key_def okResponse_def cdnRequest_def hasSuffix_def)

lemma registry_policy_confines_credentials_witness:
  "ps_sent (roundTrips (policyFor hubRegistry) (\<lambda>_ _. Inr okResponse) (\<lambda>_. None)
      [hubRequest ''index.docker.io'', hubRequest ''production.cloudflare.docker.com'', hubRequest ''evil.example''] \<lparr>ps_realms = {}, ps_sent = []\<rparr>)
    = [hubRequest ''index.docker.io'', cdnRequest] \<and>
   tokenHost (policyFor hubRegistry) (registryAuthority (rr_URL (hubRequest ''index.docker.io'')))"
proof -
  have "hubRequest ''index.docker.io'' \<in> set (ps_sent (roundTrips (policyFor hubRegistry) (\<lambda>_ _. Inr okResponse) (\<lambda>_. None)
      [hubRequest ''index.docker.io'', hubRequest ''production.cloudflare.docker.com'', hubRequest ''evil.example''] \<lparr>ps_realms = {}, ps_sent = []\<rparr>))"
    unfolding hub_sent by simp
  from registry_policy_confines_credentials [OF this] show ?thesis
    unfolding hub_sent by (simp add: Let_def hub_hosts hub_policy cdnHost_def hasSuffix_def)
qed

end
