(* ===== verification/Apple_Logs.thy ===== *)
theory Apple_Logs
  imports Ring_Buffer
begin

text \<open>
  The bounded buffer of \<open>src/internal/applecontainer/runner.go\<close> and the log reader of
  \<open>commands.go\<close> that follows it. It is the Apple adapter's counterpart of the Docker adapter's ring
  buffer: the same contract (\<open>followed_log\<close>), kept by shifting a slice instead of wrapping around,
  and, as shown here, the same answers to every caller.

  The counters are \<open>uint64\<close>s that grow by the bytes of one command's output; they are natural
  numbers here. A read that finds nothing polls; one round of the poll is the outcome \<open>Block\<close>.
\<close>

section \<open>The bounded buffer\<close>

record bounded_buffer =
  bb_data :: string
  bb_limit :: nat
  bb_overflow :: bool
  bb_tail :: bool
  bb_total :: nat

definition newBounded :: "nat \<Rightarrow> bool \<Rightarrow> bounded_buffer" where
  "newBounded limit tailed =
     \<lparr>bb_data = [], bb_limit = limit, bb_overflow = False, bb_tail = tailed, bb_total = 0\<rparr>"

text \<open>What \<open>Write\<close> appends once there is room: at most the remaining bytes.\<close>

definition bb_append :: "bounded_buffer \<Rightarrow> string \<Rightarrow> bounded_buffer" where
  "bb_append b p =
     (let remaining = bb_limit b - length (bb_data b) in
      b\<lparr>bb_data := bb_data b @ (if length p > remaining then take remaining p else p)\<rparr>)"

definition bb_write :: "bounded_buffer \<Rightarrow> string \<Rightarrow> bounded_buffer" where
  "bb_write b p =
     (let n = length p; b1 = b\<lparr>bb_total := bb_total b + n\<rparr> in
      if length (bb_data b) + n > bb_limit b then
        let b2 = b1\<lparr>bb_overflow := True\<rparr> in
        if bb_tail b then
          if n \<ge> bb_limit b then b2\<lparr>bb_data := drop (n - bb_limit b) p\<rparr>
          else
            let data = bb_data b;
                moved = go_copy data 0 (length data) (drop (length data + n - bb_limit b) data) in
            bb_append (b2\<lparr>bb_data := take (bb_limit b - n) moved\<rparr>) p
        else bb_append b2 p
      else bb_append b1 p)"

definition bb_snapshot :: "bounded_buffer \<Rightarrow> string \<times> bool" where
  "bb_snapshot b = (bb_data b, bb_overflow b)"

section \<open>The log reader\<close>

text \<open>A command's buffer with the flag that its process has been waited for (\<open>done\<close> is closed).\<close>

record followed =
  fw_buffer :: bounded_buffer
  fw_done :: bool

definition fw_write :: "followed \<Rightarrow> string \<Rightarrow> followed" where
  "fw_write f p = f\<lparr>fw_buffer := bb_write (fw_buffer f) p\<rparr>"

definition fw_finish :: "followed \<Rightarrow> err option \<Rightarrow> followed" where
  "fw_finish f e = f\<lparr>fw_done := True\<rparr>"

definition newFollowed :: "nat \<Rightarrow> followed" where
  "newFollowed limit = \<lparr>fw_buffer = newBounded limit True, fw_done = False\<rparr>"

definition closedPipe :: err where
  "closedPipe = Msg ''io: read/write on closed pipe''"

definition log_read :: "followed \<Rightarrow> ring_reader \<Rightarrow> nat \<Rightarrow> read_result \<times> ring_reader" where
  "log_read f rr want =
     (let b = fw_buffer f; oldest = bb_total b - length (bb_data b) in
      if want = 0 then (Data [], rr)
      else if rclosed rr then (Failed closedPipe, rr)
      else if pos rr < oldest then (Failed ErrLogTruncated, rr)
      else
        let out = take want (drop (pos rr - oldest) (bb_data b)) in
        if out \<noteq> [] then (Data out, rr\<lparr>pos := pos rr + length out\<rparr>)
        else if fw_done f \<and> \<not> pos rr < bb_total b then (Failed EOF, rr)
        else (Block, rr))"

section \<open>The history a bounded buffer stands for\<close>

definition last_bytes :: "nat \<Rightarrow> string \<Rightarrow> string" where
  "last_bytes n h = drop (length h - n) h"

definition bb_hist :: "nat \<Rightarrow> bounded_buffer \<Rightarrow> string \<Rightarrow> bool" where
  "bb_hist n b h \<longleftrightarrow> bb_limit b = n \<and> bb_tail b \<and> bb_data b = last_bytes n h \<and>
     bb_total b = length h \<and> (bb_overflow b \<longleftrightarrow> n < length h)"

lemma bb_hist_new: "bb_hist n (newBounded n True) []"
  by (simp add: bb_hist_def newBounded_def last_bytes_def)

lemma length_last_bytes [simp]: "length (last_bytes n h) = min n (length h)"
  by (simp add: last_bytes_def min_def)

lemma last_bytes_append:
  "last_bytes n (h @ p) = (if n \<le> length p then drop (length p - n) p else last_bytes (n - length p) h @ p)"
  by (auto simp: last_bytes_def)

lemma last_bytes_drop:
  "m \<le> n \<Longrightarrow> last_bytes m h = drop (min n (length h) - m) (last_bytes n h)"
  by (auto simp: last_bytes_def min_def)

lemma bb_hist_write: "bb_hist n b h \<Longrightarrow> bb_hist n (bb_write b p) (h @ p)"
proof -
  assume h: "bb_hist n b h"
  then have b: "bb_limit b = n" "bb_tail b" "bb_data b = last_bytes n h" "bb_total b = length h"
      "bb_overflow b \<longleftrightarrow> n < length h"
    by (simp_all add: bb_hist_def)
  consider "min n (length h) + length p \<le> n" | "n \<le> length p" "n < min n (length h) + length p"
    | "length p < n" "n < min n (length h) + length p" by linarith
  then show ?thesis
  proof cases
    case 1
    then show ?thesis
      using b by (auto simp: bb_hist_def bb_write_def bb_append_def Let_def last_bytes_def min_def split: if_splits)
  next
    case 2
    then show ?thesis
      using b by (auto simp: bb_hist_def bb_write_def Let_def last_bytes_append)
  next
    case 3
    let ?k = "min n (length h) + length p - n"
    have "take (n - length p) (go_copy (last_bytes n h) 0 (min n (length h)) (drop ?k (last_bytes n h))) =
        drop ?k (last_bytes n h)"
      using 3 by (simp add: go_copy_def)
    also have "\<dots> = last_bytes (n - length p) h"
      using 3 last_bytes_drop [of "n - length p" n h] by simp
    finally show ?thesis
      using b 3 by (auto simp: bb_hist_def bb_write_def bb_append_def Let_def last_bytes_append)
  qed
qed

definition fw_hist :: "nat \<Rightarrow> followed \<Rightarrow> string \<Rightarrow> bool" where
  "fw_hist n f h \<longleftrightarrow> bb_hist n (fw_buffer f) h"

text \<open>What a read hands out, in terms of the history alone.\<close>

definition tail_read :: "nat \<Rightarrow> string \<Rightarrow> bool \<Rightarrow> ring_reader \<Rightarrow> nat \<Rightarrow> read_result \<times> ring_reader" where
  "tail_read n h fin rr want =
     (if want = 0 then (Data [], rr)
      else if pos rr < length h - n then (Failed ErrLogTruncated, rr)
      else if pos rr < length h
      then (Data (take want (drop (pos rr) h)), rr\<lparr>pos := pos rr + min want (length h - pos rr)\<rparr>)
      else if fin then (Failed EOF, rr)
      else (Block, rr))"

lemma log_read_tail:
  assumes "fw_hist n f h"
  shows "log_read f rr want =
    (if want \<noteq> 0 \<and> rclosed rr then (Failed closedPipe, rr) else tail_read n h (fw_done f) rr want)"
proof -
  have b: "bb_data (fw_buffer f) = last_bytes n h" "bb_total (fw_buffer f) = length h"
    using assms by (simp_all add: fw_hist_def bb_hist_def)
  have "length h - min n (length h) = length h - n" by simp
  moreover have "drop (pos rr - (length h - n)) (last_bytes n h) = drop (pos rr) h"
    if "length h - n \<le> pos rr" using that by (simp add: last_bytes_def)
  ultimately show ?thesis
    by (auto simp: log_read_def tail_read_def b Let_def min_def not_less)
qed

lemma ring_read_tail:
  assumes "ring_hist r h" "rsize r = n" "\<not> rclosed rr" "readErr r = None"
  shows "ring_read r rr want = tail_read n h (closed r) rr want"
proof -
  have w: "written r = length h" using assms(1) by (simp add: ring_hist_def)
  define m where "m = (if length h - pos rr > want then want else length h - pos rr)"
  have "(if pos rr mod n + m \<le> n then take m (drop (pos rr mod n) (buf r))
      else take (n - pos rr mod n) (drop (pos rr mod n) (buf r)) @ take (m - (n - pos rr mod n)) (buf r)) =
      take want (drop (pos rr) h)" if p: "length h - n \<le> pos rr" "pos rr < length h"
  proof -
    have "m \<le> n" "pos rr + m \<le> length h" using p by (auto simp: m_def)
    then have "(if pos rr mod n + m \<le> n then take m (drop (pos rr mod n) (buf r))
      else take (n - pos rr mod n) (drop (pos rr mod n) (buf r)) @ take (m - (n - pos rr mod n)) (buf r)) =
      take m (drop (pos rr) h)"
      using ring_slice [OF assms(1), of "pos rr" m "pos rr mod n", unfolded assms(2)] p(1) by blast
    also have "\<dots> = take want (drop (pos rr) h)" by (auto simp: m_def)
    finally show ?thesis .
  qed
  moreover have "min want (length h - pos rr) = m" by (simp add: m_def min_def)
  ultimately show ?thesis
    using w assms(2,3,4) by (auto simp: ring_read_def tail_read_def Let_def m_def)
qed

interpretation bounded: followed_log fw_write fw_finish log_read "fw_hist n" for n
proof
  fix f h rr want d rr'
  assume "fw_hist n f h" "pos rr \<le> length h" "log_read f rr want = (Data d, rr')"
  then show "rr' = rr\<lparr>pos := pos rr + length d\<rparr> \<and> pos rr + length d \<le> length h \<and>
      d = take (length d) (drop (pos rr) h)"
    by (auto simp: log_read_tail tail_read_def min_def split: if_splits)
qed (auto simp: fw_hist_def fw_write_def fw_finish_def bb_hist_write log_read_tail tail_read_def split: if_splits)

definition log_run :: "followed \<times> ring_reader \<Rightarrow> stream_event list \<Rightarrow>
    read_result list \<times> followed \<times> ring_reader" where
  "log_run = stream_run fw_write fw_finish log_read"

section \<open>Agreement of the two adapters' logs\<close>

definition undisturbed :: "stream_event list \<Rightarrow> bool" where
  "undisturbed es \<longleftrightarrow> (\<forall>e \<in> set es. e \<noteq> ReaderClosed \<and> (\<forall>x. e \<noteq> Finished (Some x)))"

lemma runs_agree:
  assumes "ring_hist r h" "rsize r = n" "readErr r = None" "fw_hist n f h" "fw_done f = closed r"
    "\<not> rclosed rr" "undisturbed es" "ring_run (r, rr) es = (xs, r', rr1)" "log_run (f, rr) es = (ys, f', rr2)"
  shows "ys = xs \<and> rr2 = rr1 \<and> ring_hist r' (h @ produced es) \<and> rsize r' = n \<and> fw_hist n f' (h @ produced es)"
  using assms
proof (induction es arbitrary: r h f rr xs ys)
  case Nil
  then show ?case by (simp add: ring_run_def log_run_def)
next
  case (Cons e es)
  have u: "undisturbed es" using Cons.prems(7) by (simp add: undisturbed_def)
  show ?case
  proof (cases e)
    case (Wrote p)
    have "closed (ring_write r p) = closed r" "readErr (ring_write r p) = readErr r"
      by (simp_all add: ring_write_def Let_def)
    moreover have "fw_hist n (fw_write f p) (h @ p)" "fw_done (fw_write f p) = fw_done f"
      using Cons.prems(4) by (simp_all add: fw_hist_def fw_write_def bb_hist_write)
    ultimately show ?thesis
      using Cons.IH [OF ring_hist_write [OF Cons.prems(1), of p], of "fw_write f p" rr xs ys] Cons.prems u
      by (simp add: Wrote ring_run_def log_run_def)
  next
    case (Finished x)
    then have "x = None" using Cons.prems(7) by (cases x) (auto simp: undisturbed_def)
    then show ?thesis
      using Cons.IH [OF ring_hist_close [OF Cons.prems(1), of None], of "fw_finish f None" rr xs ys] Cons.prems u
      by (simp add: Finished ring_run_def log_run_def fw_hist_def fw_finish_def closeWithError_def)
  next
    case ReaderClosed
    then show ?thesis using Cons.prems(7) by (simp add: undisturbed_def)
  next
    case (Read want)
    have same: "log_read f rr want = ring_read r rr want"
      using log_read_tail [OF Cons.prems(4)] ring_read_tail [OF Cons.prems(1,2,6,3)] Cons.prems(5,6) by simp
    obtain x rr3 where x: "ring_read r rr want = (x, rr3)" by (cases "ring_read r rr want")
    have "\<not> rclosed rr3"
      using x ring_read_tail [OF Cons.prems(1,2,6,3)] Cons.prems(6) by (auto simp: tail_read_def split: if_splits)
    then show ?thesis
      using Cons.IH [OF Cons.prems(1-5) _ u] Cons.prems(8,9) x same
      by (auto simp: Read ring_run_def log_run_def split: prod.splits)
  qed
qed

text \<open>
  C9: The two adapters' log buffers are indistinguishable: for every interleaving of writes, the end
  of the output and reads, a follower of the Apple adapter's buffer and one of the Docker adapter's
  ring buffer of the same capacity receive the same results in the same order, truncation
  included, and both snapshots are exactly the last bytes written that fit.
\<close>

theorem log_buffers_agree:
  assumes "0 < n" "undisturbed es" "ring_run (newRingBuffer n, newReader) es = (xs, r, rr1)"
    "log_run (newFollowed n, newReader) es = (ys, f, rr2)"
  shows "ys = xs \<and> ring_bytes r = last_bytes n (produced es) \<and>
    bb_snapshot (fw_buffer f) = (last_bytes n (produced es), n < length (produced es))"
proof -
  have "ys = xs \<and> rr2 = rr1 \<and> ring_hist r ([] @ produced es) \<and> rsize r = n \<and> fw_hist n f ([] @ produced es)"
    by (rule runs_agree [OF ring_hist_new [OF assms(1)] _ _ _ _ _ assms(2,3,4)])
      (simp_all add: newRingBuffer_def newReader_def fw_hist_def newFollowed_def bb_hist_new)
  then show ?thesis
    using ring_bytes_hist [of r "produced es"] by (auto simp: bb_snapshot_def fw_hist_def bb_hist_def last_bytes_def)
qed

theorem log_buffers_agree_witness:
  "bb_snapshot (fw_buffer (fst (snd (log_run (newFollowed 3, newReader)
     [Wrote ''ab'', Read 9, Wrote ''cde'', Finished None, Read 2, Read 2])))) = (''cde'', True) \<and>
   fst (log_run (newFollowed 3, newReader) [Wrote ''ab'', Read 9, Wrote ''cde'', Finished None, Read 2, Read 2]) =
     [Data ''ab'', Data ''cd'', Data ''e'']"
proof -
  let ?es = "[Wrote ''ab'', Read 9, Wrote ''cde'', Finished None, Read 2, Read 2]"
  obtain xs r rr1 where r: "ring_run (newRingBuffer 3, newReader) ?es = (xs, r, rr1)" by (metis surj_pair)
  obtain ys f rr2 where f: "log_run (newFollowed 3, newReader) ?es = (ys, f, rr2)" by (metis surj_pair)
  have "fst (ring_run (newRingBuffer 3, newReader) ?es) = [Data ''ab'', Data ''cd'', Data ''e'']" by code_simp
  then have "xs = [Data ''ab'', Data ''cd'', Data ''e'']" using r by simp
  with log_buffers_agree [OF _ _ r f] f show ?thesis
    by (simp add: undisturbed_def last_bytes_def)
qed

end
