(* ===== verification/Apple_World.thy ===== *)
theory Apple_World
  imports Docker_Queries Apple_Logs
begin

text \<open>
  The state of the Apple container adapter (\<open>src/internal/applecontainer/client.go\<close>), the runner
  through which it calls the \<open>container\<close> command line (\<open>runner.go\<close>, \<open>offline.go\<close>), the checks of what
  callers supply (\<open>input.go\<close>) and the views of containers and images that the command line lists
  (\<open>client.go\<close>, \<open>images.go\<close>).

  The command line, the JSON decoder, the clock, the random source, the kernel's choice of a port
  and the failures of the database are the record \<open>apple_env\<close>. An answer of the command line may
  depend on everything it has been asked before. The list \<open>ap_calls\<close> records every call with its
  answer and the tables at that moment; the code does not read it, the properties speak about it.
  Handlers hold the adapter's mutex, so each is one atomic step.
\<close>

section \<open>What the command line answers\<close>

record published =
  pb_HostPort :: int
  pb_ContainerPort :: int
  pb_Proto :: string
  pb_Count :: int

record container_info =
  ci_ID :: string
  ci_Labels :: "(string \<times> string) list"
  ci_CPUs :: real
  ci_Memory :: int
  ci_Ports :: "published list"
  ci_State :: string
  ci_StartedDate :: string

record image_variant =
  iv_Architecture :: string
  iv_OS :: string

record image_info =
  ii_ID :: string
  ii_Name :: string
  ii_Digest :: string
  ii_Variants :: "image_variant list"

record system_status =
  sy_Status :: string
  sy_Client :: string
  sy_Server :: string

text \<open>The chunks a call has written to its two outputs, and how it ended.\<close>

record cli_answer =
  ca_stdout :: "string list"
  ca_stderr :: "string list"
  ca_err :: "err option"

record cli_event =
  ce_args :: "string list"
  ce_answer :: cli_answer
  ce_rows :: "sandbox_row list"
  ce_ops :: "operation list"

record apple_env =
  ae_F :: faults
  ae_cli :: "cli_event list \<Rightarrow> string list \<Rightarrow> string \<Rightarrow> cli_answer"
  ae_clock :: "nat \<Rightarrow> int"
  ae_random :: "nat \<Rightarrow> err + (nat \<Rightarrow> nat)"
  ae_text :: "nat \<Rightarrow> string"
  ae_listen :: "nat \<Rightarrow> bool \<Rightarrow> err + nat"
  ae_containers :: "string \<Rightarrow> err + container_info list"
  ae_images :: "string \<Rightarrow> err + image_info list"
  ae_status :: "string \<Rightarrow> err + system_status"
  ae_normalize :: "string \<Rightarrow> err + string"
  ae_jsonString :: "string \<Rightarrow> string option"
  ae_jsonNumber :: "string \<Rightarrow> real option"
  ae_timestamp :: "int \<Rightarrow> int \<Rightarrow> string"
  ae_errText :: "err \<Rightarrow> string"
  ae_invalidator :: bool

section \<open>The client\<close>

text \<open>A tracked command: its logs, whether its process was waited for or killed, its identity in the guest.\<close>

record apple_command =
  ac_sandboxID :: string
  ac_stdout :: bounded_buffer
  ac_stderr :: bounded_buffer
  ac_done :: bool
  ac_killed :: bool
  ac_detail :: command_detail
  ac_pid :: string
  ac_start :: string
  ac_persistErr :: "err option"

record apple =
  ap_db :: db
  ap_calls :: "cli_event list"
  ap_tick :: nat
  ap_closing :: bool
  ap_timers :: "(string \<times> timerEntry) list"
  ap_serial :: nat
  ap_finished :: "(string \<times> string) list"
  ap_commands :: "(string \<times> apple_command) list"
  ap_createAttempts :: "(string \<times> operation) list"
  ap_jobs :: "(string \<times> job) list"
  ap_queueClosed :: bool
  ap_invalidated :: "string list"

type_synonym 'a ap = "(apple, 'a) prog"

definition repoA :: "(db, 'a) prog \<Rightarrow> 'a ap" where
  "repoA m = zoom ap_db (\<lambda>d w. w\<lparr>ap_db := d\<rparr>) m"

definition atTickA :: "(nat \<Rightarrow> 'a) \<Rightarrow> 'a ap" where
  "atTickA f = (\<lambda>w. (Inr (f (ap_tick w)), w\<lparr>ap_tick := Suc (ap_tick w)\<rparr>))"

definition nowA :: "apple_env \<Rightarrow> int ap" where
  "nowA en = atTickA (ae_clock en)"

definition ctxErrA :: "ctx \<Rightarrow> err option ap" where
  "ctxErrA cx = atTickA (cx_Err cx)"

definition liftE :: "err + 'a \<Rightarrow> 'a ap" where
  "liftE r = (case r of Inl e \<Rightarrow> throw e | Inr x \<Rightarrow> ret x)"

definition changed :: "apple_env \<Rightarrow> string \<Rightarrow> unit ap" where
  "changed en i = modify (\<lambda>w. if ae_invalidator en then w\<lparr>ap_invalidated := ap_invalidated w @ [i]\<rparr> else w)"

section \<open>Running the command line\<close>

definition outputLimit :: nat where
  "outputLimit = 4 * 2 ^ 20"

fun exitCode :: "err \<Rightarrow> int option" where
  "exitCode (ExitStatus n) = Some n"
| "exitCode (Wrap s e) = exitCode e"
| "exitCode (Deferred e) = exitCode e"
| "exitCode (Join es) = foldr (\<lambda>e r. case exitCode e of Some n \<Rightarrow> Some n | None \<Rightarrow> r) es None"
| "exitCode e = None"

definition contextError :: "err \<Rightarrow> bool" where
  "contextError e \<longleftrightarrow> errors_is e Canceled \<or> errors_is e DeadlineExceeded"

definition safeError :: "err \<Rightarrow> err" where
  "safeError e =
     (if contextError e then e
      else if exitCode e \<noteq> None then Msg ''CLI or guest exited with status''
      else Msg ''CLI execution failed'')"

definition errOfflineImageUnavailable :: err where
  "errOfflineImageUnavailable = Msg ''runtime: Apple container cannot create offline: the workload or configured vminit image is not fully available locally''"

definition offlineImageUnavailable :: "string list \<Rightarrow> string \<Rightarrow> bool \<Rightarrow> bool" where
  "offlineImageUnavailable args diagnostic truncated \<longleftrightarrow>
     \<not> truncated \<and> take 3 args = [''create'', ''--max-concurrent-downloads'', ''0''] \<and>
     trimSpace diagnostic = ''Error: maximum number of concurrent downloads must be greater than 0, got 0''"

text \<open>
  \<open>Client.run\<close>: standard output is refused when it exceeds its buffer; of the diagnostics only
  the tail is kept, and it only decides between two fixed errors.
\<close>

definition runOutcome :: "string list \<Rightarrow> cli_answer \<Rightarrow> err + string" where
  "runOutcome args a =
     (let (out, overflow) = bb_snapshot (foldl bb_write (newBounded outputLimit False) (ca_stdout a));
          (diagnostic, truncated) = bb_snapshot (foldl bb_write (newBounded 8192 True) (ca_stderr a)) in
      case ca_err a of
        Some e \<Rightarrow>
          if \<not> contextError e \<and> offlineImageUnavailable args diagnostic truncated
          then Inl errOfflineImageUnavailable
          else Inl (DeferRecovery (Wrap ''runtime: Apple container failed'' (safeError e)))
      | None \<Rightarrow>
          if overflow then Inl (Msg ''runtime: Apple container output exceeds its limit'') else Inr out)"

definition runA :: "apple_env \<Rightarrow> string \<Rightarrow> string list \<Rightarrow> string ap" where
  "runA en inp args = (\<lambda>w.
     let a = ae_cli en (ap_calls w) args inp in
     (runOutcome args a, w\<lparr>ap_calls := ap_calls w @ [\<lparr>ce_args = args, ce_answer = a,
        ce_rows = sandboxes (ap_db w), ce_ops = operations (ap_db w)\<rparr>]\<rparr>))"

definition PingA :: "apple_env \<Rightarrow> unit ap" where
  "PingA en =
     andThen (mapErr (Wrap ''runtime: Apple Container service is unavailable'')
       (runA en [] [''system'', ''status'', ''--format'', ''json''])) (\<lambda>b.
     andThen (liftE (ae_status en b)) (\<lambda>st.
     andThen (failIf (sy_Status st \<noteq> ''running'') (Msg ''runtime: Apple Container service is not running'')) (\<lambda>_.
     failIf (sy_Client st \<noteq> ''1.4.1'' \<or> sy_Server st \<noteq> ''1.4.1'')
       (Msg ''runtime: Apple Container CLI and service version 1.4.1 are required''))))"

section \<open>What callers supply\<close>

definition maxInputBytes :: int where
  "maxInputBytes = 64 * 2 ^ 10"

definition maxInputEntries :: nat where
  "maxInputEntries = 1024"

record inputBudget =
  ib_bytes :: int
  ib_entries :: nat

definition noInput :: inputBudget where
  "noInput = \<lparr>ib_bytes = 0, ib_entries = 0\<rparr>"

definition inputLimitErr :: err where
  "inputLimitErr = Msg ''guest input exceeds 64 KiB or 1024 entries''"

fun takeParts :: "int \<Rightarrow> string list \<Rightarrow> err + int" where
  "takeParts remaining [] = Inr remaining"
| "takeParts remaining (p # ps) =
     (if int (length p) > remaining then Inl inputLimitErr else takeParts (remaining - int (length p)) ps)"

definition budget_add :: "string list \<Rightarrow> inputBudget \<Rightarrow> err + inputBudget" where
  "budget_add parts b =
     (if ib_entries b \<ge> maxInputEntries \<or> ib_bytes b \<ge> maxInputBytes then Inl inputLimitErr
      else bindE (takeParts (maxInputBytes - ib_bytes b - 1) parts) (\<lambda>remaining.
        Inr \<lparr>ib_bytes = maxInputBytes - remaining, ib_entries = Suc (ib_entries b)\<rparr>))"

fun addAll :: "string list list \<Rightarrow> inputBudget \<Rightarrow> err + inputBudget" where
  "addAll [] b = Inr b"
| "addAll (ps # rest) b = bindE (budget_add ps b) (addAll rest)"

text \<open>A Go map of the request is an association list; \<open>range\<close> may meet it in any order.\<close>

definition budgetParts :: "exec_request \<Rightarrow> string list list" where
  "budgetParts req = [eq_Command req] # map (\<lambda>a. [a]) (eq_Args req) @
     (if eq_Cwd req \<noteq> [] then [[eq_Cwd req]] else []) @ map (\<lambda>(k, v). [k, ''='', v]) (eq_Env req)"

definition validateCommandBudget :: "exec_request \<Rightarrow> err + unit" where
  "validateCommandBudget req = bindE (addAll (budgetParts req) noInput) (\<lambda>_. Inr ())"

definition keyStart :: "char \<Rightarrow> bool" where
  "keyStart c \<longleftrightarrow> c = CHR ''_'' \<or> isUpper c \<or> isLower c"

definition validEnv :: "string \<Rightarrow> string \<Rightarrow> bool" where
  "validEnv key val \<longleftrightarrow> CHR 0x00 \<notin> set val \<and>
     (case key of [] \<Rightarrow> False | c # cs \<Rightarrow> keyStart c \<and> list_all (\<lambda>c. keyStart c \<or> isDigit c) cs)"

definition validateCommandInput :: "exec_request \<Rightarrow> err + unit" where
  "validateCommandInput req =
     bindE (validateCommandBudget req) (\<lambda>_.
     bindE (guardE (eq_Command req \<noteq> [] \<and> \<not> hasPrefix (eq_Command req) ''-'' \<and> CHR 0x00 \<notin> set (eq_Command req))
       (Msg ''invalid guest executable'')) (\<lambda>_.
     bindE (guardE (list_all (\<lambda>a. CHR 0x00 \<notin> set a) (eq_Args req)) (Msg ''guest argument contains NUL'')) (\<lambda>_.
     bindE (guardE (CHR 0x00 \<notin> set (eq_Cwd req)) (Msg ''guest working directory contains NUL'')) (\<lambda>_.
     guardE (list_all (\<lambda>(k, v). validEnv k v) (eq_Env req)) (Msg ''invalid guest environment'')))))"

fun envArgsFrom :: "string list \<Rightarrow> inputBudget \<Rightarrow> err + string list" where
  "envArgsFrom [] b = Inr []"
| "envArgsFrom (s # env) b =
     bindE (budget_add [s] b) (\<lambda>b'.
     case cutAt (CHR ''='') s of (key, val, ok) \<Rightarrow>
       bindE (guardE (ok \<and> validEnv key val) (Msg ''environment entries must be explicit KEY=VALUE pairs'')) (\<lambda>_.
       bindE (envArgsFrom env b') (\<lambda>args. Inr (''--env'' # (key @ ''='' @ val) # args))))"

definition envArgs :: "string list \<Rightarrow> err + string list" where
  "envArgs env = envArgsFrom env noInput"

definition portOf :: "string \<Rightarrow> err + string" where
  "portOf p =
     (let parts = splitOn (CHR ''/'') p in
      bindE (guardE (length parts \<le> 2) (Msg ''invalid container port'')) (\<lambda>_.
      case Atoi (hd parts) of
        None \<Rightarrow> Inl (Msg ''runtime: Apple container ports must be between 2 and 65535'')
      | Some n \<Rightarrow>
          bindE (guardE (2 \<le> n \<and> n \<le> 65535) (Msg ''runtime: Apple container ports must be between 2 and 65535'')) (\<lambda>_.
          let proto = (if length parts = 2 then parts ! 1 else ''tcp'') in
          bindE (guardE (proto = ''tcp'' \<or> proto = ''udp'') (Msg ''port protocol must be tcp or udp'')) (\<lambda>_.
          Inr (Itoa (nat n) @ ''/'' @ proto)))))"

fun portsFrom :: "string list \<Rightarrow> string list \<Rightarrow> err + string list" where
  "portsFrom [] result = Inr result"
| "portsFrom (p # ps) result =
     bindE (portOf p) (\<lambda>key. portsFrom ps (if key \<in> set result then result else result @ [key]))"

definition normalizePortsA :: "string list \<Rightarrow> err + string list" where
  "normalizePortsA ports =
     bindE (guardE (length ports \<le> 128) (Msg ''too many published ports (maximum 128)'')) (\<lambda>_. portsFrom ports [])"

definition validGuestPath :: "string \<Rightarrow> err + unit" where
  "validGuestPath path =
     guardE (path \<noteq> [] \<and> CHR 0x00 \<notin> set path) (Msg ''guest path must be nonempty and contain no NUL'')"

section \<open>Identities\<close>

definition ownerLabelA :: string where
  "ownerLabelA = ''io.opensbx.managed''"

definition hexChar :: "char \<Rightarrow> bool" where
  "hexChar c \<longleftrightarrow> isDigit c \<or> c \<in> set ''abcdefABCDEF''"

definition validID :: "string \<Rightarrow> bool" where
  "validID i \<longleftrightarrow> hasPrefix i ''opensbx-'' \<and> length i = length ''opensbx-'' + 32 \<and>
     list_all hexChar (trimPrefix i ''opensbx-'')"

text \<open>\<open>hex.EncodeToString\<close> of sixteen random bytes.\<close>

definition hexOf :: "nat \<Rightarrow> string" where
  "hexOf b = [''0123456789abcdef'' ! (b div 16 mod 16), ''0123456789abcdef'' ! (b mod 16)]"

definition randomID :: "apple_env \<Rightarrow> string \<Rightarrow> string ap" where
  "randomID en pre =
     andThen (atTickA (ae_random en)) (\<lambda>r.
     andThen (liftE r) (\<lambda>b. ret (pre @ concat (map (\<lambda>k. hexOf (b k)) [0..<16]))))"

section \<open>Containers\<close>

text \<open>\<open>owned\<close>: the row of an identifier that this adapter has issued.\<close>

definition owned :: "apple_env \<Rightarrow> string \<Rightarrow> sandbox_row ap" where
  "owned en i =
     andThen (failIf (\<not> validID i) ErrNotFound) (\<lambda>_.
     andThen (repoA (FindByID (ae_F en) True i)) (\<lambda>sb.
     case sb of
       None \<Rightarrow> throw ErrNotFound
     | Some row \<Rightarrow>
         if sb_RuntimeKind row \<noteq> [] \<and> sb_RuntimeKind row \<noteq> ''container'' then throw ErrNotFound else ret row))"

definition listArgs :: "string list" where
  "listArgs = [''list'', ''--all'', ''--format'', ''json'']"

text \<open>The first container of each identifier counts.\<close>

definition inventoryOf :: "container_info list \<Rightarrow> (string \<times> container_info) list" where
  "inventoryOf all = foldl (\<lambda>items info. if ci_ID info \<in> fst ` set items then items else items @ [(ci_ID info, info)]) [] all"

definition inventory :: "apple_env \<Rightarrow> (string \<times> container_info) list ap" where
  "inventory en =
     andThen (runA en [] listArgs) (\<lambda>b.
     andThen (liftE (ae_containers en b)) (\<lambda>all. ret (inventoryOf all)))"

definition labelOfA :: "container_info \<Rightarrow> string" where
  "labelOfA info = (case map_of (ci_Labels info) ownerLabelA of None \<Rightarrow> [] | Some t \<Rightarrow> t)"

definition ownedInventoryEntry :: "(string \<times> container_info) list \<Rightarrow> string \<Rightarrow> err + container_info" where
  "ownedInventoryEntry items i =
     (case map_of items i of
        None \<Rightarrow> Inl ErrNotFound
      | Some info \<Rightarrow>
          bindE (guardE (validID i) ErrNotFound) (\<lambda>_.
          bindE (guardE (labelOfA info = i) (Msg ''container ownership label does not match repository'')) (\<lambda>_.
          bindE (guardE (0 < ci_CPUs info \<and> 0 < ci_Memory info) (Msg ''incomplete Apple container resource JSON'')) (\<lambda>_.
          bindE (guardE (ci_State info \<in> {''running'', ''stopped'', ''stopping'', ''unknown''})
            (Msg ''unsupported container state in JSON'')) (\<lambda>_.
          Inr info)))))"

definition lookupA :: "apple_env \<Rightarrow> string \<Rightarrow> container_info ap" where
  "lookupA en i =
     andThen (owned en i) (\<lambda>_.
     andThen (inventory en) (\<lambda>items. liftE (ownedInventoryEntry items i)))"

definition publishedOk :: "published \<Rightarrow> bool" where
  "publishedOk p \<longleftrightarrow> 2 \<le> pb_HostPort p \<and> pb_HostPort p \<le> 65535 \<and> 2 \<le> pb_ContainerPort p \<and>
     pb_ContainerPort p \<le> 65535 \<and> (pb_Proto p = ''tcp'' \<or> pb_Proto p = ''udp'') \<and> pb_Count p \<le> 1"

fun portsOf :: "published list \<Rightarrow> JSONMap \<Rightarrow> err + JSONMap" where
  "portsOf [] m = Inr m"
| "portsOf (p # ps) m =
     bindE (guardE (publishedOk p) (Msg ''unexpected Apple published port configuration'')) (\<lambda>_.
     portsOf ps (store (Itoa (nat (pb_ContainerPort p)) @ ''/'' @ pb_Proto p) (Itoa (nat (pb_HostPort p))) m))"

definition networkPorts :: "container_info \<Rightarrow> err + JSONMap" where
  "networkPorts info = portsOf (ci_Ports info) []"

definition keysOf :: "JSONMap \<Rightarrow> string list" where
  "keysOf m = sort (map fst m)"

text \<open>
  \<open>dateString\<close>: a JSON string as it is, a JSON number as seconds since 2001. \<open>int64\<close> of a float
  truncates.
\<close>

definition truncate64 :: "real \<Rightarrow> int" where
  "truncate64 x = (if 0 \<le> x then \<lfloor>x\<rfloor> else - \<lfloor>- x\<rfloor>)"

definition dateString :: "apple_env \<Rightarrow> string \<Rightarrow> string" where
  "dateString en raw =
     (case ae_jsonString en raw of
        Some s \<Rightarrow> s
      | None \<Rightarrow>
          if raw \<noteq> [] \<and> raw \<noteq> ''null'' then
            (case ae_jsonNumber en raw of
               Some seconds \<Rightarrow> ae_timestamp en (978307200 + truncate64 seconds)
                 (truncate64 ((seconds - real_of_int \<lfloor>seconds\<rfloor>) * 10 ^ 9))
             | None \<Rightarrow> [])
          else [])"

section \<open>Images\<close>

definition refusedReference :: "string \<Rightarrow> bool" where
  "refusedReference s \<longleftrightarrow> s = [] \<or> hasPrefix s ''-'' \<or> containsAny s [CHR 0x00, CHR 0x0D, CHR 0x0A]"

definition imageRef :: "apple_env \<Rightarrow> string \<Rightarrow> err + string" where
  "imageRef en s =
     (if refusedReference s then Inl (Msg ''invalid image reference'')
      else case ae_normalize en s of
        Inl e \<Rightarrow> Inl (Msg ''invalid image reference'')
      | Inr r \<Rightarrow> Inr r)"

definition imagesA :: "apple_env \<Rightarrow> image_info list ap" where
  "imagesA en =
     andThen (runA en [] [''image'', ''list'', ''--format'', ''json'']) (\<lambda>b.
     case ae_images en b of
       Inl e \<Rightarrow> throw (Msg ''invalid Apple image list JSON'')
     | Inr imgs \<Rightarrow>
         andThen (failIf (list_ex (\<lambda>im. ii_Name im = [] \<or> ii_Digest im = []) imgs) (Msg ''incomplete Apple image JSON''))
           (\<lambda>_. ret imgs))"

definition sameReference :: "apple_env \<Rightarrow> string \<Rightarrow> image_info \<Rightarrow> bool" where
  "sameReference en i im \<longleftrightarrow> (case imageRef en i of
     Inl e \<Rightarrow> False
   | Inr wanted \<Rightarrow> (case imageRef en (ii_Name im) of Inl e \<Rightarrow> [] | Inr n \<Rightarrow> n) = wanted)"

text \<open>An exact reference wins; otherwise one image with this identifier or digest.\<close>

definition selectImage :: "apple_env \<Rightarrow> string \<Rightarrow> image_info list \<Rightarrow> err + image_info" where
  "selectImage en i all =
     (case find (sameReference en i) all of
        Some im \<Rightarrow> Inr im
      | None \<Rightarrow>
          (case filter (\<lambda>im. i = ii_ID im \<or> i = ii_Digest im) all of
             [] \<Rightarrow> Inl ErrImageNotFound
           | [im] \<Rightarrow> Inr im
           | _ \<Rightarrow> Inl (Msg ''image ID has multiple references; specify an exact image tag'')))"

definition findImage :: "apple_env \<Rightarrow> string \<Rightarrow> image_info ap" where
  "findImage en i =
     andThen (failIf (refusedReference i) (Msg ''invalid image reference'')) (\<lambda>_.
     andThen (imagesA en) (\<lambda>all. liftE (selectImage en i all)))"

definition nativeVariant :: "image_info \<Rightarrow> err + image_variant" where
  "nativeVariant im =
     (case find (\<lambda>v. iv_Architecture v = ''arm64'' \<and> iv_OS v = ''linux'') (ii_Variants im) of
        Some v \<Rightarrow> Inr v
      | None \<Rightarrow> Inl (Msg ''image has no locally available linux/arm64 variant; pull it before creating a sandbox''))"

section \<open>Timers and the recovery queue\<close>

definition clearTimer :: "string \<Rightarrow> unit ap" where
  "clearTimer i = modify (\<lambda>w. w\<lparr>ap_timers := remove_key i (ap_timers w)\<rparr>)"

definition scheduleDeadlineA :: "string \<Rightarrow> int \<Rightarrow> int \<Rightarrow> unit ap" where
  "scheduleDeadlineA i deadline delay = modify (\<lambda>w.
     w\<lparr>ap_timers := store i \<lparr>te_serial = ap_serial w, te_expiresAt = deadline, te_delay = delay\<rparr> (ap_timers w),
       ap_serial := Suc (ap_serial w)\<rparr>)"

text \<open>\<open>scheduleDeadline(id, deadline, deadline.Sub(c.now()))\<close>\<close>

definition scheduleUntilA :: "apple_env \<Rightarrow> string \<Rightarrow> int \<Rightarrow> unit ap" where
  "scheduleUntilA en i deadline = andThen (nowA en) (\<lambda>t. scheduleDeadlineA i deadline (deadline - t))"

definition ScheduleA :: "string \<Rightarrow> job \<Rightarrow> unit ap" where
  "ScheduleA key j = modify (\<lambda>w.
     if ap_queueClosed w \<or> map_of (ap_jobs w) key \<noteq> None then w else w\<lparr>ap_jobs := ap_jobs w @ [(key, j)]\<rparr>)"

definition queueOperationA :: "operation \<Rightarrow> unit ap" where
  "queueOperationA o1 = ScheduleA (op_ID o1) (IntentJob o1)"

definition retryOperationA :: "apple_env \<Rightarrow> operation \<Rightarrow> unit ap" where
  "retryOperationA en o1 =
     andThen (reads ap_closing) (\<lambda>c.
     if c then ret ()
     else andThen (attempt (repoA (FindOperation (ae_F en) (op_ID o1)))) (\<lambda>current.
     if current = Inr None then ret ()
     else andThen (reads (\<lambda>w. map_of (ap_timers w) (op_NativeID o1))) (\<lambda>timer.
     andThen
       (case op_Deadline o1 of
          Some dl \<Rightarrow>
            if op_Kind o1 \<noteq> ''create'' \<and> timer = None
            then andThen (nowA en) (\<lambda>t. scheduleDeadlineA (op_NativeID o1) dl (max (dl - t) RecoveryRetryDelay))
            else ret ()
        | None \<Rightarrow> ret ())
       (\<lambda>_. queueOperationA o1))))"

text \<open>The commands of a sandbox that is gone are forgotten; a process left over is killed with them.\<close>

definition clearCommandsA :: "string \<Rightarrow> unit ap" where
  "clearCommandsA i = modify (\<lambda>w. w\<lparr>ap_commands := filter (\<lambda>(_, r). ac_sandboxID r \<noteq> i) (ap_commands w)\<rparr>)"

end
