(* ===== verification/Apple_Lifecycle.thy ===== *)
theory Apple_Lifecycle
  imports Apple_World
begin

text \<open>
  The lifecycle of a sandbox in the Apple container adapter: \<open>client.go\<close> with the reconciliation of
  one intent from \<open>recovery.go\<close>. Each handler is the Go function, statement by statement; a deferred
  call is \<open>finallyDo\<close>, or \<open>retryUnless\<close> where the closure tests \<open>committed\<close>.
\<close>

section \<open>Stop\<close>

definition defaultTimeoutA :: int where
  "defaultTimeoutA = 900"

text \<open>Retire the intent, forget the timer, drop cached routes, and answer with the given error.\<close>

definition settleStopA :: "apple_env \<Rightarrow> operation \<Rightarrow> string \<Rightarrow> err \<Rightarrow> unit ap" where
  "settleStopA en o1 i e =
     andThen (repoA (CompleteOperation (ae_F en) o1 None None)) (\<lambda>_.
     andThen (clearTimer i) (\<lambda>_.
     andThen (changed en i) (\<lambda>_. throw e)))"

definition stopLockedA :: "apple_env \<Rightarrow> string \<Rightarrow> unit ap" where
  "stopLockedA en i =
     andThen (owned en i) (\<lambda>_.
     andThen (atTickA (ae_text en)) (\<lambda>rnd.
     andThen (repoA (BeginOperation (ae_F en) rnd ''container'' i ''stop'' None)) (\<lambda>o1.
     finallyDo
       (andThen (attempt (lookupA en i)) (\<lambda>r.
        case r of
          Inl e \<Rightarrow> if errors_is e ErrNotFound then settleStopA en o1 i ErrNotFound else throw e
        | Inr info \<Rightarrow>
            if ci_State info = ''stopped'' then settleStopA en o1 i ErrAlreadyStopped
            else
              andThen (runA en [] [''stop'', i]) (\<lambda>_.
              andThen (repoA (CompleteOperation (ae_F en) o1 None None)) (\<lambda>_.
              andThen (clearTimer i) (\<lambda>_.
              andThen (nowA en) (\<lambda>t.
              andThen (modify (\<lambda>w. w\<lparr>ap_finished := store i (ae_timestamp en (t div Second) (t mod Second)) (ap_finished w)\<rparr>)) (\<lambda>_.
              changed en i)))))))
       (retryOperationA en o1))))"

definition StopA :: "apple_env \<Rightarrow> string \<Rightarrow> unit ap" where
  "StopA en i = stopLockedA en i"

section \<open>Start and restart\<close>

definition shutdownErr :: err where
  "shutdownErr = Msg ''backend is shutting down''"

definition notClosing :: "unit ap" where
  "notClosing = andThen (reads ap_closing) (\<lambda>c. failIf c shutdownErr)"

definition finishStartA :: "apple_env \<Rightarrow> string \<Rightarrow> operation \<Rightarrow> string \<Rightarrow> restart_response ap" where
  "finishStartA en i o1 status =
     andThen (runA en [] [''start'', i]) (\<lambda>_.
     andThen (modify (\<lambda>w. w\<lparr>ap_finished := remove_key i (ap_finished w)\<rparr>)) (\<lambda>_.
     case op_Deadline o1 of
       None \<Rightarrow> throw nilPanic
     | Some dl \<Rightarrow>
         andThen (scheduleUntilA en i dl) (\<lambda>_.
         andThen (changed en i) (\<lambda>_.
         andThen (lookupA en i) (\<lambda>info.
         andThen (liftE (networkPorts info)) (\<lambda>ports.
         andThen (repoA (CompleteOperation (ae_F en) o1 (Some ports) (Some dl))) (\<lambda>_.
         ret \<lparr>rr_Status = status, rr_Ports = keysOf ports, rr_ExpiresAt = Some dl\<rparr>)))))))"

definition startLockedA :: "apple_env \<Rightarrow> string \<Rightarrow> restart_response ap" where
  "startLockedA en i =
     andThen notClosing (\<lambda>_.
     andThen (lookupA en i) (\<lambda>info.
     andThen (failIf (ci_State info = ''running'') ErrAlreadyRunning) (\<lambda>_.
     andThen (nowA en) (\<lambda>t.
     andThen (atTickA (ae_text en)) (\<lambda>rnd.
     andThen (repoA (BeginOperation (ae_F en) rnd ''container'' i ''start'' (Some (t + defaultTimeoutA * Second)))) (\<lambda>o1.
     finallyDo (finishStartA en i o1 ''started'') (retryOperationA en o1)))))))"

definition StartA :: "apple_env \<Rightarrow> string \<Rightarrow> restart_response ap" where
  "StartA en i = startLockedA en i"

definition RestartA :: "apple_env \<Rightarrow> string \<Rightarrow> restart_response ap" where
  "RestartA en i =
     andThen notClosing (\<lambda>_.
     andThen (lookupA en i) (\<lambda>info.
     andThen (nowA en) (\<lambda>t.
     andThen (atTickA (ae_text en)) (\<lambda>rnd.
     andThen (repoA (BeginOperation (ae_F en) rnd ''container'' i ''restart'' (Some (t + defaultTimeoutA * Second)))) (\<lambda>o1.
     finallyDo
       (andThen (if ci_State info \<noteq> ''stopped'' then andThen (runA en [] [''stop'', i]) (\<lambda>_. ret ()) else ret ()) (\<lambda>_.
        andThen (changed en i) (\<lambda>_.
        finishStartA en i o1 ''restarted'')))
       (retryOperationA en o1))))))"

section \<open>Reconciliation of one intent\<close>

definition validateIntentA :: "operation \<Rightarrow> unit ap" where
  "validateIntentA o1 =
     (if op_RuntimeKind o1 \<noteq> ''container'' \<or> \<not> validID (op_NativeID o1)
      then throw (Msg ''invalid recovery runtime or native identity'')
      else if op_Kind o1 = ''create'' then
        failIf (op_Token o1 \<noteq> op_NativeID o1) (Msg ''creation intent lacks exact ownership token'')
      else if op_Kind o1 = ''start'' \<or> op_Kind o1 = ''restart'' then
        failIf (op_Deadline o1 = None) (Msg ''start/restart intent lacks an absolute deadline'')
      else if op_Kind o1 = ''stop'' \<or> op_Kind o1 = ''delete'' then ret ()
      else throw (Msg ''unknown pending operation''))"

text \<open>What remains to be done for the intent once its container was looked for in the inventory.\<close>

definition settleIntentA :: "apple_env \<Rightarrow> operation \<Rightarrow> container_info option \<Rightarrow> unit ap" where
  "settleIntentA en o1 found =
     (let i = op_NativeID o1 in
      if op_Kind o1 = ''create'' \<or> op_Kind o1 = ''delete'' then
        andThen (if found \<noteq> None then andThen (runA en [] [''delete'', ''--force'', i]) (\<lambda>_. ret ()) else ret ()) (\<lambda>_.
        andThen (clearCommandsA i) (\<lambda>_.
        andThen (changed en i) (\<lambda>_.
        andThen (repoA (DeleteOperation (ae_F en) o1)) (\<lambda>_.
        andThen (clearTimer i) (\<lambda>_.
        modify (\<lambda>w. w\<lparr>ap_finished := remove_key i (ap_finished w)\<rparr>))))))
      else if op_Kind o1 = ''stop'' then
        andThen (case found of None \<Rightarrow> ret ()
          | Some info \<Rightarrow>
              if ci_State info \<noteq> ''stopped'' then andThen (runA en [] [''stop'', i]) (\<lambda>_. ret ()) else ret ()) (\<lambda>_.
        andThen (repoA (CompleteOperation (ae_F en) o1 None None)) (\<lambda>_.
        andThen (clearTimer i) (\<lambda>_.
        changed en i)))
      else if op_Kind o1 = ''start'' \<or> op_Kind o1 = ''restart'' then
        andThen (failIf (op_Deadline o1 = None) (Msg ''start/restart intent lacks an absolute deadline'')) (\<lambda>_.
        andThen (failIf (case found of None \<Rightarrow> False | Some info \<Rightarrow> ci_State info \<notin> {''running'', ''stopped''})
          (DeferRecovery (Msg ''native state is not settled; intent retained''))) (\<lambda>_.
        andThen (liftE (case found of None \<Rightarrow> Inr [] | Some info \<Rightarrow> networkPorts info)) (\<lambda>ports.
        let deadline = (case found of None \<Rightarrow> None
          | Some info \<Rightarrow> if ci_State info \<noteq> ''running'' then None else op_Deadline o1) in
        andThen (repoA (CompleteOperation (ae_F en) o1 (Some ports) deadline)) (\<lambda>_.
        andThen (changed en i) (\<lambda>_.
        case deadline of Some dl \<Rightarrow> scheduleUntilA en i dl | None \<Rightarrow> clearTimer i)))))
      else throw (Msg ''unknown pending operation''))"

definition reconcileA :: "apple_env \<Rightarrow> operation \<Rightarrow> unit ap" where
  "reconcileA en o1 =
     andThen (validateIntentA o1) (\<lambda>_.
     andThen (repoA (ValidateOperation (ae_F en) o1)) (\<lambda>_.
     andThen (inventory en) (\<lambda>items.
     let found = map_of items (op_NativeID o1) in
     andThen (failIf (case found of None \<Rightarrow> False | Some info \<Rightarrow> labelOfA info \<noteq> op_NativeID o1)
       (Msg ''native ownership label mismatch; refusing recovery mutation'')) (\<lambda>_.
     settleIntentA en o1 found))))"

definition RemoveA :: "apple_env \<Rightarrow> string \<Rightarrow> unit ap" where
  "RemoveA en i =
     andThen (owned en i) (\<lambda>_.
     andThen (atTickA (ae_text en)) (\<lambda>rnd.
     andThen (repoA (BeginOperation (ae_F en) rnd ''container'' i ''delete'' None)) (\<lambda>o1.
     finallyDo (reconcileA en o1) (retryOperationA en o1))))"

section \<open>Creation\<close>

text \<open>A request that has passed its checks.\<close>

record apple_create =
  aq_req :: create_request
  aq_ports :: "string list"
  aq_env :: "string list"
  aq_memory :: int
  aq_cpus :: real
  aq_image :: image_info

definition maxSeconds :: int where
  "maxSeconds = (2 ^ 63 - 1) div Second"

definition wantedMemory :: "create_request \<Rightarrow> int" where
  "wantedMemory req = (case rq_Resources req of None \<Rightarrow> 1024
     | Some r \<Rightarrow> if rl_Memory r \<noteq> 0 then rl_Memory r else 1024)"

definition wantedCPUs :: "create_request \<Rightarrow> real" where
  "wantedCPUs req = (case rq_Resources req of None \<Rightarrow> 1
     | Some r \<Rightarrow> if rl_CPUs r \<noteq> 0 then rl_CPUs r else 1)"

definition checkCreate :: "apple_env \<Rightarrow> create_request \<Rightarrow> apple_create ap" where
  "checkCreate en req =
     andThen (liftE (normalizePortsA (rq_Ports req))) (\<lambda>ports.
     andThen (liftE (envArgs (rq_Env req))) (\<lambda>env.
     andThen (failIf (wantedMemory req < 1 \<or> wantedMemory req > 8192) (Msg ''memory must be between 1 and 8192 MiB'')) (\<lambda>_.
     andThen (failIf (wantedCPUs req < 1 \<or> wantedCPUs req > 4 \<or> real_of_int (truncate64 (wantedCPUs req)) \<noteq> wantedCPUs req)
       (Msg ''runtime: Apple container requires whole CPUs between 1 and 4; fractional CPUs are unsupported'')) (\<lambda>_.
     andThen (failIf (rq_Timeout req < 0 \<or> rq_Timeout req > maxSeconds) (Msg ''invalid sandbox timeout'')) (\<lambda>_.
     andThen (findImage en (rq_Image req)) (\<lambda>image.
     andThen (liftE (nativeVariant image)) (\<lambda>_.
     ret \<lparr>aq_req = req, aq_ports = ports, aq_env = env, aq_memory = wantedMemory req,
       aq_cpus = wantedCPUs req, aq_image = image\<rparr>)))))))"

text \<open>A loopback socket for every port is held while the set is chosen; the sockets are then closed.\<close>

fun reservePorts :: "apple_env \<Rightarrow> string list \<Rightarrow> JSONMap \<Rightarrow> JSONMap ap" where
  "reservePorts en [] m = ret m"
| "reservePorts en (p # ps) m =
     andThen (atTickA (\<lambda>n. ae_listen en n (hasSuffix p ''/udp''))) (\<lambda>r.
     andThen (liftE r) (\<lambda>port. reservePorts en ps (store p (Itoa port) m)))"

definition hostPort :: "JSONMap \<Rightarrow> string \<Rightarrow> string" where
  "hostPort m p = (case map_of m p of None \<Rightarrow> [] | Some h \<Rightarrow> h)"

definition createArgs :: "apple_create \<Rightarrow> string \<Rightarrow> JSONMap \<Rightarrow> string list" where
  "createArgs rq i mapped =
     [''create'', ''--max-concurrent-downloads'', ''0'', ''--name'', i, ''--label'', ownerLabelA @ ''='' @ i,
      ''--cpus'', Itoa (nat (truncate64 (aq_cpus rq))), ''--memory'', Itoa (nat (aq_memory rq)) @ ''MiB'',
      ''--platform'', ''linux/arm64'', ''--entrypoint'', ''/bin/sh''] @ aq_env rq @
     concat (map (\<lambda>p. [''--publish'', ''127.0.0.1:'' @ hostPort mapped p @ '':'' @ p]) (aq_ports rq)) @
     [ii_Name (aq_image rq), ''-c'', ''exec sleep infinity'']"

definition createIntent :: "ctx \<Rightarrow> string \<Rightarrow> int \<Rightarrow> operation" where
  "createIntent cx i deadline =
     \<lparr>op_ID = ''container:'' @ i, op_RuntimeKind = ''container'', op_PublicID = CreationID cx i,
      op_NativeID = i, op_NativeName = i, op_Token = i, op_Kind = ''create'', op_Deadline = Some deadline\<rparr>"

definition createdRow :: "ctx \<Rightarrow> apple_create \<Rightarrow> string \<Rightarrow> JSONMap \<Rightarrow> int \<Rightarrow> sandbox_row" where
  "createdRow cx rq i mapped deadline =
     \<lparr>sb_ID = CreationID cx i, sb_NativeID = Some i, sb_ImageRoot = [], sb_ImageManifest = [],
      sb_NativeImage = [], sb_CacheVersion = [], sb_RecoveryError = [], sb_RuntimeKind = ''container'',
      sb_AttemptToken = i, sb_ExpiresAt = Some deadline, sb_Name = CreationID cx i,
      sb_Image = CreationImage cx (rq_Image (aq_req rq)), sb_Ports = mapped,
      sb_Port = (case aq_ports rq of [] \<Rightarrow> [] | p # _ \<Rightarrow> p)\<rparr>"

text \<open>\<open>rollback\<close>: only the resource that this attempt made can be touched.\<close>

definition rollbackA :: "apple_env \<Rightarrow> string \<Rightarrow> unit ap" where
  "rollbackA en i =
     andThen (runA en [] listArgs) (\<lambda>b.
     andThen (liftE (ae_containers en b)) (\<lambda>all.
     case find (\<lambda>info. ci_ID info = i) all of
       None \<Rightarrow> ret ()
     | Some info \<Rightarrow>
         andThen (failIf (labelOfA info \<noteq> i) (Msg ''rollback ownership mismatch'')) (\<lambda>_.
         andThen (runA en [] [''delete'', ''--force'', i]) (\<lambda>_. ret ()))))"

definition errList :: "err + 'a \<Rightarrow> err list" where
  "errList r = (case r of Inl e \<Rightarrow> [e] | Inr _ \<Rightarrow> [])"

text \<open>After a failed create or start: undo the attempt; on success of that the next one may run.\<close>

definition undoAttempt :: "apple_env \<Rightarrow> ctx \<Rightarrow> apple_create \<Rightarrow> string \<Rightarrow> JSONMap \<Rightarrow> int \<Rightarrow> operation \<Rightarrow> err \<Rightarrow> unit ap" where
  "undoAttempt en cx rq i mapped deadline o1 createErr =
     andThen (attempt (rollbackA en i)) (\<lambda>r.
     case r of
       Inl e \<Rightarrow>
         andThen (attempt (repoA (CreateOwnership (ae_F en) (createdRow cx rq i mapped deadline)))) (\<lambda>s.
         throw (Join (createErr # e # errList s)))
     | Inr _ \<Rightarrow>
         andThen (attempt (repoA (DeleteOperation (ae_F en) o1))) (\<lambda>s.
         case s of
           Inl e \<Rightarrow> throw (Join [createErr, e])
         | Inr _ \<Rightarrow>
             andThen (ctxErrA cx) (\<lambda>c.
             case c of
               Some e \<Rightarrow> throw e
             | None \<Rightarrow> failIf (errors_is createErr errOfflineImageUnavailable) createErr)))"

text \<open>
  The commit of a started sandbox. If it fails and the resource cannot be removed either, the row
  keeps the creation's identity for recovery.
\<close>

definition failedRow :: "apple_env \<Rightarrow> ctx \<Rightarrow> apple_create \<Rightarrow> sandbox_row \<Rightarrow> err \<Rightarrow> sandbox_row" where
  "failedRow en cx rq row cause =
     row\<lparr>sb_ImageRoot := CreationImage cx [], sb_NativeImage := ii_Name (aq_image rq),
         sb_ImageManifest := (case imageRef en (ii_Name (aq_image rq)) of
           Inl e \<Rightarrow> sb_ImageManifest row
         | Inr r \<Rightarrow> (case cutAt (CHR ''@'') r of (a, b, ok) \<Rightarrow> b)),
         sb_RecoveryError := ae_errText en cause\<rparr>"

definition commitAttempt :: "apple_env \<Rightarrow> ctx \<Rightarrow> apple_create \<Rightarrow> string \<Rightarrow> JSONMap \<Rightarrow> int \<Rightarrow> operation \<Rightarrow> unit ap" where
  "commitAttempt en cx rq i mapped deadline o1 =
     (let row = createdRow cx rq i mapped deadline in
      andThen (attempt (repoA (CommitCreation (ae_F en) o1 row (AwaitAdoption cx)))) (\<lambda>r.
      case r of
        Inr _ \<Rightarrow>
          if AwaitAdoption cx
          then modify (\<lambda>w. w\<lparr>ap_createAttempts := store i o1 (ap_createAttempts w)\<rparr>)
          else ret ()
      | Inl e \<Rightarrow>
          andThen (attempt (rollbackA en i)) (\<lambda>s.
          case s of
            Inr _ \<Rightarrow>
              andThen (attempt (repoA (DeleteOperation (ae_F en) o1))) (\<lambda>d. throw (Join (e # errList d)))
          | Inl x \<Rightarrow>
              let cause = Join [e, x] in
              andThen (attempt (repoA (CreateOwnership (ae_F en) (failedRow en cx rq row cause)))) (\<lambda>d.
              throw (Join (cause # errList d))))))"

text \<open>
  The deferred closure of an attempt runs when \<open>Create\<close> returns; an attempt followed by another one
  is not committed.
\<close>

definition retryUnless :: "apple_env \<Rightarrow> operation \<Rightarrow> (bool \<times> 'a) ap \<Rightarrow> (bool \<times> 'a) ap" where
  "retryUnless en o1 m = withDefer m (\<lambda>r w.
     case r of Inr (True, x) \<Rightarrow> (r, w) | _ \<Rightarrow> (r, snd (retryOperationA en o1 w)))"

definition createNative :: "apple_env \<Rightarrow> string \<Rightarrow> string list \<Rightarrow> unit ap" where
  "createNative en i args =
     andThen (runA en [] args) (\<lambda>_. andThen (runA en [] [''start'', i]) (\<lambda>_. ret ()))"

definition timeoutOf :: "create_request \<Rightarrow> int" where
  "timeoutOf req = (if rq_Timeout req \<le> 0 then defaultTimeoutA else rq_Timeout req)"

fun createLoop :: "apple_env \<Rightarrow> ctx \<Rightarrow> apple_create \<Rightarrow> nat \<Rightarrow> err \<Rightarrow> create_response ap" where
  "createLoop en cx rq 0 lastErr = throw (Wrap ''runtime: Apple container create/start failed after 3 attempts'' lastErr)"
| "createLoop en cx rq (Suc k) lastErr =
     andThen (randomID en ''opensbx-'') (\<lambda>i.
     andThen (reservePorts en (aq_ports rq) []) (\<lambda>mapped.
     andThen (nowA en) (\<lambda>t.
     let deadline = t + timeoutOf (aq_req rq) * Second; o1 = createIntent cx i deadline in
     andThen (repoA (BeginCreate (ae_F en) o1)) (\<lambda>_.
     andThen (retryUnless en o1
       (andThen (attempt (createNative en i (createArgs rq i mapped))) (\<lambda>r.
        case r of
          Inl e \<Rightarrow>
            andThen (undoAttempt en cx rq i mapped deadline o1 e) (\<lambda>_.
            andThen (createLoop en cx rq k e) (\<lambda>x. ret (False, x)))
        | Inr _ \<Rightarrow>
            andThen (commitAttempt en cx rq i mapped deadline o1) (\<lambda>_.
            andThen (scheduleUntilA en i deadline) (\<lambda>_.
            ret (True, \<lparr>rs_ID = i, rs_Name = i, rs_Ports = aq_ports rq\<rparr>)))))) (\<lambda>r.
     ret (snd r))))))"

definition CreateA :: "apple_env \<Rightarrow> ctx \<Rightarrow> create_request \<Rightarrow> create_response ap" where
  "CreateA en cx req =
     andThen notClosing (\<lambda>_.
     andThen (checkCreate en req) (\<lambda>rq. createLoop en cx rq 3 (Msg [])))"

section \<open>Pause, resume and renewal\<close>

definition PauseA :: "apple_env \<Rightarrow> string \<Rightarrow> unit ap" where
  "PauseA en i = andThen (owned en i) (\<lambda>_. throw (Msg ''pause is unsupported by Apple container''))"

definition ResumeA :: "apple_env \<Rightarrow> string \<Rightarrow> unit ap" where
  "ResumeA en i = andThen (owned en i) (\<lambda>_. throw (Msg ''resume is unsupported by Apple container''))"

definition RenewExpirationA :: "apple_env \<Rightarrow> string \<Rightarrow> int \<Rightarrow> unit ap" where
  "RenewExpirationA en i timeout =
     andThen notClosing (\<lambda>_.
     andThen (failIf (timeout \<le> 0 \<or> timeout > maxSeconds) (Msg ''invalid sandbox timeout'')) (\<lambda>_.
     andThen (lookupA en i) (\<lambda>_.
     andThen (nowA en) (\<lambda>t.
     let deadline = t + timeout * Second in
     andThen (repoA (SetDeadline (ae_F en) i ''container'' (Some deadline))) (\<lambda>_.
     scheduleUntilA en i deadline)))))"

end
