(* ===== verification/Apple_Recovery.thy ===== *)
theory Apple_Recovery
  imports Apple_Lifecycle
begin

text \<open>
  The rest of \<open>src/internal/applecontainer/recovery.go\<close> with the expiry and shutdown of \<open>client.go\<close>
  and \<open>DiscardCreated\<close> of \<open>routing.go\<close>: what happens to durable intents and deadlines after a failure
  or a restart of the server. As for the Docker adapter, an attempt of the recovery queue is one
  step, and \<open>warm\<close> is the context bounded by the warm-up budget.
\<close>

definition lockRecovery :: "ctx \<Rightarrow> unit ap" where
  "lockRecovery cx =
     andThen (ctxErrA cx) (\<lambda>e.
     case e of Some x \<Rightarrow> throw x | None \<Rightarrow> notClosing)"

section \<open>Creation at the service boundary\<close>

definition forgetAttemptA :: "string \<Rightarrow> unit ap" where
  "forgetAttemptA i = modify (\<lambda>w. w\<lparr>ap_createAttempts := remove_key i (ap_createAttempts w)\<rparr>)"

definition AdoptCreationA :: "apple_env \<Rightarrow> ctx \<Rightarrow> sandbox_row \<Rightarrow> unit ap" where
  "AdoptCreationA en cx row =
     andThen (lockRecovery cx) (\<lambda>_.
     andThen (repoA (UpdateProvenance (ae_F en) row True)) (\<lambda>_. forgetAttemptA (RuntimeID row)))"

definition CreationFailedA :: "string \<Rightarrow> unit ap" where
  "CreationFailedA i =
     andThen (reads (\<lambda>w. map_of (ap_createAttempts w) i)) (\<lambda>o1.
     case o1 of None \<Rightarrow> ret () | Some x \<Rightarrow> queueOperationA x)"

definition DiscardCreatedA :: "apple_env \<Rightarrow> string \<Rightarrow> unit ap" where
  "DiscardCreatedA en i =
     andThen (attempt (RemoveA en i)) (\<lambda>r.
     case r of
       Inl e \<Rightarrow> andThen (CreationFailedA i) (\<lambda>_. throw e)
     | Inr _ \<Rightarrow> forgetAttemptA i)"

section \<open>Jobs\<close>

definition intentWorkA :: "apple_env \<Rightarrow> ctx \<Rightarrow> operation \<Rightarrow> unit ap" where
  "intentWorkA en cx o1 =
     andThen (lockRecovery cx) (\<lambda>_.
     andThen (repoA (FindOperation (ae_F en) (op_ID o1))) (\<lambda>current.
     case current of
       None \<Rightarrow> ret ()
     | Some cur \<Rightarrow>
         if op_RuntimeKind cur \<noteq> op_RuntimeKind o1 \<or> op_Token cur \<noteq> op_Token o1
         then throw (Msg ''recovery attempt identity changed'')
         else andThen (reconcileA en cur) (\<lambda>_.
           if op_Kind cur = ''create'' \<or> op_Kind cur = ''delete'' then forgetAttemptA (op_NativeID cur) else ret ())))"

definition reconcileResourceA :: "apple_env \<Rightarrow> string \<Rightarrow> unit ap" where
  "reconcileResourceA en i =
     andThen (repoA (Pending (ae_F en) ''container'' i)) (\<lambda>p.
     case p of
       None \<Rightarrow> ret ()
     | Some o1 \<Rightarrow>
         if op_Kind o1 = ''create''
         then throw (DeferRecovery (Msg ''creation awaits adoption or explicit failed-create recovery''))
         else reconcileA en o1)"

definition stopExpiredA :: "apple_env \<Rightarrow> string \<Rightarrow> timerEntry \<Rightarrow> unit ap" where
  "stopExpiredA en i e =
     andThen (attempt (stopLockedA en i)) (\<lambda>r.
     case r of
       Inl x \<Rightarrow> if \<not> benignStop x then scheduleDeadlineA i (te_expiresAt e) RecoveryRetryDelay else ret ()
     | Inr _ \<Rightarrow> ret ())"

definition renewedA :: "apple_env \<Rightarrow> timerEntry \<Rightarrow> sandbox_row \<Rightarrow> int option ap" where
  "renewedA en e row =
     (case sb_ExpiresAt row of
        None \<Rightarrow> ret None
      | Some dl \<Rightarrow>
          if dl > te_expiresAt e then andThen (nowA en) (\<lambda>t. ret (if dl > t then Some dl else None))
          else ret None)"

text \<open>The entry is compared by its serial number, which stands for its address.\<close>

definition expireLockedA :: "apple_env \<Rightarrow> string \<Rightarrow> timerEntry \<Rightarrow> unit ap" where
  "expireLockedA en i e =
     andThen (reads (\<lambda>w. ap_closing w \<or> map_option te_serial (map_of (ap_timers w) i) \<noteq> Some (te_serial e))) (\<lambda>stale.
     if stale then ret ()
     else andThen (attempt (reconcileResourceA en i)) (\<lambda>r.
     case r of
       Inl x \<Rightarrow> scheduleDeadlineA i (te_expiresAt e) RecoveryRetryDelay
     | Inr _ \<Rightarrow>
         andThen (reads (\<lambda>w. map_of (ap_timers w) i)) (\<lambda>left.
         if left = None then ret ()
         else andThen (attempt (repoA (FindByID (ae_F en) True i))) (\<lambda>row.
         case row of
           Inl x \<Rightarrow> scheduleDeadlineA i (te_expiresAt e) RecoveryRetryDelay
         | Inr found \<Rightarrow>
             (case found of
                None \<Rightarrow> clearTimer i
              | Some s \<Rightarrow>
                  andThen (renewedA en e s) (\<lambda>dl.
                  case dl of
                    Some d \<Rightarrow> scheduleUntilA en i d
                  | None \<Rightarrow> stopExpiredA en i e))))))"

definition runWorkA :: "apple_env \<Rightarrow> ctx \<Rightarrow> job \<Rightarrow> unit ap" where
  "runWorkA en cx j = (case j of
     IntentJob o1 \<Rightarrow> intentWorkA en cx o1
   | TtlJob i e \<Rightarrow> andThen (lockRecovery cx) (\<lambda>_. expireLockedA en i e))"

definition runJobA :: "apple_env \<Rightarrow> ctx \<Rightarrow> string \<Rightarrow> unit ap" where
  "runJobA en cx key = (\<lambda>w.
     if ap_queueClosed w then (Inr (), w)
     else case map_of (ap_jobs w) key of
       None \<Rightarrow> (Inr (), w)
     | Some j \<Rightarrow>
         (case runWorkA en cx j w of
            (Inl e, w1) \<Rightarrow> (Inl e, w1)
          | (Inr _, w1) \<Rightarrow>
              if ap_queueClosed w1 then (Inr (), w1)
              else (Inr (), w1\<lparr>ap_jobs := remove_key key (ap_jobs w1)\<rparr>)))"

definition expireA :: "apple_env \<Rightarrow> string \<Rightarrow> timerEntry \<Rightarrow> unit ap" where
  "expireA en i e =
     andThen (ScheduleA (ttlKey i e) (TtlJob i e)) (\<lambda>_. runJobA en Background (ttlKey i e))"

section \<open>Startup recovery\<close>

definition deferrableA :: "ctx \<Rightarrow> err \<Rightarrow> bool ap" where
  "deferrableA warm e =
     (if IsDeferredRecovery e then ret True
      else andThen (ctxErrA warm) (\<lambda>x. ret (case x of None \<Rightarrow> False | Some y \<Rightarrow> errors_is e y)))"

fun registerIntentsA :: "apple_env \<Rightarrow> operation list \<Rightarrow> unit ap" where
  "registerIntentsA en [] = ret ()"
| "registerIntentsA en (o1 # ops) =
     andThen (repoA (ValidateOperation (ae_F en) o1)) (\<lambda>_.
     andThen (validateIntentA o1) (\<lambda>_.
     andThen (retryOperationA en o1) (\<lambda>_.
     registerIntentsA en ops)))"

fun restoreDeadlinesA :: "apple_env \<Rightarrow> sandbox_row list \<Rightarrow> unit ap" where
  "restoreDeadlinesA en [] = ret ()"
| "restoreDeadlinesA en (row # rows) =
     andThen
       (case sb_ExpiresAt row of
          Some dl \<Rightarrow>
            if sb_RuntimeKind row \<noteq> ''container'' then ret ()
            else andThen (nowA en) (\<lambda>t.
              scheduleDeadlineA (RuntimeID row) dl (if dl - t \<le> 0 then RecoveryRetryDelay else dl - t))
        | None \<Rightarrow> ret ())
       (\<lambda>_. restoreDeadlinesA en rows)"

fun warmIntentsA :: "apple_env \<Rightarrow> ctx \<Rightarrow> operation list \<Rightarrow> unit ap" where
  "warmIntentsA en warm [] = ret ()"
| "warmIntentsA en warm (o1 # ops) =
     andThen (ctxErrA warm) (\<lambda>x.
     if x \<noteq> None then ret ()
     else andThen (attempt (reconcileA en o1)) (\<lambda>r.
     andThen
       (case r of Inr _ \<Rightarrow> ret ()
        | Inl e \<Rightarrow> andThen (deferrableA warm e) (\<lambda>b. failIf (\<not> b) e))
       (\<lambda>_. warmIntentsA en warm ops)))"

definition overdueA :: "apple_env \<Rightarrow> sandbox_row \<Rightarrow> bool ap" where
  "overdueA en row =
     (case sb_ExpiresAt row of
        None \<Rightarrow> ret False
      | Some dl \<Rightarrow>
          if sb_RuntimeKind row \<noteq> ''container'' then ret False
          else andThen (nowA en) (\<lambda>t. ret (\<not> dl > t)))"

fun warmOverdueA :: "apple_env \<Rightarrow> ctx \<Rightarrow> sandbox_row list \<Rightarrow> unit ap" where
  "warmOverdueA en warm [] = ret ()"
| "warmOverdueA en warm (row # rows) =
     andThen (ctxErrA warm) (\<lambda>x.
     if x \<noteq> None then ret ()
     else andThen (overdueA en row) (\<lambda>late.
     if \<not> late then warmOverdueA en warm rows
     else andThen (repoA (Pending (ae_F en) ''container'' (RuntimeID row))) (\<lambda>pending.
     if pending \<noteq> None then warmOverdueA en warm rows
     else andThen (attempt (stopLockedA en (RuntimeID row))) (\<lambda>r.
     andThen
       (case r of Inr _ \<Rightarrow> ret ()
        | Inl e \<Rightarrow>
            if benignStop e then ret ()
            else andThen (deferrableA warm e) (\<lambda>b. failIf (\<not> b) e))
       (\<lambda>_. warmOverdueA en warm rows)))))"

definition RecoverA :: "apple_env \<Rightarrow> ctx \<Rightarrow> ctx \<Rightarrow> unit ap" where
  "RecoverA en cx warm =
     andThen (lockRecovery cx) (\<lambda>_.
     andThen (repoA (Operations (ae_F en) ''container'')) (\<lambda>ops.
     andThen (repoA (FindAll (ae_F en) True)) (\<lambda>rows.
     andThen (registerIntentsA en ops) (\<lambda>_.
     andThen (restoreDeadlinesA en rows) (\<lambda>_.
     andThen (warmIntentsA en warm ops) (\<lambda>_.
     andThen (warmOverdueA en warm rows) (\<lambda>_.
     andThen (ctxErrA cx) (\<lambda>x. case x of None \<Rightarrow> ret () | Some e \<Rightarrow> throw e))))))))"

section \<open>Shutdown\<close>

definition stopQueueA :: "apple \<Rightarrow> apple" where
  "stopQueueA w = w\<lparr>ap_queueClosed := True, ap_jobs := []\<rparr>"

definition killCommands :: "apple \<Rightarrow> apple" where
  "killCommands w = w\<lparr>ap_commands := map (\<lambda>(k, r). (k, if ac_done r then r else r\<lparr>ac_killed := True\<rparr>)) (ap_commands w)\<rparr>"

definition shutdownRow :: "apple_env \<Rightarrow> sandbox_row \<Rightarrow> unit ap" where
  "shutdownRow en row =
     andThen (attempt (reconcileResourceA en (sb_ID row))) (\<lambda>r.
     case r of
       Inl e \<Rightarrow> ret ()
     | Inr _ \<Rightarrow> andThen (attempt (stopLockedA en (sb_ID row))) (\<lambda>_. ret ()))"

fun shutdownRows :: "apple_env \<Rightarrow> ctx \<Rightarrow> sandbox_row list \<Rightarrow> unit ap" where
  "shutdownRows en cx [] = ret ()"
| "shutdownRows en cx (row # rows) =
     (if sb_RuntimeKind row \<noteq> [] \<and> sb_RuntimeKind row \<noteq> ''container'' then shutdownRows en cx rows
      else andThen (ctxErrA cx) (\<lambda>x.
        if x \<noteq> None then ret ()
        else andThen (shutdownRow en row) (\<lambda>_. shutdownRows en cx rows)))"

text \<open>Nothing is returned; a failure to read the rows leaves the commands as they are.\<close>

definition ShutdownA :: "apple_env \<Rightarrow> ctx \<Rightarrow> unit ap" where
  "ShutdownA en cx =
     andThen (modify stopQueueA) (\<lambda>_.
     andThen (modify (\<lambda>w. w\<lparr>ap_closing := True, ap_timers := []\<rparr>)) (\<lambda>_.
     andThen (attempt (repoA (FindAll (ae_F en) True))) (\<lambda>r.
     case r of
       Inl e \<Rightarrow> ret ()
     | Inr rows \<Rightarrow> andThen (shutdownRows en cx rows) (\<lambda>_. modify killCommands))))"

end
