(* ===== verification/Write_Ahead.thy ===== *)
theory Write_Ahead
  imports Docker_Audit
begin

text \<open>
  What both runtime adapters rely on when they act on a durable intent, stated over any state that
  holds the repository's tables: beginning an operation stores the intent that covers the
  resource, a validated intent is the row of the table, and reconciling a snapshot of the table
  meets no other intent under the same key.
\<close>

definition covering :: "('s \<Rightarrow> db) \<Rightarrow> string \<Rightarrow> string \<Rightarrow> string \<Rightarrow> operation \<Rightarrow> 's \<Rightarrow> bool" where
  "covering tbl runtime kind i o1 s \<longleftrightarrow> o1 \<in> set (operations (tbl s)) \<and> op_Kind o1 = kind \<and>
     pendingFor runtime i (first_row sb_ID (hasNativeID i) (sandboxes (tbl s))) o1"

definition only_row :: "('s \<Rightarrow> db) \<Rightarrow> operation \<Rightarrow> 's \<Rightarrow> bool" where
  "only_row tbl o1 s \<longleftrightarrow> (\<forall>st \<in> set (operations (tbl s)). op_ID st = op_ID o1 \<longrightarrow> st = o1)"

definition opsUnder :: "('s \<Rightarrow> db) \<Rightarrow> operation set \<Rightarrow> 's \<Rightarrow> bool" where
  "opsUnder tbl S s \<longleftrightarrow> set (operations (tbl s)) \<subseteq> S"

lemma snapshot_only_row: "snapshot ops S \<Longrightarrow> o1 \<in> set ops \<Longrightarrow> opsUnder tbl S s \<Longrightarrow> only_row tbl o1 s"
  by (auto simp: snapshot_def opsUnder_def only_row_def)

locale journal =
  fixes tbl :: "'s \<Rightarrow> db"
    and put :: "db \<Rightarrow> 's \<Rightarrow> 's"
    and sound :: "'s \<Rightarrow> bool"
  assumes tbl_put: "tbl (put d s) = d"
    and sound_keys: "sound s \<Longrightarrow> keys_wf (tbl s)"
    and sound_put: "sound s \<Longrightarrow> keys_wf d \<Longrightarrow> sound (put d s)"
begin

lemma zoomed: "zoom tbl put m s = (r, s') \<Longrightarrow> \<exists>d. m (tbl s) = (r, d) \<and> s' = put d s"
  by (auto simp: zoom_def split: prod.splits)

lemma sound_zoom:
  assumes "keeps keys_wf m"
  shows "keeps sound (zoom tbl put m)"
  unfolding keeps_def
proof (intro allI impI)
  fix s assume "sound s"
  then have "keys_wf (snd (m (tbl s)))" using assms sound_keys by (auto simp: keeps_def)
  then show "sound (snd (zoom tbl put m s))"
    using sound_put \<open>sound s\<close> by (auto simp: zoom_def split: prod.split)
qed

lemma under_zoom:
  "keeps (opsWithin S) m \<Longrightarrow> keeps (opsUnder tbl S) (zoom tbl put m)"
  unfolding keeps_def opsUnder_def by (auto simp: zoom_def tbl_put split: prod.split) (metis snd_conv subsetD)

text \<open>A statement that keeps the tables and on success tells something about them.\<close>

lemma triple_zoom:
  assumes "keeps keys_wf m" "\<And>d x d'. P d \<Longrightarrow> m d = (Inr x, d') \<Longrightarrow> Q x d'"
  shows "triple (\<lambda>s. sound s \<and> P (tbl s)) (zoom tbl put m) (\<lambda>x s. sound s \<and> Q x (tbl s)) sound"
proof (rule tripleI)
  note k = keepsD [OF sound_zoom [OF assms(1)]]
  { fix s e s' assume "sound s \<and> P (tbl s)" "zoom tbl put m s = (Inl e, s')"
    then show "sound s'" using k by blast }
  fix s x s' assume s: "sound s \<and> P (tbl s)" "zoom tbl put m s = (Inr x, s')"
  obtain d where d: "m (tbl s) = (Inr x, d)" "s' = put d s" using zoomed [OF s(2)] by blast
  show "sound s' \<and> Q x (tbl s')" using k s d assms(2) tbl_put by auto
qed

lemma triple_begin:
  "triple sound (zoom tbl put (BeginOperation F rnd runtime i kind dl))
     (\<lambda>o1 s. sound s \<and> covering tbl runtime kind i o1 s) sound"
proof -
  have "o1 \<in> set (operations d') \<and> op_Kind o1 = kind \<and>
      pendingFor runtime i (first_row sb_ID (hasNativeID i) (sandboxes d')) o1"
    if ok: "BeginOperation F rnd runtime i kind dl d = (Inr o1, d')" for d o1 d'
  proof -
    obtain row where row: "first_row sb_ID (hasNativeID i) (sandboxes d) = Some row"
      and b: "begun rnd runtime i kind dl row (operations d) o1 (operations d')"
      and s: "sandboxes d' = sandboxes d" using ok_BeginOperation [OF ok] by blast
    show ?thesis using begun_covers [OF b row] row s by simp
  qed
  from triple_zoom [OF keys_wf_ops(1), where P = "\<lambda>_. True", OF this] show ?thesis
    by (simp add: covering_def)
qed

lemma keeps_journalled:
  "(\<And>o1. triple (\<lambda>s. sound s \<and> covering tbl runtime kind i o1 s) (f o1) (\<lambda>_. sound) sound) \<Longrightarrow>
     keeps sound (andThen (zoom tbl put (BeginOperation F rnd runtime i kind dl)) f)"
  unfolding keeps_triple by (rule triple_andThen [OF triple_begin])

lemma triple_validate:
  "triple (\<lambda>s. sound s \<and> only_row tbl o1 s) (zoom tbl put (ValidateOperation F o1))
     (\<lambda>_ s. sound s \<and> o1 \<in> set (operations (tbl s))) sound"
  unfolding only_row_def
proof (rule triple_zoom)
  show "keeps keys_wf (ValidateOperation F o1)" by (intro keeps_rules)
  fix d x d' assume "\<forall>st \<in> set (operations d). op_ID st = op_ID o1 \<longrightarrow> st = o1"
    and ok: "ValidateOperation F o1 d = (Inr x, d')"
  then show "o1 \<in> set (operations d')"
    using ok_ValidateOperation [OF ok] by (auto simp: tables_eq_iff)
qed

lemma keys_unique:
  "sound s \<Longrightarrow> o1 \<in> set (operations (tbl s)) \<Longrightarrow> only_row tbl o1 s"
  using sound_keys [of s] by (auto simp: only_row_def keys_wf_def distinct_map inj_on_def)

lemma keeps_found:
  assumes find: "\<And>d r d'. m d = (Inr (Some r), d') \<Longrightarrow> tables d' = tables d \<and> r \<in> set (operations d)"
    and k: "keeps keys_wf m" and none: "keeps sound n"
    and some: "\<And>o1. triple (\<lambda>s. sound s \<and> only_row tbl o1 s) (f o1) (\<lambda>_. sound) sound"
  shows "keeps sound (andThen (zoom tbl put m) (\<lambda>r. case r of None \<Rightarrow> n | Some o1 \<Rightarrow> f o1))"
  unfolding keeps_triple
proof (rule triple_andThen)
  have q: "\<forall>o1. x = Some o1 \<longrightarrow> o1 \<in> set (operations d')" if "m d = (Inr x, d')" for d x d'
    using find that by (auto simp: tables_eq_iff)
  show "triple sound (zoom tbl put m)
      (\<lambda>r s. sound s \<and> (\<forall>o1. r = Some o1 \<longrightarrow> o1 \<in> set (operations (tbl s)))) sound"
    using triple_zoom [where P = "\<lambda>_. True", OF k q] by simp
  fix r :: "operation option"
  show "triple (\<lambda>s. sound s \<and> (\<forall>o1. r = Some o1 \<longrightarrow> o1 \<in> set (operations (tbl s))))
      (case r of None \<Rightarrow> n | Some o1 \<Rightarrow> f o1) (\<lambda>_. sound) sound"
  proof (cases r)
    case None
    then show ?thesis using none by (auto intro: triple_of_keeps)
  next
    case (Some o1)
    then show ?thesis using some [of o1] keys_unique by (auto intro: triple_conseq)
  qed
qed

text \<open>Startup: the intents that were read first stay the only ones under their keys.\<close>

lemma triple_snapshot:
  "triple sound (zoom tbl put (Operations F runtime))
     (\<lambda>ops s. sound s \<and> snapshot ops (set (operations (tbl s)))) sound"
proof (rule tripleI)
  have k: "keeps sound (zoom tbl put (Operations F runtime))" by (intro sound_zoom keeps_rules)
  { fix s e s' assume "sound s" "zoom tbl put (Operations F runtime) s = (Inl e, s')"
    then show "sound s'" using keepsD [OF k] by blast }
  fix s ops s' assume s: "sound s" "zoom tbl put (Operations F runtime) s = (Inr ops, s')"
  then have snd: "sound s'" using keepsD [OF k] by blast
  obtain d where d: "Operations F runtime (tbl s) = (Inr ops, d)" "s' = put d s"
    using zoomed [OF s(2)] by blast
  have "snapshot ops (set (operations d))"
    using Operations_rows [OF d(1)] sound_keys [OF snd] d(2)
    by (auto simp: snapshot_def keys_wf_def distinct_map inj_on_def tables_eq_iff tbl_put)
  then show "sound s' \<and> snapshot ops (set (operations (tbl s')))" using snd d(2) by (simp add: tbl_put)
qed

end

interpretation docker: journal wdb "\<lambda>d w. w\<lparr>wdb := d\<rparr>" audited
  by unfold_locales (auto simp: audited_def)

end
