(* ===== verification/Apple_Audit.thy ===== *)
theory Apple_Audit
  imports Apple_Recovery Write_Ahead
begin

text \<open>
  The write-ahead discipline of the Apple adapter: every call of the command line that creates,
  starts, stops or deletes a container names an identifier that the adapter has issued, is made
  while a durable intent for it is stored, and, except for the creation itself, after the latest
  inventory showed that container with its own ownership label. It holds for every answer of the
  command line, every pattern of database failures and every early return.
\<close>

section \<open>What a call must be backed by\<close>

fun mutation :: "string list \<Rightarrow> (string \<times> string) option" where
  "mutation (v # a # rest) =
     (if v = ''start'' \<or> v = ''stop'' then Some (v, a)
      else if v = ''delete'' \<and> rest \<noteq> [] then Some (v, hd rest)
      else if v = ''create'' \<and> length rest > 2 then Some (v, rest ! 2)
      else None)"
| "mutation args = None"

definition showsOwned :: "apple_env \<Rightarrow> cli_event \<Rightarrow> string \<Rightarrow> bool" where
  "showsOwned en e i \<longleftrightarrow> (\<exists>out all info. runOutcome (ce_args e) (ce_answer e) = Inr out \<and>
     ae_containers en out = Inr all \<and> find (\<lambda>x. ci_ID x = i) all = Some info \<and> labelOfA info = i)"

definition inventoryShows :: "apple_env \<Rightarrow> cli_event list \<Rightarrow> string \<Rightarrow> bool" where
  "inventoryShows en evs i \<longleftrightarrow> (\<exists>e. find (\<lambda>e. ce_args e = listArgs) (rev evs) = Some e \<and> showsOwned en e i)"

definition justCreated :: "cli_event list \<Rightarrow> string \<Rightarrow> bool" where
  "justCreated evs i \<longleftrightarrow> evs \<noteq> [] \<and> mutation (ce_args (last evs)) = Some (''create'', i) \<and>
     (\<exists>out. runOutcome (ce_args (last evs)) (ce_answer (last evs)) = Inr out)"

definition allowsA :: "string \<Rightarrow> string \<Rightarrow> bool" where
  "allowsA v kind \<longleftrightarrow>
     (v = ''create'' \<and> kind = ''create'') \<or>
     (v = ''start'' \<and> kind \<in> {''create'', ''start'', ''restart''}) \<or>
     (v = ''stop'' \<and> kind \<in> {''stop'', ''restart''}) \<or>
     (v = ''delete'' \<and> kind \<in> {''create'', ''delete''})"

definition intended :: "string \<Rightarrow> string \<Rightarrow> sandbox_row list \<Rightarrow> operation list \<Rightarrow> bool" where
  "intended v i rows ops \<longleftrightarrow> (\<exists>o1 \<in> set ops. allowsA v (op_Kind o1) \<and>
     pendingFor ''container'' i (first_row sb_ID (hasNativeID i) rows) o1)"

definition cli_ok :: "apple_env \<Rightarrow> cli_event list \<Rightarrow> cli_event \<Rightarrow> bool" where
  "cli_ok en evs e \<longleftrightarrow> (case mutation (ce_args e) of
     None \<Rightarrow> True
   | Some (v, i) \<Rightarrow> validID i \<and> intended v i (ce_rows e) (ce_ops e) \<and>
       (v \<noteq> ''create'' \<longrightarrow> inventoryShows en evs i \<or> justCreated evs i))"

definition cli_log_ok :: "apple_env \<Rightarrow> cli_event list \<Rightarrow> bool" where
  "cli_log_ok en evs \<longleftrightarrow> (\<forall>k < length evs. cli_ok en (take k evs) (evs ! k))"

lemma cli_log_ok_snoc: "cli_log_ok en (evs @ [e]) \<longleftrightarrow> cli_log_ok en evs \<and> cli_ok en evs e"
  by (auto simp: cli_log_ok_def nth_append less_Suc_eq)

definition orderly :: "apple_env \<Rightarrow> apple \<Rightarrow> bool" where
  "orderly en w \<longleftrightarrow> cli_log_ok en (ap_calls w) \<and> keys_wf (ap_db w)"

interpretation apple: journal ap_db "\<lambda>d w. w\<lparr>ap_db := d\<rparr>" "orderly en" for en
  by unfold_locales (auto simp: orderly_def)

lemmas apple_repo = repoA_def [symmetric]

lemma orderly_repo [keeps_rules]: "keeps keys_wf m \<Longrightarrow> keeps (orderly en) (repoA m)"
  unfolding repoA_def by (rule apple.sound_zoom)

section \<open>Steps that touch neither the tables nor the record of calls\<close>

definition still :: "'a ap \<Rightarrow> bool" where
  "still m \<longleftrightarrow> (\<forall>w. ap_db (snd (m w)) = ap_db w \<and> ap_calls (snd (m w)) = ap_calls w)"

named_theorems still_rules

lemma still_basic [still_rules]:
  "still (ret x)" "still (throw e)" "still (reads f)" "still (failIf b e)" "still (atTickA g)" "still (nowA en)"
  "still (ctxErrA cx)" "still (liftE r)"
  by (auto simp: still_def prog_defs atTickA_def nowA_def ctxErrA_def liftE_def split: sum.split)

lemma still_modify [still_rules]:
  "(\<And>w. ap_db (f w) = ap_db w) \<Longrightarrow> (\<And>w. ap_calls (f w) = ap_calls w) \<Longrightarrow> still (modify f)"
  by (auto simp: still_def prog_defs)

lemma still_andThen [still_rules]: "still m \<Longrightarrow> (\<And>x. still (f x)) \<Longrightarrow> still (andThen m f)"
  unfolding still_def andThen_def by (auto split: prod.split sum.split) (metis snd_conv)+

lemma still_cases [still_rules]:
  "still m \<Longrightarrow> still n \<Longrightarrow> still (if b then m else n)"
  "still m \<Longrightarrow> (\<And>x. still (f x)) \<Longrightarrow> still (case y of None \<Rightarrow> m | Some x \<Rightarrow> f x)"
  by (auto split: option.split)

lemma still_steps [still_rules]:
  "still (clearTimer i)" "still (scheduleDeadlineA i dl delay)" "still (scheduleUntilA en i dl)"
  "still (ScheduleA key j)" "still (queueOperationA o1)" "still (clearCommandsA i)" "still (changed en i)"
  "still notClosing" "still (lockRecovery cx)" "still (forgetAttemptA i)" "still (validateIntentA o1)"
  "still (CreationFailedA i)" "still (renewedA en e row)" "still (deferrableA cx x)" "still (overdueA en row)"
  "still (modify stopQueueA)" "still (modify killCommands)" "still (randomID en p)"
  unfolding clearTimer_def scheduleDeadlineA_def scheduleUntilA_def ScheduleA_def queueOperationA_def
    clearCommandsA_def changed_def notClosing_def lockRecovery_def forgetAttemptA_def validateIntentA_def
    CreationFailedA_def renewedA_def deferrableA_def overdueA_def randomID_def
  by (intro still_rules; simp add: stopQueueA_def killCommands_def)+

lemma still_loops [still_rules]: "still (reservePorts en ps m)" "still (restoreDeadlinesA en rows)"
proof -
  show "still (reservePorts en ps m)"
    by (induction ps arbitrary: m) (auto intro!: still_rules)
  show "still (restoreDeadlinesA en rows)"
    by (induction rows) (auto intro!: still_rules)
qed

lemma keeps_still:
  "still m \<Longrightarrow> (\<And>w w'. ap_db w' = ap_db w \<Longrightarrow> ap_calls w' = ap_calls w \<Longrightarrow> I w \<Longrightarrow> I w') \<Longrightarrow> keeps I m"
  unfolding keeps_def still_def by blast

lemma orderly_still: "still m \<Longrightarrow> keeps (orderly en) m"
  by (rule keeps_still) (auto simp: orderly_def)

lemmas orderly_leaves [keeps_rules] =
  still_basic [THEN orderly_still] still_steps [THEN orderly_still] still_loops [THEN orderly_still]

section \<open>Calls\<close>

lemma run_world:
  "runA en inp args w = (r, w') \<Longrightarrow> ap_db w' = ap_db w \<and> (\<exists>e. ap_calls w' = ap_calls w @ [e] \<and> ce_args e = args \<and>
     r = runOutcome args (ce_answer e) \<and> ce_rows e = sandboxes (ap_db w) \<and> ce_ops e = operations (ap_db w))"
  by (auto simp: runA_def Let_def)

lemma orderly_run: "mutation args = None \<Longrightarrow> keeps (orderly en) (runA en inp args)"
  by (auto simp: keeps_def runA_def Let_def orderly_def cli_log_ok_snoc cli_ok_def)

lemma mutation_listArgs [simp]: "mutation listArgs = None"
  by (simp add: listArgs_def)

lemma orderly_inventory [keeps_rules]: "keeps (orderly en) (inventory en)" "keeps (orderly en) (runA en inp listArgs)"
  unfolding inventory_def by (intro keeps_rules orderly_run; simp)+

lemma orderly_queries [keeps_rules]:
  "keeps (orderly en) (owned en i)" "keeps (orderly en) (lookupA en i)" "keeps (orderly en) (retryOperationA en o1)"
  "keeps (orderly en) (findImage en i)" "keeps (orderly en) (checkCreate en req)"
  unfolding lookupA_def owned_def retryOperationA_def findImage_def imagesA_def checkCreate_def
  by (intro keeps_rules orderly_run; simp)+

lemma map_of_inventory: "map_of (inventoryOf all) i = find (\<lambda>x. ci_ID x = i) all"
proof -
  have "map_of (foldl (\<lambda>items info. if ci_ID info \<in> fst ` set items then items else items @ [(ci_ID info, info)]) items all) i =
      (case map_of items i of Some x \<Rightarrow> Some x | None \<Rightarrow> find (\<lambda>x. ci_ID x = i) all)" for items
  proof (induction all arbitrary: items)
    case (Cons a all)
    have k: "ci_ID a \<in> fst ` set items \<longleftrightarrow> map_of items (ci_ID a) \<noteq> None"
      by (simp add: map_of_eq_None_iff)
    show ?case
      unfolding foldl_Cons Cons.IH by (auto simp: k map_add_def split: option.split)
  qed (simp split: option.split)
  from this [of "[]"] show ?thesis by (simp add: inventoryOf_def)
qed

lemma ok_liftE: "liftE r w = (Inr x, w') \<longleftrightarrow> r = Inr x \<and> w' = w"
  by (auto simp: liftE_def prog_defs split: sum.split)

text \<open>An answered inventory that shows the container with its label.\<close>

definition seen_owned :: "apple_env \<Rightarrow> string \<Rightarrow> apple \<Rightarrow> bool" where
  "seen_owned en i w \<longleftrightarrow> inventoryShows en (ap_calls w) i"

lemma inventory_shows:
  assumes "inventory en w = (Inr items, w')"
  shows "ap_db w' = ap_db w \<and> (\<forall>info. map_of items i = Some info \<and> labelOfA info = i \<longrightarrow> seen_owned en i w')"
proof -
  obtain b w1 all where b: "runA en [] listArgs w = (Inr b, w1)" "ae_containers en b = Inr all"
      "items = inventoryOf all" "w' = w1"
    using assms by (auto simp: inventory_def ok_simps ok_liftE)
  obtain e where e: "ap_db w1 = ap_db w" "ap_calls w1 = ap_calls w @ [e]" "ce_args e = listArgs"
      "Inr b = runOutcome listArgs (ce_answer e)" using run_world [OF b(1)] by blast
  have "seen_owned en i w'" if "map_of items i = Some info" "labelOfA info = i" for info
    using that b e(1-3) e(4) [symmetric] by (auto simp: seen_owned_def inventoryShows_def showsOwned_def map_of_inventory)
  then show ?thesis using b e by blast
qed

lemma ok_owned: "owned en i w = (Inr row, w') \<Longrightarrow> validID i"
  by (auto simp: owned_def ok_simps)

lemma ownedEntry_label: "ownedInventoryEntry items i = Inr info \<Longrightarrow> map_of items i = Some info \<and> labelOfA info = i"
  by (auto simp: ownedInventoryEntry_def split: option.splits)

text \<open>A step that changes neither the intents nor the rows keeps what is known of them.\<close>

definition keepsTables :: "'a ap \<Rightarrow> bool" where
  "keepsTables m \<longleftrightarrow> (\<forall>w. tables (ap_db (snd (m w))) = tables (ap_db w))"

named_theorems tables_rules

lemma keepsTables_still: "still m \<Longrightarrow> keepsTables m"
  by (auto simp: keepsTables_def still_def)

lemmas keepsTables_leaves [tables_rules] =
  still_basic [THEN keepsTables_still] still_steps [THEN keepsTables_still] still_loops [THEN keepsTables_still]

lemma keepsTables_andThen [tables_rules]:
  "keepsTables m \<Longrightarrow> (\<And>x. keepsTables (f x)) \<Longrightarrow> keepsTables (andThen m f)"
  unfolding keepsTables_def andThen_def by (auto split: prod.split sum.split) (metis snd_conv)+

lemma keepsTables_cases [tables_rules]:
  "keepsTables m \<Longrightarrow> (\<And>x. keepsTables (g x)) \<Longrightarrow> keepsTables (case y of None \<Rightarrow> m | Some x \<Rightarrow> g x)"
  "keepsTables m \<Longrightarrow> keepsTables n \<Longrightarrow> keepsTables (if b then m else n)"
  by (auto split: option.split)

lemma keepsTables_run [tables_rules]: "keepsTables (runA en inp args)"
  by (simp add: keepsTables_def runA_def Let_def)

lemma keepsTables_query [tables_rules]: "keepsTables (repoA (FindByID F b i))"
  by (auto simp: keepsTables_def repoA_def FindByID_def FindByNativeID_def query_def stmt_def prog_defs tables_def Let_def
      split: option.split)

lemma keepsTables_lookup [tables_rules]: "keepsTables (owned en i)" "keepsTables (inventory en)" "keepsTables (lookupA en i)"
  unfolding lookupA_def owned_def inventory_def by (intro tables_rules)+

text \<open>The intent stays stored, and what the latest inventory showed stays known.\<close>

definition begun_on :: "apple_env \<Rightarrow> string \<Rightarrow> string \<Rightarrow> operation \<Rightarrow> apple \<Rightarrow> bool" where
  "begun_on en kind i o1 w \<longleftrightarrow> orderly en w \<and> covering ap_db ''container'' kind i o1 w"

definition cleared :: "apple_env \<Rightarrow> string \<Rightarrow> string \<Rightarrow> operation \<Rightarrow> apple \<Rightarrow> bool" where
  "cleared en kind i o1 w \<longleftrightarrow> begun_on en kind i o1 w \<and> validID i \<and> seen_owned en i w"

lemma begun_on_orderly: "begun_on en kind i o1 w \<Longrightarrow> orderly en w" "cleared en kind i o1 w \<Longrightarrow> orderly en w"
  by (simp_all add: begun_on_def cleared_def)

lemma covering_tables: "tables (ap_db w') = tables (ap_db w) \<Longrightarrow> covering ap_db rt kind i o1 w' = covering ap_db rt kind i o1 w"
  by (simp add: covering_def tables_eq_iff)

lemma keeps_begun_on: "keeps (orderly en) m \<Longrightarrow> keepsTables m \<Longrightarrow> keeps (begun_on en kind i o1) m"
  unfolding keeps_def begun_on_def keepsTables_def using covering_tables by blast

lemma triple_lookup:
  "triple (begun_on en kind i o1) (lookupA en i) (\<lambda>_. cleared en kind i o1) (begun_on en kind i o1)"
proof (rule tripleI)
  have k: "keeps (begun_on en kind i o1) (lookupA en i)"
    by (intro keeps_begun_on orderly_queries tables_rules)
  { fix w e w' assume "begun_on en kind i o1 w" "lookupA en i w = (Inl e, w')"
    then show "begun_on en kind i o1 w'" using keepsD [OF k] by blast }
  fix w info w' assume w: "begun_on en kind i o1 w" "lookupA en i w = (Inr info, w')"
  then obtain row w1 items w2 where s: "owned en i w = (Inr row, w1)" "inventory en w1 = (Inr items, w2)"
      "ownedInventoryEntry items i = Inr info" "w' = w2"
    by (auto simp: lookupA_def ok_simps ok_liftE)
  have "seen_owned en i w'" using inventory_shows [OF s(2)] ownedEntry_label [OF s(3)] s(4) by blast
  moreover have "begun_on en kind i o1 w'" using keepsD [OF k] w by blast
  ultimately show "cleared en kind i o1 w'" using ok_owned [OF s(1)] by (simp add: cleared_def)
qed

lemma inventoryShows_snoc:
  "inventoryShows en evs i \<Longrightarrow> ce_args e \<noteq> listArgs \<Longrightarrow> inventoryShows en (evs @ [e]) i"
  by (simp add: inventoryShows_def)

text \<open>A mutation that is backed keeps the log in order.\<close>

lemma orderly_mutation:
  assumes "orderly en w" "mutation args = Some (v, i)" "validID i"
    "intended v i (sandboxes (ap_db w)) (operations (ap_db w))"
    "v \<noteq> ''create'' \<longrightarrow> inventoryShows en (ap_calls w) i \<or> justCreated (ap_calls w) i"
    "runA en inp args w = (r, w')"
  shows "orderly en w'"
  using assms run_world [OF assms(6)] by (auto simp: orderly_def cli_log_ok_snoc cli_ok_def)

lemma keeps_cleared_run:
  assumes "mutation args = Some (v, i)" "allowsA v kind"
  shows "keeps (cleared en kind i o1) (runA en inp args)"
  unfolding keeps_def
proof (intro allI impI)
  fix w assume c: "cleared en kind i o1 w"
  obtain r w' where r: "runA en inp args w = (r, w')" by fastforce
  have i: "intended v i (sandboxes (ap_db w)) (operations (ap_db w))"
    using c assms(2) by (auto simp: cleared_def begun_on_def covering_def intended_def)
  have "orderly en w'"
    by (rule orderly_mutation [OF _ assms(1) _ i _ r]) (use c in \<open>auto simp: cleared_def begun_on_def seen_owned_def\<close>)
  moreover have "args \<noteq> listArgs" using assms(1) by auto
  then have "seen_owned en i w'"
    using c run_world [OF r] inventoryShows_snoc by (auto simp: cleared_def seen_owned_def)
  ultimately show "cleared en kind i o1 (snd (runA en inp args w))"
    using c r run_world [OF r] by (auto simp: cleared_def begun_on_def covering_def)
qed

lemma keeps_cleared_still: "still m \<Longrightarrow> keeps (cleared en kind i o1) m"
  by (rule keeps_still) (auto simp: cleared_def begun_on_def orderly_def covering_def seen_owned_def)

lemma triple_weaken: "keeps (orderly en) m \<Longrightarrow> triple (cleared en kind i o1) m (\<lambda>_. orderly en) (orderly en)"
  "keeps (orderly en) m \<Longrightarrow> triple (begun_on en kind i o1) m (\<lambda>_. orderly en) (orderly en)"
  by (auto intro: triple_of_keeps dest: begun_on_orderly)

lemma triple_cleared: "keeps (cleared en kind i o1) m \<Longrightarrow> triple (cleared en kind i o1) m (\<lambda>_. cleared en kind i o1) (orderly en)"
  by (auto simp: keeps_triple intro: triple_conseq dest: begun_on_orderly)

lemma keeps_beginA:
  "(\<And>o1. triple (begun_on en kind i o1) (f o1) (\<lambda>_. orderly en) (orderly en)) \<Longrightarrow>
     keeps (orderly en) (andThen (repoA (BeginOperation F rnd ''container'' i kind dl)) f)"
  unfolding repoA_def by (rule apple.keeps_journalled) (simp add: begun_on_def [abs_def])

lemma triple_retrying:
  "triple P m (\<lambda>_. orderly en) (orderly en) \<Longrightarrow> triple P (finallyDo m (retryOperationA en o1)) (\<lambda>_. orderly en) (orderly en)"
  by (rule triple_finally) (use orderly_queries(3) in \<open>auto simp: keeps_triple\<close>)

lemma triple_then: "triple P m (\<lambda>_. orderly en) (orderly en) \<Longrightarrow> (\<And>x. keeps (orderly en) (f x)) \<Longrightarrow>
     triple P (andThen m f) (\<lambda>_. orderly en) (orderly en)"
  by (rule triple_andThen) (auto simp: keeps_triple)

section \<open>Stop, start and restart\<close>

lemma keeps_settleStopA [keeps_rules]: "keeps (orderly en) (settleStopA en o1 i e)"
  unfolding settleStopA_def by (intro keeps_rules)

lemma orderly_fields [simp]:
  "orderly en (w\<lparr>ap_finished := f\<rparr>) = orderly en w"
  "orderly en (w\<lparr>ap_createAttempts := g\<rparr>) = orderly en w"
  "orderly en (w\<lparr>ap_closing := b, ap_timers := t\<rparr>) = orderly en w"
  by (simp_all add: orderly_def)

lemma triple_looked:
  assumes "\<And>e. triple (begun_on en kind i o1) (f (Inl e)) Q (orderly en)"
    and "\<And>info. triple (cleared en kind i o1) (f (Inr info)) Q (orderly en)"
  shows "triple (begun_on en kind i o1) (andThen (attempt (lookupA en i)) f) Q (orderly en)"
proof (rule triple_andThen [OF triple_attempt [OF triple_lookup]])
  fix r :: "err + container_info"
  show "triple (\<lambda>w. case r of Inl e \<Rightarrow> begun_on en kind i o1 w | Inr x \<Rightarrow> cleared en kind i o1 w) (f r) Q (orderly en)"
    using assms by (cases r) auto
qed

lemma triple_run:
  assumes "mutation args = Some (v, i)" "allowsA v kind"
  shows "triple (cleared en kind i o1) (runA en inp args) (\<lambda>_. cleared en kind i o1) (orderly en)"
  by (rule triple_cleared [OF keeps_cleared_run [OF assms]])

lemma triple_run_then:
  assumes "mutation args = Some (v, i)" "allowsA v kind" "\<And>x. keeps (orderly en) (f x)"
  shows "triple (cleared en kind i o1) (andThen (runA en inp args) f) (\<lambda>_. orderly en) (orderly en)"
  by (rule triple_andThen [OF triple_run [OF assms(1,2)]]) (rule triple_weaken(1) [OF assms(3)])

lemma allowed [simp]:
  "allowsA ''stop'' ''stop''" "allowsA ''stop'' ''restart''" "allowsA ''start'' ''start''" "allowsA ''start'' ''restart''"
  "allowsA ''start'' ''create''" "allowsA ''create'' ''create''" "allowsA ''delete'' ''create''" "allowsA ''delete'' ''delete''"
  by (simp_all add: allowsA_def)

lemma orderly_first:
  "(\<And>x. keeps (orderly en) (f x)) \<Longrightarrow> keeps (orderly en) (andThen (owned en i) f)"
  "(\<And>x. keeps (orderly en) (g x)) \<Longrightarrow> keeps (orderly en) (andThen (atTickA u) g)"
  "(\<And>x. keeps (orderly en) (h x)) \<Longrightarrow> keeps (orderly en) (andThen notClosing h)"
  "(\<And>x. keeps (orderly en) (k x)) \<Longrightarrow> keeps (orderly en) (andThen (nowA en) k)"
  "(\<And>x. keeps (orderly en) (l x)) \<Longrightarrow> keeps (orderly en) (andThen (failIf b e) l)"
  by (intro keeps_rules; blast)+

lemma keeps_stopLockedA [keeps_rules]: "keeps (orderly en) (stopLockedA en i)"
  unfolding stopLockedA_def
  apply (intro orderly_first keeps_beginA triple_retrying triple_looked)
   apply (simp only: sum.case, intro triple_weaken keeps_rules)
  apply (simp only: sum.case, rule triple_if, intro triple_weaken keeps_rules)
  apply (rule triple_run_then [where v = "''stop''" and i = i])
    apply (simp_all del: One_nat_def)
  apply (intro keeps_rules, simp)
  done

text \<open>
  A start looks the container up before its intent is written: nothing is asked of the command line
  in between.
\<close>

definition known :: "apple_env \<Rightarrow> string \<Rightarrow> apple \<Rightarrow> bool" where
  "known en i w \<longleftrightarrow> orderly en w \<and> validID i \<and> seen_owned en i w"

lemma triple_lookup_known: "triple (orderly en) (lookupA en i) (\<lambda>_. known en i) (orderly en)"
proof (rule tripleI)
  have k: "keeps (orderly en) (lookupA en i)" by (rule orderly_queries)
  { fix w e w' assume "orderly en w" "lookupA en i w = (Inl e, w')"
    then show "orderly en w'" using keepsD [OF k] by blast }
  fix w info w' assume w: "orderly en w" "lookupA en i w = (Inr info, w')"
  then obtain row w1 items w2 where s: "owned en i w = (Inr row, w1)" "inventory en w1 = (Inr items, w2)"
      "ownedInventoryEntry items i = Inr info" "w' = w2"
    by (auto simp: lookupA_def ok_simps ok_liftE)
  have "seen_owned en i w'" using inventory_shows [OF s(2)] ownedEntry_label [OF s(3)] s(4) by blast
  then show "known en i w'" using keepsD [OF k] w ok_owned [OF s(1)] by (auto simp: known_def)
qed

lemma known_orderly: "known en i w \<Longrightarrow> orderly en w"
  by (simp add: known_def)

lemma keeps_known_still: "still m \<Longrightarrow> keeps (known en i) m"
  by (rule keeps_still) (auto simp: known_def orderly_def seen_owned_def)

lemma triple_known_begin:
  "triple (known en i) (repoA (BeginOperation F rnd ''container'' i kind dl)) (\<lambda>o1. cleared en kind i o1) (orderly en)"
proof (rule tripleI)
  note t = apple.triple_begin [of en F rnd "''container''" i kind dl, folded repoA_def]
  { fix w e w' assume "known en i w" "repoA (BeginOperation F rnd ''container'' i kind dl) w = (Inl e, w')"
    then show "orderly en w'" using tripleD [OF t] by (fastforce dest: known_orderly) }
  fix w o1 w' assume w: "known en i w" "repoA (BeginOperation F rnd ''container'' i kind dl) w = (Inr o1, w')"
  have "ap_calls w' = ap_calls w"
    using w(2) by (auto simp: repoA_def zoom_def split: prod.splits)
  then show "cleared en kind i o1 w'"
    using tripleD [OF t _ w(2)] w(1) by (auto simp: cleared_def begun_on_def known_def seen_owned_def)
qed

lemma triple_known_still: "still m \<Longrightarrow> triple (known en i) m (\<lambda>_. known en i) (orderly en)"
  using keeps_known_still by (auto simp: keeps_triple intro: triple_conseq known_orderly)

lemma triple_begin_known:
  assumes "\<And>t rnd o1. triple (cleared en kind i o1) (f t rnd o1) (\<lambda>_. orderly en) (orderly en)"
  shows "triple (known en i) (andThen (nowA en) (\<lambda>t. andThen (atTickA (ae_text en)) (\<lambda>rnd.
     andThen (repoA (BeginOperation F rnd ''container'' i kind (Some (t + d)))) (f t rnd)))) (\<lambda>_. orderly en) (orderly en)"
  by (rule triple_andThen [OF triple_known_still [OF still_basic(6)]],
      rule triple_andThen [OF triple_known_still [OF still_basic(5)]],
      rule triple_andThen [OF triple_known_begin assms])

lemma keeps_looked:
  "(\<And>info. triple (known en i) (f info) (\<lambda>_. orderly en) (orderly en)) \<Longrightarrow> keeps (orderly en) (andThen (lookupA en i) f)"
  unfolding keeps_triple by (rule triple_andThen [OF triple_lookup_known])

lemma triple_cleared_still: "still m \<Longrightarrow> triple (cleared en kind i o1) m (\<lambda>_. cleared en kind i o1) (orderly en)"
  by (rule triple_cleared [OF keeps_cleared_still])

lemma triple_finishStart:
  assumes "allowsA ''start'' kind"
  shows "triple (cleared en kind i o1) (finishStartA en i o1 status) (\<lambda>_. orderly en) (orderly en)"
  unfolding finishStartA_def
  by (rule triple_run_then [where v = "''start''" and i = i]) (simp_all add: assms, intro keeps_rules, simp)

lemma keeps_StartA [keeps_rules]: "keeps (orderly en) (startLockedA en i)" "keeps (orderly en) (StartA en i)"
  unfolding StartA_def startLockedA_def
  by (intro orderly_first keeps_looked triple_andThen [OF triple_known_still [OF still_basic(4)]]
      triple_begin_known [where kind = "''start''"] triple_retrying triple_finishStart allowed)+

lemma triple_restart:
  "triple (cleared en ''restart'' i o1)
     (andThen (if b then andThen (runA en [] [''stop'', i]) (\<lambda>_. ret ()) else ret ()) (\<lambda>_.
      andThen (changed en i) (\<lambda>_. finishStartA en i o1 status))) (\<lambda>_. orderly en) (orderly en)"
proof (rule triple_andThen)
  have r: "triple (cleared en ''restart'' i o1) (ret ()) (\<lambda>_. cleared en ''restart'' i o1) (orderly en)"
    by (intro triple_cleared_still still_basic)
  show "triple (cleared en ''restart'' i o1)
      (if b then andThen (runA en [] [''stop'', i]) (\<lambda>_. ret ()) else ret ()) (\<lambda>_. cleared en ''restart'' i o1) (orderly en)"
    by (intro triple_if triple_andThen [OF triple_run [where v = "''stop''"] r] r allowed) simp
  show "triple (cleared en ''restart'' i o1) (andThen (changed en i) (\<lambda>_. finishStartA en i o1 status))
      (\<lambda>_. orderly en) (orderly en)"
    by (rule triple_andThen [OF triple_cleared_still [OF still_steps(7)] triple_finishStart]) simp
qed

lemma keeps_RestartA [keeps_rules]: "keeps (orderly en) (RestartA en i)"
  unfolding RestartA_def
  by (intro orderly_first keeps_looked triple_begin_known [where kind = "''restart''"] triple_retrying triple_restart)

section \<open>Reconciliation\<close>

lemma ok_validateIntentA:
  "validateIntentA o1 w = (Inr x, w') \<Longrightarrow> w' = w \<and> op_RuntimeKind o1 = ''container'' \<and> validID (op_NativeID o1)"
  by (auto simp: validateIntentA_def ok_simps split: if_splits)

lemma triple_validatedA:
  "triple (\<lambda>w. orderly en w \<and> only_row ap_db o1 w)
     (andThen (validateIntentA o1) (\<lambda>_. repoA (ValidateOperation F o1)))
     (\<lambda>_ w. begun_on en (op_Kind o1) (op_NativeID o1) o1 w \<and> validID (op_NativeID o1)) (orderly en)"
proof (rule triple_andThen)
  show "triple (\<lambda>w. orderly en w \<and> only_row ap_db o1 w) (validateIntentA o1)
      (\<lambda>_ w. (orderly en w \<and> only_row ap_db o1 w) \<and> op_RuntimeKind o1 = ''container'' \<and> validID (op_NativeID o1)) (orderly en)"
  proof (rule tripleI)
    fix w e w' assume "orderly en w \<and> only_row ap_db o1 w" "validateIntentA o1 w = (Inl e, w')"
    then show "orderly en w'" using keepsD [OF orderly_still [OF still_steps(11)]] by blast
  qed (use ok_validateIntentA in blast)
  note v = apple.triple_validate [of en o1 F, folded repoA_def]
  show "triple (\<lambda>w. (orderly en w \<and> only_row ap_db o1 w) \<and> op_RuntimeKind o1 = ''container'' \<and> validID (op_NativeID o1))
      (repoA (ValidateOperation F o1))
      (\<lambda>_ w. begun_on en (op_Kind o1) (op_NativeID o1) o1 w \<and> validID (op_NativeID o1)) (orderly en)"
  proof (cases "op_RuntimeKind o1 = ''container'' \<and> validID (op_NativeID o1)")
    case True
    then show ?thesis
      by (intro triple_conseq [OF v]) (auto simp: begun_on_def covering_def pendingFor_def split: option.split)
  next
    case False
    then show ?thesis by (auto simp: triple_def)
  qed
qed

lemma triple_inventory:
  "triple (\<lambda>w. begun_on en kind i o1 w \<and> V) (inventory en)
     (\<lambda>items w. (begun_on en kind i o1 w \<and> V) \<and>
        (\<forall>info. map_of items i = Some info \<and> labelOfA info = i \<longrightarrow> seen_owned en i w)) (orderly en)"
proof (rule tripleI)
  have k: "keeps (begun_on en kind i o1) (inventory en)"
    by (intro keeps_begun_on orderly_inventory tables_rules)
  { fix w e w' assume "begun_on en kind i o1 w \<and> V" "inventory en w = (Inl e, w')"
    then show "orderly en w'" using keepsD [OF k] begun_on_orderly by blast }
  fix w items w' assume "begun_on en kind i o1 w \<and> V" "inventory en w = (Inr items, w')"
  then show "(begun_on en kind i o1 w' \<and> V) \<and>
      (\<forall>info. map_of items i = Some info \<and> labelOfA info = i \<longrightarrow> seen_owned en i w')"
    using keepsD [OF k] inventory_shows by blast
qed

lemma keeps_settle_missingA: "keeps (orderly en) (settleIntentA en o1 None)"
  unfolding settleIntentA_def Let_def by (auto intro!: keeps_rules)

lemma triple_settleA:
  "triple (cleared en (op_Kind o1) (op_NativeID o1) o1) (settleIntentA en o1 (Some info)) (\<lambda>_. orderly en) (orderly en)"
    (is "triple ?P _ _ _")
proof -
  have del: "triple ?P (andThen (runA en [] [''delete'', ''--force'', op_NativeID o1]) (\<lambda>_. ret ())) (\<lambda>_. orderly en) (orderly en)"
    if "op_Kind o1 = ''create'' \<or> op_Kind o1 = ''delete''"
    by (rule triple_run_then [where v = "''delete''" and i = "op_NativeID o1"])
      (use that in \<open>auto simp: allowsA_def intro: keeps_rules\<close>)
  have stop: "triple ?P (andThen (runA en [] [''stop'', op_NativeID o1]) (\<lambda>_. ret ())) (\<lambda>_. orderly en) (orderly en)"
    if "op_Kind o1 = ''stop''"
    by (rule triple_run_then [where v = "''stop''" and i = "op_NativeID o1"])
      (use that in \<open>auto simp: allowsA_def intro: keeps_rules\<close>)
  have none: "triple ?P (ret ()) (\<lambda>_. orderly en) (orderly en)" by (intro triple_weaken keeps_rules)
  have rest: "keeps (orderly en) (modify (\<lambda>w. w\<lparr>ap_finished := remove_key i (ap_finished w)\<rparr>))" for i
    by (simp add: keeps_def prog_defs)
  consider "op_Kind o1 = ''create'' \<or> op_Kind o1 = ''delete''" | "op_Kind o1 = ''stop''"
    | "op_Kind o1 \<notin> {''create'', ''delete'', ''stop''}" by auto
  then show ?thesis
  proof cases
    case 1
    then show ?thesis
      unfolding settleIntentA_def Let_def by (simp add: triple_then [OF del [OF 1]] keeps_rules rest)
  next
    case 2
    note s = stop [OF 2, unfolded 2] and n = none [unfolded 2]
    show ?thesis
      unfolding settleIntentA_def Let_def
      by (simp add: 2 triple_then [OF s] triple_then [OF n] keeps_rules)
  next
    case 3
    then have "keeps (orderly en) (settleIntentA en o1 (Some info))"
      unfolding settleIntentA_def Let_def by (auto intro!: keeps_rules)
    then show ?thesis by (rule triple_weaken)
  qed
qed

lemma andThen_assoc: "andThen (andThen m f) g = andThen m (\<lambda>x. andThen (f x) g)"
  by (rule ext) (simp add: andThen_def split: prod.split sum.split)

lemma triple_failIf_then:
  "(\<And>s. P s \<Longrightarrow> E s) \<Longrightarrow> (\<not> b \<Longrightarrow> triple P (f ()) Q E) \<Longrightarrow> triple P (andThen (failIf b e) f) Q E"
  by (cases b) (auto simp: triple_def prog_defs)

lemma reconcileA_stages:
  "reconcileA en o1 =
     andThen (andThen (validateIntentA o1) (\<lambda>_. repoA (ValidateOperation (ae_F en) o1))) (\<lambda>_.
     andThen (inventory en) (\<lambda>items.
     andThen (failIf (case map_of items (op_NativeID o1) of None \<Rightarrow> False | Some info \<Rightarrow> labelOfA info \<noteq> op_NativeID o1)
       (Msg ''native ownership label mismatch; refusing recovery mutation'')) (\<lambda>_.
     settleIntentA en o1 (map_of items (op_NativeID o1)))))"
  by (simp add: reconcileA_def andThen_assoc Let_def)

lemma triple_reconcileA:
  "triple (\<lambda>w. orderly en w \<and> only_row ap_db o1 w) (reconcileA en o1) (\<lambda>_. orderly en) (orderly en)"
  unfolding reconcileA_stages
proof (intro triple_andThen [OF triple_validatedA] triple_andThen [OF triple_inventory])
  fix items :: "(string \<times> container_info) list"
  let ?i = "op_NativeID o1"
  let ?B = "\<lambda>w. (begun_on en (op_Kind o1) ?i o1 w \<and> validID ?i) \<and>
     (\<forall>info. map_of items ?i = Some info \<and> labelOfA info = ?i \<longrightarrow> seen_owned en ?i w)"
  show "triple ?B (andThen (failIf (case map_of items ?i of None \<Rightarrow> False | Some info \<Rightarrow> labelOfA info \<noteq> ?i) e)
      (\<lambda>_. settleIntentA en o1 (map_of items ?i))) (\<lambda>_. orderly en) (orderly en)" for e
  proof (rule triple_failIf_then)
    assume ok: "\<not> (case map_of items ?i of None \<Rightarrow> False | Some info \<Rightarrow> labelOfA info \<noteq> ?i)"
    show "triple ?B (settleIntentA en o1 (map_of items ?i)) (\<lambda>_. orderly en) (orderly en)"
    proof (cases "map_of items ?i")
      case None
      show ?thesis unfolding None
        by (intro triple_of_keeps keeps_settle_missingA) (auto dest: begun_on_orderly)
    next
      case (Some info)
      then show ?thesis using ok unfolding Some
        by (intro triple_conseq [OF triple_settleA]) (auto simp: cleared_def)
    qed
  qed (auto dest: begun_on_orderly)
qed

section \<open>Removal, jobs, expiry\<close>

lemma keeps_RemoveA [keeps_rules]: "keeps (orderly en) (RemoveA en i)"
  unfolding RemoveA_def
proof (intro orderly_first keeps_beginA triple_retrying)
  show "triple (begun_on en ''delete'' i o1) (reconcileA en o1) (\<lambda>_. orderly en) (orderly en)" for o1
    by (rule triple_conseq [OF triple_reconcileA]) (auto simp: begun_on_def covering_def intro: apple.keys_unique)
qed

lemma keeps_lockRecovery_then:
  "(\<And>x. keeps (orderly en) (f x)) \<Longrightarrow> keeps (orderly en) (andThen (lockRecovery cx) f)"
  by (intro keeps_rules)

lemma triple_only: "keeps (orderly en) m \<Longrightarrow> triple (\<lambda>w. orderly en w \<and> only_row ap_db o1 w) m (\<lambda>_. orderly en) (orderly en)"
  by (auto intro: triple_of_keeps)

lemma keeps_reconcileResourceA [keeps_rules]: "keeps (orderly en) (reconcileResourceA en i)"
  unfolding reconcileResourceA_def repoA_def
  by (rule apple.keeps_found [OF Pending_row]) (auto intro: keeps_rules triple_only triple_reconcileA)

lemma keeps_intentWorkA [keeps_rules]: "keeps (orderly en) (intentWorkA en cx o1)"
  unfolding intentWorkA_def repoA_def
  by (rule keeps_lockRecovery_then, rule apple.keeps_found [OF FindOperation_row])
    (auto intro!: keeps_rules triple_only triple_then [OF triple_reconcileA])

lemma keeps_expireLockedA [keeps_rules]: "keeps (orderly en) (stopExpiredA en i e)" "keeps (orderly en) (expireLockedA en i e)"
  unfolding stopExpiredA_def expireLockedA_def by (intro keeps_rules)+

lemma keeps_runWorkA [keeps_rules]: "keeps (orderly en) (runWorkA en cx j)"
  unfolding runWorkA_def by (cases j) (auto intro: keeps_rules)

lemma keeps_runJobA [keeps_rules]: "keeps (orderly en) (runJobA en cx key)"
  unfolding keeps_def
proof (intro allI impI)
  fix w assume w: "orderly en w"
  have "orderly en (snd (runWorkA en cx j w))" for j
    using w keeps_runWorkA by (simp add: keeps_def)
  then show "orderly en (snd (runJobA en cx key w))"
    using w by (auto simp: runJobA_def orderly_def split: option.splits prod.splits sum.splits)
      (metis snd_conv)+
qed

lemma keeps_boundaryA [keeps_rules]:
  "keeps (orderly en) (expireA en i e)" "keeps (orderly en) (DiscardCreatedA en i)"
  "keeps (orderly en) (AdoptCreationA en cx row)" "keeps (orderly en) (RenewExpirationA en i t)"
  "keeps (orderly en) (PauseA en i)" "keeps (orderly en) (ResumeA en i)"
  unfolding expireA_def DiscardCreatedA_def AdoptCreationA_def RenewExpirationA_def PauseA_def ResumeA_def Let_def
  by (intro keeps_rules)+

section \<open>Creation\<close>

lemma hexOf_hex: "c \<in> set (hexOf b) \<Longrightarrow> hexChar c"
proof -
  have "hexChar (''0123456789abcdef'' ! k)" if "k < 16" for k
  proof -
    have "\<forall>k < 16. hexChar (''0123456789abcdef'' ! k)" by code_simp
    then show ?thesis using that by blast
  qed
  then show "c \<in> set (hexOf b) \<Longrightarrow> hexChar c" by (auto simp: hexOf_def)
qed

lemma validID_random: "validID (''opensbx-'' @ concat (map (\<lambda>k. hexOf (b k)) [0..<16]))"
proof -
  let ?h = "concat (map (\<lambda>k. hexOf (b k)) [0..<16])"
  have "length ?h = 32" by (simp add: length_concat comp_def hexOf_def sum_list_triv)
  moreover have "list_all hexChar ?h" by (auto simp: list_all_iff dest: hexOf_hex)
  ultimately show ?thesis by (simp add: validID_def hasPrefix_def trimPrefix_def)
qed

lemma ok_randomID: "randomID en ''opensbx-'' w = (Inr i, w') \<Longrightarrow> validID i"
  by (auto simp: randomID_def ok_simps ok_liftE validID_random [simplified])

definition creating :: "apple_env \<Rightarrow> string \<Rightarrow> operation \<Rightarrow> apple \<Rightarrow> bool" where
  "creating en i o1 w \<longleftrightarrow> begun_on en ''create'' i o1 w \<and> validID i"

lemma creating_orderly: "creating en i o1 w \<Longrightarrow> orderly en w"
  by (simp add: creating_def begun_on_def)

lemma triple_BeginCreateA:
  "triple (orderly en) (repoA (BeginCreate F (createIntent cx i dl)))
     (\<lambda>_. begun_on en ''create'' i (createIntent cx i dl)) (orderly en)"
proof -
  have "covering (\<lambda>d. d) ''container'' ''create'' i (createIntent cx i dl) d'"
    if "BeginCreate F (createIntent cx i dl) d = (Inr x, d')" for d x d'
    using ok_BeginCreate [OF that] by (simp add: covering_def createIntent_def pendingFor_def split: option.split)
  from apple.triple_zoom [where P = "\<lambda>_. True", OF keys_wf_ops(2) this]
  show ?thesis by (simp add: repoA_def begun_on_def [abs_def] covering_def)
qed

lemma mutation_createArgs: "mutation (createArgs rq i mapped) = Some (''create'', i)"
  by (simp add: createArgs_def)

lemma keeps_creating: "keeps (orderly en) m \<Longrightarrow> keepsTables m \<Longrightarrow> keeps (creating en i o1) m"
  using keeps_begun_on unfolding keeps_def creating_def by blast

lemma creating_run:
  assumes "creating en i o1 w" "mutation args = Some (v, i)" "allowsA v ''create''"
    "v \<noteq> ''create'' \<longrightarrow> inventoryShows en (ap_calls w) i \<or> justCreated (ap_calls w) i" "runA en inp args w = (r, w')"
  shows "creating en i o1 w'"
proof -
  have "intended v i (sandboxes (ap_db w)) (operations (ap_db w))"
    unfolding intended_def
    by (rule bexI [of _ o1]) (use assms(1,3) in \<open>auto simp: creating_def begun_on_def covering_def\<close>)
  then have "orderly en w'"
    using orderly_mutation [OF _ assms(2) _ _ assms(4,5)] assms(1) by (auto simp: creating_def begun_on_def)
  then show ?thesis
    using assms(1) run_world [OF assms(5)] by (auto simp: creating_def begun_on_def covering_def)
qed

lemma keeps_createNative: "keeps (creating en i o1) (createNative en i (createArgs rq i mapped))"
  unfolding keeps_triple createNative_def
proof (rule triple_andThen)
  let ?args = "createArgs rq i mapped"
  show "triple (creating en i o1) (runA en [] ?args) (\<lambda>_ w. creating en i o1 w \<and> justCreated (ap_calls w) i) (creating en i o1)"
  proof (rule tripleI)
    fix w x w' assume w: "creating en i o1 w" "runA en [] ?args w = (Inr x, w')"
    have "creating en i o1 w'" by (rule creating_run [OF w(1) mutation_createArgs _ _ w(2)]) simp_all
    moreover have "justCreated (ap_calls w') i"
      using run_world [OF w(2)] by (auto simp: justCreated_def mutation_createArgs intro: exI [of _ x] sym)
    ultimately show "creating en i o1 w' \<and> justCreated (ap_calls w') i" by blast
  next
    fix w e w' assume w: "creating en i o1 w" "runA en [] ?args w = (Inl e, w')"
    show "creating en i o1 w'" by (rule creating_run [OF w(1) mutation_createArgs _ _ w(2)]) simp_all
  qed
  have "creating en i o1 w'"
    if "creating en i o1 w \<and> justCreated (ap_calls w) i" "runA en [] [''start'', i] w = (r, w')" for w r w'
    by (rule creating_run [OF _ _ _ _ that(2), where v = "''start''"]) (use that in auto)
  then have "triple (\<lambda>w. creating en i o1 w \<and> justCreated (ap_calls w) i) (runA en [] [''start'', i])
      (\<lambda>_. creating en i o1) (creating en i o1)" by (auto intro: tripleI)
  then show "triple (\<lambda>w. creating en i o1 w \<and> justCreated (ap_calls w) i)
      (andThen (runA en [] [''start'', i]) (\<lambda>_. ret ())) (\<lambda>_. creating en i o1) (creating en i o1)"
    by (rule triple_andThen) (rule triple_ret)
qed

lemma keeps_rollbackA: "keeps (creating en i o1) (rollbackA en i)"
  unfolding keeps_def
proof (intro allI impI)
  fix w assume c: "creating en i o1 w"
  obtain r w1 where r: "runA en [] listArgs w = (r, w1)" by fastforce
  obtain e where e: "ap_calls w1 = ap_calls w @ [e]" "ce_args e = listArgs" "r = runOutcome listArgs (ce_answer e)"
    using run_world [OF r] by blast
  have c1: "creating en i o1 w1"
    using keepsD [OF keeps_creating [OF orderly_inventory(2) keepsTables_run] c r] .
  show "creating en i o1 (snd (rollbackA en i w))"
  proof (cases "\<exists>b all info. r = Inr b \<and> ae_containers en b = Inr all \<and> find (\<lambda>x. ci_ID x = i) all = Some info \<and> labelOfA info = i")
    case True
    then obtain b all info where s: "r = Inr b" "ae_containers en b = Inr all"
        "find (\<lambda>x. ci_ID x = i) all = Some info" "labelOfA info = i" by blast
    have seen: "inventoryShows en (ap_calls w1) i"
      using s e(3) [symmetric] e(1,2) by (auto simp: inventoryShows_def showsOwned_def)
    obtain r2 w2 where r2: "runA en [] [''delete'', ''--force'', i] w1 = (r2, w2)" by fastforce
    have "creating en i o1 w2"
      by (rule creating_run [OF c1 _ _ _ r2, where v = "''delete''"]) (use seen in auto)
    moreover have "snd (rollbackA en i w) = w2"
      using r s r2 by (auto simp: rollbackA_def prog_defs liftE_def split: sum.split)
    ultimately show ?thesis by simp
  next
    case False
    then have "snd (rollbackA en i w) = w1"
      using r by (auto simp: rollbackA_def prog_defs liftE_def split: sum.split option.split)
    then show ?thesis using c1 by simp
  qed
qed

lemma triple_creating: "keeps (orderly en) m \<Longrightarrow> triple (creating en i o1) m (\<lambda>_. orderly en) (orderly en)"
  by (auto intro: triple_of_keeps dest: creating_orderly)

lemma triple_rollback_then:
  assumes "\<And>r. keeps (orderly en) (f r)"
  shows "triple (creating en i o1) (andThen (attempt (rollbackA en i)) f) (\<lambda>_. orderly en) (orderly en)"
proof (rule triple_andThen)
  show "triple (creating en i o1) (attempt (rollbackA en i)) (\<lambda>_. creating en i o1) (orderly en)"
    using keeps_attempt [OF keeps_rollbackA] by (auto simp: keeps_triple intro: triple_conseq creating_orderly)
qed (rule triple_creating [OF assms])

lemma triple_undoAttempt:
  "triple (creating en i o1) (undoAttempt en cx rq i mapped deadline o1 e) (\<lambda>_. orderly en) (orderly en)"
  unfolding undoAttempt_def by (rule triple_rollback_then) (intro keeps_rules)

lemma triple_commit_db:
  "triple (creating en i o1) (repoA (CommitCreation F o1 row await)) (\<lambda>_. orderly en) (creating en i o1)"
proof (rule tripleI)
  have k: "keeps (orderly en) (repoA (CommitCreation F o1 row await))" by (intro keeps_rules)
  { fix w x w' assume "creating en i o1 w" "repoA (CommitCreation F o1 row await) w = (Inr x, w')"
    then show "orderly en w'" using keepsD [OF k] by (auto dest: creating_orderly) }
  fix w e w' assume w: "creating en i o1 w" "repoA (CommitCreation F o1 row await) w = (Inl e, w')"
  then have "orderly en w'" using keepsD [OF k] by (auto dest: creating_orderly)
  moreover obtain d where d: "CommitCreation F o1 row await (ap_db w) = (Inl e, d)" "w' = w\<lparr>ap_db := d\<rparr>"
    using apple.zoomed [OF w(2) [unfolded repoA_def]] by blast
  moreover have "tables d = tables (ap_db w)"
    using d(1) by (auto simp: CommitCreation_def dest: transaction_atomic)
  ultimately show "creating en i o1 w'"
    using w(1) covering_tables [of w' w] by (auto simp: creating_def begun_on_def)
qed

lemma triple_commitAttempt:
  "triple (creating en i o1) (commitAttempt en cx rq i mapped deadline o1) (\<lambda>_. orderly en) (orderly en)"
  unfolding commitAttempt_def Let_def
  apply (rule triple_andThen [OF triple_attempt [OF triple_commit_db]])
  subgoal for r
    apply (cases r; simp only: sum.case)
     apply (rule triple_rollback_then, intro keeps_rules)
    apply (rule triple_of_keeps, simp add: keeps_def prog_defs, assumption)
    done
  done

lemma triple_retryUnless:
  assumes "triple P m (\<lambda>_. orderly en) (orderly en)"
  shows "triple P (retryUnless en o1 m) (\<lambda>_. orderly en) (orderly en)"
proof -
  have "orderly en w''" if "P w" "retryUnless en o1 m w = (r, w'')" for w r w''
  proof -
    obtain x w' where x: "m w = (x, w')" by fastforce
    have o: "orderly en w'" using tripleD [OF assms that(1) x] by (simp split: sum.splits)
    have "orderly en (snd (retryOperationA en o1 w'))" using o orderly_queries(3) by (simp add: keeps_def)
    then show ?thesis using that(2) x o
      by (auto simp: retryUnless_def withDefer_def split: sum.splits prod.splits bool.splits)
  qed
  then show ?thesis by (auto intro: tripleI)
qed

lemma keeps_createLoop: "keeps (orderly en) (createLoop en cx rq k e)"
proof (induction k arbitrary: e)
  case 0
  show ?case by (simp add: keeps_rules)
next
  case (Suc k)
  have body: "triple (creating en i o1)
      (andThen (attempt (createNative en i (createArgs rq i mapped))) (\<lambda>r.
        case r of
          Inl e \<Rightarrow>
            andThen (undoAttempt en cx rq i mapped deadline o1 e) (\<lambda>_.
            andThen (createLoop en cx rq k e) (\<lambda>x. ret (False, x)))
        | Inr _ \<Rightarrow>
            andThen (commitAttempt en cx rq i mapped deadline o1) (\<lambda>_.
            andThen (scheduleUntilA en i deadline) (\<lambda>_.
            ret (True, \<lparr>rs_ID = i, rs_Name = i, rs_Ports = aq_ports rq\<rparr>))))) (\<lambda>_. orderly en) (orderly en)"
    for i o1 mapped deadline
  proof (rule triple_andThen)
    show "triple (creating en i o1) (attempt (createNative en i (createArgs rq i mapped))) (\<lambda>_. creating en i o1) (orderly en)"
      by (rule triple_conseq [OF keeps_attempt [OF keeps_createNative, unfolded keeps_triple]])
        (auto dest: creating_orderly)
    fix r :: "err + unit"
    show "triple (creating en i o1) (case r of
          Inl e \<Rightarrow>
            andThen (undoAttempt en cx rq i mapped deadline o1 e) (\<lambda>_.
            andThen (createLoop en cx rq k e) (\<lambda>x. ret (False, x)))
        | Inr _ \<Rightarrow>
            andThen (commitAttempt en cx rq i mapped deadline o1) (\<lambda>_.
            andThen (scheduleUntilA en i deadline) (\<lambda>_.
            ret (True, \<lparr>rs_ID = i, rs_Name = i, rs_Ports = aq_ports rq\<rparr>)))) (\<lambda>_. orderly en) (orderly en)"
      by (cases r) (simp_all add: triple_then [OF triple_undoAttempt] triple_then [OF triple_commitAttempt] keeps_rules Suc.IH)
  qed
  have begun: "triple (\<lambda>w. orderly en w \<and> validID i) (repoA (BeginCreate F (createIntent cx i dl)))
      (\<lambda>_. creating en i (createIntent cx i dl)) (orderly en)" for F i dl
  proof (cases "validID i")
    case True
    then show ?thesis by (intro triple_conseq [OF triple_BeginCreateA]) (auto simp: creating_def)
  qed (simp add: triple_def)
  have made: "triple (orderly en) (randomID en ''opensbx-'') (\<lambda>i w. orderly en w \<and> validID i) (orderly en)"
  proof (rule tripleI)
    have k: "keeps (orderly en) (randomID en ''opensbx-'')" by (intro keeps_rules)
    { fix w e w' assume "orderly en w" "randomID en ''opensbx-'' w = (Inl e, w')"
      then show "orderly en w'" using keepsD [OF k] by blast }
    fix w i w' assume "orderly en w" "randomID en ''opensbx-'' w = (Inr i, w')"
    then show "orderly en w' \<and> validID i" using keepsD [OF k] ok_randomID by blast
  qed
  have quiet: "triple (\<lambda>w. orderly en w \<and> V) m (\<lambda>_ w. orderly en w \<and> V) (orderly en)" if "still m" for m :: "'z ap" and V
    using orderly_still [OF that, of en] by (cases V) (auto simp: keeps_triple triple_def)
  show ?case
    unfolding createLoop.simps Let_def keeps_triple
    by (rule triple_andThen [OF made], rule triple_andThen [OF quiet [OF still_loops(1)]],
        rule triple_andThen [OF quiet [OF still_basic(6)]], rule triple_andThen [OF begun],
        rule triple_then [OF triple_retryUnless [OF body]]) (intro keeps_rules)
qed

lemma keeps_CreateA [keeps_rules]: "keeps (orderly en) (CreateA en cx req)"
  unfolding CreateA_def by (intro orderly_first keeps_andThen orderly_queries keeps_createLoop orderly_leaves)

section \<open>Startup and shutdown\<close>

text \<open>Reconciliation only removes intents, so those read at startup stay the only ones under their keys.\<close>

definition recoveringA :: "apple_env \<Rightarrow> operation list \<Rightarrow> apple \<Rightarrow> bool" where
  "recoveringA en ops w \<longleftrightarrow> orderly en w \<and> (\<forall>o1 \<in> set ops. only_row ap_db o1 w)"

lemma recoveringA_Cons: "recoveringA en (o1 # ops) w \<Longrightarrow> recoveringA en ops w"
  by (simp add: recoveringA_def)

lemma under_repo [keeps_rules]: "keeps (opsWithin S) m \<Longrightarrow> keeps (opsUnder ap_db S) (repoA m)"
  unfolding repoA_def by (rule apple.under_zoom)

lemma under_still: "still m \<Longrightarrow> keeps (opsUnder ap_db S) m"
  by (rule keeps_still) (auto simp: opsUnder_def)

lemmas under_leaves [keeps_rules] =
  still_basic [THEN under_still] still_steps [THEN under_still] still_loops [THEN under_still]

lemma under_run [keeps_rules]: "keeps (opsUnder ap_db S) (runA en inp args)"
  by (simp add: keeps_def runA_def Let_def opsUnder_def)

lemma under_finished [keeps_rules]: "keeps (opsUnder ap_db S) (modify (\<lambda>w. w\<lparr>ap_finished := f w\<rparr>))"
  by (simp add: keeps_def prog_defs opsUnder_def)

lemma under_FindAll [keeps_rules]: "keeps (opsWithin S) (FindAll F b)"
  unfolding FindAll_def by (intro keeps_rules)

lemma under_reconcile [keeps_rules]:
  "keeps (opsUnder ap_db S) (reconcileA en o1)" "keeps (opsUnder ap_db S) (retryOperationA en o1)"
  unfolding reconcileA_def settleIntentA_def Let_def inventory_def retryOperationA_def by (intro keeps_rules)+

lemma keeps_shrinking:
  assumes "keeps (orderly en) m" "\<And>S. keeps (opsUnder ap_db S) m"
  shows "keeps (recoveringA en ops) m"
  unfolding keeps_def
proof (intro allI impI)
  fix w assume w: "recoveringA en ops w"
  let ?S = "set (operations (ap_db w))" and ?w = "snd (m w)"
  have "orderly en ?w" using assms(1) w by (simp add: keeps_def recoveringA_def)
  moreover have "opsUnder ap_db ?S ?w" using assms(2) [of ?S] by (simp add: keeps_def opsUnder_def)
  ultimately show "recoveringA en ops ?w"
    using w by (auto simp: recoveringA_def only_row_def opsUnder_def)
qed

lemma keeps_registerA: "keeps (recoveringA en all) (registerIntentsA en ops)"
proof (induction ops)
  case (Cons o1 ops)
  show ?case unfolding registerIntentsA.simps
    by (intro keeps_andThen Cons.IH; rule keeps_shrinking; intro keeps_rules)
qed (simp add: keeps_rules)

lemma keeps_reconcile_recoveringA:
  assumes "o1 \<in> set ops"
  shows "keeps (recoveringA en ops) (reconcileA en o1)"
  unfolding keeps_def
proof (intro allI impI)
  fix w assume w: "recoveringA en ops w"
  then have "orderly en w \<and> only_row ap_db o1 w" using assms by (simp add: recoveringA_def)
  then have o: "orderly en (snd (reconcileA en o1 w))" by (rule triple_snd [OF triple_reconcileA])
  have "opsUnder ap_db (set (operations (ap_db w))) (snd (reconcileA en o1 w))"
    using under_reconcile(1) [of "set (operations (ap_db w))" en o1] by (simp add: keeps_def opsUnder_def)
  then show "recoveringA en ops (snd (reconcileA en o1 w))"
    using o w by (auto simp: recoveringA_def only_row_def opsUnder_def)
qed

lemma keeps_warmIntentsA: "set ops \<subseteq> set all \<Longrightarrow> keeps (recoveringA en all) (warmIntentsA en warm ops)"
proof (induction ops)
  case (Cons o1 ops)
  have q: "keeps (recoveringA en all) m" if "still m" for m :: "'c ap"
    by (rule keeps_shrinking [OF orderly_still [OF that] under_still [OF that]])
  have rec: "keeps (recoveringA en all) (reconcileA en o1)"
    using Cons.prems by (intro keeps_reconcile_recoveringA) simp
  have IH: "keeps (recoveringA en all) (warmIntentsA en warm ops)" using Cons by simp
  show ?case unfolding warmIntentsA.simps
    by (intro keeps_andThen keeps_if keeps_attempt keeps_case_sum IH rec q still_basic still_steps)
qed (simp add: keeps_rules)

lemma keeps_warmOverdueA [keeps_rules]: "keeps (orderly en) (warmOverdueA en warm rows)"
proof (induction rows)
  case (Cons row rows)
  then show ?case unfolding warmOverdueA.simps by (intro keeps_rules)
qed (simp add: keeps_rules)

lemma triple_recoveringA:
  "keeps (recoveringA en ops) m \<Longrightarrow> triple (recoveringA en ops) m (\<lambda>_. recoveringA en ops) (orderly en)"
  unfolding keeps_triple by (erule triple_conseq) (auto simp: recoveringA_def)

lemma keeps_RecoverA [keeps_rules]: "keeps (orderly en) (RecoverA en cx warm)"
proof -
  have snap: "triple (orderly en) (repoA (Operations F ''container'')) (\<lambda>ops. recoveringA en ops) (orderly en)" for F
    by (rule triple_conseq [OF apple.triple_snapshot [folded repoA_def]])
      (auto simp: recoveringA_def snapshot_def only_row_def)
  have all: "keeps (recoveringA en ops) (repoA (FindAll F True))" for F ops
    by (rule keeps_shrinking; intro keeps_rules)
  have dl: "keeps (recoveringA en ops) (restoreDeadlinesA en rows)" for ops rows
    by (rule keeps_shrinking [OF orderly_still [OF still_loops(2)] under_still [OF still_loops(2)]])
  have late: "triple (recoveringA en ops) (andThen (warmOverdueA en warm rows) (\<lambda>_. andThen (ctxErrA cx)
      (\<lambda>x. case x of None \<Rightarrow> ret () | Some e \<Rightarrow> throw e))) (\<lambda>_. orderly en) (orderly en)" for ops rows
    by (rule triple_of_keeps) (intro keeps_rules, simp add: recoveringA_def)
  show ?thesis
    unfolding RecoverA_def
    by (rule keeps_lockRecovery_then, unfold keeps_triple, rule triple_andThen [OF snap],
        rule triple_andThen [OF triple_recoveringA [OF all]], rule triple_andThen [OF triple_recoveringA [OF keeps_registerA]],
        rule triple_andThen [OF triple_recoveringA [OF dl]],
        rule triple_andThen [OF triple_recoveringA [OF keeps_warmIntentsA [OF subset_refl]] late])
qed

lemma keeps_shutdownRows [keeps_rules]: "keeps (orderly en) (shutdownRows en cx rows)"
proof (induction rows)
  case (Cons row rows)
  then show ?case unfolding shutdownRows.simps shutdownRow_def by (intro keeps_rules)
qed (simp add: keeps_rules)

lemma keeps_ShutdownA [keeps_rules]: "keeps (orderly en) (ShutdownA en cx)"
  unfolding ShutdownA_def by (intro keeps_rules, simp_all)

end
