(* ===== verification/Apple_Commands.thy ===== *)
theory Apple_Commands
  imports Apple_Recovery
begin

text \<open>
  What the Apple adapter answers about its sandboxes and does inside them: inspection, listing and
  routing (\<open>src/internal/applecontainer/client.go\<close>, \<open>routing.go\<close>), file operations (\<open>files_stats.go\<close>)
  and guest commands (\<open>commands.go\<close>).

  \<open>ExecCommand\<close> holds the adapter's mutex; the goroutine that waits for the process does not, so a
  handler that looks at a command again may find it changed. \<open>gv_view\<close> says how, and only the fields
  that the goroutine writes can change. A poll ends with the fuel \<open>gv_fuel\<close> at the latest, with
  \<open>gv_blocked\<close>. \<open>encoding/json\<close> is the pair \<open>gv_marshal\<close>, \<open>gv_unmarshal\<close>.
\<close>

section \<open>Inspection, listing, routing\<close>

definition timingLocked :: "string \<Rightarrow> apple \<Rightarrow> int option \<times> string" where
  "timingLocked i w = (map_option te_expiresAt (map_of (ap_timers w) i),
     case map_of (ap_finished w) i of None \<Rightarrow> [] | Some t \<Rightarrow> t)"

definition sandboxDetail :: "apple_env \<Rightarrow> sandbox_row \<Rightarrow> container_info \<Rightarrow> int option \<times> string \<Rightarrow> err + sandbox_detail" where
  "sandboxDetail en sb info timing =
     bindE (networkPorts info) (\<lambda>ports.
     Inr \<lparr>sd_ID = sb_ID sb, sd_Name = sb_Name sb, sd_Image = sb_Image sb, sd_Status = ci_State info,
       sd_Running = (ci_State info = ''running''), sd_Ports = keysOf ports,
       sd_Memory = ci_Memory info sdiv (1024 * 1024), sd_CPUs = ci_CPUs info,
       sd_StartedAt = dateString en (ci_StartedDate info), sd_FinishedAt = snd timing,
       sd_ExpiresAt = fst timing\<rparr>)"

definition InspectA :: "apple_env \<Rightarrow> string \<Rightarrow> sandbox_detail ap" where
  "InspectA en i =
     andThen (lookupA en i) (\<lambda>info.
     andThen (owned en i) (\<lambda>sb.
     andThen (reads (timingLocked i)) (\<lambda>timing. liftE (sandboxDetail en sb info timing))))"

definition removedSummary :: "sandbox_row \<Rightarrow> sandbox_summary" where
  "removedSummary row = \<lparr>ss_ID = sb_ID row, ss_Name = sb_Name row, ss_Image = sb_Image row,
     ss_Status = ''removed'', ss_State = ''removed'', ss_Ports = keysOf (sb_Ports row), ss_ExpiresAt = None\<rparr>"

definition summaryOfA :: "apple_env \<Rightarrow> (string \<times> container_info) list \<Rightarrow> apple \<Rightarrow> sandbox_row \<Rightarrow> err + sandbox_summary" where
  "summaryOfA en items w row = (case ownedInventoryEntry items (sb_ID row) of
     Inl e \<Rightarrow> if errors_is e ErrNotFound then Inr (removedSummary row) else Inl e
   | Inr info \<Rightarrow>
       bindE (sandboxDetail en row info (timingLocked (sb_ID row) w)) (\<lambda>d.
       Inr \<lparr>ss_ID = sd_ID d, ss_Name = sd_Name d, ss_Image = sd_Image d, ss_Status = sd_Status d,
         ss_State = sd_Status d, ss_Ports = sd_Ports d, ss_ExpiresAt = sd_ExpiresAt d\<rparr>))"

fun summariesA :: "apple_env \<Rightarrow> (string \<times> container_info) list \<Rightarrow> apple \<Rightarrow> sandbox_row list \<Rightarrow> err + sandbox_summary list" where
  "summariesA en items w [] = Inr []"
| "summariesA en items w (row # rows) =
     bindE (summaryOfA en items w row) (\<lambda>s. bindE (summariesA en items w rows) (\<lambda>ss. Inr (s # ss)))"

text \<open>Only the timings are read under the mutex, after the inventory.\<close>

definition ListA :: "apple_env \<Rightarrow> sandbox_summary list ap" where
  "ListA en =
     andThen (repoA (FindAll (ae_F en) True)) (\<lambda>rows.
     if rows = [] then ret []
     else
       andThen (inventory en) (\<lambda>items.
       andThen (reads (\<lambda>w. w)) (\<lambda>w. liftE (summariesA en items w rows))))"

definition GetNetworkA :: "apple_env \<Rightarrow> string \<Rightarrow> sandbox_network ap" where
  "GetNetworkA en i =
     andThen (lookupA en i) (\<lambda>info.
     andThen (owned en i) (\<lambda>sb.
     andThen (liftE (networkPorts info)) (\<lambda>ports.
     ret \<lparr>sn_MainPort = sb_Port sb, sn_PortsMap = ports\<rparr>)))"

definition RoutingA :: "apple_env \<Rightarrow> string \<Rightarrow> routing_state ap" where
  "RoutingA en i =
     andThen (lookupA en i) (\<lambda>info.
     andThen (owned en i) (\<lambda>row.
     andThen (liftE (networkPorts info)) (\<lambda>ports.
     ret \<lparr>rt_Running = (ci_State info = ''running''),
       rt_Network = \<lparr>sn_MainPort = sb_Port row, sn_PortsMap = ports\<rparr>\<rparr>)))"

section \<open>Files\<close>

definition runningA :: "apple_env \<Rightarrow> string \<Rightarrow> unit ap" where
  "runningA en i = andThen (lookupA en i) (\<lambda>info. failIf (ci_State info \<noteq> ''running'') ErrNotRunning)"

definition fileArgs :: "string \<Rightarrow> string \<Rightarrow> string \<Rightarrow> string list" where
  "fileArgs i path script =
     [''exec'', ''--interactive'', i, ''/bin/sh'', ''-c'', guestPathPrefix @ script, ''opensbx-file'', path]"

definition fileA :: "apple_env \<Rightarrow> string \<Rightarrow> string \<Rightarrow> string \<Rightarrow> string \<Rightarrow> string ap" where
  "fileA en i path script content =
     andThen (liftE (validGuestPath path)) (\<lambda>_.
     andThen (runningA en i) (\<lambda>_. runA en content (fileArgs i path script)))"

definition ReadFileA :: "apple_env \<Rightarrow> string \<Rightarrow> string \<Rightarrow> string ap" where
  "ReadFileA en i path = fileA en i path ''exec cat \"$1\"'' []"

definition WriteFileA :: "apple_env \<Rightarrow> string \<Rightarrow> string \<Rightarrow> string \<Rightarrow> unit ap" where
  "WriteFileA en i path content =
     andThen (failIf (length content > outputLimit) (Msg ''file content exceeds 4 MiB'')) (\<lambda>_.
     andThen (fileA en i path ''mkdir -p \"$(dirname \"$1\")\" && cat > \"$1\"'' content) (\<lambda>_. ret ()))"

definition DeleteFileA :: "apple_env \<Rightarrow> string \<Rightarrow> string \<Rightarrow> unit ap" where
  "DeleteFileA en i path = andThen (fileA en i path ''exec rm -rf -- \"$1\"'' []) (\<lambda>_. ret ())"

definition ListDirA :: "apple_env \<Rightarrow> string \<Rightarrow> string \<Rightarrow> string ap" where
  "ListDirA en i path = fileA en i path ''exec ls -la \"$1\"'' []"

section \<open>The guest scripts\<close>

definition commandWrapper :: string where
  \<open>commandWrapper = joinLines [
     [],
     ''umask 077'',
     ''dir=$1; token=$2; shift 2'',
     ''mkdir "$dir" || exit 125'',
     ''IFS= read -r stat < "/proc/$$/stat" || exit 125'',
     ''rest=${stat##*) }'',
     ''start=$(set -- $rest; shift 19; printf '' @ [CHR 0x27] @ ''%s'' @ [CHR 0x27] @ '' "$1")'',
     ''case "$start" in '' @ [CHR 0x27] @ [CHR 0x27] @ ''|*[!0-9]*) exit 125;; esac'',
     ''printf '' @ [CHR 0x27] @ ''%s %s %s'' @ [CHR 0x5C] @ ''n'' @ [CHR 0x27] @
       '' "$token" "$$" "$start" > "$dir/identity.tmp" || exit 125'',
     ''mv "$dir/identity.tmp" "$dir/identity" || exit 125'',
     ''IFS= read -r gate || exit 125'',
     ''[ "$gate" = "$token" ] || exit 125'',
     ''exec "$@"'',
     []]\<close>

definition signalWrapper :: string where
  \<open>signalWrapper = joinLines [
     [],
     ''pid=$1; expected=$2; signal=$3'',
     ''case "$pid:$expected:$signal" in *[!0-9:]*) exit 125;; esac'',
     ''[ "$pid" -gt 1 ] || exit 125'',
     ''IFS= read -r stat < "/proc/$pid/stat" || exit 124'',
     ''rest=${stat##*) }'',
     ''actual=$(set -- $rest; shift 19; printf '' @ [CHR 0x27] @ ''%s'' @ [CHR 0x27] @ '' "$1")'',
     ''[ "$actual" = "$expected" ] || exit 124'',
     ''kill -"$signal" "$pid"'',
     []]\<close>

section \<open>Guest commands\<close>

record guest_env =
  gv_en :: apple_env
  gv_marshal :: "string list \<Rightarrow> string"
  gv_unmarshal :: "string \<Rightarrow> string list"
  gv_pipe :: "nat \<Rightarrow> bool"
  gv_start :: "cli_event list \<Rightarrow> string list \<Rightarrow> err option"
  gv_gate :: "nat \<Rightarrow> err option"
  gv_expired :: "nat \<Rightarrow> bool"
  gv_select :: "nat \<Rightarrow> nat"
  gv_view :: "nat \<Rightarrow> apple_command \<Rightarrow> apple_command"
  gv_fuel :: nat
  gv_blocked :: err

definition commandLogLimit :: nat where
  "commandLogLimit = 256 * 2 ^ 10"

definition maxTrackedCommands :: nat where
  "maxTrackedCommands = 128"

definition snapshotA :: "apple_command \<Rightarrow> command_detail ap" where
  "snapshotA r = (case ac_persistErr r of None \<Rightarrow> ret (ac_detail r) | Some e \<Rightarrow> throw e)"

definition commandDetailA :: "guest_env \<Rightarrow> command_row \<Rightarrow> command_detail" where
  "commandDetailA gv row = \<lparr>cd_ID = cmd_ID row, cd_Name = cmd_Name row, cd_Args = gv_unmarshal gv (cmd_Args row),
     cd_Cwd = cmd_Cwd row, cd_SandboxID = cmd_SandboxID row, cd_ExitCode = cmd_ExitCode row,
     cd_StartedAt = cmd_StartedAt row, cd_FinishedAt = cmd_FinishedAt row\<rparr>"

definition commandRow :: "guest_env \<Rightarrow> string \<Rightarrow> string \<Rightarrow> command_row ap" where
  "commandRow gv i cmdID =
     andThen (owned (gv_en gv) i) (\<lambda>_.
     andThen (repoA (FindCommandByID (ae_F (gv_en gv)) True cmdID)) (\<lambda>row.
     case row of
       None \<Rightarrow> throw ErrCommandNotFound
     | Some r \<Rightarrow> if cmd_SandboxID r \<noteq> i then throw ErrCommandNotFound else ret r))"

text \<open>The completed command that started first, in the order in which the map is ranged over.\<close>

definition oldestDone :: "(string \<times> apple_command) list \<Rightarrow> (string \<times> int) option" where
  "oldestDone cmds = foldl (\<lambda>oldest (k, r).
     if ac_done r \<and> (case oldest of None \<Rightarrow> True | Some (_, t0) \<Rightarrow> cd_StartedAt (ac_detail r) < t0)
     then Some (k, cd_StartedAt (ac_detail r)) else oldest) None cmds"

definition evictCommand :: "unit ap" where
  "evictCommand =
     andThen (reads ap_commands) (\<lambda>cmds.
     if length cmds \<ge> maxTrackedCommands then
       (case oldestDone cmds of
          None \<Rightarrow> throw (Msg ''too many active commands (maximum 128)'')
        | Some (k, t0) \<Rightarrow> modify (\<lambda>w. w\<lparr>ap_commands := remove_key k (ap_commands w)\<rparr>))
     else ret ())"

definition commandDir :: "string \<Rightarrow> string" where
  "commandDir cmdID = ''/tmp/opensbx-'' @ cmdID"

definition execArgs :: "string \<Rightarrow> exec_request \<Rightarrow> string \<Rightarrow> string list" where
  "execArgs i req cmdID =
     [''exec'', ''--interactive''] @ (if eq_Cwd req \<noteq> [] then [''--workdir='' @ eq_Cwd req] else []) @
     concat (map (\<lambda>e. [''--env'', e]) (envSlice (eq_Env req))) @
     [i, ''/bin/sh'', ''-c'', commandWrapper, ''opensbx-command'', commandDir cmdID, cmdID, eq_Command req] @
     eq_Args req"

definition newCommandA :: "guest_env \<Rightarrow> string \<Rightarrow> command_row \<Rightarrow> apple_command" where
  "newCommandA gv i row = \<lparr>ac_sandboxID = i, ac_stdout = newBounded commandLogLimit True,
     ac_stderr = newBounded commandLogLimit True, ac_done = False, ac_killed = False,
     ac_detail = commandDetailA gv row, ac_pid = [], ac_start = [], ac_persistErr = None\<rparr>"

text \<open>\<open>Runner.Start\<close>: the call is recorded like the others; its outputs go to the command's buffers.\<close>

definition startProcess :: "guest_env \<Rightarrow> string list \<Rightarrow> unit ap" where
  "startProcess gv args = (\<lambda>w. let e = gv_start gv (ap_calls w) args in
     (case e of Some x \<Rightarrow> Inl x | None \<Rightarrow> Inr (),
      w\<lparr>ap_calls := ap_calls w @ [\<lparr>ce_args = args, ce_answer = \<lparr>ca_stdout = [], ca_stderr = [], ca_err = e\<rparr>,
        ce_rows = sandboxes (ap_db w), ce_ops = operations (ap_db w)\<rparr>]\<rparr>))"

text \<open>A second look at a command: the fields that its goroutine writes may have changed.\<close>

definition observed :: "apple_command \<Rightarrow> apple_command \<Rightarrow> apple_command" where
  "observed r r' = r\<lparr>ac_stdout := ac_stdout r', ac_stderr := ac_stderr r', ac_done := ac_done r \<or> ac_done r',
     ac_detail := (ac_detail r)\<lparr>cd_ExitCode := cd_ExitCode (ac_detail r'), cd_FinishedAt := cd_FinishedAt (ac_detail r')\<rparr>,
     ac_persistErr := ac_persistErr r'\<rparr>"

definition lookAgain :: "guest_env \<Rightarrow> string \<Rightarrow> apple_command ap" where
  "lookAgain gv cmdID =
     andThen (atTickA (gv_view gv)) (\<lambda>view.
     andThen (reads (\<lambda>w. map_of (ap_commands w) cmdID)) (\<lambda>found.
     case found of
       None \<Rightarrow> throw nilPanic
     | Some r \<Rightarrow>
         andThen (modify (\<lambda>w. w\<lparr>ap_commands := store cmdID (observed r (view r)) (ap_commands w)\<rparr>)) (\<lambda>_.
         ret (observed r (view r)))))"

definition onCommandA :: "string \<Rightarrow> (apple_command \<Rightarrow> apple_command) \<Rightarrow> unit ap" where
  "onCommandA cmdID f = modify (\<lambda>w. case map_of (ap_commands w) cmdID of
     None \<Rightarrow> w | Some r \<Rightarrow> w\<lparr>ap_commands := store cmdID (f r) (ap_commands w)\<rparr>)"

text \<open>\<open>strings.Fields\<close> over ASCII white space.\<close>

definition isBlank :: "char \<Rightarrow> bool" where
  "isBlank c \<longleftrightarrow> c \<in> set [CHR '' '', CHR 0x09, CHR 0x0A, CHR 0x0B, CHR 0x0C, CHR 0x0D]"

fun fieldsFrom :: "string \<Rightarrow> string \<Rightarrow> string list" where
  "fieldsFrom [] cur = (if cur = [] then [] else [rev cur])"
| "fieldsFrom (c # cs) cur =
     (if isBlank c then (if cur = [] then fieldsFrom cs [] else rev cur # fieldsFrom cs [])
      else fieldsFrom cs (c # cur))"

definition Fields :: "string \<Rightarrow> string list" where
  "Fields s = fieldsFrom s []"

definition guestIdentity :: "string \<Rightarrow> string \<Rightarrow> err + string \<times> string" where
  "guestIdentity cmdID b =
     (let fields = Fields b in
      if length fields \<noteq> 3 \<or> fields ! 0 \<noteq> cmdID then Inl (Msg ''invalid guest command identity'')
      else case (ParseUint 32 (fields ! 1), ParseUint 64 (fields ! 2)) of
        (Some pid, Some start) \<Rightarrow>
          if pid \<le> 1 \<or> start = 0 then Inl (Msg ''invalid guest PID identity'')
          else Inr (fields ! 1, fields ! 2)
      | _ \<Rightarrow> Inl (Msg ''invalid guest PID identity''))"

definition releaseGuest :: "guest_env \<Rightarrow> string \<Rightarrow> string \<Rightarrow> command_detail ap" where
  "releaseGuest gv cmdID b =
     andThen (liftE (guestIdentity cmdID b)) (\<lambda>(pid, start).
     andThen (onCommandA cmdID (\<lambda>r. r\<lparr>ac_pid := pid, ac_start := start\<rparr>)) (\<lambda>_.
     andThen (atTickA (gv_gate gv)) (\<lambda>e.
     andThen (failIf (e \<noteq> None) (Msg ''guest command handshake failed'')) (\<lambda>_.
     andThen (lookAgain gv cmdID) snapshotA))))"

definition identityArgs :: "string \<Rightarrow> string \<Rightarrow> string list" where
  "identityArgs i cmdID =
     [''exec'', i, ''/bin/sh'', ''-c'', ''cat \"$1/identity\"'', ''opensbx-identity'', commandDir cmdID]"

text \<open>
  The handshake polls for the identity file. \<open>select\<close> takes any channel that is ready; the 25 ms timer
  always becomes ready, so a further round is always possible.
\<close>

fun handshake :: "guest_env \<Rightarrow> nat \<Rightarrow> string \<Rightarrow> string \<Rightarrow> command_detail ap" where
  "handshake gv 0 i cmdID = throw (gv_blocked gv)"
| "handshake gv (Suc k) i cmdID =
     andThen (attempt (runA (gv_en gv) [] (identityArgs i cmdID))) (\<lambda>b.
     case b of
       Inr out \<Rightarrow> releaseGuest gv cmdID out
     | Inl _ \<Rightarrow>
         andThen (lookAgain gv cmdID) (\<lambda>r.
         andThen (atTickA (\<lambda>n. (gv_select gv n, gv_expired gv n))) (\<lambda>(ch, expired).
         if ch = 0 \<and> ac_done r then snapshotA r
         else if ch = 1 \<and> expired then
           andThen (onCommandA cmdID (\<lambda>r. r\<lparr>ac_killed := True\<rparr>)) (\<lambda>_.
           throw (Msg ''guest command handshake timed out; payload was not released''))
         else handshake gv k i cmdID)))"

text \<open>A command that could not be started is recorded as finished.\<close>

definition abandonCommand :: "guest_env \<Rightarrow> string \<Rightarrow> err \<Rightarrow> command_detail ap" where
  "abandonCommand gv cmdID e =
     andThen (nowA (gv_en gv)) (\<lambda>t.
     andThen (attempt (repoA (UpdateCommandFinished (ae_F (gv_en gv)) cmdID 125 (unixMilli t)))) (\<lambda>_. throw e))"

definition launchCommand :: "guest_env \<Rightarrow> string \<Rightarrow> exec_request \<Rightarrow> string \<Rightarrow> command_row \<Rightarrow> command_detail ap" where
  "launchCommand gv i req cmdID row =
     andThen (atTickA (gv_pipe gv)) (\<lambda>failed.
     if failed then abandonCommand gv cmdID (Msg ''cannot create command input pipe'')
     else
       andThen (attempt (startProcess gv (execArgs i req cmdID))) (\<lambda>started.
       case started of
         Inl e \<Rightarrow> abandonCommand gv cmdID (safeError e)
       | Inr _ \<Rightarrow>
           andThen (modify (\<lambda>w. w\<lparr>ap_commands := store cmdID (newCommandA gv i row) (ap_commands w)\<rparr>)) (\<lambda>_.
           handshake gv (gv_fuel gv) i cmdID)))"

definition ExecCommandA :: "guest_env \<Rightarrow> string \<Rightarrow> exec_request \<Rightarrow> command_detail ap" where
  "ExecCommandA gv i req = (let en = gv_en gv in
     andThen (liftE (validateCommandInput req)) (\<lambda>_.
     andThen notClosing (\<lambda>_.
     andThen (repoA (RequireIdle (ae_F en) ''container'' i)) (\<lambda>_.
     andThen (runningA en i) (\<lambda>_.
     andThen evictCommand (\<lambda>_.
     andThen (randomID en ''cmd_'') (\<lambda>cmdID.
     andThen (nowA en) (\<lambda>t.
     let row = \<lparr>cmd_ID = cmdID, cmd_SandboxID = i, cmd_Name = eq_Command req,
           cmd_Args = gv_marshal gv (eq_Args req), cmd_Cwd = eq_Cwd req, cmd_ExitCode = None,
           cmd_StartedAt = unixMilli t, cmd_FinishedAt = None\<rparr> in
     andThen (repoA (SaveCommand (ae_F en) True row)) (\<lambda>_.
     launchCommand gv i req cmdID row)))))))))"

section \<open>The goroutine of a command\<close>

datatype process_event = Wrote bool string | Exited "err option"

definition exitStatus :: "err option \<Rightarrow> int" where
  "exitStatus e = (case e of None \<Rightarrow> 0 | Some x \<Rightarrow> (case exitCode x of Some n \<Rightarrow> n | None \<Rightarrow> 125))"

definition cleanupScript :: string where
  "cleanupScript = ''rm -f \"$1/identity\" \"$1/identity.tmp\"; rmdir \"$1\"''"

definition commandExited :: "guest_env \<Rightarrow> string \<Rightarrow> string \<Rightarrow> err option \<Rightarrow> unit ap" where
  "commandExited gv i cmdID e = (let en = gv_en gv in
     andThen (nowA en) (\<lambda>t.
     andThen (attempt (repoA (UpdateCommandFinished (ae_F en) cmdID (exitStatus e) (unixMilli t)))) (\<lambda>s.
     andThen (onCommandA cmdID (\<lambda>r. r\<lparr>ac_done := True,
         ac_detail := (ac_detail r)\<lparr>cd_ExitCode := Some (exitStatus e), cd_FinishedAt := Some (unixMilli t)\<rparr>,
         ac_persistErr := (case s of Inl x \<Rightarrow> Some x | Inr _ \<Rightarrow> None)\<rparr>)) (\<lambda>_.
     andThen (attempt (lookupA en i)) (\<lambda>l.
     case l of
       Inl _ \<Rightarrow> ret ()
     | Inr _ \<Rightarrow>
         andThen (attempt (runA en [] [''exec'', i, ''/bin/sh'', ''-c'', cleanupScript, ''opensbx-cleanup'', commandDir cmdID]))
           (\<lambda>_. ret ()))))))"

fun processStep :: "guest_env \<Rightarrow> string \<Rightarrow> string \<Rightarrow> process_event \<Rightarrow> unit ap" where
  "processStep gv i cmdID (Wrote isErr p) = onCommandA cmdID (\<lambda>r.
     if isErr then r\<lparr>ac_stderr := bb_write (ac_stderr r) p\<rparr> else r\<lparr>ac_stdout := bb_write (ac_stdout r) p\<rparr>)"
| "processStep gv i cmdID (Exited e) = commandExited gv i cmdID e"

section \<open>Commands by their identifier\<close>

definition GetCommandA :: "guest_env \<Rightarrow> string \<Rightarrow> string \<Rightarrow> command_detail ap" where
  "GetCommandA gv i cmdID =
     andThen (commandRow gv i cmdID) (\<lambda>row.
     andThen (reads (\<lambda>w. map_of (ap_commands w) cmdID)) (\<lambda>found.
     case found of Some r \<Rightarrow> snapshotA r | None \<Rightarrow> ret (commandDetailA gv row)))"

definition ListCommandsA :: "guest_env \<Rightarrow> string \<Rightarrow> command_detail list ap" where
  "ListCommandsA gv i =
     andThen (owned (gv_en gv) i) (\<lambda>_.
     andThen (repoA (FindCommandsBySandbox (ae_F (gv_en gv)) True i)) (\<lambda>rows.
     ret (map (commandDetailA gv) rows)))"

definition signalArgs :: "string \<Rightarrow> apple_command \<Rightarrow> int \<Rightarrow> string list" where
  "signalArgs i r signal =
     [''exec'', i, ''/bin/sh'', ''-c'', signalWrapper, ''opensbx-signal'', ac_pid r, ac_start r, Itoa (nat signal)]"

definition KillCommandA :: "guest_env \<Rightarrow> string \<Rightarrow> string \<Rightarrow> int \<Rightarrow> command_detail ap" where
  "KillCommandA gv i cmdID signal =
     andThen (commandRow gv i cmdID) (\<lambda>row.
     andThen (failIf (cmd_ExitCode row \<noteq> None) ErrCommandFinished) (\<lambda>_.
     andThen (failIf (signal < 1 \<or> signal > 64) (Msg ''invalid Linux signal: must be between 1 and 64'')) (\<lambda>_.
     andThen (reads (\<lambda>w. map_of (ap_commands w) cmdID)) (\<lambda>found.
     case found of
       None \<Rightarrow> throw (Msg ''command is not tracked by this server instance'')
     | Some r0 \<Rightarrow>
         andThen (lookAgain gv cmdID) (\<lambda>r.
         andThen (failIf (ac_done r) ErrCommandFinished) (\<lambda>_.
         andThen (failIf (ac_pid r = [] \<or> ac_start r = []) (Msg ''guest command identity is not ready'')) (\<lambda>_.
         andThen (runningA (gv_en gv) i) (\<lambda>_.
         andThen (mapErr (Wrap ''guest command signal was not confirmed'') (runA (gv_en gv) [] (signalArgs i r signal))) (\<lambda>_.
         andThen (lookAgain gv cmdID) snapshotA))))))))) "

definition notRetained :: err where
  "notRetained = Msg ''command logs/lifecycle are no longer retained in this server instance''"

definition tracked :: "guest_env \<Rightarrow> string \<Rightarrow> string \<Rightarrow> apple_command ap" where
  "tracked gv i cmdID =
     andThen (commandRow gv i cmdID) (\<lambda>_.
     andThen (reads (\<lambda>w. map_of (ap_commands w) cmdID)) (\<lambda>found.
     case found of None \<Rightarrow> throw notRetained | Some r \<Rightarrow> ret r))"

text \<open>The waiting handler holds no mutex and keeps the command, which may meanwhile be forgotten.\<close>

fun awaitDone :: "guest_env \<Rightarrow> nat \<Rightarrow> ctx \<Rightarrow> apple_command \<Rightarrow> command_detail ap" where
  "awaitDone gv 0 cx r = throw (gv_blocked gv)"
| "awaitDone gv (Suc k) cx r =
     andThen (atTickA (\<lambda>n. (gv_view gv n, gv_select gv n))) (\<lambda>(view, ch).
     andThen (ctxErrA cx) (\<lambda>e.
     let r' = observed r (view r) in
     case e of
       Some x \<Rightarrow> if ac_done r' \<and> ch = 0 then snapshotA r' else throw x
     | None \<Rightarrow> if ac_done r' then snapshotA r' else awaitDone gv k cx r'))"

definition WaitCommandA :: "guest_env \<Rightarrow> ctx \<Rightarrow> string \<Rightarrow> string \<Rightarrow> command_detail ap" where
  "WaitCommandA gv cx i cmdID =
     andThen (attempt (tracked gv i cmdID)) (\<lambda>t.
     case t of
       Inr r \<Rightarrow> awaitDone gv (gv_fuel gv) cx r
     | Inl e \<Rightarrow>
         andThen (attempt (GetCommandA gv i cmdID)) (\<lambda>g.
         case g of
           Inr d \<Rightarrow> if cd_ExitCode d \<noteq> None then ret d else throw e
         | Inl _ \<Rightarrow> throw e))"

definition GetCommandLogsA :: "guest_env \<Rightarrow> string \<Rightarrow> string \<Rightarrow> logs_response ap" where
  "GetCommandLogsA gv i cmdID =
     andThen (tracked gv i cmdID) (\<lambda>r.
     andThen (snapshotA r) (\<lambda>d.
     ret \<lparr>lg_Stdout = fst (bb_snapshot (ac_stdout r)), lg_Stderr = fst (bb_snapshot (ac_stderr r)),
       lg_ExitCode = cd_ExitCode d\<rparr>))"

text \<open>A log reader starts at the beginning of its buffer.\<close>

definition StreamCommandLogsA :: "guest_env \<Rightarrow> string \<Rightarrow> string \<Rightarrow> (ring_reader \<times> ring_reader) ap" where
  "StreamCommandLogsA gv i cmdID = andThen (tracked gv i cmdID) (\<lambda>_. ret (newReader, newReader))"

end
