(* ===== verification/Apple_Props.thy ===== *)
theory Apple_Props
  imports Apple_Audit Apple_Commands
begin

text \<open>
  Every run of the Apple adapter: its requests, its runs as an inductive predicate, and what holds of
  the calls that it makes of the command line. Queries, file operations and guest commands only
  execute, list or copy; they keep the discipline of \<open>Apple_Audit\<close>.
\<close>

section \<open>Queries, files and commands\<close>

lemma orderly_harmless:
  "keeps (orderly en) (runA en' inp [''exec'', a, b, c, d, e, f])"
  "keeps (orderly en) (runA en' inp [''exec'', a, b, c, d, e, f, g])"
  "keeps (orderly en) (runA en' inp [''exec'', a, b, c, d, e, f, g, h])"
  by (auto simp: keeps_def runA_def Let_def orderly_def cli_log_ok_snoc cli_ok_def)

lemma orderly_guest [keeps_rules]:
  "keeps (orderly en) (runA en inp (fileArgs i path script))" "keeps (orderly en) (runA en inp (identityArgs i c))"
  "keeps (orderly en) (runA en inp (signalArgs i r s))"
  "keeps (orderly en) (runA en inp [''exec'', i, ''/bin/sh'', ''-c'', cleanupScript, ''opensbx-cleanup'', d])"
  unfolding fileArgs_def identityArgs_def signalArgs_def by (rule orderly_harmless)+

lemma orderly_startProcess [keeps_rules]: "keeps (orderly en) (startProcess gv (execArgs i req c))"
  by (auto simp: keeps_def startProcess_def Let_def orderly_def cli_log_ok_snoc cli_ok_def execArgs_def)

lemma orderly_commands [simp]: "orderly en (w\<lparr>ap_commands := c\<rparr>) = orderly en w"
  by (simp add: orderly_def)

lemma orderly_tracking [keeps_rules]:
  "keeps (orderly en) (onCommandA c f)" "keeps (orderly en) (lookAgain gv c)" "keeps (orderly en) (snapshotA r)"
  "keeps (orderly en) evictCommand" "keeps (orderly en) (modify (\<lambda>w. w\<lparr>ap_commands := g w\<rparr>))"
proof -
  show "keeps (orderly en) (onCommandA c f)"
    by (auto simp: keeps_def onCommandA_def prog_defs split: option.split)
  show "keeps (orderly en) (snapshotA r)" unfolding snapshotA_def by (intro keeps_rules)
  show m: "keeps (orderly en) (modify (\<lambda>w. w\<lparr>ap_commands := g w\<rparr>))" for g
    by (simp add: keeps_def prog_defs)
  show "keeps (orderly en) (lookAgain gv c)" "keeps (orderly en) evictCommand"
    unfolding lookAgain_def evictCommand_def by (intro keeps_rules m)+
qed

lemma keys_wf_commands [keeps_rules]:
  "keeps keys_wf (FindCommandByID F b i)" "keeps keys_wf (FindCommandsBySandbox F b i)"
proof -
  have view: "keeps keys_wf (commandView F b cmd)" for cmd
    unfolding commandView_def by (intro keeps_rules)
  have views: "keeps keys_wf (commandViews F b cmds)" for cmds
    by (induction cmds) (auto intro!: keeps_rules view)
  show "keeps keys_wf (FindCommandByID F b i)" "keeps keys_wf (FindCommandsBySandbox F b i)"
    unfolding FindCommandByID_def FindCommandsBySandbox_def by (intro keeps_rules view views)+
qed

lemma keeps_inspections [keeps_rules]:
  "keeps (orderly en) (InspectA en i)" "keeps (orderly en) (ListA en)" "keeps (orderly en) (GetNetworkA en i)"
  "keeps (orderly en) (RoutingA en i)" "keeps (orderly en) (runningA en i)" "keeps (orderly en) (PingA en)"
  unfolding InspectA_def ListA_def GetNetworkA_def RoutingA_def runningA_def PingA_def
  by (intro keeps_rules orderly_run; simp)+

lemma keeps_fileA [keeps_rules]: "keeps (orderly en) (fileA en i path script content)"
  unfolding fileA_def by (intro keeps_rules)

lemma keeps_files [keeps_rules]:
  "keeps (orderly en) (ReadFileA en i path)" "keeps (orderly en) (WriteFileA en i path content)"
  "keeps (orderly en) (DeleteFileA en i path)" "keeps (orderly en) (ListDirA en i path)"
  unfolding ReadFileA_def WriteFileA_def DeleteFileA_def ListDirA_def by (intro keeps_rules)+

lemma keeps_handshake [keeps_rules]: "keeps (orderly (gv_en gv)) (handshake gv k i c)"
proof (induction k)
  case (Suc k)
  then show ?case unfolding handshake.simps releaseGuest_def by (intro keeps_rules)
qed (simp add: keeps_rules)

lemma keeps_ExecCommandA [keeps_rules]: "keeps (orderly (gv_en gv)) (ExecCommandA gv i req)"
  unfolding ExecCommandA_def launchCommand_def abandonCommand_def Let_def by (intro keeps_rules)

lemma keeps_processStep [keeps_rules]: "keeps (orderly (gv_en gv)) (processStep gv i c e)"
  by (cases e) (auto simp: commandExited_def Let_def intro!: keeps_rules)

lemma keeps_KillCommandA [keeps_rules]: "keeps (orderly (gv_en gv)) (KillCommandA gv i c s)"
  unfolding KillCommandA_def commandRow_def by (intro keeps_rules)

section \<open>Every run of the adapter\<close>

datatype apple_request =
    ACreate ctx create_request | AStart string | AStop string | ARestart string | ARemove string
  | APause string | AResume string | ARenew string int | AAdopt ctx sandbox_row | ADiscard string
  | AFailed string | ARecover ctx ctx | AExpire string timerEntry | ARetry ctx string | AShutdown ctx
  | APing | AInspect string | AList | ANetwork string | ARouting string
  | AReadFile string string | AWriteFile string string string | ADeleteFile string string | AListDir string string
  | AExec string exec_request | AProcess string string process_event | AKill string string int

fun handleA :: "guest_env \<Rightarrow> apple_request \<Rightarrow> apple \<Rightarrow> apple" where
  "handleA gv (ACreate cx req) w = snd (CreateA (gv_en gv) cx req w)"
| "handleA gv (AStart i) w = snd (StartA (gv_en gv) i w)"
| "handleA gv (AStop i) w = snd (StopA (gv_en gv) i w)"
| "handleA gv (ARestart i) w = snd (RestartA (gv_en gv) i w)"
| "handleA gv (ARemove i) w = snd (RemoveA (gv_en gv) i w)"
| "handleA gv (APause i) w = snd (PauseA (gv_en gv) i w)"
| "handleA gv (AResume i) w = snd (ResumeA (gv_en gv) i w)"
| "handleA gv (ARenew i t) w = snd (RenewExpirationA (gv_en gv) i t w)"
| "handleA gv (AAdopt cx row) w = snd (AdoptCreationA (gv_en gv) cx row w)"
| "handleA gv (ADiscard i) w = snd (DiscardCreatedA (gv_en gv) i w)"
| "handleA gv (AFailed i) w = snd (CreationFailedA i w)"
| "handleA gv (ARecover cx warm) w = snd (RecoverA (gv_en gv) cx warm w)"
| "handleA gv (AExpire i e) w = snd (expireA (gv_en gv) i e w)"
| "handleA gv (ARetry cx key) w = snd (runJobA (gv_en gv) cx key w)"
| "handleA gv (AShutdown cx) w = snd (ShutdownA (gv_en gv) cx w)"
| "handleA gv APing w = snd (PingA (gv_en gv) w)"
| "handleA gv (AInspect i) w = snd (InspectA (gv_en gv) i w)"
| "handleA gv AList w = snd (ListA (gv_en gv) w)"
| "handleA gv (ANetwork i) w = snd (GetNetworkA (gv_en gv) i w)"
| "handleA gv (ARouting i) w = snd (RoutingA (gv_en gv) i w)"
| "handleA gv (AReadFile i path) w = snd (ReadFileA (gv_en gv) i path w)"
| "handleA gv (AWriteFile i path content) w = snd (WriteFileA (gv_en gv) i path content w)"
| "handleA gv (ADeleteFile i path) w = snd (DeleteFileA (gv_en gv) i path w)"
| "handleA gv (AListDir i path) w = snd (ListDirA (gv_en gv) i path w)"
| "handleA gv (AExec i req) w = snd (ExecCommandA gv i req w)"
| "handleA gv (AProcess i c e) w = snd (processStep gv i c e w)"
| "handleA gv (AKill i c s) w = snd (KillCommandA gv i c s w)"

inductive reachableA :: "guest_env \<Rightarrow> apple \<Rightarrow> bool" for gv where
  bootA: "ap_calls w = [] \<Longrightarrow> keys_wf (ap_db w) \<Longrightarrow> reachableA gv w"
| stepA: "reachableA gv w \<Longrightarrow> reachableA gv (handleA gv r w)"

lemma keeps_StopA [keeps_rules]: "keeps (orderly en) (StopA en i)"
  unfolding StopA_def by (intro keeps_rules)

lemma keeps_CreationFailedA: "keeps (orderly en) (CreationFailedA i)"
  by (intro keeps_rules)

lemma handleA_orderly: "orderly (gv_en gv) w \<Longrightarrow> orderly (gv_en gv) (handleA gv r w)"
  by (cases r) (auto intro: keeps_rules [unfolded keeps_def, rule_format] keeps_CreationFailedA [unfolded keeps_def, rule_format])

text \<open>
  C34: In every run of the Apple adapter, whatever the command line answers and whichever statements
  fail, a call that creates, starts, stops or deletes a container names an identifier of the adapter's
  own form, is made while a durable intent that allows it is stored for that container, and, except for
  the creation itself, is made after the latest inventory showed the container with its own ownership
  label, or right after the adapter created it. Listing, file operations and guest commands make no
  such call.
\<close>

theorem cli_mutations_are_write_ahead:
  assumes "reachableA gv w" "k < length (ap_calls w)" "mutation (ce_args (ap_calls w ! k)) = Some (v, i)"
  shows "validID i \<and> intended v i (ce_rows (ap_calls w ! k)) (ce_ops (ap_calls w ! k)) \<and>
    (v \<noteq> ''create'' \<longrightarrow>
       inventoryShows (gv_en gv) (take k (ap_calls w)) i \<or> justCreated (take k (ap_calls w)) i)"
proof -
  from assms(1) have "orderly (gv_en gv) w"
  proof induction
    case (bootA w)
    then show ?case by (simp add: orderly_def cli_log_ok_def)
  next
    case (stepA w r)
    show ?case by (rule handleA_orderly [OF stepA.IH])
  qed
  then have "cli_ok (gv_en gv) (take k (ap_calls w)) (ap_calls w ! k)"
    using assms(2) by (simp add: orderly_def cli_log_ok_def)
  then show ?thesis using assms(3) by (simp add: cli_ok_def)
qed

definition sampleID :: string where
  "sampleID = ''opensbx-0123456789abcdef0123456789abcdef''"

definition sample_apple :: apple where
  "sample_apple = \<lparr>ap_db = \<lparr>sandboxes = [sample_row\<lparr>sb_NativeID := Some sampleID, sb_RuntimeKind := ''container''\<rparr>],
       operations = [], commands = [], stmts = 0\<rparr>,
     ap_calls = [], ap_tick = 0, ap_closing = False, ap_timers = [], ap_serial = 0, ap_finished = [],
     ap_commands = [], ap_createAttempts = [], ap_jobs = [], ap_queueClosed = False, ap_invalidated = []\<rparr>"

definition sample_info :: container_info where
  "sample_info = \<lparr>ci_ID = sampleID, ci_Labels = [(ownerLabelA, sampleID)], ci_CPUs = 1, ci_Memory = 1024,
     ci_Ports = [], ci_State = ''running'', ci_StartedDate = []\<rparr>"

definition sample_guest :: guest_env where
  "sample_guest = \<lparr>gv_en = \<lparr>ae_F = (\<lambda>_. None), ae_cli = (\<lambda>_ _ _. \<lparr>ca_stdout = [], ca_stderr = [], ca_err = None\<rparr>),
       ae_clock = int, ae_random = (\<lambda>_. Inr (\<lambda>_. 0)), ae_text = Itoa, ae_listen = (\<lambda>n _. Inr (49152 + n)),
       ae_containers = (\<lambda>_. Inr [sample_info]), ae_images = (\<lambda>_. Inr []), ae_status = (\<lambda>_. Inl EOF),
       ae_normalize = Inr, ae_jsonString = Some, ae_jsonNumber = (\<lambda>_. None), ae_timestamp = (\<lambda>_ _. []),
       ae_errText = (\<lambda>_. []), ae_invalidator = False\<rparr>,
     gv_marshal = concat, gv_unmarshal = (\<lambda>s. [s]), gv_pipe = (\<lambda>_. False), gv_start = (\<lambda>_ _. None),
     gv_gate = (\<lambda>_. None), gv_expired = (\<lambda>_. False), gv_select = (\<lambda>_. 2), gv_view = (\<lambda>_ r. r),
     gv_fuel = 1, gv_blocked = EOF\<rparr>"

lemma sample_runs: "reachableA sample_guest (handleA sample_guest (AStop sampleID) sample_apple)"
  by (rule stepA, rule bootA) (simp_all add: sample_apple_def keys_wf_def)

lemma sampleID_valid: "validID sampleID"
  unfolding sampleID_def by code_simp

lemma sample_stop:
  "map ce_args (ap_calls (handleA sample_guest (AStop sampleID) sample_apple)) = [listArgs, [''stop'', sampleID]]"
  by (simp add: StopA_def stopLockedA_def owned_def sampleID_valid repoA_def FindByID_def FindByNativeID_def query_def
      stmt_def prog_defs zoom_def sample_apple_def sample_guest_def first_row_def hasNativeID_def sample_row_def
      atTickA_def BeginOperation_def transaction_def Pending_def insertOperation_def insert_stmt_def pendingFor_def
      lookupA_def inventory_def runA_def Let_def runOutcome_def bb_snapshot_def newBounded_def liftE_def sample_info_def
      inventoryOf_def ownedInventoryEntry_def labelOfA_def bindE_def guardE_def nativeRow_def
      CompleteOperation_def ValidateOperation_def updateSandboxes_def ClearOperation_def exec_def ownershipMismatch_def
      RuntimeID_def nstr_def clearTimer_def nowA_def changed_def retryOperationA_def FindOperation_def delete_rows_def
      remove_key_def store_def)

theorem cli_mutations_are_write_ahead_witness:
  "inventoryShows (gv_en sample_guest) (take 1 (ap_calls (handleA sample_guest (AStop sampleID) sample_apple))) sampleID \<or>
   justCreated (take 1 (ap_calls (handleA sample_guest (AStop sampleID) sample_apple))) sampleID"
proof -
  let ?w = "handleA sample_guest (AStop sampleID) sample_apple"
  have "length (ap_calls ?w) = 2" using arg_cong [OF sample_stop, of length] by simp
  moreover have "ce_args (ap_calls ?w ! 1) = [''stop'', sampleID]"
    using arg_cong [OF sample_stop, of "\<lambda>xs. xs ! 1"] calculation by simp
  ultimately show ?thesis
    using cli_mutations_are_write_ahead [OF sample_runs, of 1 "''stop''" sampleID] by simp
qed

end
