(* ===== verification/Api_Facade.thy ===== *)
theory Api_Facade
  imports Service Image_Store
begin

text \<open>
  \<open>src/internal/api/facade.go\<close>: the boundary between the two transports, REST and MCP, and the
  application. The interface \<open>sandbox.Application\<close> is the record \<open>application\<close> over a world \<open>'w\<close>, with the
  operations of one request, so that its context does not appear. The facade turns the JSON objects
  of \<open>src/models\<close> into domain values and back.

  A log reader is the list of what its calls of \<open>Read\<close> return.
\<close>

section \<open>The application\<close>

type_synonym log_reader = "(string \<times> err option) list"

record usage =
  us_CPU :: real
  us_Usage :: nat
  us_Limit :: nat
  us_Percent :: real
  us_PIDs :: nat

record 'w application =
  app_Ping :: "('w, unit) prog"
  app_Create :: "create_opts \<Rightarrow> ('w, created) prog"
  app_List :: "('w, summary list) prog"
  app_Inspect :: "string \<Rightarrow> ('w, detail) prog"
  app_Start :: "string \<Rightarrow> ('w, started) prog"
  app_Stop :: "string \<Rightarrow> ('w, unit) prog"
  app_Restart :: "string \<Rightarrow> ('w, started) prog"
  app_GetNetwork :: "string \<Rightarrow> ('w, network) prog"
  app_Remove :: "string \<Rightarrow> ('w, unit) prog"
  app_Pause :: "string \<Rightarrow> ('w, unit) prog"
  app_Resume :: "string \<Rightarrow> ('w, unit) prog"
  app_RenewExpiration :: "string \<Rightarrow> int \<Rightarrow> ('w, unit) prog"
  app_Stats :: "string \<Rightarrow> ('w, usage) prog"
  app_PullImage :: "string \<Rightarrow> ('w, unit) prog"
  app_RemoveImage :: "string \<Rightarrow> bool \<Rightarrow> ('w, unit) prog"
  app_InspectImage :: "string \<Rightarrow> ('w, image_detail) prog"
  app_ListImages :: "('w, image_summary list) prog"
  app_ExecCommand :: "string \<Rightarrow> exec_request \<Rightarrow> ('w, command_detail) prog"
  app_GetCommand :: "string \<Rightarrow> string \<Rightarrow> ('w, command_detail) prog"
  app_ListCommands :: "string \<Rightarrow> ('w, command_detail list) prog"
  app_KillCommand :: "string \<Rightarrow> string \<Rightarrow> int \<Rightarrow> ('w, command_detail) prog"
  app_WaitCommand :: "string \<Rightarrow> string \<Rightarrow> ('w, command_detail) prog"
  app_StreamCommandLogs :: "string \<Rightarrow> string \<Rightarrow> ('w, log_reader \<times> log_reader) prog"
  app_GetCommandLogs :: "string \<Rightarrow> string \<Rightarrow> ('w, logs_response) prog"
  app_ReadFile :: "string \<Rightarrow> string \<Rightarrow> ('w, string) prog"
  app_WriteFile :: "string \<Rightarrow> string \<Rightarrow> string \<Rightarrow> ('w, unit) prog"
  app_DeleteFile :: "string \<Rightarrow> string \<Rightarrow> ('w, unit) prog"
  app_ListDir :: "string \<Rightarrow> string \<Rightarrow> ('w, string) prog"

section \<open>The JSON objects\<close>

text \<open>A JSON number is finite: the CPU limit of a request is a real number.\<close>

record create_body =
  cb_Image :: string
  cb_Ports :: "string list"
  cb_Timeout :: int
  cb_Resources :: "resource_limits option"
  cb_Env :: "string list"

record created_view =
  cv_ID :: string
  cv_Name :: string
  cv_Ports :: "string list"
  cv_URL :: string

record summary_view = sandbox_summary +
  sv_URL :: string

record detail_view = sandbox_detail +
  dv_URL :: string

section \<open>Durations\<close>

text \<open>\<open>math.MaxInt64\<close>; an accepted number of seconds is multiplied without wrapping around.\<close>

definition MaxInt64 :: int where
  "MaxInt64 = 2 ^ 63 - 1"

definition duration :: "int \<Rightarrow> err + int" where
  "duration seconds =
     (if seconds < 0 \<or> seconds > MaxInt64 sdiv Second
      then Inl (Wrap ''invalid timeout'' ErrInvalidInput)
      else Inr (seconds * Second))"

lemma duration_bounds:
  "duration n = Inr d \<Longrightarrow> d = n * Second \<and> 0 \<le> n \<and> d \<le> MaxInt64"
  by (auto simp: duration_def MaxInt64_def Second_def split: if_splits)

definition fromErr :: "err + 'a \<Rightarrow> ('w, 'a) prog" where
  "fromErr r = (case r of Inl e \<Rightarrow> throw e | Inr x \<Rightarrow> ret x)"

section \<open>Sandboxes\<close>

definition facadeCreate :: "'w application \<Rightarrow> create_body \<Rightarrow> ('w, created_view) prog" where
  "facadeCreate app req =
     (case ParsePorts (cb_Ports req) of
        Inl e \<Rightarrow> throw (Wrap (errText e) ErrInvalidInput)
      | Inr ports \<Rightarrow>
          andThen (fromErr (duration (cb_Timeout req))) (\<lambda>timeout.
          let resources = (case cb_Resources req of None \<Rightarrow> (0, 0) | Some r \<Rightarrow> (rl_Memory r, rl_CPUs r)) in
          andThen (app_Create app \<lparr>co_Image = cb_Image req, co_Ports = ports, co_Timeout = timeout,
            co_Memory = fst resources, co_CPUs = Finite (snd resources), co_Env = cb_Env req\<rparr>) (\<lambda>x.
          ret \<lparr>cv_ID = cre_ID x, cv_Name = cre_Name x, cv_Ports = PortStrings (cre_Ports x), cv_URL = cre_URL x\<rparr>)))"

definition summaryView :: "summary \<Rightarrow> summary_view" where
  "summaryView x = \<lparr>ss_ID = su_ID x, ss_Name = su_Name x, ss_Image = su_Image x, ss_Status = su_Status x,
     ss_State = su_State x, ss_Ports = PortStrings (su_Ports x), ss_ExpiresAt = su_ExpiresAt x, sv_URL = su_URL x\<rparr>"

definition facadeList :: "'w application \<Rightarrow> ('w, summary_view list) prog" where
  "facadeList app = andThen (app_List app) (\<lambda>items. ret (map summaryView items))"

definition detailView :: "detail \<Rightarrow> detail_view" where
  "detailView x = \<lparr>sd_ID = su_ID x, sd_Name = su_Name x, sd_Image = su_Image x, sd_Status = su_Status x,
     sd_Running = de_Running x, sd_Ports = PortStrings (su_Ports x), sd_Memory = de_Memory x, sd_CPUs = de_CPUs x,
     sd_StartedAt = de_StartedAt x, sd_FinishedAt = de_FinishedAt x, sd_ExpiresAt = su_ExpiresAt x,
     dv_URL = su_URL x\<rparr>"

definition facadeInspect :: "'w application \<Rightarrow> string \<Rightarrow> ('w, detail_view) prog" where
  "facadeInspect app i = andThen (app_Inspect app i) (\<lambda>x. ret (detailView x))"

definition restartView :: "started \<Rightarrow> restart_response" where
  "restartView x = \<lparr>rr_Status = sta_Status x, rr_Ports = PortStrings (sta_Ports x), rr_ExpiresAt = sta_ExpiresAt x\<rparr>"

definition facadeStart :: "'w application \<Rightarrow> string \<Rightarrow> ('w, restart_response) prog" where
  "facadeStart app i = andThen (app_Start app i) (\<lambda>x. ret (restartView x))"

definition facadeRestart :: "'w application \<Rightarrow> string \<Rightarrow> ('w, restart_response) prog" where
  "facadeRestart app i = andThen (app_Restart app i) (\<lambda>x. ret (restartView x))"

definition facadeRenew :: "'w application \<Rightarrow> string \<Rightarrow> int \<Rightarrow> ('w, unit) prog" where
  "facadeRenew app i seconds = andThen (fromErr (duration seconds)) (\<lambda>d. app_RenewExpiration app i d)"

text \<open>A Go map: of two entries for a guest port the later one stays.\<close>

definition networkView :: "network \<Rightarrow> sandbox_network" where
  "networkView x = \<lparr>sn_MainPort = portString (nw_Main x),
     sn_PortsMap = foldl (\<lambda>m p. store (portString (pp_Guest p)) (Itoa (pp_Host p)) m) [] (nw_Ports x)\<rparr>"

definition facadeGetNetwork :: "'w application \<Rightarrow> string \<Rightarrow> ('w, sandbox_network) prog" where
  "facadeGetNetwork app i = andThen (app_GetNetwork app i) (\<lambda>x. ret (networkView x))"

text \<open>
  The remaining operations of the facade hand their arguments and results through: \<open>Ping\<close>, \<open>Stop\<close>,
  \<open>Remove\<close>, \<open>Pause\<close>, \<open>Resume\<close>, \<open>Stats\<close>, the commands, the files and the images, whose JSON objects have
  the fields of the domain values. The transports below call them as the application's.
\<close>

end
