(* ===== verification/Utf8.thy ===== *)
theory Utf8
  imports Go_Strings
begin

text \<open>
  The functions of \<open>unicode/utf8\<close> that the sources call, transcribed from their documented table, and the
  encoding of Unicode scalar values that they decode: the decoder accepts the encodings and nothing
  else, a full rune is decided by its own bytes, and any other nonempty beginning can be completed.
\<close>

section \<open>UTF-8\<close>

text \<open>The length that a first byte announces (0 for a byte that starts no rune), and the second bytes it allows.\<close>

definition runeLength :: "nat \<Rightarrow> nat" where
  "runeLength b =
     (if b < 0x80 then 1 else if b < 0xC2 then 0 else if b < 0xE0 then 2 else if b < 0xF0 then 3
      else if b < 0xF5 then 4 else 0)"

definition secondByte :: "nat \<Rightarrow> nat \<Rightarrow> bool" where
  "secondByte b c \<longleftrightarrow>
     (if b = 0xE0 then 0xA0 else if b = 0xF0 then 0x90 else 0x80) \<le> c \<and>
     c \<le> (if b = 0xED then 0x9F else if b = 0xF4 then 0x8F else 0xBF)"

definition continuation :: "nat \<Rightarrow> bool" where
  "continuation c \<longleftrightarrow> 0x80 \<le> c \<and> c \<le> 0xBF"

text \<open>The bytes after the first one that are wrong where the announced rune needs them.\<close>

definition brokenRune :: "nat list \<Rightarrow> bool" where
  "brokenRune p = (case p of
     [] \<Rightarrow> False
   | b # cs \<Rightarrow> runeLength b = 0 \<or>
       (runeLength b > 1 \<and> cs \<noteq> [] \<and> \<not> secondByte b (cs ! 0)) \<or>
       (runeLength b > 2 \<and> length cs > 1 \<and> \<not> continuation (cs ! 1)))"

definition FullRune :: "nat list \<Rightarrow> bool" where
  "FullRune p \<longleftrightarrow> p \<noteq> [] \<and> (length p \<ge> runeLength (hd p) \<or> brokenRune p)"

text \<open>\<open>DecodeRune\<close>: the size of the rune, or \<open>None\<close> for \<open>RuneError\<close> of size 1.\<close>

definition DecodeRune :: "nat list \<Rightarrow> nat option" where
  "DecodeRune p =
     (if p = [] \<or> brokenRune p \<or> length p < runeLength (hd p) then None
      else if runeLength (hd p) = 4 \<and> \<not> continuation (p ! 3) then None
      else Some (runeLength (hd p)))"

definition bytes_of :: "string \<Rightarrow> nat list" where
  "bytes_of s = map of_char s"

lemma bytes_of_simps [simp]:
  "bytes_of (a @ b) = bytes_of a @ bytes_of b" "length (bytes_of s) = length s" "bytes_of [] = []"
  "bytes_of (take n s) = take n (bytes_of s)" "bytes_of (drop n s) = drop n (bytes_of s)"
  by (simp_all add: bytes_of_def take_map drop_map)

lemma DecodeRune_size: "DecodeRune p = Some n \<Longrightarrow> 0 < n \<and> n \<le> length p \<and> n = runeLength (hd p)"
  by (auto simp: DecodeRune_def brokenRune_def split: if_splits list.splits)

section \<open>What text is\<close>

text \<open>The encoding of a Unicode scalar value, and the byte sequences that are text.\<close>

definition scalar :: "nat \<Rightarrow> bool" where
  "scalar c \<longleftrightarrow> c < 0xD800 \<or> (0xE000 \<le> c \<and> c < 0x110000)"

definition utf8 :: "nat \<Rightarrow> nat list" where
  "utf8 c =
     (if c < 0x80 then [c]
      else if c < 0x800 then [0xC0 + c div 64, 0x80 + c mod 64]
      else if c < 0x10000 then [0xE0 + c div 4096, 0x80 + c div 64 mod 64, 0x80 + c mod 64]
      else [0xF0 + c div 262144, 0x80 + c div 4096 mod 64, 0x80 + c div 64 mod 64, 0x80 + c mod 64])"

definition utf8_text :: "nat list \<Rightarrow> bool" where
  "utf8_text bs \<longleftrightarrow> (\<exists>cs. list_all scalar cs \<and> bs = concat (map utf8 cs))"

lemma utf8_nonempty [simp]: "utf8 u \<noteq> []"
  by (simp add: utf8_def)

lemma utf8_text_Nil [simp]: "utf8_text []"
  unfolding utf8_text_def by (rule exI [of _ "[]"]) simp

lemma utf8_text_append: "utf8_text a \<Longrightarrow> utf8_text b \<Longrightarrow> utf8_text (a @ b)"
  unfolding utf8_text_def by (metis concat_append list_all_append map_append)

lemma utf8_text_rune: "scalar c \<Longrightarrow> utf8_text (utf8 c)"
  unfolding utf8_text_def by (rule exI [of _ "[c]"]) simp

subsection \<open>The decoder accepts the encodings and nothing else\<close>

lemma runeLength_utf8: "scalar c \<Longrightarrow> runeLength (hd (utf8 c)) = length (utf8 c)"
  by (auto simp: utf8_def runeLength_def scalar_def)

text \<open>The second byte of a rune of three or four bytes: the lower or upper bound that its first byte sets.\<close>

lemma sextet:
  fixes x a :: nat
  shows "x div 64 = a \<Longrightarrow> x mod 64 = x - a * 64"
  by (metis minus_div_mult_eq_mod)

lemma sextet_le [simp]: "(x::nat) mod 64 \<le> 63"
  using mod_less_divisor [of 64 x] by linarith

lemma second_of_3:
  assumes "0x800 \<le> c" "c < 0x10000" "scalar c"
  shows "secondByte (0xE0 + c div 4096) (0x80 + c div 64 mod 64)"
proof -
  define x where "x = c div 64"
  have q: "c div 4096 = x div 64"
    by (simp add: x_def div_mult2_eq [symmetric])
  have x: "0x20 \<le> x" "x < 0x400" "x < 0x360 \<or> 0x380 \<le> x"
    using assms by (auto simp: x_def scalar_def less_eq_div_iff_mult_less_eq div_less_iff_less_mult)
  have low: "x div 64 = 0 \<Longrightarrow> 0x20 \<le> x mod 64"
    using x(1) by (auto dest!: sextet)
  have high: "x div 64 = 13 \<Longrightarrow> x mod 64 \<le> 0x1F"
    using x(3) div_mult_mod_eq [of x 64] mod_less_divisor [of 64 x] by linarith
  have "x div 64 < 16"
    using x(2) by (simp add: less_mult_imp_div_less)
  then show ?thesis
    using low high unfolding secondByte_def q x_def [symmetric] by auto
qed

lemma second_of_4:
  assumes "0x10000 \<le> c" "scalar c"
  shows "secondByte (0xF0 + c div 262144) (0x80 + c div 4096 mod 64)"
proof -
  define x where "x = c div 4096"
  have q: "c div 262144 = x div 64"
    by (simp add: x_def div_mult2_eq [symmetric])
  have x: "0x10 \<le> x" "x < 0x110"
    using assms by (auto simp: x_def scalar_def less_eq_div_iff_mult_less_eq div_less_iff_less_mult)
  have low: "x div 64 = 0 \<Longrightarrow> 0x10 \<le> x mod 64"
    using x(1) by (auto dest!: sextet)
  have high: "x div 64 = 4 \<Longrightarrow> x mod 64 \<le> 0x0F"
    using x(2) div_mult_mod_eq [of x 64] by linarith
  show ?thesis
    using low high unfolding secondByte_def q x_def [symmetric] by auto
qed

lemma DecodeRune_utf8:
  assumes "scalar c"
  shows "DecodeRune (utf8 c @ r) = Some (length (utf8 c))"
proof -
  consider "c < 0x80" | "0x80 \<le> c" "c < 0x800" | "0x800 \<le> c" "c < 0x10000" | "0x10000 \<le> c"
    by linarith
  then show ?thesis
  proof cases
    case 1
    then show ?thesis
      by (simp add: utf8_def DecodeRune_def brokenRune_def runeLength_def)
  next
    case 2
    then have "c div 64 < 32" "2 \<le> c div 64"
      by (auto simp: less_mult_imp_div_less div_le_mono [of 128 c 64, simplified])
    then show ?thesis
      using 2 by (auto simp: utf8_def DecodeRune_def brokenRune_def runeLength_def secondByte_def)
  next
    case 3
    then have "c div 4096 < 16"
      by (simp add: less_mult_imp_div_less)
    then show ?thesis
      using 3 second_of_3 [OF 3 assms] 
      by (simp add: utf8_def DecodeRune_def brokenRune_def runeLength_def continuation_def)
  next
    case 4
    then have "c div 262144 < 5"
      using assms by (simp add: scalar_def less_mult_imp_div_less)
    then show ?thesis
      using 4 second_of_4 [OF 4 assms] 
      by (simp add: utf8_def DecodeRune_def brokenRune_def runeLength_def continuation_def)
  qed
qed

text \<open>The other way round: what the decoder accepts is the encoding of one scalar value.\<close>

lemma shifted: "l < 64 \<Longrightarrow> (x * 64 + l) div 64 = x \<and> (x * 64 + l) mod 64 = (l::nat)"
  by simp

lemma sextet_of: "c \<le> 0xBF \<Longrightarrow> c - 0x80 < (64::nat)"
  by simp

lemma range_3:
  fixes x l :: nat
  assumes "0x20 \<le> x" "x < 0x400" "x < 0x360 \<or> 0x380 \<le> x" "l < 64"
  shows "0x800 \<le> x * 64 + l \<and> x * 64 + l < 0x10000 \<and> (x * 64 + l < 0xD800 \<or> 0xE000 \<le> x * 64 + l)"
  using assms by auto

lemma range_4:
  fixes x l m :: nat
  assumes "0x10 \<le> x" "x < 0x110" "l < 64" "m < 64"
  shows "0x10000 \<le> (x * 64 + l) * 64 + m \<and> (x * 64 + l) * 64 + m < 0x110000"
  using assms by auto

lemma rune_2:
  assumes "0xC2 \<le> b" "b < 0xE0" "0x80 \<le> c" "c \<le> 0xBF"
  shows "\<exists>u. scalar u \<and> [b, c] = utf8 u"
proof (intro exI conjI)
  let ?u = "(b - 0xC0) * 64 + (c - 0x80)"
  have u: "?u div 64 = b - 0xC0" "?u mod 64 = c - 0x80"
    using shifted [OF sextet_of [of c]] assms(4) by blast+
  have r: "0x80 \<le> ?u" "?u < 0x800"
    using assms by linarith+
  show "scalar ?u"
    using r by (simp add: scalar_def)
  show "[b, c] = utf8 ?u"
    using r assms unfolding utf8_def u by simp
qed

lemma rune_3:
  assumes "0xE0 \<le> b" "b < 0xF0" "secondByte b c" "continuation d"
  shows "\<exists>u. scalar u \<and> [b, c, d] = utf8 u"
proof (intro exI conjI)
  let ?x = "(b - 0xE0) * 64 + (c - 0x80)"
  let ?u = "?x * 64 + (d - 0x80)"
  have c: "0x80 \<le> c" "c \<le> 0xBF"
    using assms(3) by (auto simp: secondByte_def split: if_splits)
  have d: "0x80 \<le> d" "d \<le> 0xBF"
    using assms(4) by (auto simp: continuation_def)
  have u: "?u div 64 = ?x" "?u mod 64 = d - 0x80"
    using shifted [OF sextet_of [of d]] d by blast+
  have x: "?x div 64 = b - 0xE0" "?x mod 64 = c - 0x80"
    using shifted [OF sextet_of [of c]] c by blast+
  have q: "?u div 4096 = b - 0xE0"
    using u(1) x(1) div_mult2_eq [of ?u 64 64] by simp
  have xr: "0x20 \<le> ?x" "?x < 0x400" "?x < 0x360 \<or> 0x380 \<le> ?x"
    using assms(1,2,3) c by (auto simp: secondByte_def split: if_splits)
  have r: "0x800 \<le> ?u" "?u < 0x10000" "?u < 0xD800 \<or> 0xE000 \<le> ?u"
    using range_3 [OF xr sextet_of [OF d(2)]] by blast+
  show "scalar ?u"
    using r by (simp add: scalar_def)
  show "[b, c, d] = utf8 ?u"
    using r c d assms(1) unfolding utf8_def q u x by simp
qed

lemma rune_4:
  assumes "0xF0 \<le> b" "b < 0xF5" "secondByte b c" "continuation d" "continuation e"
  shows "\<exists>u. scalar u \<and> [b, c, d, e] = utf8 u"
proof (intro exI conjI)
  let ?x = "(b - 0xF0) * 64 + (c - 0x80)"
  let ?y = "?x * 64 + (d - 0x80)"
  let ?u = "?y * 64 + (e - 0x80)"
  have c: "0x80 \<le> c" "c \<le> 0xBF"
    using assms(3) by (auto simp: secondByte_def split: if_splits)
  have d: "0x80 \<le> d" "d \<le> 0xBF" and e: "0x80 \<le> e" "e \<le> 0xBF"
    using assms(4,5) by (auto simp: continuation_def)
  have u: "?u div 64 = ?y" "?u mod 64 = e - 0x80"
    using shifted [OF sextet_of [of e]] e by blast+
  have y: "?y div 64 = ?x" "?y mod 64 = d - 0x80"
    using shifted [OF sextet_of [of d]] d by blast+
  have x: "?x div 64 = b - 0xF0" "?x mod 64 = c - 0x80"
    using shifted [OF sextet_of [of c]] c by blast+
  have q: "?u div 4096 = ?x"
    using u(1) y(1) div_mult2_eq [of ?u 64 64] by simp
  have t: "?u div 262144 = b - 0xF0"
    using q x(1) div_mult2_eq [of ?u 4096 64] by simp
  have xr: "0x10 \<le> ?x" "?x < 0x110"
    using assms(1,2,3) c by (auto simp: secondByte_def split: if_splits)
  have r: "0x10000 \<le> ?u" "?u < 0x110000"
    using range_4 [OF xr sextet_of [OF d(2)] sextet_of [OF e(2)]] by blast+
  show "scalar ?u"
    using r by (simp add: scalar_def)
  show "[b, c, d, e] = utf8 ?u"
    using r c d e assms(1) unfolding utf8_def t q u y x by simp
qed

lemma DecodeRune_rune:
  assumes "DecodeRune p = Some n"
  shows "\<exists>u. scalar u \<and> take n p = utf8 u"
proof -
  obtain b cs where p: "p = b # cs"
    using assms by (cases p) (auto simp: DecodeRune_def)
  have n: "n = runeLength b" "\<not> brokenRune p" "n \<le> length p"
    and last: "n = 4 \<longrightarrow> continuation (p ! 3)"
    using assms by (auto simp: DecodeRune_def p split: if_splits)
  have "n \<noteq> 0"
    using n(1,2) by (auto simp: p brokenRune_def)
  then consider "n = 1" "b < 0x80" | "n = 2" "0xC2 \<le> b" "b < 0xE0"
    | "n = 3" "0xE0 \<le> b" "b < 0xF0" | "n = 4" "0xF0 \<le> b" "b < 0xF5"
    using n(1) by (auto simp: runeLength_def split: if_splits)
  then show ?thesis
  proof cases
    case 1
    then show ?thesis
      by (intro exI [of _ b]) (simp add: p scalar_def utf8_def)
  next
    case 2
    obtain c cs' where "cs = c # cs'"
      using n(3) 2(1) by (cases cs) (auto simp: p)
    then show ?thesis
      using rune_2 [of b c] 2 n(1,2) by (auto simp: p brokenRune_def secondByte_def split: if_splits)
  next
    case 3
    obtain c d cs' where "cs = c # d # cs'"
      using n(3) 3(1) by (cases cs rule: list.exhaust; cases "tl cs") (auto simp: p)
    then show ?thesis
      using rune_3 [of b c d] 3 n(1,2) by (auto simp: p brokenRune_def numeral_3_eq_3)
  next
    case 4
    obtain c d e cs' where "cs = c # d # e # cs'"
      using n(3) 4(1) by (cases cs; cases "tl cs"; cases "tl (tl cs)") (auto simp: p)
    then show ?thesis
      using rune_4 [of b c d e] 4 n(1,2) last
      by (auto simp: p brokenRune_def numeral_3_eq_3 eval_nat_numeral)
  qed
qed

text \<open>A full rune is decided: no further byte changes it; anything else is the start of some rune.\<close>

lemma FullRune_append: "FullRune p \<Longrightarrow> FullRune (p @ r)"
  by (auto simp: FullRune_def brokenRune_def nth_append split: list.splits)

lemma brokenRune_append: "brokenRune p \<Longrightarrow> brokenRune (p @ r)"
  by (auto simp: brokenRune_def nth_append split: list.splits)

lemma brokenRune_complete:
  assumes "p \<noteq> []" "runeLength (hd p) \<le> length p"
  shows "brokenRune (p @ r) = brokenRune p"
proof -
  obtain b cs where p: "p = b # cs"
    using assms(1) by (cases p) auto
  show ?thesis
    using assms(2) by (cases cs) (auto simp: p brokenRune_def nth_append)
qed

lemma DecodeRune_append: "FullRune p \<Longrightarrow> DecodeRune (p @ r) = DecodeRune p"
  by (cases "brokenRune p")
    (auto simp: FullRune_def DecodeRune_def brokenRune_append brokenRune_complete nth_append)

lemma FullRune_completable:
  assumes "\<not> FullRune p" "p \<noteq> []"
  shows "\<exists>r. DecodeRune (p @ r) = Some (length (p @ r))"
proof -
  obtain b cs where p: "p = b # cs"
    using assms(2) by (cases p) auto
  have b: "length cs + 1 < runeLength b" "\<not> brokenRune p"
    using assms by (auto simp: FullRune_def p)
  define c where "c = (if b = 0xE0 then 0xA0 else if b = 0xF0 then 0x90 else 0x80 :: nat)"
  have c: "secondByte b c"
    by (simp add: secondByte_def c_def)
  have fill: "DecodeRune (b # ds) = Some (length (b # ds))"
    if "length (b # ds) = runeLength b" "length ds > 0 \<longrightarrow> secondByte b (ds ! 0)"
      "length ds > 1 \<longrightarrow> continuation (ds ! 1)" "length ds > 2 \<longrightarrow> continuation (ds ! 2)" for ds
    using that by (auto simp: DecodeRune_def brokenRune_def nth_Cons')
  have len: "runeLength b = 2 \<or> runeLength b = 3 \<or> runeLength b = 4"
    using b(1) by (auto simp: runeLength_def split: if_splits)
  have cont: "continuation 0x80"
    by (simp add: continuation_def)
  let ?ds = "cs @ drop (length cs) (c # replicate (runeLength b - 2) 0x80)"
  have ds: "?ds ! i = (if i < length cs then cs ! i else if i = 0 then c else 0x80)"
    if "i < runeLength b - 1" for i
    using b(1) that len by (auto simp: nth_append nth_Cons')
  have "DecodeRune (b # ?ds) = Some (length (b # ?ds))"
  proof (rule fill)
    show l: "length (b # ?ds) = runeLength b"
      using b(1) len by auto
    show "length ?ds > 0 \<longrightarrow> secondByte b (?ds ! 0)"
      using ds [of 0] b c len by (cases cs) (auto simp: p brokenRune_def)
    show "length ?ds > 1 \<longrightarrow> continuation (?ds ! 1)"
      using ds [of 1] l b cont by (auto simp: p brokenRune_def split: if_splits)
    show "length ?ds > 2 \<longrightarrow> continuation (?ds ! 2)"
      using ds [of 2] l b cont len by auto
  qed
  then show ?thesis
    unfolding p by (metis append_Cons)
qed

end
