(* ===== verification/Log_Stream.thy ===== *)
theory Log_Stream
  imports Utf8
begin

text \<open>
  \<open>streamLogs\<close> of \<open>src/internal/api/handler.go\<close>: the logs of a command as records of JSON text while it
  runs. Each of the two goroutines reads what is available, cuts it at the last complete UTF-8
  rune, carries an incomplete rune over into the next read, and sends the rest; the handler writes
  the records in the order in which it receives them and stops after an error record.

  A reader is the list of what its successive calls of \<open>Read\<close> return.
\<close>

section \<open>The loop over one reader\<close>

text \<open>How many bytes are complete runes, and whether an invalid one follows them.\<close>

function scanText :: "nat list \<Rightarrow> nat \<times> bool" where
  "scanText p =
     (if \<not> FullRune p then (0, False)
      else case DecodeRune p of
        None \<Rightarrow> (0, True)
      | Some n \<Rightarrow> (case scanText (drop n p) of (e, invalid) \<Rightarrow> (n + e, invalid)))"
  by pat_completeness auto
termination scanText
  by (relation "measure length") (auto simp: FullRune_def dest!: DecodeRune_size)

declare scanText.simps [simp del]

datatype log_line = Text string string | Failure string

record stream_reader =
  sr_carry :: string
  sr_empty :: nat

datatype 'a progress = More 'a | Done

definition invalidText :: "string \<Rightarrow> log_line" where
  "invalidText kind = Failure (kind @ '' log source contains invalid or incomplete UTF-8 text'')"

definition readFailure :: "string \<Rightarrow> err \<Rightarrow> log_line" where
  "readFailure kind e = Failure (kind @ (if errors_is e ErrLogTruncated
     then '' logs truncated: retained output was overwritten; full history is unavailable''
     else '' log source read failed''))"

definition isEOF :: "err option \<Rightarrow> bool" where
  "isEOF e = (case e of None \<Rightarrow> False | Some x \<Rightarrow> errors_is x EOF)"

definition errNoProgress :: err where
  "errNoProgress = Msg ''multiple Read calls return no data or error''"

text \<open>One call of \<open>Read\<close> and what follows it.\<close>

definition handleRead :: "string \<Rightarrow> string \<Rightarrow> string \<Rightarrow> err option \<Rightarrow> log_line list \<times> stream_reader progress" where
  "handleRead kind carry d e =
     (let buffer = carry @ d; (n, invalid) = scanText (bytes_of buffer);
          sent = (if n > 0 then [Text kind (take n buffer)] else []) in
      if invalid \<or> isEOF e \<and> n \<noteq> length buffer then (sent @ [invalidText kind], Done)
      else case e of
        None \<Rightarrow> (sent, More \<lparr>sr_carry = drop n buffer, sr_empty = 0\<rparr>)
      | Some x \<Rightarrow> (if errors_is x EOF then sent else sent @ [readFailure kind x], Done))"

definition readStep :: "string \<Rightarrow> stream_reader \<Rightarrow> string \<times> err option \<Rightarrow> log_line list \<times> stream_reader progress" where
  "readStep kind r rd =
     (if rd = ([], None) then
        if sr_empty r + 1 < 100 then ([], More (r\<lparr>sr_empty := sr_empty r + 1\<rparr>))
        else handleRead kind (sr_carry r) [] (Some errNoProgress)
      else handleRead kind (sr_carry r) (fst rd) (snd rd))"

text \<open>The records that a reader's goroutine sends for the reads so far.\<close>

fun readStream :: "string \<Rightarrow> stream_reader \<Rightarrow> (string \<times> err option) list \<Rightarrow> log_line list" where
  "readStream kind r [] = []"
| "readStream kind r (rd # rds) =
     (case readStep kind r rd of
        (sent, Done) \<Rightarrow> sent
      | (sent, More r') \<Rightarrow> sent @ readStream kind r' rds)"

definition newStream :: stream_reader where
  "newStream = \<lparr>sr_carry = [], sr_empty = 0\<rparr>"


section \<open>The response\<close>

fun isFailure :: "log_line \<Rightarrow> bool" where
  "isFailure (Failure s) = True"
| "isFailure (Text k s) = False"

text \<open>What is written when the records arrive in this order: nothing after the first failure.\<close>

fun writeLines :: "log_line list \<Rightarrow> log_line list" where
  "writeLines [] = []"
| "writeLines (l # ls) = (if isFailure l then [l] else l # writeLines ls)"

text \<open>Every response to two readers: any interleaving of their records, cut off where the caller leaves.\<close>

definition log_response :: "(string \<times> err option) list \<Rightarrow> (string \<times> err option) list \<Rightarrow> log_line list \<Rightarrow> bool" where
  "log_response outs errs ls \<longleftrightarrow>
     (\<exists>order n. order \<in> shuffles (readStream ''stdout'' newStream outs) (readStream ''stderr'' newStream errs) \<and>
       ls = take n (writeLines order))"

section \<open>The scan finds the longest text\<close>

lemma scanText_Some:
  assumes "FullRune p" "DecodeRune p = Some n"
  shows "scanText p = (n + fst (scanText (drop n p)), snd (scanText (drop n p)))"
  using assms by (subst scanText.simps) (simp split: prod.split)

lemma scanText_None: "FullRune p \<Longrightarrow> DecodeRune p = None \<Longrightarrow> scanText p = (0, True)"
  by (subst scanText.simps) simp

lemma scanText_partial: "\<not> FullRune p \<Longrightarrow> scanText p = (0, False)"
  by (subst scanText.simps) simp

lemma DecodeRune_full: "DecodeRune p = Some n \<Longrightarrow> FullRune p"
  by (auto simp: DecodeRune_def FullRune_def split: if_splits)

lemma scanText_utf8:
  "scalar u \<Longrightarrow> scanText (utf8 u @ r) = (length (utf8 u) + fst (scanText r), snd (scanText r))"
  using scanText_Some [OF DecodeRune_full [OF DecodeRune_utf8] DecodeRune_utf8, of u r] by simp

lemma scanText_text:
  assumes "utf8_text t"
  shows "scanText (t @ r) = (length t + fst (scanText r), snd (scanText r))"
proof -
  obtain cs where "list_all scalar cs" "t = concat (map utf8 cs)"
    using assms by (auto simp: utf8_text_def)
  then show ?thesis
    by (induction cs arbitrary: t) (auto simp: scanText_utf8)
qed

lemma scanText_bound: "fst (scanText p) \<le> length p"
proof (induction p rule: scanText.induct)
  case (1 p)
  show ?case
  proof (cases "FullRune p")
    case True
    then show ?thesis
      using 1 DecodeRune_size [of p] by (cases "DecodeRune p") (fastforce simp: scanText_None scanText_Some)+
  qed (simp add: scanText_partial)
qed

text \<open>
  The scan stops behind text, at bytes that start no full rune; it reports them as invalid exactly
  if no bytes complete them.
\<close>

lemma scanText_result:
  "utf8_text (take (fst (scanText p)) p) \<and>
   scanText (drop (fst (scanText p)) p) = (0, snd (scanText p))"
proof (induction p rule: scanText.induct)
  case (1 p)
  show ?case
  proof (cases "DecodeRune p")
    case None
    then show ?thesis
      by (cases "FullRune p") (simp_all add: scanText_None scanText_partial)
  next
    case (Some n)
    then have f: "FullRune p"
      by (rule DecodeRune_full)
    obtain u where u: "scalar u" "take n p = utf8 u"
      using DecodeRune_rune [OF Some] by blast
    show ?thesis
      using 1 [of n] f Some utf8_text_append [OF utf8_text_rune [OF u(1)]] u(2) 
      by (simp add: scanText_Some take_add add.commute)
  qed
qed

lemma not_completed:
  assumes "FullRune p" "DecodeRune p = None"
  shows "\<not> utf8_text (p @ r)"
proof
  assume "utf8_text (p @ r)"
  then have "snd (scanText (p @ r)) = False"
    using scanText_text [of "p @ r" "[]"] by (simp add: scanText_partial FullRune_def)
  then show False
    using assms by (simp add: scanText_None FullRune_append DecodeRune_append)
qed

lemma scanText_zero:
  assumes "fst (scanText p) = 0"
  shows "snd (scanText p) \<longleftrightarrow> FullRune p \<and> DecodeRune p = None"
proof (cases "FullRune p")
  case True
  then show ?thesis
    using assms DecodeRune_size [of p]
    by (cases "DecodeRune p") (auto simp: scanText_None scanText_Some)
qed (simp add: scanText_partial)

lemma scanText_split:
  obtains t q where "p = t @ q" "utf8_text t" "fst (scanText p) = length t" "scanText q = (0, snd (scanText p))"
proof
  show "p = take (fst (scanText p)) p @ drop (fst (scanText p)) p"
    by simp
  show "fst (scanText p) = length (take (fst (scanText p)) p)"
    using scanText_bound [of p] by simp
qed (use scanText_result [of p] in auto)

lemma scanText_append_invalid:
  assumes "snd (scanText p)"
  shows "scanText (p @ r) = scanText p"
proof -
  obtain t q where p: "p = t @ q" "utf8_text t" "fst (scanText p) = length t" "scanText q = (0, True)"
    using scanText_split [of p] assms by (metis (full_types))
  have "FullRune q" "DecodeRune q = None"
    using scanText_zero [of q] p(4) by auto
  then have "scanText (q @ r) = (0, True)"
    by (simp add: scanText_None FullRune_append DecodeRune_append)
  then show ?thesis
    using scanText_text [OF p(2)] p(1,4) by simp
qed

lemma scanText_append:
  "scanText (p @ r) =
     (let n = fst (scanText p); q = scanText (drop n p @ r) in (n + fst q, snd q))"
proof -
  obtain t q where p: "p = t @ q" "utf8_text t" "fst (scanText p) = length t"
    using scanText_split [of p] by metis
  then show ?thesis
    using scanText_text [OF p(2), of "q @ r"] by (simp add: Let_def)
qed

text \<open>The scan reports invalid bytes exactly if nothing that follows them could make the whole a text.\<close>

lemma scanText_invalid: "snd (scanText p) \<longleftrightarrow> \<not> (\<exists>r. utf8_text (p @ r))"
proof
  assume i: "snd (scanText p)"
  show "\<not> (\<exists>r. utf8_text (p @ r))"
  proof
    assume "\<exists>r. utf8_text (p @ r)"
    then obtain r where "utf8_text (p @ r)" ..
    then have "\<not> snd (scanText (p @ r))"
      using scanText_text [of "p @ r" "[]"] by (simp add: scanText_partial FullRune_def)
    then show False
      using scanText_append_invalid [OF i] i by simp
  qed
next
  assume n: "\<not> (\<exists>r. utf8_text (p @ r))"
  obtain t q where p: "p = t @ q" "utf8_text t" "scanText q = (0, snd (scanText p))"
    using scanText_split [of p] by metis
  have "q \<noteq> []"
    using n p(1,2) by auto (metis append_Nil2)
  show "snd (scanText p)"
  proof (rule ccontr)
    assume "\<not> snd (scanText p)"
    then have q: "scanText q = (0, False)"
      using p(3) by simp
    have "\<not> FullRune q"
    proof
      assume f: "FullRune q"
      then have "DecodeRune q \<noteq> None"
        using q scanText_zero [of q] by simp
      then show False
        using f q DecodeRune_size [of q] by (auto simp: scanText_Some)
    qed
    then obtain r where r: "DecodeRune (q @ r) = Some (length (q @ r))"
      using FullRune_completable \<open>q \<noteq> []\<close> by blast
    then have "utf8_text (q @ r)"
      using DecodeRune_rune [OF r] utf8_text_rune by auto
    then show False
      using n p(1,2) utf8_text_append [of t "q @ r"] by auto
  qed
qed

lemma scanText_longest: "utf8_text t \<Longrightarrow> p = t @ r \<Longrightarrow> length t \<le> fst (scanText p)"
  by (simp add: scanText_text)

lemma scanText_whole: "utf8_text p \<longleftrightarrow> fst (scanText p) = length p"
  using scanText_text [of p "[]"] scanText_result [of p] by (auto simp: scanText_partial FullRune_def)

section \<open>A stream of records does not depend on how the bytes arrive\<close>

text \<open>
  What a reader has delivered: the bytes up to its first error, a hundred calls in a row without
  data or error being an error as well.
\<close>

fun received :: "nat \<Rightarrow> (string \<times> err option) list \<Rightarrow> string \<times> err option" where
  "received k [] = ([], None)"
| "received k ((d, e) # rds) =
     (if d = [] \<and> e = None then if k + 1 < 100 then received (k + 1) rds else ([], Some errNoProgress)
      else case e of
        Some x \<Rightarrow> (d, Some x)
      | None \<Rightarrow> (case received 0 rds of (s, f) \<Rightarrow> (d @ s, f)))"

fun lineData :: "log_line \<Rightarrow> string" where
  "lineData (Text kind d) = d"
| "lineData (Failure s) = []"

definition textOf :: "log_line list \<Rightarrow> string" where
  "textOf ls = concat (map lineData ls)"

definition scanned :: "string \<Rightarrow> string" where
  "scanned s = take (fst (scanText (bytes_of s))) s"

definition failureOf :: "string \<Rightarrow> string \<Rightarrow> err option \<Rightarrow> log_line list" where
  "failureOf kind s e =
     (if snd (scanText (bytes_of s)) \<or> isEOF e \<and> scanned s \<noteq> s then [invalidText kind]
      else case e of None \<Rightarrow> [] | Some x \<Rightarrow> if errors_is x EOF then [] else [readFailure kind x])"

lemma failure_simps [simp]:
  "isFailure (invalidText kind)" "isFailure (readFailure kind x)"
  "lineData (invalidText kind) = []" "lineData (readFailure kind x) = []"
  by (simp_all add: invalidText_def readFailure_def)

lemma textOf_simps [simp]:
  "textOf [] = []" "textOf (l # ls) = lineData l @ textOf ls" "textOf (a @ b) = textOf a @ textOf b"
  by (simp_all add: textOf_def)

lemma scanned_append:
  "scanned (a @ b) = scanned a @ scanned (drop (length (scanned a)) a @ b)"
  "snd (scanText (bytes_of (a @ b))) = snd (scanText (bytes_of (drop (length (scanned a)) a @ b)))"
  using scanText_bound [of "bytes_of a"]
  by (simp_all add: scanned_def scanText_append [of "bytes_of a" "bytes_of b"] Let_def take_add add.commute)

lemma scanned_whole: "fst (scanText (bytes_of s)) = length s \<longleftrightarrow> scanned s = s"
  using scanText_bound [of "bytes_of s"] by (auto simp: scanned_def min_def dest: arg_cong [where f = length])

lemma length_scanned: "length (scanned s) = fst (scanText (bytes_of s))"
  using scanText_bound [of "bytes_of s"] by (simp add: scanned_def)

text \<open>One read handled at the end of a stream, or in the middle of it.\<close>

lemma handleRead_end:
  "handleRead kind c d (Some x) =
     ((if scanned (c @ d) = [] then [] else [Text kind (scanned (c @ d))]) @ failureOf kind (c @ d) (Some x), Done)"
  using scanText_bound [of "bytes_of (c @ d)"] scanned_whole [of "c @ d"]
  by (auto simp: handleRead_def failureOf_def Let_def isEOF_def scanned_def split: prod.split)

lemma handleRead_more:
  "\<not> snd (scanText (bytes_of (c @ d))) \<Longrightarrow>
   handleRead kind c d None =
     (if scanned (c @ d) = [] then [] else [Text kind (scanned (c @ d))],
      More \<lparr>sr_carry = drop (length (scanned (c @ d))) (c @ d), sr_empty = 0\<rparr>)"
  unfolding length_scanned using scanText_bound [of "bytes_of (c @ d)"]
  by (auto simp: handleRead_def Let_def isEOF_def scanned_def split: prod.split)

lemma handleRead_invalid:
  "snd (scanText (bytes_of (c @ d))) \<Longrightarrow>
   handleRead kind c d None =
     ((if scanned (c @ d) = [] then [] else [Text kind (scanned (c @ d))]) @ [invalidText kind], Done)"
  using scanText_bound [of "bytes_of (c @ d)"]
  by (auto simp: handleRead_def Let_def scanned_def split: prod.split)

lemma scanned_invalid:
  assumes "snd (scanText (bytes_of a))"
  shows "scanned (a @ b) = scanned a" "snd (scanText (bytes_of (a @ b)))"
  using scanText_append_invalid [OF assms, of "bytes_of b"] scanText_bound [of "bytes_of a"] assms
  by (simp_all add: scanned_def)

lemma scanned_rest:
  "\<not> snd (scanText (bytes_of a)) \<Longrightarrow>
   scanText (bytes_of (drop (length (scanned a)) a)) = (0, False)"
  unfolding length_scanned using scanText_result [of "bytes_of a"] by simp

text \<open>What follows in a stream: the records before it are its text, and what is carried over begins it.\<close>

lemma failureOf_append:
  "failureOf kind (a @ b) e = failureOf kind (drop (length (scanned a)) a @ b) e"
proof -
  have "scanned (a @ b) = a @ b \<longleftrightarrow>
    scanned (drop (length (scanned a)) a @ b) = drop (length (scanned a)) a @ b"
    using append_take_drop_id [of "length (scanned a)" a] length_scanned [of a]
    unfolding scanned_append(1) [of a b] by (metis append_assoc same_append_eq scanned_def)
  then show ?thesis
    unfolding failureOf_def scanned_append(2) [of a b] by simp
qed

lemma failureOf_lines [simp]:
  "textOf (failureOf kind s e) = []" "filter isFailure (failureOf kind s e) = failureOf kind s e"
  by (simp_all add: failureOf_def split: option.split)

lemma readStream_result:
  assumes "scanText (bytes_of (sr_carry r)) = (0, False)"
    and "received (sr_empty r) rds = (s, e)"
  shows "textOf (readStream kind r rds) = scanned (sr_carry r @ s) \<and>
    filter isFailure (readStream kind r rds) = failureOf kind (sr_carry r @ s) e"
  using assms
proof (induction rds arbitrary: r s e)
  case Nil
  then show ?case
    by (simp add: scanned_def failureOf_def isEOF_def)
next
  case (Cons rd rds)
  obtain d f where rd: "rd = (d, f)"
    by (cases rd)
  consider (empty) "d = []" "f = None" "sr_empty r + 1 < 100"
    | (stuck) "d = []" "f = None" "\<not> sr_empty r + 1 < 100"
    | (last) x where "f = Some x"
    | (data) "d \<noteq> []" "f = None"
    by (cases f) auto
  then show ?case
  proof cases
    case empty
    then show ?thesis
      using Cons.IH [of "r\<lparr>sr_empty := sr_empty r + 1\<rparr>" s e] Cons.prems by (simp add: rd readStep_def)
  next
    case stuck
    then have "s = []" "e = Some errNoProgress"
      using Cons.prems(2) by (simp_all add: rd)
    then show ?thesis
      using stuck by (simp add: rd readStep_def handleRead_end)
  next
    case last
    then show ?thesis
      using Cons.prems by (auto simp: rd readStep_def handleRead_end)
  next
    case data
    obtain t where t: "received 0 rds = (t, e)" "s = d @ t"
      using Cons.prems(2) data by (auto simp: rd split: prod.splits)
    let ?c = "sr_carry r"
    show ?thesis
    proof (cases "snd (scanText (bytes_of (?c @ d)))")
      case True
      then show ?thesis
        using scanned_invalid [OF True, of t] data t(2)
        by (simp add: rd readStep_def handleRead_invalid failureOf_def)
    next
      case False
      let ?r = "\<lparr>sr_carry = drop (length (scanned (?c @ d))) (?c @ d), sr_empty = 0\<rparr>"
      have "textOf (readStream kind ?r rds) = scanned (sr_carry ?r @ t) \<and>
        filter isFailure (readStream kind ?r rds) = failureOf kind (sr_carry ?r @ t) e"
        using Cons.IH [of ?r t e] scanned_rest [OF False] t(1) by simp
      then show ?thesis
        using data t(2) scanned_append(1) [of "?c @ d" t] failureOf_append [of kind "?c @ d" t e]
        by (simp add: rd readStep_def handleRead_more [OF False])
    qed
  qed
qed

section \<open>What the caller reads\<close>

text \<open>
  C26: The text that \<open>streamLogs\<close> sends for one stream does not depend on how the bytes were cut into
  reads. It is the longest beginning of what the reader delivered that is the UTF-8 encoding of
  Unicode scalar values; and it is followed by a failure record exactly when bytes follow that no
  continuation could make into text, when the source ended inside a rune, or when the source failed.
\<close>

theorem log_text_is_the_longest_unicode_text:
  assumes "received 0 rds = (s, e)" "readStream kind newStream rds = ls"
  shows "(\<exists>r. s = textOf ls @ r) \<and> utf8_text (bytes_of (textOf ls)) \<and>
    (\<forall>t r. s = t @ r \<longrightarrow> utf8_text (bytes_of t) \<longrightarrow> length t \<le> length (textOf ls)) \<and>
    filter isFailure ls =
      (if (\<nexists>r. utf8_text (bytes_of s @ r)) \<or> isEOF e \<and> \<not> utf8_text (bytes_of s) then [invalidText kind]
       else case e of None \<Rightarrow> [] | Some x \<Rightarrow> if errors_is x EOF then [] else [readFailure kind x])"
proof -
  have r: "textOf ls = scanned s" "filter isFailure ls = failureOf kind s e"
    using readStream_result [of newStream rds s e kind] assms
    by (simp_all add: newStream_def scanText_partial FullRune_def)
  have "\<exists>r. s = scanned s @ r"
    unfolding scanned_def by (metis append_take_drop_id)
  moreover have "utf8_text (bytes_of (scanned s))"
    using scanText_result [of "bytes_of s"] by (simp add: scanned_def)
  moreover have "length t \<le> length (scanned s)" if "s = t @ r" "utf8_text (bytes_of t)" for t r
    using scanText_longest [OF that(2), of "bytes_of s" "bytes_of r"] that(1) by (simp add: length_scanned)
  moreover have "scanned s = s \<longleftrightarrow> utf8_text (bytes_of s)"
    by (simp add: scanText_whole scanned_whole)
  ultimately show ?thesis
    using scanText_invalid [of "bytes_of s"] unfolding r failureOf_def by auto
qed

lemma log_text_is_the_longest_unicode_text_witness:
  "let ls = readStream ''stdout'' newStream
     [([CHR ''a'', CHR 0xE2], None), ([], None), ([CHR 0x82, CHR 0xAC, CHR 0xC3], Some EOF)] in
   (\<exists>r. [CHR ''a'', CHR 0xE2, CHR 0x82, CHR 0xAC, CHR 0xC3] = textOf ls @ r) \<and> utf8_text (bytes_of (textOf ls))"
  unfolding Let_def
  using log_text_is_the_longest_unicode_text
    [of "[([CHR ''a'', CHR 0xE2], None), ([], None), ([CHR 0x82, CHR 0xAC, CHR 0xC3], Some EOF)]"
        "[CHR ''a'', CHR 0xE2, CHR 0x82, CHR 0xAC, CHR 0xC3]" "Some EOF" "''stdout''"]
  by simp

lemma log_text_evaluates:
  "readStream ''stdout'' newStream
     [([CHR ''a'', CHR 0xE2], None), ([], None), ([CHR 0x82, CHR 0xAC, CHR 0xC3], Some EOF)] =
   [Text ''stdout'' ''a'', Text ''stdout'' [CHR 0xE2, CHR 0x82, CHR 0xAC], invalidText ''stdout'']"
  by code_simp

definition kindText :: "string \<Rightarrow> log_line list \<Rightarrow> string" where
  "kindText kind ls = textOf (filter (\<lambda>l. case l of Text k d \<Rightarrow> k = kind | Failure s \<Rightarrow> False) ls)"

definition soundLine :: "string set \<Rightarrow> log_line \<Rightarrow> bool" where
  "soundLine kinds l = (case l of Failure s \<Rightarrow> True
     | Text k d \<Rightarrow> k \<in> kinds \<and> d \<noteq> [] \<and> utf8_text (bytes_of d))"

lemma handleRead_sound: "handleRead kind c d e = (sent, p) \<Longrightarrow> l \<in> set sent \<Longrightarrow> soundLine {kind} l"
  using scanText_result [of "bytes_of (c @ d)"] scanText_bound [of "bytes_of (c @ d)"]
  by (auto simp: handleRead_def soundLine_def invalidText_def readFailure_def Let_def
      split: prod.splits if_splits option.splits)

lemma readStep_sound: "readStep kind r rd = (sent, p) \<Longrightarrow> l \<in> set sent \<Longrightarrow> soundLine {kind} l"
  by (auto simp: readStep_def dest: handleRead_sound split: if_splits)

lemma readStream_sound: "l \<in> set (readStream kind r rds) \<Longrightarrow> soundLine {kind} l"
proof (induction rds arbitrary: r)
  case (Cons rd rds)
  obtain sent p where s: "readStep kind r rd = (sent, p)"
    by fastforce
  show ?case
    using Cons readStep_sound [OF s] by (cases p) (auto simp: s)
qed simp

lemma kindText_one:
  assumes "\<And>l. l \<in> set ls \<Longrightarrow> soundLine {kind} l"
  shows "kindText k ls = (if k = kind then textOf ls else [])"
  using assms
proof (induction ls)
  case (Cons l ls)
  have "soundLine {kind} l"
    using Cons.prems by simp
  then show ?case
    using Cons by (cases l) (auto simp: kindText_def soundLine_def)
qed (simp add: kindText_def)

lemma kindText_append [simp]: "kindText k (a @ b) = kindText k a @ kindText k b"
  by (simp add: kindText_def)

lemma kindText_readStream:
  "kindText k (readStream kind r rds) = (if k = kind then textOf (readStream kind r rds) else [])"
  by (rule kindText_one) (rule readStream_sound)

lemma kindText_record: "l \<in> set (readStream kind r rds) \<Longrightarrow> k \<noteq> kind \<Longrightarrow> kindText k [l] = []"
  using kindText_one [of "[l]" kind k] readStream_sound [of l kind r rds] by simp

lemma kindText_Cons: "kindText k (l # ls) = kindText k [l] @ kindText k ls"
  using kindText_append [of k "[l]" ls] by simp

lemma kindText_shuffle:
  assumes "order \<in> shuffles a b" "\<And>l. l \<in> set b \<Longrightarrow> kindText k [l] = []"
  shows "kindText k order = kindText k a"
  using assms
proof (induction order arbitrary: a b)
  case (Cons l ls)
  then consider a' where "a = l # a'" "ls \<in> shuffles a' b" | b' where "b = l # b'" "ls \<in> shuffles a b'"
    by (auto simp: Cons_in_shuffles_iff neq_Nil_conv)
  then show ?case
    using Cons by cases (metis kindText_Cons, metis kindText_Cons append_Nil list.set_intros)
qed (simp add: kindText_def)

lemma writeLines_append: "\<exists>r. ls = writeLines ls @ r"
  by (induction ls) auto

lemma writeLines_failure: "writeLines ls = a @ l # b \<Longrightarrow> isFailure l \<Longrightarrow> b = []"
  by (induction ls arbitrary: a) (auto simp: Cons_eq_append_conv split: if_splits)

lemma textOf_received: "\<exists>r. fst (received 0 rds) = textOf (readStream kind newStream rds) @ r"
  using readStream_result [of newStream rds "fst (received 0 rds)" "snd (received 0 rds)" kind]
  by (simp add: newStream_def scanText_partial FullRune_def scanned_def)
    (metis append_take_drop_id)

text \<open>An interleaving of the records of both readers carries both texts.\<close>

lemma shuffled_records:
  assumes "order \<in> shuffles (readStream ''stdout'' newStream outs) (readStream ''stderr'' newStream errs)"
  shows "kindText ''stdout'' order = textOf (readStream ''stdout'' newStream outs)"
    "kindText ''stderr'' order = textOf (readStream ''stderr'' newStream errs)"
    "l \<in> set order \<Longrightarrow> soundLine {''stdout'', ''stderr''} l"
proof -
  let ?a = "readStream ''stdout'' newStream outs" and ?b = "readStream ''stderr'' newStream errs"
  show "kindText ''stdout'' order = textOf ?a"
    using kindText_shuffle [OF assms, of "''stdout''"] by (simp add: kindText_readStream kindText_record)
  show "kindText ''stderr'' order = textOf ?b"
    using kindText_shuffle [of order ?b ?a "''stderr''"] assms
    by (simp add: shuffles_commutes kindText_readStream kindText_record)
  assume "l \<in> set order"
  then have "l \<in> set ?a \<union> set ?b"
    using set_shuffles [OF assms] by auto
  then show "soundLine {''stdout'', ''stderr''} l"
    using readStream_sound [of l] by (fastforce simp: soundLine_def split: log_line.splits)
qed

text \<open>
  Whatever the interleaving of the two readers and wherever the caller leaves, the response
  carries for each stream a beginning of what its reader delivered, in order; every record of data
  is nonempty UTF-8 text; and an error record is the last one.
\<close>

theorem log_response_is_sound:
  assumes "log_response outs errs ls"
  shows "(\<exists>r. fst (received 0 outs) = kindText ''stdout'' ls @ r) \<and>
    (\<exists>r. fst (received 0 errs) = kindText ''stderr'' ls @ r) \<and>
    (\<forall>l \<in> set ls. soundLine {''stdout'', ''stderr''} l) \<and>
    (\<forall>a l b. ls = a @ l # b \<longrightarrow> isFailure l \<longrightarrow> b = [])"
proof -
  let ?a = "readStream ''stdout'' newStream outs" and ?b = "readStream ''stderr'' newStream errs"
  obtain order n where o: "order \<in> shuffles ?a ?b" "ls = take n (writeLines order)"
    using assms by (auto simp: log_response_def)
  obtain r where r: "order = ls @ r"
    using writeLines_append [of order] append_take_drop_id [of n "writeLines order"] o(2) by (metis append.assoc)
  note out = shuffled_records(1) [OF o(1)] and er = shuffled_records(2) [OF o(1)]
  have "\<exists>q. fst (received 0 outs) = kindText ''stdout'' ls @ q"
    using textOf_received [of outs "''stdout''"] by (metis out r kindText_append append.assoc)
  moreover have "\<exists>q. fst (received 0 errs) = kindText ''stderr'' ls @ q"
    using textOf_received [of errs "''stderr''"] by (metis er r kindText_append append.assoc)
  moreover have "soundLine {''stdout'', ''stderr''} l" if "l \<in> set ls" for l
    using shuffled_records(3) [OF o(1), of l] that r by simp
  moreover have "b = []" if "ls = a @ l # b" "isFailure l" for a l b
    using writeLines_failure [of order a l "b @ drop n (writeLines order)"] that o(2)
      append_take_drop_id [of n "writeLines order"] by simp
  ultimately show ?thesis
    by blast
qed

lemma log_response_is_sound_witness:
  "soundLine {''stdout'', ''stderr''} (Text ''stdout'' ''ok'') \<and> soundLine {''stdout'', ''stderr''} (invalidText ''stderr'') \<and>
   (\<exists>r. ''ok'' = kindText ''stdout'' [Text ''stdout'' ''ok'', invalidText ''stderr''] @ r)"
proof -
  have "Text ''stdout'' ''ok'' # [invalidText ''stderr''] \<in>
    shuffles (readStream ''stdout'' newStream [(''ok'', Some EOF)]) (readStream ''stderr'' newStream [([CHR 0xFF], None)])"
    by code_simp
  then have "log_response [(''ok'', Some EOF)] [([CHR 0xFF], None)] [Text ''stdout'' ''ok'', invalidText ''stderr'']"
    unfolding log_response_def by (intro exI [of _ "[Text ''stdout'' ''ok'', invalidText ''stderr'']"] exI [of _ 2]) simp
  from log_response_is_sound [OF this] show ?thesis
    by simp
qed

end
