(* ===== verification/Http_Api.thy ===== *)
theory Http_Api
  imports Api_Facade Log_Stream
begin

text \<open>
  \<open>src/internal/api/handler.go\<close>, \<open>errors.go\<close> and \<open>middleware.go\<close>: the REST handlers. A handler takes what gin has
  decoded of the request (path and query parameters, and the bound body or the message of the binding
  error) and gives the response and the new world. The routing table, gin's binding and the JSON
  encoding are the framework's; a response body is the value that is encoded.
\<close>

section \<open>Responses\<close>

text \<open>A message: a text of the handler, or \<open>err.Error()\<close> of an error.\<close>

datatype message = Literal string | TextOf err

datatype body =
    NoBody
  | ErrorBody string message
  | HealthBody string "message option"
  | StatusBody string
  | SandboxesBody "summary_view list" "string option"
  | CreatedBody created_view
  | DetailBody detail_view
  | RestartBody restart_response
  | StatsBody usage
  | NetworkBody sandbox_network
  | CommandBody command_detail
  | CommandsBody "command_detail list"
  | LogsBody logs_response
  | LogLines "log_line list \<Rightarrow> bool"
  | CommandLines "command_detail list"
  | FileBody string string
  | WrittenBody string string
  | ListingBody string string
  | RenewedBody string int
  | PulledBody string string
  | ImagesBody "image_summary list" "string option"
  | ImageBody image_detail

record response =
  r_status :: nat
  r_body :: body

type_synonym 'w handler = "'w \<Rightarrow> response \<times> 'w"

definition json :: "nat \<Rightarrow> body \<Rightarrow> response" where
  "json s b = \<lparr>r_status = s, r_body = b\<rparr>"

definition badRequest :: "message \<Rightarrow> response" where
  "badRequest msg = json 400 (ErrorBody ''BAD_REQUEST'' msg)"

definition notFound :: "string \<Rightarrow> response" where
  "notFound resource = json 404 (ErrorBody ''NOT_FOUND'' (Literal (resource @ '' not found'')))"

definition conflict :: "message \<Rightarrow> response" where
  "conflict msg = json 409 (ErrorBody ''CONFLICT'' msg)"

definition requestTimeout :: "message \<Rightarrow> response" where
  "requestTimeout msg = json 408 (ErrorBody ''TIMEOUT'' msg)"

definition internalError :: "err \<Rightarrow> response" where
  "internalError e =
     (if errors_is e ErrUnsupported \<or> errors_is e ErrInvalidInput then badRequest (TextOf e)
      else if errors_is e ErrNotFound then notFound ''sandbox''
      else if errors_is e ErrImageNotFound
      then badRequest (Literal ''image not found locally, use POST /v1/images/pull to download it first'')
      else if errors_is e ErrAlreadyRunning then conflict (TextOf e)
      else if errors_is e ErrAlreadyStopped then conflict (TextOf e)
      else if errors_is e ErrAlreadyPaused then conflict (TextOf e)
      else if errors_is e ErrNotPaused then conflict (TextOf e)
      else if errors_is e ErrNotRunning then conflict (TextOf e)
      else if errors_is e ErrCommandNotFound then notFound ''command''
      else if errors_is e ErrCommandFinished then conflict (TextOf e)
      else if errors_is e DeadlineExceeded then requestTimeout (Literal ''operation timed out'')
      else json 500 (ErrorBody ''INTERNAL_ERROR'' (TextOf e)))"

text \<open>\<open>x, err := m(); if err != nil { internalError(c, err); return }; c.JSON(...)\<close>\<close>

definition respond :: "('w, 'a) prog \<Rightarrow> ('a \<Rightarrow> response) \<Rightarrow> 'w handler" where
  "respond m k = (\<lambda>w. case m w of (Inl e, w') \<Rightarrow> (internalError e, w') | (Inr x, w') \<Rightarrow> (k x, w'))"

definition refuse :: "message \<Rightarrow> 'w handler" where
  "refuse msg = (\<lambda>w. (badRequest msg, w))"

section \<open>Sandboxes\<close>

definition healthCheck :: "'w application \<Rightarrow> 'w handler" where
  "healthCheck app = (\<lambda>w. case app_Ping app w of
     (Inl e, w') \<Rightarrow> (json 503 (HealthBody ''unhealthy'' (Some (TextOf e))), w')
   | (Inr _, w') \<Rightarrow> (json 200 (HealthBody ''healthy'' None), w'))"

definition listSandboxes :: "'w application \<Rightarrow> 'w handler" where
  "listSandboxes app = respond (facadeList app) (\<lambda>items.
     json 200 (SandboxesBody items (if items = [] then Some ''no sandboxes found'' else None)))"

definition createSandbox :: "'w application \<Rightarrow> string + create_body \<Rightarrow> 'w handler" where
  "createSandbox app body = (case body of
     Inl e \<Rightarrow> refuse (Literal e)
   | Inr req \<Rightarrow>
       if cb_Timeout req < 0 then refuse (Literal ''timeout must be >= 0'')
       else (case (case cb_Resources req of
           None \<Rightarrow> None
         | Some r \<Rightarrow>
             if rl_Memory r < 0 then Some ''resources.memory must be >= 0''
             else if rl_Memory r > 8192 then Some ''resources.memory must be <= 8192 (8GB)''
             else if rl_CPUs r < 0 then Some ''resources.cpus must be >= 0''
             else if rl_CPUs r > 4 then Some ''resources.cpus must be <= 4.0''
             else None) of
         Some msg \<Rightarrow> refuse (Literal msg)
       | None \<Rightarrow> respond (facadeCreate app req) (\<lambda>x. json 201 (CreatedBody x))))"

definition getSandbox :: "'w application \<Rightarrow> string \<Rightarrow> 'w handler" where
  "getSandbox app i = respond (facadeInspect app i) (\<lambda>x. json 200 (DetailBody x))"

definition startSandbox :: "'w application \<Rightarrow> string \<Rightarrow> 'w handler" where
  "startSandbox app i = respond (facadeStart app i) (\<lambda>x. json 200 (RestartBody x))"

definition stopSandbox :: "'w application \<Rightarrow> string \<Rightarrow> 'w handler" where
  "stopSandbox app i = respond (app_Stop app i) (\<lambda>_. json 200 (StatusBody ''stopped''))"

definition restartSandbox :: "'w application \<Rightarrow> string \<Rightarrow> 'w handler" where
  "restartSandbox app i = respond (facadeRestart app i) (\<lambda>x. json 200 (RestartBody x))"

definition deleteSandbox :: "'w application \<Rightarrow> string \<Rightarrow> 'w handler" where
  "deleteSandbox app i = respond (app_Remove app i) (\<lambda>_. json 204 NoBody)"

definition getStats :: "'w application \<Rightarrow> string \<Rightarrow> 'w handler" where
  "getStats app i = respond (app_Stats app i) (\<lambda>x. json 200 (StatsBody x))"

definition pauseSandbox :: "'w application \<Rightarrow> string \<Rightarrow> 'w handler" where
  "pauseSandbox app i = respond (app_Pause app i) (\<lambda>_. json 200 (StatusBody ''paused''))"

definition resumeSandbox :: "'w application \<Rightarrow> string \<Rightarrow> 'w handler" where
  "resumeSandbox app i = respond (app_Resume app i) (\<lambda>_. json 200 (StatusBody ''resumed''))"

definition renewExpiration :: "'w application \<Rightarrow> string \<Rightarrow> string + int \<Rightarrow> 'w handler" where
  "renewExpiration app i body = (case body of
     Inl e \<Rightarrow> refuse (Literal e)
   | Inr timeout \<Rightarrow>
       if timeout \<le> 0 then refuse (Literal ''timeout must be > 0'')
       else respond (facadeRenew app i timeout) (\<lambda>_. json 200 (RenewedBody ''renewed'' timeout)))"

definition getSandboxNetwork :: "'w application \<Rightarrow> string \<Rightarrow> 'w handler" where
  "getSandboxNetwork app i = respond (facadeGetNetwork app i) (\<lambda>x. json 200 (NetworkBody x))"

section \<open>Commands\<close>

text \<open>A stream of the states of a command; an error ends it, the status line having been sent.\<close>

definition streamWait :: "'w application \<Rightarrow> string \<Rightarrow> string \<Rightarrow> 'w handler" where
  "streamWait app i c = (\<lambda>w. case app_GetCommand app i c w of
     (Inl e, w') \<Rightarrow> (json 200 (CommandLines []), w')
   | (Inr x, w') \<Rightarrow> (case app_WaitCommand app i c w' of
       (Inl e, w'') \<Rightarrow> (json 200 (CommandLines [x]), w'')
     | (Inr y, w'') \<Rightarrow> (json 200 (CommandLines [x, y]), w'')))"

definition execCommand :: "'w application \<Rightarrow> string \<Rightarrow> bool \<Rightarrow> string + exec_request \<Rightarrow> 'w handler" where
  "execCommand app i wait body = (case body of
     Inl e \<Rightarrow> refuse (Literal e)
   | Inr req \<Rightarrow> (\<lambda>w. case app_ExecCommand app i req w of
       (Inl e, w') \<Rightarrow> (internalError e, w')
     | (Inr cmd, w') \<Rightarrow> if wait then streamWait app i (cd_ID cmd) w' else (json 200 (CommandBody cmd), w')))"

definition listCommands :: "'w application \<Rightarrow> string \<Rightarrow> 'w handler" where
  "listCommands app i = respond (app_ListCommands app i) (\<lambda>cmds. json 200 (CommandsBody cmds))"

definition getCommand :: "'w application \<Rightarrow> string \<Rightarrow> string \<Rightarrow> bool \<Rightarrow> 'w handler" where
  "getCommand app i c wait = (\<lambda>w. case app_GetCommand app i c w of
     (Inl e, w') \<Rightarrow> (internalError e, w')
   | (Inr cmd, w') \<Rightarrow> if wait then streamWait app i c w' else (json 200 (CommandBody cmd), w'))"

definition killCommand :: "'w application \<Rightarrow> string \<Rightarrow> string \<Rightarrow> string + int \<Rightarrow> 'w handler" where
  "killCommand app i c body = (case body of
     Inl e \<Rightarrow> refuse (Literal e)
   | Inr signal \<Rightarrow> respond (app_KillCommand app i c signal) (\<lambda>cmd. json 200 (CommandBody cmd)))"

text \<open>The stream of a command's logs: any of the responses that its two readers allow.\<close>

definition streamLogs :: "'w application \<Rightarrow> string \<Rightarrow> string \<Rightarrow> 'w handler" where
  "streamLogs app i c = respond (app_StreamCommandLogs app i c)
     (\<lambda>readers. json 200 (LogLines (log_response (fst readers) (snd readers))))"

definition getCommandLogs :: "'w application \<Rightarrow> string \<Rightarrow> string \<Rightarrow> bool \<Rightarrow> 'w handler" where
  "getCommandLogs app i c stream =
     (if stream then streamLogs app i c
      else respond (app_GetCommandLogs app i c) (\<lambda>x. json 200 (LogsBody x)))"

section \<open>Files\<close>

definition needPath :: "string \<Rightarrow> 'w handler \<Rightarrow> 'w handler" where
  "needPath path h = (if path = [] then refuse (Literal ''path query param is required'') else h)"

definition readFile_handler :: "'w application \<Rightarrow> string \<Rightarrow> string \<Rightarrow> 'w handler" where
  "readFile_handler app i path = needPath path
     (respond (app_ReadFile app i path) (\<lambda>content. json 200 (FileBody path content)))"

text \<open>
  What the two calls of the JSON decoder return: the first object with its \<open>content\<close> (absent or null:
  \<open>None\<close>) or the text of the error, and whether the second call ends with \<open>io.EOF\<close>.
\<close>

definition writeFile :: "'w application \<Rightarrow> string \<Rightarrow> string \<Rightarrow> string + string option \<Rightarrow> bool \<Rightarrow> 'w handler" where
  "writeFile app i path decoded ended = needPath path
     (case decoded of
        Inl e \<Rightarrow> refuse (Literal e)
      | Inr content \<Rightarrow>
          if \<not> ended then refuse (Literal ''body must contain exactly one JSON object'')
          else (case content of
            None \<Rightarrow> refuse (Literal ''content must be a string (empty text is allowed)'')
          | Some content0 \<Rightarrow> respond (app_WriteFile app i path content0) (\<lambda>_. json 200 (WrittenBody path ''written''))))"

definition deleteFile :: "'w application \<Rightarrow> string \<Rightarrow> string \<Rightarrow> 'w handler" where
  "deleteFile app i path = needPath path (respond (app_DeleteFile app i path) (\<lambda>_. json 204 NoBody))"

definition listDir :: "'w application \<Rightarrow> string \<Rightarrow> string option \<Rightarrow> 'w handler" where
  "listDir app i param = (let path = (case param of None \<Rightarrow> ''/'' | Some p \<Rightarrow> p) in
     respond (app_ListDir app i path) (\<lambda>output. json 200 (ListingBody path output)))"

section \<open>Images\<close>

definition pullImage_handler :: "'w application \<Rightarrow> string + string \<Rightarrow> 'w handler" where
  "pullImage_handler app body = (case body of
     Inl e \<Rightarrow> refuse (Literal e)
   | Inr ref \<Rightarrow> respond (app_PullImage app ref) (\<lambda>_. json 200 (PulledBody ''pulled'' ref)))"

definition deleteImage :: "'w application \<Rightarrow> string \<Rightarrow> bool \<Rightarrow> 'w handler" where
  "deleteImage app i force = (\<lambda>w. case app_RemoveImage app i force w of
     (Inl e, w') \<Rightarrow>
       (if errors_is e ErrImageNotFound then if force then json 204 NoBody else notFound ''image''
        else internalError e, w')
   | (Inr _, w') \<Rightarrow> (json 204 NoBody, w'))"

definition getImage :: "'w application \<Rightarrow> string \<Rightarrow> 'w handler" where
  "getImage app i = (\<lambda>w. case app_InspectImage app i w of
     (Inl e, w') \<Rightarrow> (if errors_is e ErrImageNotFound then notFound ''image'' else internalError e, w')
   | (Inr x, w') \<Rightarrow> (json 200 (ImageBody x), w'))"

definition listImages :: "'w application \<Rightarrow> 'w handler" where
  "listImages app = respond (app_ListImages app) (\<lambda>items.
     json 200 (ImagesBody items (if items = [] then Some ''no images found'' else None)))"

section \<open>The API key\<close>

definition cutPrefix :: "string \<Rightarrow> string \<Rightarrow> string \<times> bool" where
  "cutPrefix s p = (if hasPrefix s p then (drop (length p) s, True) else (s, False))"

text \<open>\<open>header\<close>: the first \<open>Authorization\<close> header, empty if there is none.\<close>

definition APIKeyAuth :: "string \<Rightarrow> string \<Rightarrow> 'w handler \<Rightarrow> 'w handler" where
  "APIKeyAuth key header h = (case cutPrefix header ''Bearer '' of (token, found) \<Rightarrow>
     if \<not> found \<or> token \<noteq> key
     then (\<lambda>w. (json 401 (ErrorBody ''UNAUTHORIZED'' (Literal ''invalid or missing api key'')), w))
     else h)"

end
