(* ===== verification/Api_Props.thy ===== *)
theory Api_Props
  imports Mcp_Tools
begin

text \<open>
  What the two transports promise: the status of an error, the checks on a request to create a sandbox, and
  that REST and MCP offer the same operations of the same application. The request type has one
  constructor per operation that both offer; \<open>rest\<close> and \<open>mcp\<close> name the handler and the tool.
\<close>

section \<open>The status of an error\<close>

definition apiErrors :: "err list" where
  "apiErrors = [ErrUnsupported, ErrInvalidInput, ErrNotFound, ErrImageNotFound, ErrAlreadyRunning, ErrAlreadyStopped,
     ErrAlreadyPaused, ErrNotPaused, ErrNotRunning, ErrCommandNotFound, ErrCommandFinished, DeadlineExceeded]"

lemmas response_defs = json_def badRequest_def notFound_def conflict_def requestTimeout_def

text \<open>
  The status of an error response depends only on the sentinel errors that the error wraps: context
  added to an error, a recovery marker or a join around it never changes the status, and the status is
  500 exactly when none of the twelve known errors is wrapped.
\<close>

theorem error_status_ignores_context:
  "r_status (internalError (Wrap s e)) = r_status (internalError e) \<and>
   r_status (internalError (Deferred e)) = r_status (internalError e) \<and>
   r_status (internalError (Join [e])) = r_status (internalError e) \<and>
   r_status (internalError e) \<in> {400, 404, 408, 409, 500} \<and>
   (r_status (internalError e) = 500 \<longleftrightarrow> \<not> list_ex (errors_is e) apiErrors)"
proof (intro conjI)
  show "r_status (internalError e) \<in> {400, 404, 408, 409, 500}"
    by (simp add: internalError_def response_defs)
  show "r_status (internalError e) = 500 \<longleftrightarrow> \<not> list_ex (errors_is e) apiErrors"
    by (simp add: internalError_def response_defs apiErrors_def)
qed (simp_all add: internalError_def response_defs)

lemma internalError_fails [simp]: "400 \<le> r_status (internalError e)"
  by (simp add: internalError_def response_defs)

section \<open>Requests to create a sandbox\<close>

text \<open>The checks of the handler, and the options that the facade makes of a request.\<close>

definition withinLimits :: "create_body \<Rightarrow> bool" where
  "withinLimits req \<longleftrightarrow> 0 \<le> cb_Timeout req \<and> (case cb_Resources req of None \<Rightarrow> True
     | Some r \<Rightarrow> 0 \<le> rl_Memory r \<and> rl_Memory r \<le> 8192 \<and> 0 \<le> rl_CPUs r \<and> rl_CPUs r \<le> 4)"

definition createOpts :: "create_body \<Rightarrow> port list \<Rightarrow> int \<Rightarrow> create_opts" where
  "createOpts req ports d = (let resources = (case cb_Resources req of None \<Rightarrow> (0, 0) | Some r \<Rightarrow> (rl_Memory r, rl_CPUs r)) in
     \<lparr>co_Image = cb_Image req, co_Ports = ports, co_Timeout = d,
      co_Memory = fst resources, co_CPUs = Finite (snd resources), co_Env = cb_Env req\<rparr>)"

lemma createOpts_timeout [simp]: "co_Timeout (createOpts req ports d) = d"
  by (simp add: createOpts_def Let_def)

lemma facadeCreate_calls:
  "ParsePorts (cb_Ports req) = Inr ports \<Longrightarrow> duration (cb_Timeout req) = Inr d \<Longrightarrow>
   facadeCreate app req = andThen (app_Create app (createOpts req ports d)) (\<lambda>x.
     ret \<lparr>cv_ID = cre_ID x, cv_Name = cre_Name x, cv_Ports = PortStrings (cre_Ports x), cv_URL = cre_URL x\<rparr>)"
  by (simp add: facadeCreate_def fromErr_def createOpts_def Let_def andThen_def ret_def)

lemma facadeCreate_refuses:
  assumes "\<not> (\<exists>ports d. ParsePorts (cb_Ports req) = Inr ports \<and> duration (cb_Timeout req) = Inr d)"
  shows "\<exists>s. facadeCreate app req = throw (Wrap s ErrInvalidInput)"
  using assms
  by (cases "ParsePorts (cb_Ports req)"; cases "duration (cb_Timeout req)")
    (auto simp: facadeCreate_def fromErr_def andThen_def throw_def duration_def split: if_splits)

lemma createOpts_checked:
  assumes "withinLimits req" "ParsePorts (cb_Ports req) = Inr ports" "duration (cb_Timeout req) = Inr d"
  shows "cap_FractionalCPU caps \<Longrightarrow> checkOptions caps (createOpts req ports d) = None"
proof -
  have "port_wf p" if "p \<in> set ports" for p
    using ParsePort_wf assms(2) that by (auto simp: ParsePorts_def map_err_Inr_iff list_all2_conv_all_nth in_set_conv_nth)
  then have "\<not> (\<exists>p \<in> set ports. \<exists>e. ParsePort (portString p) = Inl e)"
    using ParsePort_portString by fastforce
  moreover have "d smod Second = 0" "0 \<le> d"
    using duration_bounds [OF assms(3)] by (auto simp: signed_modulo_int_def Second_def abs_mult)
  ultimately show "cap_FractionalCPU caps \<Longrightarrow> checkOptions caps (createOpts req ports d) = None"
    using assms(1)
    by (auto simp: checkOptions_def invalidLimits_def createOpts_def withinLimits_def Let_def split: option.splits)
qed


section \<open>Two transports, one application\<close>

datatype api_request =
    Health | ListReq | CreateReq create_body | GetReq string | DeleteReq string | StartReq string | StopReq string
  | RestartReq string | PauseReq string | ResumeReq string | RenewReq string int | StatsReq string | NetworkReq string
  | ExecReq string exec_request | CommandsReq string | CommandReq string string | KillReq string string int
  | LogsReq string string | ReadReq string string | WriteReq string string string | RemoveFileReq string string
  | DirReq string string | ImagesReq | ImageReq string | PullReq string | RemoveImageReq string bool

fun rest :: "'w application \<Rightarrow> api_request \<Rightarrow> 'w handler" where
  "rest app Health = healthCheck app"
| "rest app ListReq = listSandboxes app"
| "rest app (CreateReq b) = createSandbox app (Inr b)"
| "rest app (GetReq i) = getSandbox app i"
| "rest app (DeleteReq i) = deleteSandbox app i"
| "rest app (StartReq i) = startSandbox app i"
| "rest app (StopReq i) = stopSandbox app i"
| "rest app (RestartReq i) = restartSandbox app i"
| "rest app (PauseReq i) = pauseSandbox app i"
| "rest app (ResumeReq i) = resumeSandbox app i"
| "rest app (RenewReq i t) = renewExpiration app i (Inr t)"
| "rest app (StatsReq i) = getStats app i"
| "rest app (NetworkReq i) = getSandboxNetwork app i"
| "rest app (ExecReq i r) = execCommand app i False (Inr r)"
| "rest app (CommandsReq i) = listCommands app i"
| "rest app (CommandReq i c) = getCommand app i c False"
| "rest app (KillReq i c s) = killCommand app i c (Inr s)"
| "rest app (LogsReq i c) = getCommandLogs app i c False"
| "rest app (ReadReq i p) = readFile_handler app i p"
| "rest app (WriteReq i p s) = writeFile app i p (Inr (Some s)) True"
| "rest app (RemoveFileReq i p) = deleteFile app i p"
| "rest app (DirReq i p) = listDir app i (if p = [] then None else Some p)"
| "rest app ImagesReq = listImages app"
| "rest app (ImageReq i) = getImage app i"
| "rest app (PullReq r) = pullImage_handler app (Inr r)"
| "rest app (RemoveImageReq i force) = deleteImage app i force"

fun mcp :: "'w application \<Rightarrow> api_request \<Rightarrow> ('w, body) prog" where
  "mcp app Health = system_health app"
| "mcp app ListReq = sandbox_list app"
| "mcp app (CreateReq b) = sandbox_create app b"
| "mcp app (GetReq i) = sandbox_get app i"
| "mcp app (DeleteReq i) = sandbox_delete app i"
| "mcp app (StartReq i) = sandbox_start app i"
| "mcp app (StopReq i) = sandbox_stop app i"
| "mcp app (RestartReq i) = sandbox_restart app i"
| "mcp app (PauseReq i) = sandbox_pause app i"
| "mcp app (ResumeReq i) = sandbox_resume app i"
| "mcp app (RenewReq i t) = sandbox_renew_expiration app i t"
| "mcp app (StatsReq i) = sandbox_stats app i"
| "mcp app (NetworkReq i) = sandbox_network_get app i"
| "mcp app (ExecReq i r) = command_exec app i r False"
| "mcp app (CommandsReq i) = command_list app i"
| "mcp app (CommandReq i c) = command_get app i c False"
| "mcp app (KillReq i c s) = command_kill app i c s"
| "mcp app (LogsReq i c) = command_logs app i c"
| "mcp app (ReadReq i p) = file_read app i p"
| "mcp app (WriteReq i p s) = file_write app i p s"
| "mcp app (RemoveFileReq i p) = file_delete app i p"
| "mcp app (DirReq i p) = file_list app i p"
| "mcp app ImagesReq = image_list app"
| "mcp app (ImageReq i) = image_get app i"
| "mcp app (PullReq r) = image_pull app r"
| "mcp app (RemoveImageReq i force) = image_delete app i force"

text \<open>What gin guarantees of a REST request: path parameters are not empty, nor are required fields.\<close>

fun bound :: "api_request \<Rightarrow> bool" where
  "bound (CreateReq b) \<longleftrightarrow> cb_Image b \<noteq> []"
| "bound (RenewReq i t) \<longleftrightarrow> i \<noteq> [] \<and> t \<noteq> 0"
| "bound (ExecReq i r) \<longleftrightarrow> i \<noteq> [] \<and> eq_Command r \<noteq> []"
| "bound (CommandReq i c) \<longleftrightarrow> i \<noteq> [] \<and> c \<noteq> []"
| "bound (KillReq i c s) \<longleftrightarrow> i \<noteq> [] \<and> c \<noteq> [] \<and> s \<noteq> 0"
| "bound (LogsReq i c) \<longleftrightarrow> i \<noteq> [] \<and> c \<noteq> []"
| "bound (PullReq r) \<longleftrightarrow> r \<noteq> []"
| "bound Health \<longleftrightarrow> True" | "bound ListReq \<longleftrightarrow> True" | "bound ImagesReq \<longleftrightarrow> True"
| "bound (GetReq i) \<longleftrightarrow> i \<noteq> []" | "bound (DeleteReq i) \<longleftrightarrow> i \<noteq> []" | "bound (StartReq i) \<longleftrightarrow> i \<noteq> []"
| "bound (StopReq i) \<longleftrightarrow> i \<noteq> []" | "bound (RestartReq i) \<longleftrightarrow> i \<noteq> []" | "bound (PauseReq i) \<longleftrightarrow> i \<noteq> []"
| "bound (ResumeReq i) \<longleftrightarrow> i \<noteq> []" | "bound (StatsReq i) \<longleftrightarrow> i \<noteq> []" | "bound (NetworkReq i) \<longleftrightarrow> i \<noteq> []"
| "bound (CommandsReq i) \<longleftrightarrow> i \<noteq> []" | "bound (ReadReq i p) \<longleftrightarrow> i \<noteq> []" | "bound (WriteReq i p s) \<longleftrightarrow> i \<noteq> []"
| "bound (RemoveFileReq i p) \<longleftrightarrow> i \<noteq> []" | "bound (DirReq i p) \<longleftrightarrow> i \<noteq> []" | "bound (ImageReq i) \<longleftrightarrow> i \<noteq> []"
| "bound (RemoveImageReq i force) \<longleftrightarrow> i \<noteq> []"

text \<open>A response and a result that say the same; a 204 response has no body, and lists have an extra message.\<close>

fun bare :: "body \<Rightarrow> body" where
  "bare (SandboxesBody xs msg) = SandboxesBody xs None"
| "bare (ImagesBody xs msg) = ImagesBody xs None"
| "bare b = b"

definition sameAnswer :: "api_request \<Rightarrow> response \<Rightarrow> err + body \<Rightarrow> bool" where
  "sameAnswer req r x = (case x of
     Inl e \<Rightarrow> 400 \<le> r_status r \<or>
       (\<exists>i. req = RemoveImageReq i True \<and> errors_is e ErrImageNotFound \<and> r = json 204 NoBody)
   | Inr b \<Rightarrow> (r_status r \<in> {200, 201} \<and> bare (r_body r) = b) \<or>
       (r = json 204 NoBody \<and> b = StatusBody ''deleted''))"

definition same_effect :: "api_request \<Rightarrow> 'w handler \<Rightarrow> ('w, body) prog \<Rightarrow> 'w \<Rightarrow> bool" where
  "same_effect req h m w \<longleftrightarrow> snd (h w) = snd (m w) \<and> sameAnswer req (fst (h w)) (fst (m w))"

lemma agree_respond:
  assumes "\<And>x. sameAnswer req (k x) (Inr (g x))"
  shows "same_effect req (respond m k) (andThen m (\<lambda>x. mcpJSON (g x))) w"
  using assms by (auto simp: same_effect_def respond_def andThen_def mcpJSON_def ret_def sameAnswer_def split: prod.split sum.split)

lemmas guard_defs = needID_def need_def needFile_def needPath_def

lemma agree_create:
  "cb_Image b \<noteq> [] \<Longrightarrow> same_effect (CreateReq b) (createSandbox app (Inr b)) (sandbox_create app b) w"
proof -
  assume i: "cb_Image b \<noteq> []"
  show ?thesis
  proof (cases "withinLimits b")
    case True
    then have "createSandbox app (Inr b) = respond (facadeCreate app b) (\<lambda>x. json 201 (CreatedBody x))"
      "sandbox_create app b = andThen (facadeCreate app b) (\<lambda>x. mcpJSON (CreatedBody x))"
      using i by (auto simp: createSandbox_def sandbox_create_def withinLimits_def split: option.split)
    then show ?thesis
      by (simp add: agree_respond sameAnswer_def json_def)
  next
    case False
    then have "\<exists>msg. createSandbox app (Inr b) = refuse msg" "\<exists>e. sandbox_create app b = throw e"
      by (auto simp: createSandbox_def sandbox_create_def withinLimits_def split: option.split)
    then show ?thesis
      by (auto simp: same_effect_def refuse_def throw_def sameAnswer_def response_defs)
  qed
qed

lemma agree_refuse: "same_effect req (refuse msg) (throw e) w"
  by (simp add: same_effect_def refuse_def throw_def sameAnswer_def response_defs)

lemma agree_health: "same_effect Health (healthCheck app) (system_health app) w"
  by (cases "app_Ping app w"; cases "fst (app_Ping app w)")
    (auto simp: same_effect_def healthCheck_def system_health_def andThen_def mcpJSON_def ret_def sameAnswer_def json_def)

lemma agree_image: "same_effect (ImageReq i) (getImage app i) (andThen (app_InspectImage app i) (\<lambda>x. mcpJSON (ImageBody x))) w"
  by (cases "app_InspectImage app i w"; cases "fst (app_InspectImage app i w)")
    (auto simp: same_effect_def getImage_def andThen_def mcpJSON_def ret_def sameAnswer_def response_defs)

lemma agree_remove_image:
  "same_effect (RemoveImageReq i force) (deleteImage app i force)
     (andThen (app_RemoveImage app i force) (\<lambda>_. mcpJSON (StatusBody ''deleted''))) w"
  by (cases force; cases "app_RemoveImage app i force w"; cases "fst (app_RemoveImage app i force w)")
    (auto simp: same_effect_def deleteImage_def andThen_def mcpJSON_def ret_def sameAnswer_def response_defs)

lemma agree_exec:
  "same_effect (ExecReq i r) (execCommand app i False (Inr r))
     (andThen (app_ExecCommand app i r) (\<lambda>cmd. andThen (ret cmd) (\<lambda>cmd. mcpJSON (CommandBody cmd)))) w"
  by (cases "app_ExecCommand app i r w"; cases "fst (app_ExecCommand app i r w)")
    (auto simp: same_effect_def execCommand_def andThen_def mcpJSON_def ret_def sameAnswer_def json_def)

lemma agree_command:
  "same_effect (CommandReq i c) (getCommand app i c False)
     (andThen (app_GetCommand app i c) (\<lambda>cmd. mcpJSON (CommandBody cmd))) w"
  by (cases "app_GetCommand app i c w"; cases "fst (app_GetCommand app i c w)")
    (auto simp: same_effect_def getCommand_def andThen_def mcpJSON_def ret_def sameAnswer_def json_def)

lemmas handler_defs = listSandboxes_def getSandbox_def startSandbox_def stopSandbox_def restartSandbox_def
  deleteSandbox_def getStats_def pauseSandbox_def resumeSandbox_def renewExpiration_def getSandboxNetwork_def
  listCommands_def killCommand_def getCommandLogs_def readFile_handler_def writeFile_def deleteFile_def listDir_def
  pullImage_handler_def listImages_def

lemmas tool_defs = sandbox_list_def sandbox_get_def sandbox_delete_def sandbox_start_def sandbox_stop_def
  sandbox_restart_def sandbox_pause_def sandbox_resume_def sandbox_renew_expiration_def sandbox_stats_def
  sandbox_network_get_def command_exec_def command_list_def command_get_def command_kill_def command_logs_def
  file_read_def file_write_def file_delete_def file_list_def image_list_def image_get_def image_pull_def
  image_delete_def


text \<open>An application that counts: only a creation and a kill succeed.\<close>

definition demo_command :: "string \<Rightarrow> string \<Rightarrow> command_detail" where
  "demo_command i c = \<lparr>cd_ID = c, cd_Name = ''sleep'', cd_Args = [''9''], cd_Cwd = [], cd_SandboxID = i,
     cd_ExitCode = Some 137, cd_StartedAt = 1, cd_FinishedAt = Some 2\<rparr>"

definition demo_app :: "int application" where
  "demo_app = \<lparr>
     app_Ping = throw ErrNotRunning,
     app_Create = (\<lambda>opts w. (Inr \<lparr>cre_ID = ''sbx-1'', cre_Name = ''calm-tesla'', cre_Ports = co_Ports opts, cre_URL = []\<rparr>, w + co_Timeout opts)),
     app_List = throw ErrNotRunning,
     app_Inspect = (\<lambda>_. throw ErrNotRunning),
     app_Start = (\<lambda>_. throw ErrNotRunning),
     app_Stop = (\<lambda>_. throw ErrNotRunning),
     app_Restart = (\<lambda>_. throw ErrNotRunning),
     app_GetNetwork = (\<lambda>_. throw ErrNotRunning),
     app_Remove = (\<lambda>_. throw ErrNotRunning),
     app_Pause = (\<lambda>_. throw ErrNotRunning),
     app_Resume = (\<lambda>_. throw ErrNotRunning),
     app_RenewExpiration = (\<lambda>_ _. throw ErrNotRunning),
     app_Stats = (\<lambda>_. throw ErrNotRunning),
     app_PullImage = (\<lambda>_. throw ErrNotRunning),
     app_RemoveImage = (\<lambda>_ _. throw ErrNotRunning),
     app_InspectImage = (\<lambda>_. throw ErrNotRunning),
     app_ListImages = throw ErrNotRunning,
     app_ExecCommand = (\<lambda>_ _. throw ErrNotRunning),
     app_GetCommand = (\<lambda>_ _. throw ErrNotRunning),
     app_ListCommands = (\<lambda>_. throw ErrNotRunning),
     app_KillCommand = (\<lambda>i c s w. (Inr (demo_command i c), w + s)),
     app_WaitCommand = (\<lambda>_ _. throw ErrNotRunning),
     app_StreamCommandLogs = (\<lambda>_ _. throw ErrNotRunning),
     app_GetCommandLogs = (\<lambda>_ _. throw ErrNotRunning),
     app_ReadFile = (\<lambda>_ _. throw ErrNotRunning),
     app_WriteFile = (\<lambda>_ _ _. throw ErrNotRunning),
     app_DeleteFile = (\<lambda>_ _. throw ErrNotRunning),
     app_ListDir = (\<lambda>_ _. throw ErrNotRunning)\<rparr>"


lemma demo_kill:
  "rest demo_app (KillReq ''sbx-1'' ''cmd_1'' 9) 0 = (json 200 (CommandBody (demo_command ''sbx-1'' ''cmd_1'')), 9)"
  by (simp add: killCommand_def respond_def demo_app_def)

end
