(* ===== verification/Safe_Text.thy ===== *)
theory Safe_Text
  imports Utf8
begin

text \<open>
  Text from outside that is shown to people: \<open>src/internal/terminaltext\<close> makes control and format
  characters visible, and \<open>src/internal/api/mcp_logging.go\<close> reduces the metadata of a request to one
  bounded line of the log.

  The Unicode categories \<open>Cc\<close>, \<open>Zl\<close>, \<open>Zp\<close> and \<open>White_Space\<close> are written out; \<open>Cf\<close>, which grows with the
  Unicode version of the Go release, is the parameter \<open>cf\<close>, and \<open>encoding/json\<close> the parameters of
  \<open>extractMCPMethods\<close>.
\<close>

section \<open>Ranging over a string\<close>

fun runeValue :: "nat list \<Rightarrow> nat" where
  "runeValue [a, b] = (a - 0xC0) * 64 + (b - 0x80)"
| "runeValue [a, b, c] = ((a - 0xE0) * 64 + (b - 0x80)) * 64 + (c - 0x80)"
| "runeValue [a, b, c, d] = (((a - 0xF0) * 64 + (b - 0x80)) * 64 + (c - 0x80)) * 64 + (d - 0x80)"
| "runeValue p = hd p"

text \<open>\<open>for _, r := range s\<close>: a byte that starts no rune yields \<open>U+FFFD\<close>.\<close>

function runesOf :: "nat list \<Rightarrow> nat list" where
  "runesOf p =
     (if p = [] then []
      else case DecodeRune p of
        None \<Rightarrow> 0xFFFD # runesOf (tl p)
      | Some n \<Rightarrow> runeValue (take n p) # runesOf (drop n p))"
  by pat_completeness auto
termination runesOf
  by (relation "measure length") (auto dest: DecodeRune_size)

declare runesOf.simps [simp del]

definition encode :: "nat list \<Rightarrow> nat list" where
  "encode rs = concat (map utf8 rs)"

definition ofBytes :: "nat list \<Rightarrow> string" where
  "ofBytes bs = map char_of bs"

definition isControl :: "nat \<Rightarrow> bool" where
  "isControl r \<longleftrightarrow> r < 0x20 \<or> 0x7F \<le> r \<and> r \<le> 0x9F"

definition isSpaceRune :: "nat \<Rightarrow> bool" where
  "isSpaceRune r \<longleftrightarrow>
     r \<in> {0x09, 0x0A, 0x0B, 0x0C, 0x0D, 0x20, 0x85, 0xA0, 0x1680, 0x2028, 0x2029, 0x202F, 0x205F, 0x3000} \<or>
     0x2000 \<le> r \<and> r \<le> 0x200A"

section \<open>Escaping for a terminal\<close>

definition hexChar :: "nat \<Rightarrow> nat" where
  "hexChar d = (if d < 10 then 0x30 + d else 0x57 + d)"

text \<open>\<open>k\<close> hexadecimal digits, the most significant first.\<close>

fun hexDigits :: "nat \<Rightarrow> nat \<Rightarrow> nat list" where
  "hexDigits 0 r = []"
| "hexDigits (Suc k) r = hexDigits k (r div 16) @ [hexChar (r mod 16)]"

text \<open>\<open>strconv.QuoteRune\<close> without its quotes, for a rune that is not printable.\<close>

definition quoteRune :: "nat \<Rightarrow> nat list" where
  "quoteRune r =
     0x5C # (if r = 7 then [0x61] else if r = 8 then [0x62] else if r = 12 then [0x66] else if r = 10 then [0x6E]
       else if r = 13 then [0x72] else if r = 9 then [0x74] else if r = 11 then [0x76]
       else if r < 0x20 \<or> r = 0x7F then 0x78 # hexDigits 2 r
       else if r < 0x10000 then 0x75 # hexDigits 4 r
       else 0x55 # hexDigits 8 r)"

definition hiddenRune :: "(nat \<Rightarrow> bool) \<Rightarrow> nat \<Rightarrow> bool" where
  "hiddenRune cf r \<longleftrightarrow> isControl r \<or> cf r \<or> r = 0x2028 \<or> r = 0x2029"

definition escapeRune :: "(nat \<Rightarrow> bool) \<Rightarrow> bool \<Rightarrow> nat \<Rightarrow> nat list" where
  "escapeRune cf layout r =
     (if layout \<and> (r = 10 \<or> r = 9) then utf8 r
      else if hiddenRune cf r then quoteRune r
      else utf8 r)"

definition Escape :: "(nat \<Rightarrow> bool) \<Rightarrow> string \<Rightarrow> bool \<Rightarrow> string" where
  "Escape cf s layout = ofBytes (concat (map (escapeRune cf layout) (runesOf (bytes_of s))))"

section \<open>Quoting\<close>

text \<open>\<open>strconv.Quote\<close>, the verb \<open>%q\<close>; \<open>pr\<close> is \<open>strconv.IsPrint\<close>.\<close>

definition quoteOne :: "(nat \<Rightarrow> bool) \<Rightarrow> nat \<Rightarrow> nat list" where
  "quoteOne pr r = (if r = 0x22 \<or> r = 0x5C then [0x5C, r] else if pr r then utf8 r else quoteRune r)"

function quoteBytes :: "(nat \<Rightarrow> bool) \<Rightarrow> nat list \<Rightarrow> nat list" where
  "quoteBytes pr p =
     (if p = [] then []
      else case DecodeRune p of
        None \<Rightarrow> 0x5C # 0x78 # hexDigits 2 (hd p) @ quoteBytes pr (tl p)
      | Some n \<Rightarrow> quoteOne pr (runeValue (take n p)) @ quoteBytes pr (drop n p))"
  by pat_completeness auto
termination quoteBytes
  by (relation "measure (\<lambda>(pr, p). length p)") (auto dest: DecodeRune_size)

declare quoteBytes.simps [simp del]

definition Quote :: "(nat \<Rightarrow> bool) \<Rightarrow> string \<Rightarrow> string" where
  "Quote pr s = ofBytes (0x22 # quoteBytes pr (bytes_of s) @ [0x22])"

section \<open>Request metadata in the log\<close>

definition logRune :: "(nat \<Rightarrow> bool) \<Rightarrow> nat \<Rightarrow> nat" where
  "logRune cf r = (if isControl r \<or> isSpaceRune r \<or> cf r then 0x5F else r)"

text \<open>The runes are written while there is room for them and for the three dots.\<close>

fun clipRunes :: "int \<Rightarrow> nat list \<Rightarrow> nat list \<Rightarrow> nat list" where
  "clipRunes m out [] = out"
| "clipRunes m out (r # rs) =
     (if int (length out + length (utf8 r)) > m - 3 then out @ [0x2E, 0x2E, 0x2E]
      else clipRunes m (out @ utf8 r) rs)"

definition safeMCPMetadata :: "(nat \<Rightarrow> bool) \<Rightarrow> string \<Rightarrow> int \<Rightarrow> string" where
  "safeMCPMetadata cf s m = ofBytes (clipRunes m [] (map (logRune cf) (runesOf (bytes_of s))))"

text \<open>\<open>strings.TrimSpace\<close> and \<open>bytes.TrimSpace\<close> on any bytes; the last rune is the only one that ends the text.\<close>

definition lastRune :: "nat list \<Rightarrow> nat option" where
  "lastRune p = find (\<lambda>n. n \<le> length p \<and> DecodeRune (drop (length p - n) p) = Some n) [1, 2, 3, 4]"

function trimFront :: "nat list \<Rightarrow> nat list" where
  "trimFront p = (case DecodeRune p of
     None \<Rightarrow> p
   | Some n \<Rightarrow> if isSpaceRune (runeValue (take n p)) then trimFront (drop n p) else p)"
  by pat_completeness auto
termination trimFront
  by (relation "measure length") (auto dest: DecodeRune_size)

lemma lastRune_size: "lastRune p = Some n \<Longrightarrow> 0 < n \<and> n \<le> length p"
  by (auto simp: lastRune_def split: if_splits)

function trimBack :: "nat list \<Rightarrow> nat list" where
  "trimBack p = (case lastRune p of
     None \<Rightarrow> p
   | Some n \<Rightarrow> if isSpaceRune (runeValue (drop (length p - n) p)) then trimBack (take (length p - n) p) else p)"
  by pat_completeness auto
termination trimBack
  by (relation "measure length") (auto dest: lastRune_size)

declare trimFront.simps [simp del] trimBack.simps [simp del]

definition TrimSpace :: "string \<Rightarrow> string" where
  "TrimSpace s = ofBytes (trimBack (trimFront (bytes_of s)))"

text \<open>The methods collected so far and what remains of the budget.\<close>

definition mcpMethodLogBytes :: int where
  "mcpMethodLogBytes = 1024"

definition appendMethod :: "(nat \<Rightarrow> bool) \<Rightarrow> string list \<times> int \<Rightarrow> string \<Rightarrow> string list \<times> int" where
  "appendMethod cf st v = (case st of (methods, remaining) \<Rightarrow>
     let v = TrimSpace v in
     if v = [] \<or> remaining < 4 then (methods, remaining)
     else let w = safeMCPMetadata cf v remaining in
       if w \<in> set methods then (methods, remaining)
       else (methods @ [w], remaining - (int (length w) + 1)))"

fun joinComma :: "string list \<Rightarrow> string" where
  "joinComma [] = []"
| "joinComma [s] = s"
| "joinComma (s # ss) = s @ CHR '','' # joinComma ss"

text \<open>\<open>one\<close> and \<open>many\<close>: \<open>json.Unmarshal\<close> into a request or a list of requests, with their methods.\<close>

definition extractMCPMethods ::
  "(nat \<Rightarrow> bool) \<Rightarrow> (string \<Rightarrow> string option) \<Rightarrow> (string \<Rightarrow> string list option) \<Rightarrow> string \<Rightarrow> string" where
  "extractMCPMethods cf one many body =
     (let trimmed = TrimSpace body in
      if trimmed = [] then []
      else joinComma (fst
        (if hd trimmed = CHR ''{'' then
           (case one trimmed of None \<Rightarrow> ([], mcpMethodLogBytes)
            | Some v \<Rightarrow> appendMethod cf ([], mcpMethodLogBytes) v)
         else if hd trimmed = CHR ''['' then
           (case many trimmed of None \<Rightarrow> ([], mcpMethodLogBytes)
            | Some vs \<Rightarrow> foldl (appendMethod cf) ([], mcpMethodLogBytes) vs)
         else ([], mcpMethodLogBytes))))"

section \<open>Runes and their encodings\<close>

lemma scalar_range: "scalar u \<Longrightarrow> u < 0x110000"
  by (auto simp: scalar_def)

lemma scalar_error: "scalar 0xFFFD"
  by (simp add: scalar_def)

lemma utf8_bytes:
  assumes "scalar u"
  shows "\<forall>b \<in> set (utf8 u). b < 256"
proof -
  consider "u < 0x80" | "0x80 \<le> u" "u < 0x800" | "0x800 \<le> u" "u < 0x10000" | "0x10000 \<le> u" "u < 0x110000"
    using scalar_range [OF assms] by linarith
  then show ?thesis
  proof cases
    case 2
    then have "u div 64 < 32"
      by (simp add: less_mult_imp_div_less)
    then show ?thesis
      using 2 sextet_le [of u] by (simp add: utf8_def del: sextet_le)
  next
    case 3
    then have "u div 4096 < 16"
      by (simp add: less_mult_imp_div_less)
    then show ?thesis
      using 3 sextet_le [of u] sextet_le [of "u div 64"] by (simp add: utf8_def del: sextet_le)
  next
    case 4
    then have "u div 262144 < 5"
      by (simp add: less_mult_imp_div_less)
    then show ?thesis
      using 4 sextet_le [of u] sextet_le [of "u div 64"] sextet_le [of "u div 4096"]
      by (simp add: utf8_def del: sextet_le)
  qed (simp add: utf8_def)
qed

lemma sextets:
  fixes u :: nat
  shows "u div 4096 = u div 64 div 64" "u div 262144 = u div 64 div 64 div 64"
  by (simp_all add: div_mult2_eq [symmetric])

lemma runeValue_utf8: "runeValue (utf8 u) = u"
  unfolding utf8_def sextets by (simp add: div_mult_mod_eq)

lemma runesOf_utf8: "scalar u \<Longrightarrow> runesOf (utf8 u @ p) = u # runesOf p"
  by (subst runesOf.simps) (simp add: DecodeRune_utf8 runeValue_utf8)

lemma encode_simps [simp]:
  "encode [] = []" "encode (r # rs) = utf8 r @ encode rs" "encode (rs @ qs) = encode rs @ encode qs"
  by (simp_all add: encode_def)

lemma runesOf_encode [simp]: "list_all scalar rs \<Longrightarrow> runesOf (encode rs) = rs"
  by (induction rs) (simp_all add: runesOf_utf8 runesOf.simps [of "[]"])

lemma utf8_text_encode: "utf8_text p \<longleftrightarrow> (\<exists>rs. list_all scalar rs \<and> p = encode rs)"
  by (simp add: utf8_text_def encode_def)

lemma encode_runesOf [simp]: "utf8_text p \<Longrightarrow> encode (runesOf p) = p"
  by (auto simp: utf8_text_encode)

lemma runesOf_result: "list_all scalar (runesOf p) \<and> length (runesOf p) \<le> length p"
proof (induction p rule: runesOf.induct)
  case (1 p)
  show ?case
  proof (cases "p = []")
    case False
    then show ?thesis
    proof (cases "DecodeRune p")
      case None
      then show ?thesis
        using 1(1) False scalar_error
        by (cases p) (simp_all add: runesOf.simps [of "_ # _"])
    next
      case (Some n)
      obtain u where u: "scalar u" "take n p = utf8 u"
        using DecodeRune_rune [OF Some] by blast
      then show ?thesis
        using 1(2) [OF False Some] False Some DecodeRune_size [OF Some]
        by (subst (1 2) runesOf.simps) (auto simp: runeValue_utf8)
    qed
  qed (simp add: runesOf.simps)
qed

lemma bytes_of_ofBytes: "\<forall>b \<in> set bs. b < 256 \<Longrightarrow> bytes_of (ofBytes bs) = bs"
  by (induction bs) (simp_all add: bytes_of_def ofBytes_def)

lemma ofBytes_bytes_of [simp]: "ofBytes (bytes_of s) = s"
  by (induction s) (simp_all add: bytes_of_def ofBytes_def)

lemma length_ofBytes [simp]: "length (ofBytes bs) = length bs"
  by (simp add: ofBytes_def)

lemma bytes_of_encode: "list_all scalar rs \<Longrightarrow> bytes_of (ofBytes (encode rs)) = encode rs"
  by (rule bytes_of_ofBytes) (induction rs, auto simp: utf8_bytes)

text \<open>A text of runes that a predicate allows.\<close>

definition textOver :: "(nat \<Rightarrow> bool) \<Rightarrow> string \<Rightarrow> bool" where
  "textOver ok s \<longleftrightarrow> utf8_text (bytes_of s) \<and> list_all ok (runesOf (bytes_of s))"

lemma textOverI: "list_all scalar rs \<Longrightarrow> list_all ok rs \<Longrightarrow> textOver ok (ofBytes (encode rs))"
  by (auto simp: textOver_def bytes_of_encode utf8_text_encode)

lemma textOverE:
  assumes "textOver ok s"
  obtains rs where "s = ofBytes (encode rs)" "list_all scalar rs" "list_all ok rs"
  using assms encode_runesOf [of "bytes_of s"] runesOf_result [of "bytes_of s"] ofBytes_bytes_of [of s]
  by (metis textOver_def)

lemma ofBytes_append: "ofBytes (a @ b) = ofBytes a @ ofBytes b"
  by (simp add: ofBytes_def)

lemma textOver_append: "textOver ok s \<Longrightarrow> textOver ok t \<Longrightarrow> textOver ok (s @ t)"
  by (elim textOverE) (metis encode_simps(3) list_all_append ofBytes_append textOverI)

lemma utf8_ascii [simp]: "r < 0x80 \<Longrightarrow> utf8 r = [r]"
  by (simp add: utf8_def)

lemma encode_ascii: "\<forall>r \<in> set rs. r < 0x80 \<Longrightarrow> encode rs = rs"
  by (induction rs) simp_all

section \<open>Escaped text\<close>

lemma hexDigits_set: "d \<in> set (hexDigits k r) \<Longrightarrow> 0x30 \<le> d \<and> d < 0x7F"
proof (induction k r rule: hexDigits.induct)
  case (2 k r)
  have "r mod 16 < 16"
    by simp
  then show ?case
    using 2 by (auto simp: hexChar_def)
qed simp

lemma hexDigits_length [simp]: "length (hexDigits k r) = k"
  by (induction k r rule: hexDigits.induct) simp_all

lemma quoteRune_set: "d \<in> set (quoteRune r) \<Longrightarrow> 0x30 \<le> d \<and> d < 0x7F"
  by (auto simp: quoteRune_def dest: hexDigits_set split: if_splits)

lemma quoteRune_length: "length (quoteRune r) \<le> 10"
  by (simp add: quoteRune_def)

text \<open>The runes that stand for a rune, and what the escaped text may contain.\<close>

definition shownRunes :: "(nat \<Rightarrow> bool) \<Rightarrow> bool \<Rightarrow> nat \<Rightarrow> nat list" where
  "shownRunes cf layout r = (if layout \<and> (r = 10 \<or> r = 9) \<or> \<not> hiddenRune cf r then [r] else quoteRune r)"

definition visible :: "(nat \<Rightarrow> bool) \<Rightarrow> bool \<Rightarrow> nat \<Rightarrow> bool" where
  "visible cf layout r \<longleftrightarrow> \<not> hiddenRune cf r \<or> (layout \<and> (r = 10 \<or> r = 9))"

lemma quoteRune_visible:
  assumes "\<forall>r. cf r \<longrightarrow> 0x80 \<le> r" "d \<in> set (quoteRune r)"
  shows "scalar d \<and> d < 0x80 \<and> \<not> hiddenRune cf d"
  using quoteRune_set [OF assms(2)] assms(1)
  by (auto simp: scalar_def hiddenRune_def isControl_def)

lemma escapeRune_encode:
  assumes "\<forall>r. cf r \<longrightarrow> 0x80 \<le> r"
  shows "escapeRune cf layout r = encode (shownRunes cf layout r)"
  using encode_ascii [of "quoteRune r"] quoteRune_visible [OF assms]
  by (auto simp: escapeRune_def shownRunes_def)

lemma shownRunes_ok:
  assumes "\<forall>r. cf r \<longrightarrow> 0x80 \<le> r" "scalar r"
  shows "list_all scalar (shownRunes cf layout r) \<and> list_all (visible cf layout) (shownRunes cf layout r)"
  using assms(2) quoteRune_visible [OF assms(1)]
  by (auto simp: shownRunes_def visible_def list_all_iff)

lemma escapeRunes_encode:
  assumes "\<forall>r. cf r \<longrightarrow> 0x80 \<le> r"
  shows "concat (map (escapeRune cf layout) rs) = encode (concat (map (shownRunes cf layout) rs))"
  by (induction rs) (simp_all add: escapeRune_encode [OF assms])

lemma escapeRune_length: "length (escapeRune cf layout r) \<le> 10"
  using quoteRune_length [of r] by (simp add: escapeRune_def utf8_def)

text \<open>
  C36: \<open>Escape\<close> turns any bytes, valid or not, into UTF-8 text in which no control, format or line
  separator character is left, newline and tab excepted where layout is allowed; it grows the text at
  most tenfold; and it leaves a text alone that has nothing to hide.
\<close>

theorem escaped_text_is_visible:
  assumes "\<forall>r. cf r \<longrightarrow> 0x80 \<le> r"
  shows "textOver (visible cf layout) (Escape cf s layout) \<and>
    length (Escape cf s layout) \<le> 10 * length s \<and>
    (textOver (visible cf layout) s \<longrightarrow> Escape cf s layout = s)"
proof (intro conjI impI)
  note cf = assms
  let ?rs = "runesOf (bytes_of s)"
  have rs: "list_all scalar ?rs" "length ?rs \<le> length s"
    using runesOf_result [of "bytes_of s"] by simp_all
  have "list_all scalar (concat (map (shownRunes cf layout) ?rs)) \<and>
    list_all (visible cf layout) (concat (map (shownRunes cf layout) ?rs))"
    using rs(1) shownRunes_ok [OF cf] by (auto simp: list_all_iff)
  then show "textOver (visible cf layout) (Escape cf s layout)"
    unfolding Escape_def escapeRunes_encode [OF cf] by (auto intro: textOverI)
  have "length (concat (map (escapeRune cf layout) qs)) \<le> 10 * length qs" for qs
  proof (induction qs)
    case (Cons q qs)
    then show ?case
      using escapeRune_length [of cf layout q] by simp
  qed simp
  from this [of ?rs] show "length (Escape cf s layout) \<le> 10 * length s"
    using rs(2) by (simp add: Escape_def)
  assume t: "textOver (visible cf layout) s"
  then have "map (shownRunes cf layout) ?rs = map (\<lambda>r. [r]) ?rs"
    by (auto simp: textOver_def list_all_iff visible_def shownRunes_def)
  then have "concat (map (escapeRune cf layout) ?rs) = encode ?rs"
    unfolding escapeRunes_encode [OF cf] by (simp del: map_eq_conv)
  then have "concat (map (escapeRune cf layout) ?rs) = bytes_of s"
    using t by (simp add: textOver_def)
  then show "Escape cf s layout = s"
    by (simp add: Escape_def)
qed

lemma escaped_text_is_visible_witness:
  "textOver (visible (\<lambda>r. r = 0x202E) False)
     (Escape (\<lambda>r. r = 0x202E) [CHR 0x1B, CHR ''a'', CHR 0xE2, CHR 0x80, CHR 0xAE, CHR 0xFF] False)"
  using escaped_text_is_visible [of "\<lambda>r. r = 0x202E"] by simp

section \<open>Logged metadata\<close>

text \<open>What may stand in one line of the log.\<close>

definition loggable :: "(nat \<Rightarrow> bool) \<Rightarrow> nat \<Rightarrow> bool" where
  "loggable cf r \<longleftrightarrow> \<not> isControl r \<and> \<not> isSpaceRune r \<and> \<not> cf r"

lemma logRune_ok:
  assumes "\<forall>r. cf r \<longrightarrow> 0x80 \<le> r" "scalar r"
  shows "scalar (logRune cf r) \<and> loggable cf (logRune cf r)"
  using assms
  by (auto simp: logRune_def loggable_def scalar_def isControl_def isSpaceRune_def)

lemma clipRunes_result:
  "\<exists>qs. set qs \<subseteq> set rs \<union> {0x2E} \<and> clipRunes m out rs = out @ encode qs"
proof (induction rs arbitrary: out)
  case (Cons r rs)
  show ?case
  proof (cases "int (length out + length (utf8 r)) > m - 3")
    case True
    then show ?thesis
      by (intro exI [of _ "[0x2E, 0x2E, 0x2E]"]) simp
  next
    case False
    obtain qs where "set qs \<subseteq> set rs \<union> {0x2E}" "clipRunes m (out @ utf8 r) rs = (out @ utf8 r) @ encode qs"
      using Cons by blast
    then show ?thesis
      using False by (intro exI [of _ "r # qs"]) auto
  qed
qed (auto intro: exI [of _ "[]"])

lemma clipRunes_length: "int (length out) \<le> m - 3 \<Longrightarrow> int (length (clipRunes m out rs)) \<le> m"
  by (induction rs arbitrary: out) auto

lemma safeMCPMetadata_ok:
  assumes cf: "\<forall>r. cf r \<longrightarrow> 0x80 \<le> r"
  shows "textOver (loggable cf) (safeMCPMetadata cf s m)"
proof -
  let ?rs = "map (logRune cf) (runesOf (bytes_of s))"
  obtain qs where qs: "set qs \<subseteq> set ?rs \<union> {0x2E}" "clipRunes m [] ?rs = encode qs"
    using clipRunes_result [of ?rs m "[]"] by auto
  have "scalar r \<and> loggable cf r" if "r \<in> set ?rs" for r
    using that logRune_ok [OF cf] runesOf_result [of "bytes_of s"] by (auto simp: list_all_iff)
  moreover have "scalar 0x2E \<and> loggable cf 0x2E"
    using cf by (auto simp: scalar_def loggable_def isControl_def isSpaceRune_def)
  ultimately have "list_all scalar qs" "list_all (loggable cf) qs"
    using qs(1) by (auto simp: list_all_iff)
  then show ?thesis
    unfolding safeMCPMetadata_def qs(2) by (rule textOverI)
qed

lemma safeMCPMetadata_length: "3 \<le> m \<Longrightarrow> int (length (safeMCPMetadata cf s m)) \<le> m"
  using clipRunes_length [of "[]" m] by (simp add: safeMCPMetadata_def)

text \<open>The budget: what is joined so far, with a comma after every method, and what remains.\<close>

definition budgeted :: "(nat \<Rightarrow> bool) \<Rightarrow> string list \<times> int \<Rightarrow> bool" where
  "budgeted cf st \<longleftrightarrow> (case st of (methods, remaining) \<Rightarrow>
     distinct methods \<and> list_all (textOver (loggable cf)) methods \<and>
     int (length (concat methods) + length methods) + remaining = mcpMethodLogBytes \<and> - 1 \<le> remaining)"

lemma budgeted_appendMethod:
  assumes "\<forall>r. cf r \<longrightarrow> 0x80 \<le> r" "budgeted cf st"
  shows "budgeted cf (appendMethod cf st v)"
proof -
  obtain methods remaining where st: "st = (methods, remaining)"
    by (cases st)
  show ?thesis
  proof (cases "4 \<le> remaining")
    case True
    then show ?thesis
      using assms safeMCPMetadata_ok [OF assms(1)] safeMCPMetadata_length [of remaining cf "TrimSpace v"]
      by (auto simp: st appendMethod_def budgeted_def Let_def)
  qed (use assms in \<open>simp add: st appendMethod_def Let_def\<close>)
qed

lemma budgeted_methods:
  "\<forall>r. cf r \<longrightarrow> 0x80 \<le> r \<Longrightarrow> budgeted cf st \<Longrightarrow> budgeted cf (foldl (appendMethod cf) st vs)"
  by (induction vs arbitrary: st) (simp_all add: budgeted_appendMethod)

lemma joinComma_length: "int (length (joinComma ss)) \<le> max 0 (int (length (concat ss) + length ss) - 1)"
  by (induction ss rule: joinComma.induct) auto

lemma joinComma_text:
  assumes "\<forall>r. cf r \<longrightarrow> 0x80 \<le> r" "list_all (textOver (loggable cf)) ss"
  shows "textOver (loggable cf) (joinComma ss)"
  using assms(2)
proof (induction ss rule: joinComma.induct)
  case 1
  show ?case
    using textOverI [of "[]"] by (simp add: ofBytes_def)
next
  case (3 s t ss)
  have "ofBytes (encode [0x2C]) = '',''"
    using ofBytes_bytes_of [of "'',''"] by (simp add: bytes_of_def)
  then have "textOver (loggable cf) '',''"
    using textOverI [of "[0x2C]" "loggable cf"] assms(1) [rule_format, of "0x2C"]
    by (auto simp: loggable_def scalar_def isControl_def isSpaceRune_def)
  then show ?case
    using 3 textOver_append [of _ s] textOver_append [of _ "'',''" "joinComma (t # ss)"] by simp
qed simp

lemma budgeted_result:
  assumes "\<forall>r. cf r \<longrightarrow> 0x80 \<le> r" "budgeted cf st"
  shows "int (length (joinComma (fst st))) \<le> mcpMethodLogBytes \<and> textOver (loggable cf) (joinComma (fst st))"
  using assms joinComma_length [of "fst st"] joinComma_text [OF assms(1)]
  by (cases st) (auto simp: budgeted_def mcpMethodLogBytes_def)

text \<open>
  Whatever a request body holds, the methods that are logged for it are UTF-8 text without control,
  space or format characters, so they cannot break or forge a line of the log, and all of them together,
  commas included, are at most 1024 bytes.
\<close>

theorem logged_methods_are_one_bounded_line:
  assumes "\<forall>r. cf r \<longrightarrow> 0x80 \<le> r"
  shows "length (extractMCPMethods cf one many body) \<le> 1024 \<and>
    textOver (loggable cf) (extractMCPMethods cf one many body)"
proof -
  have start: "budgeted cf ([], mcpMethodLogBytes)"
    by (simp add: budgeted_def mcpMethodLogBytes_def)
  define st where "st =
    (let trimmed = TrimSpace body; none = ([], mcpMethodLogBytes) in
     if trimmed = [] then none
     else if hd trimmed = CHR ''{'' then (case one trimmed of None \<Rightarrow> none | Some v \<Rightarrow> appendMethod cf none v)
     else if hd trimmed = CHR ''['' then (case many trimmed of None \<Rightarrow> none | Some vs \<Rightarrow> foldl (appendMethod cf) none vs)
     else none)"
  have "budgeted cf st"
    using start budgeted_appendMethod [OF assms start] budgeted_methods [OF assms start]
    by (simp add: st_def Let_def split: option.split)
  moreover have "extractMCPMethods cf one many body = joinComma (fst st)"
    by (simp add: extractMCPMethods_def st_def Let_def)
  ultimately show ?thesis
    using budgeted_result [OF assms, of st] by (simp add: mcpMethodLogBytes_def)
qed

lemma logged_methods_are_one_bounded_line_witness:
  "textOver (loggable (\<lambda>r. r = 0x202E))
     (extractMCPMethods (\<lambda>r. r = 0x202E) (\<lambda>s. Some ''tools/call'') (\<lambda>s. None) ''{}'')"
  using logged_methods_are_one_bounded_line [of "\<lambda>r. r = 0x202E"] by simp

end
