(* ===== verification/Docker_Cache.thy ===== *)
theory Docker_Cache
  imports Docker_World Image_Store
begin

text \<open>
  \<open>src/internal/docker/cache.go\<close>: how the content of a selected image gets into the engine, and what is checked
  before the engine's image is used. The engine, tar, the registry library's tarball reader, gzip, zstd
  and the file system are parameters, the record \<open>cache_env\<close>; their answers may differ from moment to moment
  (the number of answers so far). The lock of a tag is the one of \<open>Cache_Lock\<close>; here its outcome is a parameter and
  what is held is part of the state, as are the temporary directories and the calls made to the engine.
\<close>

section \<open>The surroundings\<close>

record tar_entry =
  te_Name :: string
  te_Regular :: bool
  te_Reader :: "string \<times> err option"

text \<open>What the tarball library says of a saved archive.\<close>

record exported =
  ex_ConfigName :: "err + v1_hash"
  ex_ConfigFile :: "err + config_file"

datatype cache_call = Inspected string "err + string" | Loaded | Saved string

record cache_env =
  dc_ctx :: "nat \<Rightarrow> err option"
  dc_newTag :: "string \<Rightarrow> err + string"
  dc_acquire :: "nat \<Rightarrow> string \<Rightarrow> err option"
  dc_mkdir :: "nat \<Rightarrow> err option"
  dc_file :: "nat \<Rightarrow> err option"
  dc_inspect :: "nat \<Rightarrow> string \<Rightarrow> err + string"
  dc_write :: "nat \<Rightarrow> err option \<times> err option list"
  dc_load :: "nat \<Rightarrow> err + (err + string) list"
  dc_save :: "nat \<Rightarrow> string \<Rightarrow> err + string \<times> err option"
  dc_newHash :: "string \<Rightarrow> err + v1_hash"
  dc_digest :: "local_content \<Rightarrow> err + v1_hash"
  dc_config :: "local_content \<Rightarrow> err + v1_hash"
  dc_export :: "string \<Rightarrow> err + exported"
  dc_manifests :: "string \<Rightarrow> err + string list list"
  dc_entries :: "string \<Rightarrow> tar_entry list \<times> err option"
  dc_gunzip :: "string \<times> err option \<Rightarrow> err + string \<times> err option"
  dc_unzstd :: "string \<times> err option \<Rightarrow> err + string \<times> err option"
  dc_oci :: oci

record cache_world =
  cw_tick :: nat
  cw_held :: "string list"
  cw_dirs :: nat
  cw_calls :: "cache_call list"

type_synonym 'a cp = "(cache_world, 'a) prog"

definition ask :: "(nat \<Rightarrow> err + 'a) \<Rightarrow> 'a cp" where
  "ask f = (\<lambda>w. (f (cw_tick w), w\<lparr>cw_tick := Suc (cw_tick w)\<rparr>))"

definition check :: "(nat \<Rightarrow> err option) \<Rightarrow> unit cp" where
  "check f = ask (\<lambda>n. case f n of None \<Rightarrow> Inr () | Some e \<Rightarrow> Inl e)"

definition pureE :: "err + 'a \<Rightarrow> 'a cp" where
  "pureE r = (\<lambda>w. (r, w))"

definition called :: "cache_call \<Rightarrow> unit cp" where
  "called c = modify (\<lambda>w. w\<lparr>cw_calls := cw_calls w @ [c]\<rparr>)"

definition imageInspect :: "cache_env \<Rightarrow> string \<Rightarrow> (err + string) cp" where
  "imageInspect E tag =
     andThen (attempt (ask (\<lambda>n. dc_inspect E n tag))) (\<lambda>r.
     andThen (called (Inspected tag r)) (\<lambda>_. ret r))"

section \<open>Layers of the saved archive\<close>

text \<open>\<open>v1.SHA256\<close> of the decoded content, at most one byte more than the budget being read.\<close>

definition cacheLayerHash :: "cache_env \<Rightarrow> nat \<Rightarrow> string \<times> err option \<Rightarrow> err + v1_hash" where
  "cacheLayerHash E n input =
     (let magic = take 4 (fst input) in
      bindE (if length magic \<ge> 2 \<and> magic ! 0 = CHR 0x1F \<and> magic ! 1 = CHR 0x8B then dc_gunzip E input
             else if magic = [CHR 0x28, CHR 0xB5, CHR 0x2F, CHR 0xFD] then dc_unzstd E input
             else Inr input) (\<lambda>r.
      bindE (case dc_ctx E n of Some e \<Rightarrow> Inl e | None \<Rightarrow> Inr ()) (\<lambda>_.
      bindE (readUpTo (nat MaxArchiveBytes + 1) r) (\<lambda>b.
      bindE (guardE (int (length b) \<le> MaxArchiveBytes) (Msg ''runtime: Docker cache expanded layer exceeds budget'')) (\<lambda>_.
      Inr (sha256 (dc_oci E) b))))))"

fun wantedLayers :: "string list \<Rightarrow> v1_hash list \<Rightarrow> (string \<times> v1_hash) list \<Rightarrow> err + (string \<times> v1_hash) list" where
  "wantedLayers (p # ps) (h # hs) wanted =
     (let p = trimPrefix p ''./'' in
      case map_of wanted p of
        Some g \<Rightarrow> if g \<noteq> h then Inl (Msg ''runtime: Docker cache conflicting layer identities'')
                  else wantedLayers ps hs (store p h wanted)
      | None \<Rightarrow> wantedLayers ps hs (store p h wanted))"
| "wantedLayers ps hs wanted = Inr wanted"

text \<open>The loop over the entries; \<open>seen\<close> are the layers met so far.\<close>

fun checkEntries ::
  "cache_env \<Rightarrow> nat \<Rightarrow> (string \<times> v1_hash) list \<Rightarrow> tar_entry list \<Rightarrow> string list \<Rightarrow> err + string list" where
  "checkEntries E n wanted [] seen = Inr seen"
| "checkEntries E n wanted (t # ts) seen =
     (let entry = trimPrefix (te_Name t) ''./'' in
      case map_of wanted entry of
        None \<Rightarrow> checkEntries E n wanted ts seen
      | Some want \<Rightarrow>
          bindE (guardE (entry \<notin> set seen \<and> te_Regular t)
            (Msg ''runtime: Docker cache layers must be unique regular files'')) (\<lambda>_.
          bindE (cacheLayerHash E (n + length seen) (te_Reader t)) (\<lambda>actual.
          bindE (guardE (actual = want) (Msg ''runtime: Docker cache layer content mismatch'')) (\<lambda>_.
          checkEntries E n wanted ts (entry # seen)))))"

definition checkArchive :: "cache_env \<Rightarrow> nat \<Rightarrow> (string \<times> v1_hash) list \<Rightarrow> string \<Rightarrow> err + unit" where
  "checkArchive E n wanted archive = (case dc_entries E archive of (entries, fault) \<Rightarrow>
     bindE (checkEntries E n wanted entries []) (\<lambda>seen.
     case fault of
       Some e \<Rightarrow> Inl e
     | None \<Rightarrow> guardE (length seen = length wanted) (Msg ''runtime: Docker cache layer missing'')))"

definition verifyCacheLayers :: "cache_env \<Rightarrow> string \<Rightarrow> string list \<Rightarrow> v1_hash list \<Rightarrow> unit cp" where
  "verifyCacheLayers E archive paths diffIDs =
     andThen (pureE (wantedLayers paths diffIDs [])) (\<lambda>wanted.
     andThen (check (dc_file E)) (\<lambda>_.
     ask (\<lambda>n. checkArchive E n wanted archive)))"

section \<open>Verifying the engine's image\<close>

definition immutableID :: "cache_env \<Rightarrow> string \<Rightarrow> bool" where
  "immutableID E i = (case dc_newHash E i of
     Inl e \<Rightarrow> False
   | Inr h \<Rightarrow> h_Algorithm h = ''sha256'' \<and> length (h_Hex h) = 64 \<and> list_all hexDigit (h_Hex h))"

text \<open>What reached the file of a copied stream, and the error of the copy.\<close>

definition copied :: "string \<times> err option \<Rightarrow> string \<times> err option" where
  "copied r = (let limit = nat MaxArchiveBytes + 1 in
     (take limit (fst r), if length (fst r) < limit then snd r else None))"

definition checkExport :: "cache_env \<Rightarrow> image_handle \<Rightarrow> v1_hash \<Rightarrow> string \<Rightarrow> err + string list \<times> v1_hash list" where
  "checkExport E img config archive =
     bindE (dc_export E archive) (\<lambda>x.
     bindE (ex_ConfigName x) (\<lambda>actual.
     bindE (guardE (actual = config) (Msg ''runtime: Docker cache config digest mismatch'')) (\<lambda>_.
     bindE (ex_ConfigFile x) (\<lambda>cfg.
     bindE (guardE (samePlatform (cf_Platform cfg) (ih_Platform img)) (Msg ''runtime: Docker cache platform mismatch'')) (\<lambda>_.
     bindE (dc_manifests E archive) (\<lambda>ms.
     bindE (guardE (length ms = 1 \<and> cf_RootFSType cfg = ''layers'' \<and> length (ms ! 0) = length (cf_DiffIDs cfg))
       (Msg ''runtime: Docker cache layer count mismatch'')) (\<lambda>_.
     Inr (ms ! 0, cf_DiffIDs cfg))))))))"

definition verifyCache :: "cache_env \<Rightarrow> image_handle \<Rightarrow> string \<Rightarrow> string cp" where
  "verifyCache E img i =
     andThen (pureE (guardE (immutableID E i) (Msg ''runtime: Docker cache has no immutable image ID''))) (\<lambda>_.
     andThen (pureE (dc_digest E (ih_Content img))) (\<lambda>manifest.
     andThen (pureE (dc_config E (ih_Content img))) (\<lambda>config.
     andThen (pureE (guardE (digestString manifest = ih_ManifestDigest img \<and> digestString config = ih_ConfigDigest img)
       (Msg ''runtime: Docker cache source manifest/config mismatch''))) (\<lambda>_.
     andThen (called (Saved i)) (\<lambda>_.
     andThen (ask (\<lambda>n. dc_save E n i)) (\<lambda>saved.
     andThen (check (dc_file E)) (\<lambda>_.
     andThen (attempt (check (dc_file E))) (\<lambda>closed.
     andThen (check (dc_ctx E)) (\<lambda>_.
     case copied saved of (archive, copyErr) \<Rightarrow>
     andThen (pureE (case copyErr of Some e \<Rightarrow> Inl e | None \<Rightarrow> Inr ())) (\<lambda>_.
     andThen (pureE closed) (\<lambda>_.
     andThen (pureE (guardE (int (length archive) \<le> MaxArchiveBytes)
       (Msg ''runtime: Docker cache export exceeds disk budget''))) (\<lambda>_.
     andThen (pureE (checkExport E img config archive)) (\<lambda>(paths, diffIDs).
     andThen (verifyCacheLayers E archive paths diffIDs) (\<lambda>_.
     andThen (check (dc_ctx E)) (\<lambda>_.
     ret i)))))))))))))))"

section \<open>Materialising an image\<close>

text \<open>The messages of the load, up to the end of the stream or the first failure.\<close>

fun loadMessages :: "(err + string) list \<Rightarrow> err + unit" where
  "loadMessages [] = Inr ()"
| "loadMessages (Inl e # ms) = Inl e"
| "loadMessages (Inr m # ms) = (if m \<noteq> [] then Inl (Msg m) else loadMessages ms)"

text \<open>
  \<open>writeImageArchive\<close>: the result of the tar writer, then every reader it opened is closed (once); the first
  error is returned.
\<close>

definition writeImageArchive :: "err option \<times> err option list \<Rightarrow> err + unit" where
  "writeImageArchive r =
     (case foldl (\<lambda>e closeErr. if e = None then closeErr else e) (fst r) (snd r) of
        None \<Rightarrow> Inr ()
      | Some e \<Rightarrow> Inl e)"

definition loadImage :: "cache_env \<Rightarrow> image_handle \<Rightarrow> string \<Rightarrow> string cp" where
  "loadImage E img tag =
     andThen (attempt (ask (\<lambda>n. writeImageArchive (dc_write E n)))) (\<lambda>written.
     andThen (attempt (check (dc_file E))) (\<lambda>closed.
     andThen (pureE written) (\<lambda>_.
     andThen (pureE closed) (\<lambda>_.
     andThen (check (dc_file E)) (\<lambda>_.
     andThen (called Loaded) (\<lambda>_.
     andThen (ask (dc_load E)) (\<lambda>messages.
     andThen (pureE (loadMessages messages)) (\<lambda>_.
     andThen (imageInspect E tag) (\<lambda>result.
     andThen (pureE result) (\<lambda>i.
     verifyCache E img i))))))))))"

definition inTempDir :: "cache_env \<Rightarrow> 'a cp \<Rightarrow> 'a cp" where
  "inTempDir E m =
     andThen (check (dc_mkdir E)) (\<lambda>_.
     andThen (modify (\<lambda>w. w\<lparr>cw_dirs := Suc (cw_dirs w)\<rparr>)) (\<lambda>_.
     after m (\<lambda>w. w\<lparr>cw_dirs := cw_dirs w - 1\<rparr>)))"

definition withTag :: "cache_env \<Rightarrow> string \<Rightarrow> 'a cp \<Rightarrow> 'a cp" where
  "withTag E tag m =
     andThen (check (\<lambda>n. dc_acquire E n tag)) (\<lambda>_.
     andThen (modify (\<lambda>w. w\<lparr>cw_held := tag # cw_held w\<rparr>)) (\<lambda>_.
     after m (\<lambda>w. w\<lparr>cw_held := remove1 tag (cw_held w)\<rparr>)))"

definition cacheTag :: "image_handle \<Rightarrow> string" where
  "cacheTag img = ''localhost/opensbx-cache:'' @ trimPrefix (ih_ManifestDigest img) ''sha256:''"

definition MaterializeImage :: "cache_env \<Rightarrow> image_handle \<Rightarrow> string cp" where
  "MaterializeImage E img =
     andThen (check (dc_ctx E)) (\<lambda>_.
     andThen (pureE (dc_newTag E (cacheTag img))) (\<lambda>tag.
     withTag E tag (inTempDir E
       (andThen (check (dc_file E)) (\<lambda>_.
        andThen (imageInspect E tag) (\<lambda>found.
        case found of
          Inr i \<Rightarrow> verifyCache E img i
        | Inl e \<Rightarrow> if \<not> IsNotFound e then throw e else loadImage E img tag))))))"

section \<open>What was verified\<close>

lemma pureE_ok [ok_simps]: "pureE r w = (Inr x, w') \<longleftrightarrow> r = Inr x \<and> w' = w"
  by (auto simp: pureE_def)

lemma ask_ok [ok_simps]:
  "ask f w = (Inr x, w') \<longleftrightarrow> f (cw_tick w) = Inr x \<and> w' = w\<lparr>cw_tick := Suc (cw_tick w)\<rparr>"
  by (auto simp: ask_def)

lemma check_ok [ok_simps]:
  "check f w = (Inr x, w') \<longleftrightarrow> f (cw_tick w) = None \<and> w' = w\<lparr>cw_tick := Suc (cw_tick w)\<rparr>"
  by (auto simp: check_def ask_def split: option.splits)

lemma wantedLayers_result:
  assumes "wantedLayers ps hs acc = Inr wanted" "length ps = length hs" "distinct (map fst acc)"
  shows "distinct (map fst wanted) \<and> (\<forall>p h. map_of acc p = Some h \<longrightarrow> map_of wanted p = Some h) \<and>
    (\<forall>i < length ps. map_of wanted (trimPrefix (ps ! i) ''./'') = Some (hs ! i)) \<and>
    fst ` set wanted = fst ` set acc \<union> (\<lambda>p. trimPrefix p ''./'') ` set ps"
  using assms
proof (induction ps hs acc rule: wantedLayers.induct)
  case (1 p ps h hs acc)
  let ?p = "trimPrefix p ''./''"
  have ok: "map_of acc ?p = None \<or> map_of acc ?p = Some h"
    and rest: "wantedLayers ps hs (store ?p h acc) = Inr wanted"
    using 1(3) by (auto simp: Let_def split: option.splits if_splits)
  have ih: "distinct (map fst wanted) \<and> (\<forall>q g. map_of (store ?p h acc) q = Some g \<longrightarrow> map_of wanted q = Some g) \<and>
    (\<forall>i < length ps. map_of wanted (trimPrefix (ps ! i) ''./'') = Some (hs ! i)) \<and>
    fst ` set wanted = fst ` set (store ?p h acc) \<union> (\<lambda>p. trimPrefix p ''./'') ` set ps"
  proof (cases "map_of acc ?p")
    case None
    then show ?thesis
      using 1(1) [OF refl None rest] 1(4,5) by (simp add: distinct_store)
  next
    case (Some g)
    then show ?thesis
      using 1(2) [OF refl Some _ rest] Some ok 1(4,5) by (simp add: distinct_store)
  qed
  have keys: "fst ` set (store ?p h acc) = insert ?p (fst ` set acc)"
    by force
  have kept: "map_of wanted q = Some g" if "map_of (store ?p h acc) q = Some g" for q g
    using ih that by blast
  have "map_of wanted ?p = Some h"
    using kept [of ?p h] by simp
  then have "\<forall>i < length (p # ps). map_of wanted (trimPrefix ((p # ps) ! i) ''./'') = Some ((h # hs) ! i)"
    using ih by (auto simp: less_Suc_eq_0_disj)
  moreover have "map_of wanted q = Some g" if "map_of acc q = Some g" for q g
    using kept [of q g] ok that by (cases "q = ?p") auto
  ultimately show ?case
    using ih unfolding keys by simp
qed auto

lemma checkEntries_result:
  assumes "checkEntries E n wanted ts seen = Inr seen'"
  shows "set seen' = set seen \<union> {e \<in> fst ` set wanted. \<exists>t \<in> set ts. trimPrefix (te_Name t) ''./'' = e} \<and>
    (distinct seen \<longrightarrow> distinct seen') \<and>
    (\<forall>t \<in> set ts. \<forall>h. map_of wanted (trimPrefix (te_Name t) ''./'') = Some h \<longrightarrow>
       te_Regular t \<and> (\<exists>k. cacheLayerHash E k (te_Reader t) = Inr h))"
  using assms
proof (induction E n wanted ts seen rule: checkEntries.induct)
  case (2 E n wanted t ts seen)
  show ?case
  proof (cases "map_of wanted (trimPrefix (te_Name t) ''./'')")
    case None
    then have "checkEntries E n wanted ts seen = Inr seen'"
      using 2(3) by simp
    moreover have "trimPrefix (te_Name t) ''./'' \<notin> fst ` set wanted"
      using None by (simp add: map_of_eq_None_iff)
    ultimately show ?thesis
      using 2(1) [OF refl None] None by auto
  next
    case (Some h)
    then have k: "trimPrefix (te_Name t) ''./'' \<in> fst ` set wanted"
      by (force dest: map_of_SomeD)
    have t: "trimPrefix (te_Name t) ''./'' \<notin> set seen" "te_Regular t"
        "cacheLayerHash E (n + length seen) (te_Reader t) = Inr h"
      and rest: "checkEntries E n wanted ts (trimPrefix (te_Name t) ''./'' # seen) = Inr seen'"
      using 2(3) Some by (auto simp: Let_def)
    from 2(2) [OF refl Some _ t(3) _ rest] show ?thesis
      using t k Some by auto
  qed
qed simp

text \<open>The layers of a saved archive: each of the listed paths has an entry, and whatever entry bears its name is right.\<close>

definition isLayer :: "tar_entry \<Rightarrow> string \<Rightarrow> bool" where
  "isLayer t p \<longleftrightarrow> trimPrefix (te_Name t) ''./'' = trimPrefix p ''./''"

definition layersMatch :: "cache_env \<Rightarrow> string \<Rightarrow> string list \<Rightarrow> v1_hash list \<Rightarrow> bool" where
  "layersMatch E archive paths diffIDs \<longleftrightarrow> length paths = length diffIDs \<and>
     (\<forall>i < length paths. (\<exists>t \<in> set (fst (dc_entries E archive)). isLayer t (paths ! i)) \<and>
       (\<forall>t \<in> set (fst (dc_entries E archive)). isLayer t (paths ! i) \<longrightarrow>
          te_Regular t \<and> (\<exists>k. cacheLayerHash E k (te_Reader t) = Inr (diffIDs ! i))))"

lemma verifyCacheLayers_ok:
  assumes "verifyCacheLayers E archive paths diffIDs w = (Inr u, w')" "length paths = length diffIDs"
  shows "layersMatch E archive paths diffIDs"
proof -
  obtain wanted n where wanted: "wantedLayers paths diffIDs [] = Inr wanted"
    and c: "checkArchive E n wanted archive = Inr ()"
    using assms(1) by (auto simp: verifyCacheLayers_def ok_simps)
  obtain ts fault where ts: "dc_entries E archive = (ts, fault)"
    by fastforce
  obtain seen where seen: "checkEntries E n wanted ts [] = Inr seen" "length seen = length wanted"
    using c by (auto simp: checkArchive_def ts split: option.splits)
  have w: "distinct (map fst wanted)" "fst ` set wanted = (\<lambda>p. trimPrefix p ''./'') ` set paths"
    "\<forall>i < length paths. map_of wanted (trimPrefix (paths ! i) ''./'') = Some (diffIDs ! i)"
    using wantedLayers_result [OF wanted assms(2)] by auto
  have s: "set seen = {e \<in> fst ` set wanted. \<exists>t \<in> set ts. trimPrefix (te_Name t) ''./'' = e}" "distinct seen"
    and good: "\<forall>t \<in> set ts. \<forall>h. map_of wanted (trimPrefix (te_Name t) ''./'') = Some h \<longrightarrow>
       te_Regular t \<and> (\<exists>k. cacheLayerHash E k (te_Reader t) = Inr h)"
    using checkEntries_result [OF seen(1)] by auto
  have "card (set seen) = card (fst ` set wanted)"
    using distinct_card [OF s(2)] distinct_card [OF w(1)] seen(2) by simp
  then have all: "set seen = fst ` set wanted"
    using s(1) by (intro card_subset_eq) auto
  show ?thesis
    unfolding layersMatch_def ts fst_conv
  proof (intro conjI allI impI ballI)
    fix i assume i: "i < length paths"
    then have "trimPrefix (paths ! i) ''./'' \<in> set seen"
      unfolding all w(2) by auto
    then show "\<exists>t \<in> set ts. isLayer t (paths ! i)"
      unfolding s(1) isLayer_def by auto
    fix t assume "t \<in> set ts" "isLayer t (paths ! i)"
    then show "te_Regular t" "\<exists>k. cacheLayerHash E k (te_Reader t) = Inr (diffIDs ! i)"
      using good w(3) i unfolding isLayer_def by auto
  qed (rule assms(2))
qed

definition verifiedAs :: "cache_env \<Rightarrow> image_handle \<Rightarrow> string \<Rightarrow> bool" where
  "verifiedAs E img i \<longleftrightarrow> immutableID E i \<and>
     (\<exists>manifest. dc_digest E (ih_Content img) = Inr manifest \<and> digestString manifest = ih_ManifestDigest img) \<and>
     (\<exists>k stream archive x config cfg paths.
        dc_save E k i = Inr stream \<and> copied stream = (archive, None) \<and> int (length archive) \<le> MaxArchiveBytes \<and>
        dc_export E archive = Inr x \<and> ex_ConfigName x = Inr config \<and> digestString config = ih_ConfigDigest img \<and>
        ex_ConfigFile x = Inr cfg \<and> samePlatform (cf_Platform cfg) (ih_Platform img) \<and>
        dc_manifests E archive = Inr [paths] \<and> layersMatch E archive paths (cf_DiffIDs cfg))"

lemma checkExport_ok:
  assumes "checkExport E img config archive = Inr (paths, diffIDs)"
  shows "\<exists>x cfg. dc_export E archive = Inr x \<and> ex_ConfigName x = Inr config \<and> ex_ConfigFile x = Inr cfg \<and>
    samePlatform (cf_Platform cfg) (ih_Platform img) \<and> dc_manifests E archive = Inr [paths] \<and>
    diffIDs = cf_DiffIDs cfg \<and> length paths = length diffIDs"
  using assms by (auto simp: checkExport_def length_Suc_conv)

lemma ok_case_prod [ok_simps]:
  "(case p of (a, b) \<Rightarrow> f a b) w = (Inr y, w') \<longleftrightarrow> f (fst p) (snd p) w = (Inr y, w')"
  by (cases p) simp

lemma verifyCache_ok:
  assumes "verifyCache E img i w = (Inr r, w')"
  shows "r = i \<and> verifiedAs E img i"
proof -
  obtain manifest config k saved paths diffIDs v1 v2 where
      i: "immutableID E i" "dc_digest E (ih_Content img) = Inr manifest" "digestString manifest = ih_ManifestDigest img"
        "digestString config = ih_ConfigDigest img" "dc_save E k i = Inr saved"
    and c: "snd (copied saved) = None" "int (length (fst (copied saved))) \<le> MaxArchiveBytes"
    and x: "checkExport E img config (fst (copied saved)) = Inr (paths, diffIDs)"
    and l: "verifyCacheLayers E (fst (copied saved)) paths diffIDs v1 = (Inr (), v2)" and "r = i"
    using assms by (auto simp: verifyCache_def ok_simps called_def split: option.splits)
  note xs = checkExport_ok [OF x]
  then have "layersMatch E (fst (copied saved)) paths diffIDs"
    using verifyCacheLayers_ok [OF l] by blast
  then have "verifiedAs E img i"
    unfolding verifiedAs_def using i c xs by (metis prod.collapse)
  then show ?thesis
    using \<open>r = i\<close> by simp
qed

lemma loadImage_ok:
  assumes "loadImage E img tag w = (Inr r, w')"
  shows "verifiedAs E img r \<and> (\<exists>k. dc_inspect E k tag = Inr r)"
  using assms verifyCache_ok by (auto simp: loadImage_def imageInspect_def called_def ok_simps) blast+

lemma ok_after [ok_simps]: "after m f w = (Inr y, w') \<longleftrightarrow> (\<exists>v. m w = (Inr y, v) \<and> w' = f v)"
  by (auto simp: prog_defs split: prod.splits)

lemma imageInspect_ok: "imageInspect E tag w = (Inr r, w') \<Longrightarrow> \<exists>k. r = dc_inspect E k tag"
  by (auto simp: imageInspect_def ok_simps ask_def)

lemma MaterializeImage_ok:
  assumes "MaterializeImage E img w = (Inr r, w')"
  shows "verifiedAs E img r \<and> (\<exists>tag k. dc_newTag E (cacheTag img) = Inr tag \<and> dc_inspect E k tag = Inr r)"
proof -
  obtain tag v v' found k where t: "dc_newTag E (cacheTag img) = Inr tag" and k: "found = dc_inspect E k tag"
    and c: "(case found of Inr i \<Rightarrow> verifyCache E img i
        | Inl e \<Rightarrow> if \<not> IsNotFound e then throw e else loadImage E img tag) v = (Inr r, v')"
    using assms by (auto simp: MaterializeImage_def withTag_def inTempDir_def ok_simps dest!: imageInspect_ok)
  show ?thesis
  proof (cases found)
    case (Inl e)
    then show ?thesis
      using c t loadImage_ok [of E img tag v r v'] by (auto simp: ok_simps split: if_splits)
  next
    case (Inr i)
    then show ?thesis
      using c t k verifyCache_ok [of E img i v r v'] by auto
  qed
qed

section \<open>What is given back\<close>

lemma keeps_pure [keeps_rules]: "keeps I (pureE r)"
  by (simp add: keeps_def pureE_def)

definition resources :: "string list \<Rightarrow> nat \<Rightarrow> cache_world \<Rightarrow> bool" where
  "resources held dirs w \<longleftrightarrow> cw_held w = held \<and> cw_dirs w = dirs"

lemma resources_ask: "keeps (resources h d) (ask f)"
  by (simp add: keeps_def ask_def resources_def)

lemma resources_basic [keeps_rules]:
  "keeps (resources h d) (ask f)" "keeps (resources h d) (check g)" "keeps (resources h d) (called c)"
  by (simp_all add: keeps_def check_def ask_def called_def modify_def resources_def)

lemma resources_verify [keeps_rules]: "keeps (resources h d) (verifyCache E img i)"
  unfolding verifyCache_def verifyCacheLayers_def
  by (intro keeps_rules) (auto split: prod.split intro!: keeps_rules)

lemma resources_load [keeps_rules]: "keeps (resources h d) (loadImage E img tag)"
  unfolding loadImage_def imageInspect_def by (intro keeps_rules)

lemma resources_tempDir:
  assumes "keeps (resources h (Suc d)) m"
  shows "keeps (resources h d) (inTempDir E m)"
  unfolding keeps_def
proof (intro allI impI)
  fix w assume w: "resources h d w"
  let ?v = "snd (check (dc_mkdir E) w)"
  have "resources h (Suc d) (?v\<lparr>cw_dirs := Suc (cw_dirs ?v)\<rparr>)"
    using w by (simp add: resources_def check_def ask_def)
  then have "resources h (Suc d) (snd (m (?v\<lparr>cw_dirs := Suc (cw_dirs ?v)\<rparr>)))"
    using assms by (simp add: keeps_def)
  then show "resources h d (snd (inTempDir E m w))"
    using w by (cases "dc_mkdir E (cw_tick w)")
      (auto simp: inTempDir_def prog_defs check_def ask_def resources_def split: prod.splits)
qed

lemma resources_withTag:
  assumes "keeps (resources (tag # h) d) m"
  shows "keeps (resources h d) (withTag E tag m)"
  unfolding keeps_def
proof (intro allI impI)
  fix w assume w: "resources h d w"
  let ?v = "snd (check (\<lambda>n. dc_acquire E n tag) w)"
  have "resources (tag # h) d (?v\<lparr>cw_held := tag # cw_held ?v\<rparr>)"
    using w by (simp add: resources_def check_def ask_def)
  then have "resources (tag # h) d (snd (m (?v\<lparr>cw_held := tag # cw_held ?v\<rparr>)))"
    using assms by (simp add: keeps_def)
  then show "resources h d (snd (withTag E tag m w))"
    using w by (cases "dc_acquire E (cw_tick w) tag")
      (auto simp: withTag_def prog_defs check_def ask_def resources_def split: prod.splits)
qed

lemma resources_materialize: "keeps (resources h d) (MaterializeImage E img)"
  unfolding MaterializeImage_def imageInspect_def
  by (intro keeps_rules resources_withTag resources_tempDir)

text \<open>
  C35: An image ID that \<open>Materialize\<close> returns is what the engine answers for the private tag of the selected
  manifest, names immutable content, and was checked on an export of that very ID: the configuration has the
  digest of the selected image, the platform is the wanted one, every layer is in the archive, and each
  archive entry under a layer's name has content that hashes to the layer's diff ID. On every return,
  errors included, the lock on the tag and the temporary directory are given back.
\<close>

theorem materialized_image_is_the_selected_one:
  assumes "MaterializeImage E img w = (result, w')"
  shows "cw_held w' = cw_held w \<and> cw_dirs w' = cw_dirs w \<and>
    (\<forall>i. result = Inr i \<longrightarrow> verifiedAs E img i \<and>
       (\<exists>tag k. dc_newTag E (cacheTag img) = Inr tag \<and> dc_inspect E k tag = Inr i))"
  using assms MaterializeImage_ok [of E img w _ w']
    resources_materialize [of "cw_held w" "cw_dirs w" E img]
  by (auto simp: keeps_def resources_def)

section \<open>An engine that has loaded the image\<close>

definition cached_hash :: v1_hash where
  "cached_hash = \<lparr>h_Algorithm = ''sha256'', h_Hex = replicate 64 (CHR ''a'')\<rparr>"

definition demo_linux :: v1_platform where
  "demo_linux = \<lparr>v_OS = ''linux'', v_Architecture = ''arm64'', v_Variant = ''v8''\<rparr>"

definition demo_oci :: oci where
  "demo_oci = \<lparr>oci_sha = (\<lambda>b. if b = ''layer'' then replicate 64 (CHR ''b'') else replicate 64 (CHR ''c'')),
     oci_index = (\<lambda>_. Inl EOF), oci_manifest = (\<lambda>_. Inl EOF), oci_config = (\<lambda>_. Inl EOF),
     oci_isIndex = (\<lambda>_. False), oci_isImage = (\<lambda>_. False), oci_gunzip = (\<lambda>_. Inl EOF), oci_unzstd = (\<lambda>_. Inl EOF),
     oci_cancel = (\<lambda>_. None)\<rparr>"

definition demo_descriptor :: descriptor where
  "demo_descriptor = \<lparr>d_MediaType = [], d_Size = 0, d_Digest = cached_hash, d_URLs = [], d_Data = [], d_Platform = None, d_RefName = []\<rparr>"

definition cached_image :: image_handle where
  "cached_image = \<lparr>ih_RootDigest = [], ih_ManifestDigest = digestString cached_hash, ih_ConfigDigest = digestString cached_hash,
     ih_Platform = demo_linux\<lparr>v_Variant := []\<rparr>,
     ih_Content = \<lparr>lc_descriptor = demo_descriptor, lc_manifest = \<lparr>mf_SchemaVersion = 2, mf_Config = demo_descriptor, mf_Layers = []\<rparr>,
       lc_raw = [], lc_config = []\<rparr>\<rparr>"

text \<open>The tag is unknown at first; the image is loaded, saved and checked.\<close>

definition demo_cache :: cache_env where
  "demo_cache = \<lparr>dc_ctx = (\<lambda>_. None), dc_newTag = Inr, dc_acquire = (\<lambda>_ _. None), dc_mkdir = (\<lambda>_. None), dc_file = (\<lambda>_. None),
     dc_inspect = (\<lambda>n _. if n < 6 then Inl (Native True ''no such image'') else Inr ''sha256:f''),
     dc_write = (\<lambda>_. (None, [None])), dc_load = (\<lambda>_. Inr [Inr []]), dc_save = (\<lambda>_ _. Inr (''archive'', None)),
     dc_newHash = (\<lambda>_. Inr cached_hash), dc_digest = (\<lambda>_. Inr cached_hash), dc_config = (\<lambda>_. Inr cached_hash),
     dc_export = (\<lambda>_. Inr \<lparr>ex_ConfigName = Inr cached_hash, ex_ConfigFile = Inr \<lparr>cf_Platform = demo_linux,
        cf_RootFSType = ''layers'', cf_DiffIDs = [\<lparr>h_Algorithm = ''sha256'', h_Hex = replicate 64 (CHR ''b'')\<rparr>], cf_Created = []\<rparr>\<rparr>),
     dc_manifests = (\<lambda>_. Inr [[''layer.tar'']]),
     dc_entries = (\<lambda>_. ([\<lparr>te_Name = ''./layer.tar'', te_Regular = True, te_Reader = (''layer'', None)\<rparr>], None)),
     dc_gunzip = (\<lambda>_. Inl EOF), dc_unzstd = (\<lambda>_. Inl EOF), dc_oci = demo_oci\<rparr>"

definition demo_cache_world :: cache_world where
  "demo_cache_world = \<lparr>cw_tick = 0, cw_held = [], cw_dirs = 0, cw_calls = []\<rparr>"

lemma demo_verified: "fst (verifyCache demo_cache cached_image ''sha256:f'' w) = Inr ''sha256:f''"
proof -
  have hash: "digestString cached_hash = ih_ManifestDigest cached_image" "digestString cached_hash = ih_ConfigDigest cached_image"
    by (simp_all add: cached_image_def)
  have i: "immutableID demo_cache ''sha256:f''"
    by (simp add: immutableID_def demo_cache_def cached_hash_def list_all_iff hexDigit_def)
  have c: "copied (''archive'', None) = (''archive'', None)"
    by (simp add: copied_def MaxArchiveBytes_def)
  have x: "checkExport demo_cache cached_image cached_hash ''archive'' =
      Inr ([''layer.tar''], [\<lparr>h_Algorithm = ''sha256'', h_Hex = replicate 64 (CHR ''b'')\<rparr>])"
    by (simp add: checkExport_def demo_cache_def cached_image_def demo_linux_def samePlatform_def canonicalPlatform_def guardE_def)
  have l: "verifyCacheLayers demo_cache ''archive'' [''layer.tar'']
      [\<lparr>h_Algorithm = ''sha256'', h_Hex = replicate 64 (CHR ''b'')\<rparr>] v = (Inr (), v\<lparr>cw_tick := Suc (Suc (cw_tick v))\<rparr>)" for v
    by (simp add: verifyCacheLayers_def prog_defs pureE_def check_def ask_def demo_cache_def checkArchive_def
      trimPrefix_def hasPrefix_def store_def cacheLayerHash_def readUpTo_def MaxArchiveBytes_def guardE_def sha256_def demo_oci_def)
  show ?thesis
    using hash i c x l
    by (simp add: verifyCache_def prog_defs pureE_def check_def ask_def called_def guardE_def)
      (simp add: demo_cache_def MaxArchiveBytes_def c x l)
qed

lemma demo_materialized:
  "fst (MaterializeImage demo_cache cached_image demo_cache_world) = Inr ''sha256:f''"
proof -
  have e: "dc_ctx demo_cache = (\<lambda>_. None)" "dc_newTag demo_cache = Inr" "dc_acquire demo_cache = (\<lambda>_ _. None)"
    "dc_mkdir demo_cache = (\<lambda>_. None)" "dc_file demo_cache = (\<lambda>_. None)" "dc_load demo_cache = (\<lambda>_. Inr [Inr []])"
    "dc_write demo_cache = (\<lambda>_. (None, [None]))"
    "dc_inspect demo_cache = (\<lambda>n _. if n < 6 then Inl (Native True ''no such image'') else Inr ''sha256:f'')"
    by (simp_all add: demo_cache_def)
  show ?thesis
    using demo_verified
    by (simp add: MaterializeImage_def withTag_def inTempDir_def imageInspect_def loadImage_def writeImageArchive_def e prog_defs pureE_def
      check_def ask_def called_def demo_cache_world_def split: prod.split) (metis fst_conv)
qed

lemma materialized_image_is_the_selected_one_witness:
  "verifiedAs demo_cache cached_image ''sha256:f''"
proof -
  obtain w' where "MaterializeImage demo_cache cached_image demo_cache_world = (Inr ''sha256:f'', w')"
    using demo_materialized by (metis prod.collapse)
  from materialized_image_is_the_selected_one [OF this] show ?thesis
    by simp
qed

end
