(* ===== verification/Api_Client.thy ===== *)
theory Api_Client
  imports Http_Api Safe_Text Net_Address
begin

text \<open>
  \<open>src/internal/client/client.go\<close> and \<open>ndjson.go\<close>: the HTTP client of the command line. The HTTP transport, JSON and
  MIME parsing are parameters; an exchange is what the transport returns for one request. A body is its
  bytes and the error that ends it, \<open>None\<close> for a complete one. \<open>bufio.Scanner\<close> over lines is written out.
\<close>

section \<open>Addresses\<close>

record api_client =
  cl_addr :: string
  cl_token :: string

definition DefaultAddr :: string where
  "DefaultAddr = ''127.0.0.1:18089''"

text \<open>\<open>parseIP\<close>: the text of the parsed address and whether it is a loopback address.\<close>

definition newClient :: "(string \<Rightarrow> (string \<times> bool) option) \<Rightarrow> string \<Rightarrow> string \<Rightarrow> err + api_client" where
  "newClient parseIP addr0 token =
     (let addr = (if addr0 = [] then DefaultAddr else addr0) in
      case SplitHostPort addr of
        None \<Rightarrow> Inl (Msg ''--addr must be a loopback host:port, for example 127.0.0.1:18089 or [::1]:18089'')
      | Some (host, port) \<Rightarrow>
          (case parseIP host of
             Some (ip, True) \<Rightarrow>
               (case ParseUint 16 port of
                  None \<Rightarrow> Inl (Msg ''--addr port must be between 1 and 65535'')
                | Some p \<Rightarrow>
                    if p = 0 then Inl (Msg ''--addr port must be between 1 and 65535'')
                    else Inr \<lparr>cl_addr = JoinHostPort ip (Itoa p), cl_token = token\<rparr>)
           | _ \<Rightarrow> Inl (Msg ''--addr requires a numeric loopback IP; remote destinations are not supported'')))"

section \<open>Errors\<close>

text \<open>\<open>requestError\<close> with its cause and message, an answer of the server that is no success, or another error.\<close>

datatype client_error = RequestError err string | ServerAnswer nat string | ClientError err

definition mutation :: "string \<Rightarrow> bool" where
  "mutation method \<longleftrightarrow> method \<noteq> ''GET'' \<and> method \<noteq> ''HEAD'' \<and> method \<noteq> ''OPTIONS''"

text \<open>\<open>strings.ReplaceAll\<close> for a nonempty \<open>old\<close>.\<close>

function replaceAll :: "string \<Rightarrow> string \<Rightarrow> string \<Rightarrow> string" where
  "replaceAll old new s =
     (if old = [] \<or> s = [] then s
      else if hasPrefix s old then new @ replaceAll old new (drop (length old) s)
      else hd s # replaceAll old new (tl s))"
  by pat_completeness auto
termination replaceAll
  by (relation "measure (\<lambda>(old, new, s). length s)") auto

declare replaceAll.simps [simp del]

definition safeText :: "(nat \<Rightarrow> bool) \<Rightarrow> api_client \<Rightarrow> string \<Rightarrow> string" where
  "safeText cf c value =
     Escape cf (if cl_token c \<noteq> [] then replaceAll (cl_token c) ''[redacted]'' value else value) False"

definition uncertainMessage :: "api_client \<Rightarrow> string \<Rightarrow> string" where
  "uncertainMessage c detail = ''OpenSBX at '' @ cl_addr c @ '': mutation outcome is uncertain: '' @ detail @
     ''; inspect resource or command history before retrying''"

definition failure :: "(nat \<Rightarrow> bool) \<Rightarrow> api_client \<Rightarrow> err \<Rightarrow> string \<Rightarrow> bool \<Rightarrow> client_error" where
  "failure cf c cause method sent =
     (let detail = safeText cf c (errText cause) in
      RequestError cause
        (if sent \<and> mutation method then uncertainMessage c detail
         else if sent then ''OpenSBX request at '' @ cl_addr c @ '' failed: '' @ detail
         else ''cannot reach OpenSBX at '' @ cl_addr c @ '': '' @ detail @
           ''; check the configured endpoint and that the server is running''))"

section \<open>Paths\<close>

text \<open>\<open>url.PathEscape\<close> and \<open>url.PathUnescape\<close>.\<close>

definition unreserved :: "char \<Rightarrow> bool" where
  "unreserved ch \<longleftrightarrow> isDigit ch \<or> isLower ch \<or> isUpper ch \<or> ch \<in> set ''-_.~$&+:=@''"

definition upperHex :: "nat \<Rightarrow> char" where
  "upperHex d = ''0123456789ABCDEF'' ! (d mod 16)"

definition PathEscape :: "string \<Rightarrow> string" where
  "PathEscape s = concat (map (\<lambda>ch. if unreserved ch then [ch]
     else [CHR ''%'', upperHex (of_char ch div 16), upperHex (of_char ch)]) s)"

definition unhex :: "char \<Rightarrow> nat option" where
  "unhex ch =
     (if isDigit ch then Some (of_char ch - 0x30)
      else if ch \<in> set ''abcdef'' then Some (of_char ch - 0x57)
      else if ch \<in> set ''ABCDEF'' then Some (of_char ch - 0x37)
      else None)"

fun PathUnescape :: "string \<Rightarrow> string option" where
  "PathUnescape [] = Some []"
| "PathUnescape (ch # s) =
     (if ch = CHR ''%'' then
        (case s of
           a # b # s' \<Rightarrow>
             (case (unhex a, unhex b) of
                (Some x, Some y) \<Rightarrow> map_option (\<lambda>t. char_of (16 * x + y) # t) (PathUnescape s')
              | _ \<Rightarrow> None)
         | _ \<Rightarrow> None)
      else map_option (\<lambda>t. ch # t) (PathUnescape s))"

fun joinSlash :: "string list \<Rightarrow> string" where
  "joinSlash [] = []"
| "joinSlash [s] = s"
| "joinSlash (s # ss) = s @ CHR ''/'' # joinSlash ss"

definition Path :: "string list \<Rightarrow> string" where
  "Path parts = ''/v1/'' @ joinSlash (map PathEscape parts)"

section \<open>One exchange\<close>

record http_response =
  hr_Status :: nat
  hr_ContentType :: string
  hr_Body :: string
  hr_Fault :: "err option"

text \<open>
  What the surroundings do with one request: the marshalled body, the transport (an error, with whether
  the headers had been written), the context when it failed, the two messages that can be decoded from the
  beginning of an error body, and the parsers of the standard library. \<open>xc_Decode\<close> decodes the first value of
  a body and tells whether nothing follows it.
\<close>

record 'a http_exchange =
  xc_Marshal :: "err option"
  xc_Build :: "err option"
  xc_Transport :: "(err \<times> bool) + http_response"
  xc_Ctx :: "err option"
  xc_Problem :: "string \<Rightarrow> string \<times> string"
  xc_StatusText :: "nat \<Rightarrow> string"
  xc_MediaType :: "string \<Rightarrow> string option"
  xc_Decode :: "string \<times> err option \<Rightarrow> err + 'a \<times> bool"

definition openResponse ::
  "(nat \<Rightarrow> bool) \<Rightarrow> api_client \<Rightarrow> 'a http_exchange \<Rightarrow> string \<Rightarrow> client_error + http_response" where
  "openResponse cf c xc method =
     (case xc_Marshal xc of
        Some e \<Rightarrow> Inl (ClientError e)
      | None \<Rightarrow>
     (case xc_Build xc of
        Some e \<Rightarrow> Inl (ClientError e)
      | None \<Rightarrow>
     (case xc_Transport xc of
        Inl (e, sent) \<Rightarrow> Inl (failure cf c (case xc_Ctx xc of Some x \<Rightarrow> x | None \<Rightarrow> e) method sent)
      | Inr res \<Rightarrow>
          if hr_Status res < 200 \<or> hr_Status res \<ge> 300 then
            (case xc_Problem xc (take (64 * 1024) (hr_Body res)) of (msg, er) \<Rightarrow>
             let message = (if msg \<noteq> [] then msg else if er \<noteq> [] then er else xc_StatusText xc (hr_Status res)) in
             Inl (ServerAnswer (hr_Status res) (safeText cf c message)))
          else Inr res)))"

text \<open>What follows a successful answer; \<open>wanted\<close>: the caller wants a result.\<close>

definition readResult :: "'a http_exchange \<Rightarrow> bool \<Rightarrow> http_response \<Rightarrow> err + 'a option" where
  "readResult xc wanted res =
     (if hr_Status res = 204 then Inr None
      else if \<not> wanted then (case hr_Fault res of None \<Rightarrow> Inr None | Some e \<Rightarrow> Inl e)
      else if xc_MediaType xc (hr_ContentType res) \<noteq> Some ''application/json''
      then Inl (Msg ''expected a JSON response from OpenSBX'')
      else (case xc_Decode xc (hr_Body res, hr_Fault res) of
          Inl e \<Rightarrow> Inl (Wrap ''invalid API JSON response'' e)
        | Inr (x, ended) \<Rightarrow>
            if \<not> ended then Inl (Msg ''invalid API JSON response: expected exactly one JSON value'')
            else Inr (Some x)))"

definition Request ::
  "(nat \<Rightarrow> bool) \<Rightarrow> api_client \<Rightarrow> 'a http_exchange \<Rightarrow> string \<Rightarrow> bool \<Rightarrow> client_error + 'a option" where
  "Request cf c xc method wanted =
     (case openResponse cf c xc method of
        Inl e \<Rightarrow> Inl e
      | Inr res \<Rightarrow>
          (case readResult xc wanted res of
             Inr x \<Rightarrow> Inr x
           | Inl e \<Rightarrow> Inl (if mutation method then failure cf c e method True else ClientError e)))"

definition openStream :: "(nat \<Rightarrow> bool) \<Rightarrow> api_client \<Rightarrow> 'a http_exchange \<Rightarrow> client_error + http_response" where
  "openStream cf c xc =
     (case openResponse cf c xc ''GET'' of
        Inl e \<Rightarrow> Inl e
      | Inr res \<Rightarrow>
          if xc_MediaType xc (hr_ContentType res) \<noteq> Some ''application/x-ndjson''
          then Inl (ClientError (Msg ''expected an NDJSON stream from OpenSBX''))
          else Inr res)"

section \<open>Records of a stream\<close>

definition MaxStreamFrameBytes :: nat where
  "MaxStreamFrameBytes = 2 ^ 20"

text \<open>The lines that the scanner finds; a last one without a newline counts.\<close>

definition scanLines :: "string \<Rightarrow> string list" where
  "scanLines body = (let ls = splitOn (CHR 0x0A) body in if last ls = [] then butlast ls else ls)"

definition dropCR :: "string \<Rightarrow> string" where
  "dropCR s = (if s \<noteq> [] \<and> last s = CHR 0x0D then butlast s else s)"

text \<open>\<open>utf8.Valid\<close>.\<close>

definition validUtf8 :: "string \<Rightarrow> bool" where
  "validUtf8 s \<longleftrightarrow> fst (scanText (bytes_of s)) = length s"

text \<open>
  The next record and the lines that are left. The buffer of the scanner holds the limit and two bytes:
  a longer line ends the scan.
\<close>

fun decodeRecord :: "(string \<Rightarrow> err + 'a) \<Rightarrow> err option \<Rightarrow> string list \<Rightarrow> (err + 'a) \<times> string list" where
  "decodeRecord un fault [] =
     (Inl (case fault of
        Some e \<Rightarrow> Wrap ''NDJSON frame limit (1 MiB) exceeded or stream read failed'' e
      | None \<Rightarrow> EOF), [])"
| "decodeRecord un fault (l # ls) =
     (if length l > MaxStreamFrameBytes + 1
      then (Inl (Wrap ''NDJSON frame limit (1 MiB) exceeded or stream read failed'' (Msg ''bufio.Scanner: token too long'')), [])
      else
        let frame = dropCR l in
        if length frame > MaxStreamFrameBytes
        then (Inl (Msg ''NDJSON frame exceeds the 1 MiB encoded record limit''), ls)
        else if TrimSpace frame = [] then decodeRecord un fault ls
        else if \<not> validUtf8 frame then (Inl (Msg ''NDJSON frame contains invalid UTF-8''), ls)
        else (un frame, ls))"

lemma decodeRecord_rest: "decodeRecord un fault ls = (Inr x, ls') \<Longrightarrow> length ls' < length ls"
  by (induction ls) (auto simp: Let_def split: if_splits)

lemmas decodeRecord_smaller = decodeRecord_rest [OF sym]

text \<open>The loop of \<open>Wait\<close> over the lines.\<close>

function waitLoop ::
  "(string \<Rightarrow> err + command_detail) \<Rightarrow> err option \<Rightarrow> string \<Rightarrow> string \<Rightarrow> string list \<Rightarrow> err + command_detail" where
  "waitLoop un fault sandboxID commandID ls =
     (case decodeRecord un fault ls of
        (Inl e, _) \<Rightarrow>
          Inl (if errors_is e EOF
               then Msg (''command '' @ commandID @ '': wait stream ended without a confirmed exit code; inspect or wait again'')
               else Wrap (''command '' @ commandID @ '': invalid or interrupted wait stream'') e)
      | (Inr item, ls') \<Rightarrow>
          if cd_ID item \<noteq> commandID \<or> cd_SandboxID item \<noteq> sandboxID
          then Inl (Msg ''wait stream returned a mismatched command'')
          else if cd_ExitCode item \<noteq> None then Inr item
          else waitLoop un fault sandboxID commandID ls')"
  by pat_completeness auto
termination waitLoop
  by (relation "measure (\<lambda>(un, fault, i, c, ls). length ls)") (auto dest: decodeRecord_smaller)

declare waitLoop.simps [simp del]

definition Wait ::
  "(nat \<Rightarrow> bool) \<Rightarrow> api_client \<Rightarrow> 'a http_exchange \<Rightarrow> (string \<Rightarrow> err + command_detail) \<Rightarrow> string \<Rightarrow> string
    \<Rightarrow> client_error + command_detail" where
  "Wait cf c xc un sandboxID commandID =
     (case openStream cf c xc of
        Inl e \<Rightarrow> Inl e
      | Inr res \<Rightarrow>
          (case waitLoop un (hr_Fault res) sandboxID commandID (scanLines (hr_Body res)) of
             Inl e \<Rightarrow> Inl (ClientError e)
           | Inr item \<Rightarrow> Inr item))"

section \<open>Logs\<close>

text \<open>
  What has been written to the two writers; a write may fail, asked with what was written before. A
  record is its type and its data, \<open>None\<close> if the data is missing.
\<close>

record printed =
  pr_Out :: string
  pr_Err :: string
  pr_Writes :: nat

function logsLoop ::
  "(nat \<Rightarrow> bool) \<Rightarrow> (nat \<Rightarrow> bool) \<Rightarrow> api_client \<Rightarrow> (string \<Rightarrow> err + string \<times> string option) \<Rightarrow> (printed \<Rightarrow> string \<Rightarrow> err option) \<Rightarrow> err option
    \<Rightarrow> string list \<Rightarrow> printed \<Rightarrow> err option \<times> printed" where
  "logsLoop cf pr c un fails fault ls p =
     (case decodeRecord un fault ls of
        (Inl e, _) \<Rightarrow> (if errors_is e EOF then None else Some (Wrap ''invalid or interrupted log stream'' e), p)
      | (Inr (kind, None), ls') \<Rightarrow> (Some (Msg ''log record is missing text data''), p)
      | (Inr (kind, Some d), ls') \<Rightarrow>
          if kind = ''error'' then (Some (Msg (''log stream error: '' @ safeText cf c d)), p)
          else if kind \<noteq> ''stdout'' \<and> kind \<noteq> ''stderr'' then (Some (Msg (''unexpected log stream type '' @ Quote pr kind)), p)
          else (case fails p d of
              Some e \<Rightarrow> (Some (Wrap ''write command output'' e), p)
            | None \<Rightarrow> logsLoop cf pr c un fails fault ls'
                (if kind = ''stdout'' then p\<lparr>pr_Out := pr_Out p @ d, pr_Writes := Suc (pr_Writes p)\<rparr>
                 else p\<lparr>pr_Err := pr_Err p @ d, pr_Writes := Suc (pr_Writes p)\<rparr>)))"
  by pat_completeness auto
termination logsLoop
  by (relation "measure (\<lambda>(cf, pr, c, un, fails, fault, ls, p). length ls)") (auto dest: decodeRecord_smaller)

declare logsLoop.simps [simp del]

definition Logs ::
  "(nat \<Rightarrow> bool) \<Rightarrow> (nat \<Rightarrow> bool) \<Rightarrow> api_client \<Rightarrow> 'a http_exchange \<Rightarrow> (string \<Rightarrow> err + string \<times> string option) \<Rightarrow> (printed \<Rightarrow> string \<Rightarrow> err option)
    \<Rightarrow> printed \<Rightarrow> client_error option \<times> printed" where
  "Logs cf pr c xc un fails p =
     (case openStream cf c xc of
        Inl e \<Rightarrow> (Some e, p)
      | Inr res \<Rightarrow>
          (case logsLoop cf pr c un fails (hr_Fault res) (scanLines (hr_Body res)) p of
             (e, p') \<Rightarrow> (map_option ClientError e, p')))"

section \<open>Targets\<close>

text \<open>\<open>strings.Join(choices, ", ")\<close>.\<close>

fun joinChoices :: "string list \<Rightarrow> string" where
  "joinChoices [] = []"
| "joinChoices [s] = s"
| "joinChoices (s # ss) = s @ '', '' @ joinChoices ss"

definition matching :: "string \<Rightarrow> summary_view list \<Rightarrow> summary_view list" where
  "matching target items =
     (let exact = filter (\<lambda>x. ss_ID x = target \<or> ss_Name x = target) items in
      if exact = [] then filter (\<lambda>x. target \<noteq> [] \<and> hasPrefix (ss_ID x) target) items else exact)"

text \<open>The list of sandboxes is what \<open>Request\<close> decodes.\<close>

definition Resolve ::
  "(nat \<Rightarrow> bool) \<Rightarrow> (nat \<Rightarrow> bool) \<Rightarrow> api_client \<Rightarrow> summary_view list http_exchange \<Rightarrow> string \<Rightarrow> client_error + string" where
  "Resolve cf pr c xc target =
     (case Request cf c xc ''GET'' True of
        Inl e \<Rightarrow> Inl e
      | Inr r \<Rightarrow>
          (case matching target (case r of None \<Rightarrow> [] | Some items \<Rightarrow> items) of
             [item] \<Rightarrow> Inr (ss_ID item)
           | [] \<Rightarrow> Inl (ClientError (Msg (''sandbox '' @ Quote pr target @ '' not found; use opensbx ls'')))
           | ms \<Rightarrow> Inl (ClientError (Msg (''sandbox '' @ Quote pr target @ '' is ambiguous: '' @
               joinChoices (map (\<lambda>x. Escape cf (ss_ID x @ '' ('' @ ss_Name x @ '')'') False) ms) @
               ''; use a full ID'')))))"

section \<open>Paths name what was asked for\<close>

lemma unhex_upperHex: "unhex (upperHex d) = Some (d mod 16)"
proof -
  have "\<forall>k < 16. unhex (''0123456789ABCDEF'' ! k) = Some k"
    by code_simp
  then show ?thesis
    by (simp add: upperHex_def)
qed

lemma upperHex_digit: "upperHex d \<in> set ''0123456789ABCDEF''"
  unfolding upperHex_def by (rule nth_mem) simp

lemma unreserved_percent: "\<not> unreserved (CHR ''%'')" "\<not> unreserved (CHR ''/'')"
  by code_simp+

lemma PathEscape_Cons:
  "PathEscape (ch # s) = (if unreserved ch then [ch]
     else [CHR ''%'', upperHex (of_char ch div 16), upperHex (of_char ch)]) @ PathEscape s"
  by (simp add: PathEscape_def)

lemma PathUnescape_escape: "PathUnescape (PathEscape s) = Some s"
proof (induction s)
  case (Cons ch s)
  have "of_char ch div 16 < (16 :: nat)"
    using of_char_mod_256 [of ch, where ?'a = nat] by linarith
  then show ?case
    using Cons unreserved_percent(1) by (cases "unreserved ch") (auto simp: PathEscape_Cons unhex_upperHex)
qed (simp add: PathEscape_def)

lemma PathEscape_slash: "CHR ''/'' \<notin> set (PathEscape s)"
proof (induction s)
  case (Cons ch s)
  then show ?case
    using unreserved_percent(2) upperHex_digit [of "of_char ch div 16"] upperHex_digit [of "of_char ch"]
    by (auto simp: PathEscape_Cons)
qed (simp add: PathEscape_def)

lemma splitOn_joinSlash:
  "(\<And>x. x \<in> set (s # ss) \<Longrightarrow> CHR ''/'' \<notin> set x) \<Longrightarrow> splitOn (CHR ''/'') (joinSlash (s # ss)) = s # ss"
  by (induction ss arbitrary: s) (simp_all add: splitOn_absent splitOn_append)

text \<open>
  The path of a request names exactly the components that were asked for, whatever bytes they hold:
  splitting it at the slashes and unescaping every part, as the server's router does, gives them back.
\<close>

lemma path_names_its_components:
  "hasPrefix (Path (p # ps)) ''/v1/'' \<and>
   map PathUnescape (splitOn (CHR ''/'') (drop 4 (Path (p # ps)))) = map Some (p # ps)"
proof -
  have "splitOn (CHR ''/'') (joinSlash (map PathEscape (p # ps))) = map PathEscape (p # ps)"
    using splitOn_joinSlash [of "PathEscape p" "map PathEscape ps"] PathEscape_slash by auto
  then show ?thesis
    by (simp add: Path_def hasPrefix_def PathUnescape_escape comp_def)
qed

section \<open>Outcomes\<close>

text \<open>A mutation whose headers were sent fails either with the answer of the server or as uncertain.\<close>

lemma sent_mutation_fails_uncertain:
  assumes "Request cf c xc method wanted = Inl e" "mutation method" "xc_Marshal xc = None" "xc_Build xc = None"
    and "\<And>x. xc_Transport xc \<noteq> Inl (x, False)"
  shows "(\<exists>status msg. e = ServerAnswer status msg) \<or>
    (\<exists>cause. e = RequestError cause (uncertainMessage c (safeText cf c (errText cause))))"
proof (cases "xc_Transport xc")
  case (Inl f)
  then show ?thesis
    using assms by (cases f; cases "snd f") (auto simp: Request_def openResponse_def failure_def Let_def)
next
  case (Inr res)
  show ?thesis
  proof (cases "hr_Status res < 200 \<or> hr_Status res \<ge> 300")
    case True
    then show ?thesis
      using assms Inr by (auto simp: Request_def openResponse_def Let_def split: prod.splits)
  next
    case False
    then have "Request cf c xc method wanted = (case readResult xc wanted res of Inr x \<Rightarrow> Inr x | Inl e \<Rightarrow> Inl (failure cf c e method True))"
      using assms Inr by (auto simp: Request_def openResponse_def split: sum.splits)
    then show ?thesis
      using assms(1,2) by (auto simp: failure_def Let_def split: sum.splits)
  qed
qed

lemma waitLoop_confirms:
  "waitLoop un fault sandboxID commandID ls = Inr item \<Longrightarrow>
     cd_ID item = commandID \<and> cd_SandboxID item = sandboxID \<and> cd_ExitCode item \<noteq> None"
proof (induction un fault sandboxID commandID ls rule: waitLoop.induct)
  case (1 un fault sandboxID commandID ls)
  show ?case
    using 1(2) unfolding waitLoop.simps [of un fault sandboxID commandID ls]
    by (auto split: prod.splits sum.splits if_splits dest: 1(1) [OF sym])
qed

text \<open>\<open>Wait\<close> succeeds only with a confirmed exit of the command it was asked about.\<close>

lemma wait_confirms_exit:
  "Wait cf c xc un sandboxID commandID = Inr item \<Longrightarrow>
     cd_ID item = commandID \<and> cd_SandboxID item = sandboxID \<and> cd_ExitCode item \<noteq> None"
  by (auto simp: Wait_def split: sum.splits dest: waitLoop_confirms)

text \<open>\<open>Resolve\<close> answers the only sandbox that the target names, or the only one that it abbreviates.\<close>

lemma resolve_is_unambiguous:
  assumes "Resolve cf pr c xc target = Inr i" "Request cf c xc ''GET'' True = Inr (Some items)"
  shows "\<exists>x. ss_ID x = i \<and> (filter (\<lambda>x. ss_ID x = target \<or> ss_Name x = target) items = [x] \<or>
    filter (\<lambda>x. ss_ID x = target \<or> ss_Name x = target) items = [] \<and> target \<noteq> [] \<and>
    filter (\<lambda>x. hasPrefix (ss_ID x) target) items = [x])"
proof -
  obtain x where "matching target items = [x]" "i = ss_ID x"
    using assms by (auto simp: Resolve_def split: list.splits)
  then show ?thesis
    by (cases "target = []") (auto simp: matching_def Let_def split: if_splits)
qed

section \<open>From the server's records to the terminal\<close>

fun lineKind :: "log_line \<Rightarrow> string" where
  "lineKind (Text k d) = k"
| "lineKind (Failure s) = ''error''"

fun lineText :: "log_line \<Rightarrow> string" where
  "lineText (Text k d) = d"
| "lineText (Failure s) = s"

text \<open>
  What \<open>encoding/json\<close> documents of a record with valid text: an object on one line of UTF-8 that decodes to
  the record again and is at most six times as long as its text.
\<close>

definition wellEncoded :: "(log_line \<Rightarrow> string) \<Rightarrow> (string \<Rightarrow> err + string \<times> string option) \<Rightarrow> log_line \<Rightarrow> bool" where
  "wellEncoded enc un l \<longleftrightarrow> un (enc l) = Inr (lineKind l, Some (lineText l)) \<and>
     enc l \<noteq> [] \<and> hd (enc l) = CHR ''{'' \<and> last (enc l) = CHR ''}'' \<and> CHR 0x0A \<notin> set (enc l) \<and>
     validUtf8 (enc l) \<and> length (enc l) \<le> 128 + 6 * length (lineText l)"

text \<open>The body of the response: \<open>Encode\<close> ends every record with a newline.\<close>

definition wire :: "(log_line \<Rightarrow> string) \<Rightarrow> log_line list \<Rightarrow> string" where
  "wire enc ls = concat (map (\<lambda>l. enc l @ [CHR 0x0A]) ls)"

lemma splitOn_wire:
  "(\<And>l. l \<in> set ls \<Longrightarrow> CHR 0x0A \<notin> set (enc l)) \<Longrightarrow> splitOn (CHR 0x0A) (wire enc ls) = map enc ls @ [[]]"
  by (induction ls) (simp_all add: wire_def splitOn_append)

lemma scanLines_wire:
  "(\<And>l. l \<in> set ls \<Longrightarrow> CHR 0x0A \<notin> set (enc l)) \<Longrightarrow> scanLines (wire enc ls) = map enc ls"
  by (simp add: scanLines_def splitOn_wire)

lemma DecodeRune_ascii: "b < 0x80 \<Longrightarrow> DecodeRune (b # p) = Some 1"
  by (simp add: DecodeRune_def brokenRune_def runeLength_def)

lemma TrimSpace_object:
  assumes "s \<noteq> []" "hd s = CHR ''{''" "last s = CHR ''}''"
  shows "TrimSpace s = s"
proof -
  let ?p = "bytes_of s"
  have "hd ?p = 0x7B" "last ?p = 0x7D" "?p \<noteq> []"
    using assms by (simp_all add: bytes_of_def hd_map last_map)
  then obtain q r where p: "?p = 0x7B # q" "?p = r @ [0x7D]"
    by (metis append_butlast_last_id list.collapse)
  have "trimFront ?p = ?p"
    by (subst trimFront.simps) (simp add: p(1) DecodeRune_ascii isSpaceRune_def)
  moreover have "trimBack ?p = ?p"
    by (subst trimBack.simps) (simp add: p(2) lastRune_def DecodeRune_ascii isSpaceRune_def)
  ultimately show ?thesis
    by (simp add: TrimSpace_def)
qed

lemma decodeRecord_line:
  assumes "wellEncoded enc un l" "length (lineText l) \<le> 32768"
  shows "decodeRecord un fault (enc l # ls) = (Inr (lineKind l, Some (lineText l)), ls)"
proof -
  have w: "un (enc l) = Inr (lineKind l, Some (lineText l))" "enc l \<noteq> []" "hd (enc l) = CHR ''{''"
      "last (enc l) = CHR ''}''" "validUtf8 (enc l)" "length (enc l) \<le> 128 + 6 * length (lineText l)"
    using assms(1) by (simp_all add: wellEncoded_def)
  have "length (enc l) \<le> MaxStreamFrameBytes"
    using w(6) assms(2) by (simp add: MaxStreamFrameBytes_def)
  moreover have "dropCR (enc l) = enc l"
    using w(4) by (simp add: dropCR_def)
  moreover have "TrimSpace (enc l) = enc l"
    using TrimSpace_object [OF w(2,3,4)] .
  ultimately show ?thesis
    using w(1,2,5) by simp
qed

text \<open>What the writers have received after the records.\<close>

definition printedAfter :: "log_line list \<Rightarrow> printed \<Rightarrow> printed" where
  "printedAfter ls p = \<lparr>pr_Out = pr_Out p @ kindText ''stdout'' ls, pr_Err = pr_Err p @ kindText ''stderr'' ls,
     pr_Writes = pr_Writes p + length (filter (\<lambda>l. \<not> isFailure l) ls)\<rparr>"

lemma logsLoop_wire:
  assumes "\<And>l. l \<in> set ls \<Longrightarrow> wellEncoded enc un l \<and> length (lineText l) \<le> 32768 \<and> soundLine {''stdout'', ''stderr''} l"
    and "\<And>a l b. ls = a @ l # b \<Longrightarrow> isFailure l \<Longrightarrow> b = []"
  shows "\<exists>e. logsLoop cf pr c un (\<lambda>_ _. None) None (map enc ls) p = (e, printedAfter ls p) \<and>
    (e = None \<longleftrightarrow> filter isFailure ls = [])"
  using assms
proof (induction ls arbitrary: p)
  case Nil
  show ?case
    by (subst logsLoop.simps) (simp add: printedAfter_def kindText_def)
next
  case (Cons l ls)
  have d: "decodeRecord un None (map enc (l # ls)) = (Inr (lineKind l, Some (lineText l)), map enc ls)"
    using Cons.prems(1) [of l] decodeRecord_line by simp
  show ?case
  proof (cases l)
    case (Failure s)
    then have "ls = []"
      using Cons.prems(2) [of "[]" l ls] by simp
    then show ?thesis
      using d Failure by (subst logsLoop.simps) (simp add: printedAfter_def kindText_def)
  next
    case (Text k x)
    have k: "k = ''stdout'' \<or> k = ''stderr''"
      using Cons.prems(1) [of l] Text by (auto simp: soundLine_def)
    let ?p = "if k = ''stdout'' then p\<lparr>pr_Out := pr_Out p @ x, pr_Writes := Suc (pr_Writes p)\<rparr>
              else p\<lparr>pr_Err := pr_Err p @ x, pr_Writes := Suc (pr_Writes p)\<rparr>"
    have "ls = a @ m # b \<Longrightarrow> isFailure m \<Longrightarrow> b = []" for a m b
      using Cons.prems(2) [of "l # a" m b] by simp
    then obtain e where e: "logsLoop cf pr c un (\<lambda>_ _. None) None (map enc ls) ?p = (e, printedAfter ls ?p)"
        "e = None \<longleftrightarrow> filter isFailure ls = []"
      using Cons.IH [of ?p] Cons.prems(1) by auto
    have "printedAfter ls ?p = printedAfter (l # ls) p"
      using k Text by (auto simp: printedAfter_def kindText_def)
    moreover have "logsLoop cf pr c un (\<lambda>_ _. None) None (map enc (l # ls)) p =
        logsLoop cf pr c un (\<lambda>_ _. None) None (map enc ls) ?p"
      using d k Text by (subst logsLoop.simps) auto
    ultimately show ?thesis
      using e Text by auto
  qed
qed

lemma writeLines_all: "filter isFailure ls = [] \<Longrightarrow> writeLines ls = ls"
  by (induction ls) (auto split: if_splits)

lemma writeLines_failures: "filter isFailure (writeLines ls) = [] \<longleftrightarrow> filter isFailure ls = []"
  by (induction ls) auto

text \<open>A reader that ended leaves no failure record exactly if it delivered text.\<close>

lemma ended_stream:
  assumes "received 0 rds = (s, e)" "isEOF e"
  shows "textOf (readStream kind newStream rds) = scanned s"
    "filter isFailure (readStream kind newStream rds) = [] \<longleftrightarrow> utf8_text (bytes_of s)"
    "scanned s = s \<longleftrightarrow> utf8_text (bytes_of s)"
proof -
  have r: "textOf (readStream kind newStream rds) = scanned s"
      "filter isFailure (readStream kind newStream rds) = failureOf kind s e"
    using readStream_result [of newStream rds s e kind] assms(1)
    by (simp_all add: newStream_def scanText_partial FullRune_def)
  then show "textOf (readStream kind newStream rds) = scanned s"
    by simp
  show t: "scanned s = s \<longleftrightarrow> utf8_text (bytes_of s)"
    by (simp add: scanText_whole scanned_whole)
  have "utf8_text (bytes_of s) \<Longrightarrow> \<not> snd (scanText (bytes_of s))"
    using scanText_invalid [of "bytes_of s"] by (metis append_Nil2)
  then show "filter isFailure (readStream kind newStream rds) = [] \<longleftrightarrow> utf8_text (bytes_of s)"
    using assms(2) t unfolding r failureOf_def by (auto simp: isEOF_def split: option.splits)
qed

text \<open>The response that the server writes when the caller stays: some interleaving of both readers' records.\<close>

definition fullResponse :: "log_reader \<Rightarrow> log_reader \<Rightarrow> log_line list \<Rightarrow> bool" where
  "fullResponse outs errs ls \<longleftrightarrow>
     (\<exists>order \<in> shuffles (readStream ''stdout'' newStream outs) (readStream ''stderr'' newStream errs). ls = writeLines order)"

definition streams :: "'a http_exchange \<Rightarrow> string \<Rightarrow> bool" where
  "streams xc body \<longleftrightarrow> xc_Marshal xc = None \<and> xc_Build xc = None \<and>
     (\<exists>res. xc_Transport xc = Inr res \<and> 200 \<le> hr_Status res \<and> hr_Status res < 300 \<and>
        xc_MediaType xc (hr_ContentType res) = Some ''application/x-ndjson'' \<and> hr_Body res = body \<and> hr_Fault res = None)"

lemma openStream_ok:
  assumes "streams xc body"
  shows "\<exists>res. openStream cf c xc = Inr res \<and> hr_Body res = body \<and> hr_Fault res = None"
  using assms by (auto simp: streams_def openStream_def openResponse_def)

lemma followed_logs:
  assumes "fullResponse outs errs ls" "streams xc (wire enc ls)"
    and "\<forall>l \<in> set ls. wellEncoded enc un l \<and> length (lineText l) \<le> 32768"
    and "received 0 outs = (so, eo)" "isEOF eo" "received 0 errs = (se, ee)" "isEOF ee"
  shows "case Logs cf pr c xc un (\<lambda>_ _. None) \<lparr>pr_Out = [], pr_Err = [], pr_Writes = 0\<rparr> of (e, p) \<Rightarrow>
    (\<exists>r. so = pr_Out p @ r) \<and> (\<exists>r. se = pr_Err p @ r) \<and>
    (e = None \<longleftrightarrow> utf8_text (bytes_of so) \<and> utf8_text (bytes_of se)) \<and>
    (e = None \<longrightarrow> pr_Out p = so \<and> pr_Err p = se)"
proof -
  let ?a = "readStream ''stdout'' newStream outs" and ?b = "readStream ''stderr'' newStream errs"
  let ?p0 = "\<lparr>pr_Out = [], pr_Err = [], pr_Writes = 0\<rparr>"
  obtain order where o: "order \<in> shuffles ?a ?b" "ls = writeLines order"
    using assms(1) by (auto simp: fullResponse_def)
  obtain rest where rest: "order = ls @ rest"
    using writeLines_append [of order] o(2) by auto
  obtain res where res: "openStream cf c xc = Inr res" "hr_Body res = wire enc ls" "hr_Fault res = None"
    using openStream_ok [OF assms(2)] by blast
  have sound: "wellEncoded enc un l \<and> length (lineText l) \<le> 32768 \<and> soundLine {''stdout'', ''stderr''} l"
    if "l \<in> set ls" for l
    using assms(3) that shuffled_records(3) [OF o(1), of l] rest by auto
  have final: "b = []" if "ls = a @ l # b" "isFailure l" for a l b
    using writeLines_failure [of order a l b] that o(2) by simp
  have "\<exists>e. logsLoop cf pr c un (\<lambda>_ _. None) None (map enc ls) ?p0 = (e, printedAfter ls ?p0) \<and>
      (e = None \<longleftrightarrow> filter isFailure ls = [])"
    by (rule logsLoop_wire) (fact sound, fact final)
  then obtain e where e: "logsLoop cf pr c un (\<lambda>_ _. None) None (map enc ls) ?p0 = (e, printedAfter ls ?p0)"
      "e = None \<longleftrightarrow> filter isFailure ls = []"
    by blast
  have "scanLines (hr_Body res) = map enc ls"
    unfolding res(2) by (rule scanLines_wire) (use sound in \<open>auto simp: wellEncoded_def\<close>)
  then have logs: "Logs cf pr c xc un (\<lambda>_ _. None) ?p0 = (map_option ClientError e, printedAfter ls ?p0)"
    using res e(1) by (simp add: Logs_def)
  have kt: "kindText ''stdout'' order = scanned so" "kindText ''stderr'' order = scanned se"
    using shuffled_records(1,2) [OF o(1)] ended_stream(1) assms(4-7) by simp_all
  have fails: "filter isFailure ls = [] \<longleftrightarrow> utf8_text (bytes_of so) \<and> utf8_text (bytes_of se)"
    unfolding o(2) writeLines_failures
    using set_shuffles [OF o(1)] ended_stream(2) [OF assms(4,5), of "''stdout''"]
      ended_stream(2) [OF assms(6,7), of "''stderr''"] by (auto simp: filter_empty_conv)
  have "\<exists>r. so = scanned so @ r" "\<exists>r. se = scanned se @ r"
    unfolding scanned_def by (metis append_take_drop_id)+
  then have prefixes: "\<exists>r. so = kindText ''stdout'' ls @ r" "\<exists>r. se = kindText ''stderr'' ls @ r"
    using kt unfolding rest by (metis append.assoc kindText_append)+
  have "kindText ''stdout'' ls = so \<and> kindText ''stderr'' ls = se" if "filter isFailure ls = []"
  proof -
    have "ls = order"
      using that writeLines_all [of order] o(2) by (simp add: writeLines_failures)
    then show ?thesis
      using kt fails that ended_stream(3) [OF assms(4,5)] ended_stream(3) [OF assms(6,7)] by simp
  qed
  then show ?thesis
    unfolding logs using prefixes e(2) fails by (simp add: printedAfter_def)
qed

text \<open>
  C27: Following the logs of a command that has ended, from the reads of the server to the terminal: the
  client prints beginnings of what the two readers delivered, and it reports success exactly when both
  streams were UTF-8 text, in which case it has printed them completely and exactly. This holds for every
  way the readers cut their bytes and every interleaving of their records, if the transfer is complete and
  the writers accept what they are given.
\<close>

theorem followed_logs_are_complete:
  assumes "fullResponse outs errs ls" "streams xc (wire enc ls)"
    and "\<forall>l \<in> set ls. wellEncoded enc un l \<and> length (lineText l) \<le> 32768"
    and "received 0 outs = (so, eo)" "isEOF eo" "received 0 errs = (se, ee)" "isEOF ee"
  shows "case Logs cf pr c xc un (\<lambda>_ _. None) \<lparr>pr_Out = [], pr_Err = [], pr_Writes = 0\<rparr> of (e, p) \<Rightarrow>
    (\<exists>r. so = pr_Out p @ r) \<and> (\<exists>r. se = pr_Err p @ r) \<and>
    (e = None \<longleftrightarrow> utf8_text (bytes_of so) \<and> utf8_text (bytes_of se)) \<and>
    (e = None \<longrightarrow> pr_Out p = so \<and> pr_Err p = se)"
  by (rule followed_logs [OF assms])

definition demo_exchange :: "unit http_exchange" where
  "demo_exchange = \<lparr>xc_Marshal = None, xc_Build = None,
     xc_Transport = Inr \<lparr>hr_Status = 200, hr_ContentType = ''application/x-ndjson'',
       hr_Body = wire (\<lambda>_. ''{x}'') [Text ''stdout'' ''ok''], hr_Fault = None\<rparr>,
     xc_Ctx = None, xc_Problem = \<lambda>_. ([], []), xc_StatusText = \<lambda>_. [], xc_MediaType = Some, xc_Decode = \<lambda>_. Inr ((), True)\<rparr>"

lemma demo_response: "fullResponse [(''ok'', Some EOF)] [([], Some EOF)] [Text ''stdout'' ''ok'']"
proof -
  have "readStream ''stdout'' newStream [(''ok'', Some EOF)] = [Text ''stdout'' ''ok'']"
      "readStream ''stderr'' newStream [([], Some EOF)] = []"
    by code_simp+
  then show ?thesis
    by (simp add: fullResponse_def)
qed

lemma demo_encoded: "wellEncoded (\<lambda>_. ''{x}'') (\<lambda>_. Inr (''stdout'', Some ''ok'')) (Text ''stdout'' ''ok'')"
proof -
  have "validUtf8 ''{x}''"
    by code_simp
  then show ?thesis
    by (simp add: wellEncoded_def)
qed

theorem followed_logs_are_complete_witness:
  "case Logs (\<lambda>_. False) (\<lambda>_. True) \<lparr>cl_addr = DefaultAddr, cl_token = []\<rparr> demo_exchange
     (\<lambda>_. Inr (''stdout'', Some ''ok'')) (\<lambda>_ _. None) \<lparr>pr_Out = [], pr_Err = [], pr_Writes = 0\<rparr> of (e, p) \<Rightarrow>
   (\<exists>r. ''ok'' = pr_Out p @ r) \<and> (\<exists>r. [] = pr_Err p @ r) \<and>
   (e = None \<longleftrightarrow> utf8_text (bytes_of ''ok'') \<and> utf8_text (bytes_of [])) \<and>
   (if e = None then pr_Out p = ''ok'' \<and> pr_Err p = [] else True)"
proof -
  have "streams demo_exchange (wire (\<lambda>_. ''{x}'') [Text ''stdout'' ''ok''])"
    by (simp add: streams_def demo_exchange_def)
  moreover have "received 0 [(''ok'', Some EOF)] = (''ok'', Some EOF)" "received 0 [([], Some EOF)] = ([], Some EOF)"
    by code_simp+
  ultimately show ?thesis
    using followed_logs_are_complete [OF demo_response, of demo_exchange "\<lambda>_. ''{x}''"
        "\<lambda>_. Inr (''stdout'', Some ''ok'')" "''ok''" "Some EOF" "[]" "Some EOF" "\<lambda>_. False" "\<lambda>_. True"
        "\<lparr>cl_addr = DefaultAddr, cl_token = []\<rparr>"] demo_encoded
    by (auto simp: isEOF_def split: prod.splits if_splits)
qed

end
