(* ===== verification/Process_Control.thy ===== *)
theory Process_Control
  imports Safe_Text
begin

text \<open>
  \<open>src/internal/processctl/server.go\<close>: the lock and the process record of a data directory, by which
  \<open>start\<close> and \<open>stop\<close> find a running server. A process is its process ID; what it does to the directory
  between two others' operations is one event, so a list of events is any interleaving of servers and
  observers, with crashes. The file lock belongs to at most one process and is released when the process
  ends. Creation and writing of the temporary file of \<open>Publish\<close> touch nothing that others see.
\<close>

section \<open>The record\<close>

definition pidText :: "nat \<Rightarrow> string" where
  "pidText p = Itoa p @ [CHR 0x0A]"

text \<open>\<open>readPID\<close>: \<open>fault\<close> is an error of reading an existing file.\<close>

definition readPID :: "err option \<Rightarrow> string option \<Rightarrow> err + int" where
  "readPID fault file =
     (case fault of
        Some e \<Rightarrow> Inl e
      | None \<Rightarrow>
     (case file of
        None \<Rightarrow> Inl (Msg ''file does not exist'')
      | Some contents \<Rightarrow>
          (case Atoi (TrimSpace contents) of
             None \<Rightarrow> Inl (Msg ''invalid OpenSBX process record'')
           | Some pid \<Rightarrow> if pid \<le> 0 then Inl (Msg ''invalid OpenSBX process record'') else Inr pid)))"

text \<open>\<open>pid, _ = readPID(path)\<close>.\<close>

definition pidOrZero :: "err option \<Rightarrow> string option \<Rightarrow> int" where
  "pidOrZero fault file = (case readPID fault file of Inl _ \<Rightarrow> 0 | Inr pid \<Rightarrow> pid)"

section \<open>State\<close>

text \<open>
  Where a process is: outside of the calls; in \<open>Acquire\<close> with or without the lock; a server that may have
  published; in \<open>Close\<close> before the removal or before the unlock; in \<open>Running\<close> with the lock, before the removal
  or before the unlock, or without the lock.
\<close>

datatype phase = Away | Taken | Blocked | Serving bool | Ending | Ended | Probing | Probed | Refused

datatype control_answer =
    AcquireAnswer "err option"
  | PublishAnswer "err option"
  | CloseAnswer "err option"
  | RunningAnswer "err + int \<times> bool"

record control =
  ct_lock :: "nat option"
  ct_file :: "string option"
  ct_phase :: "nat \<Rightarrow> phase"
  ct_answers :: "(nat \<times> control_answer) list"

definition unused :: control where
  "unused = \<lparr>ct_lock = None, ct_file = None, ct_phase = \<lambda>_. Away, ct_answers = []\<rparr>"

definition enter :: "nat \<Rightarrow> phase \<Rightarrow> control \<Rightarrow> control" where
  "enter p ph s = s\<lparr>ct_phase := (ct_phase s)(p := ph)\<rparr>"

definition giveAnswer :: "nat \<Rightarrow> control_answer \<Rightarrow> phase \<Rightarrow> control \<Rightarrow> control" where
  "giveAnswer p a ph s = enter p ph (s\<lparr>ct_answers := ct_answers s @ [(p, a)]\<rparr>)"

text \<open>\<open>os.Remove\<close>, whose failure the callers ignore.\<close>

definition removeFile :: "bool \<Rightarrow> control \<Rightarrow> control" where
  "removeFile ok s = (if ok then s\<lparr>ct_file := None\<rparr> else s)"

section \<open>Operations\<close>

text \<open>What can go wrong before and in \<open>TryLock\<close>: in \<open>Acquire\<close>, and in \<open>Running\<close>.\<close>

record acquire_faults =
  af_abs :: "err option"
  af_mkdir :: "err option"
  af_open :: "err option"
  af_lock :: "err option"

record probe_faults =
  pf_abs :: "err option"
  pf_absent :: bool
  pf_stat :: "err option"
  pf_file :: bool
  pf_lock :: "err option"

definition acquireTry :: "nat \<Rightarrow> acquire_faults \<Rightarrow> control \<Rightarrow> control" where
  "acquireTry p f s =
     (case af_abs f of Some e \<Rightarrow> giveAnswer p (AcquireAnswer (Some e)) Away s | None \<Rightarrow>
     (case af_mkdir f of Some e \<Rightarrow> giveAnswer p (AcquireAnswer (Some (Wrap ''prepare server control directory'' e))) Away s | None \<Rightarrow>
     (case af_open f of Some e \<Rightarrow> giveAnswer p (AcquireAnswer (Some (Wrap ''open server control lock'' e))) Away s | None \<Rightarrow>
     (case af_lock f of Some e \<Rightarrow> giveAnswer p (AcquireAnswer (Some (Wrap ''lock server control directory'' e))) Away s | None \<Rightarrow>
        if ct_lock s = None then enter p Taken (s\<lparr>ct_lock := Some p\<rparr>) else enter p Blocked s))))"

definition acquireBlocked :: "nat \<Rightarrow> err option \<Rightarrow> control \<Rightarrow> control" where
  "acquireBlocked p fault s =
     (let pid = pidOrZero fault (ct_file s) in
      giveAnswer p (AcquireAnswer (Some (Msg
        (if pid > 0 then ''OpenSBX is already running (PID '' @ Itoa (nat pid) @ '')''
         else ''OpenSBX is already starting or running'')))) Away s)"

definition acquireRemove :: "nat \<Rightarrow> bool \<Rightarrow> control \<Rightarrow> control" where
  "acquireRemove p ok s = giveAnswer p (AcquireAnswer None) (Serving False) (removeFile ok s)"

text \<open>\<open>Publish\<close> for the caller's own process ID; \<open>fault\<close> is the error of an earlier step or of the rename.\<close>

definition Publish :: "nat \<Rightarrow> err option \<Rightarrow> bool \<Rightarrow> control \<Rightarrow> control" where
  "Publish p fault published s =
     (case fault of
        Some e \<Rightarrow> giveAnswer p (PublishAnswer (Some e)) (Serving published) s
      | None \<Rightarrow> giveAnswer p (PublishAnswer None) (Serving True) (s\<lparr>ct_file := Some (pidText p)\<rparr>))"

definition closeRead :: "nat \<Rightarrow> err option \<Rightarrow> control \<Rightarrow> control" where
  "closeRead p fault s =
     (case readPID fault (ct_file s) of
        Inr pid \<Rightarrow> enter p (if pid = int p then Ending else Ended) s
      | Inl _ \<Rightarrow> enter p Ended s)"

definition closeRemove :: "nat \<Rightarrow> bool \<Rightarrow> control \<Rightarrow> control" where
  "closeRemove p ok s = enter p Ended (removeFile ok s)"

definition closeUnlock :: "nat \<Rightarrow> err option \<Rightarrow> control \<Rightarrow> control" where
  "closeUnlock p fault s =
     (case fault of
        Some e \<Rightarrow> giveAnswer p (CloseAnswer (Some e)) Ended s
      | None \<Rightarrow> giveAnswer p (CloseAnswer None) Away (s\<lparr>ct_lock := None\<rparr>))"

definition probeTry :: "nat \<Rightarrow> probe_faults \<Rightarrow> control \<Rightarrow> control" where
  "probeTry p f s =
     (case pf_abs f of Some e \<Rightarrow> giveAnswer p (RunningAnswer (Inl e)) Away s | None \<Rightarrow>
      if pf_absent f then giveAnswer p (RunningAnswer (Inr (0, False))) Away s else
     (case pf_stat f of Some e \<Rightarrow> giveAnswer p (RunningAnswer (Inl e)) Away s | None \<Rightarrow>
      if pf_file f then giveAnswer p (RunningAnswer (Inl (Msg ''server control path is not a directory''))) Away s else
     (case pf_lock f of Some e \<Rightarrow> giveAnswer p (RunningAnswer (Inl (Wrap ''check server process'' e))) Away s | None \<Rightarrow>
        if ct_lock s = None then enter p Probing (s\<lparr>ct_lock := Some p\<rparr>) else enter p Refused s)))"

definition probeRemove :: "nat \<Rightarrow> bool \<Rightarrow> control \<Rightarrow> control" where
  "probeRemove p ok s = enter p Probed (removeFile ok s)"

definition probeUnlock :: "nat \<Rightarrow> control \<Rightarrow> control" where
  "probeUnlock p s = giveAnswer p (RunningAnswer (Inr (0, False))) Away (s\<lparr>ct_lock := None\<rparr>)"

definition probeRead :: "nat \<Rightarrow> err option \<Rightarrow> control \<Rightarrow> control" where
  "probeRead p fault s = giveAnswer p (RunningAnswer (Inr (pidOrZero fault (ct_file s), True))) Away s"

text \<open>The process ends, at any point: the system releases its lock.\<close>

definition crash :: "nat \<Rightarrow> control \<Rightarrow> control" where
  "crash p s = enter p Away (if ct_lock s = Some p then s\<lparr>ct_lock := None\<rparr> else s)"

section \<open>Interleavings\<close>

datatype control_event =
    AcquireTry nat acquire_faults
  | AcquireBlocked nat "err option"
  | AcquireRemove nat bool
  | PublishRecord nat "err option"
  | CloseRead nat "err option"
  | CloseRemove nat bool
  | CloseUnlock nat "err option"
  | ProbeTry nat probe_faults
  | ProbeRemove nat bool
  | ProbeUnlock nat
  | ProbeRead nat "err option"
  | Crash nat

text \<open>\<open>None\<close>: the process is not where the event begins. Process IDs are positive Go integers.\<close>

fun control_step :: "control_event \<Rightarrow> control \<Rightarrow> control option" where
  "control_step (AcquireTry p f) s = (if ct_phase s p = Away then Some (acquireTry p f s) else None)"
| "control_step (AcquireBlocked p e) s = (if ct_phase s p = Blocked then Some (acquireBlocked p e s) else None)"
| "control_step (AcquireRemove p ok) s = (if ct_phase s p = Taken then Some (acquireRemove p ok s) else None)"
| "control_step (PublishRecord p e) s =
     (if 0 < p \<and> p < 2 ^ 63 then
        (case ct_phase s p of Serving b \<Rightarrow> Some (Publish p e b s) | _ \<Rightarrow> None) else None)"
| "control_step (CloseRead p e) s = (case ct_phase s p of Serving b \<Rightarrow> Some (closeRead p e s) | _ \<Rightarrow> None)"
| "control_step (CloseRemove p ok) s = (if ct_phase s p = Ending then Some (closeRemove p ok s) else None)"
| "control_step (CloseUnlock p e) s = (if ct_phase s p = Ended then Some (closeUnlock p e s) else None)"
| "control_step (ProbeTry p f) s = (if ct_phase s p = Away then Some (probeTry p f s) else None)"
| "control_step (ProbeRemove p ok) s = (if ct_phase s p = Probing then Some (probeRemove p ok s) else None)"
| "control_step (ProbeUnlock p) s = (if ct_phase s p = Probed then Some (probeUnlock p s) else None)"
| "control_step (ProbeRead p e) s = (if ct_phase s p = Refused then Some (probeRead p e s) else None)"
| "control_step (Crash p) s = Some (crash p s)"

fun control_run :: "control_event list \<Rightarrow> control \<Rightarrow> control option" where
  "control_run [] s = Some s"
| "control_run (e # es) s = (case control_step e s of None \<Rightarrow> None | Some s' \<Rightarrow> control_run es s')"

section \<open>Stopping\<close>

text \<open>
  The polls of \<open>Stop\<close> that begin before the deadline: \<open>running k\<close> is the result of the \<open>k\<close>-th call of \<open>Running\<close>.
\<close>

fun awaitStop :: "(nat \<Rightarrow> err + int \<times> bool) \<Rightarrow> int \<Rightarrow> nat \<Rightarrow> nat \<Rightarrow> err + int" where
  "awaitStop running pid k 0 = Inl (Msg ''OpenSBX did not stop in time; check its log and retry'')"
| "awaitStop running pid k (Suc n) =
     (case running k of
        Inl e \<Rightarrow> Inl e
      | Inr (_, active) \<Rightarrow> if active then awaitStop running pid (Suc k) n else Inr pid)"

text \<open>The result and the processes that were signalled.\<close>

definition ErrServerNotRunning :: err where
  "ErrServerNotRunning = Msg ''OpenSBX is not running''"

definition StopServer :: "(nat \<Rightarrow> err + int \<times> bool) \<Rightarrow> (int \<Rightarrow> err option) \<Rightarrow> nat \<Rightarrow> (err + int) \<times> int list" where
  "StopServer running signalProcess polls =
     (case running 0 of
        Inl e \<Rightarrow> (Inl e, [])
      | Inr (pid, active) \<Rightarrow>
          if \<not> active then (Inl ErrServerNotRunning, [])
          else if pid \<le> 0 then (Inl (Msg ''OpenSBX is starting; wait a moment and retry `opensbx stop`''), [])
          else (case signalProcess pid of
              Some e \<Rightarrow>
                let failed = Wrap (''send shutdown signal to OpenSBX (PID '' @ Itoa (nat pid) @ '')'') e in
                (case running 1 of
                   Inl _ \<Rightarrow> (Inl failed, [pid])
                 | Inr (_, active') \<Rightarrow> if active' then (Inl failed, [pid]) else (Inr pid, [pid]))
            | None \<Rightarrow> (awaitStop running pid 1 polls, [pid])))"

section \<open>The record of a process\<close>

lemma digit_bytes: "b \<in> set (bytes_of (Itoa n)) \<Longrightarrow> 0x30 \<le> b \<and> b \<le> 0x39"
  using Itoa_chars [of "char_of b" n] by (auto simp: bytes_of_def digitVal_def Let_def split: if_splits)

lemma digit_rune:
  assumes "0x30 \<le> b" "b \<le> 0x39"
  shows "DecodeRune (b # p) = Some 1" "\<not> isSpaceRune b" "lastRune (p @ [b]) = Some 1"
  using assms by (auto simp: DecodeRune_def brokenRune_def runeLength_def isSpaceRune_def lastRune_def)

lemma TrimSpace_pidText: "TrimSpace (pidText p) = Itoa p"
proof -
  let ?d = "bytes_of (Itoa p)"
  have bytes: "bytes_of (pidText p) = ?d @ [0x0A]"
    by (simp add: pidText_def bytes_of_def)
  have ne: "?d \<noteq> []"
    by (simp add: bytes_of_def)
  then have ends: "0x30 \<le> hd ?d" "hd ?d \<le> 0x39" "0x30 \<le> last ?d" "last ?d \<le> 0x39"
    using digit_bytes [OF hd_in_set, of p] digit_bytes [OF last_in_set, of p] by blast+
  from ne obtain q r where d: "?d = hd ?d # q" "?d = r @ [last ?d]"
    by (metis append_butlast_last_id list.collapse)
  have "trimFront (?d @ [0x0A]) = ?d @ [0x0A]"
  proof -
    have "trimFront (hd ?d # q @ [0x0A]) = hd ?d # q @ [0x0A]"
      using digit_rune(1) [OF ends(1,2), of "q @ [0x0A]"] digit_rune(2) [OF ends(1,2)]
      by (subst trimFront.simps) simp
    then show ?thesis
      using d(1) by (metis append_Cons)
  qed
  moreover have "trimBack ?d = ?d"
  proof -
    have "trimBack (r @ [last ?d]) = r @ [last ?d]"
      using digit_rune(3) [OF ends(3,4), of r] digit_rune(2) [OF ends(3,4)]
      by (subst trimBack.simps) simp
    then show ?thesis
      using d(2) by metis
  qed
  moreover have "trimBack (?d @ [0x0A]) = trimBack ?d"
    by (subst trimBack.simps)
      (simp add: lastRune_def DecodeRune_def brokenRune_def runeLength_def isSpaceRune_def)
  ultimately show ?thesis
    by (simp add: TrimSpace_def bytes)
qed

lemma readPID_pidText: "0 < p \<Longrightarrow> p < 2 ^ 63 \<Longrightarrow> readPID None (Some (pidText p)) = Inr (int p)"
  by (simp add: readPID_def TrimSpace_pidText)

section \<open>The invariant\<close>

text \<open>The process holds the lock; the process ended as a server without removing its record.\<close>

definition locking :: "phase \<Rightarrow> bool" where
  "locking ph \<longleftrightarrow> ph \<noteq> Away \<and> ph \<noteq> Blocked \<and> ph \<noteq> Refused"

lemma locking_simps [simp]:
  "\<not> locking Away" "\<not> locking Blocked" "\<not> locking Refused" "locking Taken" "locking (Serving b)"
  "locking Ending" "locking Ended" "locking Probing" "locking Probed"
  by (simp_all add: locking_def)

fun abandons :: "nat \<Rightarrow> control_event \<Rightarrow> bool" where
  "abandons p (Crash q) \<longleftrightarrow> q = p"
| "abandons p (CloseRemove q ok) \<longleftrightarrow> q = p \<and> \<not> ok"
| "abandons p (CloseRead q fault) \<longleftrightarrow> q = p \<and> fault \<noteq> None"
| "abandons p _ \<longleftrightarrow> False"

definition abandoned :: "nat \<Rightarrow> control_event list \<Rightarrow> bool" where
  "abandoned p es \<longleftrightarrow> list_ex (abandons p) es"

definition valid_pid :: "nat \<Rightarrow> bool" where
  "valid_pid p \<longleftrightarrow> 0 < p \<and> p < 2 ^ 63"

definition owning_record :: "phase \<Rightarrow> bool" where
  "owning_record ph \<longleftrightarrow> ph = Serving True \<or> ph = Ending"

lemmas control_ops = acquireTry_def acquireBlocked_def acquireRemove_def Publish_def closeRead_def closeRemove_def
  closeUnlock_def probeTry_def probeRemove_def probeUnlock_def probeRead_def crash_def Let_def

lemma pidText_inj [simp]: "pidText p = pidText q \<longleftrightarrow> p = q"
  unfolding pidText_def by (metis append_same_eq decAcc_Itoa option.inject)

lemma enter_simps [simp]:
  "ct_phase (enter p ph s) = (ct_phase s)(p := ph)" "ct_lock (enter p ph s) = ct_lock s" "ct_file (enter p ph s) = ct_file s"
  "ct_phase (giveAnswer p a ph s) = (ct_phase s)(p := ph)" "ct_lock (giveAnswer p a ph s) = ct_lock s"
  "ct_file (giveAnswer p a ph s) = ct_file s"
  "ct_phase (removeFile ok s) = ct_phase s" "ct_lock (removeFile ok s) = ct_lock s"
  "ct_file (removeFile ok s) = (if ok then None else ct_file s)"
  by (simp_all add: enter_def giveAnswer_def removeFile_def)

lemma abandoned_snoc [simp]: "abandoned p (es @ [e]) \<longleftrightarrow> abandoned p es \<or> abandons p e"
  by (simp add: abandoned_def)

text \<open>What an event does to the lock, the phases and the record.\<close>

fun actor :: "control_event \<Rightarrow> nat" where
  "actor (AcquireTry p f) = p" | "actor (AcquireBlocked p x) = p" | "actor (AcquireRemove p ok) = p"
| "actor (PublishRecord p x) = p" | "actor (CloseRead p x) = p" | "actor (CloseRemove p ok) = p"
| "actor (CloseUnlock p x) = p" | "actor (ProbeTry p f) = p" | "actor (ProbeRemove p ok) = p"
| "actor (ProbeUnlock p) = p" | "actor (ProbeRead p x) = p" | "actor (Crash p) = p"

lemma step_phase: "control_step e s = Some s' \<Longrightarrow> q \<noteq> actor e \<Longrightarrow> ct_phase s' q = ct_phase s q"
  by (cases e) (auto simp: control_ops split: if_splits option.splits phase.splits sum.splits)

lemma step_lock:
  assumes "control_step e s = Some s'"
  shows "ct_lock s' = ct_lock s \<and> (locking (ct_phase s' (actor e)) \<longleftrightarrow> locking (ct_phase s (actor e))) \<or>
    ct_lock s = None \<and> ct_lock s' = Some (actor e) \<and> locking (ct_phase s' (actor e)) \<or>
    ct_lock s' = None \<and> locking (ct_phase s (actor e)) \<and> \<not> locking (ct_phase s' (actor e)) \<or>
    ct_lock s' = (if ct_lock s = Some (actor e) then None else ct_lock s) \<and> \<not> locking (ct_phase s' (actor e))"
  using assms by (cases e) (auto simp: control_ops split: if_splits option.splits phase.splits sum.splits)

definition lock_ok :: "control \<Rightarrow> bool" where
  "lock_ok s \<longleftrightarrow> (\<forall>p. ct_lock s = Some p \<longleftrightarrow> locking (ct_phase s p))"

lemma lock_step:
  assumes "lock_ok s" "control_step e s = Some s'"
  shows "lock_ok s'"
  unfolding lock_ok_def
proof
  fix p
  have l: "ct_lock s = Some p \<longleftrightarrow> locking (ct_phase s p)" "ct_lock s = Some (actor e) \<longleftrightarrow> locking (ct_phase s (actor e))"
    using assms(1) unfolding lock_ok_def by blast+
  show "ct_lock s' = Some p \<longleftrightarrow> locking (ct_phase s' p)"
  proof (cases "p = actor e")
    case True
    then show ?thesis
      using step_lock [OF assms(2)] l by auto
  next
    case False
    then show ?thesis
      using step_lock [OF assms(2)] step_phase [OF assms(2) False] l by auto
  qed
qed

text \<open>The record is that of the published server at work, or of an abandoned one.\<close>

definition recorded :: "control_event list \<Rightarrow> control \<Rightarrow> nat \<Rightarrow> bool" where
  "recorded es s p \<longleftrightarrow> valid_pid p \<and> PublishRecord p None \<in> set es \<and> (owning_record (ct_phase s p) \<or> abandoned p es)"

definition file_ok :: "control_event list \<Rightarrow> control \<Rightarrow> bool" where
  "file_ok es s \<longleftrightarrow>
     (\<forall>p. owning_record (ct_phase s p) \<longrightarrow> ct_file s = Some (pidText p)) \<and>
     (\<forall>t. ct_file s = Some t \<longrightarrow> (\<exists>p. t = pidText p \<and> recorded es s p))"

lemma owning_locking: "owning_record ph \<Longrightarrow> locking ph"
  by (auto simp: owning_record_def)

lemma readPID_record:
  "valid_pid p \<Longrightarrow> readPID fault (Some (pidText p)) = (case fault of None \<Rightarrow> Inr (int p) | Some e \<Rightarrow> Inl e)"
  using readPID_pidText [of p] by (auto simp: valid_pid_def readPID_def split: option.splits)

lemma step_file:
  assumes "control_step e s = Some s'"
  shows "ct_file s' = ct_file s \<or>
    ct_file s' = None \<and> locking (ct_phase s (actor e)) \<and> \<not> owning_record (ct_phase s' (actor e)) \<or>
    e = PublishRecord (actor e) None \<and> valid_pid (actor e) \<and> locking (ct_phase s (actor e)) \<and>
      ct_file s' = Some (pidText (actor e)) \<and> owning_record (ct_phase s' (actor e))"
  using assms by (cases e)
    (auto simp: control_ops owning_record_def valid_pid_def split: if_splits option.splits phase.splits sum.splits)

text \<open>A published server keeps its record, removes it, or abandons it.\<close>

lemma step_owner:
  assumes "control_step e s = Some s'" "owning_record (ct_phase s p)" "ct_file s = Some (pidText p)" "valid_pid p"
  shows "owning_record (ct_phase s' p) \<or> ct_file s' = None \<or> abandons p e"
  using assms readPID_record [OF assms(4)] by (cases e)
    (auto simp: control_ops owning_record_def split: if_splits option.splits phase.splits sum.splits)

text \<open>The record that \<open>Close\<close> is about to remove has its own process ID.\<close>

lemma step_becomes_owner:
  assumes "control_step e s = Some s'" "owning_record (ct_phase s' (actor e))" "\<not> owning_record (ct_phase s (actor e))"
  shows "e = PublishRecord (actor e) None \<or> readPID None (ct_file s) = Inr (int (actor e)) \<and> ct_file s' = ct_file s"
  using assms by (cases e)
    (auto simp: control_ops owning_record_def readPID_def split: if_splits option.splits phase.splits sum.splits)

lemma recorded_step:
  assumes "control_step e s = Some s'" "recorded es s p" "ct_file s = Some (pidText p)" "ct_file s' \<noteq> None"
  shows "recorded (es @ [e]) s' p"
  using assms step_owner [OF assms(1), of p] by (auto simp: recorded_def)

lemma file_step:
  assumes "lock_ok s" "file_ok es s" "control_step e s = Some s'"
  shows "file_ok (es @ [e]) s'"
proof -
  let ?a = "actor e"
  have only: "q = ?a" if "locking (ct_phase s q)" "locking (ct_phase s ?a)" for q
    using assms(1) that unfolding lock_ok_def by (metis option.inject)
  have rec: "\<exists>p. t = pidText p \<and> recorded es s p" if "ct_file s = Some t" for t
    using assms(2) that unfolding file_ok_def by blast
  have own: "ct_file s = Some (pidText p)" if "owning_record (ct_phase s p)" for p
    using assms(2) that unfolding file_ok_def by blast
  have "ct_file s' = Some (pidText p)" if o: "owning_record (ct_phase s' p)" for p
  proof (cases "p = ?a \<and> \<not> owning_record (ct_phase s p)")
    case True
    then consider "e = PublishRecord ?a None" | "readPID None (ct_file s) = Inr (int ?a)" "ct_file s' = ct_file s"
      using step_becomes_owner [OF assms(3)] o by blast
    then show ?thesis
    proof cases
      case 1
      then show ?thesis
        using assms(3) True by (cases e) (auto simp: control_ops split: if_splits phase.splits)
    next
      case 2
      then obtain t where t: "ct_file s = Some t"
        by (auto simp: readPID_def split: option.splits)
      then obtain q where q: "t = pidText q" "recorded es s q"
        using rec by blast
      then show ?thesis
        using 2 t readPID_record [of q] True by (simp add: recorded_def)
    qed
  next
    case False
    then have before: "owning_record (ct_phase s p)"
      using o step_phase [OF assms(3), of p] by (cases "p = ?a") auto
    then have "ct_file s = Some (pidText p)"
      by (rule own)
    then show ?thesis
      using step_file [OF assms(3)] only [OF owning_locking [OF before]] o by auto
  qed
  moreover have "\<exists>p. t = pidText p \<and> recorded (es @ [e]) s' p" if t: "ct_file s' = Some t" for t
    using step_file [OF assms(3)]
  proof (elim disjE conjE)
    assume "ct_file s' = ct_file s"
    then show ?thesis
      using rec [of t] recorded_step [OF assms(3)] t by auto
  next
    assume "e = PublishRecord ?a None" "valid_pid ?a" "ct_file s' = Some (pidText ?a)" "owning_record (ct_phase s' ?a)"
    then show ?thesis
      using t unfolding recorded_def by (metis in_set_conv_decomp option.inject)
  qed (use t in simp)
  ultimately show ?thesis
    unfolding file_ok_def by blast
qed

lemma control_run_snoc:
  "control_run (es @ [e]) s = (case control_run es s of None \<Rightarrow> None | Some s' \<Rightarrow> control_step e s')"
  by (induction es arbitrary: s) (auto split: option.splits)

lemma control_invariant:
  "control_run es unused = Some s \<Longrightarrow> lock_ok s \<and> file_ok es s"
proof (induction es arbitrary: s rule: rev_induct)
  case Nil
  then have "s = unused"
    by simp
  then show ?case
    by (simp add: unused_def lock_ok_def file_ok_def owning_record_def)
next
  case (snoc e es)
  then obtain s0 where s0: "control_run es unused = Some s0" "control_step e s0 = Some s"
    by (auto simp: control_run_snoc split: option.splits)
  then show ?case
    using snoc.IH lock_step file_step by blast
qed

section \<open>Observers\<close>

text \<open>
  C33: In every interleaving of servers and observers, with crashes and failing file operations, at most one
  process is inside the section that the lock guards, and a \<open>Running\<close> that finds the lock taken answers
  with the process ID of the published server if there is one, and otherwise with none, or with one
  that was published by the process that still owns the lock or by a server that ended without removing
  its record.
\<close>

theorem running_finds_the_server:
  assumes "control_run (es @ [ProbeRead q None]) unused = Some s"
  shows "(\<forall>p p'. locking (ct_phase s p) \<and> locking (ct_phase s p') \<longrightarrow> p = p') \<and>
    (\<exists>pid. last (ct_answers s) = (q, RunningAnswer (Inr (pid, True))) \<and>
      (\<forall>p. ct_phase s p = Serving True \<longrightarrow> pid = int p) \<and>
      (pid = 0 \<or> (\<exists>p. pid = int p \<and> PublishRecord p None \<in> set es \<and> (ct_lock s = Some p \<or> abandoned p es))))"
proof -
  obtain s0 where s0: "control_run es unused = Some s0" "control_step (ProbeRead q None) s0 = Some s"
    using assms by (auto simp: control_run_snoc split: option.splits)
  have inv0: "lock_ok s0" "file_ok es s0"
    using control_invariant [OF s0(1)] by simp_all
  have s: "ct_phase s = (ct_phase s0)(q := Away)" "ct_lock s = ct_lock s0"
      "last (ct_answers s) = (q, RunningAnswer (Inr (pidOrZero None (ct_file s0), True)))"
    using s0(2) by (auto simp: probeRead_def giveAnswer_def enter_def split: if_splits)
  have "lock_ok s"
    using control_invariant [OF assms] by simp
  then have "\<forall>p p'. locking (ct_phase s p) \<and> locking (ct_phase s p') \<longrightarrow> p = p'"
    unfolding lock_ok_def by (metis option.inject)
  moreover have "pidOrZero None (ct_file s0) = int p" if "ct_phase s p = Serving True" for p
  proof -
    have "owning_record (ct_phase s0 p)"
      using that s(1) by (auto simp: owning_record_def split: if_splits)
    then have f: "ct_file s0 = Some (pidText p)"
      using inv0(2) unfolding file_ok_def by blast
    then obtain p' where "pidText p = pidText p'" "recorded es s0 p'"
      using inv0(2) unfolding file_ok_def by blast
    then show ?thesis
      using f readPID_record [of p None] by (simp add: recorded_def pidOrZero_def)
  qed
  moreover have "\<exists>p. pidOrZero None (ct_file s0) = int p \<and> PublishRecord p None \<in> set es \<and> (ct_lock s = Some p \<or> abandoned p es)"
    if "pidOrZero None (ct_file s0) \<noteq> 0"
  proof -
    have "pidOrZero None None = 0"
      by (simp add: pidOrZero_def readPID_def)
    then have "ct_file s0 \<noteq> None"
      using that by metis
    then obtain t where t: "ct_file s0 = Some t"
      by blast
    then obtain p where p: "t = pidText p" "recorded es s0 p"
      using inv0(2) unfolding file_ok_def by blast
    then have "ct_lock s = Some p \<or> abandoned p es"
      using inv0(1) owning_locking [of "ct_phase s0 p"] s(2) by (auto simp: recorded_def lock_ok_def)
    then show ?thesis
      using p t readPID_record [of p None] by (auto simp: recorded_def pidOrZero_def)
  qed
  ultimately show ?thesis
    using s(3) by blast
qed

definition no_faults :: acquire_faults where
  "no_faults = \<lparr>af_abs = None, af_mkdir = None, af_open = None, af_lock = None\<rparr>"

definition no_probe_faults :: probe_faults where
  "no_probe_faults = \<lparr>pf_abs = None, pf_absent = False, pf_stat = None, pf_file = False, pf_lock = None\<rparr>"

lemmas control_eval = control_ops unused_def no_faults_def no_probe_faults_def enter_def giveAnswer_def removeFile_def

theorem running_finds_the_server_witness:
  "\<exists>s. control_run [AcquireTry 7 no_faults, AcquireRemove 7 True, PublishRecord 7 None, ProbeTry 9 no_probe_faults,
      ProbeRead 9 None] unused = Some s \<and> last (ct_answers s) = (9, RunningAnswer (Inr (7, True)))"
proof -
  obtain s where s: "control_run ([AcquireTry 7 no_faults, AcquireRemove 7 True, PublishRecord 7 None,
      ProbeTry 9 no_probe_faults] @ [ProbeRead 9 None]) unused = Some s" "ct_phase s 7 = Serving True"
    by (simp add: control_eval)
  obtain pid where "last (ct_answers s) = (9, RunningAnswer (Inr (pid, True)))" "pid = int 7"
    using running_finds_the_server [OF s(1)] s(2) by blast
  then show ?thesis
    using s(1) by simp
qed

text \<open>
  What the lock does not promise. An observer's own short ownership of the lock makes a server that starts at
  that moment fail, although no server was ever there; \<open>start\<close> observes the server that it has just started.
\<close>

lemma observer_refuses_a_starting_server:
  "map_option ct_answers (control_run [ProbeTry 9 no_probe_faults, AcquireTry 7 no_faults, AcquireBlocked 7 None,
     ProbeRemove 9 True, ProbeUnlock 9] unused) =
   Some [(7, AcquireAnswer (Some (Msg ''OpenSBX is already starting or running''))), (9, RunningAnswer (Inr (0, False)))]"
  by (simp add: control_eval pidOrZero_def readPID_def)

text \<open>
  Between the lock and the removal of an old record in \<open>Acquire\<close> an observer takes the record of a crashed
  server for that of the one that starts, and \<open>stop\<close> would signal that process ID.
\<close>

lemma stale_record_is_reported:
  "map_option (last \<circ> ct_answers) (control_run [AcquireTry 7 no_faults, AcquireRemove 7 True, PublishRecord 7 None, Crash 7,
     AcquireTry 8 no_faults, ProbeTry 9 no_probe_faults, ProbeRead 9 None] unused) =
   Some (9, RunningAnswer (Inr (7, True)))"
  using readPID_record [of 7 None] by (simp add: control_eval pidOrZero_def valid_pid_def)

text \<open>\<open>Stop\<close> signals only the process that the first look reported, and succeeds only after a look that found none.\<close>

lemma awaitStop_sound:
  "awaitStop running pid k n = Inr r \<Longrightarrow> r = pid \<and> (\<exists>j \<ge> k. \<exists>x. running j = Inr (x, False))"
proof (induction n arbitrary: k)
  case (Suc n)
  then obtain x active where k: "running k = Inr (x, active)"
    by (auto split: sum.splits)
  show ?case
  proof (cases active)
    case True
    then have "r = pid \<and> (\<exists>j \<ge> Suc k. \<exists>x. running j = Inr (x, False))"
      using Suc k by simp
    then show ?thesis
      using Suc_leD by blast
  next
    case False
    then have "r = pid \<and> running k = Inr (x, False)"
      using Suc.prems k by simp
    then show ?thesis
      by blast
  qed
qed simp

lemma stop_signals_the_reported_process:
  assumes "StopServer running signalProcess polls = (r, signalled)"
  shows "signalled \<noteq> [] \<Longrightarrow> \<exists>pid > 0. running 0 = Inr (pid, True) \<and> signalled = [pid]"
    "r = Inr pid \<Longrightarrow> running 0 = Inr (pid, True) \<and> signalled = [pid] \<and> (\<exists>j > 0. \<exists>x. running j = Inr (x, False))"
proof -
  have later: "\<exists>j > 0. \<exists>x. running j = Inr (x, False)" if "running (Suc 0) = Inr (x, False)" for x
    using that by blast
  have await: "p = a \<and> (\<exists>j > 0. \<exists>x. running j = Inr (x, False))" if "awaitStop running a (Suc 0) polls = Inr p" for a p
    using awaitStop_sound [OF that] by (simp add: Suc_le_eq)
  show "signalled \<noteq> [] \<Longrightarrow> \<exists>pid > 0. running 0 = Inr (pid, True) \<and> signalled = [pid]"
    using assms by (auto simp: StopServer_def Let_def split: sum.splits if_splits option.splits)
  assume r: "r = Inr pid"
  obtain a b where first: "running 0 = Inr (a, b)"
    using assms r by (cases "running 0") (auto simp: StopServer_def)
  have up: "b" "\<not> a \<le> 0"
    using assms r first by (simp_all add: StopServer_def split: if_splits)
  have a: "running 0 = Inr (a, True)" "signalled = [a]"
      "if signalProcess a = None then awaitStop running a (Suc 0) polls = Inr pid
       else pid = a \<and> (\<exists>x. running (Suc 0) = Inr (x, False))"
    using assms r first up by (auto simp: StopServer_def Let_def split: option.splits sum.splits if_splits)
  have "pid = a \<and> (\<exists>j > 0. \<exists>x. running j = Inr (x, False))"
  proof (cases "signalProcess a = None")
    case True
    then have "awaitStop running a (Suc 0) polls = Inr pid"
      using a(3) by simp
    then show ?thesis
      by (rule await)
  next
    case False
    then obtain x where "pid = a" "running (Suc 0) = Inr (x, False)"
      using a(3) by auto
    then show ?thesis
      using later by simp
  qed
  then show "running 0 = Inr (pid, True) \<and> signalled = [pid] \<and> (\<exists>j > 0. \<exists>x. running j = Inr (x, False))"
    using a by simp
qed

end
