(* ===== verification/Request_Log.thy ===== *)
theory Request_Log
  imports Safe_Text
begin

text \<open>
  \<open>src/internal/logging/request.go\<close>: the line that is logged for a request. The printed time and duration are
  parameters; \<open>cf\<close> and \<open>pr\<close> are the tables of \<open>unicode\<close> and \<open>strconv\<close>.
\<close>

section \<open>The line\<close>

record log_params =
  lp_TimeStamp :: string
  lp_StatusCode :: int
  lp_Latency :: string
  lp_BodySize :: int
  lp_Method :: string
  lp_Path :: string
  lp_ClientIP :: string
  lp_ErrorMessage :: string

definition maxRequestLogBytes :: nat where
  "maxRequestLogBytes = 2048"

text \<open>The verb \<open>%d\<close>.\<close>

definition signedText :: "int \<Rightarrow> string" where
  "signedText n = (if n < 0 then CHR ''-'' # Itoa (nat (- n)) else Itoa (nat n))"

definition logPiece :: "(nat \<Rightarrow> bool) \<Rightarrow> (nat \<Rightarrow> bool) \<Rightarrow> nat \<Rightarrow> nat list" where
  "logPiece cf pr r = butlast (tl (bytes_of (Quote pr (Escape cf (ofBytes (utf8 r)) False))))"

fun fieldBytes :: "(nat \<Rightarrow> bool) \<Rightarrow> (nat \<Rightarrow> bool) \<Rightarrow> int \<Rightarrow> nat list \<Rightarrow> nat list \<Rightarrow> nat list" where
  "fieldBytes cf pr maxBytes out [] = out"
| "fieldBytes cf pr maxBytes out (r # rs) =
     (let piece = logPiece cf pr r in
      if int (length out + length piece) > maxBytes - 4 then out @ [0x2E, 0x2E, 0x2E]
      else fieldBytes cf pr maxBytes (out @ piece) rs)"

definition requestLogField :: "(nat \<Rightarrow> bool) \<Rightarrow> (nat \<Rightarrow> bool) \<Rightarrow> string \<Rightarrow> int \<Rightarrow> string" where
  "requestLogField cf pr v maxBytes = ofBytes (fieldBytes cf pr maxBytes [0x22] (runesOf (bytes_of v)) @ [0x22])"

text \<open>\<open>utf8.RuneStart\<close>, and the last position up to \<open>n\<close> where a rune starts.\<close>

definition RuneStart :: "char \<Rightarrow> bool" where
  "RuneStart b \<longleftrightarrow> of_char b < (0x80 :: nat) \<or> 0xC0 \<le> (of_char b :: nat)"

fun backUp :: "string \<Rightarrow> nat \<Rightarrow> nat" where
  "backUp s 0 = 0"
| "backUp s (Suc n) = (if RuneStart (s ! Suc n) then Suc n else backUp s n)"

definition RequestLogFormatter :: "(nat \<Rightarrow> bool) \<Rightarrow> (nat \<Rightarrow> bool) \<Rightarrow> log_params \<Rightarrow> string" where
  "RequestLogFormatter cf pr p =
     (let line = ''http request time='' @ lp_TimeStamp p @ '' status='' @ signedText (lp_StatusCode p) @
        '' duration='' @ lp_Latency p @ '' bytes='' @ signedText (lp_BodySize p) @
        '' method='' @ requestLogField cf pr (lp_Method p) 96 @ '' path='' @ requestLogField cf pr (lp_Path p) 896 @
        '' ip='' @ requestLogField cf pr (lp_ClientIP p) 160 @ '' error='' @ requestLogField cf pr (lp_ErrorMessage p) 640
      in (if length line \<ge> maxRequestLogBytes then take (backUp line (maxRequestLogBytes - 4)) line @ ''...'' else line) @
         [CHR 0x0A])"

section \<open>Fields\<close>

text \<open>A reader that skips the byte after a backslash meets no quote in the text.\<close>

fun quoteFree :: "nat list \<Rightarrow> bool" where
  "quoteFree [] \<longleftrightarrow> True"
| "quoteFree [b] \<longleftrightarrow> b \<noteq> 0x5C \<and> b \<noteq> 0x22"
| "quoteFree (b # c # cs) \<longleftrightarrow> (if b = 0x5C then quoteFree cs else b \<noteq> 0x22 \<and> quoteFree (c # cs))"

lemma quoteFree_append: "quoteFree a \<Longrightarrow> quoteFree b \<Longrightarrow> quoteFree (a @ b)"
proof (induction a rule: quoteFree.induct)
  case (2 x)
  then show ?case
    by (cases b) auto
qed (simp_all split: if_splits)

lemma quoteFree_plain: "(\<And>b. b \<in> set bs \<Longrightarrow> b \<noteq> 0x22 \<and> b \<noteq> 0x5C) \<Longrightarrow> quoteFree bs"
  by (induction bs rule: quoteFree.induct) simp_all

lemma quoteFree_escape: "quoteFree bs \<Longrightarrow> quoteFree (0x5C # c # bs)"
  by simp

lemma hexDigits_plain: "d \<in> set (hexDigits k r) \<Longrightarrow> d \<noteq> 0x22 \<and> d \<noteq> 0x5C"
proof (induction k r rule: hexDigits.induct)
  case (2 k r)
  have "r mod 16 < 16"
    by simp
  then show ?case
    using 2 by (auto simp: hexChar_def split: if_splits)
qed simp

lemma quoteRune_free: "quoteFree (quoteRune r)"
  by (simp add: quoteRune_def quoteFree_plain hexDigits_plain)

definition loggedByte :: "nat \<Rightarrow> bool" where
  "loggedByte b \<longleftrightarrow> 0x20 \<le> b \<and> b < 256"

lemma utf8_above: "b \<in> set (utf8 r) \<Longrightarrow> 0x80 \<le> r \<Longrightarrow> 0x80 \<le> b"
  by (auto simp: utf8_def split: if_splits)

lemma quoteOne_sound:
  assumes "\<forall>r. pr r \<longrightarrow> 0x20 \<le> r" "scalar r"
  shows "quoteFree (quoteOne pr r) \<and> list_all loggedByte (quoteOne pr r)"
proof -
  consider "r = 0x22 \<or> r = 0x5C" | "r \<noteq> 0x22" "r \<noteq> 0x5C" "pr r" "r < 0x80" | "r \<noteq> 0x22" "r \<noteq> 0x5C" "pr r" "0x80 \<le> r"
    | "r \<noteq> 0x22" "r \<noteq> 0x5C" "\<not> pr r"
    by linarith
  then show ?thesis
  proof cases
    case 3
    have "b < 256 \<and> 0x80 \<le> b" if "b \<in> set (utf8 r)" for b
      using utf8_bytes [OF assms(2)] utf8_above [OF that 3(4)] that by auto
    then show ?thesis
      using 3 quoteFree_plain [of "utf8 r"] by (fastforce simp: quoteOne_def list_all_iff loggedByte_def)
  next
    case 4
    then show ?thesis
      using quoteRune_free [of r] quoteRune_set [of _ r] by (fastforce simp: quoteOne_def list_all_iff loggedByte_def)
  qed (use assms(1) in \<open>auto simp: quoteOne_def loggedByte_def\<close>)
qed

lemma quoteBytes_sound:
  "\<forall>r. pr r \<longrightarrow> 0x20 \<le> r \<Longrightarrow> quoteFree (quoteBytes pr p) \<and> list_all loggedByte (quoteBytes pr p)"
proof (induction pr p rule: quoteBytes.induct)
  case (1 pr p)
  show ?case
  proof (cases "p = []")
    case False
    show ?thesis
    proof (cases "DecodeRune p")
      case None
      have "quoteFree (0x5C # 0x78 # hexDigits 2 (hd p))" "list_all loggedByte (0x5C # 0x78 # hexDigits 2 (hd p))"
        using quoteFree_plain [of "hexDigits 2 (hd p)", OF hexDigits_plain]
        by (auto simp: loggedByte_def list_all_iff dest: hexDigits_set)
      then show ?thesis
        using None False 1 quoteFree_append [of "0x5C # 0x78 # hexDigits 2 (hd p)"]
        by (subst (1 2) quoteBytes.simps) simp
    next
      case (Some n)
      obtain u where "scalar u" "take n p = utf8 u"
        using DecodeRune_rune [OF Some] by blast
      then show ?thesis
        using Some False 1 quoteOne_sound [of pr u] quoteFree_append
        by (subst (1 2) quoteBytes.simps) (simp add: runeValue_utf8)
    qed
  qed (simp add: quoteBytes.simps)
qed

lemma logPiece_quoteBytes: "\<forall>r. pr r \<longrightarrow> 0x20 \<le> r \<Longrightarrow> logPiece cf pr r = quoteBytes pr (bytes_of (Escape cf (ofBytes (utf8 r)) False))"
proof -
  assume "\<forall>r. pr r \<longrightarrow> 0x20 \<le> r"
  then have "\<forall>b \<in> set (0x22 # quoteBytes pr (bytes_of (Escape cf (ofBytes (utf8 r)) False)) @ [0x22]). b < 256"
    using quoteBytes_sound [of pr] by (auto simp: list_all_iff loggedByte_def)
  then show ?thesis
    unfolding logPiece_def Quote_def by (simp only: bytes_of_ofBytes) simp
qed

text \<open>A field: two quotes around text that has none, in its bounds.\<close>

definition sealedField :: "int \<Rightarrow> string \<Rightarrow> bool" where
  "sealedField m f \<longleftrightarrow> (\<exists>body. bytes_of f = 0x22 # body @ [0x22] \<and> quoteFree body \<and> list_all loggedByte body) \<and> int (length f) \<le> m"

lemma fieldBytes_sound:
  assumes "\<forall>r. pr r \<longrightarrow> 0x20 \<le> r" "quoteFree body" "list_all loggedByte body" "int (length body) + 1 \<le> m - 4"
  shows "\<exists>body'. fieldBytes cf pr m (0x22 # body) rs = 0x22 # body' \<and> quoteFree body' \<and> list_all loggedByte body' \<and>
    int (length body') + 2 \<le> m"
  using assms(2-4)
proof (induction rs arbitrary: body)
  case (Cons r rs)
  have piece: "quoteFree (logPiece cf pr r) \<and> list_all loggedByte (logPiece cf pr r)"
    using logPiece_quoteBytes [OF assms(1)] quoteBytes_sound [OF assms(1)] by simp
  have dots: "quoteFree [0x2E, 0x2E, 0x2E]" "list_all loggedByte [0x2E, 0x2E, 0x2E]"
    by (simp_all add: loggedByte_def)
  show ?case
  proof (cases "int (length (0x22 # body) + length (logPiece cf pr r)) > m - 4")
    case True
    then show ?thesis
      using Cons.prems quoteFree_append [OF Cons.prems(1) dots(1)] dots(2) by (simp add: Let_def)
  next
    case False
    then have "int (length (body @ logPiece cf pr r)) + 1 \<le> m - 4"
      by simp
    then show ?thesis
      using Cons.IH [of "body @ logPiece cf pr r"] Cons.prems piece quoteFree_append False by (simp add: Let_def)
  qed
qed simp

lemma requestLogField_sealed:
  assumes "\<forall>r. pr r \<longrightarrow> 0x20 \<le> r" "5 \<le> m"
  shows "sealedField m (requestLogField cf pr v m)"
proof -
  obtain body where b: "fieldBytes cf pr m [0x22] (runesOf (bytes_of v)) = 0x22 # body" "quoteFree body"
      "list_all loggedByte body" "int (length body) + 2 \<le> m"
    using fieldBytes_sound [OF assms(1), of "[]" m cf "runesOf (bytes_of v)"] assms(2) by auto
  then have "bytes_of (requestLogField cf pr v m) = 0x22 # body @ [0x22]"
    unfolding requestLogField_def b(1) by (subst bytes_of_ofBytes) (auto simp: list_all_iff loggedByte_def)
  then show ?thesis
    using b by (auto simp: sealedField_def requestLogField_def)
qed

lemma sealedField_newline: "sealedField m f \<Longrightarrow> CHR 0x0A \<notin> set f"
proof
  assume f: "sealedField m f" "CHR 0x0A \<in> set f"
  then have "0x0A \<in> set (bytes_of f)"
    by (force simp: bytes_of_def)
  then show False
    using f(1) by (fastforce simp: sealedField_def list_all_iff loggedByte_def)
qed

section \<open>One line\<close>

lemma backUp_le: "backUp s n \<le> n"
  by (induction s n rule: backUp.induct) auto

lemma signedText_newline: "CHR 0x0A \<notin> set (signedText n)"
  by (simp add: signedText_def digitVal_def)



end
