(* ===== verification/Cli_Exec.thy ===== *)
theory Cli_Exec
  imports Api_Client Request_Log
begin

text \<open>
  \<open>src/internal/cli/command.go\<close> and \<open>capture.go\<close>: running a command in the foreground. Two goroutines follow the
  command, one its status and one its logs; the caller selects among their results, its own context and
  the timer that begins with the status. What is ready and selected next is a list of events. What \<open>Wait\<close>,
  \<open>Logs\<close> and the requests return are arguments.
\<close>

section \<open>Exit codes\<close>

text \<open>\<open>ExitError\<close>, an error of the client in the words of this command, and another error.\<close>

datatype cli_error = ExitStatus int | CommandError string client_error string | CliError err | Unwrapped client_error

definition guestExit :: "command_detail \<Rightarrow> cli_error option" where
  "guestExit v =
     (case cd_ExitCode v of
        None \<Rightarrow> Some (CliError (Msg ''command completion has no confirmed exit code''))
      | Some n \<Rightarrow>
          if n < 0 \<or> n > 255 then Some (CliError (Msg (''guest returned unsupported exit code '' @ signedText n)))
          else if n \<noteq> 0 then Some (ExitStatus n) else None)"

section \<open>Captured output\<close>

definition jsonCaptureLimit :: nat where
  "jsonCaptureLimit = 8 * 2 ^ 20"

text \<open>\<open>captureWriter.Write\<close> refuses what exceeds the budget of both streams together.\<close>

definition captureFails :: "printed \<Rightarrow> string \<Rightarrow> err option" where
  "captureFails p d =
     (if int (length d) > int jsonCaptureLimit - int (length (pr_Out p) + length (pr_Err p))
      then Some (Msg ''foreground JSON capture limit exceeded (8 MiB total); use raw streaming for larger output'')
      else None)"

section \<open>The foreground loop\<close>

datatype fg_event = CtxDone | StatusReady | LogsReady | DrainTimeout

record fg =
  fg_Terminal :: "command_detail option"
  fg_StatusOpen :: bool
  fg_LogsOpen :: bool
  fg_LogComplete :: bool

definition fgStart :: fg where
  "fgStart = \<lparr>fg_Terminal = None, fg_StatusOpen = True, fg_LogsOpen = True, fg_LogComplete = False\<rparr>"

text \<open>Each goroutine sends once; the timer exists once the status is known.\<close>

fun selectable :: "bool \<Rightarrow> fg \<Rightarrow> fg_event \<Rightarrow> bool" where
  "selectable cancelled f CtxDone \<longleftrightarrow> cancelled"
| "selectable cancelled f StatusReady \<longleftrightarrow> fg_StatusOpen f"
| "selectable cancelled f LogsReady \<longleftrightarrow> fg_LogsOpen f"
| "selectable cancelled f DrainTimeout \<longleftrightarrow> fg_Terminal f \<noteq> None"

datatype fg_end = FgBlocked | FgInterrupted | FgBroken cli_error | FgFinished command_detail

text \<open>
  One turn of the loop: it ends, or it goes on. An event is paired with \<open>ctx.Err() != nil\<close> at that time; one that
  cannot be selected does not happen.
\<close>

fun fgSelect ::
  "string \<Rightarrow> client_error + command_detail \<Rightarrow> client_error option \<Rightarrow> bool \<Rightarrow> fg \<Rightarrow> fg_event \<Rightarrow> fg_end + fg" where
  "fgSelect cid st lg cancelled f CtxDone = Inl FgInterrupted"
| "fgSelect cid st lg cancelled f StatusReady =
     (case st of
        Inl e \<Rightarrow> if cancelled then Inr (f\<lparr>fg_StatusOpen := False\<rparr>) else Inl (FgBroken (CommandError cid e []))
      | Inr v \<Rightarrow> Inr (f\<lparr>fg_StatusOpen := False, fg_Terminal := Some v\<rparr>))"
| "fgSelect cid st lg cancelled f LogsReady =
     (case lg of
        Some e \<Rightarrow>
          if cancelled then Inr (f\<lparr>fg_LogsOpen := False\<rparr>)
          else Inl (FgBroken (CommandError cid e '' (observation detached; inspect command status)''))
      | None \<Rightarrow> Inr (f\<lparr>fg_LogsOpen := False, fg_LogComplete := True\<rparr>))"
| "fgSelect cid st lg cancelled f DrainTimeout =
     Inl (FgBroken (CliError (Msg (''command '' @ cid @ '' exited, but log stream did not close; observation detached''))))"

text \<open>The loop; when the events end before it does, it is blocked.\<close>

definition fgSettled :: "fg \<Rightarrow> command_detail option" where
  "fgSettled f = (if fg_LogComplete f then fg_Terminal f else None)"

fun fgLoop :: "string \<Rightarrow> client_error + command_detail \<Rightarrow> client_error option \<Rightarrow> fg \<Rightarrow> (bool \<times> fg_event) list \<Rightarrow> fg_end" where
  "fgLoop cid st lg f [] = (case fgSettled f of Some v \<Rightarrow> FgFinished v | None \<Rightarrow> FgBlocked)"
| "fgLoop cid st lg f ((cancelled, ev) # evs) =
     (case fgSettled f of
        Some v \<Rightarrow> FgFinished v
      | None \<Rightarrow>
          if \<not> selectable cancelled f ev then fgLoop cid st lg f evs
          else (case fgSelect cid st lg cancelled f ev of
              Inl r \<Rightarrow> r
            | Inr f' \<Rightarrow> fgLoop cid st lg f' evs))"

text \<open>
  What the caller leaves behind: the signals that it requested for a command of a sandbox, the notes on its
  standard error, and the result that it printed as JSON.
\<close>

record fg_effects =
  fx_Signals :: "(string \<times> string \<times> int) list"
  fx_Notes :: string
  fx_Result :: "(command_detail \<times> string \<times> string) option"

definition noEffects :: fg_effects where
  "noEffects = \<lparr>fx_Signals = [], fx_Notes = [], fx_Result = None\<rparr>"

text \<open>
  \<open>killed\<close>: the printed error of the kill request, if any. \<open>outFails\<close>: the error of printing the result. The
  first result is \<open>None\<close> while the loop is blocked.
\<close>

definition foreground ::
  "(nat \<Rightarrow> bool) \<Rightarrow> string \<Rightarrow> string \<Rightarrow> bool \<Rightarrow> client_error + command_detail \<Rightarrow> client_error option \<Rightarrow> printed
    \<Rightarrow> string option \<Rightarrow> err option \<Rightarrow> (bool \<times> fg_event) list \<Rightarrow> cli_error option option \<times> fg_effects" where
  "foreground cf sid cid asJSON st lg p killed outFails evs =
     (case fgLoop cid st lg fgStart evs of
        FgBlocked \<Rightarrow> (None, noEffects)
      | FgBroken e \<Rightarrow> (Some (Some e), noEffects)
      | FgInterrupted \<Rightarrow>
          (Some (Some (ExitStatus 130)),
           noEffects\<lparr>fx_Signals := [(sid, cid, 2)],
             fx_Notes := (case killed of
                Some e \<Rightarrow> ''Interrupted command '' @ Escape cf cid False @ ''; SIGINT was not confirmed: '' @ Escape cf e False @
                  ''. Inspect or signal it explicitly.'' @ [CHR 0x0A]
              | None \<Rightarrow> ''Sent SIGINT to command '' @ Escape cf cid False @
                  ''; guest termination is not confirmed. Inspect or wait explicitly.'' @ [CHR 0x0A])\<rparr>)
      | FgFinished v \<Rightarrow>
          if asJSON then
            (let fx = noEffects\<lparr>fx_Result := Some (v, pr_Out p, pr_Err p)\<rparr> in
             case outFails of
               Some e \<Rightarrow> (Some (Some (CliError e)), fx)
             | None \<Rightarrow> (Some (guestExit v), fx))
          else (Some (guestExit v), noEffects))"

text \<open>
  The branch \<open>exec\<close> of \<open>command\<close> up to the foreground: the answer of the request, whether the context has ended,
  and what is printed for a detached command.
\<close>

datatype exec_next = Stopped "cli_error option" string string | Observe string

definition execBegin ::
  "(nat \<Rightarrow> bool) \<Rightarrow> (command_detail \<Rightarrow> string) \<Rightarrow> string \<Rightarrow> client_error + command_detail \<Rightarrow> bool \<Rightarrow> bool \<Rightarrow> bool
    \<Rightarrow> err option \<Rightarrow> exec_next" where
  "execBegin cf render sid req cancelled detached quiet outFails =
     (case req of
        Inl e \<Rightarrow>
          if cancelled then Stopped (Some (ExitStatus 130)) []
            (''Interrupted before receiving a command ID; execution outcome is unknown. Inspect command history before retrying.'' @ [CHR 0x0A])
          else Stopped (Some (Unwrapped e)) [] []
      | Inr v \<Rightarrow>
          if cd_ID v = [] \<or> cd_SandboxID v \<noteq> sid
          then Stopped (Some (CliError (Msg ''exec response is missing a valid command identity; inspect command history before retrying''))) [] []
          else if detached then
            Stopped (map_option CliError outFails) (if quiet then Escape cf (cd_ID v) False @ [CHR 0x0A] else render v) []
          else Observe (cd_ID v))"

section \<open>How the loop ends\<close>

definition fg_ok :: "client_error + command_detail \<Rightarrow> client_error option \<Rightarrow> fg \<Rightarrow> bool" where
  "fg_ok st lg f \<longleftrightarrow> (\<forall>v. fg_Terminal f = Some v \<longrightarrow> st = Inr v) \<and> (fg_LogComplete f \<longrightarrow> lg = None)"

lemma fgSelect_ok: "fg_ok st lg f \<Longrightarrow> fgSelect cid st lg cancelled f ev = Inr f' \<Longrightarrow> fg_ok st lg f'"
  by (cases ev) (auto simp: fg_ok_def split: sum.splits option.splits if_splits)

lemma fgSettled_ok: "fg_ok st lg f \<Longrightarrow> fgSettled f = Some v \<Longrightarrow> st = Inr v \<and> lg = None"
  by (auto simp: fg_ok_def fgSettled_def split: if_splits)

lemma fgSelect_end:
  "fgSelect cid st lg cancelled f ev = Inl r \<Longrightarrow>
     r = FgInterrupted \<and> ev = CtxDone \<or> (\<exists>e. r = FgBroken e \<and> (\<forall>n. e \<noteq> ExitStatus n))"
  by (cases ev) (auto split: sum.splits option.splits if_splits)

text \<open>
  The loop finishes with the status that \<open>Wait\<close> returned after \<open>Logs\<close> ended well; it is interrupted only by
  the end of its context; no other way to end carries an exit status.
\<close>

lemma fgLoop_ends:
  assumes "fg_ok st lg f"
  shows "fgLoop cid st lg f evs = FgFinished v \<Longrightarrow> st = Inr v \<and> lg = None"
    "fgLoop cid st lg f evs = FgInterrupted \<Longrightarrow> (True, CtxDone) \<in> set evs"
    "fgLoop cid st lg f evs \<noteq> FgBroken (ExitStatus n)"
proof -
  have "(fgLoop cid st lg f evs = FgFinished v \<longrightarrow> st = Inr v \<and> lg = None) \<and>
      (fgLoop cid st lg f evs = FgInterrupted \<longrightarrow> (True, CtxDone) \<in> set evs) \<and>
      fgLoop cid st lg f evs \<noteq> FgBroken (ExitStatus n)"
    using assms
  proof (induction evs arbitrary: f)
    case Nil
    then show ?case
      by (auto dest: fgSettled_ok split: option.splits)
  next
    case (Cons e evs)
    obtain cancelled ev where e: "e = (cancelled, ev)"
      by fastforce
    show ?case
    proof (cases "fgSettled f")
      case (Some w)
      then show ?thesis
        using fgSettled_ok [OF Cons.prems Some] by (simp add: e)
    next
      case None
      note unsettled = None
      show ?thesis
      proof (cases "selectable cancelled f ev")
        case False
        then show ?thesis
          using Cons.IH [OF Cons.prems] unsettled by (simp add: e)
      next
        case True
        show ?thesis
        proof (cases "fgSelect cid st lg cancelled f ev")
          case (Inl r)
          then show ?thesis
            using fgSelect_end [OF Inl] True unsettled by (auto simp: e)
        next
          case (Inr f')
          then show ?thesis
            using Cons.IH [OF fgSelect_ok [OF Cons.prems Inr]] True unsettled by (simp add: e)
        qed
      qed
    qed
  qed
  then show "fgLoop cid st lg f evs = FgFinished v \<Longrightarrow> st = Inr v \<and> lg = None"
    "fgLoop cid st lg f evs = FgInterrupted \<Longrightarrow> (True, CtxDone) \<in> set evs"
    "fgLoop cid st lg f evs \<noteq> FgBroken (ExitStatus n)"
    by simp_all
qed

lemma fgStart_ok: "fg_ok st lg fgStart"
  by (simp add: fg_ok_def fgStart_def)

lemma guestExit_result:
  "guestExit v = None \<longleftrightarrow> cd_ExitCode v = Some 0"
  "guestExit v = Some (ExitStatus n) \<longleftrightarrow> cd_ExitCode v = Some n \<and> 0 < n \<and> n \<le> 255"
  by (auto simp: guestExit_def split: option.splits)

text \<open>What \<open>foreground\<close> returns, for whatever its parts return.\<close>

lemma foreground_result:
  assumes "foreground cf sid cid asJSON st lg p killed outFails evs = (Some r, fx)"
  shows "r = None \<Longrightarrow> \<exists>v. st = Inr v \<and> lg = None \<and> cd_ExitCode v = Some 0 \<and> fx_Signals fx = [] \<and>
      fx_Result fx = (if asJSON then Some (v, pr_Out p, pr_Err p) else None)"
    "r = Some (ExitStatus n) \<Longrightarrow>
      n = 130 \<and> (True, CtxDone) \<in> set evs \<and> fx_Signals fx = [(sid, cid, 2)] \<or>
      (\<exists>v. st = Inr v \<and> lg = None \<and> cd_ExitCode v = Some n \<and> 0 < n \<and> n \<le> 255) \<and> fx_Signals fx = []"
proof -
  note ends = fgLoop_ends [OF fgStart_ok [of st lg], of cid evs]
  show "r = None \<Longrightarrow> \<exists>v. st = Inr v \<and> lg = None \<and> cd_ExitCode v = Some 0 \<and> fx_Signals fx = [] \<and>
      fx_Result fx = (if asJSON then Some (v, pr_Out p, pr_Err p) else None)"
    using assms ends(1)
    by (cases "fgLoop cid st lg fgStart evs")
      (auto simp: foreground_def guestExit_result noEffects_def Let_def split: if_splits option.splits)
  show "r = Some (ExitStatus n) \<Longrightarrow>
      n = 130 \<and> (True, CtxDone) \<in> set evs \<and> fx_Signals fx = [(sid, cid, 2)] \<or>
      (\<exists>v. st = Inr v \<and> lg = None \<and> cd_ExitCode v = Some n \<and> 0 < n \<and> n \<le> 255) \<and> fx_Signals fx = []"
    using assms ends(1,2) ends(3) [of n]
    by (cases "fgLoop cid st lg fgStart evs")
      (auto simp: foreground_def guestExit_result noEffects_def Let_def split: if_splits option.splits)
qed

lemma logsLoop_fails:
  "logsLoop cf pr c un fails fault ls p = (None, p') \<Longrightarrow> logsLoop cf pr c un (\<lambda>_ _. None) fault ls p = (None, p')"
proof (induction cf pr c un fails fault ls p rule: logsLoop.induct)
  case (1 cf pr c un fails fault ls p)
  note unfolded = logsLoop.simps [of cf pr c un fails fault ls p] logsLoop.simps [of cf pr c un "\<lambda>_ _. None" fault ls p]
  obtain r ls' where d: "decodeRecord un fault ls = (r, ls')"
    by fastforce
  show ?case
  proof (cases r)
    case (Inl e)
    then show ?thesis
      using 1(2) unfolding unfolded d by simp
  next
    case (Inr b)
    obtain kind x where b: "b = (kind, x)"
      by fastforce
    show ?thesis
    proof (cases x)
      case None
      then show ?thesis
        using 1(2) unfolding unfolded d Inr b by simp
    next
      case (Some t)
      then have k: "kind \<noteq> ''error''" "\<not> (kind \<noteq> ''stdout'' \<and> kind \<noteq> ''stderr'')" "fails p t = None"
        using 1(2) unfolding unfolded(1) d Inr b by (simp_all split: if_splits option.splits)
      show ?thesis
        using 1(1) [OF d [symmetric] Inr b [symmetric] Some k] 1(2) unfolding unfolded d Inr b Some
        by (simp only: prod.case sum.case option.case k if_True if_False)
    qed
  qed
qed

lemma Logs_fails:
  "Logs cf pr c xc un fails p = (None, p') \<Longrightarrow> Logs cf pr c xc un (\<lambda>_ _. None) p = (None, p')"
proof -
  assume l: "Logs cf pr c xc un fails p = (None, p')"
  then obtain res where res: "openStream cf c xc = Inr res"
    by (auto simp: Logs_def split: sum.splits)
  then have "logsLoop cf pr c un fails (hr_Fault res) (scanLines (hr_Body res)) p = (None, p')"
    using l by (simp add: Logs_def split: prod.splits)
  then show ?thesis
    using res logsLoop_fails by (simp add: Logs_def)
qed

text \<open>
  C28: The foreground speaks for the guest. Whatever is selected in whatever order, and whether the output is
  written as it arrives or captured: if the client returns success or an exit status of its command, then
  that is the confirmed exit of this command and both streams of the ended command have been printed, or
  captured for the result, completely and exactly. The only other status is 130, after the context ended
  and one interrupt signal was requested for this command.
\<close>

theorem foreground_speaks_for_the_guest:
  assumes "fullResponse outs errs ls" "streams xc (wire enc ls)"
    and "\<forall>l \<in> set ls. wellEncoded enc un l \<and> length (lineText l) \<le> 32768"
    and "received 0 outs = (so, eo)" "isEOF eo" "received 0 errs = (se, ee)" "isEOF ee"
    and "Logs cf pr c xc un fails \<lparr>pr_Out = [], pr_Err = [], pr_Writes = 0\<rparr> = (lg, p)"
    and "foreground cf sid cid asJSON (Wait cf c xw unw sid cid) lg p killed outFails evs = (Some r, fx)"
  shows "(case r of
      None \<Rightarrow> \<exists>v. Wait cf c xw unw sid cid = Inr v \<and> cd_ID v = cid \<and> cd_SandboxID v = sid \<and> cd_ExitCode v = Some 0 \<and>
        pr_Out p = so \<and> pr_Err p = se \<and> fx_Result fx = (if asJSON then Some (v, so, se) else None) \<and> fx_Signals fx = []
    | Some (ExitStatus n) \<Rightarrow>
        (\<exists>v. Wait cf c xw unw sid cid = Inr v \<and> cd_ID v = cid \<and> cd_SandboxID v = sid \<and> cd_ExitCode v = Some n \<and> 0 < n \<and>
          n \<le> 255 \<and> pr_Out p = so \<and> pr_Err p = se \<and> fx_Signals fx = []) \<or>
        n = 130 \<and> (True, CtxDone) \<in> set evs \<and> fx_Signals fx = [(sid, cid, 2)]
    | _ \<Rightarrow> True)"
proof -
  have printed: "pr_Out p = so \<and> pr_Err p = se" if "lg = None"
  proof -
    have "Logs cf pr c xc un (\<lambda>_ _. None) \<lparr>pr_Out = [], pr_Err = [], pr_Writes = 0\<rparr> = (None, p)"
      using Logs_fails assms(8) that by blast
    then show ?thesis
      using followed_logs [OF assms(1-7), of cf pr c] by simp
  qed
  have identity: "cd_ID v = cid \<and> cd_SandboxID v = sid" if "Wait cf c xw unw sid cid = Inr v" for v
    using wait_confirms_exit [OF that] by simp
  note result = foreground_result [OF assms(9)]
  show ?thesis
  proof (cases r)
    case None
    then show ?thesis
      using result(1) printed identity by auto
  next
    case (Some e)
    then show ?thesis
      using result(2) printed identity by (cases e) auto
  qed
qed

section \<open>A run\<close>

definition demo_command :: command_detail where
  "demo_command = \<lparr>cd_ID = ''c1'', cd_Name = ''true'', cd_Args = [], cd_Cwd = [], cd_SandboxID = ''s1'',
     cd_ExitCode = Some 0, cd_StartedAt = 0, cd_FinishedAt = Some 1\<rparr>"

abbreviation "demo_client \<equiv> \<lparr>cl_addr = DefaultAddr, cl_token = []\<rparr>"
abbreviation "demo_printed \<equiv> \<lparr>pr_Out = ''ok'', pr_Err = [], pr_Writes = 1\<rparr>"

lemma demo_stream: "streams demo_exchange (wire (\<lambda>_. ''{x}'') [Text ''stdout'' ''ok''])"
  by (simp add: streams_def demo_exchange_def)

lemma demo_lines: "scanLines (wire (\<lambda>_. ''{x}'') [Text ''stdout'' ''ok'']) = [''{x}'']"
  by (simp add: scanLines_wire)

lemma demo_record: "decodeRecord un fault (''{x}'' # ls) = (un ''{x}'', ls)"
proof -
  have "validUtf8 ''{x}''"
    by code_simp
  then show ?thesis
    using TrimSpace_object [of "''{x}''"] by (simp add: dropCR_def MaxStreamFrameBytes_def)
qed

lemma demo_wait: "Wait cf c demo_exchange (\<lambda>_. Inr demo_command) ''s1'' ''c1'' = Inr demo_command"
proof -
  have "waitLoop (\<lambda>_. Inr demo_command) None ''s1'' ''c1'' [''{x}''] = Inr demo_command"
    by (subst waitLoop.simps, subst demo_record) (simp add: demo_command_def)
  then show ?thesis
    using openStream_ok [OF demo_stream, of cf c] demo_lines by (auto simp: Wait_def)
qed

lemma demo_logs:
  "Logs cf pr c demo_exchange (\<lambda>_. Inr (''stdout'', Some ''ok'')) captureFails \<lparr>pr_Out = [], pr_Err = [], pr_Writes = 0\<rparr> =
     (None, demo_printed)"
proof -
  have "logsLoop cf pr c (\<lambda>_. Inr (''stdout'', Some ''ok'')) captureFails None [''{x}'']
      \<lparr>pr_Out = [], pr_Err = [], pr_Writes = 0\<rparr> = (None, demo_printed)"
    by (subst logsLoop.simps, subst demo_record, subst logsLoop.simps) (simp add: captureFails_def jsonCaptureLimit_def)
  then show ?thesis
    using openStream_ok [OF demo_stream, of cf c] demo_lines by (auto simp: Logs_def)
qed

theorem foreground_speaks_for_the_guest_witness:
  "\<exists>fx. foreground (\<lambda>_. False) ''s1'' ''c1'' True (Inr demo_command) None demo_printed None None
      [(False, LogsReady), (False, StatusReady)] = (Some None, fx) \<and> fx_Result fx = Some (demo_command, ''ok'', [])"
proof -
  let ?cf = "\<lambda>_ :: nat. False" and ?un = "\<lambda>_ :: string. Inr (''stdout'', Some ''ok'') :: err + string \<times> string option"
  have run: "foreground ?cf ''s1'' ''c1'' True (Inr demo_command) None demo_printed None None
      [(False, LogsReady), (False, StatusReady)] =
      (Some None, noEffects\<lparr>fx_Result := Some (demo_command, ''ok'', [])\<rparr>)"
    by (simp add: foreground_def fgStart_def fgSettled_def guestExit_def demo_command_def Let_def)
  have ends: "received 0 [(''ok'', Some EOF)] = (''ok'', Some EOF)" "received 0 [([], Some EOF)] = ([], Some EOF)"
    by code_simp+
  have line: "\<forall>l \<in> set [Text ''stdout'' ''ok'']. wellEncoded (\<lambda>_. ''{x}'') ?un l \<and> length (lineText l) \<le> 32768"
    using demo_encoded by simp
  show ?thesis
    using foreground_speaks_for_the_guest [OF demo_response demo_stream line ends(1) _ ends(2) _
        demo_logs [of ?cf ?cf demo_client], of "''s1''" "''c1''" True demo_exchange "\<lambda>_. Inr demo_command" None None
        "[(False, LogsReady), (False, StatusReady)]" None] run
    unfolding demo_wait by (simp add: isEOF_def)
qed

end
